(* ===== verification/Prelude.thy ===== *)
theory Prelude
  imports Main "HOL-Library.Word"
begin

text \<open>
  Shared vocabulary of the development: the machine-integer types of the sources, the
  collections of simplification rules the component theories fill, and the generic facts on
  lists, options and words that more than one component uses.

  The identities and generations of \<^verbatim>\<open>include/route_provenance/id.hpp\<close> are 64-bit words; the
  zero word is the absent value. Sizes and configured bounds (\<^verbatim>\<open>std::size_t\<close> and the
  \<^verbatim>\<open>std::uint32_t\<close> members of \<^verbatim>\<open>Limits\<close>) are natural numbers: the sources only compare them.
\<close>

type_synonym byte = "8 word"
type_synonym u8 = "8 word"
type_synonym u16 = "16 word"
type_synonym u32 = "32 word"
type_synonym u64 = "64 word"

named_theorems enum_simps \<open>evaluation of the enumeration tables\<close>
named_theorems status_defs \<open>result constructors\<close>
named_theorems enc_length \<open>lengths of canonical encodings\<close>
named_theorems graph_inv_intro \<open>preservation of the graph invariant\<close>

subsection \<open>Lists\<close>

lemma take_replicate_pad [simp]:
  "length xs = n \<Longrightarrow> take n (xs @ replicate n c) = xs"
  by simp

lemma length_take_pad [simp]: "length (take n (xs @ replicate n c)) = n"
  by simp

lemma append_eq_same_length:
  "length xs = length xs' \<Longrightarrow> xs @ ys = xs' @ ys' \<longleftrightarrow> xs = xs' \<and> ys = ys'"
  by simp

lemma sorted_wrt_less_distinct:
  fixes xs :: "'a::linorder list"
  shows "sorted_wrt (<) xs \<Longrightarrow> distinct xs"
  by (simp add: strict_sorted_iff)

lemma sorted_wrt_less_unique:
  fixes xs :: "'a::linorder list"
  assumes "sorted_wrt (<) xs" and "sorted_wrt (<) ys" and "set xs = set ys"
  shows "xs = ys"
  using assms by (simp add: strict_sorted_equal)

lemma find_None_set: "List.find P xs = None \<longleftrightarrow> (\<forall>x. x \<in> set xs \<longrightarrow> \<not> P x)"
  by (auto simp: find_None_iff)

lemma find_SomeD: "List.find P xs = Some x \<Longrightarrow> x \<in> set xs \<and> P x"
  by (induction xs) (auto split: if_splits)

lemma filter_split_count: "length (filter P xs) + length (filter (\<lambda>x. \<not> P x) xs) = length xs"
  by (rule sum_length_filter_compl)

subsection \<open>Words\<close>

lemma word_eq_0_unat: "(x :: 'a::len word) = 0 \<longleftrightarrow> unat x = 0"
  by (simp add: unat_eq_zero)

lemma unat_u16_lt: "unat (x :: u16) < 65536"
  using unsigned_less [of x, where 'a = nat] by simp

lemma unat_u32_lt: "unat (x :: u32) < 4294967296"
  using unsigned_less [of x, where 'a = nat] by simp

lemma unat_u8_lt: "unat (x :: u8) < 256"
  using unsigned_less [of x, where 'a = nat] by simp

lemma unat_of_nat_u32: "n < 4294967296 \<Longrightarrow> unat (of_nat n :: u32) = n"
  by (simp add: unsigned_of_nat take_bit_nat_eq_self)

lemma of_nat_inj_u32:
  assumes "n < 4294967296" and "m < 4294967296"
  shows "(of_nat n :: u32) = of_nat m \<longleftrightarrow> n = m"
  using assms unat_of_nat_u32 by metis

end
