(* ===== verification/Enums.thy ===== *)
theory Enums
  imports Prelude
begin

text \<open>
  The closed enumerations of \<^verbatim>\<open>include/route_provenance/enums.hpp\<close>, their stable numeric values
  and the name tables of \<^verbatim>\<open>src/core.cpp\<close>. Each enumeration is a datatype whose constructors carry
  a prefix, since the sources reuse constructor names between enumerations. The lookups
  \<^verbatim>\<open>lookup_name\<close> and \<^verbatim>\<open>lookup_value\<close> scan a table from its start, as the sources do. The locale
  \<open>enum_table\<close> states what a table promises; every table of the program interprets it.
\<close>

section \<open>Table lookups\<close>

definition lookup_name :: "('e \<times> string) list \<Rightarrow> 'e \<Rightarrow> string" where
  "lookup_name table v =
     (case List.find (\<lambda>entry. fst entry = v) table of Some entry \<Rightarrow> snd entry | None \<Rightarrow> ''UNKNOWN'')"

definition lookup_value :: "('e \<times> string) list \<Rightarrow> string \<Rightarrow> 'e option" where
  "lookup_value table text =
     (case List.find (\<lambda>entry. snd entry = text) table of Some entry \<Rightarrow> Some (fst entry) | None \<Rightarrow> None)"

definition lookup_code :: "('e \<Rightarrow> u16) \<Rightarrow> ('e \<times> string) list \<Rightarrow> u16 \<Rightarrow> 'e option" where
  "lookup_code code table raw =
     (case List.find (\<lambda>entry. code (fst entry) = raw) table of Some entry \<Rightarrow> Some (fst entry) | None \<Rightarrow> None)"

locale enum_table =
  fixes table :: "('e \<times> string) list" and code :: "'e \<Rightarrow> u16"
  assumes complete: "v \<in> set (map fst table)"
    and names_distinct: "distinct (map snd table)"
    and values_distinct: "distinct (map fst table)"
    and codes_distinct: "distinct (map (code \<circ> fst) table)"
    and codes_nonzero: "code v \<noteq> 0"
    and no_unknown: "''UNKNOWN'' \<notin> set (map snd table)"
begin

lemma find_entry:
  assumes "distinct (map f table)" and "e \<in> set table"
  shows "List.find (\<lambda>entry. f entry = f e) table = Some e"
  using assms by (induction table) auto

lemma entry_of: "\<exists>e. e \<in> set table \<and> fst e = v"
  using complete [of v] by auto

lemma entry_find: "e \<in> set table \<Longrightarrow> List.find (\<lambda>entry. fst entry = fst e) table = Some e"
  by (rule find_entry [OF values_distinct])

lemma value_of_name: "lookup_value table (lookup_name table v) = Some v"
proof -
  obtain e where e: "e \<in> set table" and v: "v = fst e"
    using entry_of by metis
  have "List.find (\<lambda>entry. snd entry = snd e) table = Some e"
    using names_distinct e by (rule find_entry)
  then show ?thesis
    by (simp add: v lookup_value_def lookup_name_def entry_find [OF e])
qed

lemma name_of_value:
  assumes "lookup_value table s = Some v"
  shows "lookup_name table v = s"
proof -
  from assms obtain e where e: "e \<in> set table" and s: "snd e = s" and v: "v = fst e"
    by (auto simp: lookup_value_def dest!: find_SomeD split: option.splits)
  show ?thesis by (simp add: v s [symmetric] lookup_name_def entry_find [OF e])
qed

lemma value_unique: "lookup_value table s = Some v \<longleftrightarrow> s = lookup_name table v"
  using value_of_name name_of_value by metis

lemma name_inj: "lookup_name table v = lookup_name table w \<longleftrightarrow> v = w"
  using value_of_name by (metis option.inject)

lemma name_known: "lookup_name table v \<noteq> ''UNKNOWN''"
proof -
  obtain e where e: "e \<in> set table" and v: "v = fst e"
    using entry_of by metis
  have "lookup_name table v \<in> set (map snd table)"
    using e by (simp add: v lookup_name_def entry_find [OF e])
  then show ?thesis using no_unknown by metis
qed

lemma code_inj: "code v = code w \<longleftrightarrow> v = w"
proof
  assume eq: "code v = code w"
  obtain e where e: "e \<in> set table" "v = fst e" using entry_of by metis
  obtain f where f: "f \<in> set table" "w = fst f" using entry_of by metis
  have "e = f"
    using codes_distinct e f eq by (auto simp: distinct_map inj_on_def)
  then show "v = w" using e f by simp
qed simp

lemma code_roundtrip: "lookup_code code table (code v) = Some v"
proof -
  obtain e where e: "e \<in> set table" and v: "v = fst e"
    using entry_of by metis
  have "List.find (\<lambda>entry. (code \<circ> fst) entry = (code \<circ> fst) e) table = Some e"
    using codes_distinct e by (rule find_entry)
  then show ?thesis by (simp add: v lookup_code_def)
qed

lemma code_known: "lookup_code code table raw = Some v \<longleftrightarrow> raw = code v"
proof
  assume "lookup_code code table raw = Some v"
  then show "raw = code v"
    by (auto simp: lookup_code_def dest!: find_SomeD split: option.splits)
next
  assume "raw = code v"
  then show "lookup_code code table raw = Some v" by (simp add: code_roundtrip)
qed

end

section \<open>The enumerations\<close>

subsection \<open>NodeKind\<close>

datatype NodeKind =
  NK_RouteGeneration | NK_PathAuthorization | NK_PlannerCandidate | NK_AdaptiveDecision
  | NK_ConvergencePlan | NK_PolicyDecision | NK_AdministrativeAction | NK_CompactedSummary

fun node_kind_code :: "NodeKind \<Rightarrow> u16" where
  "node_kind_code NK_RouteGeneration = 1"
| "node_kind_code NK_PathAuthorization = 2"
| "node_kind_code NK_PlannerCandidate = 3"
| "node_kind_code NK_AdaptiveDecision = 4"
| "node_kind_code NK_ConvergencePlan = 5"
| "node_kind_code NK_PolicyDecision = 6"
| "node_kind_code NK_AdministrativeAction = 7"
| "node_kind_code NK_CompactedSummary = 8"

definition kNodeKinds :: "(NodeKind \<times> string) list" where
  "kNodeKinds =
    [(NK_RouteGeneration, ''ROUTE_GENERATION''),
     (NK_PathAuthorization, ''PATH_AUTHORIZATION''),
     (NK_PlannerCandidate, ''PLANNER_CANDIDATE''),
     (NK_AdaptiveDecision, ''ADAPTIVE_DECISION''),
     (NK_ConvergencePlan, ''CONVERGENCE_PLAN''),
     (NK_PolicyDecision, ''POLICY_DECISION''),
     (NK_AdministrativeAction, ''ADMINISTRATIVE_ACTION''),
     (NK_CompactedSummary, ''COMPACTED_SUMMARY'')]"

definition node_kind_name :: "NodeKind \<Rightarrow> string" where
  "node_kind_name v = lookup_name kNodeKinds v"

definition parse_node_kind :: "string \<Rightarrow> NodeKind option" where
  "parse_node_kind text = lookup_value kNodeKinds text"

interpretation node_kind_tab: enum_table kNodeKinds node_kind_code
proof
  show "v \<in> set (map fst kNodeKinds)" for v :: NodeKind
    by (cases v) (simp_all add: kNodeKinds_def)
  show "node_kind_code v \<noteq> 0" for v :: NodeKind
    by (cases v) simp_all
qed (simp_all add: kNodeKinds_def)

subsection \<open>EdgeType\<close>

datatype EdgeType =
  ET_DerivedFrom | ET_Supersedes | ET_Replaces | ET_Withdraws | ET_Revalidates
  | ET_AuthorizedBy | ET_ComputedFrom | ET_SelectedFrom | ET_AdaptedFrom
  | ET_TransitionedBy | ET_RolledBackFrom | ET_RevokedBy | ET_RetiredBy | ET_Corrects
  | ET_Invalidates

fun edge_type_code :: "EdgeType \<Rightarrow> u16" where
  "edge_type_code ET_DerivedFrom = 1"
| "edge_type_code ET_Supersedes = 2"
| "edge_type_code ET_Replaces = 3"
| "edge_type_code ET_Withdraws = 4"
| "edge_type_code ET_Revalidates = 5"
| "edge_type_code ET_AuthorizedBy = 6"
| "edge_type_code ET_ComputedFrom = 7"
| "edge_type_code ET_SelectedFrom = 8"
| "edge_type_code ET_AdaptedFrom = 9"
| "edge_type_code ET_TransitionedBy = 10"
| "edge_type_code ET_RolledBackFrom = 11"
| "edge_type_code ET_RevokedBy = 12"
| "edge_type_code ET_RetiredBy = 13"
| "edge_type_code ET_Corrects = 14"
| "edge_type_code ET_Invalidates = 15"

definition kEdgeTypes :: "(EdgeType \<times> string) list" where
  "kEdgeTypes =
    [(ET_DerivedFrom, ''DERIVED_FROM''),
     (ET_Supersedes, ''SUPERSEDES''),
     (ET_Replaces, ''REPLACES''),
     (ET_Withdraws, ''WITHDRAWS''),
     (ET_Revalidates, ''REVALIDATES''),
     (ET_AuthorizedBy, ''AUTHORIZED_BY''),
     (ET_ComputedFrom, ''COMPUTED_FROM''),
     (ET_SelectedFrom, ''SELECTED_FROM''),
     (ET_AdaptedFrom, ''ADAPTED_FROM''),
     (ET_TransitionedBy, ''TRANSITIONED_BY''),
     (ET_RolledBackFrom, ''ROLLED_BACK_FROM''),
     (ET_RevokedBy, ''REVOKED_BY''),
     (ET_RetiredBy, ''RETIRED_BY''),
     (ET_Corrects, ''CORRECTS''),
     (ET_Invalidates, ''INVALIDATES'')]"

definition edge_type_name :: "EdgeType \<Rightarrow> string" where
  "edge_type_name v = lookup_name kEdgeTypes v"

definition parse_edge_type :: "string \<Rightarrow> EdgeType option" where
  "parse_edge_type text = lookup_value kEdgeTypes text"

interpretation edge_type_tab: enum_table kEdgeTypes edge_type_code
proof
  show "v \<in> set (map fst kEdgeTypes)" for v :: EdgeType
    by (cases v) (simp_all add: kEdgeTypes_def)
  show "edge_type_code v \<noteq> 0" for v :: EdgeType
    by (cases v) simp_all
qed (simp_all add: kEdgeTypes_def)

subsection \<open>SourceClass\<close>

datatype SourceClass =
  SC_Administrative | SC_RouteFabric | SC_PathAuthority | SC_PathPlanner
  | SC_AdaptiveRouting | SC_RouteConvergence | SC_Imported | SC_Recovery

fun source_class_code :: "SourceClass \<Rightarrow> u16" where
  "source_class_code SC_Administrative = 1"
| "source_class_code SC_RouteFabric = 2"
| "source_class_code SC_PathAuthority = 3"
| "source_class_code SC_PathPlanner = 4"
| "source_class_code SC_AdaptiveRouting = 5"
| "source_class_code SC_RouteConvergence = 6"
| "source_class_code SC_Imported = 7"
| "source_class_code SC_Recovery = 8"

definition kSourceClasses :: "(SourceClass \<times> string) list" where
  "kSourceClasses =
    [(SC_Administrative, ''ADMINISTRATIVE''),
     (SC_RouteFabric, ''ROUTE_FABRIC''),
     (SC_PathAuthority, ''PATH_AUTHORITY''),
     (SC_PathPlanner, ''PATH_PLANNER''),
     (SC_AdaptiveRouting, ''ADAPTIVE_ROUTING''),
     (SC_RouteConvergence, ''ROUTE_CONVERGENCE''),
     (SC_Imported, ''IMPORTED''),
     (SC_Recovery, ''RECOVERY'')]"

definition source_class_name :: "SourceClass \<Rightarrow> string" where
  "source_class_name v = lookup_name kSourceClasses v"

definition parse_source_class :: "string \<Rightarrow> SourceClass option" where
  "parse_source_class text = lookup_value kSourceClasses text"

interpretation source_class_tab: enum_table kSourceClasses source_class_code
proof
  show "v \<in> set (map fst kSourceClasses)" for v :: SourceClass
    by (cases v) (simp_all add: kSourceClasses_def)
  show "source_class_code v \<noteq> 0" for v :: SourceClass
    by (cases v) simp_all
qed (simp_all add: kSourceClasses_def)

subsection \<open>ReasonCode\<close>

datatype ReasonCode =
  RC_InitialRoute | RC_PathRevalidated | RC_RouteReplaced | RC_AdminWithdrawal
  | RC_PolicyChange | RC_AdaptiveChange | RC_EcmpChange | RC_WeightChange
  | RC_PathInvalidation | RC_ConvergenceComplete | RC_Rollback | RC_RecoveryRevalidation
  | RC_Revocation | RC_Retirement | RC_Correction | RC_Invalidation | RC_Declaration
  | RC_HistoryCompaction | RC_Import

fun reason_code_code :: "ReasonCode \<Rightarrow> u16" where
  "reason_code_code RC_InitialRoute = 1"
| "reason_code_code RC_PathRevalidated = 2"
| "reason_code_code RC_RouteReplaced = 3"
| "reason_code_code RC_AdminWithdrawal = 4"
| "reason_code_code RC_PolicyChange = 5"
| "reason_code_code RC_AdaptiveChange = 6"
| "reason_code_code RC_EcmpChange = 7"
| "reason_code_code RC_WeightChange = 8"
| "reason_code_code RC_PathInvalidation = 9"
| "reason_code_code RC_ConvergenceComplete = 10"
| "reason_code_code RC_Rollback = 11"
| "reason_code_code RC_RecoveryRevalidation = 12"
| "reason_code_code RC_Revocation = 13"
| "reason_code_code RC_Retirement = 14"
| "reason_code_code RC_Correction = 15"
| "reason_code_code RC_Invalidation = 16"
| "reason_code_code RC_Declaration = 17"
| "reason_code_code RC_HistoryCompaction = 18"
| "reason_code_code RC_Import = 19"

definition kReasonCodes :: "(ReasonCode \<times> string) list" where
  "kReasonCodes =
    [(RC_InitialRoute, ''INITIAL_ROUTE''),
     (RC_PathRevalidated, ''PATH_REVALIDATED''),
     (RC_RouteReplaced, ''ROUTE_REPLACED''),
     (RC_AdminWithdrawal, ''ADMIN_WITHDRAWAL''),
     (RC_PolicyChange, ''POLICY_CHANGE''),
     (RC_AdaptiveChange, ''ADAPTIVE_CHANGE''),
     (RC_EcmpChange, ''ECMP_CHANGE''),
     (RC_WeightChange, ''WEIGHT_CHANGE''),
     (RC_PathInvalidation, ''PATH_INVALIDATION''),
     (RC_ConvergenceComplete, ''CONVERGENCE_COMPLETE''),
     (RC_Rollback, ''ROLLBACK''),
     (RC_RecoveryRevalidation, ''RECOVERY_REVALIDATION''),
     (RC_Revocation, ''REVOCATION''),
     (RC_Retirement, ''RETIREMENT''),
     (RC_Correction, ''CORRECTION''),
     (RC_Invalidation, ''INVALIDATION''),
     (RC_Declaration, ''DECLARATION''),
     (RC_HistoryCompaction, ''HISTORY_COMPACTION''),
     (RC_Import, ''IMPORT'')]"

definition reason_code_name :: "ReasonCode \<Rightarrow> string" where
  "reason_code_name v = lookup_name kReasonCodes v"

definition parse_reason_code :: "string \<Rightarrow> ReasonCode option" where
  "parse_reason_code text = lookup_value kReasonCodes text"

interpretation reason_code_tab: enum_table kReasonCodes reason_code_code
proof
  show "v \<in> set (map fst kReasonCodes)" for v :: ReasonCode
    by (cases v) (simp_all add: kReasonCodes_def)
  show "reason_code_code v \<noteq> 0" for v :: ReasonCode
    by (cases v) simp_all
qed (simp_all add: kReasonCodes_def)

subsection \<open>RootReason\<close>

datatype RootReason =
  RR_InitialPublication | RR_ImportedAdministrativeState | RR_RecoveredDurableState
  | RR_OperatorCreate

fun root_reason_code :: "RootReason \<Rightarrow> u16" where
  "root_reason_code RR_InitialPublication = 1"
| "root_reason_code RR_ImportedAdministrativeState = 2"
| "root_reason_code RR_RecoveredDurableState = 3"
| "root_reason_code RR_OperatorCreate = 4"

definition kRootReasons :: "(RootReason \<times> string) list" where
  "kRootReasons =
    [(RR_InitialPublication, ''INITIAL_PUBLICATION''),
     (RR_ImportedAdministrativeState, ''IMPORTED_ADMINISTRATIVE_STATE''),
     (RR_RecoveredDurableState, ''RECOVERED_DURABLE_STATE''),
     (RR_OperatorCreate, ''OPERATOR_CREATE'')]"

definition root_reason_name :: "RootReason \<Rightarrow> string" where
  "root_reason_name v = lookup_name kRootReasons v"

definition parse_root_reason :: "string \<Rightarrow> RootReason option" where
  "parse_root_reason text = lookup_value kRootReasons text"

interpretation root_reason_tab: enum_table kRootReasons root_reason_code
proof
  show "v \<in> set (map fst kRootReasons)" for v :: RootReason
    by (cases v) (simp_all add: kRootReasons_def)
  show "root_reason_code v \<noteq> 0" for v :: RootReason
    by (cases v) simp_all
qed (simp_all add: kRootReasons_def)

subsection \<open>NodeLifecycle\<close>

datatype NodeLifecycle =
  NL_Declared | NL_Current | NL_Historical | NL_RevalidationRequired | NL_Superseded
  | NL_Revoked | NL_Retired | NL_Invalid

fun node_lifecycle_code :: "NodeLifecycle \<Rightarrow> u16" where
  "node_lifecycle_code NL_Declared = 1"
| "node_lifecycle_code NL_Current = 2"
| "node_lifecycle_code NL_Historical = 3"
| "node_lifecycle_code NL_RevalidationRequired = 4"
| "node_lifecycle_code NL_Superseded = 5"
| "node_lifecycle_code NL_Revoked = 6"
| "node_lifecycle_code NL_Retired = 7"
| "node_lifecycle_code NL_Invalid = 8"

definition kNodeLifecycles :: "(NodeLifecycle \<times> string) list" where
  "kNodeLifecycles =
    [(NL_Declared, ''DECLARED''),
     (NL_Current, ''CURRENT''),
     (NL_Historical, ''HISTORICAL''),
     (NL_RevalidationRequired, ''REVALIDATION_REQUIRED''),
     (NL_Superseded, ''SUPERSEDED''),
     (NL_Revoked, ''REVOKED''),
     (NL_Retired, ''RETIRED''),
     (NL_Invalid, ''INVALID'')]"

definition node_lifecycle_name :: "NodeLifecycle \<Rightarrow> string" where
  "node_lifecycle_name v = lookup_name kNodeLifecycles v"

definition parse_node_lifecycle :: "string \<Rightarrow> NodeLifecycle option" where
  "parse_node_lifecycle text = lookup_value kNodeLifecycles text"

interpretation node_lifecycle_tab: enum_table kNodeLifecycles node_lifecycle_code
proof
  show "v \<in> set (map fst kNodeLifecycles)" for v :: NodeLifecycle
    by (cases v) (simp_all add: kNodeLifecycles_def)
  show "node_lifecycle_code v \<noteq> 0" for v :: NodeLifecycle
    by (cases v) simp_all
qed (simp_all add: kNodeLifecycles_def)

subsection \<open>Currentness\<close>

datatype Currentness =
  CU_Current | CU_StaleRoute | CU_StalePathAuthority | CU_StalePolicy | CU_StaleEvidence
  | CU_StaleEpoch | CU_FencedPublisher | CU_HistoricalOnly | CU_RevalidationRequired

fun currentness_code :: "Currentness \<Rightarrow> u16" where
  "currentness_code CU_Current = 1"
| "currentness_code CU_StaleRoute = 2"
| "currentness_code CU_StalePathAuthority = 3"
| "currentness_code CU_StalePolicy = 4"
| "currentness_code CU_StaleEvidence = 5"
| "currentness_code CU_StaleEpoch = 6"
| "currentness_code CU_FencedPublisher = 7"
| "currentness_code CU_HistoricalOnly = 8"
| "currentness_code CU_RevalidationRequired = 9"

definition kCurrentnesses :: "(Currentness \<times> string) list" where
  "kCurrentnesses =
    [(CU_Current, ''CURRENT''),
     (CU_StaleRoute, ''STALE_ROUTE''),
     (CU_StalePathAuthority, ''STALE_PATH_AUTHORITY''),
     (CU_StalePolicy, ''STALE_POLICY''),
     (CU_StaleEvidence, ''STALE_EVIDENCE''),
     (CU_StaleEpoch, ''STALE_EPOCH''),
     (CU_FencedPublisher, ''FENCED_PUBLISHER''),
     (CU_HistoricalOnly, ''HISTORICAL_ONLY''),
     (CU_RevalidationRequired, ''REVALIDATION_REQUIRED'')]"

definition currentness_name :: "Currentness \<Rightarrow> string" where
  "currentness_name v = lookup_name kCurrentnesses v"

definition parse_currentness :: "string \<Rightarrow> Currentness option" where
  "parse_currentness text = lookup_value kCurrentnesses text"

interpretation currentness_tab: enum_table kCurrentnesses currentness_code
proof
  show "v \<in> set (map fst kCurrentnesses)" for v :: Currentness
    by (cases v) (simp_all add: kCurrentnesses_def)
  show "currentness_code v \<noteq> 0" for v :: Currentness
    by (cases v) simp_all
qed (simp_all add: kCurrentnesses_def)

subsection \<open>LineageLifecycle\<close>

datatype LineageLifecycle =
  LL_Active | LL_Withdrawn | LL_Revoked | LL_Retired

fun lineage_lifecycle_code :: "LineageLifecycle \<Rightarrow> u16" where
  "lineage_lifecycle_code LL_Active = 1"
| "lineage_lifecycle_code LL_Withdrawn = 2"
| "lineage_lifecycle_code LL_Revoked = 3"
| "lineage_lifecycle_code LL_Retired = 4"

definition kLineageLifecycles :: "(LineageLifecycle \<times> string) list" where
  "kLineageLifecycles =
    [(LL_Active, ''ACTIVE''),
     (LL_Withdrawn, ''WITHDRAWN''),
     (LL_Revoked, ''REVOKED''),
     (LL_Retired, ''RETIRED'')]"

definition lineage_lifecycle_name :: "LineageLifecycle \<Rightarrow> string" where
  "lineage_lifecycle_name v = lookup_name kLineageLifecycles v"

definition parse_lineage_lifecycle :: "string \<Rightarrow> LineageLifecycle option" where
  "parse_lineage_lifecycle text = lookup_value kLineageLifecycles text"

interpretation lineage_lifecycle_tab: enum_table kLineageLifecycles lineage_lifecycle_code
proof
  show "v \<in> set (map fst kLineageLifecycles)" for v :: LineageLifecycle
    by (cases v) (simp_all add: kLineageLifecycles_def)
  show "lineage_lifecycle_code v \<noteq> 0" for v :: LineageLifecycle
    by (cases v) simp_all
qed (simp_all add: kLineageLifecycles_def)

subsection \<open>Outcome\<close>

datatype Outcome =
  O_Created | O_Linked | O_Updated | O_Idempotent | O_StaleRoute | O_StalePathAuthority
  | O_StalePolicy | O_StalePlan | O_StaleEpoch | O_StaleWorker | O_Duplicate | O_Conflict
  | O_CycleDetected | O_MissingParent | O_InvalidDerivation | O_InvalidSourceGeneration
  | O_Unauthorized | O_RevalidationRequired | O_Revoked | O_Retired | O_ResourceLimit
  | O_MalformedRequest | O_LineageNotFound | O_NodeNotFound | O_StoreCorrupt
  | O_WireIntegrityFailure | O_UnsupportedVersion | O_IoFailure | O_ProtocolFailure
  | O_SessionRejected | O_Ok | O_StaleLineageGeneration | O_StaleStoreGeneration
  | O_StaleEvidence

fun outcome_code :: "Outcome \<Rightarrow> u16" where
  "outcome_code O_Created = 1"
| "outcome_code O_Linked = 2"
| "outcome_code O_Updated = 3"
| "outcome_code O_Idempotent = 4"
| "outcome_code O_StaleRoute = 5"
| "outcome_code O_StalePathAuthority = 6"
| "outcome_code O_StalePolicy = 7"
| "outcome_code O_StalePlan = 8"
| "outcome_code O_StaleEpoch = 9"
| "outcome_code O_StaleWorker = 10"
| "outcome_code O_Duplicate = 11"
| "outcome_code O_Conflict = 12"
| "outcome_code O_CycleDetected = 13"
| "outcome_code O_MissingParent = 14"
| "outcome_code O_InvalidDerivation = 15"
| "outcome_code O_InvalidSourceGeneration = 16"
| "outcome_code O_Unauthorized = 17"
| "outcome_code O_RevalidationRequired = 18"
| "outcome_code O_Revoked = 19"
| "outcome_code O_Retired = 20"
| "outcome_code O_ResourceLimit = 21"
| "outcome_code O_MalformedRequest = 22"
| "outcome_code O_LineageNotFound = 23"
| "outcome_code O_NodeNotFound = 24"
| "outcome_code O_StoreCorrupt = 25"
| "outcome_code O_WireIntegrityFailure = 26"
| "outcome_code O_UnsupportedVersion = 27"
| "outcome_code O_IoFailure = 28"
| "outcome_code O_ProtocolFailure = 29"
| "outcome_code O_SessionRejected = 30"
| "outcome_code O_Ok = 31"
| "outcome_code O_StaleLineageGeneration = 32"
| "outcome_code O_StaleStoreGeneration = 33"
| "outcome_code O_StaleEvidence = 34"

definition kOutcomes :: "(Outcome \<times> string) list" where
  "kOutcomes =
    [(O_Created, ''CREATED''),
     (O_Linked, ''LINKED''),
     (O_Updated, ''UPDATED''),
     (O_Idempotent, ''IDEMPOTENT''),
     (O_StaleRoute, ''STALE_ROUTE''),
     (O_StalePathAuthority, ''STALE_PATH_AUTHORITY''),
     (O_StalePolicy, ''STALE_POLICY''),
     (O_StalePlan, ''STALE_PLAN''),
     (O_StaleEpoch, ''STALE_EPOCH''),
     (O_StaleWorker, ''STALE_WORKER''),
     (O_Duplicate, ''DUPLICATE''),
     (O_Conflict, ''CONFLICT''),
     (O_CycleDetected, ''CYCLE_DETECTED''),
     (O_MissingParent, ''MISSING_PARENT''),
     (O_InvalidDerivation, ''INVALID_DERIVATION''),
     (O_InvalidSourceGeneration, ''INVALID_SOURCE_GENERATION''),
     (O_Unauthorized, ''UNAUTHORIZED''),
     (O_RevalidationRequired, ''REVALIDATION_REQUIRED''),
     (O_Revoked, ''REVOKED''),
     (O_Retired, ''RETIRED''),
     (O_ResourceLimit, ''RESOURCE_LIMIT''),
     (O_MalformedRequest, ''MALFORMED_REQUEST''),
     (O_LineageNotFound, ''LINEAGE_NOT_FOUND''),
     (O_NodeNotFound, ''NODE_NOT_FOUND''),
     (O_StoreCorrupt, ''STORE_CORRUPT''),
     (O_WireIntegrityFailure, ''WIRE_INTEGRITY_FAILURE''),
     (O_UnsupportedVersion, ''UNSUPPORTED_VERSION''),
     (O_IoFailure, ''IO_FAILURE''),
     (O_ProtocolFailure, ''PROTOCOL_FAILURE''),
     (O_SessionRejected, ''SESSION_REJECTED''),
     (O_Ok, ''OK''),
     (O_StaleLineageGeneration, ''STALE_LINEAGE_GENERATION''),
     (O_StaleStoreGeneration, ''STALE_STORE_GENERATION''),
     (O_StaleEvidence, ''STALE_EVIDENCE'')]"

definition outcome_name :: "Outcome \<Rightarrow> string" where
  "outcome_name v = lookup_name kOutcomes v"

definition parse_outcome :: "string \<Rightarrow> Outcome option" where
  "parse_outcome text = lookup_value kOutcomes text"

interpretation outcome_tab: enum_table kOutcomes outcome_code
proof
  show "v \<in> set (map fst kOutcomes)" for v :: Outcome
    by (cases v) (simp_all add: kOutcomes_def)
  show "outcome_code v \<noteq> 0" for v :: Outcome
    by (cases v) simp_all
qed (simp_all add: kOutcomes_def)

subsection \<open>ExplainMode\<close>

datatype ExplainMode =
  EM_ImmediateCause | EM_FullAncestry | EM_AuthorityOnly | EM_PolicyOnly | EM_PathOnly
  | EM_MutationLineage

fun explain_mode_code :: "ExplainMode \<Rightarrow> u16" where
  "explain_mode_code EM_ImmediateCause = 1"
| "explain_mode_code EM_FullAncestry = 2"
| "explain_mode_code EM_AuthorityOnly = 3"
| "explain_mode_code EM_PolicyOnly = 4"
| "explain_mode_code EM_PathOnly = 5"
| "explain_mode_code EM_MutationLineage = 6"

definition kExplainModes :: "(ExplainMode \<times> string) list" where
  "kExplainModes =
    [(EM_ImmediateCause, ''IMMEDIATE_CAUSE''),
     (EM_FullAncestry, ''FULL_ANCESTRY''),
     (EM_AuthorityOnly, ''AUTHORITY_ONLY''),
     (EM_PolicyOnly, ''POLICY_ONLY''),
     (EM_PathOnly, ''PATH_ONLY''),
     (EM_MutationLineage, ''MUTATION_LINEAGE'')]"

definition explain_mode_name :: "ExplainMode \<Rightarrow> string" where
  "explain_mode_name v = lookup_name kExplainModes v"

definition parse_explain_mode :: "string \<Rightarrow> ExplainMode option" where
  "parse_explain_mode text = lookup_value kExplainModes text"

interpretation explain_mode_tab: enum_table kExplainModes explain_mode_code
proof
  show "v \<in> set (map fst kExplainModes)" for v :: ExplainMode
    by (cases v) (simp_all add: kExplainModes_def)
  show "explain_mode_code v \<noteq> 0" for v :: ExplainMode
    by (cases v) simp_all
qed (simp_all add: kExplainModes_def)

subsection \<open>MessageId\<close>

datatype MessageId =
  MI_Hello | MI_HelloAck | MI_RegisterPublisher | MI_PublishProvenance
  | MI_LinkDerivation | MI_Supersede | MI_Withdraw | MI_Revoke | MI_Retire | MI_Correct
  | MI_QueryLineage | MI_QueryCause | MI_QueryAncestry | MI_SnapshotRequest
  | MI_SnapshotResponse | MI_FenceNotice | MI_Result | MI_Error | MI_NotifyDependency
  | MI_Revalidate | MI_Invalidate | MI_DeclareSource | MI_Ping | MI_Pong | MI_Bye
  | MI_QueryWatermarks

fun message_id_code :: "MessageId \<Rightarrow> u16" where
  "message_id_code MI_Hello = 1"
| "message_id_code MI_HelloAck = 2"
| "message_id_code MI_RegisterPublisher = 3"
| "message_id_code MI_PublishProvenance = 4"
| "message_id_code MI_LinkDerivation = 5"
| "message_id_code MI_Supersede = 6"
| "message_id_code MI_Withdraw = 7"
| "message_id_code MI_Revoke = 8"
| "message_id_code MI_Retire = 9"
| "message_id_code MI_Correct = 10"
| "message_id_code MI_QueryLineage = 11"
| "message_id_code MI_QueryCause = 12"
| "message_id_code MI_QueryAncestry = 13"
| "message_id_code MI_SnapshotRequest = 14"
| "message_id_code MI_SnapshotResponse = 15"
| "message_id_code MI_FenceNotice = 16"
| "message_id_code MI_Result = 17"
| "message_id_code MI_Error = 18"
| "message_id_code MI_NotifyDependency = 19"
| "message_id_code MI_Revalidate = 20"
| "message_id_code MI_Invalidate = 21"
| "message_id_code MI_DeclareSource = 22"
| "message_id_code MI_Ping = 23"
| "message_id_code MI_Pong = 24"
| "message_id_code MI_Bye = 25"
| "message_id_code MI_QueryWatermarks = 26"

definition kMessageIds :: "(MessageId \<times> string) list" where
  "kMessageIds =
    [(MI_Hello, ''HELLO''),
     (MI_HelloAck, ''HELLO_ACK''),
     (MI_RegisterPublisher, ''REGISTER_PUBLISHER''),
     (MI_PublishProvenance, ''PUBLISH_PROVENANCE''),
     (MI_LinkDerivation, ''LINK_DERIVATION''),
     (MI_Supersede, ''SUPERSEDE''),
     (MI_Withdraw, ''WITHDRAW''),
     (MI_Revoke, ''REVOKE''),
     (MI_Retire, ''RETIRE''),
     (MI_Correct, ''CORRECT''),
     (MI_QueryLineage, ''QUERY_LINEAGE''),
     (MI_QueryCause, ''QUERY_CAUSE''),
     (MI_QueryAncestry, ''QUERY_ANCESTRY''),
     (MI_SnapshotRequest, ''SNAPSHOT_REQUEST''),
     (MI_SnapshotResponse, ''SNAPSHOT_RESPONSE''),
     (MI_FenceNotice, ''FENCE_NOTICE''),
     (MI_Result, ''RESULT''),
     (MI_Error, ''ERROR''),
     (MI_NotifyDependency, ''NOTIFY_DEPENDENCY''),
     (MI_Revalidate, ''REVALIDATE''),
     (MI_Invalidate, ''INVALIDATE''),
     (MI_DeclareSource, ''DECLARE_SOURCE''),
     (MI_Ping, ''PING''),
     (MI_Pong, ''PONG''),
     (MI_Bye, ''BYE''),
     (MI_QueryWatermarks, ''QUERY_WATERMARKS'')]"

definition message_id_name :: "MessageId \<Rightarrow> string" where
  "message_id_name v = lookup_name kMessageIds v"

definition parse_message_id :: "u16 \<Rightarrow> MessageId option" where
  "parse_message_id raw = lookup_code message_id_code kMessageIds raw"

interpretation message_id_tab: enum_table kMessageIds message_id_code
proof
  show "v \<in> set (map fst kMessageIds)" for v :: MessageId
    by (cases v) (simp_all add: kMessageIds_def)
  show "message_id_code v \<noteq> 0" for v :: MessageId
    by (cases v) simp_all
qed (simp_all add: kMessageIds_def)

subsection \<open>DependencyKind\<close>

datatype DependencyKind =
  DK_RouteAdvance | DK_PathAuthorityAdvance | DK_PolicyAdvance | DK_EvidenceAdvance
  | DK_PlanAdvance | DK_EpochAdvance | DK_WorkerFence

fun dependency_kind_code :: "DependencyKind \<Rightarrow> u16" where
  "dependency_kind_code DK_RouteAdvance = 1"
| "dependency_kind_code DK_PathAuthorityAdvance = 2"
| "dependency_kind_code DK_PolicyAdvance = 3"
| "dependency_kind_code DK_EvidenceAdvance = 4"
| "dependency_kind_code DK_PlanAdvance = 5"
| "dependency_kind_code DK_EpochAdvance = 6"
| "dependency_kind_code DK_WorkerFence = 7"

definition kDependencyKinds :: "(DependencyKind \<times> string) list" where
  "kDependencyKinds =
    [(DK_RouteAdvance, ''ROUTE_ADVANCE''),
     (DK_PathAuthorityAdvance, ''PATH_AUTHORITY_ADVANCE''),
     (DK_PolicyAdvance, ''POLICY_ADVANCE''),
     (DK_EvidenceAdvance, ''EVIDENCE_ADVANCE''),
     (DK_PlanAdvance, ''PLAN_ADVANCE''),
     (DK_EpochAdvance, ''EPOCH_ADVANCE''),
     (DK_WorkerFence, ''WORKER_FENCE'')]"

definition dependency_kind_name :: "DependencyKind \<Rightarrow> string" where
  "dependency_kind_name v = lookup_name kDependencyKinds v"

definition parse_dependency_kind :: "u16 \<Rightarrow> DependencyKind option" where
  "parse_dependency_kind raw = lookup_code dependency_kind_code kDependencyKinds raw"

interpretation dependency_kind_tab: enum_table kDependencyKinds dependency_kind_code
proof
  show "v \<in> set (map fst kDependencyKinds)" for v :: DependencyKind
    by (cases v) (simp_all add: kDependencyKinds_def)
  show "dependency_kind_code v \<noteq> 0" for v :: DependencyKind
    by (cases v) simp_all
qed (simp_all add: kDependencyKinds_def)

section \<open>Outcome classes\<close>

definition outcome_is_commit :: "Outcome \<Rightarrow> bool" where
  "outcome_is_commit out \<longleftrightarrow> (case out of
     O_Created \<Rightarrow> True | O_Linked \<Rightarrow> True | O_Updated \<Rightarrow> True | O_Idempotent \<Rightarrow> True | _ \<Rightarrow> False)"

definition outcome_is_stale :: "Outcome \<Rightarrow> bool" where
  "outcome_is_stale out \<longleftrightarrow> (case out of
     O_StaleRoute \<Rightarrow> True | O_StalePathAuthority \<Rightarrow> True | O_StalePolicy \<Rightarrow> True
   | O_StalePlan \<Rightarrow> True | O_StaleEpoch \<Rightarrow> True | O_StaleWorker \<Rightarrow> True | O_StaleEvidence \<Rightarrow> True
   | O_StaleLineageGeneration \<Rightarrow> True | O_StaleStoreGeneration \<Rightarrow> True
   | O_RevalidationRequired \<Rightarrow> True | _ \<Rightarrow> False)"

definition outcome_is_rejection :: "Outcome \<Rightarrow> bool" where
  "outcome_is_rejection out \<longleftrightarrow>
     (if out = O_Ok \<or> outcome_is_commit out \<or> outcome_is_stale out then False else True)"

lemma outcome_class_disjoint: "\<not> (outcome_is_commit out \<and> outcome_is_stale out)"
  by (cases out) (simp_all add: outcome_is_commit_def outcome_is_stale_def)

end
