(* ===== verification/Results.thy ===== *)
theory Results
  imports Enums
begin

text \<open>
  The structured results of \<^verbatim>\<open>include/route_provenance/result.hpp\<close>. \<open>Status\<close> is the
  specialisation \<^verbatim>\<open>Result<void>\<close>: it has a value exactly when its outcome is \<open>O_Ok\<close>. A \<open>'a Result\<close>
  carries the optional value independently of the outcome, as the class template does: the commit
  pipeline returns a publication with the outcomes \<open>O_Duplicate\<close> and \<open>O_Idempotent\<close> as well.
\<close>

datatype Status = Status (st_outcome: Outcome) (st_detail: string)

datatype 'a Result = Result (r_outcome: Outcome) (r_value: "'a option") (r_detail: string)

definition st_ok :: Status where
  "st_ok = Status O_Ok ''''"

definition st_ok_with :: "Outcome \<Rightarrow> string \<Rightarrow> Status" where
  "st_ok_with out det = Status out det"

definition st_failure :: "Outcome \<Rightarrow> string \<Rightarrow> Status" where
  "st_failure out det = Status out det"

definition st_is_ok :: "Status \<Rightarrow> bool" where
  "st_is_ok s \<longleftrightarrow> st_outcome s = O_Ok"

definition r_ok :: "'a \<Rightarrow> 'a Result" where
  "r_ok v = Result O_Ok (Some v) ''''"

definition r_failure :: "Outcome \<Rightarrow> string \<Rightarrow> 'a Result" where
  "r_failure out det = Result out None det"

definition r_has_value :: "'a Result \<Rightarrow> bool" where
  "r_has_value r \<longleftrightarrow> r_value r \<noteq> None"

definition r_is_ok :: "'a Result \<Rightarrow> bool" where
  "r_is_ok r \<longleftrightarrow> r_outcome r = O_Ok"

definition r_value_or :: "'a Result \<Rightarrow> 'a \<Rightarrow> 'a" where
  "r_value_or r fallback = (case r_value r of Some v \<Rightarrow> v | None \<Rightarrow> fallback)"

text \<open>The idiom \<^verbatim>\<open>Result<T>(status.outcome(), std::nullopt, status.detail())\<close>.\<close>

definition r_of_status :: "Status \<Rightarrow> 'a Result" where
  "r_of_status s = Result (st_outcome s) None (st_detail s)"

text \<open>
  The early returns on another result or status: \<^verbatim>\<open>if (!x.has_value()) { return failure(x.outcome(),
  x.detail()); }\<close> and \<^verbatim>\<open>if (!s.is_ok()) { return failure(s.outcome(), s.detail()); }\<close>.
\<close>

definition r_then :: "'a Result \<Rightarrow> ('a \<Rightarrow> 'b Result) \<Rightarrow> 'b Result" where
  "r_then r f = (case r_value r of Some v \<Rightarrow> f v | None \<Rightarrow> r_failure (r_outcome r) (r_detail r))"

definition r_guard :: "Status \<Rightarrow> 'b Result \<Rightarrow> 'b Result" where
  "r_guard s k = (if st_is_ok s then k else r_failure (st_outcome s) (st_detail s))"

lemmas result_defs = st_ok_def st_ok_with_def st_failure_def st_is_ok_def r_ok_def r_failure_def
  r_has_value_def r_is_ok_def r_of_status_def

declare result_defs [status_defs]

lemma st_outcome_simps [simp]:
  "st_outcome st_ok = O_Ok" "st_outcome (st_failure out det) = out"
  "st_outcome (st_ok_with out det) = out"
  by (simp_all add: result_defs)

lemma st_is_ok_simps [simp]:
  "st_is_ok st_ok" "st_is_ok (st_failure out det) \<longleftrightarrow> out = O_Ok"
  "st_is_ok (st_ok_with out det) \<longleftrightarrow> out = O_Ok"
  by (simp_all add: result_defs)

lemma r_simps [simp]:
  "r_outcome (r_ok v) = O_Ok" "r_value (r_ok v) = Some v"
  "r_outcome (r_failure out det) = out" "r_value (r_failure out det) = None"
  "r_outcome (r_of_status s) = st_outcome s" "r_value (r_of_status s) = None"
  by (simp_all add: result_defs)

lemma r_then_value:
  "r_value (r_then r f) = Some v \<longleftrightarrow> (\<exists>x. r_value r = Some x \<and> r_value (f x) = Some v)"
  by (simp add: r_then_def split: option.splits)

lemma r_then_Some [simp]: "r_value r = Some x \<Longrightarrow> r_then r f = f x"
  by (simp add: r_then_def)

lemma r_guard_value: "r_value (r_guard s k) = Some v \<longleftrightarrow> st_is_ok s \<and> r_value k = Some v"
  by (simp add: r_guard_def)

lemma r_guard_ok [simp]: "st_is_ok s \<Longrightarrow> r_guard s k = k"
  by (simp add: r_guard_def)

end
