(* ===== verification/Limits.thy ===== *)
theory Limits
  imports Results
begin

text \<open>
  The resource limits of \<^verbatim>\<open>include/route_provenance/limits.hpp\<close> and their structural self-check in
  \<^verbatim>\<open>src/core.cpp\<close>. The members are unsigned integers that the sources only compare, so they are
  natural numbers here.
\<close>

record Limits =
  max_lineages :: nat
  max_store_bytes :: nat
  max_nodes_per_lineage :: nat
  max_edges_per_lineage :: nat
  max_history_nodes_per_lineage :: nat
  max_attempts_per_lineage :: nat
  max_parents_per_node :: nat
  max_children_per_node :: nat
  max_traversal_depth :: nat
  max_query_results :: nat
  max_visited_nodes :: nat
  max_explanation_nodes :: nat
  max_batch_size :: nat
  max_evidence_entries :: nat
  max_semantic_key_bytes :: nat
  max_frame_bytes :: nat
  max_publishers :: nat
  max_sessions :: nat
  max_frame_assembly_ms :: nat
  max_persistence_record_bytes :: nat
  max_persistence_nodes :: nat
  max_persistence_edges :: nat

definition default_limits :: Limits where
  "default_limits = \<lparr>
     max_lineages = 100000, max_store_bytes = 512 * 1024 * 1024,
     max_nodes_per_lineage = 4096, max_edges_per_lineage = 16384,
     max_history_nodes_per_lineage = 2048, max_attempts_per_lineage = 4096,
     max_parents_per_node = 64, max_children_per_node = 64,
     max_traversal_depth = 64, max_query_results = 4096, max_visited_nodes = 16384,
     max_explanation_nodes = 128, max_batch_size = 256, max_evidence_entries = 32,
     max_semantic_key_bytes = 128, max_frame_bytes = 256 * 1024, max_publishers = 64,
     max_sessions = 64, max_frame_assembly_ms = 10000,
     max_persistence_record_bytes = 1024 * 1024, max_persistence_nodes = 200000,
     max_persistence_edges = 800000\<rparr>"

text \<open>\<open>None\<close> is the result \<^verbatim>\<open>true\<close>; \<open>Some error\<close> is \<^verbatim>\<open>false\<close> with the message stored in \<^verbatim>\<open>error\<close>.\<close>

definition limits_error :: "Limits \<Rightarrow> string option" where
  "limits_error l =
     (if max_lineages l = 0 \<or> max_nodes_per_lineage l = 0 \<or> max_edges_per_lineage l = 0 \<or>
         max_history_nodes_per_lineage l = 0 \<or> max_attempts_per_lineage l = 0 \<or>
         max_traversal_depth l = 0 \<or> max_query_results l = 0 \<or> max_visited_nodes l = 0 \<or>
         max_explanation_nodes l = 0 \<or> max_batch_size l = 0 \<or> max_evidence_entries l = 0 \<or>
         max_semantic_key_bytes l = 0 \<or> max_frame_bytes l = 0 \<or> max_publishers l = 0 \<or>
         max_sessions l = 0 \<or> max_persistence_record_bytes l = 0 \<or> max_persistence_nodes l = 0 \<or>
         max_persistence_edges l = 0 \<or> max_frame_assembly_ms l = 0 \<or> max_store_bytes l = 0
      then Some ''limits must be non-zero''
      else if max_nodes_per_lineage l > max_persistence_nodes l
      then Some ''max_nodes_per_lineage exceeds max_persistence_nodes''
      else if max_edges_per_lineage l > max_persistence_edges l
      then Some ''max_edges_per_lineage exceeds max_persistence_edges''
      else if max_parents_per_node l = 0 \<or> max_children_per_node l = 0
      then Some ''per-node degree limits must be non-zero''
      else if max_parents_per_node l > max_edges_per_lineage l \<or>
              max_children_per_node l > max_edges_per_lineage l
      then Some ''per-node degree limit exceeds per-lineage edge limit''
      else if max_history_nodes_per_lineage l > max_nodes_per_lineage l
      then Some ''max_history_nodes_per_lineage exceeds max_nodes_per_lineage''
      else if max_query_results l > max_visited_nodes l \<or> max_explanation_nodes l > max_visited_nodes l
      then Some ''result limits exceed max_visited_nodes''
      else if max_evidence_entries l > 1024
      then Some ''max_evidence_entries is unreasonably large''
      else None)"

definition limits_valid :: "Limits \<Rightarrow> bool" where
  "limits_valid l \<longleftrightarrow> limits_error l = None"

lemma default_limits_valid: "limits_valid default_limits"
  by (simp add: limits_valid_def limits_error_def default_limits_def)

lemma limits_valid_pos:
  "limits_valid l \<Longrightarrow> 0 < max_visited_nodes l \<and> 0 < max_query_results l \<and> 0 < max_nodes_per_lineage l
     \<and> 0 < max_lineages l \<and> 0 < max_traversal_depth l \<and> 0 < max_publishers l"
  by (auto simp: limits_valid_def limits_error_def split: if_splits)

end
