(* ===== verification/Identity.thy ===== *)
theory Identity
  imports Prelude
begin

text \<open>
  The strongly typed identities of \<^verbatim>\<open>include/route_provenance/id.hpp\<close>. All instances of the class
  template are 64-bit words here; what the template computes (validity, the checked successor, the
  decimal str form and its parser) is modelled once. \<open>bump_generation\<close> is the helper of
  \<^verbatim>\<open>src/store_internal.hpp\<close> that advances a generation counter.
\<close>

type_synonym ProvenanceNodeId = u64
type_synonym ProvenanceEdgeId = u64
type_synonym RouteLineageId = u64
type_synonym DerivationId = u64
type_synonym SnapshotId = u64
type_synonym RoutingNamespaceId = u64
type_synonym ProvenanceGeneration = u64
type_synonym LineageGeneration = u64
type_synonym AuthorityGeneration = u64
type_synonym RouteId = u64
type_synonym RouteGeneration = u64
type_synonym PathId = u64
type_synonym PathAuthorityGeneration = u64
type_synonym PolicyGeneration = u64
type_synonym EvidenceGeneration = u64
type_synonym ConvergencePlanGeneration = u64
type_synonym PublisherId = u64
type_synonym WorkerBootId = u64
type_synonym CoordinatorEpoch = u64
type_synonym MutationAttemptId = u64

definition kMax :: u64 where
  "kMax = 0xFFFFFFFFFFFFFFFF"

definition id_valid :: "u64 \<Rightarrow> bool" where
  "id_valid raw \<longleftrightarrow> raw \<noteq> 0"

definition try_next :: "u64 \<Rightarrow> u64 option" where
  "try_next raw = (if raw = kMax then None else Some (raw + 1))"

text \<open>Returns the success flag and the (possibly advanced) generation.\<close>

definition bump_generation :: "u64 \<Rightarrow> bool \<times> u64" where
  "bump_generation g = (case try_next g of None \<Rightarrow> (False, g) | Some n \<Rightarrow> (True, n))"

text \<open>\<^verbatim>\<open>std::to_string\<close> of an unsigned value.\<close>

definition digit_char :: "nat \<Rightarrow> char" where
  "digit_char d = char_of (48 + d)"

fun dec_string :: "nat \<Rightarrow> string" where
  "dec_string n = (if n < 10 then [digit_char n] else dec_string (n div 10) @ [digit_char (n mod 10)])"

declare dec_string.simps [simp del]

definition id_to_string :: "u64 \<Rightarrow> string" where
  "id_to_string raw = dec_string (unat raw)"

definition is_digit :: "char \<Rightarrow> bool" where
  "is_digit ch \<longleftrightarrow> \<not> (of_char ch < (48::nat) \<or> of_char ch > (57::nat))"

definition char_digit :: "char \<Rightarrow> nat" where
  "char_digit ch = of_char ch - 48"

text \<open>The digit loop of \<^verbatim>\<open>parse\<close>: the overflow test runs before each multiplication.\<close>

fun parse_digits :: "u64 \<Rightarrow> string \<Rightarrow> u64 option" where
  "parse_digits v [] = Some v"
| "parse_digits v (ch # rest) =
     (if \<not> is_digit ch then None
      else let digit = of_nat (char_digit ch) :: u64
           in if v > (kMax - digit) div 10 then None
              else parse_digits (v * 10 + digit) rest)"

definition id_parse :: "string \<Rightarrow> u64 option" where
  "id_parse str =
     (if str = [] \<or> length str > 20 then None
      else case parse_digits 0 str of
             None \<Rightarrow> None
           | Some v \<Rightarrow> if v = 0 then None else Some v)"

section \<open>Generations\<close>

lemma unat_kMax [simp]: "unat kMax = 18446744073709551615"
  by (simp add: kMax_def)

lemma unat_u64_le: "unat (x :: u64) \<le> 18446744073709551615"
  using unsigned_less [of x, where 'a = nat] by simp

lemma unat_Suc_u64: "g \<noteq> kMax \<Longrightarrow> unat (g + 1) = unat g + 1"
proof -
  assume "g \<noteq> kMax"
  then have "unat g \<noteq> unat kMax" by (metis word_unat_eq_iff)
  then have "unat g + 1 < 2 ^ 64" using unat_u64_le [of g] by simp
  then show ?thesis by (simp add: unat_word_ariths)
qed

lemma try_next_Some: "try_next g = Some n \<longleftrightarrow> unat n = unat g + 1"
proof (cases "g = kMax")
  case True
  then show ?thesis using unat_u64_le [of n] by (auto simp: try_next_def)
next
  case False
  then show ?thesis using unat_Suc_u64 [OF False] by (auto simp: try_next_def word_unat_eq_iff)
qed

lemma bump_generation_ok: "bump_generation g = (True, n) \<longleftrightarrow> unat n = unat g + 1"
  unfolding bump_generation_def try_next_Some [symmetric] by (auto split: option.splits)

lemma bump_generation_fail: "bump_generation g = (False, n) \<longleftrightarrow> n = g \<and> g = kMax"
  by (auto simp: bump_generation_def try_next_def split: option.splits)

lemma bump_generation_mono: "g \<le> snd (bump_generation g)"
proof (cases "g = kMax")
  case False
  then show ?thesis
    using unat_Suc_u64 [OF False] by (simp add: bump_generation_def try_next_def word_le_nat_alt)
qed (simp add: bump_generation_def try_next_def)

section \<open>Decimal text\<close>

definition dec_value :: "string \<Rightarrow> nat" where
  "dec_value str = foldl (\<lambda>v ch. v * 10 + char_digit ch) 0 str"

lemma char_digit_le: "is_digit ch \<Longrightarrow> char_digit ch \<le> 9"
  unfolding is_digit_def char_digit_def by linarith

lemma digit_char_facts:
  assumes "d < 10"
  shows "is_digit (digit_char d)" and "char_digit (digit_char d) = d"
  using assms by (simp_all add: is_digit_def char_digit_def digit_char_def)

lemma foldl_dec_ge: "v \<le> foldl (\<lambda>v ch. v * 10 + char_digit ch) v str"
proof (induction str arbitrary: v)
  case (Cons c cs)
  show ?case using Cons.IH [of "v * 10 + char_digit c"] by simp
qed simp

lemma overflow_test:
  assumes "d \<le> 9"
  shows "v > (kMax - of_nat d) div 10 \<longleftrightarrow> 18446744073709551615 < unat v * 10 + d"
proof -
  have d: "unat (of_nat d :: u64) = d" using assms by (simp add: unsigned_of_nat take_bit_nat_eq_self)
  have "of_nat d \<le> kMax" using d assms by (simp add: word_le_nat_alt)
  then have "unat ((kMax - of_nat d) div 10) = (18446744073709551615 - d) div 10"
    by (simp add: unat_div unat_sub d)
  then show ?thesis using assms by (simp add: word_less_nat_alt) linarith
qed

lemma parse_digits_iff:
  "parse_digits v str = Some r \<longleftrightarrow>
     (\<forall>ch. ch \<in> set str \<longrightarrow> is_digit ch)
     \<and> unat r = foldl (\<lambda>v ch. v * 10 + char_digit ch) (unat v) str"
proof (induction str arbitrary: v)
  case Nil
  then show ?case by (auto simp: word_unat_eq_iff)
next
  case (Cons ch rest)
  show ?case
  proof (cases "is_digit ch")
    case True
    let ?d = "char_digit ch"
    have d9: "?d \<le> 9" using True by (rule char_digit_le)
    have d: "unat (of_nat ?d :: u64) = ?d" using d9 by (simp add: unsigned_of_nat take_bit_nat_eq_self)
    show ?thesis
    proof (cases "18446744073709551615 < unat v * 10 + ?d")
      case over: True
      have "unat r \<noteq> foldl (\<lambda>v ch. v * 10 + char_digit ch) (unat v * 10 + ?d) rest"
        using over unat_u64_le [of r] foldl_dec_ge [of "unat v * 10 + ?d" rest] by linarith
      then show ?thesis using over True by (simp add: Let_def overflow_test [OF d9])
    next
      case fits: False
      have "unat (v * 10 + of_nat ?d) = unat v * 10 + ?d"
        using fits by (simp add: unat_word_ariths d)
      then show ?thesis
        using fits True Cons.IH [of "v * 10 + of_nat ?d"]
        by (simp add: Let_def overflow_test [OF d9])
    qed
  qed (auto simp: Let_def)
qed

lemma id_parse_iff:
  "id_parse str = Some r \<longleftrightarrow>
     str \<noteq> [] \<and> length str \<le> 20 \<and> (\<forall>ch. ch \<in> set str \<longrightarrow> is_digit ch)
     \<and> unat r = dec_value str \<and> r \<noteq> 0"
  using parse_digits_iff [of 0 str r]
  by (auto simp: id_parse_def dec_value_def split: option.splits if_splits)

lemma dec_string_facts:
  "dec_string n \<noteq> [] \<and> (\<forall>ch. ch \<in> set (dec_string n) \<longrightarrow> is_digit ch) \<and> dec_value (dec_string n) = n"
proof (induction n rule: dec_string.induct)
  case (1 n)
  then show ?case
    by (cases "n < 10")
       (auto simp: dec_string.simps [of n] dec_value_def digit_char_facts)
qed

lemma dec_string_length: "n < 10 ^ k \<Longrightarrow> 0 < k \<Longrightarrow> length (dec_string n) \<le> k"
proof (induction n arbitrary: k rule: dec_string.induct)
  case (1 n)
  show ?case
  proof (cases "n < 10")
    case False
    obtain j where j: "k = Suc j" using "1.prems" by (cases k) auto
    have "n div 10 < 10 ^ j" using "1.prems" by (simp add: j less_mult_imp_div_less mult.commute)
    moreover have "0 < j" using False "1.prems" j by (cases j) auto
    ultimately have "length (dec_string (n div 10)) \<le> j" using "1.IH" False by blast
    then show ?thesis using False by (simp add: dec_string.simps [of n] j)
  qed (use "1.prems" in \<open>simp add: dec_string.simps [of n]\<close>)
qed

text \<open>
  \<^verbatim>\<open>StrongId::parse\<close> accepts exactly the non-empty digit strings of at most 20 characters whose
  decimal value is non-zero and fits 64 bits, and returns that value: the overflow test never
  rejects a representable value and never lets one wrap. It inverts \<^verbatim>\<open>to_string\<close> on every valid
  identity.
\<close>

theorem strong_id_text:
  "(id_parse str = Some r \<longleftrightarrow>
      str \<noteq> [] \<and> length str \<le> 20 \<and> filter is_digit str = str
      \<and> unat r = dec_value str \<and> r \<noteq> 0)
   \<and> (id_parse (id_to_string v) = (if id_valid v then Some v else None))"
proof
  have "filter is_digit str = str \<longleftrightarrow> (\<forall>ch. ch \<in> set str \<longrightarrow> is_digit ch)"
    by (auto simp: filter_id_conv)
  then show "id_parse str = Some r \<longleftrightarrow>
      str \<noteq> [] \<and> length str \<le> 20 \<and> filter is_digit str = str
      \<and> unat r = dec_value str \<and> r \<noteq> 0"
    by (simp add: id_parse_iff)
  have "length (id_to_string v) \<le> 20"
    using dec_string_length [of "unat v" 20] unat_u64_le [of v] by (simp add: id_to_string_def)
  then have "id_parse (id_to_string v) = Some r \<longleftrightarrow> r = v \<and> r \<noteq> 0" for r
    using dec_string_facts [of "unat v"]
    by (auto simp: id_parse_iff id_to_string_def word_unat_eq_iff)
  then show "id_parse (id_to_string v) = (if id_valid v then Some v else None)"
    by (cases "id_parse (id_to_string v)") (auto simp: id_valid_def)
qed

end
