(* ===== verification/Sha256.thy ===== *)
theory Sha256
  imports Prelude
begin

unbundle bit_operations_syntax

text \<open>
  The SHA-256 hasher of \<^verbatim>\<open>src/core.cpp\<close>. The record \<open>Hasher\<close> is the class of the same name;
  \<open>hs_buffer\<close> holds the first \<^verbatim>\<open>buffered_\<close> bytes of the 64-byte \<^verbatim>\<open>buffer_\<close> (the rest of that array is
  never read). \<open>absorb\<close> and \<open>sha256_spec\<close> are the reference: the message padded to whole blocks and
  folded block by block. The lemmas show that any sequence of \<open>h_update\<close> calls followed by
  \<open>h_finish\<close> computes the reference digest of the concatenated chunks.
\<close>

section \<open>Constants and the compression function\<close>

text \<open>The round constants, written in decimal.\<close>

definition kSha256K :: "u32 list" where
  "kSha256K =
    [1116352408, 1899447441, 3049323471, 3921009573, 961987163, 1508970993,
     2453635748, 2870763221, 3624381080, 310598401, 607225278, 1426881987,
     1925078388, 2162078206, 2614888103, 3248222580, 3835390401, 4022224774,
     264347078, 604807628, 770255983, 1249150122, 1555081692, 1996064986,
     2554220882, 2821834349, 2952996808, 3210313671, 3336571891, 3584528711,
     113926993, 338241895, 666307205, 773529912, 1294757372, 1396182291,
     1695183700, 1986661051, 2177026350, 2456956037, 2730485921, 2820302411,
     3259730800, 3345764771, 3516065817, 3600352804, 4094571909, 275423344,
     430227734, 506948616, 659060556, 883997877, 958139571, 1322822218,
     1537002063, 1747873779, 1955562222, 2024104815, 2227730452, 2361852424,
     2428436474, 2756734187, 3204031479, 3329325298]"

definition rotr32 :: "u32 \<Rightarrow> nat \<Rightarrow> u32" where
  "rotr32 v count = drop_bit count v OR push_bit (32 - count) v"

fun load_be32 :: "byte list \<Rightarrow> u32" where
  "load_be32 [b0, b1, b2, b3] =
     push_bit 24 (ucast b0) OR push_bit 16 (ucast b1) OR push_bit 8 (ucast b2) OR ucast b3"
| "load_be32 _ = 0"

text \<open>The first sixteen words of the schedule, then the loop that appends word \<open>i\<close>.\<close>

definition schedule_init :: "byte list \<Rightarrow> u32 list" where
  "schedule_init block = map (\<lambda>i. load_be32 (take 4 (drop (4 * i) block))) [0..<16]"

definition schedule_step :: "u32 list \<Rightarrow> u32 list" where
  "schedule_step w =
     (let i = length w;
          s0 = rotr32 (w ! (i - 15)) 7 XOR rotr32 (w ! (i - 15)) 18 XOR drop_bit 3 (w ! (i - 15));
          s1 = rotr32 (w ! (i - 2)) 17 XOR rotr32 (w ! (i - 2)) 19 XOR drop_bit 10 (w ! (i - 2))
      in w @ [w ! (i - 16) + s0 + w ! (i - 7) + s1])"

definition schedule :: "byte list \<Rightarrow> u32 list" where
  "schedule block = (schedule_step ^^ 48) (schedule_init block)"

datatype Regs = Regs u32 u32 u32 u32 u32 u32 u32 u32

fun sha_round :: "u32 \<times> u32 \<Rightarrow> Regs \<Rightarrow> Regs" where
  "sha_round (k, wi) (Regs a b c d e f g h) =
     (let s1 = rotr32 e 6 XOR rotr32 e 11 XOR rotr32 e 25;
          ch = (e AND f) XOR (NOT e AND g);
          temp1 = h + s1 + ch + k + wi;
          s0 = rotr32 a 2 XOR rotr32 a 13 XOR rotr32 a 22;
          maj = (a AND b) XOR (a AND c) XOR (b AND c);
          temp2 = s0 + maj
      in Regs (temp1 + temp2) a b c (d + temp1) e f g)"

fun regs_add :: "Regs \<Rightarrow> Regs \<Rightarrow> Regs" where
  "regs_add (Regs a b c d e f g h) (Regs a' b' c' d' e' f' g' h') =
     Regs (a + a') (b + b') (c + c') (d + d') (e + e') (f + f') (g + g') (h + h')"

definition compress :: "Regs \<Rightarrow> byte list \<Rightarrow> Regs" where
  "compress st block = regs_add st (fold sha_round (zip kSha256K (schedule block)) st)"

definition initial_regs :: Regs where
  "initial_regs = Regs 1779033703 3144134277 1013904242 2773480762
                       1359893119 2600822924 528734635 1541459225"

section \<open>The hasher\<close>

record Hasher =
  hs_state :: Regs
  hs_buffer :: "byte list"
  hs_total :: u64
  hs_finished :: bool
  hs_result :: "byte list"

definition h_init :: Hasher where
  "h_init = \<lparr>hs_state = initial_regs, hs_buffer = [], hs_total = 0, hs_finished = False,
             hs_result = replicate 32 0\<rparr>"

text \<open>
  The copy loop of \<^verbatim>\<open>feed\<close>. The buffer never holds more than 64 bytes (it is an array of that
  size); the guard only makes the recursion total.
\<close>

function feed :: "Hasher \<Rightarrow> byte list \<Rightarrow> Hasher" where
  "feed h cursor =
     (if cursor = [] \<or> 64 < length (hs_buffer h) then h
      else let space = 64 - length (hs_buffer h);
               n = (if length cursor < space then length cursor else space);
               buf = hs_buffer h @ take n cursor
           in if length buf = 64
              then feed (h\<lparr>hs_state := compress (hs_state h) buf, hs_buffer := []\<rparr>) (drop n cursor)
              else feed (h\<lparr>hs_buffer := buf\<rparr>) (drop n cursor))"
  by pat_completeness auto
termination
  by (relation "measures [\<lambda>(h, cursor). length cursor, \<lambda>(h, cursor). length (hs_buffer h)]")
     (auto split: if_splits)

declare feed.simps [simp del]

definition h_update :: "Hasher \<Rightarrow> byte list \<Rightarrow> Hasher" where
  "h_update h bytes =
     (if hs_finished h then h
      else feed (h\<lparr>hs_total := hs_total h + of_nat (length bytes)\<rparr>) bytes)"

definition be64_bytes :: "u64 \<Rightarrow> byte list" where
  "be64_bytes v = map (\<lambda>i. ucast (drop_bit (8 * i) v AND 0xFF)) (rev [0..<8])"

definition be32_bytes :: "u32 \<Rightarrow> byte list" where
  "be32_bytes v = [ucast (drop_bit 24 v AND 0xFF), ucast (drop_bit 16 v AND 0xFF),
                   ucast (drop_bit 8 v AND 0xFF), ucast (v AND 0xFF)]"

fun regs_bytes :: "Regs \<Rightarrow> byte list" where
  "regs_bytes (Regs a b c d e f g h) = concat (map be32_bytes [a, b, c, d, e, f, g, h])"

definition pad_tail :: "u64 \<Rightarrow> byte list" where
  "pad_tail total_bytes =
     (let bit_length = total_bytes * 8;
          rem = unat (total_bytes mod 64);
          zero_count = (if rem < 56 then 55 - rem else 119 - rem)
      in 0x80 # replicate zero_count 0 @ be64_bytes bit_length)"

definition h_finish :: "Hasher \<Rightarrow> byte list \<times> Hasher" where
  "h_finish h =
     (if hs_finished h then (hs_result h, h)
      else let h' = feed h (pad_tail (hs_total h));
               result = regs_bytes (hs_state h')
           in (result, h'\<lparr>hs_result := result, hs_finished := True\<rparr>))"

text \<open>\<^verbatim>\<open>Digest::hash(ByteSpan)\<close>.\<close>

definition sha256 :: "byte list \<Rightarrow> byte list" where
  "sha256 bytes = fst (h_finish (h_update h_init bytes))"

section \<open>The reference digest\<close>

fun blocks64 :: "byte list \<Rightarrow> byte list list" where
  "blocks64 xs = (if length xs < 64 then [] else take 64 xs # blocks64 (drop 64 xs))"

declare blocks64.simps [simp del]

definition sha_padding :: "nat \<Rightarrow> byte list" where
  "sha_padding len = 0x80 # replicate ((119 - len mod 64) mod 64) 0 @ be64_bytes (of_nat (8 * len))"

definition sha256_spec :: "byte list \<Rightarrow> byte list" where
  "sha256_spec msg =
     regs_bytes (foldl compress initial_regs (blocks64 (msg @ sha_padding (length msg))))"

lemma length_be64_bytes [simp]: "length (be64_bytes v) = 8"
  by (simp add: be64_bytes_def)

lemma length_regs_bytes [simp]: "length (regs_bytes r) = 32"
  by (cases r) (simp add: be32_bytes_def)

text \<open>The padding completes the message to whole blocks.\<close>

lemma padded_length: "(len + length (sha_padding len)) mod 64 = 0"
proof -
  define r where "r = len mod 64"
  have r: "r < 64" by (simp add: r_def)
  have "(len + length (sha_padding len)) mod 64 = (r + 9 + (119 - r) mod 64) mod 64"
    by (simp add: sha_padding_def r_def mod_simps add.assoc)
  also have "\<dots> = 0"
  proof (cases "r < 56")
    case True
    then have "(119 - r) mod 64 = 55 - r" by (simp add: mod_if)
    then show ?thesis using True by simp
  next
    case False
    then have "(119 - r) mod 64 = 119 - r" using r by simp
    then show ?thesis using r by simp
  qed
  finally show ?thesis .
qed

section \<open>Refinement: the hasher computes the reference digest\<close>

function absorb :: "Regs \<Rightarrow> byte list \<Rightarrow> Regs \<times> byte list" where
  "absorb st xs =
     (if length xs < 64 then (st, xs) else absorb (compress st (take 64 xs)) (drop 64 xs))"
  by pat_completeness auto
termination
  by (relation "measure (\<lambda>(st, xs). length xs)") auto

declare absorb.simps [simp del]

lemma absorb_short: "length xs < 64 \<Longrightarrow> absorb st xs = (st, xs)"
  by (simp add: absorb.simps)

lemma absorb_long: "64 \<le> length xs \<Longrightarrow> absorb st xs = absorb (compress st (take 64 xs)) (drop 64 xs)"
  by (simp add: absorb.simps)

lemma absorb_rest_length: "length (snd (absorb st xs)) = length xs mod 64"
proof (induction st xs rule: absorb.induct)
  case (1 st xs)
  then show ?case
    by (cases "length xs < 64") (simp_all add: absorb_short absorb_long le_mod_geq)
qed

lemma absorb_append:
  "absorb st (xs @ ys) = absorb (fst (absorb st xs)) (snd (absorb st xs) @ ys)"
proof (induction st xs rule: absorb.induct)
  case (1 st xs)
  then show ?case
    by (cases "length xs < 64") (simp_all add: absorb_short absorb_long)
qed

lemma absorb_blocks: "fst (absorb st xs) = foldl compress st (blocks64 xs)"
proof (induction st xs rule: absorb.induct)
  case (1 st xs)
  then show ?case
    by (cases "length xs < 64") (simp_all add: absorb_short absorb_long blocks64.simps [of xs])
qed

lemma feed_absorb:
  "length (hs_buffer h) < 64 \<Longrightarrow>
   feed h cursor = h\<lparr>hs_state := fst (absorb (hs_state h) (hs_buffer h @ cursor)),
                     hs_buffer := snd (absorb (hs_state h) (hs_buffer h @ cursor))\<rparr>"
proof (induction h cursor rule: feed.induct)
  case (1 h cursor)
  let ?b = "hs_buffer h"
  let ?space = "64 - length ?b"
  show ?case
  proof (cases "length cursor < ?space")
    case True
    then have short: "length (?b @ cursor) < 64" by simp
    have "feed h cursor = h\<lparr>hs_buffer := ?b @ cursor\<rparr>"
    proof (cases "cursor = []")
      case True
      then show ?thesis by (simp add: feed.simps)
    next
      case False
      have "feed h cursor = feed (h\<lparr>hs_buffer := ?b @ cursor\<rparr>) []"
        using True False "1.prems" short by (subst feed.simps) (simp add: Let_def)
      then show ?thesis by (simp add: feed.simps [of _ "[]"])
    qed
    then show ?thesis using short by (simp add: absorb_short)
  next
    case False
    let ?blk = "?b @ take ?space cursor"
    have ne: "cursor \<noteq> []" and len: "length ?blk = 64" using False "1.prems" by auto
    have step: "feed h cursor
        = feed (h\<lparr>hs_state := compress (hs_state h) ?blk, hs_buffer := []\<rparr>) (drop ?space cursor)"
      using False ne "1.prems" len by (subst feed.simps) (simp add: Let_def not_less)
    have IH: "feed (h\<lparr>hs_state := compress (hs_state h) ?blk, hs_buffer := []\<rparr>) (drop ?space cursor)
        = h\<lparr>hs_state := fst (absorb (compress (hs_state h) ?blk) (drop ?space cursor)),
            hs_buffer := snd (absorb (compress (hs_state h) ?blk) (drop ?space cursor))\<rparr>"
      using "1.IH"(1) [of ?space ?space ?blk] ne False "1.prems" len by (simp add: not_less)
    have "absorb (hs_state h) (?b @ cursor) = absorb (compress (hs_state h) ?blk) (drop ?space cursor)"
      using False "1.prems" by (subst absorb_long) (auto simp: not_less)
    then show ?thesis using step IH by simp
  qed
qed

text \<open>The state of a hasher that has been fed \<open>msg\<close>.\<close>

definition hasher_at :: "Hasher \<Rightarrow> byte list \<Rightarrow> bool" where
  "hasher_at h msg \<longleftrightarrow>
     \<not> hs_finished h \<and> (hs_state h, hs_buffer h) = absorb initial_regs msg \<and>
     hs_total h = of_nat (length msg)"

lemma hasher_at_buffer: "hasher_at h msg \<Longrightarrow> length (hs_buffer h) < 64"
  using absorb_rest_length [of initial_regs msg] unfolding hasher_at_def
  by (metis mod_less_divisor snd_conv zero_less_numeral)

lemma hasher_at_init: "hasher_at h_init []"
  by (simp add: hasher_at_def h_init_def absorb_short)

lemma feed_after:
  assumes "hasher_at h msg"
  shows "hs_state (feed h bs) = fst (absorb initial_regs (msg @ bs))"
    and "hs_buffer (feed h bs) = snd (absorb initial_regs (msg @ bs))"
  using assms feed_absorb [OF hasher_at_buffer [OF assms], of bs]
  unfolding absorb_append [of _ msg bs] by (auto simp: hasher_at_def dest: sym [of _ "absorb _ _"])

lemma hasher_at_update:
  assumes "hasher_at h msg"
  shows "hasher_at (h_update h bs) (msg @ bs)"
proof -
  let ?h = "h\<lparr>hs_total := hs_total h + of_nat (length bs)\<rparr>"
  have b: "length (hs_buffer ?h) < 64" using hasher_at_buffer [OF assms] by simp
  show ?thesis
    using assms unfolding h_update_def feed_absorb [OF b] absorb_append [of _ msg bs] hasher_at_def
    by (auto dest: sym [of _ "absorb _ _"])
qed

lemma pad_tail_padding: "pad_tail (of_nat (length msg)) = sha_padding (length msg)"
proof -
  have dvd: "(64::nat) dvd 2 ^ 64" by (rule dvdI [of _ _ "2 ^ 58"]) simp
  have "unat (of_nat (length msg) mod 64 :: u64) = length msg mod 2 ^ 64 mod 64"
    by (simp add: unat_mod_distrib unsigned_of_nat take_bit_eq_mod)
  then have rem: "unat (of_nat (length msg) mod 64 :: u64) = length msg mod 64"
    using dvd by (simp add: mod_mod_cancel)
  have zeros: "(119 - r) mod 64 = (if r < 56 then 55 - r else 119 - r)" if "r < 64" for r :: nat
    using that by (auto simp: mod_if)
  show ?thesis
    by (simp add: pad_tail_def sha_padding_def rem zeros Let_def mult.commute)
qed

lemma hasher_at_finish:
  assumes "hasher_at h msg"
  shows "fst (h_finish h) = sha256_spec msg"
proof -
  have "hs_total h = of_nat (length msg)" and "\<not> hs_finished h"
    using assms by (simp_all add: hasher_at_def)
  then show ?thesis
    by (simp add: h_finish_def Let_def feed_after [OF assms] absorb_blocks pad_tail_padding
        sha256_spec_def)
qed

text \<open>What the digest code relies on: chunks may be fed in any split.\<close>

locale incremental_hash =
  fixes init :: 's and upd :: "'s \<Rightarrow> byte list \<Rightarrow> 's" and fin :: "'s \<Rightarrow> byte list"
    and at :: "'s \<Rightarrow> byte list \<Rightarrow> bool" and spec :: "byte list \<Rightarrow> byte list"
  assumes at_init: "at init []"
    and at_upd: "at h msg \<Longrightarrow> at (upd h bs) (msg @ bs)"
    and at_fin: "at h msg \<Longrightarrow> fin h = spec msg"
begin

lemma at_chunks: "at h msg \<Longrightarrow> at (foldl upd h chunks) (msg @ concat chunks)"
proof (induction chunks arbitrary: h msg)
  case (Cons c cs)
  show ?case using Cons.IH [OF at_upd [OF Cons.prems, of c]] by simp
qed simp

lemma fin_chunks: "fin (foldl upd init chunks) = spec (concat chunks)"
  using at_fin [OF at_chunks [OF at_init, of chunks]] by simp

lemma split_irrelevant: "concat cs = concat ds \<Longrightarrow> fin (foldl upd init cs) = fin (foldl upd init ds)"
  by (simp add: fin_chunks)

end

interpretation hasher: incremental_hash h_init h_update "\<lambda>h. fst (h_finish h)" hasher_at sha256_spec
  by unfold_locales (simp_all add: hasher_at_init hasher_at_update hasher_at_finish)

lemma sha256_is_spec: "sha256 bytes = sha256_spec bytes"
  using hasher.fin_chunks [of "[bytes]"] by (simp add: sha256_def)

lemma length_sha256 [simp]: "length (sha256 bytes) = 32"
  by (simp add: sha256_is_spec sha256_spec_def)

lemma h_finish_again: "h_finish (snd (h_finish h)) = (fst (h_finish h), snd (h_finish h))"
  by (simp add: h_finish_def Let_def)

lemma h_update_finished: "h_update (snd (h_finish h)) bs = snd (h_finish h)"
  by (simp add: h_finish_def h_update_def Let_def)

text \<open>
  C34: However a message is split over calls of \<^verbatim>\<open>Hasher::update\<close>, \<^verbatim>\<open>Hasher::finish\<close> returns the
  SHA-256 digest of the concatenation: the message padded with 0x80, zeros and its bit length to
  whole 64-byte blocks, compressed block by block. A second \<^verbatim>\<open>finish\<close> returns the same value.
\<close>

theorem hasher_chunks:
  "fst (h_finish (foldl h_update h_init chunks)) = sha256_spec (concat chunks)
   \<and> h_finish (snd (h_finish (foldl h_update h_init chunks)))
     = h_finish (foldl h_update h_init chunks)
   \<and> (length (concat chunks) + length (sha_padding (length (concat chunks)))) mod 64 = 0"
  by (simp add: hasher.fin_chunks [symmetric] h_finish_again padded_length)

end
