(* ===== verification/Canonical.thy ===== *)
theory Canonical
  imports Identity Sha256 "HOL-Library.Char_ord"
begin

text \<open>
  Digests, little-endian primitives and the canonical field encoder of
  \<^verbatim>\<open>include/route_provenance/digest.hpp\<close> and \<^verbatim>\<open>src/core.cpp\<close>. A \<open>Digest\<close> is a 32-byte array. An
  encoder's state is its byte vector; each \<open>add_\<close> function returns the extended vector. The hash
  behind the identities is a parameter \<open>H\<close> of the definitions that derive identities; the program
  is the instance \<open>H = digest_hash\<close>, SHA-256 of \<open>Sha256\<close>.
\<close>

section \<open>Digest\<close>

typedef Digest = "{bs :: byte list. length bs = 32}"
  morphisms digest_bytes Abs_Digest
  by (rule exI [of _ "replicate 32 0"]) simp

setup_lifting type_definition_Digest

text \<open>\<^verbatim>\<open>Digest::from_bytes\<close> copies at most 32 bytes over a zeroed array.\<close>

lift_definition digest_from_bytes :: "byte list \<Rightarrow> Digest"
  is "\<lambda>bs. take 32 (bs @ replicate 32 (0::byte))"
  by simp

definition zero_digest :: Digest where
  "zero_digest = digest_from_bytes []"

definition digest_is_zero :: "Digest \<Rightarrow> bool" where
  "digest_is_zero d \<longleftrightarrow> list_all (\<lambda>b. b = 0) (digest_bytes d)"

definition digest_hash :: "byte list \<Rightarrow> Digest" where
  "digest_hash bytes = digest_from_bytes (sha256 bytes)"

instantiation Digest :: equal
begin

definition equal_Digest :: "Digest \<Rightarrow> Digest \<Rightarrow> bool" where
  "equal_Digest a b \<longleftrightarrow> digest_bytes a = digest_bytes b"

instance
  by standard (simp add: equal_Digest_def digest_bytes_inject)

end

lemma length_digest_bytes [simp]: "length (digest_bytes d) = 32"
  using digest_bytes [of d] by simp

lemma digest_bytes_from [simp, code abstract]:
  "digest_bytes (digest_from_bytes bs) = take 32 (bs @ replicate 32 (0::byte))"
  by (rule digest_from_bytes.rep_eq)

lemma digest_from_to [simp]: "digest_from_bytes (digest_bytes d) = d"
  by (simp flip: digest_bytes_inject)

lemma digest_eqI: "digest_bytes a = digest_bytes b \<Longrightarrow> a = b"
  by (simp add: digest_bytes_inject)

lemma digest_is_zero_iff: "digest_is_zero d \<longleftrightarrow> d = zero_digest"
proof
  assume "digest_is_zero d"
  then have "digest_bytes d = replicate 32 0"
    by (intro replicate_eqI) (auto simp: digest_is_zero_def list_all_iff)
  then show "d = zero_digest" by (intro digest_eqI) (simp add: zero_digest_def)
qed (simp add: digest_is_zero_def zero_digest_def list_all_iff)

section \<open>Hexadecimal text\<close>

definition kHexDigits :: string where
  "kHexDigits = ''0123456789abcdef''"

definition digest_hex :: "Digest \<Rightarrow> string" where
  "digest_hex d =
     concat (map (\<lambda>b. [kHexDigits ! unat (drop_bit 4 b), kHexDigits ! unat (b AND 0x0F)]) (digest_bytes d))"

definition hex_decode :: "char \<Rightarrow> int" where
  "hex_decode ch =
     (if CHR ''0'' \<le> ch \<and> ch \<le> CHR ''9'' then of_char ch - of_char (CHR ''0'')
      else if CHR ''a'' \<le> ch \<and> ch \<le> CHR ''f'' then 10 + (of_char ch - of_char (CHR ''a''))
      else if CHR ''A'' \<le> ch \<and> ch \<le> CHR ''F'' then 10 + (of_char ch - of_char (CHR ''A''))
      else - 1)"

fun hex_pairs :: "string \<Rightarrow> byte list option" where
  "hex_pairs [] = Some []"
| "hex_pairs [_] = None"
| "hex_pairs (hi # lo # rest) =
     (if hex_decode hi < 0 \<or> hex_decode lo < 0 then None
      else map_option ((#) (push_bit 4 (of_int (hex_decode hi)) OR of_int (hex_decode lo)))
             (hex_pairs rest))"

definition digest_from_hex :: "string \<Rightarrow> Digest option" where
  "digest_from_hex hex =
     (if length hex \<noteq> 64 then None else map_option digest_from_bytes (hex_pairs hex))"

lemma and_masks: "v AND 15 = take_bit 4 v" "v AND 255 = take_bit 8 v" for v :: "'a::len word"
  by (simp_all add: take_bit_eq_mask mask_eq_exp_minus_1)

lemma word8_nibbles: "push_bit 4 (drop_bit 4 b) OR (b AND 0x0F) = (b :: byte)"
  unfolding and_masks by (rule bit_word_eqI) (auto simp: bit_simps not_less)

lemma hex_digit_cases:
  assumes "n < 16"
  shows "hex_decode (kHexDigits ! n) = int n"
proof -
  have "list_all (\<lambda>n. hex_decode (kHexDigits ! n) = int n) [0..<16]"
    by code_simp
  then show ?thesis using assms by (simp add: list_all_iff)
qed

lemma unat_nibbles: "unat (drop_bit 4 (b :: byte)) < 16" "unat (b AND 0x0F) < 16"
proof -
  have "unat b mod 256 div 16 < 16" by simp
  then show "unat (drop_bit 4 b) < 16"
    by (simp only: unsigned_drop_bit_eq) (simp add: drop_bit_eq_div take_bit_eq_mod)
  show "unat (b AND 0x0F) < 16" by (simp only: and_masks unsigned_take_bit_eq) (simp add: take_bit_eq_mod)
qed

lemma hex_pairs_hex:
  "hex_pairs (concat (map (\<lambda>b. [kHexDigits ! unat (drop_bit 4 b), kHexDigits ! unat (b AND 0x0F)]) bs))
     = Some bs"
proof (induction bs)
  case (Cons b bs)
  have "of_int (int (unat (drop_bit 4 b))) = drop_bit 4 b" "of_int (int (unat (b AND 0x0F))) = b AND 0x0F"
    by simp_all
  then show ?case using Cons
    by (simp add: hex_digit_cases unat_nibbles word8_nibbles)
qed simp

lemma length_hex: "length (concat (map (\<lambda>b. [f b, g b]) bs)) = 2 * length bs"
  by (induction bs) simp_all

text \<open>
  \<^verbatim>\<open>Digest::from_hex\<close> inverts \<^verbatim>\<open>Digest::hex\<close>, whose text always has 64 characters; and a text of
  any other length is rejected.
\<close>

theorem digest_hex_roundtrip:
  "digest_from_hex (digest_hex d) = Some d \<and> length (digest_hex d) = 64
   \<and> (digest_from_hex str = None \<or> length str = 64)"
  by (simp add: digest_from_hex_def digest_hex_def hex_pairs_hex length_hex)

section \<open>Little-endian primitives\<close>

definition store_le16 :: "u16 \<Rightarrow> byte list" where
  "store_le16 v = [ucast (v AND 0xFF), ucast (drop_bit 8 v AND 0xFF)]"

definition store_le32 :: "u32 \<Rightarrow> byte list" where
  "store_le32 v = map (\<lambda>i. ucast (drop_bit (i * 8) v AND 0xFF)) [0..<4]"

definition store_le64 :: "u64 \<Rightarrow> byte list" where
  "store_le64 v = map (\<lambda>i. ucast (drop_bit (i * 8) v AND 0xFF)) [0..<8]"

fun load_le16 :: "byte list \<Rightarrow> u16" where
  "load_le16 (d0 # d1 # _) = ucast d0 OR push_bit 8 (ucast d1)"
| "load_le16 _ = 0"

fun load_le32 :: "byte list \<Rightarrow> u32" where
  "load_le32 (d0 # d1 # d2 # d3 # _) =
     ucast d0 OR push_bit 8 (ucast d1) OR push_bit 16 (ucast d2) OR push_bit 24 (ucast d3)"
| "load_le32 _ = 0"

definition load_le64 :: "byte list \<Rightarrow> u64" where
  "load_le64 data = foldr (\<lambda>b v. push_bit 8 v OR ucast b) (take 8 data) 0"

lemma length_store_le [simp, enc_length]:
  "length (store_le16 v) = 2" "length (store_le32 w) = 4" "length (store_le64 x) = 8"
  by (simp_all add: store_le16_def store_le32_def store_le64_def)

lemma load_store_le16: "load_le16 (store_le16 v @ rest) = v"
proof -
  have "ucast (ucast (v AND 0xFF) :: byte) OR push_bit 8 (ucast (ucast (drop_bit 8 v AND 0xFF) :: byte)) = v"
    unfolding and_masks by (rule bit_word_eqI) (auto simp: bit_simps not_less)
  then show ?thesis by (simp add: store_le16_def)
qed

lemma upt4: "[0..<4] = [0, 1, 2, 3 :: nat]" and upt8: "[0..<8] = [0, 1, 2, 3, 4, 5, 6, 7 :: nat]"
  by (simp_all add: upt_rec)

lemma load_store_le32: "load_le32 (store_le32 v @ rest) = v"
proof -
  let ?b = "\<lambda>i. ucast (ucast (drop_bit i v AND 0xFF) :: byte) :: u32"
  have "?b 0 OR push_bit 8 (?b 8) OR push_bit 16 (?b 16) OR push_bit 24 (?b 24) = v"
  proof (rule bit_word_eqI)
    fix n assume "n < LENGTH(32)"
    then show "bit (?b 0 OR push_bit 8 (?b 8) OR push_bit 16 (?b 16) OR push_bit 24 (?b 24)) n = bit v n"
      unfolding and_masks
      by (cases "n < 8"; cases "n < 16"; cases "n < 24") (simp_all add: bit_simps, linarith+)
  qed
  then show ?thesis by (simp add: store_le32_def upt4)
qed

fun le_bytes :: "nat \<Rightarrow> u64 \<Rightarrow> byte list" where
  "le_bytes 0 v = []"
| "le_bytes (Suc n) v = ucast v # le_bytes n (drop_bit 8 v)"

lemma le_bytes_map: "le_bytes n v = map (\<lambda>i. ucast (drop_bit (i * 8) v AND 0xFF)) [0..<n]"
proof (induction n arbitrary: v)
  case (Suc n)
  have "ucast (v AND 0xFF) = (ucast v :: byte)"
    unfolding and_masks by (rule bit_word_eqI) (auto simp: bit_simps)
  then show ?case
    by (simp add: Suc upt_conv_Cons map_Suc_upt [symmetric] add.commute del: upt_Suc)
qed simp

lemma load_le_bytes:
  "foldr (\<lambda>b v. push_bit 8 v OR ucast b) (le_bytes n v) 0 = (take_bit (8 * n) v :: u64)"
proof (induction n arbitrary: v)
  case (Suc n)
  have "push_bit 8 (take_bit (8 * n) (drop_bit 8 v)) OR ucast (ucast v :: byte)
      = (take_bit (8 * Suc n) v :: u64)"
    by (rule bit_word_eqI) (auto simp: bit_simps)
  then show ?case by (simp add: Suc)
qed simp

lemma load_store_le64: "load_le64 (store_le64 v @ rest) = v"
proof -
  have "take_bit 64 v = v" by (rule take_bit_word_eq_self) simp
  then show ?thesis
    using load_le_bytes [of 8 v] by (simp add: load_le64_def store_le64_def le_bytes_map)
qed

lemma store_le_inj:
  "store_le16 a = store_le16 b \<longleftrightarrow> a = b" "store_le32 c = store_le32 d \<longleftrightarrow> c = d"
  "store_le64 e = store_le64 f \<longleftrightarrow> e = f"
  using load_store_le16 [where rest = "[]"] load_store_le32 [where rest = "[]"]
    load_store_le64 [where rest = "[]"]
  by (metis append_Nil2)+

section \<open>The canonical encoder\<close>

text \<open>
  The state of a \<^verbatim>\<open>CanonicalEncoder\<close> is the vector it has written. \<open>encode_seq\<close> runs a sequence of
  \<^verbatim>\<open>add_\<close> calls on an empty encoder, in the order of the source.
\<close>

type_synonym Encoder = "byte list"

definition add_raw :: "byte list \<Rightarrow> Encoder \<Rightarrow> Encoder" where
  "add_raw v enc = enc @ v"

definition add_field :: "u16 \<Rightarrow> byte list \<Rightarrow> Encoder \<Rightarrow> Encoder" where
  "add_field field payload enc =
     enc @ store_le16 field @ store_le32 (of_nat (length payload)) @ payload"

definition add_bool :: "u16 \<Rightarrow> bool \<Rightarrow> Encoder \<Rightarrow> Encoder" where
  "add_bool field v = add_field field [if v then 1 else 0]"

definition add_u16 :: "u16 \<Rightarrow> u16 \<Rightarrow> Encoder \<Rightarrow> Encoder" where
  "add_u16 field v = add_field field (store_le16 v)"

definition add_u32 :: "u16 \<Rightarrow> u32 \<Rightarrow> Encoder \<Rightarrow> Encoder" where
  "add_u32 field v = add_field field (store_le32 v)"

definition add_u64 :: "u16 \<Rightarrow> u64 \<Rightarrow> Encoder \<Rightarrow> Encoder" where
  "add_u64 field v = add_field field (store_le64 v)"

definition add_digest :: "u16 \<Rightarrow> Digest \<Rightarrow> Encoder \<Rightarrow> Encoder" where
  "add_digest field v = add_field field (digest_bytes v)"

definition add_bytes :: "u16 \<Rightarrow> byte list \<Rightarrow> Encoder \<Rightarrow> Encoder" where
  "add_bytes field v = add_field field v"

definition string_bytes :: "string \<Rightarrow> byte list" where
  "string_bytes str = map of_char str"

definition add_string :: "u16 \<Rightarrow> string \<Rightarrow> Encoder \<Rightarrow> Encoder" where
  "add_string field v = add_field field (string_bytes v)"

definition add_nested :: "u16 \<Rightarrow> Encoder \<Rightarrow> Encoder \<Rightarrow> Encoder" where
  "add_nested field nested = add_field field nested"

definition encode_seq :: "(Encoder \<Rightarrow> Encoder) list \<Rightarrow> Encoder" where
  "encode_seq calls = foldl (\<lambda>enc call. call enc) [] calls"

text \<open>
  \<^verbatim>\<open>CanonicalEncoder::digest\<close>: three updates of a hasher. \<open>enc_digest\<close> is the same value for an
  arbitrary hash of the concatenated bytes.
\<close>

definition encoder_digest :: "string \<Rightarrow> Encoder \<Rightarrow> Digest" where
  "encoder_digest domain enc =
     digest_from_bytes (fst (h_finish
       (h_update (h_update (h_update h_init (string_bytes domain))
                           (store_le32 (of_nat (length enc)))) enc)))"

type_synonym hash_fun = "byte list \<Rightarrow> Digest"

definition enc_digest :: "hash_fun \<Rightarrow> string \<Rightarrow> Encoder \<Rightarrow> Digest" where
  "enc_digest H domain enc = H (string_bytes domain @ store_le32 (of_nat (length enc)) @ enc)"

lemma encoder_digest_is_sha256: "encoder_digest domain enc = enc_digest digest_hash domain enc"
  using hasher.fin_chunks [of "[string_bytes domain, store_le32 (of_nat (length enc)), enc]"]
  by (simp add: encoder_digest_def enc_digest_def digest_hash_def sha256_is_spec)

text \<open>\<^verbatim>\<open>derive_id\<close>: the first non-zero 64-bit word of the digest, or one.\<close>

definition derive_id :: "Digest \<Rightarrow> u64" where
  "derive_id d =
     (case List.find (\<lambda>candidate. candidate \<noteq> 0)
             (map (\<lambda>offset. load_le64 (drop offset (digest_bytes d))) [0, 8, 16, 24]) of
        Some candidate \<Rightarrow> candidate
      | None \<Rightarrow> 1)"

lemma derive_id_valid [simp]: "id_valid (derive_id d)"
  by (auto simp: derive_id_def id_valid_def dest: find_SomeD split: option.splits)

lemma derive_id_nonzero [simp]: "derive_id d \<noteq> 0"
  using derive_id_valid [of d] by (simp add: id_valid_def)

section \<open>Unique readability\<close>

definition field_bytes :: "u16 \<times> byte list \<Rightarrow> byte list" where
  "field_bytes f = store_le16 (fst f) @ store_le32 (of_nat (length (snd f))) @ snd f"

definition fields_bytes :: "(u16 \<times> byte list) list \<Rightarrow> byte list" where
  "fields_bytes fs = concat (map field_bytes fs)"

definition payload_fits :: "u16 \<times> byte list \<Rightarrow> bool" where
  "payload_fits f \<longleftrightarrow> length (snd f) < 2 ^ 32"

lemma add_field_bytes: "add_field field payload enc = enc @ field_bytes (field, payload)"
  by (simp add: add_field_def field_bytes_def)

lemmas add_defs = add_bool_def add_u16_def add_u32_def add_u64_def add_digest_def add_bytes_def
  add_string_def add_nested_def add_field_bytes

lemma length_field_bytes [simp, enc_length]: "length (field_bytes f) = 6 + length (snd f)"
  by (simp add: field_bytes_def)

lemma fields_bytes_simps [simp]:
  "fields_bytes [] = []" "fields_bytes (f # fs) = field_bytes f @ fields_bytes fs"
  "fields_bytes (fs @ gs) = fields_bytes fs @ fields_bytes gs"
  by (simp_all add: fields_bytes_def)

text \<open>A call that appends one field; sequences of such calls are field lists.\<close>

definition appends :: "(Encoder \<Rightarrow> Encoder) \<Rightarrow> (u16 \<times> byte list) list \<Rightarrow> bool" where
  "appends call fs \<longleftrightarrow> (\<forall>enc. call enc = enc @ fields_bytes fs)"

lemma appends_add [simp]:
  "appends (add_bool field b) [(field, [if b then 1 else 0])]"
  "appends (add_u16 field v16) [(field, store_le16 v16)]"
  "appends (add_u32 field v32) [(field, store_le32 v32)]"
  "appends (add_u64 field v64) [(field, store_le64 v64)]"
  "appends (add_digest field d) [(field, digest_bytes d)]"
  "appends (add_string field str) [(field, string_bytes str)]"
  "appends (add_nested field enc) [(field, enc)]"
  by (simp_all add: appends_def add_defs)

lemma encode_seq_snoc: "encode_seq (calls @ [call]) = call (encode_seq calls)"
  by (simp add: encode_seq_def)

lemma encode_seq_fields:
  "list_all2 appends calls fss \<Longrightarrow> encode_seq calls = fields_bytes (concat fss)"
proof (induction calls arbitrary: fss rule: rev_induct)
  case (snoc call calls)
  from snoc.prems obtain gss fs where fss: "fss = gss @ [fs]"
    and all: "list_all2 appends calls gss" and one: "appends call fs"
    by (auto simp: list_all2_append1 list_all2_Cons1)
  show ?case using one snoc.IH [OF all] by (simp add: encode_seq_snoc fss appends_def)
qed (simp add: encode_seq_def)

lemma string_bytes_inj [simp]: "string_bytes a = string_bytes b \<longleftrightarrow> a = b"
proof -
  have "inj (of_char :: char \<Rightarrow> byte)"
  proof (rule injI)
    fix x y :: char
    assume "(of_char x :: byte) = of_char y"
    then have "unat (of_nat (of_char x) :: byte) = unat (of_nat (of_char y) :: byte)" by (simp only: of_nat_of_char)
    then have "(of_char x :: nat) = of_char y"
      by (simp only: unsigned_of_nat take_bit_eq_mod) simp
    then show "x = y" by (simp add: of_char_eq_iff)
  qed
  then show ?thesis by (simp add: string_bytes_def inj_map_eq_map)
qed

lemma field_prefix:
  assumes "payload_fits f" and "payload_fits g"
    and "field_bytes f @ xs = field_bytes g @ ys"
  shows "f = g \<and> xs = ys"
proof -
  obtain a p b q where f: "f = (a, p)" and g: "g = (b, q)" by (cases f, cases g) simp
  have "store_le16 a = store_le16 b \<and> store_le32 (of_nat (length p)) @ p @ xs
      = store_le32 (of_nat (length q)) @ q @ ys"
    using assms(3) unfolding f g field_bytes_def by (simp add: append_eq_append_conv)
  then have "a = b" and "(of_nat (length p) :: u32) = of_nat (length q)" and "p @ xs = q @ ys"
    by (simp_all add: append_eq_append_conv store_le_inj)
  then show ?thesis
    using assms(1,2) of_nat_inj_u32 [of "length p" "length q"]
    by (simp add: f g payload_fits_def append_eq_append_conv)
qed

lemma fields_bytes_inj:
  assumes "list_all payload_fits fs" and "list_all payload_fits gs"
    and "fields_bytes fs = fields_bytes gs"
  shows "fs = gs"
  using assms
proof (induction fs arbitrary: gs)
  case Nil
  have "gs = []" using Nil(3) length_field_bytes [of "hd gs"] by (cases gs) (auto simp: field_bytes_def store_le16_def)
  then show ?case by simp
next
  case (Cons f fs)
  from Cons.prems(3) have "gs \<noteq> []" by (auto simp: field_bytes_def store_le16_def)
  then obtain g gs' where gs: "gs = g # gs'" by (cases gs) auto
  have "f = g \<and> fields_bytes fs = fields_bytes gs'"
    using Cons.prems by (intro field_prefix) (auto simp: gs)
  then show ?case using Cons by (simp add: gs)
qed

lemma foldl_add_field: "foldl (\<lambda>enc f. add_field (fst f) (snd f) enc) enc fs = enc @ fields_bytes fs"
  by (induction fs arbitrary: enc) (simp_all add: add_field_bytes)

text \<open>
  The canonical encoding is unambiguous: two sequences of fields whose payloads each fit the
  32-bit length prefix give the same byte string only when they are the same fields in the same
  order, as \<^verbatim>\<open>digest.hpp\<close> promises.
\<close>

theorem canonical_encoding_unique:
  assumes "list_all payload_fits fs" and "list_all payload_fits gs"
  shows "foldl (\<lambda>enc f. add_field (fst f) (snd f) enc) [] fs
       = foldl (\<lambda>enc f. add_field (fst f) (snd f) enc) [] gs \<longleftrightarrow> fs = gs"
  using fields_bytes_inj [OF assms] by (auto simp: foldl_add_field)

theorem canonical_encoding_unique_witness:
  "foldl (\<lambda>enc f. add_field (fst f) (snd f) enc) [] [(1, [1, 2]), (2, [])]
     \<noteq> foldl (\<lambda>enc f. add_field (fst f) (snd f) enc) [] [(1, [1]), (2, [2])]"
  using canonical_encoding_unique [of "[(1, [1, 2]), (2, [])]" "[(1, [1]), (2, [2])]"]
  by (simp add: payload_fits_def)

end
