(* ===== verification/Evidence.thy ===== *)
theory Evidence
  imports Limits Canonical
begin

text \<open>
  The canonical evidence vectors of \<^verbatim>\<open>include/route_provenance/evidence.hpp\<close> and \<^verbatim>\<open>src/core.cpp\<close>.
  An evidence field is a 16-bit value: a scoped enumeration of the sources can hold values outside
  its enumerators, and the decoder of the persistence format stores them unchecked.
\<close>

type_synonym EvidenceField = u16

definition EF_TopologyGeneration :: EvidenceField where "EF_TopologyGeneration = 1"
definition EF_LinkStateGeneration :: EvidenceField where "EF_LinkStateGeneration = 2"
definition EF_PortGeneration :: EvidenceField where "EF_PortGeneration = 3"
definition EF_CapabilityGeneration :: EvidenceField where "EF_CapabilityGeneration = 4"
definition EF_FailureDomainGeneration :: EvidenceField where "EF_FailureDomainGeneration = 5"
definition EF_FabricEpoch :: EvidenceField where "EF_FabricEpoch = 6"
definition EF_PathAuthorityGeneration :: EvidenceField where "EF_PathAuthorityGeneration = 7"
definition EF_PlannerGeneration :: EvidenceField where "EF_PlannerGeneration = 8"
definition EF_AdaptivePolicyGeneration :: EvidenceField where "EF_AdaptivePolicyGeneration = 9"
definition EF_ConvergencePlanGeneration :: EvidenceField where "EF_ConvergencePlanGeneration = 10"
definition EF_RouteGeneration :: EvidenceField where "EF_RouteGeneration = 11"
definition EF_PublisherGeneration :: EvidenceField where "EF_PublisherGeneration = 12"

definition evidence_field_name :: "EvidenceField \<Rightarrow> string" where
  "evidence_field_name f =
     (if f = EF_TopologyGeneration then ''TOPOLOGY_GENERATION''
      else if f = EF_LinkStateGeneration then ''LINK_STATE_GENERATION''
      else if f = EF_PortGeneration then ''PORT_GENERATION''
      else if f = EF_CapabilityGeneration then ''CAPABILITY_GENERATION''
      else if f = EF_FailureDomainGeneration then ''FAILURE_DOMAIN_GENERATION''
      else if f = EF_FabricEpoch then ''FABRIC_EPOCH''
      else if f = EF_PathAuthorityGeneration then ''PATH_AUTHORITY_GENERATION''
      else if f = EF_PlannerGeneration then ''PLANNER_GENERATION''
      else if f = EF_AdaptivePolicyGeneration then ''ADAPTIVE_POLICY_GENERATION''
      else if f = EF_ConvergencePlanGeneration then ''CONVERGENCE_PLAN_GENERATION''
      else if f = EF_RouteGeneration then ''ROUTE_GENERATION''
      else if f = EF_PublisherGeneration then ''PUBLISHER_GENERATION''
      else ''UNKNOWN'')"

definition evidence_kAll :: "EvidenceField list" where
  "evidence_kAll =
     [EF_TopologyGeneration, EF_LinkStateGeneration, EF_PortGeneration, EF_CapabilityGeneration,
      EF_FailureDomainGeneration, EF_FabricEpoch, EF_PathAuthorityGeneration, EF_PlannerGeneration,
      EF_AdaptivePolicyGeneration, EF_ConvergencePlanGeneration, EF_RouteGeneration,
      EF_PublisherGeneration]"

definition parse_evidence_field :: "string \<Rightarrow> EvidenceField option" where
  "parse_evidence_field str = List.find (\<lambda>f. evidence_field_name f = str) evidence_kAll"

datatype EvidenceEntry = EvidenceEntry (ee_field: EvidenceField) (ee_value: u64)

type_synonym EvidenceVector = "EvidenceEntry list"

fun evidence_scan :: "EvidenceVector \<Rightarrow> EvidenceEntry list \<Rightarrow> EvidenceVector Result" where
  "evidence_scan vector [] = r_ok vector"
| "evidence_scan vector (entry # rest) =
     (if ee_value entry = 0 then
        r_failure O_InvalidSourceGeneration
          (''evidence field '' @ evidence_field_name (ee_field entry) @ '' has an invalid generation'')
      else if vector \<noteq> [] \<and> ee_field (last vector) = ee_field entry then
        (if ee_value (last vector) \<noteq> ee_value entry then
           r_failure O_MalformedRequest
             (''conflicting evidence values for field '' @ evidence_field_name (ee_field entry))
         else evidence_scan vector rest)
      else evidence_scan (vector @ [entry]) rest)"

definition evidence_create :: "EvidenceEntry list \<Rightarrow> Limits \<Rightarrow> EvidenceVector Result" where
  "evidence_create entries limits =
     (if length entries > max_evidence_entries limits then
        r_failure O_ResourceLimit ''evidence vector exceeds max_evidence_entries''
      else evidence_scan [] (sort_key ee_field entries))"

fun evidence_get :: "EvidenceVector \<Rightarrow> EvidenceField \<Rightarrow> u64 option" where
  "evidence_get [] field = None"
| "evidence_get (entry # rest) field =
     (if ee_field entry = field then Some (ee_value entry) else evidence_get rest field)"

fun evidence_contains :: "EvidenceVector \<Rightarrow> EvidenceField \<Rightarrow> bool" where
  "evidence_contains [] field = False"
| "evidence_contains (entry # rest) field =
     (if ee_field entry = field then True else evidence_contains rest field)"

definition evidence_bytes :: "EvidenceVector \<Rightarrow> Encoder" where
  "evidence_bytes ev =
     encode_seq (add_u32 1 (of_nat (length ev)) # map (\<lambda>e. add_u64 (ee_field e) (ee_value e)) ev)"

definition evidence_encode :: "EvidenceVector \<Rightarrow> u16 \<Rightarrow> Encoder \<Rightarrow> Encoder" where
  "evidence_encode ev field = add_nested field (evidence_bytes ev)"

definition evidence_digest :: "hash_fun \<Rightarrow> EvidenceVector \<Rightarrow> Digest" where
  "evidence_digest H ev = enc_digest H ''rp.evidence.v1'' (encode_seq [evidence_encode ev 1])"

section \<open>Canonical form\<close>

text \<open>A canonical vector: strictly ascending fields, no absent generation.\<close>

definition evidence_canonical :: "EvidenceVector \<Rightarrow> bool" where
  "evidence_canonical v \<longleftrightarrow> sorted_wrt (<) (map ee_field v) \<and> 0 \<notin> ee_value ` set v"

definition evidence_consistent :: "EvidenceEntry list \<Rightarrow> bool" where
  "evidence_consistent es \<longleftrightarrow>
     0 \<notin> ee_value ` set es \<and> inj_on ee_field (set es)"

lemma evidence_scan_value:
  assumes "sorted (map ee_field (acc @ es))" and "evidence_canonical acc"
  shows "r_value (evidence_scan acc es) = Some v \<longleftrightarrow>
     evidence_consistent (acc @ es) \<and> evidence_canonical v \<and> set v = set (acc @ es)"
  using assms
proof (induction es arbitrary: acc)
  case Nil
  have "inj_on ee_field (set acc)"
    using Nil by (auto simp: evidence_canonical_def dest!: sorted_wrt_less_distinct simp: distinct_map)
  moreover have "v = acc" if "evidence_canonical v" "set v = set acc"
  proof -
    have "map ee_field v = map ee_field acc"
      using that Nil by (intro sorted_wrt_less_unique) (auto simp: evidence_canonical_def)
    then show ?thesis using that(2) \<open>inj_on ee_field (set acc)\<close>
      by (metis inj_on_map_eq_map Un_absorb)
  qed
  ultimately show ?case using Nil by (auto simp: evidence_consistent_def evidence_canonical_def)
next
  case (Cons e es)
  show ?case
  proof (cases "ee_value e = 0")
    case True
    then show ?thesis by (auto simp: evidence_consistent_def)
  next
    case nz: False
    show ?thesis
    proof (cases "acc \<noteq> [] \<and> ee_field (last acc) = ee_field e")
      case True
      then have l: "last acc \<in> set acc" by simp
      show ?thesis
      proof (cases "last acc = e")
        case same: True
        then have "evidence_consistent (acc @ e # es) = evidence_consistent (acc @ es)"
          and "set (acc @ e # es) = set (acc @ es)"
          using l by (auto simp: evidence_consistent_def insert_absorb)
        then show ?thesis
          using Cons.IH [of acc] Cons.prems True same nz by (auto simp: sorted_append)
      next
        case diff: False
        then have "ee_value (last acc) \<noteq> ee_value e"
          using True by (metis EvidenceEntry.expand)
        moreover have "\<not> evidence_consistent (acc @ e # es)"
          using True l diff by (auto simp: evidence_consistent_def inj_on_def)
        ultimately show ?thesis using True nz by simp
      qed
    next
      case new: False
      have "evidence_canonical (acc @ [e])"
      proof (cases "acc = []")
        case False
        have "\<forall>x \<in> set acc. ee_field x \<le> ee_field e"
          using Cons.prems(1) by (auto simp: sorted_append)
        moreover have "ee_field (last acc) \<noteq> ee_field e" using new False by simp
        moreover have "\<forall>x \<in> set acc. ee_field x \<le> ee_field (last acc)"
          using Cons.prems(2) False
          by (cases acc rule: rev_cases) (auto simp: evidence_canonical_def sorted_wrt_append intro: less_imp_le)
        ultimately have "\<forall>x \<in> set acc. ee_field x < ee_field e"
          using False by (metis last_in_set order_le_less order_le_less_trans)
        then show ?thesis
          using Cons.prems(2) nz by (auto simp: evidence_canonical_def sorted_wrt_append)
      qed (use nz in \<open>simp add: evidence_canonical_def\<close>)
      then show ?thesis using Cons.IH [of "acc @ [e]"] Cons.prems new nz by auto
    qed
  qed
qed

lemma evidence_create_value:
  "r_value (evidence_create entries limits) = Some v \<longleftrightarrow>
     length entries \<le> max_evidence_entries limits \<and> evidence_consistent entries
     \<and> evidence_canonical v \<and> set v = set entries"
proof -
  have "evidence_canonical []" by (simp add: evidence_canonical_def)
  then show ?thesis
    using evidence_scan_value [of "[]" "sort_key ee_field entries" v]
    by (simp add: evidence_create_def evidence_consistent_def)
qed

text \<open>
  \<^verbatim>\<open>EvidenceVector::create\<close> succeeds exactly when the entries respect the size bound, carry no
  absent generation and never give one field two values; its result is then the one canonical
  vector (strictly ascending fields) with the same entries, whatever their order and repetition.
\<close>

theorem evidence_create_spec:
  "r_value (evidence_create entries limits) = Some v \<longleftrightarrow>
     length entries \<le> max_evidence_entries limits \<and> evidence_consistent entries
     \<and> evidence_canonical v \<and> set v = set entries"
  by (rule evidence_create_value)

end
