(* ===== verification/Authority.thy ===== *)
theory Authority
  imports Evidence "HOL-Library.Product_Lexorder"
begin

text \<open>
  Publication authority, \<^verbatim>\<open>include/route_provenance/authority.hpp\<close> and \<^verbatim>\<open>src/core.cpp\<close>: the
  publisher identity (publisher, boot, epoch), the explicit default-deny scope, the authority
  context of one attempt with its canonical encoding, and the registry record of a publisher.
\<close>

record PublisherIdentity =
  pi_publisher :: PublisherId
  pi_boot :: WorkerBootId
  pi_epoch :: CoordinatorEpoch

definition identity_valid :: "PublisherIdentity \<Rightarrow> bool" where
  "identity_valid i \<longleftrightarrow> id_valid (pi_publisher i) \<and> id_valid (pi_boot i) \<and> id_valid (pi_epoch i)"

definition identity_describe :: "PublisherIdentity \<Rightarrow> string" where
  "identity_describe i =
     ''publisher='' @ id_to_string (pi_publisher i) @ '' boot='' @ id_to_string (pi_boot i) @
     '' epoch='' @ id_to_string (pi_epoch i)"

record ScopeTarget =
  tg_routing_namespace :: RoutingNamespaceId
  tg_lineage :: RouteLineageId
  tg_route :: RouteId

datatype ScopeKind = SK_None | SK_Fabric | SK_RoutingNamespace | SK_Lineage | SK_Route

fun scope_kind_code :: "ScopeKind \<Rightarrow> u16" where
  "scope_kind_code SK_None = 0"
| "scope_kind_code SK_Fabric = 1"
| "scope_kind_code SK_RoutingNamespace = 2"
| "scope_kind_code SK_Lineage = 3"
| "scope_kind_code SK_Route = 4"

fun scope_kind_name :: "ScopeKind \<Rightarrow> string" where
  "scope_kind_name SK_None = ''NONE''"
| "scope_kind_name SK_Fabric = ''FABRIC''"
| "scope_kind_name SK_RoutingNamespace = ''ROUTING_NAMESPACE''"
| "scope_kind_name SK_Lineage = ''LINEAGE''"
| "scope_kind_name SK_Route = ''ROUTE''"

definition parse_scope_kind :: "string \<Rightarrow> ScopeKind option" where
  "parse_scope_kind str =
     List.find (\<lambda>k. scope_kind_name k = str)
       [SK_None, SK_Fabric, SK_RoutingNamespace, SK_Lineage, SK_Route]"

datatype AuthorityScope = AuthorityScope (scope_kind: ScopeKind) (scope_subject: u64)

definition scope_none :: AuthorityScope where
  "scope_none = AuthorityScope SK_None 0"

definition scope_fabric :: AuthorityScope where
  "scope_fabric = AuthorityScope SK_Fabric 0"

definition scope_routing_namespace :: "RoutingNamespaceId \<Rightarrow> AuthorityScope" where
  "scope_routing_namespace i =
     (if id_valid i then AuthorityScope SK_RoutingNamespace i else AuthorityScope SK_None 0)"

definition scope_lineage :: "RouteLineageId \<Rightarrow> AuthorityScope" where
  "scope_lineage i = (if id_valid i then AuthorityScope SK_Lineage i else AuthorityScope SK_None 0)"

definition scope_route :: "RouteId \<Rightarrow> AuthorityScope" where
  "scope_route i = (if id_valid i then AuthorityScope SK_Route i else AuthorityScope SK_None 0)"

definition scope_is_empty :: "AuthorityScope \<Rightarrow> bool" where
  "scope_is_empty scope \<longleftrightarrow> scope_kind scope = SK_None"

definition permits :: "AuthorityScope \<Rightarrow> ScopeTarget \<Rightarrow> bool" where
  "permits scope target =
     (case scope_kind scope of
        SK_None \<Rightarrow> False
      | SK_Fabric \<Rightarrow> True
      | SK_RoutingNamespace \<Rightarrow>
          scope_subject scope \<noteq> 0 \<and> id_valid (tg_routing_namespace target)
          \<and> scope_subject scope = tg_routing_namespace target
      | SK_Lineage \<Rightarrow>
          scope_subject scope \<noteq> 0 \<and> id_valid (tg_lineage target)
          \<and> scope_subject scope = tg_lineage target
      | SK_Route \<Rightarrow>
          scope_subject scope \<noteq> 0 \<and> id_valid (tg_route target)
          \<and> scope_subject scope = tg_route target)"

definition scope_describe :: "AuthorityScope \<Rightarrow> string" where
  "scope_describe scope =
     (case scope_kind scope of
        SK_None \<Rightarrow> ''scope=NONE''
      | SK_Fabric \<Rightarrow> ''scope=FABRIC''
      | SK_RoutingNamespace \<Rightarrow> ''scope=ROUTING_NAMESPACE:'' @ dec_string (unat (scope_subject scope))
      | SK_Lineage \<Rightarrow> ''scope=LINEAGE:'' @ dec_string (unat (scope_subject scope))
      | SK_Route \<Rightarrow> ''scope=ROUTE:'' @ dec_string (unat (scope_subject scope)))"

definition scope_bytes :: "AuthorityScope \<Rightarrow> Encoder" where
  "scope_bytes scope =
     encode_seq [add_u16 1 (scope_kind_code (scope_kind scope)), add_u64 2 (scope_subject scope)]"

definition scope_encode :: "AuthorityScope \<Rightarrow> u16 \<Rightarrow> Encoder \<Rightarrow> Encoder" where
  "scope_encode scope field = add_nested field (scope_bytes scope)"

record AuthorityContext =
  ac_publisher :: PublisherIdentity
  ac_scope :: AuthorityScope
  ac_attempt :: MutationAttemptId
  ac_expected_lineage_generation :: "LineageGeneration option"
  ac_expected_provenance_generation :: "ProvenanceGeneration option"

definition has_identity :: "AuthorityContext \<Rightarrow> bool" where
  "has_identity a \<longleftrightarrow> identity_valid (ac_publisher a) \<and> id_valid (ac_attempt a)"

text \<open>\<^verbatim>\<open>optional.has_value() ? optional->value() : 0\<close>\<close>

definition opt_raw :: "u64 option \<Rightarrow> u64" where
  "opt_raw v = (case v of Some x \<Rightarrow> x | None \<Rightarrow> 0)"

definition authority_bytes :: "AuthorityContext \<Rightarrow> Encoder" where
  "authority_bytes a = encode_seq
     [add_u64 1 (pi_publisher (ac_publisher a)),
      add_u64 2 (pi_boot (ac_publisher a)),
      add_u64 3 (pi_epoch (ac_publisher a)),
      add_u64 4 (ac_attempt a),
      scope_encode (ac_scope a) 5,
      add_u64 6 (opt_raw (ac_expected_lineage_generation a)),
      add_u64 7 (opt_raw (ac_expected_provenance_generation a))]"

definition authority_encode :: "AuthorityContext \<Rightarrow> u16 \<Rightarrow> Encoder \<Rightarrow> Encoder" where
  "authority_encode a field = add_nested field (authority_bytes a)"

definition authority_digest :: "hash_fun \<Rightarrow> AuthorityContext \<Rightarrow> Digest" where
  "authority_digest H a = enc_digest H ''rp.authority.v1'' (encode_seq [authority_encode a 1])"

record PublisherRecord =
  pr_identity :: PublisherIdentity
  pr_scope :: AuthorityScope
  pr_live :: bool
  pr_fenced :: bool

section \<open>Encodings are injective\<close>

text \<open>
  A record is determined by its canonical bytes once its optional generations are absent or valid:
  the encoder writes an absent one as zero.
\<close>

lemma scope_kind_code_inj: "scope_kind_code a = scope_kind_code b \<longleftrightarrow> a = b"
  by (cases a; cases b) simp_all

lemma opt_raw_inj: "a \<noteq> Some 0 \<Longrightarrow> b \<noteq> Some 0 \<Longrightarrow> opt_raw a = opt_raw b \<longleftrightarrow> a = b"
  by (auto simp: opt_raw_def split: option.splits)

definition scope_fields :: "AuthorityScope \<Rightarrow> (u16 \<times> byte list) list" where
  "scope_fields scope =
     [(1, store_le16 (scope_kind_code (scope_kind scope))), (2, store_le64 (scope_subject scope))]"

lemma scope_bytes_fields: "scope_bytes scope = fields_bytes (scope_fields scope)"
  by (simp add: scope_bytes_def scope_fields_def encode_seq_def add_defs)

lemma scope_fields_fit [simp]: "list_all payload_fits (scope_fields scope)"
  by (simp add: scope_fields_def payload_fits_def)

lemma length_scope_bytes [simp]: "length (scope_bytes scope) = 22"
  by (simp add: scope_bytes_fields scope_fields_def)

lemma scope_bytes_inj [simp]: "scope_bytes a = scope_bytes b \<longleftrightarrow> a = b"
proof -
  have "scope_bytes a = scope_bytes b \<longleftrightarrow> scope_fields a = scope_fields b"
    using fields_bytes_inj [OF scope_fields_fit scope_fields_fit, of a b] by (auto simp: scope_bytes_fields)
  also have "\<dots> \<longleftrightarrow> a = b"
    by (cases a; cases b) (simp add: scope_fields_def store_le_inj scope_kind_code_inj)
  finally show ?thesis .
qed

definition authority_fields :: "AuthorityContext \<Rightarrow> (u16 \<times> byte list) list" where
  "authority_fields a =
     [(1, store_le64 (pi_publisher (ac_publisher a))), (2, store_le64 (pi_boot (ac_publisher a))),
      (3, store_le64 (pi_epoch (ac_publisher a))), (4, store_le64 (ac_attempt a)),
      (5, scope_bytes (ac_scope a)),
      (6, store_le64 (opt_raw (ac_expected_lineage_generation a))),
      (7, store_le64 (opt_raw (ac_expected_provenance_generation a)))]"

lemma authority_bytes_fields: "authority_bytes a = fields_bytes (authority_fields a)"
  by (simp add: authority_bytes_def authority_fields_def encode_seq_def scope_encode_def add_defs)

lemma authority_fields_fit [simp]: "list_all payload_fits (authority_fields a)"
  by (simp add: authority_fields_def payload_fits_def)

lemma length_authority_bytes [simp]: "length (authority_bytes a) = 112"
  by (simp add: authority_bytes_fields authority_fields_def)

definition authority_wf :: "AuthorityContext \<Rightarrow> bool" where
  "authority_wf a \<longleftrightarrow> ac_expected_lineage_generation a \<noteq> Some 0
     \<and> ac_expected_provenance_generation a \<noteq> Some 0"

lemma authority_bytes_inj:
  assumes "authority_wf a" and "authority_wf b"
  shows "authority_bytes a = authority_bytes b \<longleftrightarrow> a = b"
proof -
  have "authority_bytes a = authority_bytes b \<longleftrightarrow> authority_fields a = authority_fields b"
    using fields_bytes_inj [OF authority_fields_fit authority_fields_fit, of a b]
    by (auto simp: authority_bytes_fields)
  also have "\<dots> \<longleftrightarrow> a = b"
    using assms by (auto simp: authority_fields_def store_le_inj authority_wf_def opt_raw_inj
        intro!: AuthorityContext.equality PublisherIdentity.equality)
  finally show ?thesis .
qed

lemma evidence_bytes_fields:
  "evidence_bytes ev = fields_bytes
     ((1, store_le32 (of_nat (length ev))) # map (\<lambda>e. (ee_field e, store_le64 (ee_value e))) ev)"
proof -
  have "list_all2 appends (add_u32 1 (of_nat (length ev)) # map (\<lambda>e. add_u64 (ee_field e) (ee_value e)) ev)
      ([(1, store_le32 (of_nat (length ev)))] # map (\<lambda>e. [(ee_field e, store_le64 (ee_value e))]) ev)"
    by (simp add: list_all2_map1 list_all2_map2 list_all2_same)
  from encode_seq_fields [OF this] show ?thesis
    by (simp add: evidence_bytes_def concat_map_singleton)
qed

lemma length_evidence_bytes [simp]: "length (evidence_bytes ev) = 10 + 14 * length ev"
proof -
  have "length (fields_bytes (map (\<lambda>e. (ee_field e, store_le64 (ee_value e))) ev)) = 14 * length ev"
    by (induction ev) simp_all
  then show ?thesis by (simp add: evidence_bytes_fields)
qed

lemma evidence_bytes_inj [simp]: "evidence_bytes a = evidence_bytes b \<longleftrightarrow> a = b"
proof
  let ?f = "\<lambda>e. (ee_field e, store_le64 (ee_value e))"
  assume "evidence_bytes a = evidence_bytes b"
  then have "(1 :: u16, store_le32 (of_nat (length a))) # map ?f a
      = (1, store_le32 (of_nat (length b))) # map ?f b"
    by (intro fields_bytes_inj) (auto simp: evidence_bytes_fields payload_fits_def list_all_iff)
  moreover have "inj ?f" by (auto simp: inj_def store_le_inj EvidenceEntry.expand)
  ultimately show "a = b" by (simp add: inj_map_eq_map)
qed simp

end
