(* ===== verification/Bindings.thy ===== *)
theory Bindings
  imports Authority
begin

text \<open>
  The upstream bindings of \<^verbatim>\<open>include/route_provenance/bindings.hpp\<close>: references to authoritative
  objects by exact identity and generation, their validation against the reason code, and their
  canonical encoding.
\<close>

record PathBinding =
  pb_path :: PathId
  pb_generation :: PathAuthorityGeneration
  pb_decision_digest :: Digest

record PlannerBinding =
  pl_request :: u64
  pl_generation :: u64
  pl_candidate_rank :: u32
  pl_plan_digest :: Digest
  pl_selected_path :: PathId

record EcmpBinding =
  eb_group :: u64
  eb_membership :: u64
  eb_assignment :: u64

record WeightedPathBinding =
  wb_set :: u64
  wb_policy :: u64
  wb_assignment :: u64

record AdaptationBinding =
  ab_decision :: u64
  ab_generation :: u64
  ab_policy :: PolicyGeneration
  ab_evidence :: EvidenceGeneration
  ab_decision_digest :: Digest

record ConvergenceBinding =
  cb_plan :: u64
  cb_generation :: ConvergencePlanGeneration
  cb_step :: u64
  cb_completion_evidence :: Digest

record PolicyBinding =
  ob_generation :: PolicyGeneration

record Bindings =
  b_path :: "PathBinding option"
  b_planner :: "PlannerBinding option"
  b_ecmp :: "EcmpBinding option"
  b_weighted :: "WeightedPathBinding option"
  b_adaptation :: "AdaptationBinding option"
  b_convergence :: "ConvergenceBinding option"
  b_policy :: "PolicyBinding option"

definition no_bindings :: Bindings where
  "no_bindings = \<lparr>b_path = None, b_planner = None, b_ecmp = None, b_weighted = None,
     b_adaptation = None, b_convergence = None, b_policy = None\<rparr>"

definition bindings_empty :: "Bindings \<Rightarrow> bool" where
  "bindings_empty b \<longleftrightarrow> b_path b = None \<and> b_planner b = None \<and> b_ecmp b = None \<and> b_weighted b = None
     \<and> b_adaptation b = None \<and> b_convergence b = None \<and> b_policy b = None"

section \<open>Validation\<close>

definition require_generation :: "u64 \<Rightarrow> string \<Rightarrow> Status" where
  "require_generation v name =
     (if v = 0 then st_failure O_InvalidSourceGeneration (name @ '' must be a valid generation'')
      else st_ok)"

text \<open>\<^verbatim>\<open>if (!status.is_ok()) return status;\<close> before the rest of the function.\<close>

definition st_then :: "Status \<Rightarrow> Status \<Rightarrow> Status" where
  "st_then s rest = (if \<not> st_is_ok s then s else rest)"

definition check_path :: "PathBinding \<Rightarrow> Status" where
  "check_path p =
     (if \<not> id_valid (pb_path p) then st_failure O_MalformedRequest ''path binding requires a valid PathId''
      else require_generation (pb_generation p) ''PathAuthorityGeneration'')"

definition check_planner :: "PlannerBinding \<Rightarrow> Status" where
  "check_planner p =
     (if \<not> id_valid (pl_request p) \<or> \<not> id_valid (pl_selected_path p) then
        st_failure O_MalformedRequest ''planner binding requires request and selected PathId''
      else require_generation (pl_generation p) ''PlannerGeneration'')"

definition check_ecmp :: "EcmpBinding \<Rightarrow> Status" where
  "check_ecmp p =
     (if \<not> id_valid (eb_group p) then
        st_failure O_MalformedRequest ''ECMP binding requires a valid EcmpGroupId''
      else st_then (require_generation (eb_membership p) ''MembershipGeneration'')
             (require_generation (eb_assignment p) ''AssignmentGeneration''))"

definition check_weighted :: "WeightedPathBinding \<Rightarrow> Status" where
  "check_weighted p =
     (if \<not> id_valid (wb_set p) then
        st_failure O_MalformedRequest ''weighted binding requires a valid WeightedPathSetId''
      else st_then (require_generation (wb_policy p) ''WeightPolicyGeneration'')
             (require_generation (wb_assignment p) ''AssignmentGeneration''))"

definition check_adaptation :: "AdaptationBinding \<Rightarrow> Status" where
  "check_adaptation p =
     (if \<not> id_valid (ab_decision p) then
        st_failure O_MalformedRequest ''adaptation binding requires a valid AdaptationDecisionId''
      else st_then (require_generation (ab_generation p) ''AdaptationGeneration'')
             (st_then (require_generation (ab_policy p) ''PolicyGeneration'')
               (require_generation (ab_evidence p) ''EvidenceGeneration'')))"

definition check_convergence :: "ConvergenceBinding \<Rightarrow> Status" where
  "check_convergence p =
     (if \<not> id_valid (cb_plan p) then
        st_failure O_MalformedRequest ''convergence binding requires a valid ConvergencePlanId''
      else require_generation (cb_generation p) ''ConvergencePlanGeneration'')"

definition check_policy :: "PolicyBinding \<Rightarrow> Status" where
  "check_policy p = require_generation (ob_generation p) ''PolicyGeneration''"

definition check_opt :: "('a \<Rightarrow> Status) \<Rightarrow> 'a option \<Rightarrow> Status" where
  "check_opt check v = (case v of None \<Rightarrow> st_ok | Some p \<Rightarrow> check p)"

fun check_reason :: "ReasonCode \<Rightarrow> Bindings \<Rightarrow> Status" where
  "check_reason RC_EcmpChange b =
     (if b_ecmp b = None then st_failure O_InvalidDerivation ''ECMP_CHANGE requires an ECMP binding'' else st_ok)"
| "check_reason RC_WeightChange b =
     (if b_weighted b = None then
        st_failure O_InvalidDerivation ''WEIGHT_CHANGE requires a weighted-path binding'' else st_ok)"
| "check_reason RC_AdaptiveChange b =
     (if b_adaptation b = None then
        st_failure O_InvalidDerivation ''ADAPTIVE_CHANGE requires an adaptation binding'' else st_ok)"
| "check_reason RC_PathInvalidation b =
     (if b_path b = None then
        st_failure O_InvalidDerivation ''path reason requires a path binding'' else st_ok)"
| "check_reason RC_PathRevalidated b =
     (if b_path b = None then
        st_failure O_InvalidDerivation ''path reason requires a path binding'' else st_ok)"
| "check_reason RC_ConvergenceComplete b =
     (if b_convergence b = None then
        st_failure O_InvalidDerivation ''convergence reason requires a convergence binding'' else st_ok)"
| "check_reason RC_Rollback b =
     (if b_convergence b = None then
        st_failure O_InvalidDerivation ''convergence reason requires a convergence binding'' else st_ok)"
| "check_reason RC_PolicyChange b =
     (if b_policy b = None then
        st_failure O_InvalidDerivation ''POLICY_CHANGE requires a policy binding'' else st_ok)"
| "check_reason _ b = st_ok"

definition validate_bindings :: "ReasonCode \<Rightarrow> Bindings \<Rightarrow> Status" where
  "validate_bindings reason b =
     st_then (check_opt check_path (b_path b))
    (st_then (check_opt check_planner (b_planner b))
    (st_then (check_opt check_ecmp (b_ecmp b))
    (st_then (check_opt check_weighted (b_weighted b))
    (st_then (check_opt check_adaptation (b_adaptation b))
    (st_then (check_opt check_convergence (b_convergence b))
    (st_then (check_opt check_policy (b_policy b))
      (check_reason reason b)))))))"

section \<open>Encoding\<close>

definition path_bytes :: "PathBinding \<Rightarrow> Encoder" where
  "path_bytes p = encode_seq [add_u64 1 (pb_path p), add_u64 2 (pb_generation p),
     add_digest 3 (pb_decision_digest p)]"

definition planner_bytes :: "PlannerBinding \<Rightarrow> Encoder" where
  "planner_bytes p = encode_seq [add_u64 1 (pl_request p), add_u64 2 (pl_generation p),
     add_u32 3 (pl_candidate_rank p), add_digest 4 (pl_plan_digest p), add_u64 5 (pl_selected_path p)]"

definition ecmp_bytes :: "EcmpBinding \<Rightarrow> Encoder" where
  "ecmp_bytes p = encode_seq [add_u64 1 (eb_group p), add_u64 2 (eb_membership p),
     add_u64 3 (eb_assignment p)]"

definition weighted_bytes :: "WeightedPathBinding \<Rightarrow> Encoder" where
  "weighted_bytes p = encode_seq [add_u64 1 (wb_set p), add_u64 2 (wb_policy p),
     add_u64 3 (wb_assignment p)]"

definition adaptation_bytes :: "AdaptationBinding \<Rightarrow> Encoder" where
  "adaptation_bytes p = encode_seq [add_u64 1 (ab_decision p), add_u64 2 (ab_generation p),
     add_u64 3 (ab_policy p), add_u64 4 (ab_evidence p), add_digest 5 (ab_decision_digest p)]"

definition convergence_bytes :: "ConvergenceBinding \<Rightarrow> Encoder" where
  "convergence_bytes p = encode_seq [add_u64 1 (cb_plan p), add_u64 2 (cb_generation p),
     add_u64 3 (cb_step p), add_digest 4 (cb_completion_evidence p)]"

definition policy_bytes :: "PolicyBinding \<Rightarrow> Encoder" where
  "policy_bytes p = encode_seq [add_u64 1 (ob_generation p)]"

definition nested_opt :: "u16 \<Rightarrow> ('a \<Rightarrow> Encoder) \<Rightarrow> 'a option \<Rightarrow> Encoder \<Rightarrow> Encoder" where
  "nested_opt field enc v = (case v of None \<Rightarrow> (\<lambda>e. e) | Some p \<Rightarrow> add_nested field (enc p))"

definition bindings_bytes :: "Bindings \<Rightarrow> Encoder" where
  "bindings_bytes b = encode_seq
     [nested_opt 1 path_bytes (b_path b), nested_opt 2 planner_bytes (b_planner b),
      nested_opt 3 ecmp_bytes (b_ecmp b), nested_opt 4 weighted_bytes (b_weighted b),
      nested_opt 5 adaptation_bytes (b_adaptation b), nested_opt 6 convergence_bytes (b_convergence b),
      nested_opt 7 policy_bytes (b_policy b)]"

definition encode_bindings :: "Bindings \<Rightarrow> u16 \<Rightarrow> Encoder \<Rightarrow> Encoder" where
  "encode_bindings b field = add_nested field (bindings_bytes b)"

section \<open>What validation accepts\<close>

text \<open>The abstract contract: every binding present names an object and a generation.\<close>

definition opt_all :: "('a \<Rightarrow> bool) \<Rightarrow> 'a option \<Rightarrow> bool" where
  "opt_all P v = (case v of None \<Rightarrow> True | Some x \<Rightarrow> P x)"

definition bindings_wf :: "Bindings \<Rightarrow> bool" where
  "bindings_wf b \<longleftrightarrow>
     opt_all (\<lambda>p. 0 \<notin> {pb_path p, pb_generation p}) (b_path b)
   \<and> opt_all (\<lambda>p. 0 \<notin> {pl_request p, pl_selected_path p, pl_generation p}) (b_planner b)
   \<and> opt_all (\<lambda>p. 0 \<notin> {eb_group p, eb_membership p, eb_assignment p}) (b_ecmp b)
   \<and> opt_all (\<lambda>p. 0 \<notin> {wb_set p, wb_policy p, wb_assignment p}) (b_weighted b)
   \<and> opt_all (\<lambda>p. 0 \<notin> {ab_decision p, ab_generation p, ab_policy p, ab_evidence p}) (b_adaptation b)
   \<and> opt_all (\<lambda>p. 0 \<notin> {cb_plan p, cb_generation p}) (b_convergence b)
   \<and> opt_all (\<lambda>p. ob_generation p \<noteq> 0) (b_policy b)"

definition reason_supported :: "ReasonCode \<Rightarrow> Bindings \<Rightarrow> bool" where
  "reason_supported reason b \<longleftrightarrow>
     (reason = RC_EcmpChange \<longrightarrow> b_ecmp b \<noteq> None)
   \<and> (reason = RC_WeightChange \<longrightarrow> b_weighted b \<noteq> None)
   \<and> (reason = RC_AdaptiveChange \<longrightarrow> b_adaptation b \<noteq> None)
   \<and> (reason \<in> {RC_PathInvalidation, RC_PathRevalidated} \<longrightarrow> b_path b \<noteq> None)
   \<and> (reason \<in> {RC_ConvergenceComplete, RC_Rollback} \<longrightarrow> b_convergence b \<noteq> None)
   \<and> (reason = RC_PolicyChange \<longrightarrow> b_policy b \<noteq> None)"

lemma st_then_ok [simp]: "st_is_ok (st_then s r) \<longleftrightarrow> st_is_ok s \<and> st_is_ok r"
  by (simp add: st_then_def)

lemma st_then_outcome: "st_outcome (st_then s r) = (if st_is_ok s then st_outcome r else st_outcome s)"
  by (simp add: st_then_def)

lemma check_opt_ok [simp]: "st_is_ok (check_opt check v) \<longleftrightarrow> opt_all (\<lambda>p. st_is_ok (check p)) v"
  by (simp add: check_opt_def opt_all_def split: option.split)

lemma require_generation_ok [simp]: "st_is_ok (require_generation v name) \<longleftrightarrow> v \<noteq> 0"
  by (simp add: require_generation_def)

lemmas binding_checks = check_path_def check_planner_def check_ecmp_def check_weighted_def
  check_adaptation_def check_convergence_def check_policy_def

lemma check_reason_ok [simp]: "st_is_ok (check_reason reason b) \<longleftrightarrow> reason_supported reason b"
  by (cases reason) (simp_all add: reason_supported_def)

lemma checks_ok:
  "st_is_ok (check_path p1) \<longleftrightarrow> 0 \<notin> {pb_path p1, pb_generation p1}"
  "st_is_ok (check_planner p2) \<longleftrightarrow> 0 \<notin> {pl_request p2, pl_selected_path p2, pl_generation p2}"
  "st_is_ok (check_ecmp p3) \<longleftrightarrow> 0 \<notin> {eb_group p3, eb_membership p3, eb_assignment p3}"
  "st_is_ok (check_weighted p4) \<longleftrightarrow> 0 \<notin> {wb_set p4, wb_policy p4, wb_assignment p4}"
  "st_is_ok (check_adaptation p5) \<longleftrightarrow>
     0 \<notin> {ab_decision p5, ab_generation p5, ab_policy p5, ab_evidence p5}"
  "st_is_ok (check_convergence p6) \<longleftrightarrow> 0 \<notin> {cb_plan p6, cb_generation p6}"
  "st_is_ok (check_policy p7) \<longleftrightarrow> ob_generation p7 \<noteq> 0"
  by (auto simp: binding_checks id_valid_def)

lemma check_outcomes:
  "st_outcome (check_opt check v) \<in> {O_Ok, O_MalformedRequest, O_InvalidSourceGeneration}"
  if "\<And>p. st_outcome (check p) \<in> {O_Ok, O_MalformedRequest, O_InvalidSourceGeneration}"
  using that by (simp add: check_opt_def split: option.split)

lemma binding_check_outcomes:
  "st_outcome (check_path p1) \<in> {O_Ok, O_MalformedRequest, O_InvalidSourceGeneration}"
  "st_outcome (check_planner p2) \<in> {O_Ok, O_MalformedRequest, O_InvalidSourceGeneration}"
  "st_outcome (check_ecmp p3) \<in> {O_Ok, O_MalformedRequest, O_InvalidSourceGeneration}"
  "st_outcome (check_weighted p4) \<in> {O_Ok, O_MalformedRequest, O_InvalidSourceGeneration}"
  "st_outcome (check_adaptation p5) \<in> {O_Ok, O_MalformedRequest, O_InvalidSourceGeneration}"
  "st_outcome (check_convergence p6) \<in> {O_Ok, O_MalformedRequest, O_InvalidSourceGeneration}"
  "st_outcome (check_policy p7) \<in> {O_Ok, O_MalformedRequest, O_InvalidSourceGeneration}"
  by (simp_all add: binding_checks require_generation_def st_then_def)

lemma check_reason_outcome: "st_outcome (check_reason reason b) \<in> {O_Ok, O_InvalidDerivation}"
  by (cases reason) simp_all

lemma validate_bindings_ok:
  "st_is_ok (validate_bindings reason b) \<longleftrightarrow> bindings_wf b \<and> reason_supported reason b"
  by (simp add: validate_bindings_def bindings_wf_def checks_ok)

text \<open>
  \<^verbatim>\<open>validate_bindings\<close> accepts a request exactly when every binding it carries names a valid
  object at a valid generation and the binding its reason code calls for is present. A refusal is
  classified: \<^verbatim>\<open>InvalidDerivation\<close> is returned exactly when all bindings are well formed but the one
  the reason needs is missing; otherwise the refusal is \<^verbatim>\<open>MalformedRequest\<close> or
  \<^verbatim>\<open>InvalidSourceGeneration\<close>.
\<close>

theorem validate_bindings_spec:
  "(st_outcome (validate_bindings reason b) = O_Ok \<longleftrightarrow> bindings_wf b \<and> reason_supported reason b)
   \<and> (st_outcome (validate_bindings reason b) = O_InvalidDerivation \<longleftrightarrow>
        bindings_wf b \<and> \<not> reason_supported reason b)
   \<and> st_outcome (validate_bindings reason b) \<in>
        {O_Ok, O_InvalidDerivation, O_MalformedRequest, O_InvalidSourceGeneration}"
proof -
  let ?bad = "{O_Ok, O_MalformedRequest, O_InvalidSourceGeneration}"
  let ?pre = "st_then (check_opt check_path (b_path b))
    (st_then (check_opt check_planner (b_planner b)) (st_then (check_opt check_ecmp (b_ecmp b))
    (st_then (check_opt check_weighted (b_weighted b)) (st_then (check_opt check_adaptation (b_adaptation b))
    (st_then (check_opt check_convergence (b_convergence b)) (check_opt check_policy (b_policy b)))))))"
  have then_bad: "st_outcome (st_then s r) \<in> ?bad" if "st_outcome s \<in> ?bad" "st_outcome r \<in> ?bad" for s r
    using that by (simp add: st_then_outcome)
  have pre: "st_outcome ?pre \<in> ?bad"
    by (intro then_bad check_outcomes binding_check_outcomes)
  have wf: "st_is_ok ?pre \<longleftrightarrow> bindings_wf b"
    by (simp add: bindings_wf_def checks_ok)
  have split: "validate_bindings reason b = st_then ?pre (check_reason reason b)"
    by (simp add: validate_bindings_def st_then_def)
  have r: "st_outcome (check_reason reason b) = (if reason_supported reason b then O_Ok else O_InvalidDerivation)"
    using check_reason_ok [of reason b] check_reason_outcome [of reason b] by (auto simp: st_is_ok_def)
  define s where "s = ?pre"
  have "st_outcome s \<in> ?bad" and "st_is_ok s \<longleftrightarrow> bindings_wf b"
    and "validate_bindings reason b = st_then s (check_reason reason b)"
    using pre wf split by (simp_all only: s_def)
  then show ?thesis
    by (auto simp: st_then_outcome r st_is_ok_def)
qed

section \<open>The encoding is injective\<close>

lemma binding_lengths [simp]:
  "length (path_bytes p1) = 66" "length (planner_bytes p2) = 90" "length (ecmp_bytes p3) = 42"
  "length (weighted_bytes p4) = 42" "length (adaptation_bytes p5) = 94"
  "length (convergence_bytes p6) = 80" "length (policy_bytes p7) = 14"
  by (simp_all add: path_bytes_def planner_bytes_def ecmp_bytes_def weighted_bytes_def
      adaptation_bytes_def convergence_bytes_def policy_bytes_def encode_seq_def add_defs)

lemma binding_bytes_inj [simp]:
  "path_bytes p1 = path_bytes q1 \<longleftrightarrow> p1 = q1" "planner_bytes p2 = planner_bytes q2 \<longleftrightarrow> p2 = q2"
  "ecmp_bytes p3 = ecmp_bytes q3 \<longleftrightarrow> p3 = q3" "weighted_bytes p4 = weighted_bytes q4 \<longleftrightarrow> p4 = q4"
  "adaptation_bytes p5 = adaptation_bytes q5 \<longleftrightarrow> p5 = q5"
  "convergence_bytes p6 = convergence_bytes q6 \<longleftrightarrow> p6 = q6" "policy_bytes p7 = policy_bytes q7 \<longleftrightarrow> p7 = q7"
  by (auto simp: path_bytes_def planner_bytes_def ecmp_bytes_def weighted_bytes_def
      adaptation_bytes_def convergence_bytes_def policy_bytes_def encode_seq_def add_defs
      field_bytes_def store_le_inj digest_bytes_inject)

definition opt_field :: "u16 \<Rightarrow> ('a \<Rightarrow> Encoder) \<Rightarrow> 'a option \<Rightarrow> (u16 \<times> byte list) list" where
  "opt_field field enc v = (case v of None \<Rightarrow> [] | Some p \<Rightarrow> [(field, enc p)])"

definition bindings_fields :: "Bindings \<Rightarrow> (u16 \<times> byte list) list" where
  "bindings_fields b =
     opt_field 1 path_bytes (b_path b) @ opt_field 2 planner_bytes (b_planner b) @
     opt_field 3 ecmp_bytes (b_ecmp b) @ opt_field 4 weighted_bytes (b_weighted b) @
     opt_field 5 adaptation_bytes (b_adaptation b) @ opt_field 6 convergence_bytes (b_convergence b) @
     opt_field 7 policy_bytes (b_policy b)"

lemma appends_opt [simp]: "appends (nested_opt field enc v) (opt_field field enc v)"
  by (simp add: nested_opt_def opt_field_def appends_def add_defs split: option.split)

lemma bindings_bytes_fields: "bindings_bytes b = fields_bytes (bindings_fields b)"
  unfolding bindings_bytes_def
  by (subst encode_seq_fields [where fss = "[opt_field 1 path_bytes (b_path b),
       opt_field 2 planner_bytes (b_planner b), opt_field 3 ecmp_bytes (b_ecmp b),
       opt_field 4 weighted_bytes (b_weighted b), opt_field 5 adaptation_bytes (b_adaptation b),
       opt_field 6 convergence_bytes (b_convergence b), opt_field 7 policy_bytes (b_policy b)]"])
     (simp_all add: bindings_fields_def)

lemma opt_field_fit: "(\<And>p. length (enc p) < 2 ^ 32) \<Longrightarrow> list_all payload_fits (opt_field field enc v)"
  by (simp add: opt_field_def payload_fits_def split: option.split)

lemma bindings_fields_fit [simp]: "list_all payload_fits (bindings_fields b)"
  by (simp add: bindings_fields_def opt_field_fit)

text \<open>The field number of an optional entry tells where it came from.\<close>

lemma opt_field_map_of: "map_of (opt_field field enc v) field' = (if field' = field then map_option enc v else None)"
  by (simp add: opt_field_def split: option.split)

lemma bindings_fields_map_of:
  "map_of (bindings_fields b) 1 = map_option path_bytes (b_path b)"
  "map_of (bindings_fields b) 2 = map_option planner_bytes (b_planner b)"
  "map_of (bindings_fields b) 3 = map_option ecmp_bytes (b_ecmp b)"
  "map_of (bindings_fields b) 4 = map_option weighted_bytes (b_weighted b)"
  "map_of (bindings_fields b) 5 = map_option adaptation_bytes (b_adaptation b)"
  "map_of (bindings_fields b) 6 = map_option convergence_bytes (b_convergence b)"
  "map_of (bindings_fields b) 7 = map_option policy_bytes (b_policy b)"
  by (simp_all add: bindings_fields_def map_add_def opt_field_map_of split: option.splits)

lemma map_option_inj: "(\<And>p q. f p = f q \<Longrightarrow> p = q) \<Longrightarrow> map_option f a = map_option f b \<longleftrightarrow> a = b"
  by (cases a; cases b) auto

lemma binding_opt_inj:
  "map_option path_bytes p1 = map_option path_bytes q1 \<longleftrightarrow> p1 = q1"
  "map_option planner_bytes p2 = map_option planner_bytes q2 \<longleftrightarrow> p2 = q2"
  "map_option ecmp_bytes p3 = map_option ecmp_bytes q3 \<longleftrightarrow> p3 = q3"
  "map_option weighted_bytes p4 = map_option weighted_bytes q4 \<longleftrightarrow> p4 = q4"
  "map_option adaptation_bytes p5 = map_option adaptation_bytes q5 \<longleftrightarrow> p5 = q5"
  "map_option convergence_bytes p6 = map_option convergence_bytes q6 \<longleftrightarrow> p6 = q6"
  "map_option policy_bytes p7 = map_option policy_bytes q7 \<longleftrightarrow> p7 = q7"
  by (rule map_option_inj, simp)+

lemma bindings_bytes_inj [simp]: "bindings_bytes a = bindings_bytes b \<longleftrightarrow> a = b"
proof
  assume "bindings_bytes a = bindings_bytes b"
  then have "bindings_fields a = bindings_fields b"
    by (intro fields_bytes_inj) (simp_all add: bindings_bytes_fields)
  then have "map_of (bindings_fields a) k = map_of (bindings_fields b) k" for k by simp
  from this [of 1] this [of 2] this [of 3] this [of 4] this [of 5] this [of 6] this [of 7]
  show "a = b"
    by (intro Bindings.equality) (auto simp: bindings_fields_map_of binding_opt_inj)
qed simp

lemma length_fields_append: "length (fields_bytes (fs @ gs)) = length (fields_bytes fs) + length (fields_bytes gs)"
  by simp

lemma length_bindings_bytes: "length (bindings_bytes b) \<le> 600"
proof -
  have opt: "length (fields_bytes (opt_field field enc v)) \<le> 6 + n"
    if "\<And>p. length (enc p) = n" for field and enc :: "'a \<Rightarrow> Encoder" and v n
    using that by (simp add: opt_field_def split: option.split)
  show ?thesis
    unfolding bindings_bytes_fields bindings_fields_def
    using opt [of path_bytes 66 1 "b_path b"] opt [of planner_bytes 90 2 "b_planner b"]
      opt [of ecmp_bytes 42 3 "b_ecmp b"] opt [of weighted_bytes 42 4 "b_weighted b"]
      opt [of adaptation_bytes 94 5 "b_adaptation b"] opt [of convergence_bytes 80 6 "b_convergence b"]
      opt [of policy_bytes 14 7 "b_policy b"]
    by simp
qed

end
