(* ===== verification/Node.thy ===== *)
theory Node
  imports Bindings
begin

text \<open>
  Provenance nodes and edges, \<^verbatim>\<open>include/route_provenance/node.hpp\<close> and \<^verbatim>\<open>src/core.cpp\<close>: the records,
  their content-addressed identities, the lifecycle transition relation and the structural
  consistency checks of single records. Identities are derived with the hash \<open>H\<close>, a parameter.
\<close>

definition kGraphEncodingVersion :: u32 where
  "kGraphEncodingVersion = 1"

record LineageKey =
  lk_route :: RouteId
  lk_semantic_key :: string

definition derive_lineage_id :: "hash_fun \<Rightarrow> LineageKey \<Rightarrow> RouteLineageId" where
  "derive_lineage_id H key = derive_id (enc_digest H ''rp.lineage.v1'' (encode_seq
     [add_u32 1 kGraphEncodingVersion, add_u64 2 (lk_route key), add_string 3 (lk_semantic_key key)]))"

record ProvenanceNode =
  n_id :: ProvenanceNodeId
  n_lineage :: RouteLineageId
  n_kind :: NodeKind
  n_route :: RouteId
  n_route_generation :: RouteGeneration
  n_route_state_digest :: Digest
  n_reason :: ReasonCode
  n_source :: SourceClass
  n_root_reason :: "RootReason option"
  n_evidence :: EvidenceVector
  n_authority :: AuthorityContext
  n_bindings :: Bindings
  n_lifecycle :: NodeLifecycle
  n_currentness :: Currentness
  n_revalidation_required :: bool
  n_revalidated :: bool
  n_corrected_by :: "ProvenanceNodeId option"
  n_corrects :: "ProvenanceNodeId option"
  n_compacted_digest :: "Digest option"

definition node_is_root :: "ProvenanceNode \<Rightarrow> bool" where
  "node_is_root n \<longleftrightarrow> n_root_reason n \<noteq> None"

definition node_is_route_state :: "ProvenanceNode \<Rightarrow> bool" where
  "node_is_route_state n \<longleftrightarrow> n_kind n = NK_RouteGeneration"

definition node_core_bytes :: "ProvenanceNode \<Rightarrow> Encoder" where
  "node_core_bytes n = encode_seq
     [add_u32 1 kGraphEncodingVersion,
      add_u64 2 (n_lineage n),
      add_u16 3 (node_kind_code (n_kind n)),
      add_u64 4 (n_route n),
      add_u64 5 (n_route_generation n),
      add_digest 6 (n_route_state_digest n),
      add_u16 7 (reason_code_code (n_reason n)),
      add_u16 8 (source_class_code (n_source n)),
      add_u16 9 (case n_root_reason n of Some r \<Rightarrow> root_reason_code r | None \<Rightarrow> 0),
      evidence_encode (n_evidence n) 10,
      authority_encode (n_authority n) 11,
      encode_bindings (n_bindings n) 12,
      add_u64 13 (opt_raw (n_corrects n)),
      add_digest 14 (case n_compacted_digest n of Some d \<Rightarrow> d | None \<Rightarrow> zero_digest)]"

definition node_core_digest :: "hash_fun \<Rightarrow> ProvenanceNode \<Rightarrow> Digest" where
  "node_core_digest H n = enc_digest H ''rp.node.core.v1'' (node_core_bytes n)"

definition node_digest :: "hash_fun \<Rightarrow> ProvenanceNode \<Rightarrow> Digest" where
  "node_digest H n = enc_digest H ''rp.node.v1'' (encode_seq
     [add_digest 1 (node_core_digest H n),
      add_u64 2 (n_id n),
      add_u16 3 (node_lifecycle_code (n_lifecycle n)),
      add_u16 4 (currentness_code (n_currentness n)),
      add_bool 5 (n_revalidation_required n),
      add_u64 6 (opt_raw (n_corrected_by n)),
      add_bool 7 (n_revalidated n)])"

definition derive_node_id :: "hash_fun \<Rightarrow> ProvenanceNode \<Rightarrow> ProvenanceNodeId" where
  "derive_node_id H n = derive_id (node_core_digest H n)"

definition finalize_node :: "hash_fun \<Rightarrow> ProvenanceNode \<Rightarrow> ProvenanceNode" where
  "finalize_node H n = n\<lparr>n_id := derive_node_id H n\<rparr>"

section \<open>Edges\<close>

record ProvenanceEdge =
  e_id :: ProvenanceEdgeId
  e_derivation :: DerivationId
  e_lineage :: RouteLineageId
  e_type :: EdgeType
  e_from :: ProvenanceNodeId
  e_to :: ProvenanceNodeId
  e_predecessor_route_generation :: RouteGeneration
  e_successor_route_generation :: RouteGeneration
  e_reason :: ReasonCode
  e_source :: SourceClass
  e_evidence :: EvidenceVector
  e_authority :: AuthorityContext

definition derivation_bytes :: "ProvenanceEdge \<Rightarrow> Encoder" where
  "derivation_bytes e = encode_seq
     [add_u32 1 kGraphEncodingVersion,
      add_u64 2 (e_lineage e),
      add_u16 3 (edge_type_code (e_type e)),
      add_u64 4 (e_from e),
      add_u64 5 (e_to e),
      add_u64 6 (e_predecessor_route_generation e),
      add_u64 7 (e_successor_route_generation e),
      add_u16 8 (reason_code_code (e_reason e)),
      add_u16 9 (source_class_code (e_source e)),
      evidence_encode (e_evidence e) 10,
      authority_encode (e_authority e) 11]"

definition compute_derivation_id :: "hash_fun \<Rightarrow> ProvenanceEdge \<Rightarrow> DerivationId" where
  "compute_derivation_id H e = derive_id (enc_digest H ''rp.derivation.v1'' (derivation_bytes e))"

definition edge_core_bytes :: "ProvenanceEdge \<Rightarrow> Encoder" where
  "edge_core_bytes e = encode_seq
     [add_u32 1 kGraphEncodingVersion,
      add_u64 2 (e_lineage e),
      add_u64 3 (e_derivation e),
      add_u16 4 (edge_type_code (e_type e)),
      add_u64 5 (e_from e),
      add_u64 6 (e_to e)]"

definition compute_edge_id :: "hash_fun \<Rightarrow> ProvenanceEdge \<Rightarrow> ProvenanceEdgeId" where
  "compute_edge_id H e = derive_id (enc_digest H ''rp.edge.v1'' (edge_core_bytes e))"

definition edge_core_digest :: "hash_fun \<Rightarrow> ProvenanceEdge \<Rightarrow> Digest" where
  "edge_core_digest H e = enc_digest H ''rp.edge.v1'' (edge_core_bytes e)"

definition finalize_edge :: "hash_fun \<Rightarrow> ProvenanceEdge \<Rightarrow> ProvenanceEdge" where
  "finalize_edge H e =
     (let e' = e\<lparr>e_derivation := compute_derivation_id H e\<rparr>
      in e'\<lparr>e_id := compute_edge_id H e'\<rparr>)"

definition edge_type_is_successor_relation :: "EdgeType \<Rightarrow> bool" where
  "edge_type_is_successor_relation t =
     (case t of ET_Supersedes \<Rightarrow> True | ET_Replaces \<Rightarrow> True | ET_DerivedFrom \<Rightarrow> True
      | ET_RolledBackFrom \<Rightarrow> True | _ \<Rightarrow> False)"

definition edge_type_is_evidence_relation :: "EdgeType \<Rightarrow> bool" where
  "edge_type_is_evidence_relation t =
     (case t of ET_AuthorizedBy \<Rightarrow> True | ET_ComputedFrom \<Rightarrow> True | ET_SelectedFrom \<Rightarrow> True
      | ET_AdaptedFrom \<Rightarrow> True | ET_TransitionedBy \<Rightarrow> True | _ \<Rightarrow> False)"

definition edge_type_is_action_relation :: "EdgeType \<Rightarrow> bool" where
  "edge_type_is_action_relation t =
     (case t of ET_Withdraws \<Rightarrow> True | ET_RevokedBy \<Rightarrow> True | ET_RetiredBy \<Rightarrow> True
      | ET_Revalidates \<Rightarrow> True | ET_Corrects \<Rightarrow> True | ET_Invalidates \<Rightarrow> True | _ \<Rightarrow> False)"

section \<open>Lifecycle\<close>

definition is_valid_lifecycle_transition :: "NodeLifecycle \<Rightarrow> NodeLifecycle \<Rightarrow> bool" where
  "is_valid_lifecycle_transition from_l to_l =
     (if from_l = to_l then True
      else case from_l of
        NL_Declared \<Rightarrow> to_l = NL_Current \<or> to_l = NL_Historical \<or> to_l = NL_Invalid \<or> to_l = NL_Superseded
      | NL_Current \<Rightarrow> to_l = NL_Historical \<or> to_l = NL_Superseded \<or> to_l = NL_Revoked
          \<or> to_l = NL_Retired \<or> to_l = NL_Invalid \<or> to_l = NL_RevalidationRequired
      | NL_RevalidationRequired \<Rightarrow> to_l = NL_Current \<or> to_l = NL_Historical \<or> to_l = NL_Superseded
          \<or> to_l = NL_Revoked \<or> to_l = NL_Retired \<or> to_l = NL_Invalid
      | NL_Historical \<Rightarrow> to_l = NL_Invalid \<or> to_l = NL_Revoked \<or> to_l = NL_Retired \<or> to_l = NL_Superseded
      | NL_Superseded \<Rightarrow> to_l = NL_Invalid \<or> to_l = NL_Revoked \<or> to_l = NL_Retired
      | NL_Revoked \<Rightarrow> to_l = NL_Retired \<or> to_l = NL_Invalid
      | NL_Retired \<Rightarrow> to_l = NL_Invalid
      | NL_Invalid \<Rightarrow> False)"

definition node_is_history_record :: "ProvenanceNode \<Rightarrow> bool" where
  "node_is_history_record n =
     (if n_kind n = NK_CompactedSummary then False
      else case n_lifecycle n of
        NL_Historical \<Rightarrow> True | NL_Superseded \<Rightarrow> True | NL_Invalid \<Rightarrow> True | _ \<Rightarrow> False)"

section \<open>Consistency of single records\<close>

definition validate_node_consistency :: "ProvenanceNode \<Rightarrow> Status" where
  "validate_node_consistency n =
     (if \<not> id_valid (n_lineage n) then
        st_failure O_MalformedRequest ''node requires a valid RouteLineageId''
      else if \<not> has_identity (n_authority n) then
        st_failure O_Unauthorized ''node requires a full publisher/boot/epoch/attempt identity''
      else if n_kind n = NK_RouteGeneration
              \<and> (\<not> id_valid (n_route n) \<or> \<not> id_valid (n_route_generation n)) then
        st_failure O_InvalidDerivation ''route-state node requires a valid RouteId and RouteGeneration''
      else if n_kind n = NK_RouteGeneration \<and> digest_is_zero (n_route_state_digest n) then
        st_failure O_InvalidDerivation ''route-state node requires a route-state digest''
      else if n_kind n = NK_RouteGeneration \<and> n_lifecycle n = NL_Declared then
        st_failure O_InvalidDerivation ''route-state node cannot be DECLARED''
      else if n_kind n = NK_CompactedSummary
              \<and> (\<not> id_valid (n_route_generation n) \<or> n_compacted_digest n = None) then
        st_failure O_InvalidDerivation ''compaction summary requires generation and digest''
      else if n_kind n = NK_CompactedSummary
              \<and> (n_lifecycle n = NL_Current \<or> n_lifecycle n = NL_Declared) then
        st_failure O_InvalidDerivation ''compaction summary cannot be current''
      else if n_root_reason n \<noteq> None \<and> n_kind n \<noteq> NK_RouteGeneration then
        st_failure O_InvalidDerivation ''only route-state roots carry a root reason''
      else if n_corrects n \<noteq> None \<and> n_reason n \<noteq> RC_Correction then
        st_failure O_InvalidDerivation ''only correction records carry a correction target''
      else st_ok)"

definition validate_edge_consistency :: "ProvenanceEdge \<Rightarrow> Status" where
  "validate_edge_consistency e =
     (if \<not> id_valid (e_lineage e) then
        st_failure O_MalformedRequest ''edge requires a valid RouteLineageId''
      else if \<not> id_valid (e_from e) \<or> \<not> id_valid (e_to e) then
        st_failure O_MalformedRequest ''edge requires valid endpoints''
      else if e_from e = e_to e then st_failure O_CycleDetected ''self edge rejected''
      else if edge_type_is_successor_relation (e_type e)
              \<and> (\<not> id_valid (e_predecessor_route_generation e)
                 \<or> \<not> id_valid (e_successor_route_generation e)) then
        st_failure O_InvalidDerivation
          ''successor relation requires predecessor and successor route generations''
      else if edge_type_is_successor_relation (e_type e)
              \<and> e_predecessor_route_generation e \<ge> e_successor_route_generation e then
        st_failure O_InvalidDerivation
          ''successor relation requires strictly increasing route generations''
      else st_ok)"

section \<open>Lineage state\<close>

text \<open>
  \<^verbatim>\<open>include/route_provenance/lineage.hpp\<close>. The counters are sizes of containers and increments of
  one per retained record; they are natural numbers here.
\<close>

record LineageState =
  ls_id :: RouteLineageId
  ls_key :: LineageKey
  ls_lifecycle :: LineageLifecycle
  ls_current_route_generation :: RouteGeneration
  ls_current_node :: ProvenanceNodeId
  ls_lineage_generation :: LineageGeneration
  ls_authority_generation :: AuthorityGeneration
  ls_node_count :: nat
  ls_edge_count :: nat
  ls_compacted_node_count :: nat
  ls_history_node_count :: nat
  ls_last_publisher_boot :: WorkerBootId
  ls_last_mutation_digest :: Digest

section \<open>What an identity covers\<close>

text \<open>The record with its mutable state and its identity blanked.\<close>

definition core_of :: "ProvenanceNode \<Rightarrow> ProvenanceNode" where
  "core_of n = n\<lparr>n_id := 0, n_lifecycle := NL_Declared, n_currentness := CU_HistoricalOnly,
     n_revalidation_required := False, n_revalidated := False, n_corrected_by := None\<rparr>"

text \<open>
  Records the encoder distinguishes: an absent optional is written as zero, so a present zero would
  collide with it; and the evidence must fit a 32-bit length.
\<close>

definition node_encodable :: "ProvenanceNode \<Rightarrow> bool" where
  "node_encodable n \<longleftrightarrow> authority_wf (n_authority n) \<and> n_corrects n \<noteq> Some 0
     \<and> n_compacted_digest n \<noteq> Some zero_digest \<and> length (n_evidence n) \<le> 1000000"

definition node_core_fields :: "ProvenanceNode \<Rightarrow> (u16 \<times> byte list) list" where
  "node_core_fields n =
     [(1, store_le32 kGraphEncodingVersion), (2, store_le64 (n_lineage n)),
      (3, store_le16 (node_kind_code (n_kind n))), (4, store_le64 (n_route n)),
      (5, store_le64 (n_route_generation n)), (6, digest_bytes (n_route_state_digest n)),
      (7, store_le16 (reason_code_code (n_reason n))),
      (8, store_le16 (source_class_code (n_source n))),
      (9, store_le16 (case n_root_reason n of Some r \<Rightarrow> root_reason_code r | None \<Rightarrow> 0)),
      (10, evidence_bytes (n_evidence n)), (11, authority_bytes (n_authority n)),
      (12, bindings_bytes (n_bindings n)), (13, store_le64 (opt_raw (n_corrects n))),
      (14, digest_bytes (case n_compacted_digest n of Some d \<Rightarrow> d | None \<Rightarrow> zero_digest))]"

lemma node_core_bytes_fields: "node_core_bytes n = fields_bytes (node_core_fields n)"
  by (simp add: node_core_bytes_def node_core_fields_def encode_seq_def evidence_encode_def
      authority_encode_def encode_bindings_def add_defs)

lemma node_core_fields_fit: "node_encodable n \<Longrightarrow> list_all payload_fits (node_core_fields n)"
  using length_bindings_bytes [of "n_bindings n"]
  by (simp add: node_core_fields_def payload_fits_def node_encodable_def)

lemma root_reason_raw_inj:
  "(case a of Some r \<Rightarrow> root_reason_code r | None \<Rightarrow> 0) =
   (case b of Some r \<Rightarrow> root_reason_code r | None \<Rightarrow> 0) \<longleftrightarrow> a = b"
proof -
  have "root_reason_code r \<noteq> 0" for r by (cases r) simp_all
  then show ?thesis
    by (auto simp: root_reason_tab.code_inj split: option.splits)
qed

lemma compacted_raw_inj:
  "a \<noteq> Some zero_digest \<Longrightarrow> b \<noteq> Some zero_digest \<Longrightarrow>
   (case a of Some d \<Rightarrow> d | None \<Rightarrow> zero_digest) = (case b of Some d \<Rightarrow> d | None \<Rightarrow> zero_digest)
   \<longleftrightarrow> a = b"
  by (auto split: option.splits)

lemma node_core_fields_inj:
  assumes "node_encodable n" and "node_encodable m"
  shows "node_core_fields n = node_core_fields m \<longleftrightarrow> core_of n = core_of m"
proof
  assume "node_core_fields n = node_core_fields m"
  then have eqs: "n_lineage n = n_lineage m" "n_kind n = n_kind m" "n_route n = n_route m"
    "n_route_generation n = n_route_generation m" "n_route_state_digest n = n_route_state_digest m"
    "n_reason n = n_reason m" "n_source n = n_source m" "n_root_reason n = n_root_reason m"
    "n_evidence n = n_evidence m" "n_authority n = n_authority m" "n_bindings n = n_bindings m"
    "n_corrects n = n_corrects m" "n_compacted_digest n = n_compacted_digest m"
    using assms
    by (simp_all add: node_core_fields_def store_le_inj node_kind_tab.code_inj reason_code_tab.code_inj
        source_class_tab.code_inj root_reason_raw_inj digest_bytes_inject node_encodable_def
        authority_bytes_inj opt_raw_inj compacted_raw_inj)
  then show "core_of n = core_of m"
    by (intro ProvenanceNode.equality) (simp_all add: core_of_def)
next
  assume "core_of n = core_of m"
  then have "node_core_fields (core_of n) = node_core_fields (core_of m)" by simp
  then show "node_core_fields n = node_core_fields m"
    by (simp add: node_core_fields_def core_of_def)
qed

lemma node_core_digest_core: "core_of n = core_of m \<Longrightarrow> node_core_digest H n = node_core_digest H m"
proof -
  assume "core_of n = core_of m"
  then have "node_core_bytes (core_of n) = node_core_bytes (core_of m)" by simp
  then show ?thesis by (simp add: node_core_digest_def node_core_bytes_fields node_core_fields_def core_of_def)
qed

text \<open>
  The identity encoding of a node covers exactly its immutable core: two records have the same
  canonical core bytes precisely when they agree on everything but the identity and the mutable
  record state (lifecycle, currentness, revalidation flags, correction mark). So a change of record
  state never changes a derived identity, and any two records that differ in content are told
  apart before hashing.
\<close>

theorem node_core_bytes_identity:
  assumes "node_encodable n" and "node_encodable m"
  shows "node_core_bytes n = node_core_bytes m \<longleftrightarrow> core_of n = core_of m"
  using fields_bytes_inj [OF node_core_fields_fit [OF assms(1)] node_core_fields_fit [OF assms(2)]]
    node_core_fields_inj [OF assms]
  by (auto simp: node_core_bytes_fields)

definition sample_authority :: AuthorityContext where
  "sample_authority = \<lparr>ac_publisher = \<lparr>pi_publisher = 1, pi_boot = 2, pi_epoch = 1\<rparr>,
     ac_scope = scope_fabric, ac_attempt = 5,
     ac_expected_lineage_generation = None, ac_expected_provenance_generation = None\<rparr>"

definition sample_node :: "RouteGeneration \<Rightarrow> ProvenanceNode" where
  "sample_node g = \<lparr>n_id = g, n_lineage = 7, n_kind = NK_RouteGeneration, n_route = 3,
     n_route_generation = g, n_route_state_digest = digest_from_bytes [1],
     n_reason = RC_InitialRoute, n_source = SC_RouteFabric, n_root_reason = Some RR_InitialPublication,
     n_evidence = [], n_authority = sample_authority, n_bindings = no_bindings,
     n_lifecycle = NL_Current, n_currentness = CU_Current, n_revalidation_required = False,
     n_revalidated = False, n_corrected_by = None, n_corrects = None, n_compacted_digest = None\<rparr>"

text \<open>A concrete hash for examples: the length of its argument.\<close>

definition sample_hash :: hash_fun where
  "sample_hash bs = digest_from_bytes [of_nat (length bs)]"

theorem node_core_bytes_identity_witness:
  "node_core_bytes (sample_node 1) \<noteq> node_core_bytes (sample_node 2)
   \<and> node_core_bytes (sample_node 1)
       = node_core_bytes ((sample_node 1)\<lparr>n_lifecycle := NL_Superseded, n_id := 9\<rparr>)"
proof -
  have e: "node_encodable (sample_node 1)" "node_encodable (sample_node 2)"
    "node_encodable ((sample_node 1)\<lparr>n_lifecycle := NL_Superseded, n_id := 9\<rparr>)"
    by (simp_all add: node_encodable_def sample_node_def sample_authority_def authority_wf_def)
  show ?thesis
    unfolding node_core_bytes_identity [OF e(1,2)] node_core_bytes_identity [OF e(1,3)]
    by (simp add: core_of_def sample_node_def)
qed

lemma derive_node_id_core: "core_of n = core_of m \<Longrightarrow> derive_node_id H n = derive_node_id H m"
  using node_core_digest_core [of n m H] by (simp add: derive_node_id_def)

lemma finalize_node_id: "n_id (finalize_node H n) = derive_node_id H (finalize_node H n)"
  by (simp add: finalize_node_def) (rule derive_node_id_core, simp add: core_of_def)

lemma finalize_node_valid [simp]: "id_valid (n_id (finalize_node H n))"
  by (simp add: finalize_node_def derive_node_id_def)

lemma finalize_edge_simps [simp]:
  "e_from (finalize_edge H e) = e_from e" "e_to (finalize_edge H e) = e_to e"
  "e_type (finalize_edge H e) = e_type e" "e_lineage (finalize_edge H e) = e_lineage e"
  "e_predecessor_route_generation (finalize_edge H e) = e_predecessor_route_generation e"
  "e_successor_route_generation (finalize_edge H e) = e_successor_route_generation e"
  "id_valid (e_id (finalize_edge H e))" "id_valid (e_derivation (finalize_edge H e))"
  by (simp_all add: finalize_edge_def Let_def compute_edge_id_def compute_derivation_id_def)

section \<open>Lifecycles never come back\<close>

definition lifecycle_open :: "NodeLifecycle \<Rightarrow> bool" where
  "lifecycle_open l \<longleftrightarrow> l \<in> {NL_Declared, NL_Current, NL_RevalidationRequired}"

definition lifecycle_rank :: "NodeLifecycle \<Rightarrow> nat" where
  "lifecycle_rank l = (case l of NL_Declared \<Rightarrow> 0 | NL_Current \<Rightarrow> 1 | NL_RevalidationRequired \<Rightarrow> 1
     | NL_Historical \<Rightarrow> 2 | NL_Superseded \<Rightarrow> 3 | NL_Revoked \<Rightarrow> 4 | NL_Retired \<Rightarrow> 5 | NL_Invalid \<Rightarrow> 6)"

lemma transition_rank:
  "is_valid_lifecycle_transition a b \<Longrightarrow>
     a = b \<or> lifecycle_rank a < lifecycle_rank b
     \<or> {a, b} = {NL_Current, NL_RevalidationRequired}"
  by (cases a) (auto simp: is_valid_lifecycle_transition_def lifecycle_rank_def)

lemma transitions_rank:
  "is_valid_lifecycle_transition\<^sup>*\<^sup>* a b \<Longrightarrow> lifecycle_rank a \<le> lifecycle_rank b"
proof (induction rule: rtranclp_induct)
  case (step b c)
  have "lifecycle_rank b \<le> lifecycle_rank c"
    using transition_rank [OF step.hyps(2)] by (auto simp: lifecycle_rank_def doubleton_eq_iff)
  then show ?case using step.IH by simp
qed simp

text \<open>
  The lifecycle relation never resurrects a record. However many legal transitions are taken,
  the first and last states either differ in rank (declared, then current or awaiting revalidation,
  historical, superseded, revoked, retired, invalid), or are equal, or are the one pair the sources
  let alternate, current and revalidation-required. A closed record can never become current again.
\<close>

theorem lifecycle_never_reopens:
  "is_valid_lifecycle_transition\<^sup>*\<^sup>* a b \<Longrightarrow>
     (lifecycle_open b \<longrightarrow> lifecycle_open a)
     \<and> (a = b \<or> lifecycle_rank a < lifecycle_rank b \<or> {a, b} = {NL_Current, NL_RevalidationRequired})"
  using transitions_rank [of a b]
  by (cases a; cases b) (simp_all add: lifecycle_open_def lifecycle_rank_def doubleton_eq_iff)

theorem lifecycle_never_reopens_witness:
  "is_valid_lifecycle_transition\<^sup>*\<^sup>* NL_Current NL_Retired
   \<and> lifecycle_rank NL_Current < lifecycle_rank NL_Retired"
proof -
  have "is_valid_lifecycle_transition NL_Current NL_Revoked"
    "is_valid_lifecycle_transition NL_Revoked NL_Retired"
    by (simp_all add: is_valid_lifecycle_transition_def)
  then have p: "is_valid_lifecycle_transition\<^sup>*\<^sup>* NL_Current NL_Retired"
    by (meson converse_rtranclp_into_rtranclp r_into_rtranclp)
  from lifecycle_never_reopens [OF this] show ?thesis
    by (simp add: p doubleton_eq_iff)
qed

end
