(* ===== verification/Codec.thy ===== *)
theory Codec
  imports Node "HOL-Library.Monad_Syntax"
begin

text \<open>
  The binary codec the store file and the wire share, \<^verbatim>\<open>src/codec.hpp\<close> and \<^verbatim>\<open>src/codec.cpp\<close>: the
  growing \<^verbatim>\<open>Writer\<close>, the bounds-checked \<^verbatim>\<open>Reader\<close>, and a writer and a reader for each kind of record.

  A writer's state is the byte vector. A reader keeps its cursor and a sticky failure flag; its
  primitive reads return zero once it has failed, and the record readers test the flag where the
  sources do. A record reader is \<^verbatim>\<open>bool read_x(Reader&, X& out)\<close>: \<open>None\<close> is \<^verbatim>\<open>false\<close>, after which no caller
  touches the reader again. The locale \<open>record_codec\<close> is the contract of a writer and its reader; every
  record of the format interprets it.
\<close>

section \<open>Writer\<close>

type_synonym Writer = "byte list"

definition wr_bytes :: "byte list \<Rightarrow> Writer \<Rightarrow> Writer" where
  "wr_bytes v w = w @ v"

definition wr_u8 :: "u8 \<Rightarrow> Writer \<Rightarrow> Writer" where
  "wr_u8 v w = w @ [v]"

definition wr_u16 :: "u16 \<Rightarrow> Writer \<Rightarrow> Writer" where
  "wr_u16 v w = w @ store_le16 v"

definition wr_u32 :: "u32 \<Rightarrow> Writer \<Rightarrow> Writer" where
  "wr_u32 v w = w @ store_le32 v"

definition wr_u64 :: "u64 \<Rightarrow> Writer \<Rightarrow> Writer" where
  "wr_u64 v w = w @ store_le64 v"

definition wr_digest :: "Digest \<Rightarrow> Writer \<Rightarrow> Writer" where
  "wr_digest v w = w @ digest_bytes v"

definition wr_text :: "string \<Rightarrow> Writer \<Rightarrow> Writer" where
  "wr_text v w = wr_bytes (string_bytes v) (wr_u32 (of_nat (length v)) w)"

text \<open>Overwriting bytes already written; the caller keeps the offset in range.\<close>

definition patch_bytes :: "nat \<Rightarrow> byte list \<Rightarrow> Writer \<Rightarrow> Writer" where
  "patch_bytes offset raw w = fold (\<lambda>i bs. bs[offset + i := raw ! i]) [0..<length raw] w"

definition patch_u32 :: "nat \<Rightarrow> u32 \<Rightarrow> Writer \<Rightarrow> Writer" where
  "patch_u32 offset v w = patch_bytes offset (store_le32 v) w"

definition patch_u64 :: "nat \<Rightarrow> u64 \<Rightarrow> Writer \<Rightarrow> Writer" where
  "patch_u64 offset v w = patch_bytes offset (store_le64 v) w"

text \<open>A sequence of writer calls, and the bytes a call appends.\<close>

definition wr_all :: "(Writer \<Rightarrow> Writer) list \<Rightarrow> Writer \<Rightarrow> Writer" where
  "wr_all calls w = foldl (\<lambda>w call. call w) w calls"

definition written :: "('a \<Rightarrow> Writer \<Rightarrow> Writer) \<Rightarrow> 'a \<Rightarrow> byte list" where
  "written wr v = wr v []"

definition wr_list :: "('a \<Rightarrow> Writer \<Rightarrow> Writer) \<Rightarrow> 'a list \<Rightarrow> Writer \<Rightarrow> Writer" where
  "wr_list wr vs w = fold wr vs w"

named_theorems wr_defs \<open>the bytes of the primitive writer calls\<close>

declare wr_bytes_def [wr_defs] wr_u8_def [wr_defs] wr_u16_def [wr_defs] wr_u32_def [wr_defs]
  wr_u64_def [wr_defs] wr_digest_def [wr_defs] wr_text_def [wr_defs]

section \<open>Reader\<close>

record Reader =
  rd_data :: "byte list"
  rd_cursor :: nat
  rd_failed :: bool

definition rd_open :: "byte list \<Rightarrow> Reader" where
  "rd_open data = \<lparr>rd_data = data, rd_cursor = 0, rd_failed = False\<rparr>"

definition rd_at_end :: "Reader \<Rightarrow> bool" where
  "rd_at_end r \<longleftrightarrow> rd_cursor r = length (rd_data r)"

definition rd_remaining :: "Reader \<Rightarrow> nat" where
  "rd_remaining r = length (rd_data r) - rd_cursor r"

definition rd_fail :: "Reader \<Rightarrow> Reader" where
  "rd_fail r = r\<lparr>rd_failed := True\<rparr>"

definition rd_ensure :: "nat \<Rightarrow> Reader \<Rightarrow> bool \<times> Reader" where
  "rd_ensure len r =
     (if rd_failed r \<or> len > rd_remaining r then (False, rd_fail r) else (True, r))"

text \<open>The common body of the fixed-size reads: \<open>load\<close> of the next bytes, or the value-initialised result.\<close>

definition rd_fixed :: "nat \<Rightarrow> (byte list \<Rightarrow> 'a) \<Rightarrow> 'a \<Rightarrow> Reader \<Rightarrow> 'a \<times> Reader" where
  "rd_fixed len load zero r =
     (let (available, r) = rd_ensure len r
      in if \<not> available then (zero, r)
         else (load (take len (drop (rd_cursor r) (rd_data r))), r\<lparr>rd_cursor := rd_cursor r + len\<rparr>))"

definition rd_u8 :: "Reader \<Rightarrow> u8 \<times> Reader" where
  "rd_u8 = rd_fixed 1 hd 0"

definition rd_u16 :: "Reader \<Rightarrow> u16 \<times> Reader" where
  "rd_u16 = rd_fixed 2 load_le16 0"

definition rd_u32 :: "Reader \<Rightarrow> u32 \<times> Reader" where
  "rd_u32 = rd_fixed 4 load_le32 0"

definition rd_u64 :: "Reader \<Rightarrow> u64 \<times> Reader" where
  "rd_u64 = rd_fixed 8 load_le64 0"

definition rd_digest :: "Reader \<Rightarrow> Digest \<times> Reader" where
  "rd_digest = rd_fixed 32 digest_from_bytes zero_digest"

definition rd_span :: "nat \<Rightarrow> Reader \<Rightarrow> byte list \<times> Reader" where
  "rd_span len = rd_fixed len id []"

definition rd_skip :: "nat \<Rightarrow> Reader \<Rightarrow> Reader" where
  "rd_skip len r = snd (rd_fixed len id [] r)"

definition bytes_string :: "byte list \<Rightarrow> string" where
  "bytes_string bs = map (\<lambda>b. char_of (unat b)) bs"

definition rd_text :: "nat \<Rightarrow> Reader \<Rightarrow> string \<times> Reader" where
  "rd_text max_length r =
     (let (len, r) = rd_u32 r
      in if rd_failed r \<or> unat len > max_length \<or> \<not> fst (rd_ensure (unat len) r) then ([], rd_fail r)
         else rd_fixed (unat len) bytes_string [] r)"

text \<open>\<open>count\<close> records in a loop that returns at the first failure.\<close>

fun rd_list :: "(Reader \<Rightarrow> ('a \<times> Reader) option) \<Rightarrow> nat \<Rightarrow> Reader \<Rightarrow> ('a list \<times> Reader) option" where
  "rd_list rd 0 r = Some ([], r)"
| "rd_list rd (Suc k) r =
     do { (v, r) \<leftarrow> rd r; (vs, r) \<leftarrow> rd_list rd k r; Some (v # vs, r) }"

text \<open>A block that is only present under a condition.\<close>

definition rd_when :: "bool \<Rightarrow> (Reader \<Rightarrow> 'a \<times> Reader) \<Rightarrow> Reader \<Rightarrow> 'a option \<times> Reader" where
  "rd_when present rd r = (if present then (let (v, r) = rd r in (Some v, r)) else (None, r))"

text \<open>A reader that has consumed \<open>pre\<close> and has \<open>bs\<close> before it.\<close>

definition reader_at :: "byte list \<Rightarrow> byte list \<Rightarrow> Reader" where
  "reader_at pre bs = \<lparr>rd_data = pre @ bs, rd_cursor = length pre, rd_failed = False\<rparr>"

lemma rd_open_at: "rd_open bs = reader_at [] bs"
  by (simp add: rd_open_def reader_at_def)

lemma reader_at_simps [simp]:
  "\<not> rd_failed (reader_at pre bs)" "rd_cursor (reader_at pre bs) = length pre"
  "rd_remaining (reader_at pre bs) = length bs" "rd_data (reader_at pre bs) = pre @ bs"
  "rd_at_end (reader_at pre bs) \<longleftrightarrow> bs = []"
  by (simp_all add: reader_at_def rd_remaining_def rd_at_end_def)

lemma rd_fixed_at:
  "length v = len \<Longrightarrow> rd_fixed len load zero (reader_at pre (v @ rest)) = (load v, reader_at (pre @ v) rest)"
  by (simp add: rd_fixed_def rd_ensure_def reader_at_def rd_remaining_def)

lemma rd_prims [simp]:
  "rd_u8 (reader_at pre (b # rest)) = (b, reader_at (pre @ [b]) rest)"
  "rd_u16 (reader_at pre (store_le16 v16 @ rest)) = (v16, reader_at (pre @ store_le16 v16) rest)"
  "rd_u32 (reader_at pre (store_le32 v32 @ rest)) = (v32, reader_at (pre @ store_le32 v32) rest)"
  "rd_u64 (reader_at pre (store_le64 v64 @ rest)) = (v64, reader_at (pre @ store_le64 v64) rest)"
  "rd_digest (reader_at pre (digest_bytes d @ rest)) = (d, reader_at (pre @ digest_bytes d) rest)"
  using load_store_le16 [of v16 "[]"] load_store_le32 [of v32 "[]"] load_store_le64 [of v64 "[]"]
    rd_fixed_at [of "[b]" 1 hd 0 pre rest]
  by (simp_all add: rd_u8_def rd_u16_def rd_u32_def rd_u64_def rd_digest_def rd_fixed_at)

lemma rd_prims_last [simp]:
  "rd_u16 (reader_at pre (store_le16 v16)) = (v16, reader_at (pre @ store_le16 v16) [])"
  "rd_u32 (reader_at pre (store_le32 v32)) = (v32, reader_at (pre @ store_le32 v32) [])"
  "rd_u64 (reader_at pre (store_le64 v64)) = (v64, reader_at (pre @ store_le64 v64) [])"
  "rd_digest (reader_at pre (digest_bytes d)) = (d, reader_at (pre @ digest_bytes d) [])"
  using rd_prims [of pre _ "[]"] by simp_all

lemma bytes_string_bytes [simp]: "bytes_string (string_bytes str) = str"
proof -
  have "char_of (unat (of_char c :: byte)) = c" for c
  proof -
    have "unat (of_nat (of_char c) :: byte) = of_char c"
      by (simp only: unsigned_of_nat take_bit_eq_mod) simp
    then show ?thesis by (simp only: of_nat_of_char) simp
  qed
  then show ?thesis by (simp add: bytes_string_def string_bytes_def o_def)
qed

lemma length_string_bytes [simp]: "length (string_bytes str) = length str"
  by (simp add: string_bytes_def)

lemma rd_text_at:
  assumes "length str \<le> max_length" and "length str < 4294967296"
  shows "rd_text max_length (reader_at pre (store_le32 (of_nat (length str)) @ string_bytes str @ rest))
     = (str, reader_at (pre @ store_le32 (of_nat (length str)) @ string_bytes str) rest)"
  using assms
  by (simp add: rd_text_def unat_of_nat_u32 rd_ensure_def rd_fixed_at)

lemma rd_fixed_string: "rd_fixed len bytes_string [] r = (str, r') \<Longrightarrow> length str \<le> len"
  by (auto simp: rd_fixed_def rd_ensure_def bytes_string_def split: if_splits)

lemma rd_text_length:
  assumes "rd_text max_length r = (str, r')"
  shows "length str \<le> max_length \<and> length str < 4294967296"
proof -
  obtain len r1 where l: "rd_u32 r = (len, r1)" by (cases "rd_u32 r")
  have "str = [] \<or> unat len \<le> max_length \<and> rd_fixed (unat len) bytes_string [] r1 = (str, r')"
    using assms by (auto simp: rd_text_def l split: if_splits)
  then show ?thesis using rd_fixed_string unat_u32_lt [of len] by fastforce
qed

lemma written_prims [simp]:
  "written wr_u64 v64 = store_le64 v64" "written wr_u32 v32 = store_le32 v32"
  by (simp_all add: written_def wr_defs)

section \<open>The contract of a record codec\<close>

locale record_codec =
  fixes wr :: "'a \<Rightarrow> Writer \<Rightarrow> Writer" and rd :: "Reader \<Rightarrow> ('a \<times> Reader) option"
    and ok :: "'a \<Rightarrow> bool"
  assumes appends: "wr v w = w @ written wr v"
    and round_trip: "ok v \<Longrightarrow> rd (reader_at pre (written wr v @ rest)) = Some (v, reader_at (pre @ written wr v) rest)"
    and sound: "rd r = Some (v, r') \<Longrightarrow> ok v"
begin

text \<open>No record is a prefix of another: a record is determined by the bytes it starts.\<close>

lemma unique:
  assumes "ok v" and "ok u" and "written wr v @ xs = written wr u @ ys"
  shows "v = u \<and> xs = ys"
proof -
  have "rd (reader_at [] (written wr v @ xs)) = rd (reader_at [] (written wr u @ ys))"
    using assms(3) by simp
  then have "v = u"
    using round_trip [OF assms(1), of "[]"] round_trip [OF assms(2), of "[]"] by simp
  then show ?thesis using assms(3) by simp
qed

lemma list_appends: "wr_list wr vs w = w @ concat (map (written wr) vs)"
proof (induction vs arbitrary: w)
  case (Cons v vs)
  show ?case using Cons [of "wr v w"] by (simp add: wr_list_def appends [of v w])
qed (simp add: wr_list_def)

lemma list_round_trip:
  "list_all ok vs \<Longrightarrow> rd_list rd (length vs) (reader_at pre (concat (map (written wr) vs) @ rest))
     = Some (vs, reader_at (pre @ concat (map (written wr) vs)) rest)"
proof (induction vs arbitrary: pre)
  case (Cons v vs)
  then show ?case using round_trip [of v pre] by simp
qed simp

lemma list_sound: "rd_list rd k r = Some (vs, r') \<Longrightarrow> list_all ok vs \<and> length vs = k"
proof (induction k arbitrary: r vs r')
  case (Suc k)
  then show ?case by (auto split: Option.bind_splits prod.splits dest: sound)
qed simp

lemma written_list: "written (wr_list wr) vs = concat (map (written wr) vs)"
  by (simp add: written_def [of "wr_list wr"] list_appends)

end

section \<open>Evidence\<close>

text \<open>\<^verbatim>\<open>is_known(static_cast<E>(raw))\<close> for the enumerations of the records.\<close>

definition node_kind_of :: "u16 \<Rightarrow> NodeKind option" where
  "node_kind_of = lookup_code node_kind_code kNodeKinds"

definition edge_type_of :: "u16 \<Rightarrow> EdgeType option" where
  "edge_type_of = lookup_code edge_type_code kEdgeTypes"

definition reason_code_of :: "u16 \<Rightarrow> ReasonCode option" where
  "reason_code_of = lookup_code reason_code_code kReasonCodes"

definition source_class_of :: "u16 \<Rightarrow> SourceClass option" where
  "source_class_of = lookup_code source_class_code kSourceClasses"

definition node_lifecycle_of :: "u16 \<Rightarrow> NodeLifecycle option" where
  "node_lifecycle_of = lookup_code node_lifecycle_code kNodeLifecycles"

definition currentness_of :: "u16 \<Rightarrow> Currentness option" where
  "currentness_of = lookup_code currentness_code kCurrentnesses"

definition lineage_lifecycle_of :: "u16 \<Rightarrow> LineageLifecycle option" where
  "lineage_lifecycle_of = lookup_code lineage_lifecycle_code kLineageLifecycles"

definition outcome_of :: "u16 \<Rightarrow> Outcome option" where
  "outcome_of = lookup_code outcome_code kOutcomes"

definition root_reason_of :: "u16 \<Rightarrow> RootReason option" where
  "root_reason_of = lookup_code root_reason_code kRootReasons"

lemma enum_of_simps [simp]:
  "node_kind_of (node_kind_code a) = Some a" "edge_type_of (edge_type_code b) = Some b"
  "reason_code_of (reason_code_code c) = Some c" "source_class_of (source_class_code d) = Some d"
  "node_lifecycle_of (node_lifecycle_code e) = Some e" "currentness_of (currentness_code f) = Some f"
  "lineage_lifecycle_of (lineage_lifecycle_code g) = Some g" "outcome_of (outcome_code h) = Some h"
  "root_reason_of (root_reason_code i) = Some i"
  by (simp_all add: node_kind_of_def edge_type_of_def reason_code_of_def source_class_of_def
      node_lifecycle_of_def currentness_of_def lineage_lifecycle_of_def outcome_of_def root_reason_of_def
      node_kind_tab.code_roundtrip edge_type_tab.code_roundtrip reason_code_tab.code_roundtrip
      source_class_tab.code_roundtrip node_lifecycle_tab.code_roundtrip currentness_tab.code_roundtrip
      lineage_lifecycle_tab.code_roundtrip outcome_tab.code_roundtrip root_reason_tab.code_roundtrip)

lemma root_reason_code_nonzero [simp]: "root_reason_code r \<noteq> 0"
  by (cases r) simp_all

definition wr_evidence_entry :: "EvidenceEntry \<Rightarrow> Writer \<Rightarrow> Writer" where
  "wr_evidence_entry entry = wr_all [wr_u16 (ee_field entry), wr_u64 (ee_value entry)]"

definition write_evidence :: "EvidenceVector \<Rightarrow> Writer \<Rightarrow> Writer" where
  "write_evidence ev = wr_all [wr_u16 (of_nat (length ev)), wr_list wr_evidence_entry ev]"

definition rd_evidence_entry :: "Reader \<Rightarrow> (EvidenceEntry \<times> Reader) option" where
  "rd_evidence_entry r =
     (let (field, r) = rd_u16 r; (v, r) = rd_u64 r
      in if rd_failed r then None else Some (EvidenceEntry field v, r))"

definition read_evidence :: "Limits \<Rightarrow> Reader \<Rightarrow> (EvidenceVector \<times> Reader) option" where
  "read_evidence limits r =
     (let (count, r) = rd_u16 r
      in if rd_failed r \<or> unat count > max_evidence_entries limits then None
         else do {
           (entries, r) \<leftarrow> rd_list rd_evidence_entry (unat count) r;
           canonical \<leftarrow> r_value (evidence_create entries limits);
           Some (canonical, r) })"

definition evidence_ok :: "Limits \<Rightarrow> EvidenceVector \<Rightarrow> bool" where
  "evidence_ok limits ev \<longleftrightarrow>
     evidence_canonical ev \<and> length ev \<le> max_evidence_entries limits \<and> length ev < 65536"

interpretation evidence_entry_codec: record_codec wr_evidence_entry rd_evidence_entry "\<lambda>_. True"
  by unfold_locales (simp_all add: wr_evidence_entry_def rd_evidence_entry_def wr_all_def written_def wr_defs)

lemma canonical_distinct: "evidence_canonical ev \<Longrightarrow> distinct ev"
  unfolding evidence_canonical_def by (metis distinct_map sorted_wrt_less_distinct)

lemma evidence_create_self:
  "evidence_canonical ev \<Longrightarrow> length ev \<le> max_evidence_entries limits \<Longrightarrow>
     r_value (evidence_create ev limits) = Some ev"
  unfolding evidence_create_value
  by (auto simp: evidence_canonical_def evidence_consistent_def distinct_map dest: sorted_wrt_less_distinct)

lemma evidence_create_ok:
  assumes "r_value (evidence_create entries limits) = Some ev" and "length entries < 65536"
  shows "evidence_ok limits ev"
proof -
  from assms(1) have c: "evidence_canonical ev" "set ev = set entries"
    and l: "length entries \<le> max_evidence_entries limits"
    by (simp_all add: evidence_create_value)
  have "length ev = card (set entries)"
    using canonical_distinct [OF c(1)] by (simp add: c(2) [symmetric] distinct_card)
  then have "length ev \<le> length entries" by (simp add: card_length)
  with assms(2) c l show ?thesis by (simp add: evidence_ok_def)
qed

lemma unat_of_nat_u16: "n < 65536 \<Longrightarrow> unat (of_nat n :: u16) = n"
  by (simp add: unsigned_of_nat take_bit_nat_eq_self)

lemma written_evidence:
  "written write_evidence ev = store_le16 (of_nat (length ev)) @ concat (map (written wr_evidence_entry) ev)"
  by (simp add: written_def [of write_evidence] write_evidence_def wr_all_def wr_u16_def
      evidence_entry_codec.list_appends)

interpretation evidence_codec: record_codec write_evidence "read_evidence limits" "evidence_ok limits"
  for limits
proof
  show "write_evidence v w = w @ written write_evidence v" for v w
    by (simp add: written_evidence write_evidence_def wr_all_def wr_u16_def
        evidence_entry_codec.list_appends)
next
  fix v pre rest assume ok: "evidence_ok limits v"
  then show "read_evidence limits (reader_at pre (written write_evidence v @ rest))
      = Some (v, reader_at (pre @ written write_evidence v) rest)"
    using evidence_entry_codec.list_round_trip [of v]
    by (simp add: read_evidence_def written_evidence evidence_ok_def unat_of_nat_u16 list.pred_True
        evidence_create_self)
next
  fix r v r' assume "read_evidence limits r = Some (v, r')"
  then show "evidence_ok limits v"
    using evidence_create_ok evidence_entry_codec.list_sound unat_u16_lt
    by (fastforce simp: read_evidence_def Let_def split: prod.splits if_splits Option.bind_splits)
qed

section \<open>Authority\<close>

definition write_authority :: "AuthorityContext \<Rightarrow> Writer \<Rightarrow> Writer" where
  "write_authority a = wr_all
     [wr_u64 (pi_publisher (ac_publisher a)), wr_u64 (pi_boot (ac_publisher a)),
      wr_u64 (pi_epoch (ac_publisher a)), wr_u64 (ac_attempt a),
      wr_u16 (scope_kind_code (scope_kind (ac_scope a))), wr_u64 (scope_subject (ac_scope a)),
      wr_u64 (opt_raw (ac_expected_lineage_generation a)),
      wr_u64 (opt_raw (ac_expected_provenance_generation a))]"

text \<open>The \<^verbatim>\<open>switch\<close> over the scope kind, which the wire shares, and the test for an absent value.\<close>

definition scope_of_raw :: "u16 \<Rightarrow> u64 \<Rightarrow> AuthorityScope option" where
  "scope_of_raw kind subject =
     (if kind = scope_kind_code SK_None then Some scope_none
      else if kind = scope_kind_code SK_Fabric then Some scope_fabric
      else if kind = scope_kind_code SK_RoutingNamespace then Some (scope_routing_namespace subject)
      else if kind = scope_kind_code SK_Lineage then Some (scope_lineage subject)
      else if kind = scope_kind_code SK_Route then Some (scope_route subject)
      else None)"

definition opt_of_raw :: "u64 \<Rightarrow> u64 option" where
  "opt_of_raw v = (if v \<noteq> 0 then Some v else None)"

definition read_authority :: "Reader \<Rightarrow> (AuthorityContext \<times> Reader) option" where
  "read_authority r =
     (let (publisher, r) = rd_u64 r; (boot, r) = rd_u64 r; (epoch, r) = rd_u64 r;
          (attempt, r) = rd_u64 r; (kind_raw, r) = rd_u16 r; (subject, r) = rd_u64 r;
          (expected_lineage, r) = rd_u64 r; (expected_provenance, r) = rd_u64 r
      in if rd_failed r then None
         else do {
           scope \<leftarrow> scope_of_raw kind_raw subject;
           Some (\<lparr>ac_publisher = \<lparr>pi_publisher = publisher, pi_boot = boot, pi_epoch = epoch\<rparr>,
                   ac_scope = scope, ac_attempt = attempt,
                   ac_expected_lineage_generation = opt_of_raw expected_lineage,
                   ac_expected_provenance_generation = opt_of_raw expected_provenance\<rparr>, r) })"

text \<open>
  The invariant of the class \<^verbatim>\<open>AuthorityScope\<close>, whose only constructors are its factories: a narrow
  scope has a subject, the others have none.
\<close>

definition scope_wf :: "AuthorityScope \<Rightarrow> bool" where
  "scope_wf scope \<longleftrightarrow>
     (if scope_kind scope = SK_None \<or> scope_kind scope = SK_Fabric then scope_subject scope = 0
      else scope_subject scope \<noteq> 0)"

definition authority_ok :: "AuthorityContext \<Rightarrow> bool" where
  "authority_ok a \<longleftrightarrow> scope_wf (ac_scope a) \<and> authority_wf a"

lemma scope_of_raw_code: "scope_wf scope \<Longrightarrow> scope_of_raw (scope_kind_code (scope_kind scope)) (scope_subject scope) = Some scope"
  by (cases scope; cases "scope_kind scope")
     (auto simp: scope_wf_def scope_of_raw_def scope_none_def scope_fabric_def scope_routing_namespace_def
       scope_lineage_def scope_route_def id_valid_def)

lemma scope_of_raw_wf: "scope_of_raw kind subject = Some scope \<Longrightarrow> scope_wf scope"
  by (auto simp: scope_wf_def scope_of_raw_def scope_none_def scope_fabric_def scope_routing_namespace_def
       scope_lineage_def scope_route_def id_valid_def split: if_splits)

lemma opt_of_raw_simps [simp]:
  "opt_of_raw v \<noteq> Some 0" "g \<noteq> Some 0 \<Longrightarrow> opt_of_raw (opt_raw g) = g"
  by (auto simp: opt_of_raw_def opt_raw_def split: option.splits)

interpretation authority_codec: record_codec write_authority read_authority authority_ok
proof
  show "write_authority v w = w @ written write_authority v" for v w
    by (simp add: write_authority_def written_def wr_all_def wr_defs)
  show "authority_ok v \<Longrightarrow> read_authority (reader_at pre (written write_authority v @ rest))
      = Some (v, reader_at (pre @ written write_authority v) rest)" for v pre rest
    by (simp add: write_authority_def written_def wr_all_def wr_defs read_authority_def authority_ok_def
        scope_of_raw_code authority_wf_def)
  show "read_authority r = Some (v, r') \<Longrightarrow> authority_ok v" for r v r'
    by (auto simp: read_authority_def authority_ok_def authority_wf_def Let_def scope_of_raw_wf
        split: prod.splits if_splits Option.bind_splits)
qed

lemma written_authority_length [simp]: "length (written write_authority a) = 58"
  by (simp add: written_def write_authority_def wr_all_def wr_defs)

section \<open>Bindings\<close>

definition kBindingPresencePath :: u32 where "kBindingPresencePath = 1"
definition kBindingPresencePlanner :: u32 where "kBindingPresencePlanner = 2"
definition kBindingPresenceEcmp :: u32 where "kBindingPresenceEcmp = 4"
definition kBindingPresenceWeighted :: u32 where "kBindingPresenceWeighted = 8"
definition kBindingPresenceAdaptation :: u32 where "kBindingPresenceAdaptation = 16"
definition kBindingPresenceConvergence :: u32 where "kBindingPresenceConvergence = 32"
definition kBindingPresencePolicy :: u32 where "kBindingPresencePolicy = 64"

lemmas presence_bits = kBindingPresencePath_def kBindingPresencePlanner_def kBindingPresenceEcmp_def
  kBindingPresenceWeighted_def kBindingPresenceAdaptation_def kBindingPresenceConvergence_def
  kBindingPresencePolicy_def

unbundle bit_operations_syntax

definition kBindingPresenceAll :: u32 where
  "kBindingPresenceAll =
     kBindingPresencePath OR kBindingPresencePlanner OR kBindingPresenceEcmp OR kBindingPresenceWeighted
     OR kBindingPresenceAdaptation OR kBindingPresenceConvergence OR kBindingPresencePolicy"

definition presence_flags :: "bool \<Rightarrow> bool \<Rightarrow> bool \<Rightarrow> bool \<Rightarrow> bool \<Rightarrow> bool \<Rightarrow> bool \<Rightarrow> u32" where
  "presence_flags path planner ecmp weighted adaptation convergence policy =
     (if path then kBindingPresencePath else 0) OR (if planner then kBindingPresencePlanner else 0)
     OR (if ecmp then kBindingPresenceEcmp else 0) OR (if weighted then kBindingPresenceWeighted else 0)
     OR (if adaptation then kBindingPresenceAdaptation else 0)
     OR (if convergence then kBindingPresenceConvergence else 0)
     OR (if policy then kBindingPresencePolicy else 0)"

definition binding_presence :: "Bindings \<Rightarrow> u32" where
  "binding_presence b = presence_flags (b_path b \<noteq> None) (b_planner b \<noteq> None) (b_ecmp b \<noteq> None)
     (b_weighted b \<noteq> None) (b_adaptation b \<noteq> None) (b_convergence b \<noteq> None) (b_policy b \<noteq> None)"

lemma presence_flags_simps [simp]:
  "presence_flags p q r s t u v AND NOT kBindingPresenceAll = 0"
  "presence_flags p q r s t u v AND kBindingPresencePath = 0 \<longleftrightarrow> \<not> p"
  "presence_flags p q r s t u v AND kBindingPresencePlanner = 0 \<longleftrightarrow> \<not> q"
  "presence_flags p q r s t u v AND kBindingPresenceEcmp = 0 \<longleftrightarrow> \<not> r"
  "presence_flags p q r s t u v AND kBindingPresenceWeighted = 0 \<longleftrightarrow> \<not> s"
  "presence_flags p q r s t u v AND kBindingPresenceAdaptation = 0 \<longleftrightarrow> \<not> t"
  "presence_flags p q r s t u v AND kBindingPresenceConvergence = 0 \<longleftrightarrow> \<not> u"
  "presence_flags p q r s t u v AND kBindingPresencePolicy = 0 \<longleftrightarrow> \<not> v"
  by (cases p; cases q; cases r; cases s; cases t; cases u; cases v;
      simp add: presence_flags_def kBindingPresenceAll_def presence_bits)+

text \<open>The blocks of the present bindings, and their readers.\<close>

definition wr_opt :: "('a \<Rightarrow> Writer \<Rightarrow> Writer) \<Rightarrow> 'a option \<Rightarrow> Writer \<Rightarrow> Writer" where
  "wr_opt wr v w = (case v of Some x \<Rightarrow> wr x w | None \<Rightarrow> w)"

definition write_path_binding :: "PathBinding \<Rightarrow> Writer \<Rightarrow> Writer" where
  "write_path_binding p = wr_all [wr_u64 (pb_path p), wr_u64 (pb_generation p), wr_digest (pb_decision_digest p)]"

definition write_planner_binding :: "PlannerBinding \<Rightarrow> Writer \<Rightarrow> Writer" where
  "write_planner_binding p = wr_all
     [wr_u64 (pl_request p), wr_u64 (pl_generation p), wr_u32 (pl_candidate_rank p),
      wr_digest (pl_plan_digest p), wr_u64 (pl_selected_path p)]"

definition write_ecmp_binding :: "EcmpBinding \<Rightarrow> Writer \<Rightarrow> Writer" where
  "write_ecmp_binding p = wr_all [wr_u64 (eb_group p), wr_u64 (eb_membership p), wr_u64 (eb_assignment p)]"

definition write_weighted_binding :: "WeightedPathBinding \<Rightarrow> Writer \<Rightarrow> Writer" where
  "write_weighted_binding p = wr_all [wr_u64 (wb_set p), wr_u64 (wb_policy p), wr_u64 (wb_assignment p)]"

definition write_adaptation_binding :: "AdaptationBinding \<Rightarrow> Writer \<Rightarrow> Writer" where
  "write_adaptation_binding p = wr_all
     [wr_u64 (ab_decision p), wr_u64 (ab_generation p), wr_u64 (ab_policy p), wr_u64 (ab_evidence p),
      wr_digest (ab_decision_digest p)]"

definition write_convergence_binding :: "ConvergenceBinding \<Rightarrow> Writer \<Rightarrow> Writer" where
  "write_convergence_binding p = wr_all
     [wr_u64 (cb_plan p), wr_u64 (cb_generation p), wr_u64 (cb_step p), wr_digest (cb_completion_evidence p)]"

definition write_policy_binding :: "PolicyBinding \<Rightarrow> Writer \<Rightarrow> Writer" where
  "write_policy_binding p = wr_all [wr_u64 (ob_generation p)]"

definition write_bindings :: "Bindings \<Rightarrow> Writer \<Rightarrow> Writer" where
  "write_bindings b = wr_all
     [wr_u32 (binding_presence b), wr_opt write_path_binding (b_path b),
      wr_opt write_planner_binding (b_planner b), wr_opt write_ecmp_binding (b_ecmp b),
      wr_opt write_weighted_binding (b_weighted b), wr_opt write_adaptation_binding (b_adaptation b),
      wr_opt write_convergence_binding (b_convergence b), wr_opt write_policy_binding (b_policy b)]"

definition read_path_binding :: "Reader \<Rightarrow> PathBinding \<times> Reader" where
  "read_path_binding r =
     (let (path, r) = rd_u64 r; (generation, r) = rd_u64 r; (dg, r) = rd_digest r
      in (\<lparr>pb_path = path, pb_generation = generation, pb_decision_digest = dg\<rparr>, r))"

definition read_planner_binding :: "Reader \<Rightarrow> PlannerBinding \<times> Reader" where
  "read_planner_binding r =
     (let (request, r) = rd_u64 r; (generation, r) = rd_u64 r; (rank, r) = rd_u32 r;
          (dg, r) = rd_digest r; (path, r) = rd_u64 r
      in (\<lparr>pl_request = request, pl_generation = generation, pl_candidate_rank = rank,
            pl_plan_digest = dg, pl_selected_path = path\<rparr>, r))"

definition read_ecmp_binding :: "Reader \<Rightarrow> EcmpBinding \<times> Reader" where
  "read_ecmp_binding r =
     (let (group, r) = rd_u64 r; (membership, r) = rd_u64 r; (assignment, r) = rd_u64 r
      in (\<lparr>eb_group = group, eb_membership = membership, eb_assignment = assignment\<rparr>, r))"

definition read_weighted_binding :: "Reader \<Rightarrow> WeightedPathBinding \<times> Reader" where
  "read_weighted_binding r =
     (let (set_id, r) = rd_u64 r; (policy, r) = rd_u64 r; (assignment, r) = rd_u64 r
      in (\<lparr>wb_set = set_id, wb_policy = policy, wb_assignment = assignment\<rparr>, r))"

definition read_adaptation_binding :: "Reader \<Rightarrow> AdaptationBinding \<times> Reader" where
  "read_adaptation_binding r =
     (let (decision, r) = rd_u64 r; (generation, r) = rd_u64 r; (policy, r) = rd_u64 r;
          (evidence, r) = rd_u64 r; (dg, r) = rd_digest r
      in (\<lparr>ab_decision = decision, ab_generation = generation, ab_policy = policy,
            ab_evidence = evidence, ab_decision_digest = dg\<rparr>, r))"

definition read_convergence_binding :: "Reader \<Rightarrow> ConvergenceBinding \<times> Reader" where
  "read_convergence_binding r =
     (let (plan, r) = rd_u64 r; (generation, r) = rd_u64 r; (step, r) = rd_u64 r; (dg, r) = rd_digest r
      in (\<lparr>cb_plan = plan, cb_generation = generation, cb_step = step, cb_completion_evidence = dg\<rparr>, r))"

definition read_policy_binding :: "Reader \<Rightarrow> PolicyBinding \<times> Reader" where
  "read_policy_binding r = (let (generation, r) = rd_u64 r in (\<lparr>ob_generation = generation\<rparr>, r))"

definition read_bindings :: "Reader \<Rightarrow> (Bindings \<times> Reader) option" where
  "read_bindings r =
     (let (presence, r) = rd_u32 r
      in if rd_failed r \<or> presence AND NOT kBindingPresenceAll \<noteq> 0 then None
         else
           let (path, r) = rd_when (presence AND kBindingPresencePath \<noteq> 0) read_path_binding r;
               (planner, r) = rd_when (presence AND kBindingPresencePlanner \<noteq> 0) read_planner_binding r;
               (ecmp, r) = rd_when (presence AND kBindingPresenceEcmp \<noteq> 0) read_ecmp_binding r;
               (weighted, r) = rd_when (presence AND kBindingPresenceWeighted \<noteq> 0) read_weighted_binding r;
               (adaptation, r) = rd_when (presence AND kBindingPresenceAdaptation \<noteq> 0) read_adaptation_binding r;
               (convergence, r) = rd_when (presence AND kBindingPresenceConvergence \<noteq> 0) read_convergence_binding r;
               (policy, r) = rd_when (presence AND kBindingPresencePolicy \<noteq> 0) read_policy_binding r
           in if rd_failed r then None
              else Some (\<lparr>b_path = path, b_planner = planner, b_ecmp = ecmp, b_weighted = weighted,
                         b_adaptation = adaptation, b_convergence = convergence, b_policy = policy\<rparr>, r))"

lemmas write_binding_defs = write_path_binding_def write_planner_binding_def write_ecmp_binding_def
  write_weighted_binding_def write_adaptation_binding_def write_convergence_binding_def
  write_policy_binding_def

lemmas read_binding_defs = read_path_binding_def read_planner_binding_def read_ecmp_binding_def
  read_weighted_binding_def read_adaptation_binding_def read_convergence_binding_def
  read_policy_binding_def

text \<open>The bytes of an optional block, and reading it back under the right presence flag.\<close>

lemma wr_opt_appends:
  "(\<And>x w. wr x w = w @ written wr x) \<Longrightarrow> wr_opt wr v w = w @ written (wr_opt wr) v"
  by (simp add: wr_opt_def written_def [of "wr_opt wr"] split: option.splits)

lemma rd_when_opt:
  assumes "\<And>x pre rest. rd (reader_at pre (written wr x @ rest)) = (x, reader_at (pre @ written wr x) rest)"
    and "present \<longleftrightarrow> v \<noteq> None"
  shows "rd_when present rd (reader_at pre (written (wr_opt wr) v @ rest))
     = (v, reader_at (pre @ written (wr_opt wr) v) rest)"
  using assms by (auto simp: rd_when_def wr_opt_def written_def split: option.splits)

lemma binding_blocks:
  "write_path_binding a w = w @ written write_path_binding a"
  "write_planner_binding b w = w @ written write_planner_binding b"
  "write_ecmp_binding c w = w @ written write_ecmp_binding c"
  "write_weighted_binding d w = w @ written write_weighted_binding d"
  "write_adaptation_binding e w = w @ written write_adaptation_binding e"
  "write_convergence_binding f w = w @ written write_convergence_binding f"
  "write_policy_binding g w = w @ written write_policy_binding g"
  by (simp_all add: written_def write_binding_defs wr_all_def wr_defs)

lemma read_binding_blocks:
  "read_path_binding (reader_at pre (written write_path_binding a @ rest))
     = (a, reader_at (pre @ written write_path_binding a) rest)"
  "read_planner_binding (reader_at pre (written write_planner_binding b @ rest))
     = (b, reader_at (pre @ written write_planner_binding b) rest)"
  "read_ecmp_binding (reader_at pre (written write_ecmp_binding c @ rest))
     = (c, reader_at (pre @ written write_ecmp_binding c) rest)"
  "read_weighted_binding (reader_at pre (written write_weighted_binding d @ rest))
     = (d, reader_at (pre @ written write_weighted_binding d) rest)"
  "read_adaptation_binding (reader_at pre (written write_adaptation_binding e @ rest))
     = (e, reader_at (pre @ written write_adaptation_binding e) rest)"
  "read_convergence_binding (reader_at pre (written write_convergence_binding f @ rest))
     = (f, reader_at (pre @ written write_convergence_binding f) rest)"
  "read_policy_binding (reader_at pre (written write_policy_binding g @ rest))
     = (g, reader_at (pre @ written write_policy_binding g) rest)"
  by (simp_all add: written_def write_binding_defs read_binding_defs wr_all_def wr_defs)

lemmas opt_appends = binding_blocks [THEN wr_opt_appends]

lemmas opt_reads = read_binding_blocks [THEN rd_when_opt]

lemma written_bindings:
  "written write_bindings b = store_le32 (binding_presence b) @ written (wr_opt write_path_binding) (b_path b)
     @ written (wr_opt write_planner_binding) (b_planner b) @ written (wr_opt write_ecmp_binding) (b_ecmp b)
     @ written (wr_opt write_weighted_binding) (b_weighted b)
     @ written (wr_opt write_adaptation_binding) (b_adaptation b)
     @ written (wr_opt write_convergence_binding) (b_convergence b)
     @ written (wr_opt write_policy_binding) (b_policy b)"
  by (simp add: written_def [of write_bindings] write_bindings_def wr_all_def wr_u32_def
      opt_appends)

lemma written_no_bindings [simp]: "length (written write_bindings no_bindings) = 4"
  unfolding written_bindings by (simp add: no_bindings_def written_def wr_opt_def)

interpretation bindings_codec: record_codec write_bindings read_bindings "\<lambda>_. True"
proof
  show "write_bindings v w = w @ written write_bindings v" for v w
    by (simp add: written_bindings write_bindings_def wr_all_def wr_u32_def
        opt_appends)
  show "read_bindings (reader_at pre (written write_bindings v @ rest))
      = Some (v, reader_at (pre @ written write_bindings v) rest)" for v pre rest
    by (simp add: read_bindings_def written_bindings binding_presence_def
        opt_reads)
qed simp

section \<open>Records and derivations\<close>

definition flag_byte :: "bool \<Rightarrow> u8" where
  "flag_byte b = (if b then 1 else 0)"

definition wr_flag :: "bool \<Rightarrow> Writer \<Rightarrow> Writer" where
  "wr_flag b = wr_u8 (flag_byte b)"

definition write_node :: "ProvenanceNode \<Rightarrow> Writer \<Rightarrow> Writer" where
  "write_node n = wr_all
     [wr_u64 (n_id n), wr_u16 (node_kind_code (n_kind n)), wr_u16 (reason_code_code (n_reason n)),
      wr_u16 (source_class_code (n_source n)),
      wr_u16 (case n_root_reason n of Some r \<Rightarrow> root_reason_code r | None \<Rightarrow> 0),
      wr_u16 (node_lifecycle_code (n_lifecycle n)), wr_u16 (currentness_code (n_currentness n)),
      wr_flag (n_revalidation_required n), wr_flag (n_revalidated n), wr_u16 0,
      wr_u64 (n_lineage n), wr_u64 (n_route n), wr_u64 (n_route_generation n),
      wr_u64 (opt_raw (n_corrects n)), wr_u64 (opt_raw (n_corrected_by n)),
      wr_digest (n_route_state_digest n), wr_flag (n_compacted_digest n \<noteq> None),
      wr_digest (case n_compacted_digest n of Some d \<Rightarrow> d | None \<Rightarrow> zero_digest),
      write_evidence (n_evidence n), write_authority (n_authority n), write_bindings (n_bindings n)]"

text \<open>\<^verbatim>\<open>if (root_raw != 0)\<close>: \<open>None\<close> is the early return on an unknown root reason.\<close>

definition root_reason_of_raw :: "u16 \<Rightarrow> RootReason option option" where
  "root_reason_of_raw raw = (if raw = 0 then Some None else map_option Some (root_reason_of raw))"

definition read_node :: "Limits \<Rightarrow> Reader \<Rightarrow> (ProvenanceNode \<times> Reader) option" where
  "read_node limits r =
     (let (i, r) = rd_u64 r; (kind_raw, r) = rd_u16 r; (reason_raw, r) = rd_u16 r;
          (source_raw, r) = rd_u16 r; (root_raw, r) = rd_u16 r; (lifecycle_raw, r) = rd_u16 r;
          (currentness_raw, r) = rd_u16 r; (revalidation, r) = rd_u8 r; (revalidated, r) = rd_u8 r;
          (_, r) = rd_u16 r
      in if rd_failed r then None
         else do {
           kind \<leftarrow> node_kind_of kind_raw;
           reason \<leftarrow> reason_code_of reason_raw;
           source \<leftarrow> source_class_of source_raw;
           lifecycle \<leftarrow> node_lifecycle_of lifecycle_raw;
           currentness \<leftarrow> currentness_of currentness_raw;
           root \<leftarrow> root_reason_of_raw root_raw;
           (if revalidation > 1 \<or> revalidated > 1 then None
            else
              let (lineage, r) = rd_u64 r; (route, r) = rd_u64 r; (generation, r) = rd_u64 r;
                  (corrects, r) = rd_u64 r; (corrected_by, r) = rd_u64 r; (state_digest, r) = rd_digest r;
                  (has_compacted, r) = rd_u8 r; (compacted, r) = rd_digest r
              in if rd_failed r \<or> has_compacted > 1 then None
                 else do {
                   (evidence, r) \<leftarrow> read_evidence limits r;
                   (authority, r) \<leftarrow> read_authority r;
                   (bindings, r) \<leftarrow> read_bindings r;
                   Some (\<lparr>n_id = i, n_lineage = lineage, n_kind = kind, n_route = route,
                     n_route_generation = generation, n_route_state_digest = state_digest,
                     n_reason = reason, n_source = source, n_root_reason = root, n_evidence = evidence,
                     n_authority = authority, n_bindings = bindings, n_lifecycle = lifecycle,
                     n_currentness = currentness, n_revalidation_required = (revalidation = 1),
                     n_revalidated = (revalidated = 1), n_corrected_by = opt_of_raw corrected_by,
                     n_corrects = opt_of_raw corrects,
                     n_compacted_digest = (if has_compacted = 1 then Some compacted else None)\<rparr>, r) })
         })"

definition node_ok :: "Limits \<Rightarrow> ProvenanceNode \<Rightarrow> bool" where
  "node_ok limits n \<longleftrightarrow> evidence_ok limits (n_evidence n) \<and> authority_ok (n_authority n)
     \<and> n_corrects n \<noteq> Some 0 \<and> n_corrected_by n \<noteq> Some 0"

definition write_edge :: "ProvenanceEdge \<Rightarrow> Writer \<Rightarrow> Writer" where
  "write_edge e = wr_all
     [wr_u64 (e_id e), wr_u64 (e_derivation e), wr_u64 (e_lineage e),
      wr_u16 (edge_type_code (e_type e)), wr_u16 (reason_code_code (e_reason e)),
      wr_u16 (source_class_code (e_source e)), wr_u16 0,
      wr_u64 (e_from e), wr_u64 (e_to e), wr_u64 (e_predecessor_route_generation e),
      wr_u64 (e_successor_route_generation e), write_evidence (e_evidence e), write_authority (e_authority e)]"

definition read_edge :: "Limits \<Rightarrow> Reader \<Rightarrow> (ProvenanceEdge \<times> Reader) option" where
  "read_edge limits r =
     (let (i, r) = rd_u64 r; (derivation, r) = rd_u64 r; (lineage, r) = rd_u64 r;
          (type_raw, r) = rd_u16 r; (reason_raw, r) = rd_u16 r; (source_raw, r) = rd_u16 r;
          (_, r) = rd_u16 r
      in if rd_failed r then None
         else do {
           type \<leftarrow> edge_type_of type_raw;
           reason \<leftarrow> reason_code_of reason_raw;
           source \<leftarrow> source_class_of source_raw;
           (let (from_n, r) = rd_u64 r; (to_n, r) = rd_u64 r; (predecessor, r) = rd_u64 r;
                (successor, r) = rd_u64 r
            in do {
              (evidence, r) \<leftarrow> read_evidence limits r;
              (authority, r) \<leftarrow> read_authority r;
              Some (\<lparr>e_id = i, e_derivation = derivation, e_lineage = lineage, e_type = type,
                e_from = from_n, e_to = to_n, e_predecessor_route_generation = predecessor,
                e_successor_route_generation = successor, e_reason = reason, e_source = source,
                e_evidence = evidence, e_authority = authority\<rparr>, r) })
         })"

definition edge_ok :: "Limits \<Rightarrow> ProvenanceEdge \<Rightarrow> bool" where
  "edge_ok limits e \<longleftrightarrow> evidence_ok limits (e_evidence e) \<and> authority_ok (e_authority e)"

section \<open>Attempts\<close>

record StoredAttempt =
  sa_publisher :: PublisherId
  sa_attempt :: MutationAttemptId
  sa_request :: Digest
  sa_node :: ProvenanceNodeId
  sa_edges :: "ProvenanceEdgeId list"
  sa_outcome :: Outcome
  sa_lifecycle :: NodeLifecycle
  sa_currentness :: Currentness

definition write_attempt :: "StoredAttempt \<Rightarrow> Writer \<Rightarrow> Writer" where
  "write_attempt a = wr_all
     [wr_u64 (sa_publisher a), wr_u64 (sa_attempt a), wr_digest (sa_request a), wr_u64 (sa_node a),
      wr_u16 (outcome_code (sa_outcome a)), wr_u16 (node_lifecycle_code (sa_lifecycle a)),
      wr_u16 (currentness_code (sa_currentness a)), wr_u16 0,
      wr_u32 (of_nat (length (sa_edges a))), wr_list wr_u64 (sa_edges a)]"

text \<open>The edge loop has no test of its own; the flag is tested after it.\<close>

fun rd_u64s :: "nat \<Rightarrow> Reader \<Rightarrow> u64 list \<times> Reader" where
  "rd_u64s 0 r = ([], r)"
| "rd_u64s (Suc k) r = (let (v, r) = rd_u64 r; (vs, r) = rd_u64s k r in (v # vs, r))"

definition read_attempt :: "Limits \<Rightarrow> Reader \<Rightarrow> (StoredAttempt \<times> Reader) option" where
  "read_attempt limits r =
     (let (publisher, r) = rd_u64 r; (attempt, r) = rd_u64 r; (request, r) = rd_digest r;
          (node, r) = rd_u64 r; (outcome_raw, r) = rd_u16 r; (lifecycle_raw, r) = rd_u16 r;
          (currentness_raw, r) = rd_u16 r; (_, r) = rd_u16 r; (edge_count, r) = rd_u32 r
      in if rd_failed r \<or> unat edge_count > max_edges_per_lineage limits then None
         else do {
           out \<leftarrow> outcome_of outcome_raw;
           lifecycle \<leftarrow> node_lifecycle_of lifecycle_raw;
           currentness \<leftarrow> currentness_of currentness_raw;
           (let (edges, r) = rd_u64s (unat edge_count) r
            in if rd_failed r then None
               else Some (\<lparr>sa_publisher = publisher, sa_attempt = attempt, sa_request = request,
                       sa_node = node, sa_edges = edges, sa_outcome = out, sa_lifecycle = lifecycle,
                       sa_currentness = currentness\<rparr>, r))
         })"

definition attempt_ok :: "Limits \<Rightarrow> StoredAttempt \<Rightarrow> bool" where
  "attempt_ok limits a \<longleftrightarrow> length (sa_edges a) \<le> max_edges_per_lineage limits
     \<and> length (sa_edges a) < 4294967296"

section \<open>The interpretations\<close>

lemma root_reason_of_raw_code [simp]:
  "root_reason_of_raw (case root of Some r \<Rightarrow> root_reason_code r | None \<Rightarrow> 0) = Some root"
  by (simp add: root_reason_of_raw_def split: option.splits)

lemma flag_simps [simp]:
  "\<not> 1 < flag_byte b" "flag_byte b = 1 \<longleftrightarrow> b"
  by (simp_all add: flag_byte_def)

lemma written_node:
  "written write_node n = store_le64 (n_id n) @ store_le16 (node_kind_code (n_kind n))
     @ store_le16 (reason_code_code (n_reason n)) @ store_le16 (source_class_code (n_source n))
     @ store_le16 (case n_root_reason n of Some r \<Rightarrow> root_reason_code r | None \<Rightarrow> 0)
     @ store_le16 (node_lifecycle_code (n_lifecycle n)) @ store_le16 (currentness_code (n_currentness n))
     @ flag_byte (n_revalidation_required n) # flag_byte (n_revalidated n) # store_le16 0
     @ store_le64 (n_lineage n) @ store_le64 (n_route n) @ store_le64 (n_route_generation n)
     @ store_le64 (opt_raw (n_corrects n)) @ store_le64 (opt_raw (n_corrected_by n))
     @ digest_bytes (n_route_state_digest n) @ flag_byte (n_compacted_digest n \<noteq> None)
     # digest_bytes (case n_compacted_digest n of Some d \<Rightarrow> d | None \<Rightarrow> zero_digest)
     @ written write_evidence (n_evidence n) @ written write_authority (n_authority n)
     @ written write_bindings (n_bindings n)"
  by (simp add: written_def [of write_node] write_node_def wr_all_def wr_flag_def wr_defs
      evidence_codec.appends [of "n_evidence n"] authority_codec.appends [of "n_authority n"]
      bindings_codec.appends [of "n_bindings n"])

interpretation node_codec: record_codec write_node "read_node limits" "node_ok limits" for limits
proof
  show "write_node v w = w @ written write_node v" for v w
    by (simp add: written_node write_node_def wr_all_def wr_flag_def wr_defs
        evidence_codec.appends [of "n_evidence v"] authority_codec.appends [of "n_authority v"]
        bindings_codec.appends [of "n_bindings v"])
  show "node_ok limits v \<Longrightarrow> read_node limits (reader_at pre (written write_node v @ rest))
      = Some (v, reader_at (pre @ written write_node v) rest)" for v pre rest
    by (cases "n_compacted_digest v")
       (simp_all add: written_node read_node_def node_ok_def evidence_codec.round_trip
        authority_codec.round_trip bindings_codec.round_trip)
  show "read_node limits r = Some (v, r') \<Longrightarrow> node_ok limits v" for r v r'
    by (auto simp: read_node_def node_ok_def Let_def
        split: prod.splits if_splits Option.bind_splits dest: evidence_codec.sound authority_codec.sound)
qed

lemma written_edge:
  "written write_edge e = store_le64 (e_id e) @ store_le64 (e_derivation e) @ store_le64 (e_lineage e)
     @ store_le16 (edge_type_code (e_type e)) @ store_le16 (reason_code_code (e_reason e))
     @ store_le16 (source_class_code (e_source e)) @ store_le16 0 @ store_le64 (e_from e)
     @ store_le64 (e_to e) @ store_le64 (e_predecessor_route_generation e)
     @ store_le64 (e_successor_route_generation e) @ written write_evidence (e_evidence e)
     @ written write_authority (e_authority e)"
  by (simp add: written_def [of write_edge] write_edge_def wr_all_def wr_defs
      evidence_codec.appends [of "e_evidence e"] authority_codec.appends [of "e_authority e"])

interpretation edge_codec: record_codec write_edge "read_edge limits" "edge_ok limits" for limits
proof
  show "write_edge v w = w @ written write_edge v" for v w
    by (simp add: written_edge write_edge_def wr_all_def wr_defs
        evidence_codec.appends [of "e_evidence v"] authority_codec.appends [of "e_authority v"])
  show "edge_ok limits v \<Longrightarrow> read_edge limits (reader_at pre (written write_edge v @ rest))
      = Some (v, reader_at (pre @ written write_edge v) rest)" for v pre rest
    by (simp add: written_edge read_edge_def edge_ok_def evidence_codec.round_trip authority_codec.round_trip)
  show "read_edge limits r = Some (v, r') \<Longrightarrow> edge_ok limits v" for r v r'
    by (auto simp: read_edge_def edge_ok_def Let_def
        split: prod.splits if_splits Option.bind_splits dest: evidence_codec.sound authority_codec.sound)
qed

lemma rd_u64s_written [simp]:
  "rd_u64s (length vs) (reader_at pre (concat (map store_le64 vs) @ rest))
     = (vs, reader_at (pre @ concat (map store_le64 vs)) rest)"
  by (induction vs arbitrary: pre) simp_all

lemma rd_u64s_length: "rd_u64s k r = (vs, r') \<Longrightarrow> length vs = k"
  by (induction k arbitrary: r vs) (auto split: prod.splits)

lemma wr_list_u64: "wr_list wr_u64 vs w = w @ concat (map store_le64 vs)"
  by (induction vs arbitrary: w) (simp_all add: wr_list_def wr_u64_def)

lemma written_attempt:
  "written write_attempt a = store_le64 (sa_publisher a) @ store_le64 (sa_attempt a)
     @ digest_bytes (sa_request a) @ store_le64 (sa_node a) @ store_le16 (outcome_code (sa_outcome a))
     @ store_le16 (node_lifecycle_code (sa_lifecycle a)) @ store_le16 (currentness_code (sa_currentness a))
     @ store_le16 0 @ store_le32 (of_nat (length (sa_edges a))) @ concat (map store_le64 (sa_edges a))"
  by (simp add: written_def [of write_attempt] write_attempt_def wr_all_def wr_defs wr_list_u64)

interpretation attempt_codec: record_codec write_attempt "read_attempt limits" "attempt_ok limits" for limits
proof
  show "write_attempt v w = w @ written write_attempt v" for v w
    by (simp add: written_attempt write_attempt_def wr_all_def wr_defs wr_list_u64)
  show "attempt_ok limits v \<Longrightarrow> read_attempt limits (reader_at pre (written write_attempt v @ rest))
      = Some (v, reader_at (pre @ written write_attempt v) rest)" for v pre rest
    by (simp add: written_attempt read_attempt_def attempt_ok_def unat_of_nat_u32)
  show "read_attempt limits r = Some (v, r') \<Longrightarrow> attempt_ok limits v" for r v r'
    using unat_u32_lt
    by (auto simp: read_attempt_def attempt_ok_def Let_def dest!: rd_u64s_length
        split: prod.splits if_splits Option.bind_splits)
qed

text \<open>
  C33: A record survives storage and the wire. Writing a provenance record, a derivation or an attempt
  after any bytes and reading at that position gives the same record back and leaves the reader
  exactly behind it, whatever follows, provided the value respects the invariants of its classes
  (canonical evidence within the bounds, factory-made scopes, no present-but-invalid optional). And
  whatever bytes a record is read from, the result respects those invariants, so reading, writing and
  reading again is the identity.
\<close>

theorem record_round_trip:
  "(node_ok limits n \<longrightarrow> read_node limits (reader_at pre (write_node n [] @ rest))
       = Some (n, reader_at (pre @ write_node n []) rest))
   \<and> (edge_ok limits e \<longrightarrow> read_edge limits (reader_at pre (write_edge e [] @ rest))
       = Some (e, reader_at (pre @ write_edge e []) rest))
   \<and> (attempt_ok limits a \<longrightarrow> read_attempt limits (reader_at pre (write_attempt a [] @ rest))
       = Some (a, reader_at (pre @ write_attempt a []) rest))
   \<and> (\<forall>r r'. read_node limits r = Some (n, r') \<longrightarrow> node_ok limits n)
   \<and> (\<forall>r r'. read_edge limits r = Some (e, r') \<longrightarrow> edge_ok limits e)
   \<and> (\<forall>r r'. read_attempt limits r = Some (a, r') \<longrightarrow> attempt_ok limits a)"
  unfolding written_def [symmetric]
  by (auto simp: node_codec.round_trip edge_codec.round_trip attempt_codec.round_trip
      dest: node_codec.sound edge_codec.sound attempt_codec.sound)

theorem record_round_trip_witness:
  "read_node default_limits (rd_open (write_node (sample_node 4) []))
     = Some (sample_node 4, reader_at (write_node (sample_node 4) []) [])"
proof -
  have "node_ok default_limits (sample_node 4)"
    by (simp add: node_ok_def sample_node_def evidence_ok_def evidence_canonical_def default_limits_def
        authority_ok_def sample_authority_def authority_wf_def scope_wf_def scope_fabric_def)
  then show ?thesis
    using record_round_trip [of default_limits "sample_node 4" "[]" "[]"] by (simp add: rd_open_at)
qed

end
