(* ===== verification/Ordered_Map.thy ===== *)
theory Ordered_Map
  imports Prelude "HOL-Library.Product_Lexorder"
begin

text \<open>
  The ordered containers of the C++ standard library the sources use: \<^verbatim>\<open>std::map\<close> is the type
  \<open>('k, 'v) omap\<close> of association lists in strictly ascending key order, \<^verbatim>\<open>std::set\<close> the type
  \<open>'k oset\<close>. Iteration is in key order, so the entry list is canonical: two maps with the same
  lookups are equal. The locale \<open>ordered_map\<close> is the interface the components use (lookup,
  assignment, insertion-if-absent, entries in order); it is interpreted on \<open>omap\<close> below.
\<close>

section \<open>Association lists in key order\<close>

fun ins_list :: "'k::linorder \<Rightarrow> 'v \<Rightarrow> ('k \<times> 'v) list \<Rightarrow> ('k \<times> 'v) list" where
  "ins_list k v [] = [(k, v)]"
| "ins_list k v ((a, b) # ps) =
     (if k < a then (k, v) # (a, b) # ps
      else if k = a then (k, v) # ps
      else (a, b) # ins_list k v ps)"

fun rem_list :: "'k::linorder \<Rightarrow> ('k \<times> 'v) list \<Rightarrow> ('k \<times> 'v) list" where
  "rem_list k [] = []"
| "rem_list k ((a, b) # ps) = (if k = a then ps else (a, b) # rem_list k ps)"

abbreviation keys_sorted :: "('k::linorder \<times> 'v) list \<Rightarrow> bool" where
  "keys_sorted ps \<equiv> sorted_wrt (<) (map fst ps)"

lemma set_keys_ins_list [simp]: "fst ` set (ins_list k v ps) = insert k (fst ` set ps)"
  by (induction k v ps rule: ins_list.induct) auto

lemma keys_sorted_ins_list: "keys_sorted ps \<Longrightarrow> keys_sorted (ins_list k v ps)"
proof (induction k v ps rule: ins_list.induct)
  case (2 k v a b ps)
  have "\<forall>x \<in> fst ` set (ins_list k v ps). a < x" if "a < k"
    using 2 that by auto
  then show ?case using 2 by (auto simp: not_less)
qed simp

lemma map_of_ins_list [simp]: "map_of (ins_list k v ps) = (map_of ps)(k \<mapsto> v)"
  by (induction k v ps rule: ins_list.induct) (auto simp: fun_eq_iff)

lemma keys_sorted_rem_list: "keys_sorted ps \<Longrightarrow> keys_sorted (rem_list k ps)"
proof (induction k ps rule: rem_list.induct)
  case (2 k a b ps)
  have "set (rem_list k ps) \<subseteq> set ps"
    by (induction k ps rule: rem_list.induct) auto
  then show ?case using 2 by (auto 0 3)
qed simp

lemma map_of_rem_list: "keys_sorted ps \<Longrightarrow> map_of (rem_list k ps) = (map_of ps)(k := None)"
proof (induction k ps rule: rem_list.induct)
  case (2 k a b ps)
  have "map_of ps a = None" using 2 by (auto simp: map_of_eq_None_iff)
  then show ?case using 2 by (auto simp: fun_eq_iff)
qed simp

lemma entries_from_lookup:
  "distinct (map fst ps) \<Longrightarrow> map (\<lambda>k. (k, the (map_of ps k))) (map fst ps) = ps"
  by (simp add: comp_def) (rule map_idI, auto)

lemma keys_sorted_ext:
  assumes "keys_sorted ps" and "keys_sorted qs" and "map_of ps = map_of qs"
  shows "ps = qs"
proof -
  have "set (map fst ps) = set (map fst qs)"
    using assms(3) by (metis dom_map_of_conv_image_fst list.set_map)
  then have k: "map fst ps = map fst qs"
    by (rule sorted_wrt_less_unique [OF assms(1,2)])
  have "distinct (map fst ps)" "distinct (map fst qs)"
    using assms(1,2) by (auto intro: sorted_wrt_less_distinct)
  then show ?thesis using k assms(3) by (metis entries_from_lookup)
qed

section \<open>The type of ordered maps\<close>

typedef (overloaded) ('k, 'v) omap = "{ps :: ('k::linorder \<times> 'v) list. keys_sorted ps}"
  morphisms om_entries OMap
  by (rule exI [of _ "[]"]) simp

setup_lifting type_definition_omap

lift_definition om_empty :: "('k::linorder, 'v) omap" is "[]" by simp

lift_definition om_put :: "'k::linorder \<Rightarrow> 'v \<Rightarrow> ('k, 'v) omap \<Rightarrow> ('k, 'v) omap" is ins_list
  by (rule keys_sorted_ins_list)

lift_definition om_remove :: "'k::linorder \<Rightarrow> ('k, 'v) omap \<Rightarrow> ('k, 'v) omap" is rem_list
  by (rule keys_sorted_rem_list)

definition om_find :: "('k::linorder, 'v) omap \<Rightarrow> 'k \<Rightarrow> 'v option" where
  "om_find m k = map_of (om_entries m) k"

definition om_keys :: "('k::linorder, 'v) omap \<Rightarrow> 'k list" where
  "om_keys m = map fst (om_entries m)"

definition om_values :: "('k::linorder, 'v) omap \<Rightarrow> 'v list" where
  "om_values m = map snd (om_entries m)"

definition om_size :: "('k::linorder, 'v) omap \<Rightarrow> nat" where
  "om_size m = length (om_entries m)"

definition om_has :: "('k::linorder, 'v) omap \<Rightarrow> 'k \<Rightarrow> bool" where
  "om_has m k \<longleftrightarrow> om_find m k \<noteq> None"

text \<open>\<^verbatim>\<open>emplace\<close> and \<^verbatim>\<open>try_emplace\<close>: an entry that is already present is kept.\<close>

definition om_emplace :: "'k::linorder \<Rightarrow> 'v \<Rightarrow> ('k, 'v) omap \<Rightarrow> ('k, 'v) omap" where
  "om_emplace k v m = (case om_find m k of Some _ \<Rightarrow> m | None \<Rightarrow> om_put k v m)"

text \<open>\<^verbatim>\<open>m[k]\<close> read as an lvalue: the default value where the key is absent.\<close>

definition om_get :: "'v \<Rightarrow> ('k::linorder, 'v) omap \<Rightarrow> 'k \<Rightarrow> 'v" where
  "om_get d m k = (case om_find m k of Some v \<Rightarrow> v | None \<Rightarrow> d)"

lemma om_entries_sorted: "keys_sorted (om_entries m)"
  using om_entries [of m] by simp

lemma om_entries_empty [simp, code abstract]: "om_entries om_empty = []"
  by (rule om_empty.rep_eq)

lemma om_entries_put [simp, code abstract]: "om_entries (om_put k v m) = ins_list k v (om_entries m)"
  by (rule om_put.rep_eq)

lemma om_entries_remove [simp, code abstract]: "om_entries (om_remove k m) = rem_list k (om_entries m)"
  by (rule om_remove.rep_eq)

lemma om_find_empty [simp]: "om_find om_empty k = None"
  by (simp add: om_find_def)

lemma om_find_put [simp]: "om_find (om_put k v m) = (om_find m)(k \<mapsto> v)"
  by (simp add: om_find_def fun_eq_iff)

lemma om_find_remove: "om_find (om_remove k m) = (om_find m)(k := None)"
  using om_entries_sorted [of m] by (simp add: om_find_def fun_eq_iff map_of_rem_list)

lemma om_find_emplace: "om_find (om_emplace k v m) k' =
    (if k' = k \<and> om_find m k = None then Some v else om_find m k')"
  by (auto simp: om_emplace_def split: option.splits)

lemma om_has_simps [simp]:
  "\<not> om_has om_empty k" "om_has (om_put k v m) k' \<longleftrightarrow> k' = k \<or> om_has m k'"
  "om_has (om_emplace k v m) k' \<longleftrightarrow> k' = k \<or> om_has m k'"
  by (auto simp: om_has_def om_find_emplace)

lemma om_ext: "(\<And>k. om_find m k = om_find n k) \<Longrightarrow> m = n"
  using keys_sorted_ext [OF om_entries_sorted om_entries_sorted, of m n]
  by (simp add: om_find_def fun_eq_iff om_entries_inject)

lemma distinct_om_keys [simp]: "distinct (om_keys m)"
  using om_entries_sorted [of m] by (simp add: om_keys_def sorted_wrt_less_distinct)

lemma sorted_om_keys: "sorted_wrt (<) (om_keys m)"
  using om_entries_sorted [of m] by (simp add: om_keys_def)

lemma in_entries_iff: "(k, v) \<in> set (om_entries m) \<longleftrightarrow> om_find m k = Some v"
  using distinct_om_keys [of m] by (simp add: om_find_def om_keys_def)

lemma set_om_keys: "set (om_keys m) = {k. om_has m k}"
  by (simp add: om_keys_def om_has_def om_find_def map_of_eq_None_iff)

lemma set_om_values: "v \<in> set (om_values m) \<longleftrightarrow> (\<exists>k. om_find m k = Some v)"
  by (force simp: om_values_def in_entries_iff [symmetric])

lemma length_om_keys [simp]: "length (om_keys m) = om_size m"
  by (simp add: om_keys_def om_size_def)

lemma length_om_values [simp]: "length (om_values m) = om_size m"
  by (simp add: om_values_def om_size_def)

lemma om_size_card: "om_size m = card {k. om_has m k}"
  using distinct_card [OF distinct_om_keys, of m] by (simp add: set_om_keys)

lemma om_size_empty [simp]: "om_size om_empty = 0"
  by (simp add: om_size_def)

lemma finite_om_dom [simp]: "finite {k. om_has m k}"
  by (metis List.finite_set set_om_keys)

lemma om_size_put: "om_size (om_put k v m) = (if om_has m k then om_size m else Suc (om_size m))"
proof -
  have "{k'. om_has (om_put k v m) k'} = insert k {k'. om_has m k'}" by auto
  then show ?thesis by (simp add: om_size_card card_insert_if)
qed

text \<open>Assigning to a key that is present keeps the key list.\<close>

lemma om_keys_put_present: "om_has m k \<Longrightarrow> om_keys (om_put k v m) = om_keys m"
  by (rule sorted_wrt_less_unique [OF sorted_om_keys sorted_om_keys]) (auto simp: set_om_keys)

section \<open>Ordered sets\<close>

type_synonym 'k oset = "('k, unit) omap"

definition os_insert :: "'k::linorder \<Rightarrow> 'k oset \<Rightarrow> 'k oset" where
  "os_insert k s = om_put k () s"

definition os_elems :: "'k::linorder oset \<Rightarrow> 'k list" where
  "os_elems s = om_keys s"

lemma set_os_elems_insert [simp]: "set (os_elems (os_insert k s)) = insert k (set (os_elems s))"
  by (auto simp: os_elems_def os_insert_def set_om_keys)

lemma os_elems_empty [simp]: "os_elems om_empty = []"
  by (simp add: os_elems_def om_keys_def)

section \<open>The interface\<close>

text \<open>
  What the components rely on: a lookup sees the last assignment, the entries are listed in
  ascending key order, and they are exactly the successful lookups. From these laws alone the
  result of a series of assignments does not depend on their order, which is what makes the
  digests of the sources insensitive to insertion order.
\<close>

locale ordered_map =
  fixes none :: 'm and put :: "'k::linorder \<Rightarrow> 'v \<Rightarrow> 'm \<Rightarrow> 'm"
    and look :: "'m \<Rightarrow> 'k \<Rightarrow> 'v option" and entries :: "'m \<Rightarrow> ('k \<times> 'v) list"
  assumes look_none: "look none k = None"
    and look_put: "look (put k v m) k' = (if k' = k then Some v else look m k')"
    and entries_sorted: "sorted_wrt (<) (map fst (entries m))"
    and entries_look: "look m k = map_of (entries m) k"
begin

lemma entries_ext: "(\<And>k. look m k = look n k) \<Longrightarrow> entries m = entries n"
  by (rule keys_sorted_ext [OF entries_sorted entries_sorted]) (simp add: entries_look fun_eq_iff)

lemma look_fold:
  "look (fold (\<lambda>(k, v). put k v) kvs m) k =
     (case map_of (rev kvs) k of Some v \<Rightarrow> Some v | None \<Rightarrow> look m k)"
  by (induction kvs arbitrary: m)
     (auto simp: look_put map_add_def split: option.splits)

lemma insertion_order:
  assumes "distinct (map fst kvs)" and "distinct (map fst lws)" and "set kvs = set lws"
  shows "entries (fold (\<lambda>(k, v). put k v) kvs m) = entries (fold (\<lambda>(k, v). put k v) lws m)"
proof (rule entries_ext)
  have "map_of (rev kvs) = map_of (rev lws)"
    using assms by (simp add: map_of_inject_set rev_map [symmetric])
  then show "look (fold (\<lambda>(k, v). put k v) kvs m) k = look (fold (\<lambda>(k, v). put k v) lws m) k" for k
    by (simp add: look_fold)
qed

lemma put_swap: "k \<noteq> k' \<Longrightarrow> entries (put k v (put k' v' m)) = entries (put k' v' (put k v m))"
  by (rule entries_ext) (simp add: look_put)

end

interpretation omap: ordered_map om_empty om_put om_find om_entries
  by unfold_locales (simp_all add: om_entries_sorted om_find_def)

end
