(* ===== verification/Frame.thy ===== *)
theory Frame
  imports Codec Ordered_Map
begin

text \<open>
  The frame layer and the field bags of \<^verbatim>\<open>src/wire.cpp\<close> and \<^verbatim>\<open>include/route_provenance/wire.hpp\<close>.

  A frame is a fixed 64-byte header, a payload and an integrity digest over both. A payload is a
  \<^verbatim>\<open>FieldBag\<close>: a \<^verbatim>\<open>std::map\<close> from 16-bit field identifiers to byte strings together with its canonical
  encoding, which every assignment rebuilds. As everywhere, the hash is a parameter.
\<close>

section \<open>Little-endian values and their bytes\<close>

lemma store_load_le16:
  assumes "length bs = 2" shows "store_le16 (load_le16 (bs @ rest)) = bs"
proof -
  obtain a b where bs: "bs = [a, b]" using assms by (auto simp: length_Suc_conv numeral_2_eq_2)
  have "ucast ((ucast a OR push_bit 8 (ucast b)) AND 0xFF :: u16) = a"
    "ucast (drop_bit 8 (ucast a OR push_bit 8 (ucast b) :: u16) AND 0xFF) = b"
    unfolding and_masks
    by (rule bit_word_eqI, auto simp: bit_simps dest: bit_imp_le_length)+
  then show ?thesis by (simp add: bs store_le16_def)
qed

lemma store_load_le32:
  assumes "length bs = 4" shows "store_le32 (load_le32 (bs @ rest)) = bs"
proof -
  obtain a b c d where bs: "bs = [a, b, c, d]" using assms by (auto simp: length_Suc_conv eval_nat_numeral)
  let ?v = "ucast a OR push_bit 8 (ucast b) OR push_bit 16 (ucast c) OR push_bit 24 (ucast d) :: u32"
  have "ucast (?v AND 0xFF) = a" "ucast (drop_bit 8 ?v AND 0xFF) = b"
    "ucast (drop_bit 16 ?v AND 0xFF) = c" "ucast (drop_bit 24 ?v AND 0xFF) = d"
    unfolding and_masks
    by (rule bit_word_eqI, auto simp: bit_simps dest: bit_imp_le_length)+
  then show ?thesis by (simp add: bs store_le32_def upt4)
qed

lemma le_bytes_foldr:
  "length bs \<le> 8 \<Longrightarrow> le_bytes (length bs) (foldr (\<lambda>b v. push_bit 8 v OR ucast b) bs 0) = bs
     \<and> take_bit (8 * length bs) (foldr (\<lambda>b v. push_bit 8 v OR ucast b) bs 0 :: u64)
         = foldr (\<lambda>b v. push_bit 8 v OR ucast b) bs 0"
proof (induction bs)
  case (Cons b bs)
  let ?v = "foldr (\<lambda>b v. push_bit 8 v OR ucast b) bs 0 :: u64"
  from Cons have len: "length bs \<le> 7" and v: "take_bit (8 * length bs) ?v = ?v" by simp_all
  have high: "\<not> bit ?v n" if "8 * length bs \<le> n" for n
    by (subst v [symmetric]) (use that in \<open>simp add: bit_take_bit_iff\<close>)
  have 1: "ucast (push_bit 8 ?v OR ucast b) = b"
    by (rule bit_word_eqI) (auto simp: bit_simps)
  have 2: "drop_bit 8 (push_bit 8 ?v OR ucast b) = ?v"
  proof (rule bit_word_eqI)
    fix n assume "n < LENGTH(64)"
    then show "bit (drop_bit 8 (push_bit 8 ?v OR ucast b)) n = bit ?v n"
      using high [of n] len by (cases "n < 56") (auto simp: bit_simps dest: bit_imp_le_length)
  qed
  have 3: "take_bit (8 + 8 * length bs) (push_bit 8 ?v OR ucast b) = push_bit 8 ?v OR ucast b"
  proof (rule bit_word_eqI)
    fix n assume "n < LENGTH(64)"
    then show "bit (take_bit (8 + 8 * length bs) (push_bit 8 ?v OR ucast b)) n = bit (push_bit 8 ?v OR ucast b) n"
      using high [of "n - 8"]
      by (cases "8 + 8 * length bs \<le> n") (auto simp: bit_simps not_less dest: bit_imp_le_length)
  qed
  have 4: "8 * Suc (length bs) = 8 + 8 * length bs" by simp
  from Cons.IH len show ?case
    unfolding foldr.simps comp_apply length_Cons le_bytes.simps 1 2 4 3 by simp
qed simp

lemma store_load_le64:
  assumes "length bs = 8" shows "store_le64 (load_le64 (bs @ rest)) = bs"
  using le_bytes_foldr [of bs] assms by (simp add: store_le64_def load_le64_def le_bytes_map)

section \<open>Frames\<close>

record FrameHeader =
  fh_protocol_version :: u16
  fh_message :: MessageId
  fh_flags :: u16
  fh_epoch :: CoordinatorEpoch
  fh_publisher :: PublisherId
  fh_boot :: WorkerBootId
  fh_attempt :: MutationAttemptId
  fh_payload_bytes :: u32

record DecodedFrame =
  df_header :: FrameHeader
  df_payload :: "byte list"

definition kWireProtocolVersion :: u16 where "kWireProtocolVersion = 1"
definition kFrameHeaderBytes :: nat where "kFrameHeaderBytes = 64"
definition kFrameTrailerBytes :: nat where "kFrameTrailerBytes = 32"
definition kMagicFirst :: u8 where "kMagicFirst = 0x52"
definition kMagicSecond :: u8 where "kMagicSecond = 0x50"

definition frame_header_fields :: "FrameHeader \<Rightarrow> (Encoder \<Rightarrow> Encoder) list" where
  "frame_header_fields h =
    [add_u32 1 kGraphEncodingVersion, add_u16 2 (fh_protocol_version h),
     add_u16 3 (message_id_code (fh_message h)), add_u16 4 (fh_flags h), add_u64 5 (fh_epoch h),
     add_u64 6 (fh_publisher h), add_u64 7 (fh_boot h), add_u64 8 (fh_attempt h),
     add_u32 9 (fh_payload_bytes h)]"

definition frame_digest :: "hash_fun \<Rightarrow> FrameHeader \<Rightarrow> byte list \<Rightarrow> Digest" where
  "frame_digest H h payload = H (encode_seq (frame_header_fields h) @ payload)"

text \<open>The pushes of \<^verbatim>\<open>encode_frame\<close> before the payload; the arithmetic of the push lambdas is little endian.\<close>

definition frame_prefix :: "FrameHeader \<Rightarrow> nat \<Rightarrow> byte list" where
  "frame_prefix h payload_size =
     [kMagicFirst, kMagicSecond] @ store_le16 (fh_protocol_version h)
     @ store_le16 (message_id_code (fh_message h)) @ store_le16 (fh_flags h)
     @ store_le32 (of_nat kFrameHeaderBytes) @ store_le32 (of_nat payload_size)
     @ store_le64 (fh_epoch h) @ store_le64 (fh_publisher h) @ store_le64 (fh_boot h)
     @ store_le64 (fh_attempt h) @ store_le64 0 @ store_le64 0"

definition encode_frame :: "hash_fun \<Rightarrow> FrameHeader \<Rightarrow> byte list \<Rightarrow> Limits \<Rightarrow> Status + byte list" where
  "encode_frame H h payload limits =
     (if message_id_name (fh_message h) = ''UNKNOWN'' then
        Inl (st_failure O_ProtocolFailure ''unknown message identifier'')
      else if fh_protocol_version h \<noteq> kWireProtocolVersion then
        Inl (st_failure O_UnsupportedVersion ''wire protocol version mismatch'')
      else if fh_flags h \<noteq> 0 then
        Inl (st_failure O_MalformedRequest ''unsupported frame flags'')
      else if length payload > max_frame_bytes limits then
        Inl (st_failure O_ResourceLimit ''payload exceeds max_frame_bytes'')
      else if kFrameHeaderBytes + length payload + kFrameTrailerBytes > max_frame_bytes limits then
        Inl (st_failure O_ResourceLimit ''frame exceeds max_frame_bytes'')
      else
        let effective = h\<lparr>fh_payload_bytes := of_nat (length payload)\<rparr>
        in Inr (frame_prefix h (length payload) @ payload @ digest_bytes (frame_digest H effective payload)))"

definition decode_frame :: "hash_fun \<Rightarrow> byte list \<Rightarrow> Limits \<Rightarrow> DecodedFrame Result" where
  "decode_frame H raw limits =
     (if length raw < kFrameHeaderBytes + kFrameTrailerBytes then
        r_failure O_WireIntegrityFailure ''frame is shorter than its envelope''
      else if length raw > max_frame_bytes limits then
        r_failure O_ResourceLimit ''frame exceeds max_frame_bytes''
      else if raw ! 0 \<noteq> kMagicFirst \<or> raw ! 1 \<noteq> kMagicSecond then
        r_failure O_WireIntegrityFailure ''bad frame magic''
      else
        let version = load_le16 (drop 2 raw); message_raw = load_le16 (drop 4 raw);
            flags = load_le16 (drop 6 raw); header_bytes = load_le32 (drop 8 raw);
            payload_bytes = load_le32 (drop 12 raw);
            epoch = load_le64 (drop 16 raw); publisher = load_le64 (drop 24 raw);
            boot = load_le64 (drop 32 raw); attempt = load_le64 (drop 40 raw);
            reserved_a = load_le64 (drop 48 raw); reserved_b = load_le64 (drop 56 raw)
        in if version \<noteq> kWireProtocolVersion then
             r_failure O_UnsupportedVersion ''unsupported wire protocol version''
           else (case parse_message_id message_raw of
             None \<Rightarrow> r_failure O_ProtocolFailure ''unknown message identifier''
           | Some message \<Rightarrow>
               if flags \<noteq> 0 then r_failure O_ProtocolFailure ''unsupported frame flags''
               else if header_bytes \<noteq> of_nat kFrameHeaderBytes then
                 r_failure O_ProtocolFailure ''unexpected frame header size''
               else if reserved_a \<noteq> 0 \<or> reserved_b \<noteq> 0 then
                 r_failure O_ProtocolFailure ''non-zero reserved frame field''
               else if unat payload_bytes > max_frame_bytes limits then
                 r_failure O_ResourceLimit ''frame payload exceeds max_frame_bytes''
               else if kFrameHeaderBytes + unat payload_bytes + kFrameTrailerBytes \<noteq> length raw then
                 r_failure O_WireIntegrityFailure ''frame size does not match its header''
               else
                 let h = \<lparr>fh_protocol_version = version, fh_message = message, fh_flags = flags,
                       fh_epoch = epoch, fh_publisher = publisher, fh_boot = boot, fh_attempt = attempt,
                       fh_payload_bytes = payload_bytes\<rparr>;
                     payload = take (unat payload_bytes) (drop kFrameHeaderBytes raw)
                 in if digest_bytes (frame_digest H h payload)
                       \<noteq> take kFrameTrailerBytes (drop (kFrameHeaderBytes + unat payload_bytes) raw) then
                      r_failure O_WireIntegrityFailure ''frame integrity check failed''
                    else r_ok \<lparr>df_header = h, df_payload = payload\<rparr>))"

lemma length_frame_prefix [simp]: "length (frame_prefix h n) = 64"
  by (simp add: frame_prefix_def)

text \<open>What the loads of \<^verbatim>\<open>decode_frame\<close> see at the start of a frame.\<close>

lemma frame_prefix_loads:
  fixes rest h n defines "raw \<equiv> frame_prefix h n @ rest"
  shows "raw ! 0 = kMagicFirst" "raw ! 1 = kMagicSecond"
    "load_le16 (drop 2 raw) = fh_protocol_version h"
    "load_le16 (drop 4 raw) = message_id_code (fh_message h)" "load_le16 (drop 6 raw) = fh_flags h"
    "load_le32 (drop 8 raw) = of_nat kFrameHeaderBytes" "load_le32 (drop 12 raw) = of_nat n"
    "load_le64 (drop 16 raw) = fh_epoch h" "load_le64 (drop 24 raw) = fh_publisher h"
    "load_le64 (drop 32 raw) = fh_boot h" "load_le64 (drop 40 raw) = fh_attempt h"
    "load_le64 (drop 48 raw) = 0" "load_le64 (drop 56 raw) = 0"
  by (simp_all add: raw_def frame_prefix_def drop_append load_store_le16 load_store_le32 load_store_le64)

text \<open>And conversely: a frame whose loads are these starts with these bytes.\<close>

lemma load_parts:
  "k + 2 \<le> length raw \<Longrightarrow> drop k raw = store_le16 (load_le16 (drop k raw)) @ drop (k + 2) raw"
  "k + 4 \<le> length raw \<Longrightarrow> drop k raw = store_le32 (load_le32 (drop k raw)) @ drop (k + 4) raw"
  "k + 8 \<le> length raw \<Longrightarrow> drop k raw = store_le64 (load_le64 (drop k raw)) @ drop (k + 8) raw"
proof -
  have split: "drop k raw = take n (drop k raw) @ drop (k + n) raw" for n
    by (metis append_take_drop_id drop_drop add.commute)
  have len: "length (take n (drop k raw)) = n" if "k + n \<le> length raw" for n
    using that by simp
  show "k + 2 \<le> length raw \<Longrightarrow> drop k raw = store_le16 (load_le16 (drop k raw)) @ drop (k + 2) raw"
    using store_load_le16 [OF len [of 2], of "drop (k + 2) raw"] split [of 2] by simp
  show "k + 4 \<le> length raw \<Longrightarrow> drop k raw = store_le32 (load_le32 (drop k raw)) @ drop (k + 4) raw"
    using store_load_le32 [OF len [of 4], of "drop (k + 4) raw"] split [of 4] by simp
  show "k + 8 \<le> length raw \<Longrightarrow> drop k raw = store_le64 (load_le64 (drop k raw)) @ drop (k + 8) raw"
    using store_load_le64 [OF len [of 8], of "drop (k + 8) raw"] split [of 8] by simp
qed

lemma frame_split:
  assumes "length raw \<ge> 64"
  shows "raw = [raw ! 0, raw ! 1] @ store_le16 (load_le16 (drop 2 raw)) @ store_le16 (load_le16 (drop 4 raw))
     @ store_le16 (load_le16 (drop 6 raw)) @ store_le32 (load_le32 (drop 8 raw))
     @ store_le32 (load_le32 (drop 12 raw)) @ store_le64 (load_le64 (drop 16 raw))
     @ store_le64 (load_le64 (drop 24 raw)) @ store_le64 (load_le64 (drop 32 raw))
     @ store_le64 (load_le64 (drop 40 raw)) @ store_le64 (load_le64 (drop 48 raw))
     @ store_le64 (load_le64 (drop 56 raw)) @ drop 64 raw"
proof -
  have "raw = [raw ! 0, raw ! 1] @ drop 2 raw"
    using assms by (cases raw; cases "tl raw") (auto simp: numeral_2_eq_2)
  moreover have "drop 2 raw = store_le16 (load_le16 (drop 2 raw)) @ drop 4 raw"
    "drop 4 raw = store_le16 (load_le16 (drop 4 raw)) @ drop 6 raw"
    "drop 6 raw = store_le16 (load_le16 (drop 6 raw)) @ drop 8 raw"
    "drop 8 raw = store_le32 (load_le32 (drop 8 raw)) @ drop 12 raw"
    "drop 12 raw = store_le32 (load_le32 (drop 12 raw)) @ drop 16 raw"
    "drop 16 raw = store_le64 (load_le64 (drop 16 raw)) @ drop 24 raw"
    "drop 24 raw = store_le64 (load_le64 (drop 24 raw)) @ drop 32 raw"
    "drop 32 raw = store_le64 (load_le64 (drop 32 raw)) @ drop 40 raw"
    "drop 40 raw = store_le64 (load_le64 (drop 40 raw)) @ drop 48 raw"
    "drop 48 raw = store_le64 (load_le64 (drop 48 raw)) @ drop 56 raw"
    "drop 56 raw = store_le64 (load_le64 (drop 56 raw)) @ drop 64 raw"
    using load_parts(1) [of 2 raw] load_parts(1) [of 4 raw] load_parts(1) [of 6 raw] load_parts(2) [of 8 raw]
      load_parts(2) [of 12 raw] load_parts(3) [of 16 raw] load_parts(3) [of 24 raw] load_parts(3) [of 32 raw]
      load_parts(3) [of 40 raw] load_parts(3) [of 48 raw] load_parts(3) [of 56 raw] assms
    by simp_all
  ultimately show ?thesis by metis
qed

lemma message_id_parse [simp]: "parse_message_id (message_id_code m) = Some m"
  by (simp add: parse_message_id_def message_id_tab.code_roundtrip)

lemma message_id_parse_code: "parse_message_id raw = Some m \<Longrightarrow> raw = message_id_code m"
  by (auto simp: parse_message_id_def lookup_code_def dest: find_SomeD split: option.splits)

lemma message_id_known [simp]: "message_id_name m \<noteq> ''UNKNOWN''"
  by (cases m) (simp_all add: message_id_name_def lookup_name_def kMessageIds_def)

lemma encode_frame_fits:
  "fh_protocol_version h = kWireProtocolVersion \<Longrightarrow> fh_flags h = 0 \<Longrightarrow> length payload + 96 \<le> max_frame_bytes limits \<Longrightarrow>
     \<exists>raw. encode_frame H h payload limits = Inr raw"
  by (simp add: encode_frame_def kFrameHeaderBytes_def kFrameTrailerBytes_def Let_def)

lemma decode_encoded_frame:
  assumes "max_frame_bytes limits < 4294967296" and "encode_frame H h payload limits = Inr raw"
  shows "decode_frame H raw limits
    = r_ok \<lparr>df_header = h\<lparr>fh_payload_bytes := of_nat (length payload)\<rparr>, df_payload = payload\<rparr>"
proof -
  let ?h = "h\<lparr>fh_payload_bytes := of_nat (length payload)\<rparr>"
  have raw: "raw = frame_prefix h (length payload) @ payload @ digest_bytes (frame_digest H ?h payload)"
    and ok: "fh_protocol_version h = kWireProtocolVersion" "fh_flags h = 0"
      "length payload \<le> max_frame_bytes limits" "length payload + 96 \<le> max_frame_bytes limits"
    using assms(2) by (auto simp: encode_frame_def kFrameHeaderBytes_def kFrameTrailerBytes_def Let_def
        split: if_splits)
  have n: "unat (of_nat (length payload) :: u32) = length payload"
    using ok(3) assms(1) by (simp add: unat_of_nat_u32)
  have h: "\<lparr>fh_protocol_version = kWireProtocolVersion, fh_message = fh_message h, fh_flags = 0,
      fh_epoch = fh_epoch h, fh_publisher = fh_publisher h, fh_boot = fh_boot h, fh_attempt = fh_attempt h,
      fh_payload_bytes = of_nat (length payload)\<rparr> = ?h"
    using ok by (cases h) simp
  note loads = frame_prefix_loads [of h "length payload"
      "payload @ digest_bytes (frame_digest H ?h payload)", folded raw]
  have len: "length raw = 64 + length payload + 32" by (simp add: raw)
  have parts: "take (length payload) (drop 64 raw) = payload"
    "take 32 (drop (64 + length payload) raw) = digest_bytes (frame_digest H ?h payload)"
    by (simp_all add: raw)
  show ?thesis
    unfolding decode_frame_def loads kFrameHeaderBytes_def kFrameTrailerBytes_def
    using ok by (simp add: len n parts h Let_def)
qed

lemma decode_frame_canonical:
  assumes "r_value (decode_frame H raw limits) = Some d"
  shows "encode_frame H (df_header d) (df_payload d) limits = Inr raw"
    and "fh_payload_bytes (df_header d) = of_nat (length (df_payload d))"
proof -
  let ?p = "load_le32 (drop 12 raw)"
  let ?h = "\<lambda>m. \<lparr>fh_protocol_version = kWireProtocolVersion, fh_message = m, fh_flags = 0,
      fh_epoch = load_le64 (drop 16 raw), fh_publisher = load_le64 (drop 24 raw),
      fh_boot = load_le64 (drop 32 raw), fh_attempt = load_le64 (drop 40 raw), fh_payload_bytes = ?p\<rparr>"
  from assms obtain m where len: "96 \<le> length raw" "length raw \<le> max_frame_bytes limits"
    and magic: "raw ! 0 = kMagicFirst" "raw ! 1 = kMagicSecond"
    and l: "load_le16 (drop 2 raw) = kWireProtocolVersion" "load_le16 (drop 6 raw) = 0"
    and m: "parse_message_id (load_le16 (drop 4 raw)) = Some m"
    and z: "load_le32 (drop 8 raw) = of_nat kFrameHeaderBytes" "load_le64 (drop 48 raw) = 0" "load_le64 (drop 56 raw) = 0"
    and p: "unat ?p \<le> max_frame_bytes limits" "64 + unat ?p + 32 = length raw"
    and d': "d = \<lparr>df_header = ?h m, df_payload = take (unat ?p) (drop 64 raw)\<rparr>"
    and t': "digest_bytes (frame_digest H (?h m) (take (unat ?p) (drop 64 raw))) = take 32 (drop (64 + unat ?p) raw)"
    by (auto simp: decode_frame_def kFrameHeaderBytes_def kFrameTrailerBytes_def Let_def
        split: if_splits option.splits)
  define h where "h = ?h m"
  have d: "d = \<lparr>df_header = h, df_payload = take (unat ?p) (drop 64 raw)\<rparr>"
    and t: "digest_bytes (frame_digest H h (take (unat ?p) (drop 64 raw))) = take 32 (drop (64 + unat ?p) raw)"
    using d' t' by (simp_all add: h_def)
  have h: "fh_protocol_version h = kWireProtocolVersion" "load_le16 (drop 4 raw) = message_id_code (fh_message h)"
      "fh_flags h = 0" "fh_epoch h = load_le64 (drop 16 raw)" "fh_publisher h = load_le64 (drop 24 raw)"
      "fh_boot h = load_le64 (drop 32 raw)" "fh_attempt h = load_le64 (drop 40 raw)" "fh_payload_bytes h = ?p"
    using message_id_parse_code [OF m] by (simp_all add: h_def)
  define payload where "payload = take (unat ?p) (drop 64 raw)"
  note d = d [folded payload_def] and t = t [folded payload_def]
  have n: "length payload = unat ?p" using p(2) by (simp add: payload_def)
  then have pb: "fh_payload_bytes h = of_nat (length payload)" by (simp add: h)
  then show "fh_payload_bytes (df_header d) = of_nat (length (df_payload d))" by (simp add: d)
  have pre: "frame_prefix h (length payload) @ drop 64 raw = raw"
    unfolding n
    by (rule trans [OF _ frame_split [symmetric]])
      (use len(1) in \<open>simp_all add: frame_prefix_def h l z magic magic(2) [simplified]\<close>)
  have "drop 64 raw = payload @ drop (64 + unat ?p) raw"
    using append_take_drop_id [of "unat ?p" "drop 64 raw"] by (simp add: payload_def add.commute)
  moreover have "drop (64 + unat ?p) raw = take 32 (drop (64 + unat ?p) raw)" using p(2) by simp
  ultimately have post: "drop 64 raw = payload @ digest_bytes (frame_digest H h payload)" using t by simp
  have eff: "h\<lparr>fh_payload_bytes := of_nat (length payload)\<rparr> = h" unfolding pb [symmetric] by simp
  have "length payload \<le> max_frame_bytes limits" "64 + length payload + 32 \<le> max_frame_bytes limits"
    using p len by (simp_all add: n)
  then show "encode_frame H (df_header d) (df_payload d) limits = Inr raw"
    using pre [unfolded post] h(1,3) unfolding d DecodedFrame.select_convs
    by (simp only: encode_frame_def kFrameHeaderBytes_def kFrameTrailerBytes_def Let_def eff not_less [symmetric]
        message_id_known if_False simp_thms)
qed

text \<open>
  C39: A frame arrives as it was sent. Whatever header and payload are framed, decoding the bytes gives
  them back, with the payload length filled in. And whatever bytes are accepted as a frame are the very
  bytes the encoder makes of the header and payload they were read as: a frame has one encoding, nothing
  in it is ignored, and it is within the frame bound.
\<close>

theorem frame_round_trip:
  assumes "max_frame_bytes limits < 4294967296"
  shows "(encode_frame H h payload limits = Inr raw \<longrightarrow> decode_frame H raw limits
        = r_ok \<lparr>df_header = h\<lparr>fh_payload_bytes := of_nat (length payload)\<rparr>, df_payload = payload\<rparr>)
   \<and> (r_value (decode_frame H raw limits) = Some d \<longrightarrow>
        encode_frame H (df_header d) (df_payload d) limits = Inr raw
        \<and> fh_payload_bytes (df_header d) = of_nat (length (df_payload d))
        \<and> length raw = length (df_payload d) + 96 \<and> length raw \<le> max_frame_bytes limits)"
proof (intro conjI impI)
  assume r: "r_value (decode_frame H raw limits) = Some d"
  note e = decode_frame_canonical(1) [OF r]
  show "encode_frame H (df_header d) (df_payload d) limits = Inr raw" by (rule e)
  show "fh_payload_bytes (df_header d) = of_nat (length (df_payload d))" by (rule decode_frame_canonical(2) [OF r])
  show "length raw = length (df_payload d) + 96" "length raw \<le> max_frame_bytes limits"
    using e by (auto simp: encode_frame_def kFrameHeaderBytes_def kFrameTrailerBytes_def Let_def split: if_splits)
qed (simp add: decode_encoded_frame [OF assms])

text \<open>A frame with a payload of two bytes, framed under the example hash.\<close>

definition sample_frame_limits :: Limits where
  "sample_frame_limits = default_limits\<lparr>max_frame_bytes := 200\<rparr>"

definition sample_header :: FrameHeader where
  "sample_header = \<lparr>fh_protocol_version = kWireProtocolVersion, fh_message = MI_Ping, fh_flags = 0, fh_epoch = 1,
     fh_publisher = 1, fh_boot = 2, fh_attempt = 3, fh_payload_bytes = 0\<rparr>"

definition sample_frame :: "byte list" where
  "sample_frame = (case encode_frame sample_hash sample_header [7, 9] sample_frame_limits of Inr raw \<Rightarrow> raw | Inl _ \<Rightarrow> [])"

theorem frame_round_trip_witness:
  "encode_frame sample_hash sample_header [7, 9] sample_frame_limits = Inr sample_frame
   \<and> decode_frame sample_hash sample_frame sample_frame_limits
      = r_ok \<lparr>df_header = sample_header\<lparr>fh_payload_bytes := 2\<rparr>, df_payload = [7, 9]\<rparr>"
proof
  show e: "encode_frame sample_hash sample_header [7, 9] sample_frame_limits = Inr sample_frame"
    by (simp add: sample_frame_def encode_frame_def message_id_known sample_header_def sample_frame_limits_def
        kFrameHeaderBytes_def kFrameTrailerBytes_def Let_def)
  have "max_frame_bytes sample_frame_limits < 4294967296" by (simp add: sample_frame_limits_def)
  from frame_round_trip [OF this] e
  show "decode_frame sample_hash sample_frame sample_frame_limits
      = r_ok \<lparr>df_header = sample_header\<lparr>fh_payload_bytes := 2\<rparr>, df_payload = [7, 9]\<rparr>"
    by fastforce
qed

end
