(* ===== verification/Field_Bag.thy ===== *)
theory Field_Bag
  imports Frame
begin

text \<open>
  The payload of a message, \<^verbatim>\<open>class FieldBag\<close> of \<^verbatim>\<open>wire.hpp\<close>: fields by identifier, and the canonical
  encoding that \<^verbatim>\<open>rebuild\<close> recomputes at every assignment. The second half is the cursor idiom of the
  composite sections (\<^verbatim>\<open>next()\<close> in \<^verbatim>\<open>put_bindings\<close>, \<^verbatim>\<open>put_edges\<close> and their readers) and its contract, the
  locale \<open>section_codec\<close>.
\<close>

section \<open>The field bag\<close>

record FieldBag =
  fb_fields :: "(u16, byte list) omap"
  fb_encoded :: "byte list"

definition fb_empty :: FieldBag where
  "fb_empty = \<lparr>fb_fields = om_empty, fb_encoded = []\<rparr>"

definition fb_rebuild :: "FieldBag \<Rightarrow> FieldBag" where
  "fb_rebuild bag = bag\<lparr>fb_encoded :=
     concat (map (\<lambda>(field, value). store_le16 field @ store_le32 (of_nat (length value)) @ value)
       (om_entries (fb_fields bag)))\<rparr>"

definition fb_set_bytes :: "u16 \<Rightarrow> byte list \<Rightarrow> FieldBag \<Rightarrow> FieldBag" where
  "fb_set_bytes field value bag = fb_rebuild (bag\<lparr>fb_fields := om_put field value (fb_fields bag)\<rparr>)"

definition fb_set_u8 :: "u16 \<Rightarrow> u8 \<Rightarrow> FieldBag \<Rightarrow> FieldBag" where
  "fb_set_u8 field v bag = fb_rebuild (bag\<lparr>fb_fields := om_put field [v] (fb_fields bag)\<rparr>)"

definition fb_set_bool :: "u16 \<Rightarrow> bool \<Rightarrow> FieldBag \<Rightarrow> FieldBag" where
  "fb_set_bool field v = fb_set_u8 field (if v then 1 else 0)"

definition fb_set_u16 :: "u16 \<Rightarrow> u16 \<Rightarrow> FieldBag \<Rightarrow> FieldBag" where
  "fb_set_u16 field v = fb_set_bytes field (store_le16 v)"

definition fb_set_u32 :: "u16 \<Rightarrow> u32 \<Rightarrow> FieldBag \<Rightarrow> FieldBag" where
  "fb_set_u32 field v = fb_set_bytes field (store_le32 v)"

definition fb_set_u64 :: "u16 \<Rightarrow> u64 \<Rightarrow> FieldBag \<Rightarrow> FieldBag" where
  "fb_set_u64 field v = fb_set_bytes field (store_le64 v)"

definition fb_set_text :: "u16 \<Rightarrow> string \<Rightarrow> FieldBag \<Rightarrow> FieldBag" where
  "fb_set_text field v = fb_set_bytes field (string_bytes v)"

definition fb_set_digest :: "u16 \<Rightarrow> Digest \<Rightarrow> FieldBag \<Rightarrow> FieldBag" where
  "fb_set_digest field v = fb_set_bytes field (digest_bytes v)"

definition fb_set_nested :: "u16 \<Rightarrow> FieldBag \<Rightarrow> FieldBag \<Rightarrow> FieldBag" where
  "fb_set_nested field v = fb_set_bytes field (fb_encoded v)"

definition fb_find :: "FieldBag \<Rightarrow> u16 \<Rightarrow> byte list option" where
  "fb_find bag field = om_find (fb_fields bag) field"

definition fb_has :: "FieldBag \<Rightarrow> u16 \<Rightarrow> bool" where
  "fb_has bag field \<longleftrightarrow> fb_find bag field \<noteq> None"

definition fb_field_ids :: "FieldBag \<Rightarrow> u16 list" where
  "fb_field_ids bag = om_keys (fb_fields bag)"

text \<open>The loop of \<^verbatim>\<open>FieldBag::decode\<close> over the bytes from the cursor on.\<close>

function decode_fields :: "byte list \<Rightarrow> (u16, byte list) omap \<Rightarrow> Status + (u16, byte list) omap" where
  "decode_fields encoded m =
     (if encoded = [] then Inr m
      else if length encoded < 6 then
        Inl (st_failure O_ProtocolFailure ''truncated payload field header'')
      else
        let field = load_le16 encoded; len = unat (load_le32 (drop 2 encoded)); rest = drop 6 encoded
        in if len > length rest then
             Inl (st_failure O_ProtocolFailure ''truncated payload field body'')
           else if om_has m field then
             Inl (st_failure O_ProtocolFailure ''duplicate payload field identifier'')
           else decode_fields (drop len rest) (om_put field (take len rest) m))"
  by pat_completeness auto
termination by (relation "measure (\<lambda>(encoded, _). length encoded)") auto

declare decode_fields.simps [simp del]

definition fb_decode :: "byte list \<Rightarrow> Limits \<Rightarrow> FieldBag Result" where
  "fb_decode encoded limits =
     (if length encoded > max_frame_bytes limits then
        r_failure O_ResourceLimit ''payload exceeds max_frame_bytes''
      else
        (case decode_fields encoded om_empty of
           Inl s \<Rightarrow> r_failure (st_outcome s) (st_detail s)
         | Inr m \<Rightarrow> r_ok (fb_rebuild \<lparr>fb_fields = m, fb_encoded = []\<rparr>)))"

text \<open>The typed reads: absent, or of another size, is \<^verbatim>\<open>nullopt\<close>.\<close>

definition fb_fixed :: "nat \<Rightarrow> (byte list \<Rightarrow> 'a) \<Rightarrow> FieldBag \<Rightarrow> u16 \<Rightarrow> 'a option" where
  "fb_fixed expected load bag field =
     (case fb_find bag field of
        None \<Rightarrow> None
      | Some value \<Rightarrow> if length value \<noteq> expected then None else Some (load value))"

definition fb_u8 :: "FieldBag \<Rightarrow> u16 \<Rightarrow> u8 option" where
  "fb_u8 = fb_fixed 1 hd"

definition fb_boolean :: "FieldBag \<Rightarrow> u16 \<Rightarrow> bool option" where
  "fb_boolean bag field =
     (case fb_u8 bag field of None \<Rightarrow> None | Some v \<Rightarrow> if v > 1 then None else Some (v = 1))"

definition fb_u16 :: "FieldBag \<Rightarrow> u16 \<Rightarrow> u16 option" where
  "fb_u16 = fb_fixed 2 load_le16"

definition fb_u32 :: "FieldBag \<Rightarrow> u16 \<Rightarrow> u32 option" where
  "fb_u32 = fb_fixed 4 load_le32"

definition fb_u64 :: "FieldBag \<Rightarrow> u16 \<Rightarrow> u64 option" where
  "fb_u64 = fb_fixed 8 load_le64"

definition fb_digest :: "FieldBag \<Rightarrow> u16 \<Rightarrow> Digest option" where
  "fb_digest = fb_fixed 32 digest_from_bytes"

definition fb_text :: "FieldBag \<Rightarrow> u16 \<Rightarrow> string option" where
  "fb_text bag field = map_option bytes_string (fb_find bag field)"

definition fb_bytes :: "FieldBag \<Rightarrow> u16 \<Rightarrow> byte list option" where
  "fb_bytes bag field = fb_find bag field"

definition fb_nested :: "FieldBag \<Rightarrow> u16 \<Rightarrow> Limits \<Rightarrow> FieldBag option" where
  "fb_nested bag field limits =
     (case fb_find bag field of None \<Rightarrow> None | Some value \<Rightarrow> r_value (fb_decode value limits))"

section \<open>Lookups and encodings\<close>

text \<open>Every bag the class can produce carries the encoding of its fields.\<close>

definition fb_ok :: "FieldBag \<Rightarrow> bool" where
  "fb_ok bag \<longleftrightarrow> fb_encoded bag = fields_bytes (om_entries (fb_fields bag))"

lemma fb_rebuild_simps [simp]:
  "fb_fields (fb_rebuild bag) = fb_fields bag"
  "fb_encoded (fb_rebuild bag) = fields_bytes (om_entries (fb_fields bag))"
  by (auto simp: fb_rebuild_def fields_bytes_def field_bytes_def intro!: arg_cong [where f = concat] map_cong)

lemma fb_rebuild_ok [simp]: "fb_ok (fb_rebuild bag)"
  by (simp add: fb_ok_def)

lemma fb_empty_ok [simp]: "fb_ok fb_empty"
  by (simp add: fb_ok_def fb_empty_def)

lemmas fb_set_defs = fb_set_bool_def fb_set_u16_def fb_set_u32_def fb_set_u64_def fb_set_text_def
  fb_set_digest_def fb_set_nested_def

lemma fb_set_u8_bytes: "fb_set_u8 field v = fb_set_bytes field [v]"
  by (simp add: fun_eq_iff fb_set_u8_def fb_set_bytes_def)

lemma fb_set_bytes_ok [simp]: "fb_ok (fb_set_bytes field v bag)"
  by (simp add: fb_set_bytes_def)

lemma fb_find_empty [simp]: "fb_find fb_empty field = None"
  by (simp add: fb_find_def fb_empty_def)

lemma fb_find_set_bytes [simp]: "fb_find (fb_set_bytes field v bag) = (fb_find bag)(field \<mapsto> v)"
  by (simp add: fb_find_def fb_set_bytes_def fun_eq_iff)

lemma fb_ext: "fb_ok a \<Longrightarrow> fb_ok b \<Longrightarrow> fb_find a = fb_find b \<Longrightarrow> a = b"
  using om_ext [of "fb_fields a" "fb_fields b"]
  by (cases a; cases b) (auto simp: fb_ok_def fb_find_def fun_eq_iff)

text \<open>Reading back what a field holds.\<close>

lemma fb_read [simp]:
  "fb_find bag f = Some (store_le16 v16) \<Longrightarrow> fb_u16 bag f = Some v16"
  "fb_find bag f = Some (store_le32 v32) \<Longrightarrow> fb_u32 bag f = Some v32"
  "fb_find bag f = Some (store_le64 v64) \<Longrightarrow> fb_u64 bag f = Some v64"
  "fb_find bag f = Some (digest_bytes d) \<Longrightarrow> fb_digest bag f = Some d"
  "fb_find bag f = Some (string_bytes s) \<Longrightarrow> fb_text bag f = Some s"
  "fb_find bag f = Some [v8] \<Longrightarrow> fb_u8 bag f = Some v8"
  "fb_find bag f = Some [if b then 1 else 0] \<Longrightarrow> fb_boolean bag f = Some b"
  "fb_find bag f = Some bs \<Longrightarrow> fb_bytes bag f = Some bs"
  using load_store_le16 [of v16 "[]"] load_store_le32 [of v32 "[]"] load_store_le64 [of v64 "[]"]
  by (simp_all add: fb_u16_def fb_u32_def fb_u64_def fb_digest_def fb_text_def fb_u8_def fb_boolean_def
      fb_bytes_def fb_fixed_def)

section \<open>What decodes\<close>

lemma decode_fields_step:
  assumes "payload_fits f" and "\<not> om_has m (fst f)"
  shows "decode_fields (field_bytes f @ rest) m = decode_fields rest (om_put (fst f) (snd f) m)"
proof -
  have "drop 6 (field_bytes f @ rest) = snd f @ rest"
    by (simp add: field_bytes_def drop_append)
  moreover have "load_le16 (field_bytes f @ rest) = fst f"
    by (simp add: field_bytes_def load_store_le16)
  moreover have "unat (load_le32 (drop 2 (field_bytes f @ rest))) = length (snd f)"
    using assms(1) by (simp add: field_bytes_def drop_append load_store_le32 unat_of_nat_u32 payload_fits_def)
  moreover have "field_bytes f \<noteq> []" by (simp add: field_bytes_def store_le16_def)
  ultimately show ?thesis
    using assms(2) by (subst decode_fields.simps) (simp add: Let_def)
qed

lemma decode_fields_run:
  "list_all payload_fits fs \<Longrightarrow> distinct (map fst fs) \<Longrightarrow> \<forall>f \<in> fst ` set fs. \<not> om_has m f \<Longrightarrow>
     decode_fields (fields_bytes fs) m = Inr (fold (\<lambda>(f, v). om_put f v) fs m)"
proof (induction fs arbitrary: m)
  case Nil
  then show ?case by (simp add: decode_fields.simps)
next
  case (Cons f fs)
  have "\<forall>g \<in> fst ` set fs. \<not> om_has (om_put (fst f) (snd f) m) g"
    using Cons.prems by (auto simp: image_iff)
  then show ?case using Cons by (simp add: decode_fields_step case_prod_beta)
qed

lemma decode_fields_sound:
  "decode_fields encoded m = Inr m' \<Longrightarrow> \<exists>fs. encoded = fields_bytes fs \<and> list_all payload_fits fs
     \<and> distinct (map fst fs) \<and> (\<forall>f \<in> fst ` set fs. \<not> om_has m f)
     \<and> m' = fold (\<lambda>(f, v). om_put f v) fs m"
proof (induction encoded m rule: decode_fields.induct)
  case (1 encoded m)
  show ?case
  proof (cases "encoded = []")
    case True
    then have "m' = m" using 1(2) by (simp add: decode_fields.simps)
    then show ?thesis using True by (intro exI [of _ "[]"]) simp
  next
    case False
    let ?f = "load_le16 encoded" and ?n = "unat (load_le32 (drop 2 encoded))"
    from 1(2) False have len: "6 \<le> length encoded" "?n \<le> length (drop 6 encoded)" and new: "\<not> om_has m ?f"
      and rec: "decode_fields (drop ?n (drop 6 encoded)) (om_put ?f (take ?n (drop 6 encoded)) m) = Inr m'"
      by (subst (asm) decode_fields.simps; auto simp: Let_def split: if_splits)+
    obtain fs where fs: "drop ?n (drop 6 encoded) = fields_bytes fs" "list_all payload_fits fs"
      "distinct (map fst fs)" "\<forall>f \<in> fst ` set fs. \<not> om_has (om_put ?f (take ?n (drop 6 encoded)) m) f"
      "m' = fold (\<lambda>(f, v). om_put f v) fs (om_put ?f (take ?n (drop 6 encoded)) m)"
      using 1(1) [OF False _ refl refl refl _ new rec] len by auto
    let ?g = "(?f, take ?n (drop 6 encoded))"
    have "encoded = store_le16 ?f @ store_le32 (load_le32 (drop 2 encoded)) @ drop 6 encoded"
      using load_parts(1) [of 0 encoded] load_parts(2) [of 2 encoded] len(1) by (simp add: numeral_2_eq_2)
    moreover have "load_le32 (drop 2 encoded) = of_nat (length (take ?n (drop 6 encoded)))"
      using len(2) by (simp add: min_def)
    moreover have "drop 6 encoded = take ?n (drop 6 encoded) @ fields_bytes fs"
      using append_take_drop_id [of ?n "drop 6 encoded"] fs(1) by simp
    ultimately have "encoded = fields_bytes (?g # fs)" by (simp add: field_bytes_def)
    moreover have "payload_fits ?g"
      using len(2) unat_u32_lt [of "load_le32 (drop 2 encoded)"] by (simp add: payload_fits_def)
    ultimately show ?thesis using fs new by (intro exI [of _ "?g # fs"]) auto
  qed
qed

text \<open>A bag with the given fields.\<close>

definition fb_of :: "(u16 \<times> byte list) list \<Rightarrow> FieldBag" where
  "fb_of fs = fold (\<lambda>(f, v). fb_set_bytes f v) fs fb_empty"

lemma fb_of_ok [simp]: "fb_ok (fb_of fs)"
  unfolding fb_of_def by (cases fs rule: rev_cases) (auto simp: case_prod_beta)

lemma fb_of_fields: "fb_fields (fb_of fs) = fold (\<lambda>(f, v). om_put f v) fs om_empty"
  by (induction fs rule: rev_induct) (auto simp: fb_of_def fb_empty_def fb_set_bytes_def)

lemma fb_rebuild_of: "fb_rebuild \<lparr>fb_fields = fb_fields (fb_of fs), fb_encoded = []\<rparr> = fb_of fs"
  by (rule fb_ext) (simp_all add: fb_find_def fun_eq_iff)

lemma fb_decode_fields:
  "r_value (fb_decode encoded limits) = Some bag \<longleftrightarrow>
     length encoded \<le> max_frame_bytes limits
     \<and> (\<exists>fs. encoded = fields_bytes fs \<and> list_all payload_fits fs \<and> distinct (map fst fs) \<and> bag = fb_of fs)"
proof
  assume "r_value (fb_decode encoded limits) = Some bag"
  then obtain m where m: "length encoded \<le> max_frame_bytes limits" "decode_fields encoded om_empty = Inr m"
    "bag = fb_rebuild \<lparr>fb_fields = m, fb_encoded = []\<rparr>"
    by (auto simp: fb_decode_def split: if_splits sum.splits)
  obtain fs where fs: "encoded = fields_bytes fs" "list_all payload_fits fs" "distinct (map fst fs)"
    "m = fb_fields (fb_of fs)"
    using decode_fields_sound [OF m(2)] by (auto simp: fb_of_fields)
  have "bag = fb_of fs" by (simp only: m(3) fs(4) fb_rebuild_of)
  then show "length encoded \<le> max_frame_bytes limits
     \<and> (\<exists>fs. encoded = fields_bytes fs \<and> list_all payload_fits fs \<and> distinct (map fst fs) \<and> bag = fb_of fs)"
    using fs m(1) by blast
next
  assume "length encoded \<le> max_frame_bytes limits
     \<and> (\<exists>fs. encoded = fields_bytes fs \<and> list_all payload_fits fs \<and> distinct (map fst fs) \<and> bag = fb_of fs)"
  then show "r_value (fb_decode encoded limits) = Some bag"
    using decode_fields_run [of _ om_empty] by (auto simp: fb_decode_def fb_of_fields [symmetric] fb_rebuild_of)
qed

lemma om_entries_of: "fold (\<lambda>(f, v). om_put f v) (om_entries m) om_empty = m"
proof (rule om_ext)
  fix k
  have "map_of (rev (om_entries m)) k = map_of (om_entries m) k"
    using distinct_om_keys [of m] unfolding om_keys_def by (intro fun_cong [OF map_of_inject_set [THEN iffD2]]) (simp_all add: rev_map [symmetric])
  then show "om_find (fold (\<lambda>(f, v). om_put f v) (om_entries m) om_empty) k = om_find m k"
    by (simp add: omap.look_fold) (simp add: om_find_def split: option.splits)
qed

lemma fb_of_entries: "fb_ok bag \<Longrightarrow> fb_of (om_entries (fb_fields bag)) = bag"
  by (rule fb_ext) (simp_all add: fb_find_def fun_eq_iff fb_of_fields om_entries_of)

lemma fb_decode_encoded:
  assumes "max_frame_bytes limits < 4294967296"
    and bag: "fb_ok bag" "length (fb_encoded bag) \<le> max_frame_bytes limits"
  shows "fb_decode (fb_encoded bag) limits = r_ok bag"
proof -
  let ?fs = "om_entries (fb_fields bag)"
  have "length (snd f) \<le> length (fields_bytes fs)" if "f \<in> set fs" for f fs
    using that by (induction fs) auto
  then have "list_all payload_fits ?fs"
    using assms bag by (fastforce simp: list_all_iff payload_fits_def fb_ok_def)
  then have "r_value (fb_decode (fb_encoded bag) limits) = Some bag"
    using bag fb_of_entries [OF bag(1)] distinct_om_keys [of "fb_fields bag"]
    by (auto simp: fb_decode_fields fb_ok_def om_keys_def intro!: exI [of _ ?fs])
  then show ?thesis
    by (auto simp: fb_decode_def split: if_splits sum.splits)
qed

text \<open>
  C40: A payload is read back field for field. A byte string is accepted as a field bag exactly if it is
  within the frame bound and is a sequence of fields with pairwise different identifiers, each with its
  exact length; the bag then holds exactly these fields. In particular every bag whose encoding is within
  the bound decodes from it to itself. The order of the fields is not checked: encodings of one bag that
  list its fields in different orders are all accepted.
\<close>

theorem field_bag_exact:
  assumes "max_frame_bytes limits < 4294967296"
  shows "(r_value (fb_decode encoded limits) = Some bag \<longleftrightarrow>
      length encoded \<le> max_frame_bytes limits
      \<and> (\<exists>fs. encoded = fields_bytes fs \<and> list_all payload_fits fs \<and> distinct (map fst fs) \<and> bag = fb_of fs))
   \<and> (fb_ok bag \<longrightarrow> length (fb_encoded bag) \<le> max_frame_bytes limits \<longrightarrow>
        fb_decode (fb_encoded bag) limits = r_ok bag)"
  using fb_decode_fields fb_decode_encoded [OF assms] by blast

theorem field_bag_exact_witness:
  "r_value (fb_decode [1, 0, 2, 0, 0, 0, 7, 9] sample_frame_limits) = Some (fb_of [(1, [7, 9])])"
proof -
  have "max_frame_bytes sample_frame_limits < 4294967296" by (simp add: sample_frame_limits_def)
  note exact = field_bag_exact [OF this, of "[1, 0, 2, 0, 0, 0, 7, 9]" "fb_of [(1, [7, 9])]"]
  have "[1, 0, 2, 0, 0, 0, 7, 9] = fields_bytes [(1, [7, 9])]" by code_simp
  then show ?thesis
    using exact by (force simp: sample_frame_limits_def payload_fits_def intro: exI [of _ "[(1, [7, 9])]"])
qed

end
