(* ===== verification/Graph.thy ===== *)
theory Graph
  imports Node Ordered_Map
begin

text \<open>
  The bounded provenance DAG of \<^verbatim>\<open>include/route_provenance/graph.hpp\<close> and \<^verbatim>\<open>src/graph.cpp\<close>: the state
  of \<^verbatim>\<open>ProvenanceGraph\<close>, its mutators, the three graph searches (cycle check, bounded traversal,
  topological order), the canonical digest and the structural self-check. An operation that can
  fail returns the new graph with its \<open>Status\<close>.

  The searches are loops over a successor function, the adjacency list of a node resolved through
  the edge map (\<open>neighbours\<close>). Every node identity is a 64-bit word, so the set of visited nodes
  cannot grow for ever: that is the termination measure of the loops, no fuel is needed.
\<close>

section \<open>State\<close>

record ProvenanceGraph =
  g_nodes :: "(ProvenanceNodeId, ProvenanceNode) omap"
  g_edges :: "(ProvenanceEdgeId, ProvenanceEdge) omap"
  g_derivations :: "(DerivationId, ProvenanceEdgeId) omap"
  g_outgoing :: "(ProvenanceNodeId, ProvenanceEdgeId list) omap"
  g_incoming :: "(ProvenanceNodeId, ProvenanceEdgeId list) omap"

definition empty_graph :: ProvenanceGraph where
  "empty_graph = \<lparr>g_nodes = om_empty, g_edges = om_empty, g_derivations = om_empty,
     g_outgoing = om_empty, g_incoming = om_empty\<rparr>"

definition node_count :: "ProvenanceGraph \<Rightarrow> nat" where
  "node_count g = om_size (g_nodes g)"

definition edge_count :: "ProvenanceGraph \<Rightarrow> nat" where
  "edge_count g = om_size (g_edges g)"

definition find_node :: "ProvenanceGraph \<Rightarrow> ProvenanceNodeId \<Rightarrow> ProvenanceNode option" where
  "find_node g i = om_find (g_nodes g) i"

definition find_edge :: "ProvenanceGraph \<Rightarrow> ProvenanceEdgeId \<Rightarrow> ProvenanceEdge option" where
  "find_edge g i = om_find (g_edges g) i"

definition find_edge_by_derivation :: "ProvenanceGraph \<Rightarrow> DerivationId \<Rightarrow> ProvenanceEdge option" where
  "find_edge_by_derivation g d =
     (case om_find (g_derivations g) d of None \<Rightarrow> None | Some i \<Rightarrow> find_edge g i)"

definition nodes_in_order :: "ProvenanceGraph \<Rightarrow> ProvenanceNode list" where
  "nodes_in_order g = om_values (g_nodes g)"

definition edges_in_order :: "ProvenanceGraph \<Rightarrow> ProvenanceEdge list" where
  "edges_in_order g = om_values (g_edges g)"

definition incoming_count :: "ProvenanceGraph \<Rightarrow> ProvenanceNodeId \<Rightarrow> nat" where
  "incoming_count g i = (case om_find (g_incoming g) i of None \<Rightarrow> 0 | Some ids \<Rightarrow> length ids)"

definition outgoing_count :: "ProvenanceGraph \<Rightarrow> ProvenanceNodeId \<Rightarrow> nat" where
  "outgoing_count g i = (case om_find (g_outgoing g) i of None \<Rightarrow> 0 | Some ids \<Rightarrow> length ids)"

definition incoming_edges :: "ProvenanceGraph \<Rightarrow> ProvenanceNodeId \<Rightarrow> ProvenanceEdge list" where
  "incoming_edges g i =
     (case om_find (g_incoming g) i of None \<Rightarrow> []
      | Some ids \<Rightarrow> sort_key e_id (List.map_filter (find_edge g) ids))"

definition outgoing_edges :: "ProvenanceGraph \<Rightarrow> ProvenanceNodeId \<Rightarrow> ProvenanceEdge list" where
  "outgoing_edges g i =
     (case om_find (g_outgoing g) i of None \<Rightarrow> []
      | Some ids \<Rightarrow> sort_key e_id (List.map_filter (find_edge g) ids))"

section \<open>Searches\<close>

datatype TraversalDirection = TD_Outgoing | TD_Incoming

definition neighbours ::
    "ProvenanceGraph \<Rightarrow> TraversalDirection \<Rightarrow> (EdgeType \<Rightarrow> bool) \<Rightarrow> ProvenanceNodeId \<Rightarrow> ProvenanceNodeId list" where
  "neighbours g dir keep n =
     (case om_find (case dir of TD_Outgoing \<Rightarrow> g_outgoing g | TD_Incoming \<Rightarrow> g_incoming g) n of
        None \<Rightarrow> []
      | Some ids \<Rightarrow>
          List.map_filter
            (\<lambda>i. case find_edge g i of
                   None \<Rightarrow> None
                 | Some e \<Rightarrow>
                     if \<not> keep (e_type e) then None
                     else Some (case dir of TD_Outgoing \<Rightarrow> e_to e | TD_Incoming \<Rightarrow> e_from e))
            ids)"

definition any_type :: "EdgeType \<Rightarrow> bool" where
  "any_type t = True"

subsection \<open>The cycle check\<close>

text \<open>The inner loop of \<^verbatim>\<open>check_add_edge\<close>; \<open>None\<close> is the return with \<^verbatim>\<open>ResourceLimit\<close>.\<close>

fun scan_dfs :: "nat \<Rightarrow> u64 list \<Rightarrow> u64 list \<Rightarrow> u64 oset \<Rightarrow> (u64 list \<times> u64 oset) option" where
  "scan_dfs max_visited [] stack visited = Some (stack, visited)"
| "scan_dfs max_visited (t # ts) stack visited =
     (if om_has visited t then scan_dfs max_visited ts stack visited
      else if om_size (os_insert t visited) > max_visited then None
      else scan_dfs max_visited ts (t # stack) (os_insert t visited))"

definition unvisited :: "u64 oset \<Rightarrow> nat" where
  "unvisited visited = card {x. \<not> om_has visited x}"

lemma unvisited_insert: "\<not> om_has visited t \<Longrightarrow> unvisited visited = Suc (unvisited (os_insert t visited))"
proof -
  assume t: "\<not> om_has visited t"
  have "{x. \<not> om_has visited x} = insert t {x. \<not> om_has (os_insert t visited) x}"
    using t by (auto simp: os_insert_def)
  moreover have "t \<notin> {x. \<not> om_has (os_insert t visited) x}" by (simp add: os_insert_def)
  ultimately show ?thesis by (simp add: unvisited_def)
qed

lemma scan_dfs_measure:
  "scan_dfs max_visited ts stack visited = Some (stack', visited') \<Longrightarrow>
     2 * unvisited visited' + length stack' \<le> 2 * unvisited visited + length stack"
proof (induction max_visited ts stack visited rule: scan_dfs.induct)
  case (2 max_visited t ts stack visited)
  then show ?case
    using unvisited_insert [of visited t] by (fastforce split: if_splits)
qed simp

function dfs_loop :: "(u64 \<Rightarrow> u64 list) \<Rightarrow> nat \<Rightarrow> u64 \<Rightarrow> u64 list \<Rightarrow> u64 oset \<Rightarrow> Status" where
  "dfs_loop succs max_visited from_n [] visited = st_ok"
| "dfs_loop succs max_visited from_n (current # stack) visited =
     (if current = from_n then st_failure O_CycleDetected ''edge would close a provenance cycle''
      else case scan_dfs max_visited (succs current) stack visited of
             None \<Rightarrow> st_failure O_ResourceLimit ''cycle check exceeded max_visited_nodes''
           | Some (stack', visited') \<Rightarrow> dfs_loop succs max_visited from_n stack' visited')"
  by pat_completeness auto

termination
  by (relation "measure (\<lambda>(_, _, _, stack, visited). 2 * unvisited visited + length stack)")
     (auto dest: scan_dfs_measure)

definition check_add_edge ::
    "ProvenanceGraph \<Rightarrow> ProvenanceNodeId \<Rightarrow> ProvenanceNodeId \<Rightarrow> Limits \<Rightarrow> Status" where
  "check_add_edge g from_n to_n limits =
     (if \<not> id_valid from_n \<or> \<not> id_valid to_n then
        st_failure O_MalformedRequest ''edge endpoint identity is not valid''
      else if from_n = to_n then st_failure O_CycleDetected ''self edge rejected''
      else if \<not> om_has (g_nodes g) from_n \<or> \<not> om_has (g_nodes g) to_n then st_ok
      else dfs_loop (neighbours g TD_Outgoing any_type) (max_visited_nodes limits) from_n
             [to_n] (os_insert to_n om_empty))"

subsection \<open>Bounded traversal\<close>

record TraversalBounds =
  tb_max_depth :: nat
  tb_max_results :: nat
  tb_max_visited :: nat

record TraversalResult =
  tr_nodes :: "(ProvenanceNode \<times> nat) list"
  tr_edges :: "ProvenanceEdge list"
  tr_truncated :: bool
  tr_max_depth_reached :: nat

definition empty_traversal :: TraversalResult where
  "empty_traversal = \<lparr>tr_nodes = [], tr_edges = [], tr_truncated = False, tr_max_depth_reached = 0\<rparr>"

definition traversal_contains :: "(ProvenanceNode \<times> nat) list \<Rightarrow> ProvenanceNodeId \<Rightarrow> bool" where
  "traversal_contains entries i \<longleftrightarrow> list_ex (\<lambda>(n, d). n_id n = i) entries"

text \<open>Caller bounds narrow the configured limit, zero means the limit itself.\<close>

definition effective_bound :: "nat \<Rightarrow> nat \<Rightarrow> nat" where
  "effective_bound requested limit =
     (if requested = 0 then limit else if requested < limit then requested else limit)"

text \<open>The inner loop; \<open>Inl\<close> is the message of the \<^verbatim>\<open>ResourceLimit\<close> return.\<close>

fun scan_bfs ::
    "nat \<Rightarrow> nat \<Rightarrow> nat \<Rightarrow> u64 list \<Rightarrow> (u64 \<times> nat) list \<Rightarrow> u64 oset
     \<Rightarrow> string + (u64 \<times> nat) list \<times> u64 oset" where
  "scan_bfs max_visited max_results d [] queue visited = Inr (queue, visited)"
| "scan_bfs max_visited max_results d (t # ts) queue visited =
     (if om_has visited t then scan_bfs max_visited max_results d ts queue visited
      else if om_size (os_insert t visited) > max_visited then
        Inl ''traversal exceeded max_visited_nodes''
      else if length queue \<ge> max_results then Inl ''traversal exceeded max_query_results''
      else scan_bfs max_visited max_results d ts (queue @ [(t, d)]) (os_insert t visited))"

lemma scan_bfs_measure:
  "scan_bfs mv mr d ts queue visited = Inr (queue', visited') \<Longrightarrow>
     2 * unvisited visited' + length queue' \<le> 2 * unvisited visited + length queue
     \<and> length queue \<le> length queue'"
proof (induction mv mr d ts queue visited rule: scan_bfs.induct)
  case (2 mv mr d t ts queue visited)
  then show ?case
    using unvisited_insert [of visited t] by (fastforce split: if_splits)
qed simp

function bfs_loop ::
    "(u64 \<Rightarrow> u64 list) \<Rightarrow> nat \<Rightarrow> nat \<Rightarrow> nat \<Rightarrow> nat \<Rightarrow> (u64 \<times> nat) list \<Rightarrow> u64 oset
     \<Rightarrow> string + (u64 \<times> nat) list" where
  "bfs_loop succs max_depth max_visited max_results cursor queue visited =
     (if cursor < length queue then
        let (node, depth) = queue ! cursor
        in if depth \<ge> max_depth then
             bfs_loop succs max_depth max_visited max_results (Suc cursor) queue visited
           else case scan_bfs max_visited max_results (depth + 1) (succs node) queue visited of
                  Inl msg \<Rightarrow> Inl msg
                | Inr (queue', visited') \<Rightarrow>
                    bfs_loop succs max_depth max_visited max_results (Suc cursor) queue' visited'
      else Inr queue)"
  by pat_completeness auto

termination
  by (relation "measure (\<lambda>(_, _, _, _, cursor, queue, visited). 2 * unvisited visited + (length queue - cursor))")
     (auto dest!: scan_bfs_measure)

declare bfs_loop.simps [simp del]

definition traverse ::
    "ProvenanceGraph \<Rightarrow> ProvenanceNodeId \<Rightarrow> TraversalDirection \<Rightarrow> TraversalBounds \<Rightarrow> Limits
     \<Rightarrow> (EdgeType \<Rightarrow> bool) \<Rightarrow> TraversalResult \<times> Status" where
  "traverse g origin dir bounds limits keep =
     (if \<not> id_valid origin then
        (empty_traversal, st_failure O_MalformedRequest ''traversal origin is not valid'')
      else if \<not> om_has (g_nodes g) origin then
        (empty_traversal, st_failure O_NodeNotFound ''traversal origin is not present in this lineage'')
      else
        case bfs_loop (neighbours g dir keep)
               (effective_bound (tb_max_depth bounds) (max_traversal_depth limits))
               (effective_bound (tb_max_visited bounds) (max_visited_nodes limits))
               (effective_bound (tb_max_results bounds) (max_query_results limits))
               0 [(origin, 0)] (os_insert origin om_empty) of
          Inl msg \<Rightarrow> (empty_traversal\<lparr>tr_truncated := True\<rparr>, st_failure O_ResourceLimit msg)
        | Inr queue \<Rightarrow>
            let entries = sort_key (\<lambda>(n, d). (d, n_id n))
                  (List.map_filter (\<lambda>(i, d). map_option (\<lambda>n. (n, d)) (find_node g i)) queue);
                edges = filter (\<lambda>e. traversal_contains entries (e_from e)
                                  \<and> traversal_contains entries (e_to e)) (edges_in_order g)
            in (\<lparr>tr_nodes = entries, tr_edges = sort_key e_id edges, tr_truncated = False,
                 tr_max_depth_reached = foldl (\<lambda>m (n, d). if d > m then d else m) 0 entries\<rparr>, st_ok))"

subsection \<open>Topological order\<close>

text \<open>
  Kahn's algorithm. The priority queue \<^verbatim>\<open>ready\<close> is an ascending list, its top the head.
\<close>

fun scan_kahn :: "u64 list \<Rightarrow> (u64, nat) omap \<Rightarrow> u64 list \<Rightarrow> (u64, nat) omap \<times> u64 list" where
  "scan_kahn [] degree ready = (degree, ready)"
| "scan_kahn (t # ts) degree ready =
     (case om_find degree t of
        None \<Rightarrow> scan_kahn ts degree ready
      | Some 0 \<Rightarrow> scan_kahn ts degree ready
      | Some (Suc k) \<Rightarrow>
          scan_kahn ts (om_put t k degree) (if k = 0 then insort t ready else ready))"

lemma sum_ins_list:
  "keys_sorted ps \<Longrightarrow> map_of ps k = Some d \<Longrightarrow>
     sum_list (map snd (ins_list k (v::nat) ps)) + d = sum_list (map snd ps) + v"
proof (induction k v ps rule: ins_list.induct)
  case (2 k v a b ps)
  then show ?case by (cases "k < a") (auto split: if_splits dest!: map_of_SomeD)
qed simp

lemma sum_om_put:
  "om_find m k = Some d \<Longrightarrow> sum_list (om_values (om_put k (v::nat) m)) + d = sum_list (om_values m) + v"
  using sum_ins_list [OF om_entries_sorted, of m k d v] by (simp add: om_values_def om_find_def)

lemma scan_kahn_measure:
  "scan_kahn ts degree ready = (degree', ready') \<Longrightarrow>
     sum_list (om_values degree') + length ready' \<le> sum_list (om_values degree) + length ready"
proof (induction ts degree ready rule: scan_kahn.induct)
  case (2 t ts degree ready)
  show ?case
  proof (cases "om_find degree t")
    case (Some d)
    then show ?thesis
      using 2 sum_om_put [OF Some, of "d - 1"]
      by (cases d) (fastforce split: if_splits)+
  qed (use 2 in simp)
qed simp

function kahn_loop :: "(u64 \<Rightarrow> u64 list) \<Rightarrow> (u64, nat) omap \<Rightarrow> u64 list \<Rightarrow> u64 list \<Rightarrow> u64 list" where
  "kahn_loop succs degree [] order = order"
| "kahn_loop succs degree (current # ready) order =
     (let (degree', ready') = scan_kahn (succs current) degree ready
      in kahn_loop succs degree' ready' (order @ [current]))"
  by pat_completeness auto

termination
  by (relation "measure (\<lambda>(_, degree, ready, _). sum_list (om_values degree) + length ready)")
     (auto dest: scan_kahn_measure [OF sym])

definition in_degrees :: "ProvenanceGraph \<Rightarrow> (ProvenanceNodeId, nat) omap" where
  "in_degrees g = fold (\<lambda>i. om_emplace i (incoming_count g i)) (om_keys (g_nodes g)) om_empty"

definition initial_ready :: "(ProvenanceNodeId, nat) omap \<Rightarrow> ProvenanceNodeId list" where
  "initial_ready degree =
     fold (\<lambda>(i, d) ready. if d = 0 then insort i ready else ready) (om_entries degree) []"

definition topological_order :: "ProvenanceGraph \<Rightarrow> ProvenanceNodeId list option" where
  "topological_order g =
     (let order = kahn_loop (neighbours g TD_Outgoing any_type) (in_degrees g)
                    (initial_ready (in_degrees g)) []
      in if length order \<noteq> om_size (g_nodes g) then None else Some order)"

section \<open>Mutators\<close>

definition add_node :: "hash_fun \<Rightarrow> ProvenanceNode \<Rightarrow> Limits \<Rightarrow> ProvenanceGraph \<Rightarrow> ProvenanceGraph \<times> Status" where
  "add_node H n limits g =
     (if \<not> id_valid (n_id n) then (g, st_failure O_MalformedRequest ''node identity is not valid'')
      else if \<not> st_is_ok (validate_node_consistency n) then (g, validate_node_consistency n)
      else case om_find (g_nodes g) (n_id n) of
        Some existing \<Rightarrow>
          (if node_core_digest H existing = node_core_digest H n then
             (g, st_failure O_Duplicate ''identical provenance node already recorded'')
           else (g, st_failure O_Conflict ''provenance node identity collision with different content''))
      | None \<Rightarrow>
          (if om_size (g_nodes g) \<ge> max_nodes_per_lineage limits then
             (g, st_failure O_ResourceLimit ''max_nodes_per_lineage reached'')
           else
             (g\<lparr>g_nodes := om_emplace (n_id n) n (g_nodes g),
                g_outgoing := om_emplace (n_id n) [] (g_outgoing g),
                g_incoming := om_emplace (n_id n) [] (g_incoming g)\<rparr>, st_ok)))"

text \<open>\<^verbatim>\<open>v.insert(std::upper_bound(v.begin(), v.end(), x), x)\<close>\<close>

definition insert_upper :: "u64 \<Rightarrow> u64 list \<Rightarrow> u64 list" where
  "insert_upper x xs = takeWhile (\<lambda>y. \<not> x < y) xs @ x # dropWhile (\<lambda>y. \<not> x < y) xs"

definition add_edge :: "hash_fun \<Rightarrow> ProvenanceEdge \<Rightarrow> Limits \<Rightarrow> ProvenanceGraph \<Rightarrow> ProvenanceGraph \<times> Status" where
  "add_edge H e limits g =
     (if \<not> st_is_ok (validate_edge_consistency e) then (g, validate_edge_consistency e)
      else if e_lineage e \<noteq> 0 \<and> om_size (g_nodes g) \<noteq> 0
              \<and> (case om_find (g_nodes g) (e_from e) of None \<Rightarrow> False
                 | Some anchor \<Rightarrow> n_lineage anchor \<noteq> e_lineage e) then
        (g, st_failure O_InvalidDerivation ''edge lineage disagrees with its endpoints'')
      else case om_find (g_edges g) (e_id e) of
        Some existing \<Rightarrow>
          (if edge_core_digest H existing = edge_core_digest H e then
             (g, st_failure O_Duplicate ''identical derivation edge already recorded'')
           else (g, st_failure O_Conflict ''derivation edge identity collision with different content''))
      | None \<Rightarrow>
          (if om_size (g_edges g) \<ge> max_edges_per_lineage limits then
             (g, st_failure O_ResourceLimit ''max_edges_per_lineage reached'')
           else if \<not> om_has (g_nodes g) (e_from e) \<or> \<not> om_has (g_nodes g) (e_to e) then
             (g, st_failure O_MissingParent ''edge endpoint is not present in this lineage'')
           else if incoming_count g (e_to e) \<ge> max_parents_per_node limits then
             (g, st_failure O_ResourceLimit ''max_parents_per_node reached'')
           else if outgoing_count g (e_from e) \<ge> max_children_per_node limits then
             (g, st_failure O_ResourceLimit ''max_children_per_node reached'')
           else if \<not> st_is_ok (check_add_edge g (e_from e) (e_to e) limits) then
             (g, check_add_edge g (e_from e) (e_to e) limits)
           else
             (g\<lparr>g_edges := om_emplace (e_id e) e (g_edges g),
                g_derivations := om_emplace (e_derivation e) (e_id e) (g_derivations g),
                g_outgoing := om_emplace (e_to e) []
                  (om_put (e_from e) (insert_upper (e_id e) (om_get [] (g_outgoing g) (e_from e)))
                    (g_outgoing g)),
                g_incoming := om_emplace (e_from e) []
                  (om_put (e_to e) (insert_upper (e_id e) (om_get [] (g_incoming g) (e_to e)))
                    (g_incoming g))\<rparr>, st_ok)))"

definition compact_node :: "ProvenanceNodeId \<Rightarrow> ProvenanceNode \<Rightarrow> ProvenanceGraph \<Rightarrow> ProvenanceGraph \<times> Status" where
  "compact_node i tombstone g =
     (if \<not> om_has (g_nodes g) i then
        (g, st_failure O_NodeNotFound ''compaction target is not present in this lineage'')
      else if n_id tombstone \<noteq> i then
        (g, st_failure O_MalformedRequest ''compaction must preserve node identity'')
      else if n_kind tombstone \<noteq> NK_CompactedSummary then
        (g, st_failure O_MalformedRequest ''compaction must produce a summary node'')
      else if \<not> st_is_ok (validate_node_consistency tombstone) then
        (g, validate_node_consistency tombstone)
      else (g\<lparr>g_nodes := om_put i tombstone (g_nodes g)\<rparr>, st_ok))"

definition update_node_state ::
    "ProvenanceNodeId \<Rightarrow> NodeLifecycle \<Rightarrow> Currentness \<Rightarrow> bool \<Rightarrow> ProvenanceGraph \<Rightarrow> ProvenanceGraph \<times> Status" where
  "update_node_state i lifecycle currentness revalidation_required g =
     (case om_find (g_nodes g) i of
        None \<Rightarrow> (g, st_failure O_NodeNotFound ''record state update for a missing node'')
      | Some n \<Rightarrow>
          (if \<not> is_valid_lifecycle_transition (n_lifecycle n) lifecycle then
             (g, st_failure O_InvalidDerivation
                  (''impossible lifecycle transition '' @ node_lifecycle_name (n_lifecycle n) @
                   '' -> '' @ node_lifecycle_name lifecycle))
           else
             (g\<lparr>g_nodes := om_put i
                  (n\<lparr>n_lifecycle := lifecycle, n_currentness := currentness,
                     n_revalidation_required := revalidation_required\<rparr>) (g_nodes g)\<rparr>, st_ok)))"

definition mark_revalidated :: "ProvenanceNodeId \<Rightarrow> ProvenanceGraph \<Rightarrow> ProvenanceGraph \<times> Status" where
  "mark_revalidated i g =
     (case om_find (g_nodes g) i of
        None \<Rightarrow> (g, st_failure O_NodeNotFound ''revalidation of a missing record'')
      | Some n \<Rightarrow> (g\<lparr>g_nodes := om_put i (n\<lparr>n_revalidated := True\<rparr>) (g_nodes g)\<rparr>, st_ok))"

definition set_corrected_by :: "ProvenanceNodeId \<Rightarrow> ProvenanceNodeId \<Rightarrow> ProvenanceGraph \<Rightarrow> ProvenanceGraph \<times> Status" where
  "set_corrected_by i corrected_by g =
     (case om_find (g_nodes g) i of
        None \<Rightarrow> (g, st_failure O_NodeNotFound ''correction marker for a missing node'')
      | Some n \<Rightarrow>
          (if \<not> id_valid corrected_by then
             (g, st_failure O_MalformedRequest ''correction marker requires a valid record identity'')
           else (g\<lparr>g_nodes := om_put i (n\<lparr>n_corrected_by := Some corrected_by\<rparr>) (g_nodes g)\<rparr>, st_ok)))"

section \<open>Digest and structural check\<close>

definition graph_bytes :: "hash_fun \<Rightarrow> LineageState \<Rightarrow> ProvenanceGraph \<Rightarrow> Encoder" where
  "graph_bytes H state g = encode_seq
     ([add_u32 1 kGraphEncodingVersion,
       add_u64 2 (ls_id state),
       add_u64 3 (lk_route (ls_key state)),
       add_string 4 (lk_semantic_key (ls_key state)),
       add_u16 5 (lineage_lifecycle_code (ls_lifecycle state)),
       add_u64 6 (ls_current_route_generation state),
       add_u64 7 (ls_current_node state),
       add_u64 8 (ls_lineage_generation state),
       add_u64 9 (ls_authority_generation state),
       add_u32 10 (of_nat (om_size (g_nodes g)))] @
      map (\<lambda>n. add_digest 11 (node_digest H n)) (om_values (g_nodes g)) @
      [add_u32 12 (of_nat (om_size (g_edges g)))] @
      map (\<lambda>e. add_digest 13 (edge_core_digest H e)) (om_values (g_edges g)))"

definition graph_digest :: "hash_fun \<Rightarrow> LineageState \<Rightarrow> ProvenanceGraph \<Rightarrow> Digest" where
  "graph_digest H state g = enc_digest H ''rp.graph.v1'' (graph_bytes H state g)"

fun first_failure :: "('a \<Rightarrow> Status) \<Rightarrow> 'a list \<Rightarrow> Status" where
  "first_failure check [] = st_ok"
| "first_failure check (x # xs) = (if \<not> st_is_ok (check x) then check x else first_failure check xs)"

definition check_edge_entry :: "ProvenanceGraph \<Rightarrow> ProvenanceEdge \<Rightarrow> Status" where
  "check_edge_entry g e =
     (case (find_node g (e_from e), find_node g (e_to e)) of
        (Some from_n, Some to_n) \<Rightarrow>
          (if n_lineage from_n \<noteq> e_lineage e \<or> n_lineage to_n \<noteq> e_lineage e then
             st_failure O_InvalidDerivation ''edge crosses lineage boundaries''
           else if om_find (g_derivations g) (e_derivation e) \<noteq> Some (e_id e) then
             st_failure O_Conflict ''derivation index disagrees with the edge set''
           else st_ok)
      | _ \<Rightarrow> st_failure O_MissingParent ''edge references a missing endpoint'')"

definition check_index_entry ::
    "string \<Rightarrow> (ProvenanceEdge \<Rightarrow> ProvenanceNodeId) \<Rightarrow> ProvenanceGraph \<Rightarrow> u64 \<times> u64 list \<Rightarrow> Status" where
  "check_index_entry name endpoint g entry =
     (if \<not> om_has (g_nodes g) (fst entry) then
        st_failure O_Conflict (name @ '' index references a missing node'')
      else first_failure
        (\<lambda>i. case find_edge g i of
               None \<Rightarrow> st_failure O_Conflict (name @ '' index disagrees with the edge set'')
             | Some e \<Rightarrow>
                 if endpoint e \<noteq> fst entry then
                   st_failure O_Conflict (name @ '' index disagrees with the edge set'')
                 else st_ok)
        (snd entry))"

definition validate_structure :: "ProvenanceGraph \<Rightarrow> Status" where
  "validate_structure g =
     st_then (first_failure (check_edge_entry g) (om_values (g_edges g)))
    (st_then (first_failure (check_index_entry ''outgoing'' e_from g) (om_entries (g_outgoing g)))
    (st_then (first_failure (check_index_entry ''incoming'' e_to g) (om_entries (g_incoming g)))
      (if topological_order g = None then st_failure O_CycleDetected ''graph is not acyclic''
       else st_ok)))"

end
