(* ===== verification/Graph_Search.thy ===== *)
theory Graph_Search
  imports Graph
begin

text \<open>
  Correctness of the three search loops of \<^verbatim>\<open>src/graph.cpp\<close> over an arbitrary successor function:
  the depth-first cycle check decides reachability, the bounded breadth-first traversal lists
  exactly the nodes within the depth bound with their shortest distance, and Kahn's loop lists every
  node once, causes after effects, exactly when there is no cycle.
\<close>

definition arcs :: "(u64 \<Rightarrow> u64 list) \<Rightarrow> (u64 \<times> u64) set" where
  "arcs succs = {(a, b). b \<in> set (succs a)}"

abbreviation visited_set :: "u64 oset \<Rightarrow> u64 set" where
  "visited_set visited \<equiv> {x. om_has visited x}"

lemma visited_insert [simp]: "visited_set (os_insert t visited) = insert t (visited_set visited)"
  by (auto simp: os_insert_def)

lemma visited_disj [simp]: "{x. x = t \<or> om_has visited x} = insert t (visited_set visited)"
  by auto

lemma has_insert [simp]: "om_has (os_insert t visited) x \<longleftrightarrow> x = t \<or> om_has visited x"
  by (simp add: os_insert_def)

section \<open>Depth first\<close>

lemma scan_dfs_some:
  "scan_dfs mv ts stack visited = Some (stack', visited') \<Longrightarrow>
     visited_set visited' = visited_set visited \<union> set ts
     \<and> set stack' = set stack \<union> (set ts - visited_set visited)"
proof (induction mv ts stack visited rule: scan_dfs.induct)
  case (2 mv t ts stack visited)
  then show ?case by (auto split: if_splits)
qed auto

lemma scan_dfs_none:
  "scan_dfs mv ts stack visited = None \<Longrightarrow> mv < card (visited_set visited \<union> set ts)"
proof (induction mv ts stack visited rule: scan_dfs.induct)
  case (2 mv t ts stack visited)
  show ?case
  proof (cases "om_has visited t \<or> \<not> om_size (os_insert t visited) > mv")
    case True
    have "visited_set (os_insert t visited) \<union> set ts = visited_set visited \<union> set (t # ts)"
      by auto
    then show ?thesis using True 2 by (auto split: if_splits simp: insert_absorb simp del: visited_insert)
  next
    case False
    have "om_size (os_insert t visited) = card (insert t (visited_set visited))"
      unfolding visited_insert [symmetric] by (rule om_size_card)
    also have "\<dots> \<le> card (visited_set visited \<union> set (t # ts))"
      by (intro card_mono) auto
    finally show ?thesis using False by simp
  qed
qed simp

lemma dfs_loop_spec:
  assumes "set stack \<subseteq> visited_set visited" and "visited_set visited \<subseteq> (arcs succs)\<^sup>* `` {start}"
    and "\<And>a. a \<in> visited_set visited - set stack \<Longrightarrow> set (succs a) \<subseteq> visited_set visited"
    and "goal \<notin> visited_set visited - set stack" and "om_has visited start"
  shows "(st_outcome (dfs_loop succs mv goal stack visited) = O_CycleDetected \<and> (start, goal) \<in> (arcs succs)\<^sup>*)
       \<or> (st_outcome (dfs_loop succs mv goal stack visited) = O_Ok \<and> (start, goal) \<notin> (arcs succs)\<^sup>*)
       \<or> (st_outcome (dfs_loop succs mv goal stack visited) = O_ResourceLimit \<and> mv < card ((arcs succs)\<^sup>* `` {start}))"
  using assms
proof (induction succs mv goal stack visited rule: dfs_loop.induct)
  case (1 succs mv goal visited)
  have "x \<in> visited_set visited" if "(start, x) \<in> (arcs succs)\<^sup>*" for x
    using that
  proof (induction rule: rtrancl_induct)
    case (step y z)
    then show ?case using "1.prems"(3) [of y] by (auto simp: arcs_def)
  qed (use "1.prems" in simp)
  then show ?case using 1 by auto
next
  case (2 succs mv goal current stack visited)
  let ?R = "(arcs succs)\<^sup>* `` {start}"
  have cur: "current \<in> ?R" using "2.prems" by auto
  have succ_R: "set (succs current) \<subseteq> ?R"
    using cur by (auto simp: arcs_def intro: rtrancl_into_rtrancl)
  show ?case
  proof (cases "current = goal")
    case False
    show ?thesis
    proof (cases "scan_dfs mv (succs current) stack visited")
      case None
      have "mv < card (visited_set visited \<union> set (succs current))" by (rule scan_dfs_none [OF None])
      also have "\<dots> \<le> card ?R" using succ_R "2.prems"(2) by (intro card_mono) auto
      finally show ?thesis using None False by simp
    next
      case (Some r)
      obtain stack' visited' where r: "r = (stack', visited')" by (cases r)
      note upd = scan_dfs_some [OF Some [unfolded r]]
      have "(st_outcome (dfs_loop succs mv goal stack' visited') = O_CycleDetected \<and> (start, goal) \<in> (arcs succs)\<^sup>*)
       \<or> (st_outcome (dfs_loop succs mv goal stack' visited') = O_Ok \<and> (start, goal) \<notin> (arcs succs)\<^sup>*)
       \<or> (st_outcome (dfs_loop succs mv goal stack' visited') = O_ResourceLimit \<and> mv < card ?R)"
      proof (rule "2.IH" [OF False Some r [symmetric]])
        show "set stack' \<subseteq> visited_set visited'" using upd "2.prems"(1) by auto
        show "visited_set visited' \<subseteq> ?R" using upd "2.prems"(2) succ_R by auto
        show "set (succs a) \<subseteq> visited_set visited'" if "a \<in> visited_set visited' - set stack'" for a
          using that upd "2.prems"(3) [of a] by (cases "a = current") auto
        show "goal \<notin> visited_set visited' - set stack'" using upd "2.prems"(4) False by auto
        show "om_has visited' start" using upd "2.prems"(5) by auto
      qed
      then show ?thesis using Some False r by simp
    qed
  qed (use cur in simp)
qed

lemma dfs_from_start:
  "(st_outcome (dfs_loop succs mv goal [start] (os_insert start om_empty)) = O_CycleDetected
      \<and> (start, goal) \<in> (arcs succs)\<^sup>*)
   \<or> (st_outcome (dfs_loop succs mv goal [start] (os_insert start om_empty)) = O_Ok
      \<and> (start, goal) \<notin> (arcs succs)\<^sup>*)
   \<or> (st_outcome (dfs_loop succs mv goal [start] (os_insert start om_empty)) = O_ResourceLimit
      \<and> mv < card ((arcs succs)\<^sup>* `` {start}))"
  using dfs_loop_spec [of "[start]" "os_insert start om_empty" succs start goal mv] by auto

section \<open>Breadth first\<close>

text \<open>\<open>hop k a b\<close>: a path of \<open>k\<close> arcs; \<open>shortest\<close>: and none shorter.\<close>

definition hop :: "(u64 \<Rightarrow> u64 list) \<Rightarrow> nat \<Rightarrow> u64 \<Rightarrow> u64 \<Rightarrow> bool" where
  "hop succs k a b \<longleftrightarrow> (a, b) \<in> arcs succs ^^ k"

definition shortest :: "(u64 \<Rightarrow> u64 list) \<Rightarrow> u64 \<Rightarrow> u64 \<Rightarrow> nat \<Rightarrow> bool" where
  "shortest succs a b k \<longleftrightarrow> hop succs k a b \<and> (\<forall>j<k. \<not> hop succs j a b)"

lemma hop_0 [simp]: "hop succs 0 a b \<longleftrightarrow> a = b"
  by (simp add: hop_def)

lemma hop_Suc: "hop succs (Suc k) a c \<longleftrightarrow> (\<exists>b. hop succs k a b \<and> c \<in> set (succs b))"
  by (auto simp: hop_def arcs_def)

lemma shortest_unique: "shortest succs a b k \<Longrightarrow> shortest succs a b j \<Longrightarrow> j = k"
  unfolding shortest_def by (metis linorder_neqE_nat)

definition bfs_inv ::
    "(u64 \<Rightarrow> u64 list) \<Rightarrow> u64 \<Rightarrow> nat \<Rightarrow> nat \<Rightarrow> (u64 \<times> nat) list \<Rightarrow> u64 set \<Rightarrow> bool" where
  "bfs_inv succs origin max_depth cursor queue V \<longleftrightarrow>
     cursor \<le> length queue \<and> fst ` set queue = V \<and> distinct (map fst queue) \<and> origin \<in> V
     \<and> (\<forall>(n, d) \<in> set queue. shortest succs origin n d \<and> d \<le> max_depth)
     \<and> sorted (map snd queue)
     \<and> (\<forall>d \<in> snd ` set queue. cursor < length queue \<longrightarrow> d \<le> Suc (snd (queue ! cursor)))
     \<and> (\<forall>i<cursor. snd (queue ! i) < max_depth \<longrightarrow> set (succs (fst (queue ! i))) \<subseteq> V)"

lemma queue_depths_mono:
  assumes "bfs_inv succs origin max_depth cursor queue V" and "i \<le> j" and "j < length queue"
  shows "snd (queue ! i) \<le> snd (queue ! j)"
proof -
  have "sorted (map snd queue)" using assms(1) by (simp add: bfs_inv_def)
  from sorted_nth_mono [OF this assms(2)] show ?thesis using assms(2,3) by simp
qed

text \<open>Everything at most as deep as the processed part is in the queue.\<close>

lemma bfs_level_complete:
  assumes inv: "bfs_inv succs origin max_depth cursor queue V"
    and lim: "\<And>i. cursor \<le> i \<Longrightarrow> i < length queue \<Longrightarrow> D \<le> snd (queue ! i)"
    and D: "D \<le> max_depth"
  shows "hop succs k origin x \<Longrightarrow> k \<le> D \<Longrightarrow> x \<in> V"
proof (induction k arbitrary: x)
  case 0
  then show ?case using inv by (simp add: bfs_inv_def)
next
  case (Suc k)
  then obtain u where u: "hop succs k origin u" and x: "x \<in> set (succs u)" by (auto simp: hop_Suc)
  have "u \<in> V" using Suc u by simp
  then obtain i where i: "i < length queue" and qi: "fst (queue ! i) = u"
    using inv by (auto simp: bfs_inv_def in_set_conv_nth)
  have sh: "shortest succs origin u (snd (queue ! i))"
    using inv i qi by (auto simp: bfs_inv_def dest!: bspec [OF _ nth_mem [OF i]] split: prod.splits)
  then have "snd (queue ! i) \<le> k" using u by (metis shortest_def not_le_imp_less)
  then have "snd (queue ! i) < D" using Suc.prems by simp
  then have "i < cursor" using lim [of i] i by (metis not_le_imp_less leD)
  then have "set (succs u) \<subseteq> V"
    using inv \<open>snd (queue ! i) < D\<close> D qi by (auto simp: bfs_inv_def)
  then show ?case using x by auto
qed

lemma scan_bfs_ok:
  assumes "scan_bfs mv mr d ts queue visited = Inr (queue', visited')"
  shows "\<exists>new. queue' = queue @ map (\<lambda>t. (t, d)) new \<and> distinct new
     \<and> set new = set ts - visited_set visited
     \<and> visited_set visited' = visited_set visited \<union> set ts"
  using assms
proof (induction mv mr d ts queue visited rule: scan_bfs.induct)
  case (2 mv mr d t ts queue visited)
  show ?case
  proof (cases "om_has visited t")
    case True
    then show ?thesis using 2 by (auto simp: insert_absorb)
  next
    case False
    then obtain new where "queue' = (queue @ [(t, d)]) @ map (\<lambda>t. (t, d)) new" and "distinct new"
      and "set new = set ts - insert t (visited_set visited)"
      and "visited_set visited' = insert t (visited_set visited) \<union> set ts"
      using 2 by (auto split: if_splits)
    then show ?thesis using False by (intro exI [of _ "t # new"]) auto
  qed
qed simp

lemma bfs_inv_skip:
  assumes inv: "bfs_inv succs origin max_depth cursor queue V" and c: "cursor < length queue"
    and deep: "max_depth \<le> snd (queue ! cursor)"
  shows "bfs_inv succs origin max_depth (Suc cursor) queue V"
proof -
  have "d \<le> Suc (snd (queue ! Suc cursor))" if "d \<in> snd ` set queue" "Suc cursor < length queue" for d
  proof -
    have "snd (queue ! cursor) \<le> snd (queue ! Suc cursor)"
      using queue_depths_mono [OF inv, of cursor "Suc cursor"] that(2) by simp
    moreover have "d \<le> Suc (snd (queue ! cursor))" using inv that(1) c by (auto simp: bfs_inv_def)
    ultimately show ?thesis by linarith
  qed
  then show ?thesis using inv c deep by (auto simp: bfs_inv_def less_Suc_eq)
qed

lemma bfs_inv_step:
  assumes inv: "bfs_inv succs origin max_depth cursor queue V" and c: "cursor < length queue"
    and q: "queue ! cursor = (n, d)" and shallow: "d < max_depth"
    and new: "distinct new" "set new = set (succs n) - V"
  shows "bfs_inv succs origin max_depth (Suc cursor) (queue @ map (\<lambda>t. (t, Suc d)) new) (V \<union> set (succs n))"
proof -
  let ?q = "queue @ map (\<lambda>t. (t, Suc d)) new"
  have bound: "\<forall>k \<in> snd ` set queue. k \<le> Suc d" and srt: "sorted (map snd queue)"
    using inv c q by (auto simp: bfs_inv_def)
  have nV: "(n, d) \<in> set queue" using c q by (metis nth_mem)
  have hopn: "hop succs d origin n" using inv nV by (auto simp: bfs_inv_def shortest_def)
  have later: "d \<le> snd (queue ! i)" if "cursor \<le> i" "i < length queue" for i
    using queue_depths_mono [OF inv that] q by simp
  have short: "shortest succs origin t (Suc d)" if "t \<in> set new" for t
  proof -
    have "\<not> hop succs j origin t" if "j < Suc d" for j
      using bfs_level_complete [OF inv later, of j t] that \<open>t \<in> set new\<close> new(2) shallow by auto
    moreover have "hop succs (Suc d) origin t"
      using hopn \<open>t \<in> set new\<close> new(2) by (auto simp: hop_Suc)
    ultimately show ?thesis by (simp add: shortest_def)
  qed
  have "sorted (map (\<lambda>x. Suc d) new)" by (induction new) simp_all
  then have srt': "sorted (map snd ?q)"
    using srt bound by (auto simp: sorted_append comp_def)
  have next_bound: "k \<le> Suc (snd (?q ! Suc cursor))" if "k \<in> snd ` set ?q" "Suc cursor < length ?q" for k
  proof -
    have "snd (?q ! cursor) \<le> snd (?q ! Suc cursor)"
      using that(2) sorted_nth_mono [OF srt', of cursor "Suc cursor"] by (simp del: map_append)
    then have "d \<le> snd (?q ! Suc cursor)" using c q by (simp add: nth_append)
    moreover have "k \<le> Suc d" using that(1) bound by auto
    ultimately show ?thesis by simp
  qed
  have fst_q: "fst ` set queue = V" and dq: "distinct (map fst queue)" using inv by (auto simp: bfs_inv_def)
  have "distinct (map fst ?q)" using dq new fst_q by (auto simp: comp_def)
  moreover have "fst ` set ?q = V \<union> set (succs n)" using fst_q new by (auto simp: image_Un image_image)
  moreover have "set (succs (fst (?q ! i))) \<subseteq> V \<union> set (succs n)"
    if "i < Suc cursor" "snd (?q ! i) < max_depth" for i
  proof (cases "i = cursor")
    case False
    then have "i < cursor" using that(1) by simp
    then have "set (succs (fst (queue ! i))) \<subseteq> V"
      using inv that(2) c by (simp add: bfs_inv_def nth_append)
    then show ?thesis using \<open>i < cursor\<close> c by (auto simp: nth_append)
  qed (use c q in \<open>simp add: nth_append\<close>)
  ultimately show ?thesis
    using inv c next_bound srt' short shallow unfolding bfs_inv_def by auto
qed

lemma bfs_loop_spec:
  assumes "bfs_loop succs max_depth mv mr cursor queue visited = Inr final"
    and "bfs_inv succs origin max_depth cursor queue (visited_set visited)"
  shows "\<exists>V. bfs_inv succs origin max_depth (length final) final V"
  using assms
proof (induction succs max_depth mv mr cursor queue visited rule: bfs_loop.induct)
  case (1 succs max_depth mv mr cursor queue visited)
  show ?case
  proof (cases "cursor < length queue")
    case True
    obtain n d where q: "queue ! cursor = (n, d)" by (cases "queue ! cursor")
    show ?thesis
    proof (cases "d \<ge> max_depth")
      case deep: True
      show ?thesis
        using "1.IH"(1) [OF True q [symmetric] refl deep] "1.prems" True q deep
          bfs_inv_skip [OF "1.prems"(2) True]
        by (simp add: bfs_loop.simps [of _ _ _ _ cursor])
    next
      case shallow: False
      then obtain queue' visited' where
        sc: "scan_bfs mv mr (d + 1) (succs n) queue visited = Inr (queue', visited')"
        using "1.prems"(1) True q
        by (auto simp: bfs_loop.simps [of _ _ _ _ cursor] split: sum.splits)
      from scan_bfs_ok [OF sc] obtain new where new: "queue' = queue @ map (\<lambda>t. (t, Suc d)) new"
        "distinct new" "set new = set (succs n) - visited_set visited"
        "visited_set visited' = visited_set visited \<union> set (succs n)" by auto
      have "bfs_inv succs origin max_depth (Suc cursor) queue' (visited_set visited')"
        using bfs_inv_step [OF "1.prems"(2) True q _ new(2,3)] shallow new(1,4) by simp
      then show ?thesis
        using "1.IH"(2) [OF True q [symmetric] refl shallow sc refl] "1.prems"(1) True q shallow sc
        by (simp add: bfs_loop.simps [of _ _ _ _ cursor])
    qed
  next
    case False
    then show ?thesis using "1.prems" by (auto simp: bfs_loop.simps [of _ _ _ _ cursor] bfs_inv_def)
  qed
qed

lemma bfs_correct:
  assumes "bfs_loop succs max_depth mv mr 0 [(origin, 0)] (os_insert origin om_empty) = Inr final"
  shows "distinct (map fst final) \<and>
    (\<forall>n d. (n, d) \<in> set final \<longleftrightarrow> shortest succs origin n d \<and> d \<le> max_depth)"
proof -
  have "bfs_inv succs origin max_depth 0 [(origin, 0)] (visited_set (os_insert origin om_empty))"
    by (auto simp: bfs_inv_def shortest_def)
  from bfs_loop_spec [OF assms this] obtain V
    where inv: "bfs_inv succs origin max_depth (length final) final V" ..
  have inV: "n \<in> V" if "shortest succs origin n d" "d \<le> max_depth" for n d
    using bfs_level_complete [OF inv, of max_depth d n] that by (auto simp: shortest_def)
  have fs: "fst ` set final = V" and ds: "distinct (map fst final)"
    and sh: "\<forall>(n, d) \<in> set final. shortest succs origin n d \<and> d \<le> max_depth"
    using inv by (simp_all add: bfs_inv_def)
  have "(n, d) \<in> set final" if s: "shortest succs origin n d" "d \<le> max_depth" for n d
  proof -
    obtain d' where m: "(n, d') \<in> set final" using fs inV [OF s] by force
    then have "d' = d" using sh s(1) shortest_unique by blast
    then show ?thesis using m by simp
  qed
  then show ?thesis using sh ds by fast
qed

text \<open>Giving up: more nodes lie within the depth bound than a bound allows.\<close>

lemma hop_shortest: "hop succs k a b \<Longrightarrow> \<exists>j\<le>k. shortest succs a b j"
proof (induction k rule: less_induct)
  case (less k)
  show ?case
  proof (cases "\<exists>j<k. hop succs j a b")
    case True
    then show ?thesis using less.IH by (meson less_imp_le order_trans)
  qed (use less.prems in \<open>auto simp: shortest_def\<close>)
qed

lemma scan_bfs_fail:
  "scan_bfs mv mr d ts queue visited = Inl msg \<Longrightarrow> length queue = card (visited_set visited) \<Longrightarrow>
     min mv mr < card (visited_set visited \<union> set ts)"
proof (induction mv mr d ts queue visited rule: scan_bfs.induct)
  case (2 mv mr d t ts queue visited)
  let ?V = "visited_set visited"
  have un: "?V \<union> set (t # ts) = insert t ?V \<union> set ts" by auto
  have le: "card (insert t ?V) \<le> card (?V \<union> set (t # ts))" by (intro card_mono) auto
  have sz: "om_size (os_insert t visited) = card (insert t ?V)"
    unfolding visited_insert [symmetric] by (rule om_size_card)
  show ?case
  proof (cases "om_has visited t \<or> om_size (os_insert t visited) > mv \<or> length queue \<ge> mr")
    case True
    then show ?thesis
      using 2 le sz un by (auto simp: insert_absorb split: if_splits)
  next
    case False
    then show ?thesis using 2 un by (simp add: card_insert_if)
  qed
qed simp

lemma bfs_loop_fail:
  assumes "bfs_loop succs max_depth mv mr cursor queue visited = Inl msg"
    and "bfs_inv succs origin max_depth cursor queue (visited_set visited)"
  shows "min mv mr < card {x. \<exists>k\<le>max_depth. hop succs k origin x}"
  using assms
proof (induction succs max_depth mv mr cursor queue visited rule: bfs_loop.induct)
  case (1 succs max_depth mv mr cursor queue visited)
  have True: "cursor < length queue"
    using "1.prems"(1) by (auto simp: bfs_loop.simps [of _ _ _ _ cursor] split: if_splits)
  obtain n d where q: "queue ! cursor = (n, d)" by (cases "queue ! cursor")
  show ?case
  proof (cases "d \<ge> max_depth")
    case deep: True
    show ?thesis
      using "1.IH"(1) [OF True q [symmetric] refl deep] "1.prems" True q deep
        bfs_inv_skip [OF "1.prems"(2) True]
      by (simp add: bfs_loop.simps [of _ _ _ _ cursor])
  next
    case shallow: False
    show ?thesis
    proof (cases "scan_bfs mv mr (d + 1) (succs n) queue visited")
      case (Inl err)
      let ?V = "visited_set visited"
      have mem: "(n, d) \<in> set queue" using True q by (metis nth_mem)
      have near: "\<exists>k\<le>max_depth. hop succs k origin x" if "x \<in> ?V" for x
      proof -
        have fq: "fst ` set queue = ?V"
          using "1.prems"(2) unfolding bfs_inv_def by (elim conjE)
        have sh: "\<forall>(n, d) \<in> set queue. shortest succs origin n d \<and> d \<le> max_depth"
          using "1.prems"(2) unfolding bfs_inv_def by (elim conjE)
        have "x \<in> fst ` set queue" using that by (simp only: fq)
        then obtain k where "(x, k) \<in> set queue" by auto
        then have "shortest succs origin x k \<and> k \<le> max_depth" using sh by blast
        then show ?thesis by (auto simp: shortest_def)
      qed
      have "hop succs (Suc d) origin x" if "x \<in> set (succs n)" for x
        using "1.prems"(2) mem that by (auto simp: bfs_inv_def shortest_def hop_Suc)
      then have "\<exists>k\<le>max_depth. hop succs k origin x" if "x \<in> set (succs n)" for x
        using that shallow by (metis Suc_leI not_le_imp_less)
      then have "?V \<union> set (succs n) \<subseteq> {x. \<exists>k\<le>max_depth. hop succs k origin x}"
        using near by blast
      moreover have "length queue = card ?V"
        using "1.prems"(2) unfolding bfs_inv_def by (metis distinct_card length_map list.set_map)
      ultimately show ?thesis
        using scan_bfs_fail [OF Inl] card_mono [of "{x. \<exists>k\<le>max_depth. hop succs k origin x}"]
        by (meson finite less_le_trans)
    next
      case (Inr r)
      obtain queue' visited' where r: "r = (queue', visited')" by (cases r)
      note sc = Inr [unfolded r]
      from scan_bfs_ok [OF sc] obtain new where new: "queue' = queue @ map (\<lambda>t. (t, Suc d)) new"
        "distinct new" "set new = set (succs n) - visited_set visited"
        "visited_set visited' = visited_set visited \<union> set (succs n)" by auto
      have "bfs_inv succs origin max_depth (Suc cursor) queue' (visited_set visited')"
        using bfs_inv_step [OF "1.prems"(2) True q _ new(2,3)] shallow new(1,4) by simp
      then show ?thesis
        using "1.IH"(2) [OF True q [symmetric] refl shallow sc refl] "1.prems"(1) True q shallow sc
        by (simp add: bfs_loop.simps [of _ _ _ _ cursor])
    qed
  qed
qed

lemma bfs_start: "bfs_inv succs origin max_depth 0 [(origin, 0)] (visited_set (os_insert origin om_empty))"
  by (auto simp: bfs_inv_def shortest_def)

section \<open>Kahn's algorithm\<close>

text \<open>
  \<open>entering succs U n\<close> counts the arcs from \<open>U\<close> to \<open>n\<close>, parallel ones included. The invariant: the
  stored degree of a node counts its arcs from nodes not yet listed, exactly the listed and the
  ready nodes have degree zero, and a listed node comes after every node with an arc to it.
\<close>

definition entering :: "(u64 \<Rightarrow> u64 list) \<Rightarrow> u64 set \<Rightarrow> u64 \<Rightarrow> nat" where
  "entering succs U n = (\<Sum>a\<in>U. count_list (succs a) n)"

definition kahn_inv ::
    "(u64 \<Rightarrow> u64 list) \<Rightarrow> u64 set \<Rightarrow> (u64, nat) omap \<Rightarrow> u64 list \<Rightarrow> u64 list \<Rightarrow> u64 list \<Rightarrow> bool" where
  "kahn_inv succs V degree ready order pending \<longleftrightarrow>
     distinct (order @ ready) \<and> set (order @ ready) \<subseteq> V \<and> set pending \<subseteq> V
     \<and> (\<forall>n\<in>V. om_find degree n = Some (entering succs (V - set order) n + count_list pending n))
     \<and> (\<forall>n\<in>V. n \<in> set (order @ ready) \<longleftrightarrow> om_find degree n = Some 0)"

lemma scan_kahn_inv:
  "kahn_inv succs V degree ready order pending \<Longrightarrow>
   scan_kahn pending degree ready = (degree', ready') \<Longrightarrow>
   kahn_inv succs V degree' ready' order []"
proof (induction pending degree ready rule: scan_kahn.induct)
  case (2 t ts degree ready)
  have t: "t \<in> V" using 2 by (simp add: kahn_inv_def)
  then obtain k where k: "om_find degree t = Some (Suc k)"
    and kv: "Suc k = entering succs (V - set order) t + count_list (t # ts) t"
    using "2.prems"(1) by (fastforce simp: kahn_inv_def)
  have fresh: "t \<notin> set (order @ ready)" using "2.prems"(1) t k by (auto simp: kahn_inv_def)
  have "kahn_inv succs V (om_put t k degree) (if k = 0 then insort t ready else ready) order ts"
    using "2.prems"(1) t k kv fresh unfolding kahn_inv_def
    by (auto simp: set_insort_key distinct_insort)
  then show ?case using "2.IH"(3) [OF k refl] "2.prems"(2) k by simp
qed (simp add: kahn_inv_def)

lemma entering_remove:
  assumes "finite V" and "c \<in> V" and "c \<notin> set order"
  shows "entering succs (V - set order) n = entering succs (V - set (order @ [c])) n + count_list (succs c) n"
proof -
  have "V - set order = insert c (V - set (order @ [c]))" using assms by auto
  then show ?thesis using assms(1) by (simp add: entering_def)
qed

text \<open>Listed nodes respect the arcs.\<close>

definition causal_order :: "(u64 \<Rightarrow> u64 list) \<Rightarrow> u64 set \<Rightarrow> u64 list \<Rightarrow> bool" where
  "causal_order succs V order \<longleftrightarrow>
     (\<forall>i<length order. \<forall>a\<in>V. order ! i \<in> set (succs a) \<longrightarrow> a \<in> set (take i order))"

lemma entering_zero:
  "finite U \<Longrightarrow> entering succs U n = 0 \<longleftrightarrow> (\<forall>a\<in>U. n \<notin> set (succs a))"
  by (simp add: entering_def count_list_0_iff)

lemma kahn_pop:
  assumes fin: "finite V" and closed: "set (succs c) \<subseteq> V"
    and inv: "kahn_inv succs V degree (c # ready) order []" and caus: "causal_order succs V order"
  shows "kahn_inv succs V degree ready (order @ [c]) (succs c)" and "causal_order succs V (order @ [c])"
proof -
  have c: "c \<in> V" "c \<notin> set order" using inv by (auto simp: kahn_inv_def)
  show "kahn_inv succs V degree ready (order @ [c]) (succs c)"
    using inv closed entering_remove [OF fin c] by (auto simp: kahn_inv_def)
  have "entering succs (V - set order) c = 0"
    using inv c by (fastforce simp: kahn_inv_def)
  then have "\<forall>a\<in>V - set order. c \<notin> set (succs a)"
    using fin by (simp add: entering_zero)
  then show "causal_order succs V (order @ [c])"
    using caus by (auto simp: causal_order_def nth_append less_Suc_eq)
qed

lemma kahn_loop_spec:
  assumes "finite V" and "\<And>a. a \<in> V \<Longrightarrow> set (succs a) \<subseteq> V"
    and "kahn_inv succs V degree ready order []" and "causal_order succs V order"
  shows "\<exists>degree'. kahn_inv succs V degree' [] (kahn_loop succs degree ready order) []
     \<and> causal_order succs V (kahn_loop succs degree ready order)"
  using assms
proof (induction succs degree ready order rule: kahn_loop.induct)
  case (2 succs degree current ready order)
  obtain degree' ready' where s: "scan_kahn (succs current) degree ready = (degree', ready')"
    by (cases "scan_kahn (succs current) degree ready")
  have "current \<in> V" using "2.prems"(3) by (simp add: kahn_inv_def)
  then have closed: "set (succs current) \<subseteq> V" by (rule "2.prems"(2))
  note pop = kahn_pop [OF "2.prems"(1) closed "2.prems"(3,4)]
  show ?case
    using "2.IH" [OF s [symmetric] refl "2.prems"(1,2) scan_kahn_inv [OF pop(1) s] pop(2)] by (simp add: s)
qed auto

lemma causal_order_acyclic:
  assumes "causal_order succs V order" and "V = set order" and "distinct order"
    and "\<And>a. a \<in> V \<Longrightarrow> set (succs a) \<subseteq> V" and "\<And>a. a \<notin> V \<Longrightarrow> succs a = []"
  shows "acyclic (arcs succs)"
proof -
  define pos where "pos a = (THE i. i < length order \<and> order ! i = a)" for a
  have pos: "pos (order ! i) = i" if "i < length order" for i
    unfolding pos_def using that assms(3) by (auto simp: nth_eq_iff_index_eq intro!: the_equality)
  have "arcs succs \<subseteq> measure pos"
  proof
    fix x assume "x \<in> arcs succs"
    then obtain a b where x: "x = (a, b)" "b \<in> set (succs a)" by (auto simp: arcs_def)
    then have "a \<in> V" "b \<in> V" using assms(4,5) by (cases "a \<in> V"; auto)+
    then obtain j where j: "j < length order" "order ! j = b" using assms(2) by (auto simp: in_set_conv_nth)
    then have "a \<in> set (take j order)" using assms(1) x \<open>a \<in> V\<close> by (auto simp: causal_order_def)
    then obtain i where "i < j" "order ! i = a" using j by (auto simp: in_set_conv_nth)
    then show "x \<in> measure pos" using x j pos by (auto simp: less_trans)
  qed
  then show ?thesis by (meson acyclic_subset wf_acyclic wf_measure)
qed

lemma kahn_correct:
  assumes "finite V" and "\<And>a. a \<in> V \<Longrightarrow> set (succs a) \<subseteq> V" and "\<And>a. a \<notin> V \<Longrightarrow> succs a = []"
    and "kahn_inv succs V degree ready [] []"
  defines "order \<equiv> kahn_loop succs degree ready []"
  shows "distinct order" and "set order \<subseteq> V" and "causal_order succs V order"
    and "length order = card V \<longleftrightarrow> acyclic (arcs succs)"
proof -
  have "causal_order succs V []" by (simp add: causal_order_def)
  from kahn_loop_spec [OF assms(1,2,4) this] obtain degree' where
    inv: "kahn_inv succs V degree' [] order []" and caus: "causal_order succs V order"
    unfolding order_def by blast
  show d: "distinct order" and sub: "set order \<subseteq> V" and "causal_order succs V order"
    using inv caus by (auto simp: kahn_inv_def)
  have len: "length order = card V \<longleftrightarrow> set order = V"
    using d sub assms(1) by (metis card_subset_eq distinct_card)
  show "length order = card V \<longleftrightarrow> acyclic (arcs succs)"
  proof
    assume "length order = card V"
    then show "acyclic (arcs succs)"
      using causal_order_acyclic [OF caus _ d assms(2,3)] len by simp
  next
    assume ac: "acyclic (arcs succs)"
    have "finite (arcs succs)" by simp
    then have wf: "wf (arcs succs)" using ac by (rule finite_acyclic_wf)
    have "V - set order = {}"
    proof (rule ccontr)
      assume "V - set order \<noteq> {}"
      then obtain z where z: "z \<in> V - set order" "\<And>y. (y, z) \<in> arcs succs \<Longrightarrow> y \<notin> V - set order"
        using wfE_min' [OF wf] by metis
      then have "entering succs (V - set order) z = 0"
        using assms(1) by (auto simp: entering_zero arcs_def)
      then have "om_find degree' z = Some 0" using inv z(1) by (auto simp: kahn_inv_def)
      then show False using inv z(1) by (auto simp: kahn_inv_def)
    qed
    then show "length order = card V" using sub len by blast
  qed
qed

end
