(* ===== verification/Graph_Inv.thy ===== *)
theory Graph_Inv
  imports Graph_Search
begin

text \<open>
  The invariant of \<^verbatim>\<open>ProvenanceGraph\<close>: the three index maps agree with the edge map, every edge joins
  two present nodes, and the arcs are acyclic. Every mutator keeps it and a refused mutation leaves
  the graph as it was; under it the searches of \<^verbatim>\<open>src/graph.cpp\<close> compute what their comments promise.
\<close>

section \<open>The invariant\<close>

definition edge_ids :: "ProvenanceGraph \<Rightarrow> (ProvenanceEdge \<Rightarrow> u64) \<Rightarrow> u64 \<Rightarrow> u64 set" where
  "edge_ids g endpoint a = {i. \<exists>e. om_find (g_edges g) i = Some e \<and> endpoint e = a}"

definition index_ok :: "ProvenanceGraph \<Rightarrow> (ProvenanceEdge \<Rightarrow> u64) \<Rightarrow> (u64, u64 list) omap \<Rightarrow> bool" where
  "index_ok g endpoint idx \<longleftrightarrow>
     (\<forall>a. case om_find idx a of
            None \<Rightarrow> \<not> om_has (g_nodes g) a
          | Some ids \<Rightarrow> om_has (g_nodes g) a \<and> sorted_wrt (<) ids \<and> set ids = edge_ids g endpoint a)"

definition derivations_ok :: "ProvenanceGraph \<Rightarrow> bool" where
  "derivations_ok g \<longleftrightarrow>
     (\<forall>d i. om_find (g_derivations g) d = Some i \<longrightarrow>
        (\<exists>e. om_find (g_edges g) i = Some e \<and> e_derivation e = d))
     \<and> (\<forall>i e. om_find (g_edges g) i = Some e \<longrightarrow> om_has (g_derivations g) (e_derivation e))"

definition entries_ok :: "ProvenanceGraph \<Rightarrow> bool" where
  "entries_ok g \<longleftrightarrow>
     (\<forall>i n. om_find (g_nodes g) i = Some n \<longrightarrow> n_id n = i \<and> id_valid i)
     \<and> (\<forall>i e. om_find (g_edges g) i = Some e \<longrightarrow>
          e_id e = i \<and> st_is_ok (validate_edge_consistency e)
          \<and> om_has (g_nodes g) (e_from e) \<and> om_has (g_nodes g) (e_to e))"

abbreviation causes :: "ProvenanceGraph \<Rightarrow> (u64 \<times> u64) set" where
  "causes g \<equiv> arcs (neighbours g TD_Outgoing any_type)"

definition graph_indexed :: "ProvenanceGraph \<Rightarrow> bool" where
  "graph_indexed g \<longleftrightarrow> entries_ok g \<and> index_ok g e_from (g_outgoing g)
     \<and> index_ok g e_to (g_incoming g) \<and> derivations_ok g"

definition graph_wf :: "ProvenanceGraph \<Rightarrow> bool" where
  "graph_wf g \<longleftrightarrow> graph_indexed g \<and> acyclic (causes g)"

definition graph_bounded :: "Limits \<Rightarrow> ProvenanceGraph \<Rightarrow> bool" where
  "graph_bounded limits g \<longleftrightarrow>
     om_size (g_nodes g) \<le> max_nodes_per_lineage limits
     \<and> om_size (g_edges g) \<le> max_edges_per_lineage limits
     \<and> (\<forall>a. incoming_count g a \<le> max_parents_per_node limits
          \<and> outgoing_count g a \<le> max_children_per_node limits)"

lemma graph_indexed_parts:
  assumes "graph_indexed g"
  shows "entries_ok g" "index_ok g e_from (g_outgoing g)" "index_ok g e_to (g_incoming g)"
    "derivations_ok g"
  using assms by (simp_all add: graph_indexed_def)

lemma graph_wf_indexed [simp, intro]: "graph_wf g \<Longrightarrow> graph_indexed g"
  by (simp add: graph_wf_def)

lemma graph_wf_parts:
  assumes "graph_wf g"
  shows "entries_ok g" "index_ok g e_from (g_outgoing g)" "index_ok g e_to (g_incoming g)"
    "derivations_ok g" "acyclic (causes g)"
  using assms by (simp_all add: graph_wf_def graph_indexed_def)

lemma edge_ends:
  assumes "entries_ok g" and "om_find (g_edges g) i = Some e"
  shows "e_id e = i" "om_has (g_nodes g) (e_from e)" "om_has (g_nodes g) (e_to e)"
    "st_is_ok (validate_edge_consistency e)"
  using assms by (auto simp: entries_ok_def)

subsection \<open>What the indexes list\<close>

lemma set_map_filter: "set (List.map_filter f xs) = {y. \<exists>x \<in> set xs. f x = Some y}"
  by (auto simp: List.map_filter_def image_iff) (metis option.sel)

lemma index_ids:
  assumes "index_ok g endpoint idx" and "om_find idx a = Some ids"
  shows "sorted_wrt (<) ids" and "set ids = edge_ids g endpoint a" and "om_has (g_nodes g) a"
  using assms by (auto simp: index_ok_def dest!: spec [of _ a])

lemma index_none:
  assumes "index_ok g endpoint idx" and "om_find idx a = None"
  shows "\<not> om_has (g_nodes g) a"
  using assms by (auto simp: index_ok_def dest!: spec [of _ a])

lemma neighbours_out:
  assumes "graph_indexed g"
  shows "set (neighbours g TD_Outgoing keep a) =
     {e_to e | i e. om_find (g_edges g) i = Some e \<and> e_from e = a \<and> keep (e_type e)}"
proof (cases "om_find (g_outgoing g) a")
  case None
  then have "\<not> om_has (g_nodes g) a" using index_none assms by (auto simp: graph_indexed_def)
  then show ?thesis using assms None by (auto simp: neighbours_def graph_indexed_def entries_ok_def)
next
  case (Some ids)
  have "set ids = edge_ids g e_from a" using index_ids [OF graph_indexed_parts(2) [OF assms] Some] by simp
  then show ?thesis
    using Some by (force simp: neighbours_def set_map_filter edge_ids_def find_edge_def split: option.splits if_splits)
qed

lemma neighbours_in:
  assumes "graph_indexed g"
  shows "set (neighbours g TD_Incoming keep a) =
     {e_from e | i e. om_find (g_edges g) i = Some e \<and> e_to e = a \<and> keep (e_type e)}"
proof (cases "om_find (g_incoming g) a")
  case None
  then have "\<not> om_has (g_nodes g) a" using index_none assms by (auto simp: graph_indexed_def)
  then show ?thesis using assms None by (auto simp: neighbours_def graph_indexed_def entries_ok_def)
next
  case (Some ids)
  have "set ids = edge_ids g e_to a" using index_ids [OF graph_indexed_parts(3) [OF assms] Some] by simp
  then show ?thesis
    using Some by (force simp: neighbours_def set_map_filter edge_ids_def find_edge_def split: option.splits if_splits)
qed

lemma causes_iff:
  assumes "graph_indexed g"
  shows "(a, b) \<in> causes g \<longleftrightarrow> (\<exists>i e. om_find (g_edges g) i = Some e \<and> e_from e = a \<and> e_to e = b)"
  using neighbours_out [OF assms] by (auto simp: arcs_def any_type_def)

lemma causes_nodes:
  assumes "graph_indexed g" and "(a, b) \<in> causes g"
  shows "om_has (g_nodes g) a" and "om_has (g_nodes g) b"
proof -
  obtain i e where e: "om_find (g_edges g) i = Some e" "e_from e = a" "e_to e = b"
    using assms(2) causes_iff [OF assms(1)] by blast
  show "om_has (g_nodes g) a" "om_has (g_nodes g) b"
    using edge_ends(2,3) [OF graph_indexed_parts(1) [OF assms(1)] e(1)] e(2,3) by simp_all
qed

section \<open>The cycle check\<close>

lemma check_add_edge_present:
  assumes "id_valid a" and "id_valid b" and "a \<noteq> b"
    and "om_has (g_nodes g) a" and "om_has (g_nodes g) b"
  shows "(st_outcome (check_add_edge g a b limits) = O_CycleDetected \<and> (b, a) \<in> (causes g)\<^sup>*)
   \<or> (st_outcome (check_add_edge g a b limits) = O_Ok \<and> (b, a) \<notin> (causes g)\<^sup>*)
   \<or> (st_outcome (check_add_edge g a b limits) = O_ResourceLimit
      \<and> max_visited_nodes limits < card ((causes g)\<^sup>* `` {b}))"
  using assms dfs_from_start [of "neighbours g TD_Outgoing any_type" "max_visited_nodes limits" a b]
  by (simp add: check_add_edge_def)

lemma check_add_edge_ok:
  assumes "graph_wf g" and "st_is_ok (check_add_edge g a b limits)"
  shows "a \<noteq> b" and "(b, a) \<notin> (causes g)\<^sup>*"
proof -
  have v: "id_valid a" "id_valid b" "a \<noteq> b"
    using assms(2) by (auto simp: check_add_edge_def split: if_splits)
  then show "a \<noteq> b" by simp
  show "(b, a) \<notin> (causes g)\<^sup>*"
  proof (cases "om_has (g_nodes g) a \<and> om_has (g_nodes g) b")
    case True
    then show ?thesis
      using check_add_edge_present [OF v, of g limits] assms(2) by (auto simp: st_is_ok_def)
  next
    case False
    show ?thesis
    proof
      assume "(b, a) \<in> (causes g)\<^sup>*"
      then have "(b, a) \<in> (causes g)\<^sup>+" using v(3) by (metis rtranclD)
      then have "om_has (g_nodes g) b" "om_has (g_nodes g) a"
        using causes_nodes [OF graph_wf_indexed [OF assms(1)]] by (metis tranclD, metis tranclD2)
      then show False using False by simp
    qed
  qed
qed

section \<open>Mutators keep the invariant\<close>

lemma index_ok_cong:
  "(\<And>a. om_has (g_nodes g') a \<longleftrightarrow> om_has (g_nodes g) a) \<Longrightarrow> g_edges g' = g_edges g \<Longrightarrow>
     index_ok g' endpoint idx \<longleftrightarrow> index_ok g endpoint idx"
  by (simp add: index_ok_def edge_ids_def split: option.splits)

lemma neighbours_cong:
  assumes "g_edges g' = g_edges g" "g_outgoing g' = g_outgoing g" "g_incoming g' = g_incoming g"
  shows "neighbours g' dir keep = neighbours g dir keep"
proof -
  have fe: "find_edge g' = find_edge g" using assms(1) by (intro ext) (simp add: find_edge_def)
  show ?thesis by (intro ext) (simp only: neighbours_def fe assms)
qed

text \<open>Replacing the record of a present node by one with the same identity.\<close>

lemma replace_node_wf [graph_inv_intro]:
  assumes wf: "graph_wf g" and i: "om_has (g_nodes g) i" and n: "n_id n = i"
  shows "graph_wf (g\<lparr>g_nodes := om_put i n (g_nodes g)\<rparr>)" (is "graph_wf ?g")
proof -
  have has: "om_has (g_nodes ?g) a \<longleftrightarrow> om_has (g_nodes g) a" for a using i by auto
  have "entries_ok ?g"
    using wf i n unfolding graph_wf_def graph_indexed_def entries_ok_def by (auto simp: om_has_def)
  moreover have "causes ?g = causes g" using neighbours_cong [of ?g g] by simp
  moreover have "derivations_ok ?g" using wf by (simp add: graph_wf_def graph_indexed_def derivations_ok_def)
  ultimately show ?thesis
    using wf index_ok_cong [OF has] by (simp add: graph_wf_def graph_indexed_def)
qed

lemma replace_node_bounded:
  assumes "om_has (g_nodes g) i" and "graph_bounded limits g"
  shows "graph_bounded limits (g\<lparr>g_nodes := om_put i n (g_nodes g)\<rparr>)"
  using assms by (simp add: graph_bounded_def om_size_put incoming_count_def outgoing_count_def)

lemma empty_graph_wf [simp]: "graph_wf empty_graph"
proof -
  have "causes empty_graph = {}"
    by (auto simp: arcs_def neighbours_def empty_graph_def)
  then show ?thesis
    by (simp add: graph_wf_def graph_indexed_def entries_ok_def index_ok_def derivations_ok_def acyclic_def)
       (simp add: empty_graph_def)
qed

lemma empty_graph_bounded [simp]: "graph_bounded limits empty_graph"
  by (simp add: graph_bounded_def empty_graph_def incoming_count_def outgoing_count_def)

subsection \<open>A new node\<close>

definition with_node :: "ProvenanceNode \<Rightarrow> ProvenanceGraph \<Rightarrow> ProvenanceGraph" where
  "with_node n g = g\<lparr>g_nodes := om_emplace (n_id n) n (g_nodes g),
     g_outgoing := om_emplace (n_id n) [] (g_outgoing g),
     g_incoming := om_emplace (n_id n) [] (g_incoming g)\<rparr>"

lemma with_node_index:
  assumes "entries_ok g" and "index_ok g endpoint idx" and new: "\<not> om_has (g_nodes g) (n_id n)"
    and ends: "\<And>i e. om_find (g_edges g) i = Some e \<Longrightarrow> om_has (g_nodes g) (endpoint e)"
  shows "index_ok (with_node n g) endpoint (om_emplace (n_id n) [] idx)"
proof -
  have none: "om_find idx (n_id n) = None"
    using assms(2) new by (cases "om_find idx (n_id n)") (auto dest: index_ids(3))
  have "edge_ids g endpoint (n_id n) = {}" using new by (auto simp: edge_ids_def dest: ends)
  then show ?thesis
    unfolding index_ok_def
  proof (intro allI)
    fix c
    show "case om_find (om_emplace (n_id n) [] idx) c of
            None \<Rightarrow> \<not> om_has (g_nodes (with_node n g)) c
          | Some ids \<Rightarrow> om_has (g_nodes (with_node n g)) c \<and> sorted_wrt (<) ids
              \<and> set ids = edge_ids (with_node n g) endpoint c"
    proof (cases "c = n_id n")
      case False
      have "case om_find idx c of None \<Rightarrow> \<not> om_has (g_nodes g) c
          | Some ids \<Rightarrow> om_has (g_nodes g) c \<and> sorted_wrt (<) ids \<and> set ids = edge_ids g endpoint c"
        using assms(2) by (simp only: index_ok_def)
      then show ?thesis
        using False by (simp add: om_find_emplace with_node_def edge_ids_def split: option.splits)
    qed (use none \<open>edge_ids g endpoint (n_id n) = {}\<close> in \<open>simp add: om_find_emplace with_node_def edge_ids_def\<close>)
  qed
qed

lemma with_node_wf:
  assumes wf: "graph_wf g" and new: "om_find (g_nodes g) (n_id n) = None" and v: "id_valid (n_id n)"
  shows "graph_wf (with_node n g)"
proof -
  note p = graph_wf_parts [OF wf]
  have nh: "\<not> om_has (g_nodes g) (n_id n)" using new by (simp add: om_has_def)
  have "om_find (g_outgoing g) (n_id n) = None"
    using p(2) nh by (cases "om_find (g_outgoing g) (n_id n)") (auto dest: index_ids(3))
  then have "neighbours (with_node n g) TD_Outgoing any_type = neighbours g TD_Outgoing any_type"
    by (intro ext) (auto simp: neighbours_def find_edge_def with_node_def om_find_emplace List.map_filter_def
        split: option.splits)
  moreover have "entries_ok (with_node n g)"
    using p(1) v new by (auto simp: entries_ok_def with_node_def om_find_emplace)
  moreover have "derivations_ok (with_node n g)" using p(4) by (simp add: derivations_ok_def with_node_def)
  moreover have "index_ok (with_node n g) e_from (g_outgoing (with_node n g))"
    "index_ok (with_node n g) e_to (g_incoming (with_node n g))"
    using with_node_index [OF p(1,2) nh] with_node_index [OF p(1,3) nh] edge_ends [OF p(1)]
    by (simp_all add: with_node_def)
  ultimately show ?thesis using p(5) by (simp add: graph_wf_def graph_indexed_def)
qed

lemma add_node_result:
  "(\<exists>st. add_node H n limits g = (g, st) \<and> \<not> st_is_ok st)
   \<or> (add_node H n limits g = (with_node n g, st_ok) \<and> om_find (g_nodes g) (n_id n) = None
      \<and> id_valid (n_id n) \<and> st_is_ok (validate_node_consistency n)
      \<and> om_size (g_nodes g) < max_nodes_per_lineage limits)"
  by (simp add: add_node_def with_node_def split: option.split)

lemma add_node_cases:
  obtains (rejected) st where "add_node H n limits g = (g, st)" "\<not> st_is_ok st"
  | (added) "add_node H n limits g = (with_node n g, st_ok)" "om_find (g_nodes g) (n_id n) = None"
      "id_valid (n_id n)" "st_is_ok (validate_node_consistency n)"
      "om_size (g_nodes g) < max_nodes_per_lineage limits"
  by (rule disjE [OF add_node_result [of H n limits g]]; elim exE conjE; metis)

subsection \<open>A new edge\<close>

definition with_edge :: "ProvenanceEdge \<Rightarrow> ProvenanceGraph \<Rightarrow> ProvenanceGraph" where
  "with_edge e g = g\<lparr>g_edges := om_emplace (e_id e) e (g_edges g),
     g_derivations := om_emplace (e_derivation e) (e_id e) (g_derivations g),
     g_outgoing := om_emplace (e_to e) []
       (om_put (e_from e) (insert_upper (e_id e) (om_get [] (g_outgoing g) (e_from e))) (g_outgoing g)),
     g_incoming := om_emplace (e_from e) []
       (om_put (e_to e) (insert_upper (e_id e) (om_get [] (g_incoming g) (e_to e))) (g_incoming g))\<rparr>"

lemma insert_upper_set [simp]: "set (insert_upper x xs) = insert x (set xs)"
  by (auto simp: insert_upper_def dest: set_takeWhileD set_dropWhileD)
     (metis Un_iff set_append takeWhile_dropWhile_id)

lemma insert_upper_length [simp]: "length (insert_upper x xs) = Suc (length xs)"
proof -
  have "length (takeWhile (\<lambda>y. \<not> x < y) xs) + length (dropWhile (\<lambda>y. \<not> x < y) xs) = length xs"
    by (metis length_append takeWhile_dropWhile_id)
  then show ?thesis by (simp add: insert_upper_def)
qed

lemma insert_upper_sorted: "sorted_wrt (<) xs \<Longrightarrow> x \<notin> set xs \<Longrightarrow> sorted_wrt (<) (insert_upper x xs)"
proof (induction xs)
  case (Cons y ys)
  then show ?case
    by (cases "x < y") (auto simp: insert_upper_def not_less dest!: set_takeWhileD set_dropWhileD intro: less_trans)
qed (simp add: insert_upper_def)

lemma with_edge_index:
  assumes idx: "index_ok g endpoint idx" and new: "om_find (g_edges g) (e_id e) = None"
    and a: "om_has (g_nodes g) (endpoint e)" and b: "om_has (g_nodes g) b"
  shows "index_ok (with_edge e g) endpoint
     (om_emplace b [] (om_put (endpoint e) (insert_upper (e_id e) (om_get [] idx (endpoint e))) idx))"
proof -
  obtain ids where ids: "om_find idx (endpoint e) = Some ids"
    using index_none [OF idx, of "endpoint e"] a by (cases "om_find idx (endpoint e)") auto
  have hb: "om_find idx b \<noteq> None" using index_none [OF idx, of b] b by auto
  have fresh: "e_id e \<notin> set ids" using index_ids(2) [OF idx ids] new by (auto simp: edge_ids_def)
  have E: "edge_ids (with_edge e g) endpoint c =
      (if c = endpoint e then insert (e_id e) (edge_ids g endpoint c) else edge_ids g endpoint c)" for c
    using new by (auto simp: edge_ids_def with_edge_def om_find_emplace)
  have N: "om_has (g_nodes (with_edge e g)) c \<longleftrightarrow> om_has (g_nodes g) c" for c
    by (simp add: with_edge_def)
  show ?thesis
    unfolding index_ok_def
  proof
    fix c
    show "case om_find (om_emplace b [] (om_put (endpoint e)
              (insert_upper (e_id e) (om_get [] idx (endpoint e))) idx)) c of
            None \<Rightarrow> \<not> om_has (g_nodes (with_edge e g)) c
          | Some ids' \<Rightarrow> om_has (g_nodes (with_edge e g)) c \<and> sorted_wrt (<) ids'
              \<and> set ids' = edge_ids (with_edge e g) endpoint c"
    proof (cases "c = endpoint e")
      case True
      then show ?thesis
        using ids a hb fresh index_ids(1,2) [OF idx ids]
        by (simp add: om_find_emplace om_get_def E N insert_upper_sorted)
    next
      case False
      have "case om_find idx c of None \<Rightarrow> \<not> om_has (g_nodes g) c
          | Some ids \<Rightarrow> om_has (g_nodes g) c \<and> sorted_wrt (<) ids \<and> set ids = edge_ids g endpoint c"
        using idx by (simp only: index_ok_def)
      then show ?thesis
        using False hb N by (simp add: om_find_emplace E split: option.splits)
    qed
  qed
qed

lemma with_edge_causes:
  assumes wf: "graph_wf g" and new: "om_find (g_edges g) (e_id e) = None"
    and ends: "om_has (g_nodes g) (e_from e)" "om_has (g_nodes g) (e_to e)"
  shows "causes (with_edge e g) = insert (e_from e, e_to e) (causes g)"
proof -
  let ?g = "with_edge e g"
  have idx: "index_ok ?g e_from (g_outgoing ?g)"
    using with_edge_index [OF graph_wf_parts(2) [OF wf] new ends] by (simp add: with_edge_def)
  have arc: "b \<in> set (neighbours ?g TD_Outgoing any_type a) \<longleftrightarrow>
      (\<exists>i e'. om_find (g_edges ?g) i = Some e' \<and> e_from e' = a \<and> e_to e' = b)" for a b
  proof (cases "om_find (g_outgoing ?g) a")
    case None
    then have "\<not> om_has (g_nodes g) a" using index_none [OF idx] by (simp add: with_edge_def)
    then show ?thesis
      using None ends edge_ends [OF graph_wf_parts(1) [OF wf]]
      by (auto simp: neighbours_def with_edge_def om_find_emplace split: if_splits)
  next
    case (Some ids)
    then show ?thesis
      using index_ids(2) [OF idx Some]
      by (force simp: neighbours_def set_map_filter edge_ids_def find_edge_def any_type_def split: option.splits)
  qed
  have "om_find (g_edges ?g) i = Some e' \<longleftrightarrow> i = e_id e \<and> e' = e \<or> om_find (g_edges g) i = Some e'" for i e'
    using new by (auto simp: with_edge_def om_find_emplace)
  then show ?thesis
    using arc causes_iff [OF graph_wf_indexed [OF wf]] by (auto simp: arcs_def set_eq_iff)
qed

lemma with_edge_wf:
  assumes wf: "graph_wf g" and new: "om_find (g_edges g) (e_id e) = None"
    and ends: "om_has (g_nodes g) (e_from e)" "om_has (g_nodes g) (e_to e)"
    and ok: "st_is_ok (validate_edge_consistency e)" and ac: "(e_to e, e_from e) \<notin> (causes g)\<^sup>*"
  shows "graph_wf (with_edge e g)"
proof -
  note p = graph_wf_parts [OF wf]
  have "acyclic (causes (with_edge e g))"
    using with_edge_causes [OF wf new ends] p(5) ac by simp
  moreover have "entries_ok (with_edge e g)"
    using p(1) ends ok new by (auto simp: entries_ok_def with_edge_def om_find_emplace)
  moreover have "derivations_ok (with_edge e g)"
  proof -
    have "om_find (g_derivations g) d \<noteq> Some (e_id e)" for d
      using p(4) new by (fastforce simp: derivations_ok_def)
    moreover have "om_has (g_derivations g) (e_derivation e) \<longrightarrow>
        om_find (g_derivations g) (e_derivation e) \<noteq> None" by (simp add: om_has_def)
    ultimately show ?thesis
      using p(4) new unfolding derivations_ok_def
      by (auto simp: with_edge_def om_find_emplace split: if_splits)
  qed
  moreover have "index_ok (with_edge e g) e_from (g_outgoing (with_edge e g))"
    using with_edge_index [OF p(2) new ends] by (simp add: with_edge_def)
  moreover have "index_ok (with_edge e g) e_to (g_incoming (with_edge e g))"
    using with_edge_index [OF p(3) new ends(2,1)] by (simp add: with_edge_def)
  ultimately show ?thesis by (simp add: graph_wf_def graph_indexed_def)
qed

lemma add_edge_result:
  "(\<exists>st. add_edge H e limits g = (g, st) \<and> \<not> st_is_ok st)
   \<or> (add_edge H e limits g = (with_edge e g, st_ok) \<and> om_find (g_edges g) (e_id e) = None
      \<and> st_is_ok (validate_edge_consistency e) \<and> om_has (g_nodes g) (e_from e)
      \<and> om_has (g_nodes g) (e_to e) \<and> st_is_ok (check_add_edge g (e_from e) (e_to e) limits)
      \<and> om_size (g_edges g) < max_edges_per_lineage limits
      \<and> incoming_count g (e_to e) < max_parents_per_node limits
      \<and> outgoing_count g (e_from e) < max_children_per_node limits
      \<and> (\<exists>n. om_find (g_nodes g) (e_from e) = Some n \<and> n_lineage n = e_lineage e))"
proof -
  have sz: "om_size (g_nodes g) \<noteq> 0" if "om_has (g_nodes g) (e_from e)"
  proof -
    have "e_from e \<in> {k. om_has (g_nodes g) k}" using that by simp
    then show ?thesis by (auto simp: om_size_card card_eq_0_iff)
  qed
  have lin: "e_lineage e \<noteq> 0" if "st_is_ok (validate_edge_consistency e)"
    using that by (auto simp: validate_edge_consistency_def id_valid_def split: if_splits)
  show ?thesis
    using sz lin
    by (cases "om_find (g_nodes g) (e_from e)"; cases "om_find (g_edges g) (e_id e)")
       (simp_all add: add_edge_def with_edge_def om_has_def not_le)
qed

lemma add_edge_cases:
  obtains (rejected) st where "add_edge H e limits g = (g, st)" "\<not> st_is_ok st"
  | (added) "add_edge H e limits g = (with_edge e g, st_ok)" "om_find (g_edges g) (e_id e) = None"
      "st_is_ok (validate_edge_consistency e)" "om_has (g_nodes g) (e_from e)" "om_has (g_nodes g) (e_to e)"
      "st_is_ok (check_add_edge g (e_from e) (e_to e) limits)"
      "om_size (g_edges g) < max_edges_per_lineage limits"
      "incoming_count g (e_to e) < max_parents_per_node limits"
      "outgoing_count g (e_from e) < max_children_per_node limits"
  by (rule disjE [OF add_edge_result [of H e limits g]]; elim exE conjE; metis)

end
