(* ===== verification/Graph_Props.thy ===== *)
theory Graph_Props
  imports Graph_Inv "HOL-Library.Sublist"
begin

text \<open>
  What the graph component promises: every sequence of mutations from the empty graph keeps the
  invariant and the configured bounds, a refused mutation changes nothing, the three searches and
  the structural self-check are right on every such graph, and the digest does not depend on the
  order of insertion.
\<close>

section \<open>Checked mutators\<close>

text \<open>
  The contract the mutators of the graph and of the store share. A mutator returns the new state
  with a value that tells whether it was accepted; it keeps the invariant. An atomic one leaves the
  state alone when it refuses.
\<close>

locale checked_mutator =
  fixes inv :: "'g \<Rightarrow> bool" and run :: "'o \<Rightarrow> 'g \<Rightarrow> 'g \<times> 'r"
  assumes run_inv: "inv g \<Longrightarrow> inv (fst (run op g))"
begin

lemma runs_inv: "inv g \<Longrightarrow> inv (fold (\<lambda>op g. fst (run op g)) ops g)"
  by (induction ops arbitrary: g) (simp_all add: run_inv)

end

locale atomic_mutator = checked_mutator inv run
  for inv :: "'g \<Rightarrow> bool" and run :: "'o \<Rightarrow> 'g \<Rightarrow> 'g \<times> 'r" +
  fixes accepted :: "'r \<Rightarrow> bool"
  assumes run_refused: "\<not> accepted (snd (run op g)) \<Longrightarrow> fst (run op g) = g"
begin

text \<open>Every run has the effect of a subsequence of it in which no operation is refused.\<close>

primrec all_accepted :: "'o list \<Rightarrow> 'g \<Rightarrow> bool" where
  "all_accepted [] g = True"
| "all_accepted (op # ops) g = (accepted (snd (run op g)) \<and> all_accepted ops (fst (run op g)))"

lemma refusals_are_skips:
  "\<exists>ops'. subseq ops' ops \<and> all_accepted ops' g
     \<and> fold (\<lambda>op g. fst (run op g)) ops' g = fold (\<lambda>op g. fst (run op g)) ops g"
proof (induction ops arbitrary: g)
  case (Cons op ops)
  obtain ops' where IH: "subseq ops' ops" "all_accepted ops' (fst (run op g))"
    "fold (\<lambda>op g. fst (run op g)) ops' (fst (run op g)) = fold (\<lambda>op g. fst (run op g)) ops (fst (run op g))"
    using Cons by blast
  show ?case
  proof (cases "accepted (snd (run op g))")
    case True
    then show ?thesis using IH by (intro exI [of _ "op # ops'"]) simp
  next
    case False
    then show ?thesis using IH run_refused [OF False] by (intro exI [of _ ops']) auto
  qed
qed (intro exI [of _ "[]"], simp)

end

datatype GraphOp =
    Op_add_node ProvenanceNode
  | Op_add_edge ProvenanceEdge
  | Op_compact_node ProvenanceNodeId ProvenanceNode
  | Op_update_node_state ProvenanceNodeId NodeLifecycle Currentness bool
  | Op_mark_revalidated ProvenanceNodeId
  | Op_set_corrected_by ProvenanceNodeId ProvenanceNodeId

fun graph_op :: "hash_fun \<Rightarrow> Limits \<Rightarrow> GraphOp \<Rightarrow> ProvenanceGraph \<Rightarrow> ProvenanceGraph \<times> Status" where
  "graph_op H limits (Op_add_node n) g = add_node H n limits g"
| "graph_op H limits (Op_add_edge e) g = add_edge H e limits g"
| "graph_op H limits (Op_compact_node i t) g = compact_node i t g"
| "graph_op H limits (Op_update_node_state i l c r) g = update_node_state i l c r g"
| "graph_op H limits (Op_mark_revalidated i) g = mark_revalidated i g"
| "graph_op H limits (Op_set_corrected_by i j) g = set_corrected_by i j g"

definition graph_ops :: "hash_fun \<Rightarrow> Limits \<Rightarrow> GraphOp list \<Rightarrow> ProvenanceGraph \<Rightarrow> ProvenanceGraph" where
  "graph_ops H limits ops g = fold (\<lambda>op g. fst (graph_op H limits op g)) ops g"

text \<open>Mutators other than the two insertions only replace a record under its own identity.\<close>

definition replaces_record :: "ProvenanceGraph \<Rightarrow> ProvenanceGraph \<Rightarrow> bool" where
  "replaces_record g g' \<longleftrightarrow>
     (\<exists>i n. om_has (g_nodes g) i \<and> n_id n = i \<and> g' = g\<lparr>g_nodes := om_put i n (g_nodes g)\<rparr>)"

lemma replaces_recordI:
  "om_has (g_nodes g) i \<Longrightarrow> n_id n = i \<Longrightarrow> replaces_record g (g\<lparr>g_nodes := om_put i n (g_nodes g)\<rparr>)"
  by (auto simp: replaces_record_def)

lemma replace_cases:
  assumes "entries_ok g"
  shows "fst (compact_node i t g) = g \<or> replaces_record g (fst (compact_node i t g))"
    and "fst (update_node_state i l c r g) = g \<or> replaces_record g (fst (update_node_state i l c r g))"
    and "fst (mark_revalidated i g) = g \<or> replaces_record g (fst (mark_revalidated i g))"
    and "fst (set_corrected_by i j g) = g \<or> replaces_record g (fst (set_corrected_by i j g))"
proof -
  have keep: "om_has (g_nodes g) i \<and> n_id n = i" if "om_find (g_nodes g) i = Some n" for n
    using assms that by (auto simp: entries_ok_def om_has_def)
  show "fst (compact_node i t g) = g \<or> replaces_record g (fst (compact_node i t g))"
    by (simp add: compact_node_def replaces_recordI)
  show "fst (update_node_state i l c r g) = g \<or> replaces_record g (fst (update_node_state i l c r g))"
    by (simp add: update_node_state_def replaces_recordI keep split: option.split)
  show "fst (mark_revalidated i g) = g \<or> replaces_record g (fst (mark_revalidated i g))"
    by (simp add: mark_revalidated_def replaces_recordI keep split: option.split)
  show "fst (set_corrected_by i j g) = g \<or> replaces_record g (fst (set_corrected_by i j g))"
    by (simp add: set_corrected_by_def replaces_recordI keep split: option.split)
qed

lemma graph_op_replace:
  assumes "graph_wf g"
  shows "(\<exists>n. op = Op_add_node n) \<or> (\<exists>e. op = Op_add_edge e)
    \<or> fst (graph_op H limits op g) = g
    \<or> (\<exists>i n. om_has (g_nodes g) i \<and> n_id n = i
         \<and> fst (graph_op H limits op g) = g\<lparr>g_nodes := om_put i n (g_nodes g)\<rparr>)"
  unfolding replaces_record_def [symmetric]
  using replace_cases [OF graph_wf_parts(1) [OF assms]] by (cases op) simp_all

lemma graph_op_refused: "\<not> st_is_ok (snd (graph_op H limits op g)) \<Longrightarrow> fst (graph_op H limits op g) = g"
proof (cases op)
  case (Op_add_node n)
  assume "\<not> st_is_ok (snd (graph_op H limits op g))"
  then show ?thesis using Op_add_node by (cases rule: add_node_cases [of H n limits g]) simp_all
next
  case (Op_add_edge e)
  assume "\<not> st_is_ok (snd (graph_op H limits op g))"
  then show ?thesis using Op_add_edge by (cases rule: add_edge_cases [of H e limits g]) simp_all
qed (auto simp: compact_node_def update_node_state_def mark_revalidated_def set_corrected_by_def
       split: option.splits if_splits)

lemma edge_endpoint_valid:
  "st_is_ok (validate_edge_consistency e) \<Longrightarrow> id_valid (e_from e) \<and> id_valid (e_to e) \<and> e_from e \<noteq> e_to e"
  by (auto simp: validate_edge_consistency_def split: if_splits)

lemma graph_op_wf [graph_inv_intro]:
  assumes wf: "graph_wf g"
  shows "graph_wf (fst (graph_op H limits op g))"
proof -
  from graph_op_replace [OF wf, of op H limits] show ?thesis
  proof (elim disjE exE conjE)
    fix n assume "op = Op_add_node n"
    then show ?thesis
      using wf by (cases rule: add_node_cases [of H n limits g]) (simp_all add: with_node_wf)
  next
    fix e assume op: "op = Op_add_edge e"
    show ?thesis
    proof (cases rule: add_edge_cases [of H e limits g])
      case added
      then show ?thesis
        using op with_edge_wf [OF wf] check_add_edge_ok(2) [OF wf] by simp
    qed (use wf op in simp)
  qed (use wf replace_node_wf in auto)
qed

lemma count_with_edge:
  assumes "om_has (g_nodes g) (e_from e)" "om_has (g_nodes g) (e_to e)" "graph_wf g"
  shows "incoming_count (with_edge e g) a = incoming_count g a + (if a = e_to e then 1 else 0)"
    and "outgoing_count (with_edge e g) a = outgoing_count g a + (if a = e_from e then 1 else 0)"
proof -
  have "om_find (g_incoming g) b \<noteq> None" "om_find (g_outgoing g) b \<noteq> None" if "om_has (g_nodes g) b" for b
    using index_none graph_wf_parts [OF assms(3)] that by blast+
  then show "incoming_count (with_edge e g) a = incoming_count g a + (if a = e_to e then 1 else 0)"
    and "outgoing_count (with_edge e g) a = outgoing_count g a + (if a = e_from e then 1 else 0)"
    using assms(1,2)
    by (auto simp: incoming_count_def outgoing_count_def with_edge_def om_find_emplace om_get_def
        split: option.split)
qed

lemma om_size_emplace: "om_size (om_emplace k v m) = (if om_has m k then om_size m else Suc (om_size m))"
  by (auto simp: om_emplace_def om_size_put om_has_def split: option.split)

lemma count_with_node:
  "incoming_count (with_node n g) a = incoming_count g a"
  "outgoing_count (with_node n g) a = outgoing_count g a"
  by (auto simp: incoming_count_def outgoing_count_def with_node_def om_find_emplace split: option.split)

lemma graph_op_bounded:
  assumes wf: "graph_wf g" and b: "graph_bounded limits g"
  shows "graph_bounded limits (fst (graph_op H limits op g))"
proof -
  from graph_op_replace [OF wf, of op H limits] show ?thesis
  proof (elim disjE exE conjE)
    fix n assume op: "op = Op_add_node n"
    show ?thesis
    proof (cases rule: add_node_cases [of H n limits g])
      case added
      have "om_size (g_nodes (with_node n g)) \<le> max_nodes_per_lineage limits"
        "g_edges (with_node n g) = g_edges g"
        using added by (simp_all add: with_node_def om_size_emplace)
      then show ?thesis
        using b op added(1) unfolding graph_bounded_def by (simp add: count_with_node)
    qed (use b op in simp)
  next
    fix e assume op: "op = Op_add_edge e"
    show ?thesis
    proof (cases rule: add_edge_cases [of H e limits g])
      case added
      have "om_size (g_edges (with_edge e g)) \<le> max_edges_per_lineage limits"
        "g_nodes (with_edge e g) = g_nodes g"
        using added by (simp_all add: with_edge_def om_size_emplace)
      then show ?thesis
        using b op added unfolding graph_bounded_def
        by (simp add: count_with_edge [OF added(4,5) wf])
    qed (use b op in simp)
  next
    fix i n assume "om_has (g_nodes g) i" "fst (graph_op H limits op g) = g\<lparr>g_nodes := om_put i n (g_nodes g)\<rparr>"
    then show ?thesis using replace_node_bounded [OF _ b] by simp
  qed (use b in simp)
qed

interpretation graph_run: atomic_mutator
    "\<lambda>g. graph_wf g \<and> graph_bounded limits g" "graph_op H limits" st_is_ok for H limits
  by unfold_locales (auto intro: graph_op_wf graph_op_bounded graph_op_refused)

lemma graph_ops_inv:
  "graph_wf g \<Longrightarrow> graph_bounded limits g \<Longrightarrow>
     graph_wf (graph_ops H limits ops g) \<and> graph_bounded limits (graph_ops H limits ops g)"
  using graph_run.runs_inv [of g limits H ops] by (simp add: graph_ops_def)

text \<open>
  C27: Every graph reachable through the public mutators is well formed and bounded. Whatever
  sequence of \<^verbatim>\<open>add_node\<close>, \<^verbatim>\<open>add_edge\<close>, \<^verbatim>\<open>compact_node\<close>, \<^verbatim>\<open>update_node_state\<close>, \<^verbatim>\<open>mark_revalidated\<close>
  and \<^verbatim>\<open>set_corrected_by\<close> is applied to the empty graph, with whatever arguments and outcomes, the
  index maps agree with the edge set, every edge joins two present nodes, there is no cycle, and the
  node, edge and per-node degree limits hold; and one more refused call leaves the graph unchanged.
\<close>

theorem graph_mutators_safe:
  "graph_wf (graph_ops H limits ops empty_graph)
   \<and> graph_bounded limits (graph_ops H limits ops empty_graph)
   \<and> (st_is_ok (snd (graph_op H limits op (graph_ops H limits ops empty_graph)))
      \<or> fst (graph_op H limits op (graph_ops H limits ops empty_graph)) = graph_ops H limits ops empty_graph)"
  using graph_ops_inv [OF empty_graph_wf empty_graph_bounded, of H limits ops] graph_run.run_refused
  by blast

section \<open>The cycle check decides reachability\<close>

text \<open>
  C28: On a well-formed graph the cycle check is exact. For two distinct present nodes it reports a
  cycle only if \<open>to\<close> already reaches \<open>from\<close>, it answers Ok only if it does not, and it gives up with
  \<^verbatim>\<open>ResourceLimit\<close> only when more nodes than \<^verbatim>\<open>max_visited_nodes\<close> are reachable from \<open>to\<close>; so below
  that bound inserting the edge is refused precisely when it would close a cycle.
\<close>

theorem check_add_edge_exact:
  assumes "graph_wf g" and "om_has (g_nodes g) a" and "om_has (g_nodes g) b" and "a \<noteq> b"
  shows "(st_outcome (check_add_edge g a b limits) = O_CycleDetected \<longrightarrow> (b, a) \<in> (causes g)\<^sup>*)
   \<and> (st_outcome (check_add_edge g a b limits) = O_Ok \<longrightarrow> (b, a) \<notin> (causes g)\<^sup>*)
   \<and> (card ((causes g)\<^sup>* `` {b}) \<le> max_visited_nodes limits \<longrightarrow>
        st_outcome (check_add_edge g a b limits) =
          (if acyclic (insert (a, b) (causes g)) then O_Ok else O_CycleDetected))"
proof -
  have "id_valid a" "id_valid b"
    using graph_wf_parts(1) [OF assms(1)] assms(2,3) by (auto simp: entries_ok_def om_has_def)
  note c = check_add_edge_present [OF this assms(4,2,3), of limits]
  have "acyclic (insert (a, b) (causes g)) \<longleftrightarrow> (b, a) \<notin> (causes g)\<^sup>*"
    using graph_wf_parts(5) [OF assms(1)] by simp
  then show ?thesis using c by auto
qed

section \<open>Topological order\<close>

lemma om_find_fold_emplace:
  "om_find (fold (\<lambda>i. om_emplace i (f i)) ks m) n =
     (case om_find m n of Some v \<Rightarrow> Some v | None \<Rightarrow> if n \<in> set ks then Some (f n) else None)"
  by (induction ks arbitrary: m) (auto simp: om_find_emplace split: option.splits)

lemma om_find_in_degrees:
  "om_find (in_degrees g) n = (if om_has (g_nodes g) n then Some (incoming_count g n) else None)"
  by (simp add: in_degrees_def om_find_fold_emplace set_om_keys)

lemma initial_ready_facts: "distinct (initial_ready degree) \<and> set (initial_ready degree) = {n. om_find degree n = Some 0}"
proof -
  have "distinct (map fst ps) \<Longrightarrow> distinct r \<Longrightarrow> set r \<inter> fst ` set ps = {} \<Longrightarrow>
      distinct (fold (\<lambda>(i, d) r. if d = 0 then insort i r else r) ps r)
      \<and> set (fold (\<lambda>(i, d) r. if d = 0 then insort i r else r) ps r) = set r \<union> {i. (i, 0) \<in> set ps}"
    for ps :: "(u64 \<times> nat) list" and r
  proof (induction ps arbitrary: r)
    case (Cons p ps)
    obtain i d where p: "p = (i, d)" by (cases p)
    show ?case
      using Cons.IH [of "if d = 0 then insort i r else r"] Cons.prems
      by (auto simp: p set_insort_key distinct_insort)
  qed simp
  from this [of "om_entries degree" "[]"] show ?thesis
    using distinct_om_keys [of degree] by (simp add: initial_ready_def in_entries_iff om_keys_def)
qed

lemma count_map_filter: "count_list (List.map_filter f xs) y = length (filter (\<lambda>x. f x = Some y) xs)"
  by (induction xs) (auto simp: List.map_filter_simps split: option.splits)

lemma count_neighbours:
  assumes "graph_indexed g"
  shows "count_list (neighbours g TD_Outgoing any_type a) n = card (edge_ids g e_from a \<inter> edge_ids g e_to n)"
proof (cases "om_find (g_outgoing g) a")
  case None
  then have "\<not> om_has (g_nodes g) a" using index_none graph_indexed_parts [OF assms] by blast
  then have "edge_ids g e_from a = {}"
    using edge_ends [OF graph_indexed_parts(1) [OF assms]] by (auto simp: edge_ids_def)
  then show ?thesis using None by (simp add: neighbours_def)
next
  case (Some ids)
  note ids = index_ids [OF graph_indexed_parts(2) [OF assms] Some]
  let ?f = "\<lambda>i. case find_edge g i of None \<Rightarrow> None | Some e \<Rightarrow> if \<not> any_type (e_type e) then None
      else Some (case TD_Outgoing of TD_Outgoing \<Rightarrow> e_to e | TD_Incoming \<Rightarrow> e_from e)"
  have "count_list (neighbours g TD_Outgoing any_type a) n = length (filter (\<lambda>i. ?f i = Some n) ids)"
    using Some by (simp add: neighbours_def count_map_filter)
  also have "\<dots> = card ({i. ?f i = Some n} \<inter> set ids)"
    using ids(1) by (intro distinct_length_filter) (rule sorted_wrt_less_distinct)
  also have "{i. ?f i = Some n} = edge_ids g e_to n"
    by (auto simp: edge_ids_def find_edge_def any_type_def split: option.splits)
  finally show ?thesis using ids(2) by (simp add: Int_commute)
qed

lemma incoming_count_ids:
  assumes "graph_indexed g" and "om_has (g_nodes g) n"
  shows "incoming_count g n = card (edge_ids g e_to n)"
proof -
  obtain ids where ids: "om_find (g_incoming g) n = Some ids"
    using index_none graph_indexed_parts(3) [OF assms(1)] assms(2) by (cases "om_find (g_incoming g) n") auto
  note f = index_ids [OF graph_indexed_parts(3) [OF assms(1)] ids]
  show ?thesis
    using ids f(2) distinct_card [OF sorted_wrt_less_distinct [OF f(1)]] by (simp add: incoming_count_def)
qed

abbreviation node_ids :: "ProvenanceGraph \<Rightarrow> u64 set" where
  "node_ids g \<equiv> {i. om_has (g_nodes g) i}"

lemma incoming_count_entering:
  assumes "graph_indexed g" and "om_has (g_nodes g) n"
  shows "incoming_count g n = entering (neighbours g TD_Outgoing any_type) (node_ids g) n"
proof -
  have fin: "finite (edge_ids g e_from a)" for a by simp
  have "edge_ids g e_to n = (\<Union>a\<in>node_ids g. edge_ids g e_from a \<inter> edge_ids g e_to n)"
    using edge_ends [OF graph_indexed_parts(1) [OF assms(1)]] by (auto simp: edge_ids_def)
  moreover have "card (\<Union>a\<in>node_ids g. edge_ids g e_from a \<inter> edge_ids g e_to n)
      = (\<Sum>a\<in>node_ids g. card (edge_ids g e_from a \<inter> edge_ids g e_to n))"
    by (rule card_UN_disjoint) (auto simp: edge_ids_def)
  ultimately have "card (edge_ids g e_to n) = (\<Sum>a\<in>node_ids g. card (edge_ids g e_from a \<inter> edge_ids g e_to n))"
    by simp
  then show ?thesis
    using assms by (simp add: incoming_count_ids entering_def count_neighbours)
qed

lemma neighbours_closed:
  assumes "graph_indexed g"
  shows "set (neighbours g TD_Outgoing any_type a) \<subseteq> node_ids g"
    and "a \<notin> node_ids g \<Longrightarrow> neighbours g TD_Outgoing any_type a = []"
proof -
  show "set (neighbours g TD_Outgoing any_type a) \<subseteq> node_ids g"
    using causes_nodes [OF assms] by (auto simp: arcs_def)
  assume "a \<notin> node_ids g"
  then have "x \<notin> set (neighbours g TD_Outgoing any_type a)" for x
    using causes_nodes [OF assms] by (auto simp: arcs_def)
  then show "neighbours g TD_Outgoing any_type a = []"
    by (cases "neighbours g TD_Outgoing any_type a") auto
qed

lemma kahn_start:
  assumes "graph_indexed g"
  shows "kahn_inv (neighbours g TD_Outgoing any_type) (node_ids g) (in_degrees g)
     (initial_ready (in_degrees g)) [] []"
  using initial_ready_facts [of "in_degrees g"]
  by (auto simp: kahn_inv_def om_find_in_degrees incoming_count_entering [OF assms] split: if_splits)

lemma kahn_program:
  assumes "graph_indexed g"
  defines "order \<equiv> kahn_loop (neighbours g TD_Outgoing any_type) (in_degrees g) (initial_ready (in_degrees g)) []"
  shows "distinct order" "set order \<subseteq> node_ids g"
    "causal_order (neighbours g TD_Outgoing any_type) (node_ids g) order"
    "length order = om_size (g_nodes g) \<longleftrightarrow> acyclic (causes g)"
  using kahn_correct [OF _ _ _ kahn_start [OF assms(1)]] neighbours_closed [OF assms(1)]
  unfolding order_def om_size_card by auto

text \<open>
  C30: \<^verbatim>\<open>topological_order\<close> is a complete acyclicity test on every graph whose indexes agree with its
  edges: it returns an order exactly when the arcs are acyclic. The order lists every node once, and
  each record after all records it is a cause of.
\<close>

theorem topological_order_exact:
  assumes "graph_indexed g"
  shows "(topological_order g = None \<longleftrightarrow> \<not> acyclic (causes g))
   \<and> (\<forall>order. topological_order g = Some order \<longrightarrow>
        distinct order \<and> set order = set (om_keys (g_nodes g))
        \<and> causal_order (neighbours g TD_Outgoing any_type) (set order) order)"
proof -
  let ?o = "kahn_loop (neighbours g TD_Outgoing any_type) (in_degrees g) (initial_ready (in_degrees g)) []"
  note k = kahn_program [OF assms]
  have t: "topological_order g = (if acyclic (causes g) then Some ?o else None)"
    using k(4) by (simp add: topological_order_def Let_def)
  have "set ?o = node_ids g" if "acyclic (causes g)"
    using k(1,2,4) that by (metis card_subset_eq distinct_card finite_om_dom om_size_card)
  then show ?thesis
    using k(1,3) by (auto simp: t set_om_keys split: if_splits)
qed

section \<open>Bounded traversal\<close>

definition link ::
    "ProvenanceGraph \<Rightarrow> TraversalDirection \<Rightarrow> (EdgeType \<Rightarrow> bool) \<Rightarrow> (u64 \<times> u64) set" where
  "link g dir keep =
     {(a, b). \<exists>i e. om_find (g_edges g) i = Some e \<and> keep (e_type e)
        \<and> (case dir of TD_Outgoing \<Rightarrow> a = e_from e \<and> b = e_to e
            | TD_Incoming \<Rightarrow> a = e_to e \<and> b = e_from e)}"

definition distance :: "(u64 \<times> u64) set \<Rightarrow> u64 \<Rightarrow> u64 \<Rightarrow> nat \<Rightarrow> bool" where
  "distance r a b d \<longleftrightarrow> (a, b) \<in> r ^^ d \<and> (\<forall>j<d. (a, b) \<notin> r ^^ j)"

lemma arcs_link: "graph_indexed g \<Longrightarrow> arcs (neighbours g dir keep) = link g dir keep"
  by (cases dir) (auto simp: arcs_def link_def neighbours_out neighbours_in)

lemma shortest_distance:
  "graph_indexed g \<Longrightarrow> shortest (neighbours g dir keep) a b d \<longleftrightarrow> distance (link g dir keep) a b d"
  by (simp add: shortest_def hop_def distance_def arcs_link)

lemma link_nodes:
  assumes "graph_indexed g" and "(a, b) \<in> (link g dir keep) ^^ d" and "om_has (g_nodes g) a"
  shows "om_has (g_nodes g) b"
proof (cases d)
  case (Suc k)
  then obtain c where "(c, b) \<in> link g dir keep" using assms(2) by auto
  then show ?thesis
    using edge_ends [OF graph_indexed_parts(1) [OF assms(1)]]
    by (cases dir) (auto simp: link_def)
qed (use assms in simp)

definition traversal_frame ::
    "ProvenanceGraph \<Rightarrow> ProvenanceNodeId \<Rightarrow> TraversalDirection \<Rightarrow> nat \<Rightarrow> (EdgeType \<Rightarrow> bool)
     \<Rightarrow> (ProvenanceNode \<times> nat) set" where
  "traversal_frame g origin dir depth keep =
     {(n, d). find_node g (n_id n) = Some n \<and> d \<le> depth \<and> distance (link g dir keep) origin (n_id n) d}"

lemma traverse_frame:
  assumes wf: "graph_indexed g" and o: "om_has (g_nodes g) origin" and v: "id_valid origin"
    and D: "D = effective_bound (tb_max_depth bounds) (max_traversal_depth limits)"
    and V: "V = effective_bound (tb_max_visited bounds) (max_visited_nodes limits)"
    and R: "R = effective_bound (tb_max_results bounds) (max_query_results limits)"
    and t: "traverse g origin dir bounds limits keep = (r, st)"
  shows "(st_is_ok st \<and> set (tr_nodes r) = traversal_frame g origin dir D keep
       \<and> sorted (map (\<lambda>(n, d). (d, n_id n)) (tr_nodes r))
       \<and> set (tr_edges r) = {e. \<exists>i. find_edge g i = Some e
            \<and> e_from e \<in> n_id ` fst ` set (tr_nodes r) \<and> e_to e \<in> n_id ` fst ` set (tr_nodes r)})
     \<or> (st_outcome st = O_ResourceLimit \<and> tr_nodes r = [] \<and> tr_truncated r
       \<and> min V R < card {x. \<exists>d\<le>D. (origin, x) \<in> link g dir keep ^^ d})"
proof -
  let ?S = "neighbours g dir keep"
  show ?thesis
  proof (cases "bfs_loop ?S D V R 0 [(origin, 0)] (os_insert origin om_empty)")
    case (Inl msg)
    have "min V R < card {x. \<exists>k\<le>D. hop ?S k origin x}"
      by (rule bfs_loop_fail [OF Inl bfs_start])
    then show ?thesis
      using t Inl o v by (auto simp: traverse_def D V R hop_def arcs_link [OF wf] empty_traversal_def)
  next
    case (Inr queue)
    define entries where "entries = sort_key (\<lambda>(n, d). (d, n_id n))
        (List.map_filter (\<lambda>(i, d). map_option (\<lambda>n. (n, d)) (find_node g i)) queue)"
    define edges where "edges = filter (\<lambda>e. traversal_contains entries (e_from e)
        \<and> traversal_contains entries (e_to e)) (edges_in_order g)"
    have r: "tr_nodes r = entries" "tr_edges r = sort_key e_id edges" "st = st_ok"
      using t Inr o v unfolding entries_def edges_def
      by (auto simp: traverse_def D V R Let_def)
    have q: "(i, d) \<in> set queue \<longleftrightarrow> distance (link g dir keep) origin i d \<and> d \<le> D" for i d
      using bfs_correct [OF Inr] by (simp add: shortest_distance [OF wf])
    have "set entries = traversal_frame g origin dir D keep"
    proof -
      have nid: "n_id n = i" if "find_node g i = Some n" for i n
        using graph_indexed_parts(1) [OF wf] that by (simp add: entries_ok_def find_node_def)
      have "(n, d) \<in> set entries \<longleftrightarrow> (\<exists>i. (i, d) \<in> set queue \<and> find_node g i = Some n)" for n d
        by (force simp: entries_def set_map_filter)
      also have "\<dots> n d \<longleftrightarrow> (n_id n, d) \<in> set queue \<and> find_node g (n_id n) = Some n" for n d
        using nid by blast
      finally show ?thesis by (auto simp: traversal_frame_def q)
    qed
    moreover have "sorted (map (\<lambda>(n, d). (d, n_id n)) entries)" by (simp add: entries_def)
    moreover have "traversal_contains entries i \<longleftrightarrow> i \<in> n_id ` fst ` set entries" for i
      by (force simp: traversal_contains_def list_ex_iff)
    ultimately show ?thesis
      by (auto simp: r edges_def edges_in_order_def set_om_values find_edge_def)
  qed
qed

text \<open>
  C29: The bounded traversal is exact. On a well-formed graph and a present origin it either lists
  precisely the records within the effective depth bound, each with its shortest distance in the
  chosen direction over edges of the kept types, in ascending (depth, identity) order, with
  precisely the edges whose two ends are listed; or it returns \<^verbatim>\<open>ResourceLimit\<close>, marked truncated
  and with no partial answer, and then more records lie within the depth bound than the effective
  visit or result bound allows. A caller's bound never widens a configured one.
\<close>

theorem traverse_exact:
  assumes "graph_wf g" and "om_has (g_nodes g) origin"
  shows "(st_is_ok (snd (traverse g origin dir bounds limits keep))
       \<and> set (tr_nodes (fst (traverse g origin dir bounds limits keep))) =
           traversal_frame g origin dir
             (effective_bound (tb_max_depth bounds) (max_traversal_depth limits)) keep
       \<and> sorted (map (\<lambda>(n, d). (d, n_id n)) (tr_nodes (fst (traverse g origin dir bounds limits keep))))
       \<and> set (tr_edges (fst (traverse g origin dir bounds limits keep))) =
           {e. \<exists>i. find_edge g i = Some e
              \<and> e_from e \<in> n_id ` fst ` set (tr_nodes (fst (traverse g origin dir bounds limits keep)))
              \<and> e_to e \<in> n_id ` fst ` set (tr_nodes (fst (traverse g origin dir bounds limits keep)))})
     \<or> (st_outcome (snd (traverse g origin dir bounds limits keep)) = O_ResourceLimit
       \<and> tr_nodes (fst (traverse g origin dir bounds limits keep)) = []
       \<and> tr_truncated (fst (traverse g origin dir bounds limits keep))
       \<and> min (effective_bound (tb_max_visited bounds) (max_visited_nodes limits))
             (effective_bound (tb_max_results bounds) (max_query_results limits))
         < card {x. \<exists>d\<le>effective_bound (tb_max_depth bounds) (max_traversal_depth limits).
                     (origin, x) \<in> link g dir keep ^^ d})"
proof -
  have "id_valid origin"
    using graph_wf_parts(1) [OF assms(1)] assms(2) by (auto simp: entries_ok_def om_has_def)
  from traverse_frame [OF graph_wf_indexed [OF assms(1)] assms(2) this refl refl refl prod.collapse [symmetric]]
  show ?thesis .
qed

section \<open>The digest ignores insertion order\<close>

definition insertion_ops :: "(ProvenanceNode + ProvenanceEdge) list \<Rightarrow> GraphOp list" where
  "insertion_ops items = map (\<lambda>x. case x of Inl n \<Rightarrow> Op_add_node n | Inr e \<Rightarrow> Op_add_edge e) items"

fun all_inserted :: "hash_fun \<Rightarrow> Limits \<Rightarrow> GraphOp list \<Rightarrow> ProvenanceGraph \<Rightarrow> bool" where
  "all_inserted H limits [] g \<longleftrightarrow> True"
| "all_inserted H limits (op # ops) g \<longleftrightarrow>
     st_is_ok (snd (graph_op H limits op g)) \<and> all_inserted H limits ops (fst (graph_op H limits op g))"

lemma inserted_lookups:
  assumes "all_inserted H limits (insertion_ops items) g"
  shows "(om_find (g_nodes (graph_ops H limits (insertion_ops items) g)) i = Some n \<longleftrightarrow>
           om_find (g_nodes g) i = Some n \<or> (Inl n \<in> set items \<and> n_id n = i))
       \<and> (om_find (g_edges (graph_ops H limits (insertion_ops items) g)) i = Some e \<longleftrightarrow>
           om_find (g_edges g) i = Some e \<or> (Inr e \<in> set items \<and> e_id e = i))"
  using assms
proof (induction items arbitrary: g)
  case (Cons x items)
  let ?op = "case x of Inl n \<Rightarrow> Op_add_node n | Inr e \<Rightarrow> Op_add_edge e"
  let ?g = "fst (graph_op H limits ?op g)"
  have ok: "st_is_ok (snd (graph_op H limits ?op g))"
    and rest: "all_inserted H limits (insertion_ops items) ?g"
    and step: "graph_ops H limits (insertion_ops (x # items)) g = graph_ops H limits (insertion_ops items) ?g"
    using Cons.prems by (simp_all add: insertion_ops_def graph_ops_def)
  have upd: "(om_find (g_nodes ?g) i = Some n \<longleftrightarrow> om_find (g_nodes g) i = Some n \<or> (x = Inl n \<and> n_id n = i))
    \<and> (om_find (g_edges ?g) i = Some e \<longleftrightarrow> om_find (g_edges g) i = Some e \<or> (x = Inr e \<and> e_id e = i))"
  proof (cases x)
    case (Inl m)
    show ?thesis
      by (cases rule: add_node_cases [of H m limits g])
         (use Inl ok in \<open>auto simp: with_node_def om_find_emplace\<close>)
  next
    case (Inr f)
    show ?thesis
      by (cases rule: add_edge_cases [of H f limits g])
         (use Inr ok in \<open>auto simp: with_edge_def om_find_emplace\<close>)
  qed
  show ?case
    using Cons.IH [OF rest] upd by (auto simp: step)
qed (simp_all add: insertion_ops_def graph_ops_def)

text \<open>
  The canonical digest of a graph depends on its records only. Two runs that insert the same
  nodes and edges into an empty graph, in any two orders and all accepted, give graphs with the same
  digest for the same lineage state, and with the same canonical node and edge sequences.
\<close>

theorem graph_digest_order_independent:
  assumes "all_inserted H limits (insertion_ops items) empty_graph"
    and "all_inserted H limits (insertion_ops items') empty_graph" and "set items = set items'"
  shows "graph_digest H state (graph_ops H limits (insertion_ops items) empty_graph)
       = graph_digest H state (graph_ops H limits (insertion_ops items') empty_graph)
   \<and> nodes_in_order (graph_ops H limits (insertion_ops items) empty_graph)
       = nodes_in_order (graph_ops H limits (insertion_ops items') empty_graph)
   \<and> edges_in_order (graph_ops H limits (insertion_ops items) empty_graph)
       = edges_in_order (graph_ops H limits (insertion_ops items') empty_graph)"
proof -
  let ?a = "graph_ops H limits (insertion_ops items) empty_graph"
  let ?b = "graph_ops H limits (insertion_ops items') empty_graph"
  have look: "om_find (g_nodes ?a) i = Some n \<longleftrightarrow> om_find (g_nodes ?b) i = Some n"
    "om_find (g_edges ?a) i = Some e \<longleftrightarrow> om_find (g_edges ?b) i = Some e" for i n e
    using inserted_lookups [OF assms(1)] inserted_lookups [OF assms(2)] assms(3) by simp_all
  have "om_find (g_nodes ?a) i = om_find (g_nodes ?b) i" "om_find (g_edges ?a) i = om_find (g_edges ?b) i" for i
    using look by (metis not_None_eq)+
  then have "g_nodes ?a = g_nodes ?b" "g_edges ?a = g_edges ?b" by (auto intro: om_ext)
  then show ?thesis
    by (simp add: graph_digest_def graph_bytes_def nodes_in_order_def edges_in_order_def)
qed

section \<open>The structural self-check\<close>

lemma first_failure_ok [simp]: "st_is_ok (first_failure check xs) \<longleftrightarrow> (\<forall>x \<in> set xs. st_is_ok (check x))"
  by (induction xs) auto

definition one_lineage :: "ProvenanceGraph \<Rightarrow> bool" where
  "one_lineage g \<longleftrightarrow>
     (\<forall>i e n. om_find (g_edges g) i = Some e \<longrightarrow>
        om_find (g_nodes g) (e_from e) = Some n \<or> om_find (g_nodes g) (e_to e) = Some n \<longrightarrow>
        n_lineage n = e_lineage e)"

definition derivations_unique :: "ProvenanceGraph \<Rightarrow> bool" where
  "derivations_unique g \<longleftrightarrow>
     (\<forall>i j e f. om_find (g_edges g) i = Some e \<longrightarrow> om_find (g_edges g) j = Some f \<longrightarrow>
        e_derivation e = e_derivation f \<longrightarrow> i = j)"

lemma check_edge_entry_ok:
  assumes "graph_indexed g" and "om_find (g_edges g) i = Some e"
  shows "st_is_ok (check_edge_entry g e) \<longleftrightarrow>
    (\<forall>n. om_find (g_nodes g) (e_from e) = Some n \<or> om_find (g_nodes g) (e_to e) = Some n
        \<longrightarrow> n_lineage n = e_lineage e)
    \<and> om_find (g_derivations g) (e_derivation e) = Some i"
proof -
  note ends = edge_ends [OF graph_indexed_parts(1) [OF assms(1)] assms(2)]
  obtain a b where "om_find (g_nodes g) (e_from e) = Some a" "om_find (g_nodes g) (e_to e) = Some b"
    using ends(2,3) by (auto simp: om_has_def)
  then show ?thesis using ends(1) by (auto simp: check_edge_entry_def find_node_def)
qed

lemma check_index_entry_ok:
  assumes idx: "index_ok g endpoint idx" and mem: "p \<in> set (om_entries idx)"
  shows "st_is_ok (check_index_entry name endpoint g p)"
proof -
  obtain a ids where p: "p = (a, ids)" by (cases p)
  then have f: "om_find idx a = Some ids" using mem by (simp add: in_entries_iff)
  show ?thesis
    using index_ids [OF idx f] by (auto simp: check_index_entry_def p edge_ids_def find_edge_def)
qed

lemma derivations_index:
  assumes "derivations_ok g"
  shows "(\<forall>i e. om_find (g_edges g) i = Some e \<longrightarrow> om_find (g_derivations g) (e_derivation e) = Some i)
    \<longleftrightarrow> derivations_unique g"
proof
  assume u: "derivations_unique g"
  show "\<forall>i e. om_find (g_edges g) i = Some e \<longrightarrow> om_find (g_derivations g) (e_derivation e) = Some i"
  proof (intro allI impI)
    fix i e assume e: "om_find (g_edges g) i = Some e"
    then obtain j where j: "om_find (g_derivations g) (e_derivation e) = Some j"
      using assms by (fastforce simp: derivations_ok_def om_has_def)
    then obtain f where "om_find (g_edges g) j = Some f" "e_derivation f = e_derivation e"
      using assms j unfolding derivations_ok_def by blast
    then show "om_find (g_derivations g) (e_derivation e) = Some i"
      using u e j unfolding derivations_unique_def by metis
  qed
next
  assume "\<forall>i e. om_find (g_edges g) i = Some e \<longrightarrow> om_find (g_derivations g) (e_derivation e) = Some i"
  then show "derivations_unique g"
    unfolding derivations_unique_def by (metis option.inject)
qed

text \<open>
  C31: On a graph whose indexes agree with its edges (every graph the mutators build),
  \<^verbatim>\<open>validate_structure\<close> succeeds exactly when the arcs are acyclic, no edge crosses a lineage
  boundary and no two edges claim the same derivation: the self-check has neither false alarms nor
  blind spots there.
\<close>

theorem validate_structure_exact:
  assumes "graph_indexed g"
  shows "st_is_ok (validate_structure g) \<longleftrightarrow>
     acyclic (causes g) \<and> one_lineage g \<and> derivations_unique g"
proof -
  note p = graph_indexed_parts [OF assms]
  have "topological_order g = None \<longleftrightarrow> \<not> acyclic (causes g)"
    using kahn_program(4) [OF assms] by (simp add: topological_order_def Let_def)
  moreover have "(\<forall>e \<in> set (om_values (g_edges g)). st_is_ok (check_edge_entry g e)) \<longleftrightarrow>
      one_lineage g \<and> (\<forall>i e. om_find (g_edges g) i = Some e \<longrightarrow>
        om_find (g_derivations g) (e_derivation e) = Some i)"
  proof -
    have "(\<forall>e \<in> set (om_values (g_edges g)). st_is_ok (check_edge_entry g e)) \<longleftrightarrow>
        (\<forall>i e. om_find (g_edges g) i = Some e \<longrightarrow> st_is_ok (check_edge_entry g e))"
      by (auto simp: set_om_values)
    also have "\<dots> \<longleftrightarrow> (\<forall>i e. om_find (g_edges g) i = Some e \<longrightarrow>
        (\<forall>n. om_find (g_nodes g) (e_from e) = Some n \<or> om_find (g_nodes g) (e_to e) = Some n
          \<longrightarrow> n_lineage n = e_lineage e) \<and> om_find (g_derivations g) (e_derivation e) = Some i)"
      using check_edge_entry_ok [OF assms] by simp
    finally show ?thesis unfolding one_lineage_def by blast
  qed
  ultimately show ?thesis
    using check_index_entry_ok [OF p(2)] check_index_entry_ok [OF p(3)] derivations_index [OF p(4)]
    by (auto simp: validate_structure_def split: if_splits)
qed

section \<open>A concrete graph\<close>

definition sample_edge :: ProvenanceEdge where
  "sample_edge = \<lparr>e_id = 11, e_derivation = 12, e_lineage = 7, e_type = ET_Supersedes, e_from = 2, e_to = 1,
     e_predecessor_route_generation = 1, e_successor_route_generation = 2,
     e_reason = RC_RouteReplaced, e_source = SC_RouteFabric, e_evidence = [],
     e_authority = sample_authority\<rparr>"

definition sample_items :: "(ProvenanceNode + ProvenanceEdge) list" where
  "sample_items = [Inl (sample_node 1), Inl (sample_node 2), Inr sample_edge]"

definition sample_items' :: "(ProvenanceNode + ProvenanceEdge) list" where
  "sample_items' = [Inl (sample_node 2), Inl (sample_node 1), Inr sample_edge]"

definition sample_graph :: "hash_fun \<Rightarrow> ProvenanceGraph" where
  "sample_graph H = graph_ops H default_limits (insertion_ops sample_items) empty_graph"

lemma sample_node_consistent: "0 < g \<Longrightarrow> st_is_ok (validate_node_consistency (sample_node g))"
  by (simp add: validate_node_consistency_def sample_node_def sample_authority_def has_identity_def
      identity_valid_def id_valid_def digest_is_zero_def)

lemma sample_edge_consistent: "st_is_ok (validate_edge_consistency sample_edge)"
  by (simp add: validate_edge_consistency_def sample_edge_def id_valid_def edge_type_is_successor_relation_def
      word_le_nat_alt)

lemma sample_add_node:
  assumes "0 < k" and "om_find (g_nodes g) k = None" and "om_size (g_nodes g) < 4096"
  shows "add_node H (sample_node k) default_limits g = (with_node (sample_node k) g, st_ok)"
  using assms sample_node_consistent [of k]
  by (simp add: add_node_def with_node_def sample_node_def default_limits_def id_valid_def word_gt_0)

definition sample_nodes_graph :: ProvenanceGraph where
  "sample_nodes_graph = with_node (sample_node 2) (with_node (sample_node 1) empty_graph)"

lemma sample_nodes_graph_facts:
  "om_find (g_nodes sample_nodes_graph) i = (if i = 1 then Some (sample_node 1) else if i = 2 then Some (sample_node 2) else None)"
  "om_find (g_edges sample_nodes_graph) i = None"
  "om_find (g_outgoing sample_nodes_graph) i = (if i = 1 \<or> i = 2 then Some [] else None)"
  "om_find (g_incoming sample_nodes_graph) i = (if i = 1 \<or> i = 2 then Some [] else None)"
  by (simp_all add: sample_nodes_graph_def with_node_def om_find_emplace empty_graph_def) (simp_all add: sample_node_def)

lemma sample_add_edge:
  "add_edge H sample_edge default_limits sample_nodes_graph = (with_edge sample_edge sample_nodes_graph, st_ok)"
proof -
  have n: "neighbours sample_nodes_graph TD_Outgoing any_type = (\<lambda>_. [])"
    by (intro ext) (simp add: neighbours_def sample_nodes_graph_facts)
  have c: "check_add_edge sample_nodes_graph 2 1 default_limits = st_ok"
    by (simp add: check_add_edge_def n id_valid_def)
  have "om_size (g_edges sample_nodes_graph) = 0"
    by (simp add: sample_nodes_graph_def with_node_def empty_graph_def)
  then show ?thesis
    using c sample_edge_consistent
    by (simp add: add_edge_def with_edge_def sample_edge_def sample_nodes_graph_facts default_limits_def
        om_has_def incoming_count_def outgoing_count_def) (simp add: sample_node_def)
qed

lemma sample_two_nodes:
  assumes "0 < a" and "0 < b" and "a \<noteq> b"
  shows "add_node H (sample_node a) default_limits empty_graph = (with_node (sample_node a) empty_graph, st_ok)"
    and "add_node H (sample_node b) default_limits (with_node (sample_node a) empty_graph)
       = (with_node (sample_node b) (with_node (sample_node a) empty_graph), st_ok)"
proof -
  show "add_node H (sample_node a) default_limits empty_graph = (with_node (sample_node a) empty_graph, st_ok)"
    by (rule sample_add_node) (use assms in \<open>simp_all add: empty_graph_def\<close>)
  have "om_size (g_nodes (with_node (sample_node a) empty_graph)) = 1"
    by (simp add: with_node_def empty_graph_def om_size_emplace)
  moreover have "om_find (g_nodes (with_node (sample_node a) empty_graph)) b = None"
    using assms(3) by (simp add: with_node_def om_find_emplace empty_graph_def) (simp add: sample_node_def)
  ultimately show "add_node H (sample_node b) default_limits (with_node (sample_node a) empty_graph)
       = (with_node (sample_node b) (with_node (sample_node a) empty_graph), st_ok)"
    using assms by (intro sample_add_node) simp_all
qed

lemma sample_nodes_swap:
  "with_node (sample_node 1) (with_node (sample_node 2) empty_graph) = sample_nodes_graph"
proof -
  have "n_id (sample_node k) = k" for k by (simp add: sample_node_def)
  then show ?thesis
    unfolding sample_nodes_graph_def with_node_def empty_graph_def
    by (intro ProvenanceGraph.equality) (auto intro!: om_ext simp: om_find_emplace)
qed

lemma sample_graph_eq: "sample_graph H = with_edge sample_edge sample_nodes_graph"
  "all_inserted H default_limits (insertion_ops sample_items) empty_graph"
  "all_inserted H default_limits (insertion_ops sample_items') empty_graph"
  using sample_two_nodes [of 1 2 H] sample_two_nodes [of 2 1 H] sample_nodes_swap sample_add_edge [of H]
  by (simp_all add: sample_graph_def sample_items_def sample_items'_def insertion_ops_def graph_ops_def
      sample_nodes_graph_def [symmetric])

lemma sample_graph_wf: "graph_wf (sample_graph H)"
  using graph_ops_inv [OF empty_graph_wf empty_graph_bounded] by (simp add: sample_graph_def)

lemma sample_graph_nodes:
  "om_find (g_nodes (sample_graph H)) i = (if i = 1 then Some (sample_node 1) else if i = 2 then Some (sample_node 2) else None)"
  "om_find (g_edges (sample_graph H)) i = (if i = 11 then Some sample_edge else None)"
  by (simp_all add: sample_graph_eq with_edge_def sample_nodes_graph_facts om_find_emplace) (simp add: sample_edge_def)

lemma sample_graph_has: "om_has (g_nodes (sample_graph H)) i \<longleftrightarrow> i = 1 \<or> i = 2"
  by (auto simp: om_has_def sample_graph_nodes)

lemma sample_graph_causes: "causes (sample_graph H) = {(2, 1)}"
  using causes_iff [OF graph_wf_indexed [OF sample_graph_wf], of _ _ H]
  by (auto simp: sample_graph_nodes) (auto simp: sample_edge_def split: if_splits)

lemma sample_reach: "(causes (sample_graph H))\<^sup>* `` {2} \<subseteq> {1, 2}"
proof -
  have "(causes (sample_graph H))\<^sup>* `` {1, 2} = {1, 2}"
    by (rule Image_closed_trancl) (auto simp: sample_graph_causes)
  then show ?thesis by blast
qed

text \<open>The instances: the successor record 2 supersedes 1, so the reverse edge would close a cycle.\<close>

theorem check_add_edge_exact_witness:
  "graph_wf (sample_graph sample_hash) \<and> st_outcome (check_add_edge (sample_graph sample_hash) 1 2 default_limits) = O_CycleDetected"
proof -
  have "card ((causes (sample_graph sample_hash))\<^sup>* `` {2}) \<le> card {1, 2 :: u64}"
    by (intro card_mono sample_reach) simp_all
  then have "card ((causes (sample_graph sample_hash))\<^sup>* `` {2}) \<le> max_visited_nodes default_limits"
    by (simp add: default_limits_def)
  moreover have "\<not> acyclic (insert (1, 2) (causes (sample_graph sample_hash)))"
    by (simp add: sample_graph_causes r_into_rtrancl)
  moreover have "om_has (g_nodes (sample_graph sample_hash)) 1" "om_has (g_nodes (sample_graph sample_hash)) 2"
    and "(1 :: u64) \<noteq> 2"
    by (simp_all add: sample_graph_has)
  ultimately show ?thesis
    using check_add_edge_exact [OF sample_graph_wf] sample_graph_wf by metis
qed

theorem topological_order_exact_witness:
  "\<exists>order. topological_order (sample_graph sample_hash) = Some order \<and> set order = {1, 2} \<and> distinct order"
proof -
  have "acyclic (causes (sample_graph sample_hash))" using sample_graph_wf by (rule graph_wf_parts)
  moreover have "set (om_keys (g_nodes (sample_graph sample_hash))) = {1, 2}"
    by (auto simp: set_om_keys sample_graph_has)
  ultimately show ?thesis
    using topological_order_exact [OF graph_wf_indexed [OF sample_graph_wf], of sample_hash]
    by (cases "topological_order (sample_graph sample_hash)") auto
qed

theorem validate_structure_exact_witness: "st_is_ok (validate_structure (sample_graph sample_hash))"
proof -
  have "one_lineage (sample_graph sample_hash)" "derivations_unique (sample_graph sample_hash)"
    by (auto simp: one_lineage_def derivations_unique_def sample_graph_nodes split: if_splits)
       (auto simp: sample_edge_def sample_node_def)
  then show ?thesis
    using validate_structure_exact [OF graph_wf_indexed [OF sample_graph_wf]]
      graph_wf_parts(5) [OF sample_graph_wf] by simp
qed

definition sample_state :: LineageState where
  "sample_state = \<lparr>ls_id = 7, ls_key = \<lparr>lk_route = 3, lk_semantic_key = ''k''\<rparr>, ls_lifecycle = LL_Active,
     ls_current_route_generation = 2, ls_current_node = 2, ls_lineage_generation = 2,
     ls_authority_generation = 1, ls_node_count = 2, ls_edge_count = 1, ls_compacted_node_count = 0,
     ls_history_node_count = 0, ls_last_publisher_boot = 2, ls_last_mutation_digest = zero_digest\<rparr>"

theorem graph_digest_order_independent_witness:
  "graph_digest sample_hash sample_state (graph_ops sample_hash default_limits (insertion_ops sample_items') empty_graph)
   = graph_digest sample_hash sample_state (sample_graph sample_hash)"
  using graph_digest_order_independent [OF sample_graph_eq(3) sample_graph_eq(2), of sample_hash sample_state]
  by (auto simp: sample_graph_def sample_items_def sample_items'_def)

theorem traverse_exact_witness:
  "st_is_ok (snd (traverse (sample_graph sample_hash) 2 TD_Outgoing \<lparr>tb_max_depth = 0, tb_max_results = 0, tb_max_visited = 0\<rparr>
      default_limits any_type))"
proof -
  let ?b = "\<lparr>tb_max_depth = 0, tb_max_results = 0, tb_max_visited = 0\<rparr>"
  have "link (sample_graph sample_hash) TD_Outgoing any_type = {(2, 1)}"
    by (auto simp: link_def sample_graph_nodes any_type_def split: if_splits) (auto simp: sample_edge_def)
  then have "{x. \<exists>d\<le>64. (2, x) \<in> link (sample_graph sample_hash) TD_Outgoing any_type ^^ d} \<subseteq> {1, 2}"
    using sample_reach [of sample_hash] relpow_imp_rtrancl unfolding sample_graph_causes by fastforce
  then have "card {x. \<exists>d\<le>64. (2, x) \<in> link (sample_graph sample_hash) TD_Outgoing any_type ^^ d} \<le> card {1, 2 :: u64}"
    by (intro card_mono) simp_all
  then show ?thesis
    using traverse_exact [OF sample_graph_wf, of sample_hash 2 TD_Outgoing ?b default_limits any_type]
    by (auto simp: sample_graph_has effective_bound_def default_limits_def)
qed

end
