(* ===== verification/Store.thy ===== *)
theory Store
  imports Graph_Props
begin

text \<open>
  The state of the store and the helpers of its commit pipeline: \<^verbatim>\<open>src/store_internal.hpp\<close> and the
  first part of \<^verbatim>\<open>src/store.cpp\<close>. The record \<open>Store\<close> is \<^verbatim>\<open>ProvenanceStore::Impl\<close>; a shared pointer to
  a lineage is the lineage stored under its identity. Locks are not modelled: every operation of the
  model is one atomic step, which is what the exclusive locks of the sources give a writer.
\<close>

section \<open>Requests and results\<close>

datatype PublishKind =
    PK_RouteState | PK_Declaration | PK_Link | PK_Withdrawal | PK_Revocation | PK_Retirement
  | PK_Revalidation | PK_Invalidation | PK_Correction

fun publish_kind_code :: "PublishKind \<Rightarrow> u16" where
  "publish_kind_code PK_RouteState = 1"
| "publish_kind_code PK_Declaration = 2"
| "publish_kind_code PK_Link = 3"
| "publish_kind_code PK_Withdrawal = 4"
| "publish_kind_code PK_Revocation = 5"
| "publish_kind_code PK_Retirement = 6"
| "publish_kind_code PK_Revalidation = 7"
| "publish_kind_code PK_Invalidation = 8"
| "publish_kind_code PK_Correction = 9"

record EdgeSpec =
  sp_type :: EdgeType
  sp_target :: ProvenanceNodeId
  sp_reason :: ReasonCode
  sp_source :: SourceClass
  sp_evidence :: EvidenceVector

record NormalizedPublication =
  np_kind :: PublishKind
  np_key :: LineageKey
  np_explicit_lineage :: "RouteLineageId option"
  np_node_kind :: NodeKind
  np_route :: RouteId
  np_route_generation :: RouteGeneration
  np_route_state_digest :: Digest
  np_reason :: ReasonCode
  np_source :: SourceClass
  np_root_reason :: "RootReason option"
  np_evidence :: EvidenceVector
  np_authority :: AuthorityContext
  np_bindings :: Bindings
  np_edges :: "EdgeSpec list"
  np_link_type :: EdgeType
  np_link_from :: ProvenanceNodeId
  np_target :: ProvenanceNodeId
  np_completion_evidence :: Digest
  np_allow_non_current_target :: bool

record Publication =
  p_lineage :: RouteLineageId
  p_node :: ProvenanceNodeId
  p_edges :: "ProvenanceEdgeId list"
  p_lineage_generation :: LineageGeneration
  p_store_generation :: ProvenanceGeneration
  p_lifecycle :: NodeLifecycle
  p_currentness :: Currentness

record DependencyWatermarks =
  wm_store_generation :: ProvenanceGeneration
  wm_path_authority_generation :: PathAuthorityGeneration
  wm_policy_generation :: PolicyGeneration
  wm_evidence_generation :: EvidenceGeneration
  wm_plan_generation :: ConvergencePlanGeneration
  wm_epoch :: CoordinatorEpoch
  wm_digest :: Digest

section \<open>State\<close>

text \<open>
  \<^verbatim>\<open>AttemptKey\<close> and \<^verbatim>\<open>PublisherKey\<close> are pairs: their \<^verbatim>\<open>operator<\<close> is the lexicographic order.
\<close>

type_synonym AttemptKey = "PublisherId \<times> MutationAttemptId"
type_synonym PublisherKey = "PublisherId \<times> WorkerBootId"

record AttemptRecord =
  ar_request :: Digest
  ar_node :: ProvenanceNodeId
  ar_edges :: "ProvenanceEdgeId list"
  ar_outcome :: Outcome
  ar_currentness :: Currentness
  ar_lifecycle :: NodeLifecycle

record Lineage =
  l_state :: LineageState
  l_graph :: ProvenanceGraph
  l_attempts :: "(AttemptKey, AttemptRecord) omap"

datatype PublisherLiveness = PL_Live | PL_Fenced | PL_Unknown

type_synonym node_index = "(u64, ProvenanceNodeId oset) omap"

record Store =
  s_limits :: Limits
  s_lineages :: "(RouteLineageId, Lineage) omap"
  s_route_index :: "(RouteId, RouteLineageId) omap"
  s_node_owner :: "(ProvenanceNodeId, RouteLineageId) omap"
  s_route_generation_index :: "(RouteId, (RouteGeneration, ProvenanceNodeId) omap) omap"
  s_path_index :: node_index
  s_path_authority_index :: node_index
  s_policy_index :: node_index
  s_evidence_index :: node_index
  s_boot_index :: node_index
  s_publisher_index :: node_index
  s_watermarks :: DependencyWatermarks
  s_publishers :: "(PublisherKey, PublisherRecord) omap"
  s_recovered :: bool
  s_epoch_bootstrapped :: bool
  s_image_digest :: Digest

definition no_watermarks :: DependencyWatermarks where
  "no_watermarks = \<lparr>wm_store_generation = 0, wm_path_authority_generation = 0,
     wm_policy_generation = 0, wm_evidence_generation = 0, wm_plan_generation = 0, wm_epoch = 0,
     wm_digest = zero_digest\<rparr>"

definition new_store :: "Limits \<Rightarrow> Store" where
  "new_store limits = \<lparr>s_limits = limits, s_lineages = om_empty, s_route_index = om_empty,
     s_node_owner = om_empty, s_route_generation_index = om_empty, s_path_index = om_empty,
     s_path_authority_index = om_empty, s_policy_index = om_empty, s_evidence_index = om_empty,
     s_boot_index = om_empty, s_publisher_index = om_empty, s_watermarks = no_watermarks,
     s_publishers = om_empty, s_recovered = False, s_epoch_bootstrapped = False,
     s_image_digest = zero_digest\<rparr>"

text \<open>The public constructor refuses inconsistent limits (it throws).\<close>

definition make_store :: "Limits \<Rightarrow> string + Store" where
  "make_store limits =
     (case limits_error limits of
        Some err \<Rightarrow> Inl (''invalid Route Provenance limits: '' @ err)
      | None \<Rightarrow> Inr (new_store limits))"

definition new_state :: "RouteLineageId \<Rightarrow> LineageKey \<Rightarrow> LineageState" where
  "new_state i key = \<lparr>ls_id = i, ls_key = key, ls_lifecycle = LL_Active,
     ls_current_route_generation = 0, ls_current_node = 0, ls_lineage_generation = 0,
     ls_authority_generation = 0, ls_node_count = 0, ls_edge_count = 0, ls_compacted_node_count = 0,
     ls_history_node_count = 0, ls_last_publisher_boot = 0, ls_last_mutation_digest = zero_digest\<rparr>"

definition new_lineage :: "RouteLineageId \<Rightarrow> LineageKey \<Rightarrow> Lineage" where
  "new_lineage i key = \<lparr>l_state = new_state i key, l_graph = empty_graph, l_attempts = om_empty\<rparr>"

section \<open>Request checks and digest\<close>

definition control_char :: "char \<Rightarrow> bool" where
  "control_char ch \<longleftrightarrow> (of_char ch :: nat) < 0x20 \<or> (of_char ch :: nat) = 0x7F"

definition check_lineage_key :: "LineageKey \<Rightarrow> Limits \<Rightarrow> Status" where
  "check_lineage_key key limits =
     (if \<not> id_valid (lk_route key) then
        st_failure O_MalformedRequest ''lineage key requires a valid RouteId''
      else if lk_semantic_key key = [] then
        st_failure O_MalformedRequest ''lineage key requires a semantic key''
      else if length (lk_semantic_key key) > max_semantic_key_bytes limits then
        st_failure O_ResourceLimit ''semantic key exceeds max_semantic_key_bytes''
      else if list_ex control_char (lk_semantic_key key) then
        st_failure O_MalformedRequest ''semantic key contains control characters''
      else st_ok)"

definition edge_spec_bytes :: "hash_fun \<Rightarrow> EdgeSpec \<Rightarrow> Encoder" where
  "edge_spec_bytes H spec = encode_seq
     [add_u16 1 (edge_type_code (sp_type spec)),
      add_u64 2 (sp_target spec),
      add_u16 3 (reason_code_code (sp_reason spec)),
      add_u16 4 (source_class_code (sp_source spec)),
      add_digest 5 (evidence_digest H (sp_evidence spec))]"

definition request_bytes :: "hash_fun \<Rightarrow> NormalizedPublication \<Rightarrow> Encoder" where
  "request_bytes H request = encode_seq
     ([add_u32 1 kGraphEncodingVersion,
       add_u16 2 (publish_kind_code (np_kind request)),
       add_u64 3 (lk_route (np_key request)),
       add_string 4 (lk_semantic_key (np_key request)),
       add_u16 5 (node_kind_code (np_node_kind request)),
       add_u64 6 (np_route request),
       add_u64 7 (np_route_generation request),
       add_digest 8 (np_route_state_digest request),
       add_u16 9 (reason_code_code (np_reason request)),
       add_u16 10 (source_class_code (np_source request)),
       add_u16 11 (case np_root_reason request of Some r \<Rightarrow> root_reason_code r | None \<Rightarrow> 0),
       evidence_encode (np_evidence request) 12,
       authority_encode (np_authority request) 13,
       encode_bindings (np_bindings request) 14,
       add_u64 15 (np_target request),
       add_u64 16 (np_link_from request),
       add_digest 17 (np_completion_evidence request),
       add_u32 18 (of_nat (length (np_edges request)))] @
      map (\<lambda>spec. add_nested 19 (edge_spec_bytes H spec)) (np_edges request))"

definition request_digest :: "hash_fun \<Rightarrow> NormalizedPublication \<Rightarrow> Digest" where
  "request_digest H request = enc_digest H ''rp.request.v1'' (request_bytes H request)"

section \<open>Currentness\<close>

text \<open>The stale-generation tests, each with its outcome, in the documented order.\<close>

definition compute_currentness ::
    "LineageState \<Rightarrow> ProvenanceNode \<Rightarrow> DependencyWatermarks \<Rightarrow> PublisherLiveness \<Rightarrow> Currentness" where
  "compute_currentness state node marks liveness =
     (if ls_lifecycle state = LL_Retired \<or> n_lifecycle node = NL_Retired then CU_HistoricalOnly
      else if n_lifecycle node \<in> {NL_Invalid, NL_Revoked, NL_Historical, NL_Superseded} then CU_HistoricalOnly
      else if n_revalidation_required node then CU_RevalidationRequired
      else if node_is_route_state node
              \<and> n_route_generation node \<noteq> ls_current_route_generation state then CU_StaleRoute
      else if (case b_path (n_bindings node) of None \<Rightarrow> False
               | Some p \<Rightarrow> id_valid (wm_path_authority_generation marks)
                   \<and> pb_generation p \<noteq> wm_path_authority_generation marks) then CU_StalePathAuthority
      else if (case b_policy (n_bindings node) of None \<Rightarrow> False
               | Some p \<Rightarrow> id_valid (wm_policy_generation marks)
                   \<and> ob_generation p \<noteq> wm_policy_generation marks) then CU_StalePolicy
      else if (case b_adaptation (n_bindings node) of None \<Rightarrow> False
               | Some p \<Rightarrow> id_valid (wm_policy_generation marks)
                   \<and> ab_policy p \<noteq> wm_policy_generation marks) then CU_StalePolicy
      else if (case b_adaptation (n_bindings node) of None \<Rightarrow> False
               | Some p \<Rightarrow> id_valid (wm_evidence_generation marks)
                   \<and> ab_evidence p \<noteq> wm_evidence_generation marks) then CU_StaleEvidence
      else if (case evidence_get (n_evidence node) EF_FabricEpoch of None \<Rightarrow> False
               | Some bound_epoch \<Rightarrow> id_valid (wm_epoch marks) \<and> bound_epoch \<noteq> wm_epoch marks) then
        CU_StaleEpoch
      else if id_valid (wm_epoch marks) \<and> pi_epoch (ac_publisher (n_authority node)) \<noteq> wm_epoch marks then
        CU_StaleEpoch
      else if n_revalidated node then CU_Current
      else if liveness = PL_Fenced then CU_FencedPublisher
      else if liveness = PL_Unknown then CU_RevalidationRequired
      else CU_Current)"

definition edge_from_new_node :: "EdgeType \<Rightarrow> bool" where
  "edge_from_new_node t = (case t of ET_RevokedBy \<Rightarrow> False | ET_RetiredBy \<Rightarrow> False | _ \<Rightarrow> True)"

definition is_declaration_kind :: "NodeKind \<Rightarrow> bool" where
  "is_declaration_kind k =
     (case k of NK_PathAuthorization \<Rightarrow> True | NK_PlannerCandidate \<Rightarrow> True | NK_AdaptiveDecision \<Rightarrow> True
      | NK_ConvergencePlan \<Rightarrow> True | NK_PolicyDecision \<Rightarrow> True | _ \<Rightarrow> False)"

fun check_declaration_bindings :: "NodeKind \<Rightarrow> Bindings \<Rightarrow> Status" where
  "check_declaration_bindings NK_PathAuthorization b =
     (if b_path b = None then
        st_failure O_MalformedRequest ''PATH_AUTHORIZATION requires a path binding'' else st_ok)"
| "check_declaration_bindings NK_PlannerCandidate b =
     (if b_planner b = None then
        st_failure O_MalformedRequest ''PLANNER_CANDIDATE requires a planner binding'' else st_ok)"
| "check_declaration_bindings NK_AdaptiveDecision b =
     (if b_adaptation b = None then
        st_failure O_MalformedRequest ''ADAPTIVE_DECISION requires an adaptation binding'' else st_ok)"
| "check_declaration_bindings NK_ConvergencePlan b =
     (if b_convergence b = None then
        st_failure O_MalformedRequest ''CONVERGENCE_PLAN requires a convergence binding'' else st_ok)"
| "check_declaration_bindings NK_PolicyDecision b =
     (if b_policy b = None then
        st_failure O_MalformedRequest ''POLICY_DECISION requires a policy binding'' else st_ok)"
| "check_declaration_bindings _ b = st_failure O_MalformedRequest ''unsupported declaration kind''"

definition make_publication ::
    "RouteLineageId \<Rightarrow> ProvenanceNodeId \<Rightarrow> ProvenanceEdgeId list \<Rightarrow> LineageState \<Rightarrow> DependencyWatermarks
     \<Rightarrow> NodeLifecycle \<Rightarrow> Currentness \<Rightarrow> Publication" where
  "make_publication lineage node edges state marks lifecycle currentness =
     \<lparr>p_lineage = lineage, p_node = node, p_edges = edges,
      p_lineage_generation = ls_lineage_generation state,
      p_store_generation = wm_store_generation marks,
      p_lifecycle = lifecycle, p_currentness = currentness\<rparr>"

section \<open>Registry\<close>

definition find_publisher :: "Store \<Rightarrow> PublisherId \<Rightarrow> WorkerBootId \<Rightarrow> PublisherRecord option" where
  "find_publisher st publisher boot = om_find (s_publishers st) (publisher, boot)"

definition publisher_is_live :: "Store \<Rightarrow> PublisherId \<Rightarrow> WorkerBootId \<Rightarrow> bool" where
  "publisher_is_live st publisher boot =
     (case find_publisher st publisher boot of None \<Rightarrow> False | Some r \<Rightarrow> pr_live r)"

definition publisher_state :: "Store \<Rightarrow> PublisherId \<Rightarrow> WorkerBootId \<Rightarrow> PublisherLiveness" where
  "publisher_state st publisher boot =
     (case find_publisher st publisher boot of
        None \<Rightarrow> PL_Unknown
      | Some r \<Rightarrow> if pr_live r then PL_Live else PL_Fenced)"

text \<open>\<^verbatim>\<open>next_store_generation\<close>: the flag and the store with the advanced generation.\<close>

definition next_store_generation :: "Store \<Rightarrow> bool \<times> Store" where
  "next_store_generation st =
     (let (ok, g) = bump_generation (wm_store_generation (s_watermarks st))
      in (ok, st\<lparr>s_watermarks := (s_watermarks st)\<lparr>wm_store_generation := g\<rparr>\<rparr>))"

definition find_lineage :: "Store \<Rightarrow> RouteLineageId \<Rightarrow> Lineage option" where
  "find_lineage st i = om_find (s_lineages st) i"

definition put_lineage :: "RouteLineageId \<Rightarrow> Lineage \<Rightarrow> Store \<Rightarrow> Store" where
  "put_lineage i lin st = st\<lparr>s_lineages := om_put i lin (s_lineages st)\<rparr>"

text \<open>\<open>None\<close>: no such lineage, and it may not be created or the limit is reached.\<close>

definition acquire_lineage :: "RouteLineageId \<Rightarrow> LineageKey \<Rightarrow> bool \<Rightarrow> Store \<Rightarrow> (Store \<times> Lineage) option" where
  "acquire_lineage i key create st =
     (case find_lineage st i of
        Some lin \<Rightarrow> Some (st, lin)
      | None \<Rightarrow>
          if \<not> create then None
          else if om_size (s_lineages st) \<ge> max_lineages (s_limits st) then None
          else Some ((put_lineage i (new_lineage i key) st)
                       \<lparr>s_route_index := om_put (lk_route key) i (s_route_index st)\<rparr>,
                     new_lineage i key))"

section \<open>Indexes\<close>

definition index_add :: "u64 \<Rightarrow> ProvenanceNodeId \<Rightarrow> node_index \<Rightarrow> node_index" where
  "index_add k n idx = om_put k (os_insert n (om_get om_empty idx k)) idx"

definition index_opt :: "u64 option \<Rightarrow> ProvenanceNodeId \<Rightarrow> node_index \<Rightarrow> node_index" where
  "index_opt k n idx = (case k of None \<Rightarrow> idx | Some k \<Rightarrow> index_add k n idx)"

definition index_node :: "ProvenanceNode \<Rightarrow> RouteLineageId \<Rightarrow> Store \<Rightarrow> Store" where
  "index_node node lineage st =
     (let b = n_bindings node; i = n_id node
      in st\<lparr>s_node_owner := om_put i lineage (s_node_owner st),
            s_route_generation_index :=
              (if n_kind node = NK_RouteGeneration then
                 om_put (n_route node)
                   (om_put (n_route_generation node) i
                     (om_get om_empty (s_route_generation_index st) (n_route node)))
                   (s_route_generation_index st)
               else s_route_generation_index st),
            s_path_index :=
              index_opt (map_option pl_selected_path (b_planner b)) i
                (index_opt (map_option pb_path (b_path b)) i (s_path_index st)),
            s_path_authority_index :=
              index_opt (map_option pb_generation (b_path b)) i (s_path_authority_index st),
            s_policy_index :=
              index_opt (map_option ab_policy (b_adaptation b)) i
                (index_opt (map_option ob_generation (b_policy b)) i (s_policy_index st)),
            s_evidence_index :=
              index_opt (map_option ab_evidence (b_adaptation b)) i (s_evidence_index st),
            s_boot_index := index_add (pi_boot (ac_publisher (n_authority node))) i (s_boot_index st),
            s_publisher_index :=
              index_add (pi_publisher (ac_publisher (n_authority node))) i (s_publisher_index st)\<rparr>)"

definition index_edge :: "ProvenanceEdge \<Rightarrow> Store \<Rightarrow> Store" where
  "index_edge e st =
     st\<lparr>s_node_owner := om_emplace (e_to e) (e_lineage e)
          (om_emplace (e_from e) (e_lineage e) (s_node_owner st))\<rparr>"

section \<open>Re-evaluation of record state\<close>

definition node_currentness :: "Store \<Rightarrow> LineageState \<Rightarrow> ProvenanceNode \<Rightarrow> Currentness" where
  "node_currentness st state node =
     compute_currentness state node (s_watermarks st)
       (publisher_state st (pi_publisher (ac_publisher (n_authority node)))
          (pi_boot (ac_publisher (n_authority node))))"

text \<open>The body shared by \<^verbatim>\<open>reevaluate_node\<close> and the loops: the graph and the status of the update.\<close>

definition refresh_record ::
    "Store \<Rightarrow> LineageState \<Rightarrow> ProvenanceNodeId \<Rightarrow> ProvenanceNode \<Rightarrow> ProvenanceGraph
     \<Rightarrow> ProvenanceGraph \<times> Status" where
  "refresh_record st state i node g =
     (if node_currentness st state node = n_currentness node then (g, st_ok)
      else update_node_state i (n_lifecycle node) (node_currentness st state node)
             (n_revalidation_required node) g)"

definition reevaluate_node :: "Store \<Rightarrow> ProvenanceNodeId \<Rightarrow> Lineage \<Rightarrow> Lineage" where
  "reevaluate_node st i lin =
     (case find_node (l_graph lin) i of
        None \<Rightarrow> lin
      | Some node \<Rightarrow> lin\<lparr>l_graph := fst (refresh_record st (l_state lin) i node (l_graph lin))\<rparr>)"

definition reevaluate_all :: "Store \<Rightarrow> Lineage \<Rightarrow> Lineage" where
  "reevaluate_all st lin =
     lin\<lparr>l_graph := fold (\<lambda>node g. fst (refresh_record st (l_state lin) (n_id node) node g))
            (nodes_in_order (l_graph lin)) (l_graph lin)\<rparr>"

fun reevaluate_nodes :: "Store \<Rightarrow> ProvenanceNodeId list \<Rightarrow> Lineage \<Rightarrow> Lineage \<times> Status" where
  "reevaluate_nodes st [] lin = (lin, st_ok)"
| "reevaluate_nodes st (i # ids) lin =
     (case find_node (l_graph lin) i of
        None \<Rightarrow> reevaluate_nodes st ids lin
      | Some node \<Rightarrow>
          let (g, status) = refresh_record st (l_state lin) i node (l_graph lin)
          in if \<not> st_is_ok status then (lin\<lparr>l_graph := g\<rparr>, status)
             else reevaluate_nodes st ids (lin\<lparr>l_graph := g\<rparr>))"

definition group_by_owner :: "Store \<Rightarrow> ProvenanceNodeId list \<Rightarrow> (RouteLineageId, ProvenanceNodeId list) omap" where
  "group_by_owner st ids =
     fold (\<lambda>i grouped. case om_find (s_node_owner st) i of
                          None \<Rightarrow> grouped
                        | Some owner \<Rightarrow> om_put owner (om_get [] grouped owner @ [i]) grouped)
       ids om_empty"

definition reevaluate_index :: "ProvenanceNodeId list \<Rightarrow> Store \<Rightarrow> Store" where
  "reevaluate_index ids st =
     fold (\<lambda>(owner, members) st'.
             case find_lineage st' owner of
               None \<Rightarrow> st'
             | Some lin \<Rightarrow> put_lineage owner (fst (reevaluate_nodes st' members lin)) st')
       (om_entries (group_by_owner st ids)) st"

end
