(* ===== verification/Commit.thy ===== *)
theory Commit
  imports Store
begin

text \<open>
  The commit pipeline, \<^verbatim>\<open>ProvenanceStore::Impl::commit\<close> of \<^verbatim>\<open>src/store.cpp\<close>, one definition per
  documented stage. A stage that can return early yields \<open>Inl result\<close>; \<open>commit\<close> composes them in
  the order of the source. Stages up to 13 read the lineage, stage 14 and the bookkeeping change it.
\<close>

type_synonym early = "Publication Result"

section \<open>Stages 3 to 6: caller authority\<close>

definition stage_authority :: "hash_fun \<Rightarrow> NormalizedPublication \<Rightarrow> Store \<Rightarrow> early + RouteLineageId" where
  "stage_authority H request st =
     (let marks = s_watermarks st; auth = np_authority request;
          derived = derive_lineage_id H (np_key request);
          lineage_id = (case np_explicit_lineage request of Some i \<Rightarrow> i | None \<Rightarrow> derived)
      in if \<not> has_identity auth then
           Inl (r_failure O_Unauthorized
             ''publication requires PublisherId, WorkerBootId, CoordinatorEpoch and attempt'')
         else if \<not> id_valid (wm_epoch marks) then
           Inl (r_failure O_StaleEpoch ''store has no current coordinator epoch'')
         else if pi_epoch (ac_publisher auth) \<noteq> wm_epoch marks then
           Inl (r_failure O_StaleEpoch ''publication epoch is not the current epoch'')
         else if \<not> publisher_is_live st (pi_publisher (ac_publisher auth)) (pi_boot (ac_publisher auth)) then
           Inl (r_failure O_StaleWorker ''publisher boot is not a live registered session'')
         else if np_explicit_lineage request \<noteq> None \<and> np_explicit_lineage request \<noteq> Some derived then
           Inl (r_failure O_MalformedRequest ''explicit lineage identity does not match the lineage key'')
         else if \<not> permits (ac_scope auth)
                    \<lparr>tg_routing_namespace = 0, tg_lineage = lineage_id, tg_route = lk_route (np_key request)\<rparr> then
           Inl (r_failure O_Unauthorized
             (''authority scope does not cover the target: '' @ scope_describe (ac_scope auth)))
         else Inr lineage_id)"

section \<open>Stages 7 to 9: lifecycle, expectations, attempts\<close>

definition stage_lifecycle :: "LineageState \<Rightarrow> early option" where
  "stage_lifecycle state =
     (if ls_lifecycle state = LL_Retired then Some (r_failure O_Retired ''lineage is retired'')
      else if ls_lifecycle state = LL_Revoked then
        Some (r_failure O_Revoked ''lineage is administratively revoked'')
      else None)"

definition attempt_key :: "NormalizedPublication \<Rightarrow> AttemptKey" where
  "attempt_key request =
     (pi_publisher (ac_publisher (np_authority request)), ac_attempt (np_authority request))"

definition stage_attempt ::
    "hash_fun \<Rightarrow> NormalizedPublication \<Rightarrow> DependencyWatermarks \<Rightarrow> RouteLineageId \<Rightarrow> Lineage \<Rightarrow> early option" where
  "stage_attempt H request marks lineage_id lin =
     (case om_find (l_attempts lin) (attempt_key request) of
        None \<Rightarrow>
          (case ac_expected_lineage_generation (np_authority request) of
             Some g \<Rightarrow> if g \<noteq> ls_lineage_generation (l_state lin) then
                 Some (r_failure O_StaleLineageGeneration ''expected lineage generation is no longer current'')
               else
                 (case ac_expected_provenance_generation (np_authority request) of
                    Some p \<Rightarrow> if p \<noteq> wm_store_generation marks then
                        Some (r_failure O_StaleStoreGeneration ''expected store generation is no longer current'')
                      else None
                  | None \<Rightarrow> None)
           | None \<Rightarrow>
               (case ac_expected_provenance_generation (np_authority request) of
                  Some p \<Rightarrow> if p \<noteq> wm_store_generation marks then
                      Some (r_failure O_StaleStoreGeneration ''expected store generation is no longer current'')
                    else None
                | None \<Rightarrow> None))
      | Some record \<Rightarrow>
          if ar_request record = request_digest H request then
            Some (Result O_Idempotent
              (Some (make_publication lineage_id (ar_node record) (ar_edges record) (l_state lin) marks
                 (ar_lifecycle record) (ar_currentness record)))
              ''exact replay of a committed mutation attempt'')
          else Some (r_failure O_Conflict ''mutation attempt identity already used with a different payload''))"

section \<open>Stage 10: route generation and target binding\<close>

definition base_node :: "RouteLineageId \<Rightarrow> NormalizedPublication \<Rightarrow> ProvenanceNode" where
  "base_node lineage_id request = \<lparr>
     n_id = 0, n_lineage = lineage_id, n_kind = np_node_kind request,
     n_route = (if np_kind request = PK_RouteState then lk_route (np_key request) else np_route request),
     n_route_generation = np_route_generation request,
     n_route_state_digest = np_route_state_digest request,
     n_reason = np_reason request, n_source = np_source request,
     n_root_reason = np_root_reason request, n_evidence = np_evidence request,
     n_authority = np_authority request, n_bindings = np_bindings request,
     n_lifecycle = NL_Declared, n_currentness = CU_HistoricalOnly,
     n_revalidation_required = False, n_revalidated = False, n_corrected_by = None,
     n_corrects = None, n_compacted_digest = None\<rparr>"

definition generation_node :: "Store \<Rightarrow> RouteId \<Rightarrow> RouteGeneration \<Rightarrow> ProvenanceNodeId" where
  "generation_node st route generation =
     (case om_find (s_route_generation_index st) route of
        None \<Rightarrow> 0
      | Some generations \<Rightarrow> (case om_find generations generation of None \<Rightarrow> 0 | Some i \<Rightarrow> i))"

definition existing_generation :: "Store \<Rightarrow> Lineage \<Rightarrow> ProvenanceNode \<Rightarrow> ProvenanceNode option" where
  "existing_generation st lin node =
     (let i = generation_node st (n_route node) (n_route_generation node)
      in if id_valid i then find_node (l_graph lin) i else None)"

definition probe_id :: "hash_fun \<Rightarrow> ProvenanceNode \<Rightarrow> ProvenanceNode \<Rightarrow> ProvenanceNodeId" where
  "probe_id H node existing =
     n_id (finalize_node H (node\<lparr>n_authority :=
       (n_authority node)\<lparr>ac_attempt := ac_attempt (n_authority existing)\<rparr>\<rparr>))"

definition target_route_state ::
    "hash_fun \<Rightarrow> NormalizedPublication \<Rightarrow> Store \<Rightarrow> RouteLineageId \<Rightarrow> Lineage \<Rightarrow> ProvenanceNode
     \<Rightarrow> early + ProvenanceNode" where
  "target_route_state H request st lineage_id lin node =
     (if np_route_generation request < ls_current_route_generation (l_state lin) then
        Inl (r_failure O_StaleRoute ''route generation is older than the lineage current generation'')
      else case existing_generation st lin node of
        Some existing \<Rightarrow>
          if probe_id H node existing = n_id existing then
            Inl (Result O_Duplicate
              (Some (make_publication lineage_id (n_id existing)
                 (map e_id (outgoing_edges (l_graph lin) (n_id existing))) (l_state lin) (s_watermarks st)
                 (n_lifecycle existing) (n_currentness existing)))
              ''an identical provenance record already exists for this generation'')
          else
            Inl (r_failure O_Conflict
              ''a different provenance record already exists for this route generation'')
      | None \<Rightarrow>
          if np_root_reason request = None \<and> np_edges request = [] then
            Inl (r_failure O_InvalidDerivation
              ''non-root route generation requires an explicit causal predecessor'')
          else if np_root_reason request \<noteq> None \<and> id_valid (ls_current_route_generation (l_state lin)) then
            Inl (r_failure O_InvalidDerivation
              ''root provenance declared in a lineage that already has route state'')
          else if np_root_reason request \<noteq> None
                  \<and> list_ex (\<lambda>spec. edge_type_is_successor_relation (sp_type spec)) (np_edges request) then
            Inl (r_failure O_InvalidDerivation ''root provenance cannot carry a successor relation'')
          else Inr (node\<lparr>n_lifecycle := NL_Current\<rparr>))"

definition target_existing ::
    "NormalizedPublication \<Rightarrow> Store \<Rightarrow> Lineage \<Rightarrow> ProvenanceNode \<Rightarrow> early + ProvenanceNode" where
  "target_existing request st lin node =
     (case find_node (l_graph lin) (np_target request) of
        None \<Rightarrow>
          if om_has (s_node_owner st) (np_target request) then
            Inl (r_failure O_InvalidDerivation ''target record belongs to a different lineage'')
          else Inl (r_failure O_NodeNotFound ''target record is not present'')
      | Some target \<Rightarrow>
          if np_kind request = PK_Correction then
            if n_kind target = NK_CompactedSummary then
              Inl (r_failure O_InvalidDerivation
                ''a compacted summary cannot be corrected; publish a new record'')
            else Inr (node\<lparr>n_kind := n_kind target, n_route := n_route target,
                        n_route_generation := n_route_generation target,
                        n_route_state_digest :=
                          (if digest_is_zero (np_route_state_digest request) then n_route_state_digest target
                           else np_route_state_digest request),
                        n_root_reason := n_root_reason target,
                        n_corrects := Some (n_id target), n_lifecycle := NL_Current\<rparr>)
          else if n_lifecycle target = NL_Retired \<or> n_lifecycle target = NL_Revoked then
            Inl (r_failure O_InvalidDerivation ''record has already been retired or revoked'')
          else if np_kind request = PK_Revalidation \<and> \<not> np_allow_non_current_target request
                  \<and> n_id target \<noteq> ls_current_node (l_state lin) then
            Inl (r_failure O_InvalidDerivation
              ''revalidation target is not the current record of the lineage'')
          else Inr (node\<lparr>n_kind := NK_AdministrativeAction, n_route := n_route target,
                      n_route_generation := n_route_generation target,
                      n_route_state_digest := n_route_state_digest target,
                      n_lifecycle := NL_Current\<rparr>))"

definition stage_target ::
    "hash_fun \<Rightarrow> NormalizedPublication \<Rightarrow> Store \<Rightarrow> RouteLineageId \<Rightarrow> Lineage \<Rightarrow> early + ProvenanceNode" where
  "stage_target H request st lineage_id lin =
     (let node = base_node lineage_id request
      in case np_kind request of
           PK_RouteState \<Rightarrow> target_route_state H request st lineage_id lin node
         | PK_Declaration \<Rightarrow>
             Inr (node\<lparr>n_lifecycle := NL_Declared, n_route := np_route request,
                     n_route_generation := np_route_generation request,
                     n_route_state_digest := zero_digest\<rparr>)
         | PK_Link \<Rightarrow> Inr node
         | _ \<Rightarrow> target_existing request st lin node)"

section \<open>Stage 11: freshness of the upstream bindings\<close>

definition stage_freshness :: "DependencyWatermarks \<Rightarrow> ProvenanceNode \<Rightarrow> early option" where
  "stage_freshness marks node =
     (let b = n_bindings node;
          path = (case b_path b of
                    None \<Rightarrow> None
                  | Some p \<Rightarrow>
                      if \<not> id_valid (wm_path_authority_generation marks) then None
                      else if pb_generation p < wm_path_authority_generation marks then
                        Some (r_failure O_StalePathAuthority ''path authority generation is superseded'')
                      else if pb_generation p > wm_path_authority_generation marks then
                        Some (r_failure O_InvalidSourceGeneration
                          ''path authority generation is ahead of the announced authority'')
                      else None);
          policy = (case b_policy b of
                    None \<Rightarrow> None
                  | Some p \<Rightarrow>
                      if \<not> id_valid (wm_policy_generation marks) then None
                      else if ob_generation p < wm_policy_generation marks then
                        Some (r_failure O_StalePolicy ''policy generation is superseded'')
                      else if ob_generation p > wm_policy_generation marks then
                        Some (r_failure O_InvalidSourceGeneration
                          ''policy generation is ahead of the announced authority'')
                      else None);
          plan = (case b_convergence b of
                    None \<Rightarrow> None
                  | Some p \<Rightarrow>
                      if id_valid (wm_plan_generation marks) \<and> cb_generation p < wm_plan_generation marks then
                        Some (r_failure O_StalePlan ''convergence plan generation is superseded'')
                      else None)
      in case path of Some r \<Rightarrow> Some r
         | None \<Rightarrow> (case policy of Some r \<Rightarrow> Some r | None \<Rightarrow> plan))"

section \<open>Stage 12: edges\<close>

definition no_authority :: AuthorityContext where
  "no_authority = \<lparr>ac_publisher = \<lparr>pi_publisher = 0, pi_boot = 0, pi_epoch = 0\<rparr>,
     ac_scope = scope_none, ac_attempt = 0, ac_expected_lineage_generation = None,
     ac_expected_provenance_generation = None\<rparr>"

definition blank_edge :: ProvenanceEdge where
  "blank_edge = \<lparr>e_id = 0, e_derivation = 0, e_lineage = 0, e_type = ET_DerivedFrom, e_from = 0,
     e_to = 0, e_predecessor_route_generation = 0, e_successor_route_generation = 0,
     e_reason = RC_InitialRoute, e_source = SC_RouteFabric, e_evidence = [],
     e_authority = no_authority\<rparr>"

text \<open>The checks both kinds of edge end with: consistency, then the cycle check.\<close>

definition checked_edge :: "Limits \<Rightarrow> ProvenanceGraph \<Rightarrow> ProvenanceEdge \<Rightarrow> early + ProvenanceEdge" where
  "checked_edge limits g e =
     (if \<not> st_is_ok (validate_edge_consistency e) then Inl (r_of_status (validate_edge_consistency e))
      else if \<not> st_is_ok (check_add_edge g (e_from e) (e_to e) limits) then
        Inl (r_of_status (check_add_edge g (e_from e) (e_to e) limits))
      else Inr e)"

definition link_edge ::
    "hash_fun \<Rightarrow> NormalizedPublication \<Rightarrow> RouteLineageId \<Rightarrow> ProvenanceGraph \<Rightarrow> early + ProvenanceEdge" where
  "link_edge H request lineage_id g =
     (case (find_node g (np_link_from request), find_node g (np_target request)) of
        (Some from_n, Some to_n) \<Rightarrow>
          (let succ = edge_type_is_successor_relation (np_link_type request)
           in if succ \<and> (n_kind to_n \<noteq> NK_RouteGeneration \<or> n_kind from_n \<noteq> NK_RouteGeneration) then
                Inl (r_failure O_InvalidDerivation ''successor relations connect route state records'')
              else Inr (finalize_edge H (blank_edge\<lparr>
                e_lineage := lineage_id, e_type := np_link_type request,
                e_from := np_link_from request, e_to := np_target request,
                e_predecessor_route_generation := (if succ then n_route_generation to_n else 0),
                e_successor_route_generation := (if succ then n_route_generation from_n else 0),
                e_reason := np_reason request, e_source := np_source request,
                e_evidence := np_evidence request, e_authority := np_authority request\<rparr>)))
      | _ \<Rightarrow> Inl (r_failure O_MissingParent ''link endpoints must both exist in the lineage''))"

definition spec_edge ::
    "hash_fun \<Rightarrow> NormalizedPublication \<Rightarrow> Store \<Rightarrow> RouteLineageId \<Rightarrow> ProvenanceGraph \<Rightarrow> ProvenanceNode
     \<Rightarrow> EdgeSpec \<Rightarrow> early + ProvenanceEdge" where
  "spec_edge H request st lineage_id g node spec =
     (case find_node g (sp_target spec) of
        None \<Rightarrow>
          if om_has (s_node_owner st) (sp_target spec) then
            Inl (r_failure O_InvalidDerivation ''derivation edge target belongs to a different lineage'')
          else Inl (r_failure O_MissingParent ''derivation edge target is not present in this lineage'')
      | Some target \<Rightarrow>
          (let succ = edge_type_is_successor_relation (sp_type spec)
           in if succ \<and> n_kind target \<noteq> NK_RouteGeneration then
                Inl (r_failure O_InvalidDerivation ''successor relations must reference route state'')
              else checked_edge (s_limits st) g (finalize_edge H (blank_edge\<lparr>
                e_lineage := lineage_id, e_type := sp_type spec,
                e_from := (if edge_from_new_node (sp_type spec) then n_id node else n_id target),
                e_to := (if edge_from_new_node (sp_type spec) then n_id target else n_id node),
                e_predecessor_route_generation := (if succ then n_route_generation target else 0),
                e_successor_route_generation := (if succ then n_route_generation node else 0),
                e_reason := sp_reason spec, e_source := sp_source spec,
                e_evidence := sp_evidence spec, e_authority := np_authority request\<rparr>))))"

fun spec_edges ::
    "(EdgeSpec \<Rightarrow> early + ProvenanceEdge) \<Rightarrow> EdgeSpec list \<Rightarrow> early + ProvenanceEdge list" where
  "spec_edges build [] = Inr []"
| "spec_edges build (spec # specs) =
     (case build spec of
        Inl r \<Rightarrow> Inl r
      | Inr e \<Rightarrow> (case spec_edges build specs of Inl r \<Rightarrow> Inl r | Inr es \<Rightarrow> Inr (e # es)))"

text \<open>The record as finalised here, with its edges.\<close>

definition stage_edges ::
    "hash_fun \<Rightarrow> NormalizedPublication \<Rightarrow> Store \<Rightarrow> RouteLineageId \<Rightarrow> Lineage \<Rightarrow> ProvenanceNode
     \<Rightarrow> early + ProvenanceNode \<times> ProvenanceEdge list" where
  "stage_edges H request st lineage_id lin node =
     (if np_kind request = PK_Link then
        (case link_edge H request lineage_id (l_graph lin) of
           Inl r \<Rightarrow> Inl r
         | Inr e \<Rightarrow> (case checked_edge (s_limits st) (l_graph lin) e of
                       Inl r \<Rightarrow> Inl r | Inr e \<Rightarrow> Inr (node, [e])))
      else
        (let node' = finalize_node H node
         in case spec_edges (spec_edge H request st lineage_id (l_graph lin) node') (np_edges request) of
              Inl r \<Rightarrow> Inl r | Inr es \<Rightarrow> Inr (node', es)))"

section \<open>Stage 13: limits\<close>

definition stage_limits ::
    "NormalizedPublication \<Rightarrow> Limits \<Rightarrow> Lineage \<Rightarrow> ProvenanceEdge list \<Rightarrow> early option" where
  "stage_limits request limits lin edges =
     (if length (np_edges request) > max_batch_size limits then
        Some (r_failure O_ResourceLimit ''batch exceeds max_batch_size'')
      else if np_kind request \<noteq> PK_Link \<and> node_count (l_graph lin) \<ge> max_nodes_per_lineage limits then
        Some (r_failure O_ResourceLimit ''max_nodes_per_lineage reached'')
      else if np_kind request \<noteq> PK_Link
              \<and> edge_count (l_graph lin) + length edges > max_edges_per_lineage limits then
        Some (r_failure O_ResourceLimit ''max_edges_per_lineage reached'')
      else if np_kind request = PK_Link \<and> edge_count (l_graph lin) \<ge> max_edges_per_lineage limits then
        Some (r_failure O_ResourceLimit ''max_edges_per_lineage reached'')
      else if ls_history_node_count (l_state lin) \<ge> max_history_nodes_per_lineage limits then
        Some (r_failure O_ResourceLimit
          ''bounded history reached: compact the lineage or raise max_history_nodes_per_lineage'')
      else if om_find (l_attempts lin) (attempt_key request) = None
              \<and> om_size (l_attempts lin) \<ge> max_attempts_per_lineage limits then
        Some (r_failure O_ResourceLimit ''max_attempts_per_lineage reached'')
      else None)"

text \<open>Stages 7 to 13: no state is changed.\<close>

definition commit_checks ::
    "hash_fun \<Rightarrow> NormalizedPublication \<Rightarrow> Store \<Rightarrow> RouteLineageId \<Rightarrow> Lineage
     \<Rightarrow> early + ProvenanceNode \<times> ProvenanceEdge list" where
  "commit_checks H request st lineage_id lin =
     (case stage_lifecycle (l_state lin) of Some r \<Rightarrow> Inl r | None \<Rightarrow>
     (case stage_attempt H request (s_watermarks st) lineage_id lin of Some r \<Rightarrow> Inl r | None \<Rightarrow>
     (case stage_target H request st lineage_id lin of Inl r \<Rightarrow> Inl r | Inr node \<Rightarrow>
     (case stage_freshness (s_watermarks st) node of Some r \<Rightarrow> Inl r | None \<Rightarrow>
     (case stage_edges H request st lineage_id lin node of Inl r \<Rightarrow> Inl r | Inr (node', edges) \<Rightarrow>
     (case stage_limits request (s_limits st) lin edges of Some r \<Rightarrow> Inl r | None \<Rightarrow>
        Inr (node', edges)))))))"

section \<open>Stage 14: the graph\<close>

text \<open>
  The graph is changed in place, edge by edge: a refused edge ends the commit with its status and
  leaves what was added before. Duplicates are skipped, and the first new edge of a duplicate record
  turns the outcome into \<open>O_Linked\<close>.
\<close>

fun add_edges ::
    "hash_fun \<Rightarrow> Limits \<Rightarrow> ProvenanceEdge list \<Rightarrow> Outcome \<Rightarrow> ProvenanceGraph
     \<Rightarrow> ProvenanceGraph \<times> (early + Outcome)" where
  "add_edges H limits [] out g = (g, Inr out)"
| "add_edges H limits (e # es) out g =
     (let (g', status) = add_edge H e limits g
      in if st_is_ok status then
           add_edges H limits es (if out = O_Duplicate then O_Linked else out) g'
         else if st_outcome status = O_Duplicate then add_edges H limits es out g'
         else (g', Inl (r_of_status status)))"

text \<open>What the graph step hands to the bookkeeping.\<close>

record Applied =
  ap_outcome :: Outcome
  ap_edges :: "ProvenanceEdge list"
  ap_affected :: "ProvenanceNodeId list"

text \<open>
  A link rebuilds its edge from the same request and graph, so that the tests of stage 12 pass again,
  and appends it to the list that already holds it.
\<close>

definition apply_link ::
    "hash_fun \<Rightarrow> NormalizedPublication \<Rightarrow> Limits \<Rightarrow> RouteLineageId \<Rightarrow> ProvenanceEdge list \<Rightarrow> ProvenanceGraph
     \<Rightarrow> ProvenanceGraph \<times> (early + Applied)" where
  "apply_link H request limits lineage_id edges g =
     (case link_edge H request lineage_id g of
        Inl r \<Rightarrow> (g, Inl r)
      | Inr e \<Rightarrow>
          let (g', status) = add_edge H e limits g
          in if \<not> st_is_ok status \<and> st_outcome status \<noteq> O_Duplicate then (g', Inl (r_of_status status))
             else (g', Inr \<lparr>ap_outcome = (if st_outcome status = O_Duplicate then O_Duplicate else O_Linked),
                            ap_edges = edges @ [e], ap_affected = [e_from e, e_to e]\<rparr>))"

definition apply_node ::
    "hash_fun \<Rightarrow> Limits \<Rightarrow> ProvenanceNode \<Rightarrow> ProvenanceEdge list \<Rightarrow> ProvenanceGraph
     \<Rightarrow> ProvenanceGraph \<times> (early + Applied)" where
  "apply_node H limits node edges g =
     (let (g1, added) = add_node H node limits g
      in if \<not> st_is_ok added \<and> st_outcome added \<noteq> O_Duplicate then (g1, Inl (r_of_status added))
         else case add_edges H limits edges (if st_is_ok added then O_Created else O_Duplicate) g1 of
                (g2, Inl r) \<Rightarrow> (g2, Inl r)
              | (g2, Inr out) \<Rightarrow>
                  (g2, Inr \<lparr>ap_outcome = out, ap_edges = edges,
                            ap_affected = n_id node # map e_to edges\<rparr>))"

definition apply_graph ::
    "hash_fun \<Rightarrow> NormalizedPublication \<Rightarrow> Limits \<Rightarrow> RouteLineageId \<Rightarrow> ProvenanceNode \<Rightarrow> ProvenanceEdge list
     \<Rightarrow> ProvenanceGraph \<Rightarrow> ProvenanceGraph \<times> (early + Applied)" where
  "apply_graph H request limits lineage_id node edges g =
     (if np_kind request = PK_Link then apply_link H request limits lineage_id edges g
      else apply_node H limits node edges g)"

section \<open>Bookkeeping\<close>

definition on_graph :: "(ProvenanceGraph \<Rightarrow> ProvenanceGraph \<times> Status) \<Rightarrow> Lineage \<Rightarrow> Lineage" where
  "on_graph f lin = lin\<lparr>l_graph := fst (f (l_graph lin))\<rparr>"

text \<open>A change of publisher session advances the authority generation.\<close>

definition note_publisher :: "WorkerBootId \<Rightarrow> LineageState \<Rightarrow> LineageState" where
  "note_publisher boot state =
     (if \<not> id_valid (ls_last_publisher_boot state) \<or> ls_last_publisher_boot state \<noteq> boot then
        state\<lparr>ls_authority_generation := snd (bump_generation (ls_authority_generation state)),
              ls_last_publisher_boot := boot\<rparr>
      else state)"

text \<open>
  The effect of each kind on the lineage, the edge list and the list of affected records.
\<close>

type_synonym kind_effect = "Lineage \<times> ProvenanceEdge list \<times> ProvenanceNodeId list"

definition kind_route_state ::
    "NormalizedPublication \<Rightarrow> ProvenanceNode \<Rightarrow> ProvenanceEdge list \<Rightarrow> ProvenanceNodeId list \<Rightarrow> Lineage
     \<Rightarrow> kind_effect" where
  "kind_route_state request node edges affected lin =
     (let state = l_state lin;
          recovered = (if np_root_reason request = Some RR_RecoveredDurableState then [n_id node] else []);
          state' = state\<lparr>ls_current_route_generation := np_route_generation request,
             ls_lifecycle := (if ls_lifecycle state = LL_Withdrawn then LL_Active else ls_lifecycle state),
             ls_current_node := n_id node\<rparr>
      in case find_node (l_graph lin) (ls_current_node state) of
           Some previous \<Rightarrow>
             if n_id previous \<noteq> n_id node then
               (on_graph (update_node_state (n_id previous)
                   (if list_ex (\<lambda>e. e_type e = ET_Supersedes \<and> e_to e = n_id previous) edges
                    then NL_Superseded else NL_Historical) CU_HistoricalOnly False)
                  (lin\<lparr>l_state := state'\<rparr>),
                edges, affected @ recovered @ [n_id previous])
             else (lin\<lparr>l_state := state'\<rparr>, edges, affected @ recovered)
         | None \<Rightarrow> (lin\<lparr>l_state := state'\<rparr>, edges, affected @ recovered))"

definition rebound_edge :: "hash_fun \<Rightarrow> AuthorityContext \<Rightarrow> ProvenanceNodeId \<Rightarrow> ProvenanceEdge \<Rightarrow> ProvenanceEdge" where
  "rebound_edge H auth i original = finalize_edge H (original\<lparr>e_from := i, e_authority := auth\<rparr>)"

text \<open>The replacement takes over the successor relations of the corrected record; refusals are ignored.\<close>

fun rebind_edges ::
    "hash_fun \<Rightarrow> Limits \<Rightarrow> ProvenanceEdge list \<Rightarrow> ProvenanceEdge list \<Rightarrow> ProvenanceGraph
     \<Rightarrow> ProvenanceGraph \<times> ProvenanceEdge list" where
  "rebind_edges H limits [] edges g = (g, edges)"
| "rebind_edges H limits (rebound # es) edges g =
     (let (g', status) = add_edge H rebound limits g
      in rebind_edges H limits es (if st_is_ok status then edges @ [rebound] else edges) g')"

definition kind_correction ::
    "hash_fun \<Rightarrow> Limits \<Rightarrow> NormalizedPublication \<Rightarrow> ProvenanceNode \<Rightarrow> ProvenanceEdge list
     \<Rightarrow> ProvenanceNodeId list \<Rightarrow> Lineage \<Rightarrow> kind_effect" where
  "kind_correction H limits request node edges affected lin =
     (let target = np_target request;
          originals = filter (\<lambda>e. edge_type_is_successor_relation (e_type e))
                        (outgoing_edges (l_graph lin) target);
          (g, edges') = rebind_edges H limits
                          (map (rebound_edge H (np_authority request) (n_id node)) originals)
                          edges (l_graph lin);
          lin1 = on_graph (set_corrected_by target (n_id node)) (lin\<lparr>l_graph := g\<rparr>);
          lin2 = on_graph (update_node_state target NL_Invalid CU_HistoricalOnly False) lin1;
          lin3 = (if ls_current_node (l_state lin2) = target
                  then lin2\<lparr>l_state := (l_state lin2)\<lparr>ls_current_node := n_id node\<rparr>\<rparr> else lin2)
      in (lin3, edges', affected @ [target, n_id node]))"

text \<open>Withdrawal, revocation, retirement and invalidation: a record state, and a lineage state.\<close>

definition kind_closing ::
    "NodeLifecycle \<Rightarrow> LineageLifecycle option \<Rightarrow> ProvenanceNodeId \<Rightarrow> ProvenanceEdge list
     \<Rightarrow> ProvenanceNodeId list \<Rightarrow> Lineage \<Rightarrow> kind_effect" where
  "kind_closing lifecycle lineage_lifecycle target edges affected lin =
     (let lin' = on_graph (update_node_state target lifecycle CU_HistoricalOnly False) lin
      in (case lineage_lifecycle of
            None \<Rightarrow> lin'
          | Some ll \<Rightarrow> lin'\<lparr>l_state := (l_state lin')\<lparr>ls_lifecycle := ll\<rparr>\<rparr>,
          edges, affected @ [target]))"

definition kind_revalidation ::
    "ProvenanceNodeId \<Rightarrow> ProvenanceEdge list \<Rightarrow> ProvenanceNodeId list \<Rightarrow> Lineage \<Rightarrow> kind_effect" where
  "kind_revalidation target edges affected lin =
     (let lin1 = on_graph (update_node_state target NL_Current CU_RevalidationRequired False) lin;
          lin2 = on_graph (mark_revalidated target) lin1;
          state = l_state lin2
      in (lin2\<lparr>l_state := state\<lparr>ls_authority_generation :=
             snd (bump_generation (ls_authority_generation state))\<rparr>\<rparr>,
          edges, affected @ [target]))"

definition apply_kind ::
    "hash_fun \<Rightarrow> Limits \<Rightarrow> NormalizedPublication \<Rightarrow> ProvenanceNode \<Rightarrow> ProvenanceEdge list
     \<Rightarrow> ProvenanceNodeId list \<Rightarrow> Lineage \<Rightarrow> kind_effect" where
  "apply_kind H limits request node edges affected lin =
     (case np_kind request of
        PK_RouteState \<Rightarrow> kind_route_state request node edges affected lin
      | PK_Correction \<Rightarrow> kind_correction H limits request node edges affected lin
      | PK_Withdrawal \<Rightarrow> kind_closing NL_Historical (Some LL_Withdrawn) (np_target request) edges affected lin
      | PK_Revocation \<Rightarrow> kind_closing NL_Revoked (Some LL_Revoked) (np_target request) edges affected lin
      | PK_Retirement \<Rightarrow> kind_closing NL_Retired (Some LL_Retired) (np_target request) edges affected lin
      | PK_Revalidation \<Rightarrow> kind_revalidation (np_target request) edges affected lin
      | PK_Invalidation \<Rightarrow> kind_closing NL_Invalid None (np_target request) edges affected lin
      | PK_Declaration \<Rightarrow> (lin, edges, affected @ [n_id node])
      | PK_Link \<Rightarrow> (lin, edges, affected))"

text \<open>Evidence relations promote a declared record to current.\<close>

definition promote_record :: "ProvenanceNodeId \<Rightarrow> ProvenanceNode \<Rightarrow> Lineage \<Rightarrow> Lineage" where
  "promote_record i target = on_graph (update_node_state i NL_Current (n_currentness target) False)"

fun promote_targets :: "ProvenanceEdge list \<Rightarrow> ProvenanceNodeId list \<Rightarrow> Lineage \<Rightarrow> Lineage \<times> ProvenanceNodeId list" where
  "promote_targets [] affected lin = (lin, affected)"
| "promote_targets (e # es) affected lin =
     (case find_node (l_graph lin) (e_to e) of
        Some target \<Rightarrow>
          if n_lifecycle target = NL_Declared \<and> edge_type_is_evidence_relation (e_type e) then
            promote_targets es (affected @ [e_to e]) (promote_record (e_to e) target lin)
          else promote_targets es affected lin
      | None \<Rightarrow> promote_targets es affected lin)"

definition promote ::
    "NormalizedPublication \<Rightarrow> ProvenanceEdge list \<Rightarrow> ProvenanceNodeId list \<Rightarrow> Lineage
     \<Rightarrow> Lineage \<times> ProvenanceNodeId list" where
  "promote request edges affected lin =
     (if np_kind request \<noteq> PK_Link then promote_targets edges affected lin
      else case find_node (l_graph lin) (np_target request) of
             Some target \<Rightarrow>
               if n_lifecycle target = NL_Declared
               then (promote_record (np_target request) target lin, affected) else (lin, affected)
           | None \<Rightarrow> (lin, affected))"

definition history_count :: "ProvenanceGraph \<Rightarrow> nat" where
  "history_count g = length (filter node_is_history_record (nodes_in_order g))"

definition refresh_counters :: "Lineage \<Rightarrow> Lineage" where
  "refresh_counters lin =
     lin\<lparr>l_state := (l_state lin)\<lparr>ls_node_count := node_count (l_graph lin),
            ls_edge_count := edge_count (l_graph lin),
            ls_history_node_count := history_count (l_graph lin)\<rparr>\<rparr>"

definition attempt_record ::
    "hash_fun \<Rightarrow> NormalizedPublication \<Rightarrow> ProvenanceNode \<Rightarrow> Outcome \<Rightarrow> ProvenanceEdge list \<Rightarrow> ProvenanceGraph
     \<Rightarrow> AttemptRecord" where
  "attempt_record H request node out edges g =
     (let i = (if np_kind request = PK_Link then np_link_from request else n_id node)
      in \<lparr>ar_request = request_digest H request, ar_node = i, ar_edges = map e_id edges,
          ar_outcome = out,
          ar_currentness = (case find_node g i of Some n \<Rightarrow> n_currentness n | None \<Rightarrow> CU_HistoricalOnly),
          ar_lifecycle = (case find_node g i of Some n \<Rightarrow> n_lifecycle n | None \<Rightarrow> NL_Current)\<rparr>)"

text \<open>Re-evaluation of the affected records, indexing, the attempt ledger and the result.\<close>

definition commit_finish ::
    "hash_fun \<Rightarrow> NormalizedPublication \<Rightarrow> RouteLineageId \<Rightarrow> ProvenanceNode \<Rightarrow> Outcome \<Rightarrow> ProvenanceEdge list
     \<Rightarrow> ProvenanceNodeId list \<Rightarrow> Store \<Rightarrow> Lineage \<Rightarrow> Store \<times> early" where
  "commit_finish H request lineage_id node out edges affected st lin =
     (case reevaluate_nodes st affected lin of (lin1, status) \<Rightarrow>
        if \<not> st_is_ok status then (put_lineage lineage_id lin1 st, r_of_status status)
        else
          let lin2 = fst (reevaluate_nodes st [ls_current_node (l_state lin1)] lin1);
              st2 = (if out \<noteq> O_Duplicate \<and> np_kind request \<noteq> PK_Link
                     then index_node node lineage_id st else st);
              record = attempt_record H request node out edges (l_graph lin2);
              lin3 = lin2\<lparr>l_attempts := om_emplace (attempt_key request) record (l_attempts lin2),
                          l_state := (l_state lin2)\<lparr>ls_last_mutation_digest := request_digest H request\<rparr>\<rparr>
          in (put_lineage lineage_id lin3 st2,
              Result out (Some (make_publication lineage_id (ar_node record) (ar_edges record)
                (l_state lin3) (s_watermarks st2) (ar_lifecycle record) (ar_currentness record))) []))"

definition commit_apply ::
    "hash_fun \<Rightarrow> NormalizedPublication \<Rightarrow> RouteLineageId \<Rightarrow> ProvenanceNode \<Rightarrow> ProvenanceEdge list
     \<Rightarrow> Store \<Rightarrow> Lineage \<Rightarrow> Store \<times> early" where
  "commit_apply H request lineage_id node edges st lin =
     (case apply_graph H request (s_limits st) lineage_id node edges (l_graph lin) of
        (g, Inl r) \<Rightarrow> (put_lineage lineage_id (lin\<lparr>l_graph := g\<rparr>) st, r)
      | (g, Inr ap) \<Rightarrow>
          let lin1 = lin\<lparr>l_graph := g\<rparr>; (store_ok, st1) = next_store_generation st
          in if \<not> store_ok then
               (put_lineage lineage_id lin1 st1, r_failure O_ResourceLimit ''store generation exhausted'')
             else
               let (lineage_ok, generation) = bump_generation (ls_lineage_generation (l_state lin1))
               in if \<not> lineage_ok then
                    (put_lineage lineage_id lin1 st1, r_failure O_ResourceLimit ''lineage generation exhausted'')
                  else
                    let boot = pi_boot (ac_publisher (np_authority request));
                        lin2 = lin1\<lparr>l_state := note_publisher boot
                                 ((l_state lin1)\<lparr>ls_lineage_generation := generation\<rparr>)\<rparr>;
                        (lin3, edges3, affected3) = apply_kind H (s_limits st) request node
                                                      (ap_edges ap) (ap_affected ap) lin2;
                        (lin4, affected4) = promote request edges3 affected3 lin3
                    in commit_finish H request lineage_id node (ap_outcome ap) edges3 affected4 st1
                         (refresh_counters lin4))"

section \<open>The pipeline\<close>

definition commit :: "hash_fun \<Rightarrow> NormalizedPublication \<Rightarrow> Store \<Rightarrow> Store \<times> early" where
  "commit H request st =
     (case stage_authority H request st of
        Inl r \<Rightarrow> (st, r)
      | Inr lineage_id \<Rightarrow>
          case acquire_lineage lineage_id (np_key request) True st of
            None \<Rightarrow> (st, r_failure O_ResourceLimit ''max_lineages reached'')
          | Some (st1, lin) \<Rightarrow>
              case commit_checks H request st1 lineage_id lin of
                Inl r \<Rightarrow> (st1, r)
              | Inr (node, edges) \<Rightarrow> commit_apply H request lineage_id node edges st1 lin)"

end
