(* ===== verification/Explain.thy ===== *)
theory Explain
  imports Commit
begin

text \<open>
  Snapshots, their diffs and the semantics of explanations: the last part of \<^verbatim>\<open>src/graph.cpp\<close>,
  with the types of \<^verbatim>\<open>snapshot.hpp\<close> and \<^verbatim>\<open>explanation.hpp\<close>.
\<close>

section \<open>Snapshots\<close>

record SnapshotOptions =
  so_include_edges :: bool
  so_include_historical :: bool
  so_max_nodes :: nat
  so_max_edges :: nat

record Snapshot =
  sn_id :: SnapshotId
  sn_lineage :: RouteLineageId
  sn_key :: LineageKey
  sn_lifecycle :: LineageLifecycle
  sn_current_route_generation :: RouteGeneration
  sn_current_node :: ProvenanceNodeId
  sn_lineage_generation :: LineageGeneration
  sn_authority_generation :: AuthorityGeneration
  sn_store_generation :: ProvenanceGeneration
  sn_coordinator_epoch :: CoordinatorEpoch
  sn_current_currentness :: Currentness
  sn_nodes :: "ProvenanceNode list"
  sn_edges :: "ProvenanceEdge list"
  sn_digest :: Digest
  sn_truncated :: bool

definition snapshot_find_node :: "Snapshot \<Rightarrow> ProvenanceNodeId \<Rightarrow> ProvenanceNode option" where
  "snapshot_find_node s i = List.find (\<lambda>n. n_id n = i) (sn_nodes s)"

section \<open>Diffs\<close>

datatype DiffKind =
    DF_NodeAdded | DF_NodeRemoved | DF_EdgeAdded | DF_EdgeRemoved | DF_CurrentnessChanged
  | DF_LifecycleChanged | DF_SupersessionRecorded | DF_RevocationRecorded | DF_RetirementRecorded
  | DF_CorrectionRecorded | DF_AuthorityChanged | DF_LineageGenerationChanged

fun diff_kind_code :: "DiffKind \<Rightarrow> u16" where
  "diff_kind_code DF_NodeAdded = 1"
| "diff_kind_code DF_NodeRemoved = 2"
| "diff_kind_code DF_EdgeAdded = 3"
| "diff_kind_code DF_EdgeRemoved = 4"
| "diff_kind_code DF_CurrentnessChanged = 5"
| "diff_kind_code DF_LifecycleChanged = 6"
| "diff_kind_code DF_SupersessionRecorded = 7"
| "diff_kind_code DF_RevocationRecorded = 8"
| "diff_kind_code DF_RetirementRecorded = 9"
| "diff_kind_code DF_CorrectionRecorded = 10"
| "diff_kind_code DF_AuthorityChanged = 11"
| "diff_kind_code DF_LineageGenerationChanged = 12"

fun diff_kind_name :: "DiffKind \<Rightarrow> string" where
  "diff_kind_name DF_NodeAdded = ''NODE_ADDED''"
| "diff_kind_name DF_NodeRemoved = ''NODE_REMOVED''"
| "diff_kind_name DF_EdgeAdded = ''EDGE_ADDED''"
| "diff_kind_name DF_EdgeRemoved = ''EDGE_REMOVED''"
| "diff_kind_name DF_CurrentnessChanged = ''CURRENTNESS_CHANGED''"
| "diff_kind_name DF_LifecycleChanged = ''LIFECYCLE_CHANGED''"
| "diff_kind_name DF_SupersessionRecorded = ''SUPERSESSION_RECORDED''"
| "diff_kind_name DF_RevocationRecorded = ''REVOCATION_RECORDED''"
| "diff_kind_name DF_RetirementRecorded = ''RETIREMENT_RECORDED''"
| "diff_kind_name DF_CorrectionRecorded = ''CORRECTION_RECORDED''"
| "diff_kind_name DF_AuthorityChanged = ''AUTHORITY_CHANGED''"
| "diff_kind_name DF_LineageGenerationChanged = ''LINEAGE_GENERATION_CHANGED''"

record DiffEntry =
  de_kind :: DiffKind
  de_node :: ProvenanceNodeId
  de_edge :: ProvenanceEdgeId
  de_before_currentness :: Currentness
  de_after_currentness :: Currentness
  de_before_lifecycle :: NodeLifecycle
  de_after_lifecycle :: NodeLifecycle
  de_detail :: string

record Diff =
  df_lineage :: RouteLineageId
  df_from_generation :: ProvenanceGeneration
  df_to_generation :: ProvenanceGeneration
  df_from_lineage_generation :: LineageGeneration
  df_to_lineage_generation :: LineageGeneration
  df_entries :: "DiffEntry list"
  df_digest :: Digest

definition blank_entry :: "DiffKind \<Rightarrow> DiffEntry" where
  "blank_entry kind = \<lparr>de_kind = kind, de_node = 0, de_edge = 0,
     de_before_currentness = CU_HistoricalOnly, de_after_currentness = CU_HistoricalOnly,
     de_before_lifecycle = NL_Declared, de_after_lifecycle = NL_Declared, de_detail = []\<rparr>"

text \<open>\<^verbatim>\<open>diff_entry_less\<close> as a sort key: the code of the kind, the record, the edge.\<close>

definition diff_entry_key :: "DiffEntry \<Rightarrow> u16 \<times> u64 \<times> u64" where
  "diff_entry_key d = (diff_kind_code (de_kind d), de_node d, de_edge d)"

definition diff_nodes_added :: "Snapshot \<Rightarrow> Snapshot \<Rightarrow> DiffEntry list" where
  "diff_nodes_added before after =
     map (\<lambda>n. (blank_entry DF_NodeAdded)\<lparr>de_node := n_id n, de_after_currentness := n_currentness n,
                 de_after_lifecycle := n_lifecycle n, de_detail := node_kind_name (n_kind n)\<rparr>)
       (filter (\<lambda>n. snapshot_find_node before (n_id n) = None) (sn_nodes after))"

definition diff_nodes_removed :: "Snapshot \<Rightarrow> Snapshot \<Rightarrow> DiffEntry list" where
  "diff_nodes_removed before after =
     map (\<lambda>n. (blank_entry DF_NodeRemoved)\<lparr>de_node := n_id n, de_before_currentness := n_currentness n,
                 de_before_lifecycle := n_lifecycle n, de_detail := node_kind_name (n_kind n)\<rparr>)
       (filter (\<lambda>n. snapshot_find_node after (n_id n) = None) (sn_nodes before))"

definition edge_entry :: "DiffKind \<Rightarrow> ProvenanceEdge \<Rightarrow> ProvenanceNodeId \<Rightarrow> DiffEntry" where
  "edge_entry kind e i = (blank_entry kind)\<lparr>de_edge := e_id e, de_node := i,
     de_detail := edge_type_name (e_type e)\<rparr>"

definition recorded_entries :: "ProvenanceEdge \<Rightarrow> DiffEntry list" where
  "recorded_entries e =
     (case e_type e of
        ET_Supersedes \<Rightarrow> [edge_entry DF_SupersessionRecorded e (e_from e)]
      | ET_Replaces \<Rightarrow> [edge_entry DF_SupersessionRecorded e (e_from e)]
      | ET_RolledBackFrom \<Rightarrow> [edge_entry DF_SupersessionRecorded e (e_from e)]
      | ET_RevokedBy \<Rightarrow> [edge_entry DF_RevocationRecorded e (e_to e)]
      | ET_RetiredBy \<Rightarrow> [edge_entry DF_RetirementRecorded e (e_to e)]
      | ET_Corrects \<Rightarrow> [edge_entry DF_CorrectionRecorded e (e_to e)]
      | _ \<Rightarrow> [])"

definition diff_edges_added :: "Snapshot \<Rightarrow> Snapshot \<Rightarrow> DiffEntry list" where
  "diff_edges_added before after =
     concat (map (\<lambda>e. edge_entry DF_EdgeAdded e (e_from e) # recorded_entries e)
       (filter (\<lambda>e. e_id e \<notin> e_id ` set (sn_edges before)) (sn_edges after)))"

definition diff_edges_removed :: "Snapshot \<Rightarrow> Snapshot \<Rightarrow> DiffEntry list" where
  "diff_edges_removed before after =
     map (\<lambda>e. edge_entry DF_EdgeRemoved e (e_from e))
       (filter (\<lambda>e. e_id e \<notin> e_id ` set (sn_edges after)) (sn_edges before))"

definition changed_entries :: "ProvenanceNode \<Rightarrow> ProvenanceNode \<Rightarrow> DiffEntry list" where
  "changed_entries previous n =
     (if n_currentness previous \<noteq> n_currentness n then
        [(blank_entry DF_CurrentnessChanged)\<lparr>de_node := n_id n,
            de_before_currentness := n_currentness previous, de_after_currentness := n_currentness n\<rparr>]
      else []) @
     (if n_lifecycle previous \<noteq> n_lifecycle n then
        [(blank_entry DF_LifecycleChanged)\<lparr>de_node := n_id n,
            de_before_lifecycle := n_lifecycle previous, de_after_lifecycle := n_lifecycle n\<rparr>]
      else [])"

definition diff_nodes_changed :: "Snapshot \<Rightarrow> Snapshot \<Rightarrow> DiffEntry list" where
  "diff_nodes_changed before after =
     concat (map (\<lambda>n. case snapshot_find_node before (n_id n) of
                        None \<Rightarrow> [] | Some previous \<Rightarrow> changed_entries previous n)
       (sn_nodes after))"

definition diff_generations :: "Snapshot \<Rightarrow> Snapshot \<Rightarrow> DiffEntry list" where
  "diff_generations before after =
     (if sn_authority_generation before \<noteq> sn_authority_generation after then
        [(blank_entry DF_AuthorityChanged)\<lparr>de_detail :=
            ''authority_generation '' @ id_to_string (sn_authority_generation before) @ '' -> '' @
            id_to_string (sn_authority_generation after)\<rparr>]
      else []) @
     (if sn_lineage_generation before \<noteq> sn_lineage_generation after then
        [(blank_entry DF_LineageGenerationChanged)\<lparr>de_detail :=
            ''lineage_generation '' @ id_to_string (sn_lineage_generation before) @ '' -> '' @
            id_to_string (sn_lineage_generation after)\<rparr>]
      else [])"

definition diff_entry_bytes :: "DiffEntry \<Rightarrow> Encoder" where
  "diff_entry_bytes d = encode_seq
     [add_u16 1 (diff_kind_code (de_kind d)),
      add_u64 2 (de_node d),
      add_u64 3 (de_edge d),
      add_u16 4 (currentness_code (de_before_currentness d)),
      add_u16 5 (currentness_code (de_after_currentness d)),
      add_u16 6 (node_lifecycle_code (de_before_lifecycle d)),
      add_u16 7 (node_lifecycle_code (de_after_lifecycle d)),
      add_string 8 (de_detail d)]"

definition diff_bytes :: "Diff \<Rightarrow> Encoder" where
  "diff_bytes d = encode_seq
     ([add_u32 1 kGraphEncodingVersion,
       add_u64 2 (df_lineage d),
       add_u64 3 (df_from_generation d),
       add_u64 4 (df_to_generation d),
       add_u32 5 (of_nat (length (df_entries d)))] @
      map (\<lambda>entry. add_nested 6 (diff_entry_bytes entry)) (df_entries d))"

definition compute_diff :: "hash_fun \<Rightarrow> Snapshot \<Rightarrow> Snapshot \<Rightarrow> Diff Result" where
  "compute_diff H before after =
     (if sn_lineage before \<noteq> sn_lineage after then
        r_failure O_MalformedRequest ''snapshots belong to different lineages''
      else
        let entries = sort_key diff_entry_key
              (diff_nodes_added before after @ diff_nodes_removed before after @
               diff_edges_added before after @ diff_edges_removed before after @
               diff_nodes_changed before after @ diff_generations before after);
            d = \<lparr>df_lineage = sn_lineage before,
                 df_from_generation = sn_store_generation before,
                 df_to_generation = sn_store_generation after,
                 df_from_lineage_generation = sn_lineage_generation before,
                 df_to_lineage_generation = sn_lineage_generation after,
                 df_entries = entries, df_digest = zero_digest\<rparr>
        in r_ok (d\<lparr>df_digest := enc_digest H ''rp.diff.v1'' (diff_bytes d)\<rparr>))"

section \<open>Explanation semantics\<close>

definition node_is_historically_valid :: "ProvenanceNode \<Rightarrow> bool" where
  "node_is_historically_valid n =
     (case n_lifecycle n of NL_Declared \<Rightarrow> False | NL_Invalid \<Rightarrow> False | _ \<Rightarrow> True)"

definition edge_matches_mode :: "EdgeType \<Rightarrow> ExplainMode \<Rightarrow> bool" where
  "edge_matches_mode t mode =
     (case mode of
        EM_ImmediateCause \<Rightarrow> True
      | EM_FullAncestry \<Rightarrow> True
      | EM_AuthorityOnly \<Rightarrow> edge_type_is_evidence_relation t
      | EM_PolicyOnly \<Rightarrow> t = ET_AdaptedFrom \<or> t = ET_SelectedFrom \<or> t = ET_DerivedFrom
      | EM_PathOnly \<Rightarrow> t = ET_AuthorizedBy \<or> t = ET_ComputedFrom \<or> t = ET_SelectedFrom
      | EM_MutationLineage \<Rightarrow> edge_type_is_action_relation t \<or> edge_type_is_successor_relation t
            \<or> t = ET_TransitionedBy)"

record ExplainRequest =
  xr_subject :: ProvenanceNodeId
  xr_mode :: ExplainMode
  xr_max_depth :: nat
  xr_max_nodes :: nat

record ExplanationStep =
  es_depth :: nat
  es_edge :: ProvenanceEdgeId
  es_type :: EdgeType
  es_from :: ProvenanceNodeId
  es_to :: ProvenanceNodeId
  es_kind :: NodeKind
  es_reason :: ReasonCode
  es_source :: SourceClass
  es_route_generation :: RouteGeneration
  es_lifecycle :: NodeLifecycle
  es_currentness :: Currentness
  es_historically_valid :: bool
  es_current :: bool

record Explanation =
  ex_subject :: ProvenanceNodeId
  ex_mode :: ExplainMode
  ex_lineage :: RouteLineageId
  ex_key :: LineageKey
  ex_subject_lifecycle :: NodeLifecycle
  ex_subject_currentness :: Currentness
  ex_historically_valid :: bool
  ex_current :: bool
  ex_steps :: "ExplanationStep list"
  ex_truncated :: bool
  ex_digest :: Digest

subsection \<open>The rendering of the command line\<close>

definition bool_text :: "bool \<Rightarrow> string" where
  "bool_text b = (if b then ''true'' else ''false'')"

text \<open>The line feed of the C++ string literals.\<close>

definition newline :: string where
  "newline = [char_of (10 :: nat)]"

definition render_step :: "ExplanationStep \<Rightarrow> string" where
  "render_step s =
     ''step depth='' @ dec_string (es_depth s) @
     '' edge='' @ id_to_string (es_edge s) @
     '' type='' @ edge_type_name (es_type s) @
     '' from='' @ id_to_string (es_from s) @
     '' to='' @ id_to_string (es_to s) @
     '' kind='' @ node_kind_name (es_kind s) @
     '' reason='' @ reason_code_name (es_reason s) @
     '' source='' @ source_class_name (es_source s) @
     '' generation='' @ id_to_string (es_route_generation s) @
     '' lifecycle='' @ node_lifecycle_name (es_lifecycle s) @
     '' currentness='' @ currentness_name (es_currentness s) @
     '' current='' @ bool_text (es_current s) @ newline"

definition render_explanation :: "Explanation \<Rightarrow> string" where
  "render_explanation x =
     ''subject='' @ id_to_string (ex_subject x) @
     newline @ ''lineage='' @ id_to_string (ex_lineage x) @
     newline @ ''mode='' @ explain_mode_name (ex_mode x) @
     newline @ ''lifecycle='' @ node_lifecycle_name (ex_subject_lifecycle x) @
     newline @ ''currentness='' @ currentness_name (ex_subject_currentness x) @
     newline @ ''historically_valid='' @ bool_text (ex_historically_valid x) @
     newline @ ''current='' @ bool_text (ex_current x) @
     newline @ ''truncated='' @ bool_text (ex_truncated x) @
     newline @ ''steps='' @ dec_string (length (ex_steps x)) @
     newline @ concat (map render_step (ex_steps x))"

end
