(* ===== verification/Store_Api.thy ===== *)
theory Store_Api
  imports Commit
begin

text \<open>
  The public interface of the store that changes state, \<^verbatim>\<open>src/store_api.cpp\<close>: publisher registration
  and fencing, dependency notifications, the normalisation of the typed requests, the publication
  entry points and the two-phase sessions. The \<^verbatim>\<open>static\<close> checks come first, in the order of the file.
\<close>

section \<open>Request types\<close>

record PublishRouteRequest =
  rq_key :: LineageKey
  rq_route_generation :: RouteGeneration
  rq_route_state_digest :: Digest
  rq_reason :: ReasonCode
  rq_source :: SourceClass
  rq_root_reason :: "RootReason option"
  rq_evidence :: EvidenceVector
  rq_authority :: AuthorityContext
  rq_bindings :: Bindings
  rq_edges :: "EdgeSpec list"
  rq_explicit_lineage :: "RouteLineageId option"

record DeclarationRequest =
  dq_key :: LineageKey
  dq_kind :: NodeKind
  dq_route :: RouteId
  dq_route_generation :: RouteGeneration
  dq_reason :: ReasonCode
  dq_source :: SourceClass
  dq_evidence :: EvidenceVector
  dq_authority :: AuthorityContext
  dq_bindings :: Bindings

record AdministrativeRequest =
  aq_key :: LineageKey
  aq_target :: ProvenanceNodeId
  aq_reason :: ReasonCode
  aq_source :: SourceClass
  aq_evidence :: EvidenceVector
  aq_authority :: AuthorityContext
  aq_bindings :: Bindings
  aq_completion_evidence :: Digest
  aq_allow_non_current_target :: bool

record LinkDerivationRequest =
  lq_key :: LineageKey
  lq_type :: EdgeType
  lq_from :: ProvenanceNodeId
  lq_to :: ProvenanceNodeId
  lq_reason :: ReasonCode
  lq_source :: SourceClass
  lq_evidence :: EvidenceVector
  lq_authority :: AuthorityContext

record CorrectionRequest =
  cq_key :: LineageKey
  cq_target :: ProvenanceNodeId
  cq_reason :: ReasonCode
  cq_source :: SourceClass
  cq_route_state_digest :: Digest
  cq_evidence :: EvidenceVector
  cq_authority :: AuthorityContext
  cq_bindings :: Bindings

record DependencyNotification =
  dn_kind :: DependencyKind
  dn_path_authority_generation :: PathAuthorityGeneration
  dn_policy_generation :: PolicyGeneration
  dn_evidence_generation :: EvidenceGeneration
  dn_plan_generation :: ConvergencePlanGeneration
  dn_epoch :: CoordinatorEpoch
  dn_publisher :: PublisherId
  dn_boot :: WorkerBootId
  dn_authority :: AuthorityContext

section \<open>Checks\<close>

definition check_authority_fields :: "AuthorityContext \<Rightarrow> Status" where
  "check_authority_fields a =
     (if \<not> id_valid (pi_publisher (ac_publisher a)) then
        st_failure O_Unauthorized ''publication requires a valid PublisherId''
      else if \<not> id_valid (pi_boot (ac_publisher a)) then
        st_failure O_Unauthorized ''publication requires a valid WorkerBootId''
      else if \<not> id_valid (pi_epoch (ac_publisher a)) then
        st_failure O_Unauthorized ''publication requires a valid CoordinatorEpoch''
      else if \<not> id_valid (ac_attempt a) then
        st_failure O_Unauthorized ''publication requires a valid MutationAttemptId''
      else st_ok)"

definition check_edge_specs :: "EdgeSpec list \<Rightarrow> Status" where
  "check_edge_specs specs = first_failure
     (\<lambda>spec. if \<not> id_valid (sp_target spec) then
               st_failure O_MalformedRequest ''derivation edge requires a valid target identity''
             else st_ok) specs"

definition check_reason_matches :: "PublishKind \<Rightarrow> ReasonCode \<Rightarrow> Status" where
  "check_reason_matches kind reason =
     (case kind of
        PK_Withdrawal \<Rightarrow> if reason \<noteq> RC_AdminWithdrawal then
            st_failure O_MalformedRequest ''withdrawal requires ADMIN_WITHDRAWAL'' else st_ok
      | PK_Revocation \<Rightarrow> if reason \<noteq> RC_Revocation then
            st_failure O_MalformedRequest ''revocation requires REVOCATION'' else st_ok
      | PK_Retirement \<Rightarrow> if reason \<noteq> RC_Retirement then
            st_failure O_MalformedRequest ''retirement requires RETIREMENT'' else st_ok
      | PK_Revalidation \<Rightarrow> if reason \<noteq> RC_RecoveryRevalidation \<and> reason \<noteq> RC_PathRevalidated then
            st_failure O_MalformedRequest
              ''revalidation requires RECOVERY_REVALIDATION or PATH_REVALIDATED'' else st_ok
      | PK_Invalidation \<Rightarrow> if reason \<noteq> RC_Invalidation \<and> reason \<noteq> RC_PathInvalidation then
            st_failure O_MalformedRequest
              ''invalidation requires INVALIDATION or PATH_INVALIDATION'' else st_ok
      | PK_Correction \<Rightarrow> if reason \<noteq> RC_Correction then
            st_failure O_MalformedRequest ''correction requires CORRECTION'' else st_ok
      | _ \<Rightarrow> st_ok)"

definition action_edge_type :: "PublishKind \<Rightarrow> EdgeType" where
  "action_edge_type kind =
     (case kind of
        PK_Withdrawal \<Rightarrow> ET_Withdraws
      | PK_Revocation \<Rightarrow> ET_RevokedBy
      | PK_Retirement \<Rightarrow> ET_RetiredBy
      | PK_Revalidation \<Rightarrow> ET_Revalidates
      | PK_Invalidation \<Rightarrow> ET_Invalidates
      | PK_Correction \<Rightarrow> ET_Corrects
      | _ \<Rightarrow> ET_DerivedFrom)"

section \<open>Publisher authority\<close>

text \<open>The records indexed under a boot, in identity order.\<close>

definition boot_records :: "Store \<Rightarrow> WorkerBootId \<Rightarrow> ProvenanceNodeId list" where
  "boot_records st boot =
     (case om_find (s_boot_index st) boot of None \<Rightarrow> [] | Some ids \<Rightarrow> os_elems ids)"

text \<open>The epoch test of a registration: the first epoch, the current one, or one recovery bootstrap.\<close>

definition register_epoch :: "CoordinatorEpoch \<Rightarrow> Store \<Rightarrow> Store option" where
  "register_epoch epoch st =
     (let marks = s_watermarks st
      in if \<not> id_valid (wm_epoch marks) then Some (st\<lparr>s_watermarks := marks\<lparr>wm_epoch := epoch\<rparr>\<rparr>)
         else if wm_epoch marks \<noteq> epoch then
           (if s_recovered st \<and> \<not> s_epoch_bootstrapped st \<and> epoch > wm_epoch marks then
              Some (st\<lparr>s_watermarks := marks\<lparr>wm_epoch := epoch\<rparr>, s_epoch_bootstrapped := True\<rparr>)
            else None)
         else Some st)"

definition superseded_boots :: "PublisherIdentity \<Rightarrow> Store \<Rightarrow> WorkerBootId list" where
  "superseded_boots identity st =
     List.map_filter
       (\<lambda>((publisher, boot), r). if publisher = pi_publisher identity \<and> boot \<noteq> pi_boot identity \<and> pr_live r
                                 then Some boot else None)
       (om_entries (s_publishers st))"

definition fence_record :: "PublisherRecord \<Rightarrow> PublisherRecord" where
  "fence_record r = r\<lparr>pr_live := False, pr_fenced := True\<rparr>"

definition fence_boots :: "PublisherId \<Rightarrow> WorkerBootId list \<Rightarrow> (PublisherKey, PublisherRecord) omap
     \<Rightarrow> (PublisherKey, PublisherRecord) omap" where
  "fence_boots publisher boots publishers =
     fold (\<lambda>boot m. case om_find m (publisher, boot) of
                      None \<Rightarrow> m | Some r \<Rightarrow> om_put (publisher, boot) (fence_record r) m)
       boots publishers"

definition register_publisher ::
    "PublisherIdentity \<Rightarrow> AuthorityScope \<Rightarrow> Store \<Rightarrow> Store \<times> PublisherRecord Result" where
  "register_publisher identity scope st =
     (if \<not> identity_valid identity then
        (st, r_failure O_Unauthorized
               ''publisher registration requires PublisherId, WorkerBootId and epoch'')
      else case register_epoch (pi_epoch identity) st of
        None \<Rightarrow> (st, r_failure O_StaleEpoch
               ''publisher registration epoch is not the current coordinator epoch'')
      | Some st1 \<Rightarrow>
          if scope_is_empty scope then
            (st1, r_failure O_Unauthorized ''publisher registration requires an explicit authority scope'')
          else if (case find_publisher st1 (pi_publisher identity) (pi_boot identity) of
                     None \<Rightarrow> False | Some r \<Rightarrow> pr_fenced r) then
            (st1, r_failure O_StaleWorker ''worker boot has been fenced and may never publish again'')
          else if om_size (s_publishers st1) \<ge> max_publishers (s_limits st1) then
            (st1, r_failure O_ResourceLimit ''max_publishers reached'')
          else
            let boots = superseded_boots identity st1;
                r = \<lparr>pr_identity = identity, pr_scope = scope, pr_live = True, pr_fenced = False\<rparr>;
                st2 = st1\<lparr>s_publishers := om_put (pi_publisher identity, pi_boot identity) r
                        (fence_boots (pi_publisher identity) boots (s_publishers st1))\<rparr>
            in (fold (\<lambda>boot s. reevaluate_index (boot_records s boot) s) boots st2, r_ok r))"

definition reincarnate_publisher ::
    "PublisherId \<Rightarrow> WorkerBootId \<Rightarrow> CoordinatorEpoch \<Rightarrow> AuthorityScope \<Rightarrow> Store
     \<Rightarrow> Store \<times> PublisherRecord Result" where
  "reincarnate_publisher publisher fresh_boot epoch scope st =
     (if \<not> id_valid publisher \<or> \<not> id_valid fresh_boot then
        (st, r_failure O_MalformedRequest ''reincarnation requires publisher and fresh boot identities'')
      else register_publisher \<lparr>pi_publisher = publisher, pi_boot = fresh_boot, pi_epoch = epoch\<rparr> scope st)"

definition fence_publisher ::
    "PublisherId \<Rightarrow> WorkerBootId \<Rightarrow> AuthorityContext \<Rightarrow> Store \<Rightarrow> Store \<times> Status" where
  "fence_publisher publisher boot auth st =
     (let marks = s_watermarks st
      in if \<not> id_valid publisher \<or> \<not> id_valid boot then
           (st, st_failure O_MalformedRequest ''fencing requires publisher and boot identities'')
         else if \<not> st_is_ok (check_authority_fields auth) then (st, check_authority_fields auth)
         else if \<not> id_valid (wm_epoch marks) \<or> pi_epoch (ac_publisher auth) \<noteq> wm_epoch marks then
           (st, st_failure O_StaleEpoch ''fencing epoch is not the current coordinator epoch'')
         else if \<not> publisher_is_live st (pi_publisher (ac_publisher auth)) (pi_boot (ac_publisher auth)) then
           (st, st_failure O_StaleWorker ''fencing requires a live administrative session'')
         else if scope_kind (ac_scope auth) \<noteq> SK_Fabric then
           (st, st_failure O_Unauthorized ''fencing requires explicit fabric authority scope'')
         else case find_publisher st publisher boot of
           None \<Rightarrow> (st, st_failure O_NodeNotFound ''publisher boot is not registered'')
         | Some r \<Rightarrow>
             let st1 = st\<lparr>s_publishers := om_put (publisher, boot) (fence_record r) (s_publishers st)\<rparr>
             in (reevaluate_index (boot_records st1 boot) st1,
                 st_ok_with O_Updated ''publisher boot fenced''))"

definition list_publishers :: "Store \<Rightarrow> PublisherRecord list Result" where
  "list_publishers st =
     r_ok (sort_key (\<lambda>r. (pi_publisher (pr_identity r), pi_boot (pr_identity r)))
             (om_values (s_publishers st)))"

section \<open>Dependency notifications\<close>

text \<open>\<^verbatim>\<open>collect\<close>: the index entries strictly below a value.\<close>

definition collect :: "node_index \<Rightarrow> u64 \<Rightarrow> ProvenanceNodeId list" where
  "collect index value =
     concat (map (\<lambda>(_, ids). os_elems ids) (takeWhile (\<lambda>(k, _). k < value) (om_entries index)))"

text \<open>
  The test the four generation watermarks share: a failure, an idempotent answer, or none. The
  texts of the sources differ only in the name of the watermark.
\<close>

definition advance_check :: "string \<Rightarrow> u64 \<Rightarrow> u64 \<Rightarrow> Status option" where
  "advance_check name offered mark =
     (if \<not> id_valid offered then
        Some (st_failure O_InvalidSourceGeneration (name @ '' advance requires a valid generation''))
      else if id_valid mark \<and> offered = mark then
        Some (st_ok_with O_Idempotent (name @ '' generation unchanged''))
      else if id_valid mark \<and> offered < mark then
        Some (st_failure O_InvalidSourceGeneration (name @ '' generation would decrease''))
      else None)"

text \<open>The \<^verbatim>\<open>switch\<close> over the kinds: a status that ends the call, or the new marks and the records.\<close>

definition notify_marks ::
    "DependencyNotification \<Rightarrow> Store \<Rightarrow> Status + (DependencyWatermarks \<times> ProvenanceNodeId list)" where
  "notify_marks n st =
     (let marks = s_watermarks st
      in case dn_kind n of
           DK_PathAuthorityAdvance \<Rightarrow>
             (case advance_check ''path authority'' (dn_path_authority_generation n)
                     (wm_path_authority_generation marks) of
                Some s \<Rightarrow> Inl s
              | None \<Rightarrow> Inr (marks\<lparr>wm_path_authority_generation := dn_path_authority_generation n\<rparr>,
                             collect (s_path_authority_index st) (dn_path_authority_generation n)))
         | DK_PolicyAdvance \<Rightarrow>
             (case advance_check ''policy'' (dn_policy_generation n) (wm_policy_generation marks) of
                Some s \<Rightarrow> Inl s
              | None \<Rightarrow> Inr (marks\<lparr>wm_policy_generation := dn_policy_generation n\<rparr>,
                             collect (s_policy_index st) (dn_policy_generation n)))
         | DK_EvidenceAdvance \<Rightarrow>
             (case advance_check ''evidence'' (dn_evidence_generation n) (wm_evidence_generation marks) of
                Some s \<Rightarrow> Inl s
              | None \<Rightarrow> Inr (marks\<lparr>wm_evidence_generation := dn_evidence_generation n\<rparr>,
                             collect (s_evidence_index st) (dn_evidence_generation n)))
         | DK_PlanAdvance \<Rightarrow>
             (case advance_check ''plan'' (dn_plan_generation n) (wm_plan_generation marks) of
                Some s \<Rightarrow> Inl s
              | None \<Rightarrow> Inr (marks\<lparr>wm_plan_generation := dn_plan_generation n\<rparr>, []))
         | DK_EpochAdvance \<Rightarrow>
             (if \<not> id_valid (dn_epoch n) then
                Inl (st_failure O_InvalidSourceGeneration ''epoch advance requires a valid epoch'')
              else if dn_epoch n \<le> wm_epoch marks then
                Inl (st_failure O_InvalidSourceGeneration ''coordinator epoch must advance'')
              else Inr (marks\<lparr>wm_epoch := dn_epoch n\<rparr>, []))
         | DK_RouteAdvance \<Rightarrow>
             Inl (st_failure O_MalformedRequest
               ''route advance is recorded by publishing the route generation, not by notification'')
         | DK_WorkerFence \<Rightarrow>
             (if \<not> id_valid (dn_publisher n) \<or> \<not> id_valid (dn_boot n) then
                Inl (st_failure O_MalformedRequest ''worker fence requires publisher and boot'')
              else Inr (marks, [])))"

text \<open>
  The part after the watermarks. A worker fence clears \<open>pr_live\<close> but, unlike
  \<^verbatim>\<open>fence_publisher\<close>, leaves \<open>pr_fenced\<close> as it is.
\<close>

definition notify_finish ::
    "DependencyNotification \<Rightarrow> ProvenanceNodeId list \<Rightarrow> Store \<Rightarrow> Store \<times> Status" where
  "notify_finish n affected st =
     (case dn_kind n of
        DK_EpochAdvance \<Rightarrow>
          (reevaluate_index (affected @ om_keys (s_node_owner st)) st,
           st_ok_with O_Updated ''dependency watermark updated'')
      | DK_WorkerFence \<Rightarrow>
          (case find_publisher st (dn_publisher n) (dn_boot n) of
             None \<Rightarrow> (st, st_failure O_NodeNotFound ''publisher boot is not registered'')
           | Some r \<Rightarrow>
               let st1 = st\<lparr>s_publishers := om_put (dn_publisher n, dn_boot n) (r\<lparr>pr_live := False\<rparr>)
                              (s_publishers st)\<rparr>
               in (reevaluate_index
                     (case om_find (s_boot_index st1) (dn_boot n) of
                        None \<Rightarrow> affected | Some ids \<Rightarrow> os_elems ids) st1,
                   st_ok_with O_Updated ''dependency watermark updated''))
      | _ \<Rightarrow> (reevaluate_index affected st, st_ok_with O_Updated ''dependency watermark updated''))"

definition notify_authority :: "AuthorityContext \<Rightarrow> Store \<Rightarrow> Status" where
  "notify_authority auth st =
     (let marks = s_watermarks st
      in if \<not> st_is_ok (check_authority_fields auth) then check_authority_fields auth
         else if \<not> id_valid (wm_epoch marks) \<or> pi_epoch (ac_publisher auth) \<noteq> wm_epoch marks then
           st_failure O_StaleEpoch ''dependency notification epoch is not current''
         else if \<not> publisher_is_live st (pi_publisher (ac_publisher auth)) (pi_boot (ac_publisher auth)) then
           st_failure O_StaleWorker ''dependency notification requires a live session''
         else if scope_kind (ac_scope auth) \<noteq> SK_Fabric then
           st_failure O_Unauthorized ''dependency notifications require explicit fabric authority scope''
         else st_ok)"

definition notify_dependency :: "DependencyNotification \<Rightarrow> Store \<Rightarrow> Store \<times> Status" where
  "notify_dependency n st =
     (if \<not> st_is_ok (notify_authority (dn_authority n) st) then (st, notify_authority (dn_authority n) st)
      else case notify_marks n st of
        Inl status \<Rightarrow> (st, status)
      | Inr (marks, affected) \<Rightarrow>
          let (advanced, st1) = next_store_generation (st\<lparr>s_watermarks := marks\<rparr>)
          in if \<not> advanced then (st1, st_failure O_ResourceLimit ''store generation exhausted'')
             else notify_finish n affected st1)"

definition advance_epoch :: "CoordinatorEpoch \<Rightarrow> AuthorityContext \<Rightarrow> Store \<Rightarrow> Store \<times> Status" where
  "advance_epoch epoch auth st = notify_dependency
     \<lparr>dn_kind = DK_EpochAdvance, dn_path_authority_generation = 0, dn_policy_generation = 0,
      dn_evidence_generation = 0, dn_plan_generation = 0, dn_epoch = epoch, dn_publisher = 0,
      dn_boot = 0, dn_authority = auth\<rparr> st"

definition watermark_bytes :: "DependencyWatermarks \<Rightarrow> Encoder" where
  "watermark_bytes marks = encode_seq
     [add_u32 1 kGraphEncodingVersion,
      add_u64 2 (wm_store_generation marks),
      add_u64 3 (wm_path_authority_generation marks),
      add_u64 4 (wm_policy_generation marks),
      add_u64 5 (wm_evidence_generation marks),
      add_u64 6 (wm_plan_generation marks),
      add_u64 7 (wm_epoch marks)]"

definition watermarks :: "hash_fun \<Rightarrow> Store \<Rightarrow> DependencyWatermarks Result" where
  "watermarks H st =
     r_ok ((s_watermarks st)\<lparr>wm_digest := enc_digest H ''rp.watermarks.v1'' (watermark_bytes (s_watermarks st))\<rparr>)"

section \<open>Normalisation\<close>

text \<open>The default member values of \<^verbatim>\<open>NormalizedPublication\<close>.\<close>

definition blank_publication :: NormalizedPublication where
  "blank_publication = \<lparr>np_kind = PK_RouteState, np_key = \<lparr>lk_route = 0, lk_semantic_key = []\<rparr>,
     np_explicit_lineage = None, np_node_kind = NK_RouteGeneration, np_route = 0,
     np_route_generation = 0, np_route_state_digest = zero_digest, np_reason = RC_InitialRoute,
     np_source = SC_RouteFabric, np_root_reason = None, np_evidence = [], np_authority = no_authority,
     np_bindings = no_bindings, np_edges = [], np_link_type = ET_AuthorizedBy, np_link_from = 0,
     np_target = 0, np_completion_evidence = zero_digest, np_allow_non_current_target = False\<rparr>"

text \<open>A list of checks in order, the first failure winning, then the normalised request.\<close>

definition checked :: "Status list \<Rightarrow> NormalizedPublication \<Rightarrow> NormalizedPublication Result" where
  "checked checks np =
     (case List.find (\<lambda>s. \<not> st_is_ok s) checks of None \<Rightarrow> r_ok np | Some s \<Rightarrow> r_of_status s)"

definition require :: "bool \<Rightarrow> Outcome \<Rightarrow> string \<Rightarrow> Status" where
  "require cond out det = (if cond then st_ok else st_failure out det)"

definition normalize_route :: "PublishRouteRequest \<Rightarrow> Limits \<Rightarrow> NormalizedPublication Result" where
  "normalize_route rq limits = checked
     [check_lineage_key (rq_key rq) limits,
      require (id_valid (rq_route_generation rq)) O_InvalidSourceGeneration ''route generation must be >= 1'',
      require (\<not> digest_is_zero (rq_route_state_digest rq)) O_InvalidDerivation
        ''route-state digest is required'',
      validate_bindings (rq_reason rq) (rq_bindings rq),
      check_edge_specs (rq_edges rq)]
     (blank_publication\<lparr>np_kind := PK_RouteState, np_key := rq_key rq,
        np_explicit_lineage := rq_explicit_lineage rq, np_node_kind := NK_RouteGeneration,
        np_route := lk_route (rq_key rq), np_route_generation := rq_route_generation rq,
        np_route_state_digest := rq_route_state_digest rq, np_reason := rq_reason rq,
        np_source := rq_source rq, np_root_reason := rq_root_reason rq, np_evidence := rq_evidence rq,
        np_authority := rq_authority rq, np_bindings := rq_bindings rq, np_edges := rq_edges rq\<rparr>)"

definition normalize_declaration :: "DeclarationRequest \<Rightarrow> Limits \<Rightarrow> NormalizedPublication Result" where
  "normalize_declaration rq limits = checked
     [check_lineage_key (dq_key rq) limits,
      require (is_declaration_kind (dq_kind rq)) O_MalformedRequest
        ''declaration requires a declaration record kind'',
      check_declaration_bindings (dq_kind rq) (dq_bindings rq),
      validate_bindings (dq_reason rq) (dq_bindings rq),
      check_authority_fields (dq_authority rq),
      require (id_valid (dq_route_generation rq) \<longrightarrow> id_valid (dq_route rq)) O_MalformedRequest
        ''declaration binds a route generation without a route identity'']
     (blank_publication\<lparr>np_kind := PK_Declaration, np_key := dq_key rq, np_node_kind := dq_kind rq,
        np_route := dq_route rq, np_route_generation := dq_route_generation rq,
        np_reason := dq_reason rq, np_source := dq_source rq, np_evidence := dq_evidence rq,
        np_authority := dq_authority rq, np_bindings := dq_bindings rq\<rparr>)"

definition normalize_administrative ::
    "AdministrativeRequest \<Rightarrow> PublishKind \<Rightarrow> Limits \<Rightarrow> NormalizedPublication Result" where
  "normalize_administrative rq kind limits = checked
     [check_lineage_key (aq_key rq) limits,
      check_authority_fields (aq_authority rq),
      require (id_valid (aq_target rq)) O_MalformedRequest
        ''administrative action requires a target record'',
      check_reason_matches kind (aq_reason rq),
      validate_bindings (aq_reason rq) (aq_bindings rq)]
     (blank_publication\<lparr>np_kind := kind, np_key := aq_key rq, np_node_kind := NK_AdministrativeAction,
        np_target := aq_target rq, np_reason := aq_reason rq, np_source := aq_source rq,
        np_evidence := aq_evidence rq, np_authority := aq_authority rq, np_bindings := aq_bindings rq,
        np_completion_evidence := aq_completion_evidence rq,
        np_allow_non_current_target := aq_allow_non_current_target rq,
        np_edges := [\<lparr>sp_type = action_edge_type kind, sp_target = aq_target rq,
                      sp_reason = aq_reason rq, sp_source = aq_source rq, sp_evidence = aq_evidence rq\<rparr>]\<rparr>)"

definition normalize_correction :: "CorrectionRequest \<Rightarrow> Limits \<Rightarrow> NormalizedPublication Result" where
  "normalize_correction rq limits = checked
     [check_lineage_key (cq_key rq) limits,
      check_authority_fields (cq_authority rq),
      require (id_valid (cq_target rq)) O_MalformedRequest ''correction requires a target record'',
      check_reason_matches PK_Correction (cq_reason rq),
      validate_bindings (cq_reason rq) (cq_bindings rq)]
     (blank_publication\<lparr>np_kind := PK_Correction, np_key := cq_key rq, np_node_kind := NK_RouteGeneration,
        np_target := cq_target rq, np_route_state_digest := cq_route_state_digest rq,
        np_reason := cq_reason rq, np_source := cq_source rq, np_evidence := cq_evidence rq,
        np_authority := cq_authority rq, np_bindings := cq_bindings rq,
        np_edges := [\<lparr>sp_type = ET_Corrects, sp_target = cq_target rq, sp_reason = cq_reason rq,
                      sp_source = cq_source rq, sp_evidence = cq_evidence rq\<rparr>]\<rparr>)"

definition link_type_is_supported :: "EdgeType \<Rightarrow> bool" where
  "link_type_is_supported t =
     (case t of ET_AuthorizedBy \<Rightarrow> True | ET_ComputedFrom \<Rightarrow> True | ET_SelectedFrom \<Rightarrow> True
      | ET_AdaptedFrom \<Rightarrow> True | ET_TransitionedBy \<Rightarrow> True | ET_DerivedFrom \<Rightarrow> True | _ \<Rightarrow> False)"

definition normalize_link :: "LinkDerivationRequest \<Rightarrow> Limits \<Rightarrow> NormalizedPublication Result" where
  "normalize_link rq limits = checked
     [check_lineage_key (lq_key rq) limits,
      check_authority_fields (lq_authority rq),
      require (id_valid (lq_from rq) \<and> id_valid (lq_to rq) \<and> lq_from rq \<noteq> lq_to rq) O_MalformedRequest
        ''link requires two distinct record identities'',
      require (link_type_is_supported (lq_type rq)) O_MalformedRequest
        ''unsupported link relation for LINK_DERIVATION'']
     (blank_publication\<lparr>np_kind := PK_Link, np_key := lq_key rq, np_link_type := lq_type rq,
        np_link_from := lq_from rq, np_target := lq_to rq, np_reason := lq_reason rq,
        np_source := lq_source rq, np_evidence := lq_evidence rq, np_authority := lq_authority rq\<rparr>)"

section \<open>Publication entry points\<close>

definition commit_normalized ::
    "hash_fun \<Rightarrow> NormalizedPublication Result \<Rightarrow> Store \<Rightarrow> Store \<times> Publication Result" where
  "commit_normalized H normalized st =
     (case r_value normalized of
        None \<Rightarrow> (st, r_failure (r_outcome normalized) (r_detail normalized))
      | Some np \<Rightarrow> commit H np st)"

definition publish_route :: "hash_fun \<Rightarrow> PublishRouteRequest \<Rightarrow> Store \<Rightarrow> Store \<times> Publication Result" where
  "publish_route H rq st = commit_normalized H (normalize_route rq (s_limits st)) st"

definition declare_record :: "hash_fun \<Rightarrow> DeclarationRequest \<Rightarrow> Store \<Rightarrow> Store \<times> Publication Result" where
  "declare_record H rq st = commit_normalized H (normalize_declaration rq (s_limits st)) st"

definition link_derivation :: "hash_fun \<Rightarrow> LinkDerivationRequest \<Rightarrow> Store \<Rightarrow> Store \<times> Publication Result" where
  "link_derivation H rq st = commit_normalized H (normalize_link rq (s_limits st)) st"

definition withdraw :: "hash_fun \<Rightarrow> AdministrativeRequest \<Rightarrow> Store \<Rightarrow> Store \<times> Publication Result" where
  "withdraw H rq st = commit_normalized H (normalize_administrative rq PK_Withdrawal (s_limits st)) st"

definition revoke :: "hash_fun \<Rightarrow> AdministrativeRequest \<Rightarrow> Store \<Rightarrow> Store \<times> Publication Result" where
  "revoke H rq st = commit_normalized H (normalize_administrative rq PK_Revocation (s_limits st)) st"

definition retire :: "hash_fun \<Rightarrow> AdministrativeRequest \<Rightarrow> Store \<Rightarrow> Store \<times> Publication Result" where
  "retire H rq st = commit_normalized H (normalize_administrative rq PK_Retirement (s_limits st)) st"

definition revalidate :: "hash_fun \<Rightarrow> AdministrativeRequest \<Rightarrow> Store \<Rightarrow> Store \<times> Publication Result" where
  "revalidate H rq st = commit_normalized H (normalize_administrative rq PK_Revalidation (s_limits st)) st"

definition invalidate :: "hash_fun \<Rightarrow> AdministrativeRequest \<Rightarrow> Store \<Rightarrow> Store \<times> Publication Result" where
  "invalidate H rq st = commit_normalized H (normalize_administrative rq PK_Invalidation (s_limits st)) st"

definition correct_record :: "hash_fun \<Rightarrow> CorrectionRequest \<Rightarrow> Store \<Rightarrow> Store \<times> Publication Result" where
  "correct_record H rq st = commit_normalized H (normalize_correction rq (s_limits st)) st"

section \<open>Two-phase publication\<close>

record DependencySnapshot =
  ds_store_generation :: ProvenanceGeneration
  ds_lineage_generation :: LineageGeneration
  ds_route_generation :: RouteGeneration
  ds_path_authority_generation :: PathAuthorityGeneration
  ds_policy_generation :: PolicyGeneration
  ds_evidence_generation :: EvidenceGeneration
  ds_plan_generation :: ConvergencePlanGeneration
  ds_epoch :: CoordinatorEpoch
  ds_publisher_boot :: WorkerBootId
  ds_digest :: Digest

text \<open>A session that was not moved from: its store pointer is the store it is committed to.\<close>

record PublicationSession =
  ps_request :: PublishRouteRequest
  ps_normalized :: NormalizedPublication
  ps_snapshot :: DependencySnapshot
  ps_committed :: bool

definition snapshot_bytes :: "DependencySnapshot \<Rightarrow> Encoder" where
  "snapshot_bytes s = encode_seq
     [add_u32 1 kGraphEncodingVersion,
      add_u64 2 (ds_store_generation s),
      add_u64 3 (ds_lineage_generation s),
      add_u64 4 (ds_route_generation s),
      add_u64 5 (ds_path_authority_generation s),
      add_u64 6 (ds_policy_generation s),
      add_u64 7 (ds_evidence_generation s),
      add_u64 8 (ds_plan_generation s),
      add_u64 9 (ds_epoch s),
      add_u64 10 (ds_publisher_boot s)]"

definition capture_snapshot :: "hash_fun \<Rightarrow> LineageKey \<Rightarrow> WorkerBootId \<Rightarrow> Store \<Rightarrow> DependencySnapshot" where
  "capture_snapshot H key boot st =
     (let marks = s_watermarks st; lin = find_lineage st (derive_lineage_id H key);
          s = \<lparr>ds_store_generation = wm_store_generation marks,
               ds_lineage_generation = (case lin of None \<Rightarrow> 0 | Some l \<Rightarrow> ls_lineage_generation (l_state l)),
               ds_route_generation =
                 (case lin of None \<Rightarrow> 0 | Some l \<Rightarrow> ls_current_route_generation (l_state l)),
               ds_path_authority_generation = wm_path_authority_generation marks,
               ds_policy_generation = wm_policy_generation marks,
               ds_evidence_generation = wm_evidence_generation marks,
               ds_plan_generation = wm_plan_generation marks,
               ds_epoch = wm_epoch marks, ds_publisher_boot = boot, ds_digest = zero_digest\<rparr>
      in s\<lparr>ds_digest := enc_digest H ''rp.dependency.snapshot.v1'' (snapshot_bytes s)\<rparr>)"

definition begin_publication :: "hash_fun \<Rightarrow> PublishRouteRequest \<Rightarrow> Store \<Rightarrow> PublicationSession Result" where
  "begin_publication H rq st =
     (let normalized = normalize_route rq (s_limits st)
      in case r_value normalized of
           None \<Rightarrow> r_failure (r_outcome normalized) (r_detail normalized)
         | Some np \<Rightarrow> r_ok \<lparr>ps_request = rq, ps_normalized = np,
             ps_snapshot = capture_snapshot H (rq_key rq) (pi_boot (ac_publisher (rq_authority rq))) st,
             ps_committed = False\<rparr>)"

text \<open>The first captured dependency that moved, in the order of the tests.\<close>

definition session_stale :: "hash_fun \<Rightarrow> DependencySnapshot \<Rightarrow> NormalizedPublication \<Rightarrow> Store \<Rightarrow> Status" where
  "session_stale H s np st =
     (let marks = s_watermarks st; lin = find_lineage st (derive_lineage_id H (np_key np))
      in if (case lin of None \<Rightarrow> False
             | Some l \<Rightarrow> np_kind np = PK_RouteState
                 \<and> ls_current_route_generation (l_state l) \<noteq> ds_route_generation s) then
           st_failure O_StaleRoute ''route generation advanced while the derivation was being built''
         else if lin = None \<and> id_valid (ds_lineage_generation s) then
           st_failure O_StaleLineageGeneration ''lineage disappeared while the derivation was being built''
         else if wm_path_authority_generation marks \<noteq> ds_path_authority_generation s then
           st_failure O_StalePathAuthority ''path authority advanced while the derivation was being built''
         else if wm_policy_generation marks \<noteq> ds_policy_generation s then
           st_failure O_StalePolicy ''policy advanced while the derivation was being built''
         else if wm_evidence_generation marks \<noteq> ds_evidence_generation s then
           st_failure O_StaleEvidence ''evidence advanced while the derivation was being built''
         else if wm_plan_generation marks \<noteq> ds_plan_generation s then
           st_failure O_StalePlan ''convergence plan advanced while the derivation was being built''
         else if (case lin of None \<Rightarrow> False
                  | Some l \<Rightarrow> ls_lineage_generation (l_state l) \<noteq> ds_lineage_generation s) then
           st_failure O_StaleLineageGeneration ''lineage state advanced while the derivation was being built''
         else if wm_epoch marks \<noteq> ds_epoch s then
           st_failure O_StaleEpoch ''coordinator epoch advanced while the derivation was being built''
         else if wm_store_generation marks \<noteq> ds_store_generation s then
           st_failure O_StaleStoreGeneration ''store state advanced while the derivation was being built''
         else st_ok)"

definition commit_session ::
    "hash_fun \<Rightarrow> DependencySnapshot \<Rightarrow> NormalizedPublication \<Rightarrow> Store \<Rightarrow> Store \<times> Publication Result" where
  "commit_session H s np st =
     (if \<not> st_is_ok (session_stale H s np st) then (st, r_of_status (session_stale H s np st))
      else commit H np st)"

definition session_commit ::
    "hash_fun \<Rightarrow> PublicationSession \<Rightarrow> Store \<Rightarrow> PublicationSession \<times> Store \<times> Publication Result" where
  "session_commit H session st =
     (if ps_committed session then
        (session, st, r_failure O_MalformedRequest ''publication session has already been committed'')
      else (session\<lparr>ps_committed := True\<rparr>,
            commit_session H (ps_snapshot session) (ps_normalized session) st))"

end
