(* ===== verification/Store_Query.thy ===== *)
theory Store_Query
  imports Explain Store_Api
begin

text \<open>
  Queries, explanations, reverse-index queries, snapshots, statistics and bounded-history
  compaction: \<^verbatim>\<open>src/store_query.cpp\<close>. Everything but \<open>compact\<close> only reads the store.
\<close>

section \<open>Views\<close>

record LineageView =
  lv_id :: RouteLineageId
  lv_key :: LineageKey
  lv_lifecycle :: LineageLifecycle
  lv_current_route_generation :: RouteGeneration
  lv_current_node :: ProvenanceNodeId
  lv_lineage_generation :: LineageGeneration
  lv_authority_generation :: AuthorityGeneration
  lv_node_count :: nat
  lv_edge_count :: nat
  lv_compacted_node_count :: nat
  lv_current_currentness :: Currentness
  lv_digest :: Digest

definition current_currentness :: "Lineage \<Rightarrow> Currentness" where
  "current_currentness lin =
     (case find_node (l_graph lin) (ls_current_node (l_state lin)) of
        None \<Rightarrow> CU_HistoricalOnly | Some n \<Rightarrow> n_currentness n)"

definition make_view :: "hash_fun \<Rightarrow> Lineage \<Rightarrow> LineageView" where
  "make_view H lin =
     (let state = l_state lin; g = l_graph lin
      in \<lparr>lv_id = ls_id state, lv_key = ls_key state, lv_lifecycle = ls_lifecycle state,
          lv_current_route_generation = ls_current_route_generation state,
          lv_current_node = ls_current_node state,
          lv_lineage_generation = ls_lineage_generation state,
          lv_authority_generation = ls_authority_generation state,
          lv_node_count = node_count g, lv_edge_count = edge_count g,
          lv_compacted_node_count =
            length (filter (\<lambda>n. n_kind n = NK_CompactedSummary) (nodes_in_order g)),
          lv_current_currentness = current_currentness lin,
          lv_digest = graph_digest H state g\<rparr>)"

definition lineage_view :: "hash_fun \<Rightarrow> RouteLineageId \<Rightarrow> Store \<Rightarrow> LineageView Result" where
  "lineage_view H i st =
     (if \<not> id_valid i then r_failure O_MalformedRequest ''lineage identity is not valid''
      else case find_lineage st i of
        None \<Rightarrow> r_failure O_LineageNotFound ''no such route lineage''
      | Some lin \<Rightarrow> r_ok (make_view H lin))"

definition lineage_for_route :: "hash_fun \<Rightarrow> RouteId \<Rightarrow> Store \<Rightarrow> LineageView Result" where
  "lineage_for_route H route st =
     (if \<not> id_valid route then r_failure O_MalformedRequest ''route identity is not valid''
      else case om_find (s_route_index st) route of
        None \<Rightarrow> r_failure O_LineageNotFound ''no lineage for that route''
      | Some i \<Rightarrow> lineage_view H i st)"

definition list_lineages :: "hash_fun \<Rightarrow> Store \<Rightarrow> LineageView list Result" where
  "list_lineages H st =
     (if om_size (s_lineages st) > max_query_results (s_limits st) then
        r_failure O_ResourceLimit ''lineage count exceeds max_query_results''
      else r_ok (sort_key lv_id (map (make_view H) (om_values (s_lineages st)))))"

section \<open>Record queries\<close>

text \<open>The prologue the record queries share: the lineage that owns a record.\<close>

definition owner_lineage :: "Store \<Rightarrow> ProvenanceNodeId \<Rightarrow> Status + Lineage" where
  "owner_lineage st i =
     (if \<not> id_valid i then Inl (st_failure O_MalformedRequest ''record identity is not valid'')
      else case om_find (s_node_owner st) i of
        None \<Rightarrow> Inl (st_failure O_NodeNotFound ''no such provenance record'')
      | Some owner \<Rightarrow>
          (case find_lineage st owner of
             None \<Rightarrow> Inl (st_failure O_LineageNotFound ''record owner lineage is missing'')
           | Some lin \<Rightarrow> Inr lin))"

definition owned_record :: "Store \<Rightarrow> ProvenanceNodeId \<Rightarrow> Status + (Lineage \<times> ProvenanceNode)" where
  "owned_record st i =
     (case owner_lineage st i of
        Inl s \<Rightarrow> Inl s
      | Inr lin \<Rightarrow>
          (case find_node (l_graph lin) i of
             None \<Rightarrow> Inl (st_failure O_NodeNotFound ''no such provenance record'')
           | Some n \<Rightarrow> Inr (lin, n)))"

definition result_of :: "('a \<Rightarrow> 'b) \<Rightarrow> Status + 'a \<Rightarrow> 'b Result" where
  "result_of f x = (case x of Inl s \<Rightarrow> r_of_status s | Inr a \<Rightarrow> r_ok (f a))"

definition node_query :: "ProvenanceNodeId \<Rightarrow> Store \<Rightarrow> ProvenanceNode Result" where
  "node_query i st = result_of snd (owned_record st i)"

definition route_node :: "RouteId \<Rightarrow> RouteGeneration \<Rightarrow> Store \<Rightarrow> ProvenanceNode Result" where
  "route_node route generation st =
     (if \<not> id_valid route \<or> \<not> id_valid generation then
        r_failure O_MalformedRequest ''route identity and generation are required''
      else case om_find (s_route_generation_index st) route of
        None \<Rightarrow> r_failure O_NodeNotFound ''no provenance for that route''
      | Some generations \<Rightarrow>
          (case om_find generations generation of
             None \<Rightarrow> r_failure O_NodeNotFound ''no provenance record for that route generation''
           | Some i \<Rightarrow> node_query i st))"

definition parents :: "ProvenanceNodeId \<Rightarrow> Store \<Rightarrow> ProvenanceEdge list Result" where
  "parents i st = result_of (\<lambda>(lin, _). outgoing_edges (l_graph lin) i) (owned_record st i)"

definition children :: "ProvenanceNodeId \<Rightarrow> Store \<Rightarrow> ProvenanceEdge list Result" where
  "children i st = result_of (\<lambda>(lin, _). incoming_edges (l_graph lin) i) (owned_record st i)"

section \<open>Bounded traversal\<close>

definition traverse_lineage ::
    "Lineage \<Rightarrow> ProvenanceNodeId \<Rightarrow> TraversalDirection \<Rightarrow> TraversalBounds \<Rightarrow> Limits
     \<Rightarrow> (EdgeType \<Rightarrow> bool) \<Rightarrow> TraversalResult Result" where
  "traverse_lineage lin origin dir bounds limits keep =
     (case traverse (l_graph lin) origin dir bounds limits keep of
        (out, status) \<Rightarrow> if st_is_ok status then r_ok out else r_of_status status)"

definition traverse_from ::
    "ProvenanceNodeId \<Rightarrow> TraversalDirection \<Rightarrow> TraversalBounds \<Rightarrow> (EdgeType \<Rightarrow> bool) \<Rightarrow> Store
     \<Rightarrow> TraversalResult Result" where
  "traverse_from i dir bounds keep st =
     (case owner_lineage st i of
        Inl s \<Rightarrow> r_of_status s
      | Inr lin \<Rightarrow> traverse_lineage lin i dir bounds (s_limits st) keep)"

definition causal_only :: "EdgeType \<Rightarrow> bool" where
  "causal_only t \<longleftrightarrow> edge_type_is_successor_relation t \<or> edge_type_is_evidence_relation t"

definition ancestors :: "ProvenanceNodeId \<Rightarrow> TraversalBounds \<Rightarrow> Store \<Rightarrow> TraversalResult Result" where
  "ancestors i bounds st = traverse_from i TD_Outgoing bounds any_type st"

definition descendants :: "ProvenanceNodeId \<Rightarrow> TraversalBounds \<Rightarrow> Store \<Rightarrow> TraversalResult Result" where
  "descendants i bounds st = traverse_from i TD_Incoming bounds any_type st"

definition predecessor_chain :: "ProvenanceNodeId \<Rightarrow> TraversalBounds \<Rightarrow> Store \<Rightarrow> TraversalResult Result" where
  "predecessor_chain i bounds st = traverse_from i TD_Outgoing bounds edge_type_is_successor_relation st"

definition successor_chain :: "ProvenanceNodeId \<Rightarrow> TraversalBounds \<Rightarrow> Store \<Rightarrow> TraversalResult Result" where
  "successor_chain i bounds st = traverse_from i TD_Incoming bounds edge_type_is_successor_relation st"

definition causes_query :: "ProvenanceNodeId \<Rightarrow> TraversalBounds \<Rightarrow> Store \<Rightarrow> ProvenanceNode list Result" where
  "causes_query i bounds st =
     (let t = traverse_from i TD_Outgoing bounds causal_only st
      in case r_value t of
           None \<Rightarrow> r_failure (r_outcome t) (r_detail t)
         | Some tr \<Rightarrow> r_ok (filter (\<lambda>n. n_id n \<noteq> i) (map fst (tr_nodes tr))))"

section \<open>Explanations\<close>

definition filter_for_mode :: "ExplainMode \<Rightarrow> EdgeType \<Rightarrow> bool" where
  "filter_for_mode mode t =
     (case mode of EM_ImmediateCause \<Rightarrow> True | EM_FullAncestry \<Rightarrow> True | _ \<Rightarrow> edge_matches_mode t mode)"

text \<open>A request without \<open>xr_max_nodes\<close> uses the configured bounds; a large one widens the visited bound.\<close>

definition explain_bounds :: "ExplainRequest \<Rightarrow> Limits \<Rightarrow> TraversalBounds" where
  "explain_bounds rq limits =
     \<lparr>tb_max_depth = (if xr_mode rq = EM_ImmediateCause \<and> xr_max_depth rq = 0 then 1 else xr_max_depth rq),
      tb_max_results = xr_max_nodes rq,
      tb_max_visited =
        (if xr_max_nodes rq = 0 then max_visited_nodes limits
         else if xr_max_nodes rq > max_visited_nodes limits then xr_max_nodes rq
         else max_visited_nodes limits)\<rparr>"

definition explanation_step :: "nat \<Rightarrow> ProvenanceEdge \<Rightarrow> ProvenanceNode \<Rightarrow> ExplanationStep" where
  "explanation_step depth e target =
     \<lparr>es_depth = depth + 1, es_edge = e_id e, es_type = e_type e, es_from = e_from e, es_to = e_to e,
      es_kind = n_kind target, es_reason = e_reason e, es_source = e_source e,
      es_route_generation = n_route_generation target, es_lifecycle = n_lifecycle target,
      es_currentness = n_currentness target,
      es_historically_valid = node_is_historically_valid target,
      es_current = (n_currentness target = CU_Current)\<rparr>"

definition explanation_steps ::
    "ProvenanceGraph \<Rightarrow> ExplainMode \<Rightarrow> (ProvenanceNode \<times> nat) list \<Rightarrow> ExplanationStep list" where
  "explanation_steps g mode entries =
     sort_key (\<lambda>s. (es_depth s, es_edge s))
       (concat (map (\<lambda>(n, d).
          List.map_filter (\<lambda>e.
              if edge_matches_mode (e_type e) mode \<and> traversal_contains entries (e_to e)
              then map_option (explanation_step d e) (find_node g (e_to e)) else None)
            (outgoing_edges g (n_id n))) entries))"

definition step_bytes :: "ExplanationStep \<Rightarrow> Encoder" where
  "step_bytes s = encode_seq
     [add_u32 1 (of_nat (es_depth s)),
      add_u64 2 (es_edge s),
      add_u16 3 (edge_type_code (es_type s)),
      add_u64 4 (es_from s),
      add_u64 5 (es_to s),
      add_u16 6 (reason_code_code (es_reason s)),
      add_u16 7 (currentness_code (es_currentness s))]"

definition explanation_bytes :: "Explanation \<Rightarrow> Encoder" where
  "explanation_bytes x = encode_seq
     ([add_u32 1 kGraphEncodingVersion,
       add_u64 2 (ex_subject x),
       add_u16 3 (explain_mode_code (ex_mode x)),
       add_u64 4 (ex_lineage x),
       add_bool 5 (ex_historically_valid x),
       add_bool 6 (ex_current x),
       add_u32 7 (of_nat (length (ex_steps x)))] @
      map (\<lambda>s. add_nested 8 (step_bytes s)) (ex_steps x))"

definition explain_lineage ::
    "hash_fun \<Rightarrow> ExplainRequest \<Rightarrow> Limits \<Rightarrow> Lineage \<Rightarrow> ProvenanceNode \<Rightarrow> Explanation Result" where
  "explain_lineage H rq limits lin subject =
     (case traverse (l_graph lin) (n_id subject) TD_Outgoing (explain_bounds rq limits) limits
             (filter_for_mode (xr_mode rq)) of
        (traversal, status) \<Rightarrow>
          if \<not> st_is_ok status \<and> st_outcome status \<noteq> O_ResourceLimit then r_of_status status
          else
            let steps = explanation_steps (l_graph lin) (xr_mode rq) (tr_nodes traversal);
                max_steps = (if xr_max_nodes rq = 0 then max_explanation_nodes limits else xr_max_nodes rq);
                x = \<lparr>ex_subject = n_id subject, ex_mode = xr_mode rq, ex_lineage = ls_id (l_state lin),
                     ex_key = ls_key (l_state lin), ex_subject_lifecycle = n_lifecycle subject,
                     ex_subject_currentness = n_currentness subject,
                     ex_historically_valid = node_is_historically_valid subject,
                     ex_current = (n_currentness subject = CU_Current),
                     ex_steps = take max_steps steps,
                     ex_truncated = (\<not> st_is_ok status \<or> length steps > max_steps),
                     ex_digest = zero_digest\<rparr>
            in r_ok (x\<lparr>ex_digest := enc_digest H ''rp.explanation.v1'' (explanation_bytes x)\<rparr>))"

definition explain :: "hash_fun \<Rightarrow> ExplainRequest \<Rightarrow> Store \<Rightarrow> Explanation Result" where
  "explain H rq st =
     (if \<not> id_valid (xr_subject rq) then
        r_failure O_MalformedRequest ''explanation subject is not valid''
      else case owned_record st (xr_subject rq) of
        Inl s \<Rightarrow> r_of_status s
      | Inr (lin, subject) \<Rightarrow> explain_lineage H rq (s_limits st) lin subject)"

section \<open>Reverse-index queries\<close>

definition materialize :: "Lineage \<Rightarrow> ProvenanceNodeId list \<Rightarrow> nat \<Rightarrow> ProvenanceNode list" where
  "materialize lin ids max_results =
     sort_key n_id (take max_results (List.map_filter (find_node (l_graph lin)) ids))"

definition nodes_from_index :: "ProvenanceNodeId list \<Rightarrow> TraversalBounds \<Rightarrow> Store \<Rightarrow> ProvenanceNode list Result" where
  "nodes_from_index ids bounds st =
     (let max_results = effective_bound (tb_max_results bounds) (max_query_results (s_limits st))
      in if length ids > max_results then
           r_failure O_ResourceLimit ''query result count exceeds the configured bound''
         else
           let out = concat (map (\<lambda>(owner, members).
                        case find_lineage st owner of
                          None \<Rightarrow> [] | Some lin \<Rightarrow> materialize lin members max_results)
                      (om_entries (group_by_owner st ids)))
           in r_ok (take max_results (sort_key n_id out)))"

definition index_ids_of :: "node_index \<Rightarrow> u64 \<Rightarrow> ProvenanceNodeId list" where
  "index_ids_of index k = (case om_find index k of None \<Rightarrow> [] | Some ids \<Rightarrow> os_elems ids)"

definition routes_derived_from_path :: "PathId \<Rightarrow> TraversalBounds \<Rightarrow> Store \<Rightarrow> ProvenanceNode list Result" where
  "routes_derived_from_path path bounds st =
     (if \<not> id_valid path then r_failure O_MalformedRequest ''path identity is not valid''
      else nodes_from_index (index_ids_of (s_path_index st) path) bounds st)"

definition routes_for_path_authority ::
    "PathAuthorityGeneration \<Rightarrow> TraversalBounds \<Rightarrow> Store \<Rightarrow> ProvenanceNode list Result" where
  "routes_for_path_authority generation bounds st =
     (if \<not> id_valid generation then
        r_failure O_MalformedRequest ''path authority generation is not valid''
      else nodes_from_index (index_ids_of (s_path_authority_index st) generation) bounds st)"

definition routes_derived_from_policy ::
    "PolicyGeneration \<Rightarrow> TraversalBounds \<Rightarrow> Store \<Rightarrow> ProvenanceNode list Result" where
  "routes_derived_from_policy generation bounds st =
     (if \<not> id_valid generation then r_failure O_MalformedRequest ''policy generation is not valid''
      else nodes_from_index (index_ids_of (s_policy_index st) generation) bounds st)"

definition publications_by_publisher_boot ::
    "WorkerBootId \<Rightarrow> TraversalBounds \<Rightarrow> Store \<Rightarrow> ProvenanceNode list Result" where
  "publications_by_publisher_boot boot bounds st =
     (if \<not> id_valid boot then r_failure O_MalformedRequest ''worker boot identity is not valid''
      else nodes_from_index (index_ids_of (s_boot_index st) boot) bounds st)"

section \<open>Snapshots\<close>

definition bound_or :: "nat \<Rightarrow> nat \<Rightarrow> nat" where
  "bound_or requested configured = (if requested = 0 then configured else requested)"

definition snapshot_lineage :: "hash_fun \<Rightarrow> SnapshotOptions \<Rightarrow> DependencyWatermarks \<Rightarrow> Lineage \<Rightarrow> Snapshot" where
  "snapshot_lineage H options marks lin =
     (let state = l_state lin; g = l_graph lin
      in \<lparr>sn_id = derive_id (graph_digest H state g), sn_lineage = ls_id state, sn_key = ls_key state,
          sn_lifecycle = ls_lifecycle state,
          sn_current_route_generation = ls_current_route_generation state,
          sn_current_node = ls_current_node state,
          sn_lineage_generation = ls_lineage_generation state,
          sn_authority_generation = ls_authority_generation state,
          sn_store_generation = wm_store_generation marks, sn_coordinator_epoch = wm_epoch marks,
          sn_current_currentness = current_currentness lin,
          sn_nodes = (if so_include_historical options then nodes_in_order g
                      else filter (\<lambda>n. n_currentness n = CU_Current) (nodes_in_order g)),
          sn_edges = (if so_include_edges options then edges_in_order g else []),
          sn_digest = graph_digest H state g, sn_truncated = False\<rparr>)"

definition snapshot :: "hash_fun \<Rightarrow> RouteLineageId \<Rightarrow> SnapshotOptions \<Rightarrow> Store \<Rightarrow> Snapshot Result" where
  "snapshot H i options st =
     (if \<not> id_valid i then r_failure O_MalformedRequest ''lineage identity is not valid''
      else case find_lineage st i of
        None \<Rightarrow> r_failure O_LineageNotFound ''no such route lineage''
      | Some lin \<Rightarrow>
          if node_count (l_graph lin) > bound_or (so_max_nodes options) (max_nodes_per_lineage (s_limits st)) then
            r_failure O_ResourceLimit ''snapshot exceeds max_nodes''
          else if so_include_edges options
                  \<and> edge_count (l_graph lin)
                      > bound_or (so_max_edges options) (max_edges_per_lineage (s_limits st)) then
            r_failure O_ResourceLimit ''snapshot exceeds max_edges''
          else r_ok (snapshot_lineage H options (s_watermarks st) lin))"

section \<open>Statistics\<close>

record StoreStats =
  ss_lineage_count :: nat
  ss_node_count :: nat
  ss_edge_count :: nat
  ss_current_node_count :: nat
  ss_historical_node_count :: nat
  ss_invalid_node_count :: nat
  ss_compacted_node_count :: nat
  ss_publisher_count :: nat
  ss_live_publisher_count :: nat
  ss_route_index_entries :: nat
  ss_path_index_entries :: nat
  ss_policy_index_entries :: nat
  ss_publisher_index_entries :: nat
  ss_store_generation :: ProvenanceGeneration
  ss_epoch :: CoordinatorEpoch

definition count_nodes :: "(ProvenanceNode \<Rightarrow> bool) \<Rightarrow> Store \<Rightarrow> nat" where
  "count_nodes p st =
     (\<Sum>lin \<leftarrow> om_values (s_lineages st). length (filter p (nodes_in_order (l_graph lin))))"

definition stats :: "Store \<Rightarrow> StoreStats Result" where
  "stats st = r_ok
     \<lparr>ss_lineage_count = om_size (s_lineages st),
      ss_node_count = (\<Sum>lin \<leftarrow> om_values (s_lineages st). node_count (l_graph lin)),
      ss_edge_count = (\<Sum>lin \<leftarrow> om_values (s_lineages st). edge_count (l_graph lin)),
      ss_current_node_count = count_nodes (\<lambda>n. n_currentness n = CU_Current) st,
      ss_historical_node_count = count_nodes (\<lambda>n. n_kind n \<noteq> NK_CompactedSummary
         \<and> (n_lifecycle n = NL_Historical \<or> n_lifecycle n = NL_Superseded)) st,
      ss_invalid_node_count = count_nodes (\<lambda>n. n_kind n \<noteq> NK_CompactedSummary
         \<and> n_lifecycle n = NL_Invalid) st,
      ss_compacted_node_count = count_nodes (\<lambda>n. n_kind n = NK_CompactedSummary) st,
      ss_publisher_count = om_size (s_publishers st),
      ss_live_publisher_count = length (filter pr_live (om_values (s_publishers st))),
      ss_route_index_entries = om_size (s_route_generation_index st),
      ss_path_index_entries = om_size (s_path_index st),
      ss_policy_index_entries = om_size (s_policy_index st),
      ss_publisher_index_entries = om_size (s_boot_index st),
      ss_store_generation = wm_store_generation (s_watermarks st),
      ss_epoch = wm_epoch (s_watermarks st)\<rparr>"

section \<open>Compaction\<close>

record CompactOptions =
  co_retain_explanation_depth :: nat
  co_max_compactions :: nat

record CompactResult =
  cr_compacted :: nat
  cr_tombstones :: "ProvenanceNodeId list"
  cr_lineage_generation :: LineageGeneration
  cr_store_generation :: ProvenanceGeneration

definition compact_authority :: "AuthorityContext \<Rightarrow> RouteLineageId \<Rightarrow> Store \<Rightarrow> Status + Lineage" where
  "compact_authority auth i st =
     (let marks = s_watermarks st
      in if \<not> id_valid i then Inl (st_failure O_MalformedRequest ''lineage identity is not valid'')
         else if \<not> has_identity auth then
           Inl (st_failure O_Unauthorized ''compaction requires a full publisher identity'')
         else if \<not> id_valid (wm_epoch marks) \<or> pi_epoch (ac_publisher auth) \<noteq> wm_epoch marks then
           Inl (st_failure O_StaleEpoch ''compaction epoch is not current'')
         else if \<not> publisher_is_live st (pi_publisher (ac_publisher auth)) (pi_boot (ac_publisher auth)) then
           Inl (st_failure O_StaleWorker ''compaction requires a live administrative session'')
         else case find_lineage st i of
           None \<Rightarrow> Inl (st_failure O_LineageNotFound ''no such route lineage'')
         | Some lin \<Rightarrow>
             if \<not> permits (ac_scope auth) \<lparr>tg_routing_namespace = 0, tg_lineage = i,
                    tg_route = lk_route (ls_key (l_state lin))\<rparr> then
               Inl (st_failure O_Unauthorized ''compaction authority scope does not cover the lineage'')
             else Inr lin)"

text \<open>
  The records the explanation of the current record needs. The status of the traversal is dropped:
  when a traversal bound is exceeded its result is empty and no ancestor is protected.
\<close>

definition retained_ancestry :: "nat \<Rightarrow> Limits \<Rightarrow> Lineage \<Rightarrow> ProvenanceNodeId set" where
  "retained_ancestry depth limits lin =
     (if id_valid (ls_current_node (l_state lin)) then
        set (map (n_id \<circ> fst) (tr_nodes (fst (traverse (l_graph lin) (ls_current_node (l_state lin))
          TD_Outgoing \<lparr>tb_max_depth = (if depth = 0 then max_traversal_depth limits else depth),
            tb_max_results = 0, tb_max_visited = 0\<rparr> limits any_type))))
      else {})"

definition protected_nodes :: "nat \<Rightarrow> Limits \<Rightarrow> Lineage \<Rightarrow> ProvenanceNodeId set" where
  "protected_nodes depth limits lin =
     {ls_current_node (l_state lin)}
     \<union> set (map n_id (filter (\<lambda>n. n_currentness n = CU_Current \<or> n_revalidation_required n)
               (nodes_in_order (l_graph lin))))
     \<union> retained_ancestry depth limits lin"

definition compact_candidates :: "nat \<Rightarrow> Limits \<Rightarrow> Lineage \<Rightarrow> ProvenanceNode list" where
  "compact_candidates depth limits lin =
     (let keep = protected_nodes depth limits lin
      in sort_key (\<lambda>n. (n_route_generation n, n_id n))
           (filter (\<lambda>n. n_kind n \<noteq> NK_CompactedSummary \<and> node_is_history_record n \<and> n_id n \<notin> keep)
             (nodes_in_order (l_graph lin))))"

definition tombstone :: "hash_fun \<Rightarrow> AuthorityContext \<Rightarrow> ProvenanceNode \<Rightarrow> ProvenanceNode" where
  "tombstone H auth n = n\<lparr>n_kind := NK_CompactedSummary, n_reason := RC_HistoryCompaction,
     n_source := SC_Administrative, n_authority := auth, n_lifecycle := NL_Historical,
     n_currentness := CU_HistoricalOnly, n_revalidation_required := False, n_corrected_by := None,
     n_corrects := None, n_root_reason := None, n_evidence := [], n_bindings := no_bindings,
     n_compacted_digest := Some (node_core_digest H n)\<rparr>"

text \<open>The loop: the graph and the tombstones, with the status that ended it early, if any.\<close>

fun compact_nodes ::
    "hash_fun \<Rightarrow> AuthorityContext \<Rightarrow> ProvenanceNode list \<Rightarrow> ProvenanceGraph
     \<Rightarrow> ProvenanceGraph \<times> ProvenanceNodeId list \<times> Status" where
  "compact_nodes H auth [] g = (g, [], st_ok)"
| "compact_nodes H auth (n # ns) g =
     (let (g', status) = compact_node (n_id n) (tombstone H auth n) g
      in if \<not> st_is_ok status then (g', [], status)
         else let (g'', ids, status') = compact_nodes H auth ns g' in (g'', n_id n # ids, status'))"

definition compact_finish :: "RouteLineageId \<Rightarrow> ProvenanceNodeId list \<Rightarrow> Store \<Rightarrow> Lineage \<Rightarrow> Store \<times> CompactResult Result" where
  "compact_finish i ids st lin =
     (let lin1 = refresh_counters (lin\<lparr>l_state := (l_state lin)\<lparr>ls_compacted_node_count :=
                   ls_compacted_node_count (l_state lin) + length ids\<rparr>\<rparr>);
          result = (\<lambda>st' lin'. r_ok \<lparr>cr_compacted = length ids, cr_tombstones = ids,
                      cr_lineage_generation = ls_lineage_generation (l_state lin'),
                      cr_store_generation = wm_store_generation (s_watermarks st')\<rparr>)
      in if ids = [] then (put_lineage i lin1 st, result st lin1)
         else
           let (lineage_ok, generation) = bump_generation (ls_lineage_generation (l_state lin1))
           in if \<not> lineage_ok then
                (put_lineage i lin1 st, r_failure O_ResourceLimit ''lineage generation exhausted'')
              else
                let lin2 = lin1\<lparr>l_state := (l_state lin1)\<lparr>ls_lineage_generation := generation\<rparr>\<rparr>;
                    (store_ok, st1) = next_store_generation st
                in if \<not> store_ok then
                     (put_lineage i lin2 st1, r_failure O_ResourceLimit ''store generation exhausted'')
                   else (put_lineage i lin2 st1, result st1 lin2))"

definition compact ::
    "hash_fun \<Rightarrow> RouteLineageId \<Rightarrow> AuthorityContext \<Rightarrow> CompactOptions \<Rightarrow> Store \<Rightarrow> Store \<times> CompactResult Result" where
  "compact H i auth options st =
     (case compact_authority auth i st of
        Inl s \<Rightarrow> (st, r_of_status s)
      | Inr lin \<Rightarrow>
          let budget = bound_or (co_max_compactions options) (max_batch_size (s_limits st));
              candidates = compact_candidates (co_retain_explanation_depth options) (s_limits st) lin
          in case compact_nodes H auth (take budget candidates) (l_graph lin) of
               (g, ids, status) \<Rightarrow>
                 if \<not> st_is_ok status then (put_lineage i (lin\<lparr>l_graph := g\<rparr>) st, r_of_status status)
                 else compact_finish i ids st (lin\<lparr>l_graph := g\<rparr>))"

end
