(* ===== verification/Wire_Sections.thy ===== *)
theory Wire_Sections
  imports Field_Bag Store_Query
begin

text \<open>
  The composite sections of a payload, the first part of \<^verbatim>\<open>src/wire.cpp\<close>: authority, evidence, bindings,
  derivations and lineage keys, each with its writer (\<^verbatim>\<open>put_\<close>) and its reader (\<^verbatim>\<open>take_\<close>), and the field
  checks every message starts with.

  Bindings and derivations number their fields with a cursor. The locale \<open>section_codec\<close> is the contract
  of such a section: what it puts from a cursor on, it takes from that cursor.
\<close>

section \<open>Field checks\<close>

definition kAuthorityBase :: u16 where "kAuthorityBase = 8"
definition kEvidenceField :: u16 where "kEvidenceField = 16"
definition kBindingsBase :: u16 where "kBindingsBase = 20"
definition kEdgesBase :: u16 where "kEdgesBase = 100"

lemmas wire_bases = kAuthorityBase_def kEvidenceField_def kBindingsBase_def kEdgesBase_def

definition fid :: "u16 \<Rightarrow> u16 \<Rightarrow> u16" where
  "fid base offset = base + offset"

definition check_fields :: "FieldBag \<Rightarrow> u16 list \<Rightarrow> u16 list \<Rightarrow> Status" where
  "check_fields bag allowed required =
     (if list_ex (\<lambda>field. field \<notin> set allowed) (fb_field_ids bag) then
        st_failure O_ProtocolFailure ''payload contains an unknown field identifier''
      else if list_ex (\<lambda>field. \<not> fb_has bag field) required then
        st_failure O_MalformedRequest ''payload is missing a required field''
      else st_ok)"

text \<open>
  Inclusive ranges. The loop variable is 32-bit; no caller passes a range that ends at its maximum,
  where the loop would not end.
\<close>

definition field_ranges :: "(nat \<times> nat) list \<Rightarrow> u16 list" where
  "field_ranges ranges = concat (map (\<lambda>(first, last). map of_nat [first..<Suc last]) ranges)"

definition standard_ranges :: "Limits \<Rightarrow> u16 list" where
  "standard_ranges limits = field_ranges
     [(1, 7), (8, 15), (16, 16), (20, 44), (100, 100 + 5 * max_batch_size limits)]"

section \<open>Authority and evidence\<close>

text \<open>\<^verbatim>\<open>std::optional::value_or\<close>.\<close>

definition value_or :: "'a option \<Rightarrow> 'a \<Rightarrow> 'a" where
  "value_or v fallback = (case v of Some x \<Rightarrow> x | None \<Rightarrow> fallback)"

lemma value_or_simps [simp]: "value_or (Some x) d = x" "value_or None d = d"
  by (simp_all add: value_or_def)

definition bag_all :: "(FieldBag \<Rightarrow> FieldBag) list \<Rightarrow> FieldBag \<Rightarrow> FieldBag" where
  "bag_all calls bag = foldl (\<lambda>bag call. call bag) bag calls"

definition put_authority :: "AuthorityContext \<Rightarrow> u16 \<Rightarrow> FieldBag \<Rightarrow> FieldBag" where
  "put_authority a base = bag_all
     [fb_set_u64 (fid base 0) (pi_publisher (ac_publisher a)), fb_set_u64 (fid base 1) (pi_boot (ac_publisher a)),
      fb_set_u64 (fid base 2) (pi_epoch (ac_publisher a)), fb_set_u64 (fid base 3) (ac_attempt a),
      fb_set_u16 (fid base 4) (scope_kind_code (scope_kind (ac_scope a))),
      fb_set_u64 (fid base 5) (scope_subject (ac_scope a)),
      fb_set_u64 (fid base 6) (opt_raw (ac_expected_lineage_generation a)),
      fb_set_u64 (fid base 7) (opt_raw (ac_expected_provenance_generation a))]"

definition take_authority :: "FieldBag \<Rightarrow> u16 \<Rightarrow> AuthorityContext Result" where
  "take_authority bag base =
     (let publisher = value_or (fb_u64 bag (fid base 0)) 0; boot = value_or (fb_u64 bag (fid base 1)) 0;
          epoch = value_or (fb_u64 bag (fid base 2)) 0; attempt = value_or (fb_u64 bag (fid base 3)) 0;
          scope_kind = value_or (fb_u16 bag (fid base 4)) 0xFFFF;
          subject = value_or (fb_u64 bag (fid base 5)) 0
      in (case scope_of_raw scope_kind subject of
            None \<Rightarrow> r_failure O_ProtocolFailure ''unknown authority scope kind''
          | Some scope \<Rightarrow> r_ok \<lparr>ac_publisher = \<lparr>pi_publisher = publisher, pi_boot = boot, pi_epoch = epoch\<rparr>,
              ac_scope = scope, ac_attempt = attempt,
              ac_expected_lineage_generation = opt_of_raw (value_or (fb_u64 bag (fid base 6)) 0),
              ac_expected_provenance_generation = opt_of_raw (value_or (fb_u64 bag (fid base 7)) 0)\<rparr>))"

definition evidence_bag :: "EvidenceVector \<Rightarrow> FieldBag" where
  "evidence_bag ev = bag_all (map (\<lambda>e. fb_set_u64 (ee_field e) (ee_value e)) ev) fb_empty"

definition put_evidence :: "EvidenceVector \<Rightarrow> u16 \<Rightarrow> FieldBag \<Rightarrow> FieldBag" where
  "put_evidence ev field = fb_set_nested field (evidence_bag ev)"

definition take_evidence :: "FieldBag \<Rightarrow> u16 \<Rightarrow> Limits \<Rightarrow> EvidenceVector Result" where
  "take_evidence bag field limits =
     (if \<not> fb_has bag field then r_ok []
      else (case fb_nested bag field limits of
        None \<Rightarrow> r_failure O_ProtocolFailure ''malformed evidence vector''
      | Some nested \<Rightarrow>
          r_guard (check_fields nested evidence_kAll [])
            (evidence_create
              (List.map_filter (\<lambda>known. map_option (EvidenceEntry known) (fb_u64 nested known)) evidence_kAll)
              limits)))"

section \<open>Cursors\<close>

definition set_next :: "(u16 \<Rightarrow> 'a \<Rightarrow> FieldBag \<Rightarrow> FieldBag) \<Rightarrow> 'a \<Rightarrow> u16 \<times> FieldBag \<Rightarrow> u16 \<times> FieldBag" where
  "set_next setter v = (\<lambda>(cursor, bag). (cursor + 1, setter cursor v bag))"

definition set_all :: "(u16 \<times> FieldBag \<Rightarrow> u16 \<times> FieldBag) list \<Rightarrow> u16 \<times> FieldBag \<Rightarrow> u16 \<times> FieldBag" where
  "set_all calls st = foldl (\<lambda>st call. call st) st calls"

definition get_next :: "(FieldBag \<Rightarrow> u16 \<Rightarrow> 'a) \<Rightarrow> FieldBag \<Rightarrow> u16 \<Rightarrow> 'a \<times> u16" where
  "get_next getter bag cursor = (getter bag cursor, cursor + 1)"

definition next_u64 :: "FieldBag \<Rightarrow> u16 \<Rightarrow> u64 \<times> u16" where
  "next_u64 = get_next (\<lambda>bag field. value_or (fb_u64 bag field) 0)"

definition next_u32 :: "FieldBag \<Rightarrow> u16 \<Rightarrow> u32 \<times> u16" where
  "next_u32 = get_next (\<lambda>bag field. value_or (fb_u32 bag field) 0)"

definition next_digest :: "FieldBag \<Rightarrow> u16 \<Rightarrow> Digest \<times> u16" where
  "next_digest = get_next (\<lambda>bag field. value_or (fb_digest bag field) zero_digest)"

definition put_opt :: "('a \<Rightarrow> 's \<Rightarrow> 's) \<Rightarrow> 'a option \<Rightarrow> 's \<Rightarrow> 's" where
  "put_opt put v st = (case v of Some x \<Rightarrow> put x st | None \<Rightarrow> st)"

definition take_when :: "bool \<Rightarrow> (FieldBag \<Rightarrow> u16 \<Rightarrow> 'a \<times> u16) \<Rightarrow> FieldBag \<Rightarrow> u16 \<Rightarrow> 'a option \<times> u16" where
  "take_when present get bag cursor =
     (if present then (let (v, cursor) = get bag cursor in (Some v, cursor)) else (None, cursor))"

section \<open>Bindings\<close>

definition put_path_binding :: "PathBinding \<Rightarrow> u16 \<times> FieldBag \<Rightarrow> u16 \<times> FieldBag" where
  "put_path_binding p = set_all [set_next fb_set_u64 (pb_path p), set_next fb_set_u64 (pb_generation p),
     set_next fb_set_digest (pb_decision_digest p)]"

definition put_planner_binding :: "PlannerBinding \<Rightarrow> u16 \<times> FieldBag \<Rightarrow> u16 \<times> FieldBag" where
  "put_planner_binding p = set_all [set_next fb_set_u64 (pl_request p), set_next fb_set_u64 (pl_generation p),
     set_next fb_set_u32 (pl_candidate_rank p), set_next fb_set_digest (pl_plan_digest p),
     set_next fb_set_u64 (pl_selected_path p)]"

definition put_ecmp_binding :: "EcmpBinding \<Rightarrow> u16 \<times> FieldBag \<Rightarrow> u16 \<times> FieldBag" where
  "put_ecmp_binding p = set_all [set_next fb_set_u64 (eb_group p), set_next fb_set_u64 (eb_membership p),
     set_next fb_set_u64 (eb_assignment p)]"

definition put_weighted_binding :: "WeightedPathBinding \<Rightarrow> u16 \<times> FieldBag \<Rightarrow> u16 \<times> FieldBag" where
  "put_weighted_binding p = set_all [set_next fb_set_u64 (wb_set p), set_next fb_set_u64 (wb_policy p),
     set_next fb_set_u64 (wb_assignment p)]"

definition put_adaptation_binding :: "AdaptationBinding \<Rightarrow> u16 \<times> FieldBag \<Rightarrow> u16 \<times> FieldBag" where
  "put_adaptation_binding p = set_all [set_next fb_set_u64 (ab_decision p), set_next fb_set_u64 (ab_generation p),
     set_next fb_set_u64 (ab_policy p), set_next fb_set_u64 (ab_evidence p),
     set_next fb_set_digest (ab_decision_digest p)]"

definition put_convergence_binding :: "ConvergenceBinding \<Rightarrow> u16 \<times> FieldBag \<Rightarrow> u16 \<times> FieldBag" where
  "put_convergence_binding p = set_all [set_next fb_set_u64 (cb_plan p), set_next fb_set_u64 (cb_generation p),
     set_next fb_set_u64 (cb_step p), set_next fb_set_digest (cb_completion_evidence p)]"

definition put_policy_binding :: "PolicyBinding \<Rightarrow> u16 \<times> FieldBag \<Rightarrow> u16 \<times> FieldBag" where
  "put_policy_binding p = set_next fb_set_u64 (ob_generation p)"

text \<open>The lambda \<^verbatim>\<open>mark\<close>: one bit per binding, in order.\<close>

fun mark_presence :: "bool list \<Rightarrow> u32 \<Rightarrow> u32 \<Rightarrow> u32" where
  "mark_presence [] flag presence = presence"
| "mark_presence (present # rest) flag presence =
     mark_presence rest (push_bit 1 flag) (if present then presence OR flag else presence)"

definition put_bindings :: "Bindings \<Rightarrow> u16 \<Rightarrow> FieldBag \<Rightarrow> FieldBag" where
  "put_bindings b base bag =
     (let presence = mark_presence [b_path b \<noteq> None, b_planner b \<noteq> None, b_ecmp b \<noteq> None, b_weighted b \<noteq> None,
            b_adaptation b \<noteq> None, b_convergence b \<noteq> None, b_policy b \<noteq> None] 1 0
      in snd (set_all
        [put_opt put_path_binding (b_path b), put_opt put_planner_binding (b_planner b),
         put_opt put_ecmp_binding (b_ecmp b), put_opt put_weighted_binding (b_weighted b),
         put_opt put_adaptation_binding (b_adaptation b), put_opt put_convergence_binding (b_convergence b),
         put_opt put_policy_binding (b_policy b)]
        (fid base 1, fb_set_u32 (fid base 0) presence bag)))"

definition take_path_binding :: "FieldBag \<Rightarrow> u16 \<Rightarrow> PathBinding \<times> u16" where
  "take_path_binding bag c =
     (let (path, c) = next_u64 bag c; (generation, c) = next_u64 bag c; (digest, c) = next_digest bag c
      in (\<lparr>pb_path = path, pb_generation = generation, pb_decision_digest = digest\<rparr>, c))"

definition take_planner_binding :: "FieldBag \<Rightarrow> u16 \<Rightarrow> PlannerBinding \<times> u16" where
  "take_planner_binding bag c =
     (let (request, c) = next_u64 bag c; (generation, c) = next_u64 bag c; (rank, c) = next_u32 bag c;
          (digest, c) = next_digest bag c; (path, c) = next_u64 bag c
      in (\<lparr>pl_request = request, pl_generation = generation, pl_candidate_rank = rank, pl_plan_digest = digest,
           pl_selected_path = path\<rparr>, c))"

definition take_ecmp_binding :: "FieldBag \<Rightarrow> u16 \<Rightarrow> EcmpBinding \<times> u16" where
  "take_ecmp_binding bag c =
     (let (group, c) = next_u64 bag c; (membership, c) = next_u64 bag c; (assignment, c) = next_u64 bag c
      in (\<lparr>eb_group = group, eb_membership = membership, eb_assignment = assignment\<rparr>, c))"

definition take_weighted_binding :: "FieldBag \<Rightarrow> u16 \<Rightarrow> WeightedPathBinding \<times> u16" where
  "take_weighted_binding bag c =
     (let (st, c) = next_u64 bag c; (policy, c) = next_u64 bag c; (assignment, c) = next_u64 bag c
      in (\<lparr>wb_set = st, wb_policy = policy, wb_assignment = assignment\<rparr>, c))"

definition take_adaptation_binding :: "FieldBag \<Rightarrow> u16 \<Rightarrow> AdaptationBinding \<times> u16" where
  "take_adaptation_binding bag c =
     (let (decision, c) = next_u64 bag c; (generation, c) = next_u64 bag c; (policy, c) = next_u64 bag c;
          (evidence, c) = next_u64 bag c; (digest, c) = next_digest bag c
      in (\<lparr>ab_decision = decision, ab_generation = generation, ab_policy = policy, ab_evidence = evidence,
           ab_decision_digest = digest\<rparr>, c))"

definition take_convergence_binding :: "FieldBag \<Rightarrow> u16 \<Rightarrow> ConvergenceBinding \<times> u16" where
  "take_convergence_binding bag c =
     (let (plan, c) = next_u64 bag c; (generation, c) = next_u64 bag c; (step, c) = next_u64 bag c;
          (digest, c) = next_digest bag c
      in (\<lparr>cb_plan = plan, cb_generation = generation, cb_step = step, cb_completion_evidence = digest\<rparr>, c))"

definition take_policy_binding :: "FieldBag \<Rightarrow> u16 \<Rightarrow> PolicyBinding \<times> u16" where
  "take_policy_binding bag c = (let (generation, c) = next_u64 bag c in (\<lparr>ob_generation = generation\<rparr>, c))"

definition take_bindings :: "FieldBag \<Rightarrow> u16 \<Rightarrow> Bindings Result" where
  "take_bindings bag base =
     (case fb_u32 bag (fid base 0) of
        None \<Rightarrow> r_failure O_MalformedRequest ''missing binding presence mask''
      | Some presence \<Rightarrow>
          if presence AND NOT 0x7F \<noteq> 0 then r_failure O_ProtocolFailure ''unknown binding presence bit''
          else
            let c = fid base 1;
                (path, c) = take_when (presence AND 0x01 \<noteq> 0) take_path_binding bag c;
                (planner, c) = take_when (presence AND 0x02 \<noteq> 0) take_planner_binding bag c;
                (ecmp, c) = take_when (presence AND 0x04 \<noteq> 0) take_ecmp_binding bag c;
                (weighted, c) = take_when (presence AND 0x08 \<noteq> 0) take_weighted_binding bag c;
                (adaptation, c) = take_when (presence AND 0x10 \<noteq> 0) take_adaptation_binding bag c;
                (convergence, c) = take_when (presence AND 0x20 \<noteq> 0) take_convergence_binding bag c;
                (policy, c) = take_when (presence AND 0x40 \<noteq> 0) take_policy_binding bag c
            in r_ok \<lparr>b_path = path, b_planner = planner, b_ecmp = ecmp, b_weighted = weighted,
                 b_adaptation = adaptation, b_convergence = convergence, b_policy = policy\<rparr>)"

section \<open>Derivations and keys\<close>

definition put_edge_spec :: "EdgeSpec \<Rightarrow> u16 \<times> FieldBag \<Rightarrow> u16 \<times> FieldBag" where
  "put_edge_spec spec = set_all
     [set_next fb_set_u16 (edge_type_code (sp_type spec)), set_next fb_set_u64 (sp_target spec),
      set_next fb_set_u16 (reason_code_code (sp_reason spec)), set_next fb_set_u16 (source_class_code (sp_source spec)),
      set_next fb_set_nested (put_evidence (sp_evidence spec) 1 fb_empty)]"

definition put_edges :: "EdgeSpec list \<Rightarrow> u16 \<Rightarrow> FieldBag \<Rightarrow> FieldBag" where
  "put_edges edges base bag =
     snd (set_all (map put_edge_spec edges)
       (fid base 1, fb_set_u32 base (of_nat (length edges)) bag))"

definition take_edge_spec :: "FieldBag \<Rightarrow> Limits \<Rightarrow> u16 \<Rightarrow> (EdgeSpec \<times> u16) Result" where
  "take_edge_spec bag limits c =
     (let (type, c) = get_next fb_u16 bag c; (target, c) = next_u64 bag c;
          (reason, c) = get_next fb_u16 bag c; (source, c) = get_next fb_u16 bag c
      in (case (type, reason, source) of
            (Some type, Some reason, Some source) \<Rightarrow>
              (case (edge_type_of type, reason_code_of reason, source_class_of source) of
                 (Some type, Some reason, Some source) \<Rightarrow>
                   (let (evidence, c) = get_next (\<lambda>bag field. take_evidence bag field limits) bag c
                    in r_then evidence (\<lambda>evidence.
                         r_ok (\<lparr>sp_type = type, sp_target = target, sp_reason = reason, sp_source = source,
                            sp_evidence = evidence\<rparr>, c)))
               | _ \<Rightarrow> r_failure O_ProtocolFailure ''unknown derivation enum value'')
          | _ \<Rightarrow> r_failure O_MalformedRequest ''malformed derivation edge''))"

fun take_edge_specs :: "nat \<Rightarrow> FieldBag \<Rightarrow> Limits \<Rightarrow> u16 \<Rightarrow> EdgeSpec list Result" where
  "take_edge_specs 0 bag limits c = r_ok []"
| "take_edge_specs (Suc n) bag limits c =
     r_then (take_edge_spec bag limits c) (\<lambda>(spec, c).
       r_then (take_edge_specs n bag limits c) (\<lambda>rest. r_ok (spec # rest)))"

definition take_edges :: "FieldBag \<Rightarrow> u16 \<Rightarrow> Limits \<Rightarrow> EdgeSpec list Result" where
  "take_edges bag base limits =
     (case fb_u32 bag base of
        None \<Rightarrow> r_failure O_MalformedRequest ''missing derivation count''
      | Some count \<Rightarrow>
          if unat count > max_batch_size limits then
            r_failure O_ResourceLimit ''derivation batch exceeds the bound''
          else take_edge_specs (unat count) bag limits (fid base 1))"

definition take_key :: "FieldBag \<Rightarrow> u16 \<Rightarrow> u16 \<Rightarrow> Limits \<Rightarrow> LineageKey Result" where
  "take_key bag route_field key_field limits =
     (let route = value_or (fb_u64 bag route_field) 0
      in (case fb_text bag key_field of
            None \<Rightarrow> r_failure O_MalformedRequest ''lineage key is missing''
          | Some txt \<Rightarrow>
              if length txt > max_semantic_key_bytes limits then
                r_failure O_ResourceLimit ''lineage key exceeds the bound''
              else r_ok \<lparr>lk_route = route, lk_semantic_key = txt\<rparr>))"

section \<open>Runs of fields\<close>

text \<open>A run of byte strings put from a cursor on, and what a bag holds from a cursor on.\<close>

fun put_run :: "u16 \<Rightarrow> byte list list \<Rightarrow> FieldBag \<Rightarrow> FieldBag" where
  "put_run c [] bag = bag"
| "put_run c (v # vs) bag = put_run (c + 1) vs (fb_set_bytes c v bag)"

fun holds_run :: "FieldBag \<Rightarrow> u16 \<Rightarrow> byte list list \<Rightarrow> bool" where
  "holds_run bag c [] \<longleftrightarrow> True"
| "holds_run bag c (v # vs) \<longleftrightarrow> fb_find bag c = Some v \<and> holds_run bag (c + 1) vs"

lemma put_run_append: "put_run c (vs @ ws) bag = put_run (c + of_nat (length vs)) ws (put_run c vs bag)"
  by (induction c vs bag rule: put_run.induct) (simp_all add: algebra_simps)

lemma holds_run_append:
  "holds_run bag c (vs @ ws) \<longleftrightarrow> holds_run bag c vs \<and> holds_run bag (c + of_nat (length vs)) ws"
  by (induction vs arbitrary: c) (simp_all add: algebra_simps)

lemma put_run_ok [simp]: "fb_ok bag \<Longrightarrow> fb_ok (put_run c vs bag)"
  by (induction c vs bag rule: put_run.induct) simp_all

lemma unat_Suc_u16: "unat c + 1 < 65536 \<Longrightarrow> unat (c + 1 :: u16) = unat c + 1"
  by (subst unat_add_lem [THEN iffD1]) simp_all

lemma fb_find_put_run:
  "unat c + length vs \<le> 65536 \<Longrightarrow> fb_find (put_run c vs bag) f =
     (if unat c \<le> unat f \<and> unat f < unat c + length vs then Some (vs ! (unat f - unat c)) else fb_find bag f)"
proof (induction c vs bag rule: put_run.induct)
  case (2 c v vs bag)
  show ?case
  proof (cases vs)
    case Nil
    then show ?thesis by (auto simp: word_unat_eq_iff)
  next
    case (Cons w ws)
    then have c: "unat (c + 1) = unat c + 1" using 2(2) by (intro unat_Suc_u16) simp
    then have "fb_find (put_run (c + 1) vs (fb_set_bytes c v bag)) f =
      (if unat c + 1 \<le> unat f \<and> unat f < unat c + 1 + length vs then Some (vs ! (unat f - (unat c + 1)))
       else fb_find (fb_set_bytes c v bag) f)"
      using 2 by simp
    moreover have "f = c \<longleftrightarrow> unat f = unat c" by (simp add: word_unat_eq_iff)
    ultimately show ?thesis by (auto simp: nth_Cons')
  qed
qed auto

lemma holds_put_run:
  "unat c + length vs \<le> 65536 \<Longrightarrow> holds_run (put_run c vs bag) c vs"
proof (induction c vs bag rule: put_run.induct)
  case (2 c v vs bag)
  show ?case
  proof (cases vs)
    case (Cons w ws)
    then have c: "unat (c + 1) = unat c + 1" using 2(2) by (intro unat_Suc_u16) simp
    then show ?thesis using 2 by (simp add: fb_find_put_run)
  qed simp
qed simp

lemma holds_run_other:
  "(\<And>f. unat c \<le> unat f \<Longrightarrow> unat f < unat c + length vs \<Longrightarrow> fb_find bag' f = fb_find bag f) \<Longrightarrow>
     unat c + length vs \<le> 65536 \<Longrightarrow> holds_run bag c vs \<Longrightarrow> holds_run bag' c vs"
proof (induction vs arbitrary: c)
  case (Cons v vs)
  show ?case
  proof (cases vs)
    case Nil
    then show ?thesis using Cons.prems(1) [of c] Cons.prems(3) by simp
  next
    case (Cons w ws)
    then have c: "unat (c + 1) = unat c + 1" using Cons.prems(2) by (intro unat_Suc_u16) simp
    then show ?thesis using Cons.IH [of "c + 1"] Cons.prems Cons.prems(1) [of c] by simp
  qed
qed simp

text \<open>Calls that put a run.\<close>

definition puts :: "(u16 \<times> FieldBag \<Rightarrow> u16 \<times> FieldBag) \<Rightarrow> byte list list \<Rightarrow> bool" where
  "puts call vs \<longleftrightarrow> (\<forall>c bag. call (c, bag) = (c + of_nat (length vs), put_run c vs bag))"

lemma puts_next [simp]:
  "puts (set_next fb_set_u16 v16) [store_le16 v16]" "puts (set_next fb_set_u32 v32) [store_le32 v32]"
  "puts (set_next fb_set_u64 v64) [store_le64 v64]" "puts (set_next fb_set_digest d) [digest_bytes d]"
  "puts (set_next fb_set_nested n) [fb_encoded n]"
  by (simp_all add: puts_def set_next_def fb_set_defs)

lemma puts_all: "list_all2 puts calls vss \<Longrightarrow> puts (set_all calls) (concat vss)"
proof (induction calls arbitrary: vss rule: rev_induct)
  case (snoc call calls)
  then obtain wss vs where "vss = wss @ [vs]" "list_all2 puts calls wss" "puts call vs"
    by (auto simp: list_all2_append1 list_all2_Cons1)
  then show ?case using snoc.IH [of wss] unfolding puts_def
    by (simp add: set_all_def put_run_append add.commute add.left_commute)
qed (simp add: puts_def set_all_def)

lemma next_reads:
  "fb_find bag c = Some (store_le64 v) \<Longrightarrow> next_u64 bag c = (v, c + 1)"
  "fb_find bag c = Some (store_le32 w) \<Longrightarrow> next_u32 bag c = (w, c + 1)"
  "fb_find bag c = Some (digest_bytes d) \<Longrightarrow> next_digest bag c = (d, c + 1)"
  by (simp_all add: next_u64_def next_u32_def next_digest_def get_next_def)

section \<open>The contract of a section\<close>

locale section_codec =
  fixes put :: "'a \<Rightarrow> u16 \<times> FieldBag \<Rightarrow> u16 \<times> FieldBag"
    and get :: "FieldBag \<Rightarrow> u16 \<Rightarrow> 'a \<times> u16"
    and content :: "'a \<Rightarrow> byte list list"
  assumes put_content: "puts (put v) (content v)"
    and get_content: "holds_run bag c (content v) \<Longrightarrow> get bag c = (v, c + of_nat (length (content v)))"
begin

definition opt_content :: "'a option \<Rightarrow> byte list list" where
  "opt_content v = (case v of Some x \<Rightarrow> content x | None \<Rightarrow> [])"

lemma put_opt_content: "puts (put_opt put v) (opt_content v)"
  using put_content by (cases v) (simp_all add: puts_def put_opt_def opt_content_def)

lemma take_when_content:
  "holds_run bag c (opt_content v) \<Longrightarrow>
     take_when (v \<noteq> None) get bag c = (v, c + of_nat (length (opt_content v)))"
  using get_content by (cases v) (simp_all add: take_when_def opt_content_def)

lemma put_then_get:
  assumes "unat c + length (content v) \<le> 65536"
  shows "get (snd (put v (c, bag))) c = (v, fst (put v (c, bag)))"
  using get_content [OF holds_put_run [OF assms]] put_content [of v] by (simp add: puts_def)

end

lemmas put_binding_defs = put_path_binding_def put_planner_binding_def put_ecmp_binding_def
  put_weighted_binding_def put_adaptation_binding_def put_convergence_binding_def put_policy_binding_def

lemmas take_binding_defs = take_path_binding_def take_planner_binding_def take_ecmp_binding_def
  take_weighted_binding_def take_adaptation_binding_def take_convergence_binding_def take_policy_binding_def

lemmas puts_eval = puts_def set_all_def set_next_def fb_set_defs algebra_simps

interpretation path_section: section_codec put_path_binding take_path_binding
  "\<lambda>p. [store_le64 (pb_path p), store_le64 (pb_generation p), digest_bytes (pb_decision_digest p)]"
  by unfold_locales (simp_all add: put_binding_defs take_binding_defs puts_eval next_reads)

interpretation planner_section: section_codec put_planner_binding take_planner_binding
  "\<lambda>p. [store_le64 (pl_request p), store_le64 (pl_generation p), store_le32 (pl_candidate_rank p),
     digest_bytes (pl_plan_digest p), store_le64 (pl_selected_path p)]"
  by unfold_locales (simp_all add: put_binding_defs take_binding_defs puts_eval next_reads)

interpretation ecmp_section: section_codec put_ecmp_binding take_ecmp_binding
  "\<lambda>p. [store_le64 (eb_group p), store_le64 (eb_membership p), store_le64 (eb_assignment p)]"
  by unfold_locales (simp_all add: put_binding_defs take_binding_defs puts_eval next_reads)

interpretation weighted_section: section_codec put_weighted_binding take_weighted_binding
  "\<lambda>p. [store_le64 (wb_set p), store_le64 (wb_policy p), store_le64 (wb_assignment p)]"
  by unfold_locales (simp_all add: put_binding_defs take_binding_defs puts_eval next_reads)

interpretation adaptation_section: section_codec put_adaptation_binding take_adaptation_binding
  "\<lambda>p. [store_le64 (ab_decision p), store_le64 (ab_generation p), store_le64 (ab_policy p),
     store_le64 (ab_evidence p), digest_bytes (ab_decision_digest p)]"
  by unfold_locales (simp_all add: put_binding_defs take_binding_defs puts_eval next_reads)

interpretation convergence_section: section_codec put_convergence_binding take_convergence_binding
  "\<lambda>p. [store_le64 (cb_plan p), store_le64 (cb_generation p), store_le64 (cb_step p),
     digest_bytes (cb_completion_evidence p)]"
  by unfold_locales (simp_all add: put_binding_defs take_binding_defs puts_eval next_reads)

interpretation policy_section: section_codec put_policy_binding take_policy_binding
  "\<lambda>p. [store_le64 (ob_generation p)]"
  by unfold_locales (simp_all add: put_binding_defs take_binding_defs puts_eval next_reads)

section \<open>Bindings survive\<close>

text \<open>The fields of a set of bindings after the presence mask.\<close>

definition bindings_content :: "Bindings \<Rightarrow> byte list list" where
  "bindings_content b = path_section.opt_content (b_path b) @ planner_section.opt_content (b_planner b)
     @ ecmp_section.opt_content (b_ecmp b) @ weighted_section.opt_content (b_weighted b)
     @ adaptation_section.opt_content (b_adaptation b) @ convergence_section.opt_content (b_convergence b)
     @ policy_section.opt_content (b_policy b)"

lemmas opt_content_defs = path_section.opt_content_def planner_section.opt_content_def
  ecmp_section.opt_content_def weighted_section.opt_content_def adaptation_section.opt_content_def
  convergence_section.opt_content_def policy_section.opt_content_def

lemma length_bindings_content: "length (bindings_content b) \<le> 24"
  by (simp add: bindings_content_def opt_content_defs split: option.split)

lemma mark_presence_flags: "mark_presence [p, q, r, s, t, u, v] 1 0 = presence_flags p q r s t u v"
  by (cases p; cases q; cases r; cases s; cases t; cases u; cases v)
     (simp_all add: presence_flags_def presence_bits)

lemma put_bindings_runs:
  "put_bindings b base bag
     = put_run (base + 1) (bindings_content b) (fb_set_u32 base (binding_presence b) bag)"
proof -
  have "puts (set_all
      [put_opt put_path_binding (b_path b), put_opt put_planner_binding (b_planner b),
       put_opt put_ecmp_binding (b_ecmp b), put_opt put_weighted_binding (b_weighted b),
       put_opt put_adaptation_binding (b_adaptation b), put_opt put_convergence_binding (b_convergence b),
       put_opt put_policy_binding (b_policy b)]) (concat
      [path_section.opt_content (b_path b), planner_section.opt_content (b_planner b),
       ecmp_section.opt_content (b_ecmp b), weighted_section.opt_content (b_weighted b),
       adaptation_section.opt_content (b_adaptation b), convergence_section.opt_content (b_convergence b),
       policy_section.opt_content (b_policy b)])"
    by (rule puts_all) (simp add: path_section.put_opt_content planner_section.put_opt_content
        ecmp_section.put_opt_content weighted_section.put_opt_content adaptation_section.put_opt_content
        convergence_section.put_opt_content policy_section.put_opt_content)
  then show ?thesis
    unfolding put_bindings_def mark_presence_flags binding_presence_def [symmetric]
    by (simp add: fid_def puts_def bindings_content_def)
qed

lemma take_bindings_content:
  assumes "fb_find bag base = Some (store_le32 (binding_presence b))"
    and "holds_run bag (base + 1) (bindings_content b)"
  shows "take_bindings bag base = r_ok b"
proof -
  have mask: "kBindingPresenceAll = 0x7F"
    by (simp add: kBindingPresenceAll_def presence_bits)
  note bits = presence_flags_simps [unfolded mask, unfolded presence_bits, simplified]
  show ?thesis
    using assms(2)
    by (cases b) (simp add: take_bindings_def fid_def binding_presence_def bits fb_read(2) [OF assms(1)]
        bindings_content_def holds_run_append path_section.take_when_content planner_section.take_when_content
        ecmp_section.take_when_content weighted_section.take_when_content
        adaptation_section.take_when_content convergence_section.take_when_content
        policy_section.take_when_content add.assoc del: not_None_eq)
qed

section \<open>Authority survives\<close>

definition authority_content :: "AuthorityContext \<Rightarrow> byte list list" where
  "authority_content a =
     [store_le64 (pi_publisher (ac_publisher a)), store_le64 (pi_boot (ac_publisher a)),
      store_le64 (pi_epoch (ac_publisher a)), store_le64 (ac_attempt a),
      store_le16 (scope_kind_code (scope_kind (ac_scope a))), store_le64 (scope_subject (ac_scope a)),
      store_le64 (opt_raw (ac_expected_lineage_generation a)),
      store_le64 (opt_raw (ac_expected_provenance_generation a))]"

lemma put_authority_run: "put_authority a base bag = put_run base (authority_content a) bag"
  by (simp add: put_authority_def bag_all_def fid_def authority_content_def fb_set_defs algebra_simps)

lemma identity_eta [simp]:
  "\<lparr>pi_publisher = pi_publisher p, pi_boot = pi_boot p, pi_epoch = pi_epoch p\<rparr> = (p :: PublisherIdentity)"
  by (cases p) simp

lemma take_authority_content:
  assumes "holds_run bag base (authority_content a)" and "authority_ok a"
  shows "take_authority bag base = r_ok a"
  using assms
  by (cases a) (simp add: take_authority_def authority_content_def fid_def authority_ok_def scope_of_raw_code
      authority_wf_def Let_def algebra_simps)

section \<open>Evidence survives\<close>

text \<open>What the wire accepts as evidence: a canonical vector of known fields within the bound.\<close>

definition evidence_wire_ok :: "Limits \<Rightarrow> EvidenceVector \<Rightarrow> bool" where
  "evidence_wire_ok limits ev \<longleftrightarrow> evidence_canonical ev \<and> ee_field ` set ev \<subseteq> set evidence_kAll
     \<and> length ev \<le> max_evidence_entries limits"

lemma bag_all_simps [simp]: "bag_all [] bag = bag" "bag_all (call # calls) bag = bag_all calls (call bag)"
  by (simp_all add: bag_all_def)

lemma fb_find_evidence:
  "distinct (map ee_field ev) \<Longrightarrow>
     fb_find (bag_all (map (\<lambda>e. fb_set_u64 (ee_field e) (ee_value e)) ev) bag) f
       = (case List.find (\<lambda>e. ee_field e = f) ev of Some e \<Rightarrow> Some (store_le64 (ee_value e)) | None \<Rightarrow> fb_find bag f)"
proof (induction ev arbitrary: bag)
  case (Cons e ev)
  have "List.find (\<lambda>e'. ee_field e' = ee_field e) ev = None"
    unfolding find_None_set using Cons.prems by simp (metis imageI)
  then show ?case using Cons by (auto simp: fb_set_defs split: option.split)
qed simp

lemma bag_all_ok: "fb_ok bag \<Longrightarrow> fb_ok (bag_all (map (\<lambda>e. fb_set_u64 (ee_field e) (ee_value e)) ev) bag)"
  by (induction ev arbitrary: bag) (simp_all add: fb_set_defs)

lemma evidence_bag_ok [simp]: "fb_ok (evidence_bag ev)"
  by (simp add: evidence_bag_def bag_all_ok)

lemma evidence_bag_find:
  assumes "evidence_canonical ev"
  shows "fb_u64 (evidence_bag ev) f = Some v \<longleftrightarrow> EvidenceEntry f v \<in> set ev"
    and "fb_has (evidence_bag ev) f \<longleftrightarrow> f \<in> ee_field ` set ev"
proof -
  have d: "distinct (map ee_field ev)"
    using assms by (auto simp: evidence_canonical_def dest: sorted_wrt_less_distinct)
  have i: "inj_on ee_field (set ev)" using d by (simp add: distinct_map)
  show "fb_has (evidence_bag ev) f \<longleftrightarrow> f \<in> ee_field ` set ev"
    by (auto simp: fb_has_def evidence_bag_def fb_find_evidence [OF d] find_None_set split: option.splits
        dest: find_SomeD)
  show "fb_u64 (evidence_bag ev) f = Some v \<longleftrightarrow> EvidenceEntry f v \<in> set ev"
  proof (cases "List.find (\<lambda>e. ee_field e = f) ev")
    case None
    then have "fb_find (evidence_bag ev) f = None"
      by (simp add: evidence_bag_def fb_find_evidence [OF d])
    then show ?thesis using None by (force simp: fb_u64_def fb_fixed_def find_None_set)
  next
    case (Some e)
    then have e: "e \<in> set ev" "ee_field e = f" by (auto dest: find_SomeD)
    have "fb_u64 (evidence_bag ev) f = Some (ee_value e)"
      using Some by (intro fb_read) (simp add: evidence_bag_def fb_find_evidence [OF d])
    moreover have "EvidenceEntry f v \<in> set ev \<longleftrightarrow> EvidenceEntry f v = e"
      using inj_onD [OF i, of "EvidenceEntry f v" e] e by auto
    ultimately show ?thesis using e by (cases e) auto
  qed
qed

lemma fb_field_ids_has: "f \<in> set (fb_field_ids bag) \<longleftrightarrow> fb_has bag f"
  by (simp add: fb_field_ids_def fb_has_def fb_find_def set_om_keys om_has_def)

lemma check_fields_ok:
  "st_is_ok (check_fields bag allowed required) \<longleftrightarrow>
     (\<forall>f. fb_has bag f \<longrightarrow> f \<in> set allowed) \<and> (\<forall>f \<in> set required. fb_has bag f)"
  by (auto simp: check_fields_def list_ex_iff fb_field_ids_has)

lemma evidence_kAll_distinct: "distinct evidence_kAll"
  by (simp add: evidence_kAll_def EF_TopologyGeneration_def EF_LinkStateGeneration_def EF_PortGeneration_def
      EF_CapabilityGeneration_def EF_FailureDomainGeneration_def EF_FabricEpoch_def
      EF_PathAuthorityGeneration_def EF_PlannerGeneration_def EF_AdaptivePolicyGeneration_def
      EF_ConvergencePlanGeneration_def EF_RouteGeneration_def EF_PublisherGeneration_def)

lemma map_filter_entries:
  "distinct ks \<Longrightarrow> distinct (List.map_filter (\<lambda>k. map_option (EvidenceEntry k) (g k)) ks)"
  "set (List.map_filter (\<lambda>k. map_option (EvidenceEntry k) (g k)) ks)
     = {EvidenceEntry k v | k v. k \<in> set ks \<and> g k = Some v}"
  by (induction ks) (auto simp: List.map_filter_def)

lemma fb_nested_value:
  assumes "fb_find bag field = Some (fb_encoded nested)" and "fb_ok nested"
    and "length (fb_encoded nested) \<le> max_frame_bytes limits" and "max_frame_bytes limits < 4294967296"
  shows "fb_nested bag field limits = Some nested"
  using assms fb_decode_encoded [OF assms(4,2,3)] by (simp add: fb_nested_def)

lemma take_evidence_content:
  assumes "fb_find bag field = Some (fb_encoded (evidence_bag ev))" and "evidence_wire_ok limits ev"
    and "length (fb_encoded (evidence_bag ev)) \<le> max_frame_bytes limits" and "max_frame_bytes limits < 4294967296"
  shows "r_value (take_evidence bag field limits) = Some ev"
proof -
  note ok = assms(2) [unfolded evidence_wire_ok_def]
  have nested: "fb_nested bag field limits = Some (evidence_bag ev)"
    using assms(1,3,4) by (simp add: fb_nested_value)
  let ?es = "List.map_filter (\<lambda>known. map_option (EvidenceEntry known) (fb_u64 (evidence_bag ev) known)) evidence_kAll"
  have "set ?es = {EvidenceEntry k v | k v. k \<in> set evidence_kAll \<and> EvidenceEntry k v \<in> set ev}"
    using ok by (simp add: map_filter_entries evidence_bag_find)
  also have "\<dots> = set ev"
    using ok by (auto simp: image_subset_iff) (metis EvidenceEntry.exhaust_sel)
  finally have es: "set ?es = set ev" .
  moreover have "distinct ?es" "distinct ev"
    using ok by (auto simp: map_filter_entries evidence_kAll_distinct evidence_canonical_def
        dest!: sorted_wrt_less_distinct simp: distinct_map)
  ultimately have "length ?es = length ev" by (metis distinct_card)
  moreover have "evidence_consistent ev"
    using ok by (auto simp: evidence_consistent_def evidence_canonical_def dest!: sorted_wrt_less_distinct
        simp: distinct_map)
  ultimately have "r_value (evidence_create ?es limits) = Some ev"
    using ok es by (auto simp: evidence_create_value evidence_consistent_def)
  moreover have "st_is_ok (check_fields (evidence_bag ev) evidence_kAll [])"
    using ok by (auto simp: check_fields_ok evidence_bag_find(2))
  ultimately show ?thesis
    using assms(1) nested by (simp add: take_evidence_def fb_has_def)
qed

text \<open>
  The evidence of a derivation is nested once more than \<^verbatim>\<open>take_edges\<close> expects: \<^verbatim>\<open>put_edges\<close> wraps the bag
  \<^verbatim>\<open>put_evidence\<close> has already nested. The reader finds one field of the wrong size where it looks for the
  topology generation, and takes the evidence for empty.
\<close>

lemma length_evidence_bag:
  assumes "evidence_canonical ev"
  shows "length (fb_encoded (evidence_bag ev)) \<noteq> 8"
proof -
  have 6: "length (fields_bytes fs) = (\<Sum>f\<leftarrow>fs. 6 + length (snd f))" for fs by (induction fs) simp_all
  have "length v = 8" if "fb_find (evidence_bag ev) f = Some v" for f v
    using that assms by (auto simp: evidence_bag_def fb_find_evidence evidence_canonical_def
        dest!: sorted_wrt_less_distinct split: option.splits)
  then have "length (snd f) = 8" if "f \<in> set (om_entries (fb_fields (evidence_bag ev)))" for f
    using that by (cases f) (simp add: in_entries_iff fb_find_def)
  then have "length (fb_encoded (evidence_bag ev)) = (\<Sum>f\<leftarrow>om_entries (fb_fields (evidence_bag ev)). 14)"
    using evidence_bag_ok [of ev] by (auto simp: fb_ok_def 6 intro!: arg_cong [where f = sum_list] map_cong)
  then have "14 dvd length (fb_encoded (evidence_bag ev))" by (simp add: sum_list_triv)
  then show ?thesis by auto
qed

lemma take_edge_evidence:
  assumes "fb_find bag field = Some (fb_encoded (put_evidence ev 1 fb_empty))" and "evidence_canonical ev"
    and "length (fb_encoded (put_evidence ev 1 fb_empty)) \<le> max_frame_bytes limits"
    and "max_frame_bytes limits < 4294967296"
  shows "take_evidence bag field limits = r_ok []"
proof -
  let ?n = "put_evidence ev 1 fb_empty"
  have n: "fb_ok ?n" and f: "fb_find ?n = [1 \<mapsto> fb_encoded (evidence_bag ev)]"
    by (simp_all add: put_evidence_def fb_set_defs fun_eq_iff)
  have "fb_nested bag field limits = Some ?n" using assms n by (simp add: fb_nested_value)
  moreover have "fb_u64 ?n k = None" for k
    using length_evidence_bag [OF assms(2)] by (simp add: fb_u64_def fb_fixed_def f)
  moreover have "st_is_ok (check_fields ?n evidence_kAll [])"
    by (simp add: check_fields_ok fb_has_def f evidence_kAll_def EF_TopologyGeneration_def)
  ultimately show ?thesis
    using assms(1) by (simp add: take_evidence_def fb_has_def evidence_create_def List.map_filter_def)
qed

section \<open>Derivations survive, without their evidence\<close>

definition edge_content :: "EdgeSpec \<Rightarrow> byte list list" where
  "edge_content spec =
     [store_le16 (edge_type_code (sp_type spec)), store_le64 (sp_target spec),
      store_le16 (reason_code_code (sp_reason spec)), store_le16 (source_class_code (sp_source spec)),
      fb_encoded (put_evidence (sp_evidence spec) 1 fb_empty)]"

definition edges_content :: "EdgeSpec list \<Rightarrow> byte list list" where
  "edges_content specs = concat (map edge_content specs)"

lemma length_edges_content: "length (edges_content specs) = 5 * length specs"
  by (induction specs) (simp_all add: edges_content_def edge_content_def)

lemma put_edge_spec_puts: "puts (put_edge_spec spec) (edge_content spec)"
  by (simp add: put_edge_spec_def edge_content_def puts_eval)

lemma put_edges_runs:
  "put_edges specs base bag
     = put_run (base + 1) (edges_content specs) (fb_set_u32 base (of_nat (length specs)) bag)"
proof -
  have "puts (set_all (map put_edge_spec specs)) (edges_content specs)"
    unfolding edges_content_def
    by (rule puts_all) (simp add: list_all2_conv_all_nth put_edge_spec_puts)
  then show ?thesis by (simp add: put_edges_def fid_def puts_def)
qed

text \<open>A derivation as the receiver sees it.\<close>

definition edge_received :: "EdgeSpec \<Rightarrow> EdgeSpec" where
  "edge_received spec = spec\<lparr>sp_evidence := []\<rparr>"

definition edge_wire_ok :: "Limits \<Rightarrow> EdgeSpec \<Rightarrow> bool" where
  "edge_wire_ok limits spec \<longleftrightarrow> evidence_canonical (sp_evidence spec)
     \<and> length (fb_encoded (put_evidence (sp_evidence spec) 1 fb_empty)) \<le> max_frame_bytes limits"

lemma take_edge_spec_content:
  assumes "holds_run bag c (edge_content spec)" and "edge_wire_ok limits spec" and "max_frame_bytes limits < 4294967296"
  shows "take_edge_spec bag limits c = r_ok (edge_received spec, c + 5)"
proof -
  have e: "take_evidence bag (c + 4) limits = r_ok []"
    using assms by (intro take_edge_evidence) (auto simp: edge_content_def edge_wire_ok_def algebra_simps)
  show ?thesis
    using assms(1)
    by (cases spec) (simp add: take_edge_spec_def get_next_def next_reads edge_content_def edge_received_def e
        algebra_simps)
qed

lemma take_edge_specs_content:
  "holds_run bag c (edges_content specs) \<Longrightarrow> list_all (edge_wire_ok limits) specs \<Longrightarrow>
     max_frame_bytes limits < 4294967296 \<Longrightarrow>
     take_edge_specs (length specs) bag limits c = r_ok (map edge_received specs)"
proof (induction specs arbitrary: c)
  case (Cons spec specs)
  have "length (edge_content spec) = 5" by (simp add: edge_content_def)
  then show ?case
    using Cons take_edge_spec_content [of bag c spec limits]
    by (simp add: edges_content_def holds_run_append algebra_simps)
qed simp

lemma take_edges_content:
  assumes "fb_find bag base = Some (store_le32 (of_nat (length specs)))"
    and "holds_run bag (base + 1) (edges_content specs)" and "list_all (edge_wire_ok limits) specs"
    and "length specs \<le> max_batch_size limits" and "length specs < 4294967296"
    and "max_frame_bytes limits < 4294967296"
  shows "take_edges bag base limits = r_ok (map edge_received specs)"
  using assms by (simp add: take_edges_def fid_def unat_of_nat_u32 fb_read(2) [OF assms(1)]
      take_edge_specs_content)

lemma take_key_content:
  "fb_find bag route = Some (store_le64 (lk_route key)) \<Longrightarrow>
   fb_find bag text_field = Some (string_bytes (lk_semantic_key key)) \<Longrightarrow>
   length (lk_semantic_key key) \<le> max_semantic_key_bytes limits \<Longrightarrow>
     take_key bag route text_field limits = r_ok key"
  by (cases key) (simp add: take_key_def)

end
