(* ===== verification/Wire.thy ===== *)
theory Wire
  imports Wire_Sections
begin

text \<open>
  The request payloads of the wire protocol: the structures of \<^verbatim>\<open>wire.hpp\<close> and their codecs in
  \<^verbatim>\<open>src/wire.cpp\<close>. An encoder fills a field bag and bounds its size; a decoder parses the bag, checks the
  field identifiers, and takes the members in the order of the source, returning the first failure.
\<close>

section \<open>Payload structures\<close>

record RegistrationPayload =
  rg_role :: u16
  rg_identity :: PublisherIdentity
  rg_scope :: AuthorityScope
  rg_protocol_version :: u16

record HelloAckPayload =
  ha_epoch :: CoordinatorEpoch
  ha_accepted :: bool
  ha_max_frame_bytes :: nat
  ha_protocol_version :: u16
  ha_detail :: string

record PublicationPayload =
  pp_key :: LineageKey
  pp_route_generation :: RouteGeneration
  pp_route_state_digest :: Digest
  pp_reason :: ReasonCode
  pp_source :: SourceClass
  pp_root_reason :: "RootReason option"
  pp_evidence :: EvidenceVector
  pp_authority :: AuthorityContext
  pp_bindings :: Bindings
  pp_edges :: "EdgeSpec list"

record AdministrativePayload =
  ap_key :: LineageKey
  ap_target :: ProvenanceNodeId
  ap_reason :: ReasonCode
  ap_source :: SourceClass
  ap_evidence :: EvidenceVector
  ap_authority :: AuthorityContext
  ap_bindings :: Bindings
  ap_completion_evidence :: Digest
  ap_allow_non_current_target :: bool

record CorrectionPayload =
  xp_key :: LineageKey
  xp_target :: ProvenanceNodeId
  xp_route_state_digest :: Digest
  xp_source :: SourceClass
  xp_evidence :: EvidenceVector
  xp_authority :: AuthorityContext
  xp_bindings :: Bindings

record DeclarationPayload =
  dp_key :: LineageKey
  dp_kind :: NodeKind
  dp_route :: RouteId
  dp_route_generation :: RouteGeneration
  dp_reason :: ReasonCode
  dp_source :: SourceClass
  dp_evidence :: EvidenceVector
  dp_authority :: AuthorityContext
  dp_bindings :: Bindings

record LinkPayload =
  lp_key :: LineageKey
  lp_type :: EdgeType
  lp_from :: ProvenanceNodeId
  lp_to :: ProvenanceNodeId
  lp_reason :: ReasonCode
  lp_source :: SourceClass
  lp_evidence :: EvidenceVector
  lp_authority :: AuthorityContext

record DependencyPayload =
  yp_notification :: DependencyNotification

record FencePayload =
  fp_publisher :: PublisherId
  fp_boot :: WorkerBootId
  fp_authority :: AuthorityContext

record QueryPayload =
  qp_lineage :: RouteLineageId
  qp_node :: ProvenanceNodeId
  qp_direction :: TraversalDirection
  qp_bounds :: TraversalBounds
  qp_mode :: ExplainMode

record ResponsePayload =
  rp_outcome :: Outcome
  rp_detail :: string
  rp_body :: FieldBag

section \<open>Encoding\<close>

definition encode_bag :: "FieldBag \<Rightarrow> Limits \<Rightarrow> Status + byte list" where
  "encode_bag bag limits =
     (if length (fb_encoded bag) > max_frame_bytes limits then
        Inl (st_failure O_ResourceLimit ''payload exceeds max_frame_bytes'')
      else Inr (fb_encoded bag))"

definition registration_bag :: "RegistrationPayload \<Rightarrow> FieldBag" where
  "registration_bag p = bag_all
     [fb_set_u16 1 (rg_role p), fb_set_u64 2 (pi_publisher (rg_identity p)),
      fb_set_u64 3 (pi_boot (rg_identity p)), fb_set_u64 4 (pi_epoch (rg_identity p)),
      fb_set_u16 5 (scope_kind_code (scope_kind (rg_scope p))), fb_set_u64 6 (scope_subject (rg_scope p)),
      fb_set_u16 7 (rg_protocol_version p)] fb_empty"

definition encode_registration :: "RegistrationPayload \<Rightarrow> Limits \<Rightarrow> Status + byte list" where
  "encode_registration p limits = encode_bag (registration_bag p) limits"

definition hello_ack_bag :: "HelloAckPayload \<Rightarrow> FieldBag" where
  "hello_ack_bag p = bag_all
     [fb_set_u64 1 (ha_epoch p), fb_set_bool 2 (ha_accepted p), fb_set_u32 3 (of_nat (ha_max_frame_bytes p)),
      fb_set_u16 4 (ha_protocol_version p), fb_set_text 5 (ha_detail p)] fb_empty"

definition encode_hello_ack :: "HelloAckPayload \<Rightarrow> Limits \<Rightarrow> Status + byte list" where
  "encode_hello_ack p limits = encode_bag (hello_ack_bag p) limits"

definition publication_bag :: "PublicationPayload \<Rightarrow> FieldBag" where
  "publication_bag p = bag_all
     [fb_set_u64 1 (lk_route (pp_key p)), fb_set_text 2 (lk_semantic_key (pp_key p)),
      fb_set_u64 3 (pp_route_generation p), fb_set_digest 4 (pp_route_state_digest p),
      fb_set_u16 5 (reason_code_code (pp_reason p)), fb_set_u16 6 (source_class_code (pp_source p)),
      fb_set_u16 7 (case pp_root_reason p of Some r \<Rightarrow> root_reason_code r | None \<Rightarrow> 0),
      put_authority (pp_authority p) kAuthorityBase, put_evidence (pp_evidence p) kEvidenceField,
      put_bindings (pp_bindings p) kBindingsBase, put_edges (pp_edges p) kEdgesBase] fb_empty"

definition encode_publication :: "PublicationPayload \<Rightarrow> Limits \<Rightarrow> Status + byte list" where
  "encode_publication p limits = encode_bag (publication_bag p) limits"

definition administrative_bag :: "AdministrativePayload \<Rightarrow> FieldBag" where
  "administrative_bag p = bag_all
     [fb_set_u64 1 (lk_route (ap_key p)), fb_set_text 2 (lk_semantic_key (ap_key p)),
      fb_set_u64 3 (ap_target p), fb_set_u16 4 (reason_code_code (ap_reason p)),
      fb_set_u16 5 (source_class_code (ap_source p)), fb_set_digest 6 (ap_completion_evidence p),
      fb_set_bool 7 (ap_allow_non_current_target p),
      put_authority (ap_authority p) kAuthorityBase, put_evidence (ap_evidence p) kEvidenceField,
      put_bindings (ap_bindings p) kBindingsBase] fb_empty"

definition encode_administrative :: "AdministrativePayload \<Rightarrow> Limits \<Rightarrow> Status + byte list" where
  "encode_administrative p limits = encode_bag (administrative_bag p) limits"

definition correction_bag :: "CorrectionPayload \<Rightarrow> FieldBag" where
  "correction_bag p = bag_all
     [fb_set_u64 1 (lk_route (xp_key p)), fb_set_text 2 (lk_semantic_key (xp_key p)),
      fb_set_u64 3 (xp_target p), fb_set_digest 4 (xp_route_state_digest p),
      fb_set_u16 5 (source_class_code (xp_source p)),
      put_authority (xp_authority p) kAuthorityBase, put_evidence (xp_evidence p) kEvidenceField,
      put_bindings (xp_bindings p) kBindingsBase] fb_empty"

definition encode_correction :: "CorrectionPayload \<Rightarrow> Limits \<Rightarrow> Status + byte list" where
  "encode_correction p limits = encode_bag (correction_bag p) limits"

definition declaration_bag :: "DeclarationPayload \<Rightarrow> FieldBag" where
  "declaration_bag p = bag_all
     [fb_set_u64 1 (lk_route (dp_key p)), fb_set_text 2 (lk_semantic_key (dp_key p)),
      fb_set_u16 3 (node_kind_code (dp_kind p)), fb_set_u64 4 (dp_route p),
      fb_set_u64 5 (dp_route_generation p), fb_set_u16 6 (reason_code_code (dp_reason p)),
      fb_set_u16 7 (source_class_code (dp_source p)),
      put_authority (dp_authority p) kAuthorityBase, put_evidence (dp_evidence p) kEvidenceField,
      put_bindings (dp_bindings p) kBindingsBase] fb_empty"

definition encode_declaration :: "DeclarationPayload \<Rightarrow> Limits \<Rightarrow> Status + byte list" where
  "encode_declaration p limits = encode_bag (declaration_bag p) limits"

definition link_bag :: "LinkPayload \<Rightarrow> FieldBag" where
  "link_bag p = bag_all
     [fb_set_u64 1 (lk_route (lp_key p)), fb_set_text 2 (lk_semantic_key (lp_key p)),
      fb_set_u16 3 (edge_type_code (lp_type p)), fb_set_u64 4 (lp_from p), fb_set_u64 5 (lp_to p),
      fb_set_u16 6 (reason_code_code (lp_reason p)), fb_set_u16 7 (source_class_code (lp_source p)),
      put_authority (lp_authority p) kAuthorityBase, put_evidence (lp_evidence p) kEvidenceField] fb_empty"

definition encode_link :: "LinkPayload \<Rightarrow> Limits \<Rightarrow> Status + byte list" where
  "encode_link p limits = encode_bag (link_bag p) limits"

definition dependency_bag :: "DependencyPayload \<Rightarrow> FieldBag" where
  "dependency_bag p =
     (let n = yp_notification p
      in bag_all
       [fb_set_u16 1 (dependency_kind_code (dn_kind n)), fb_set_u64 2 (dn_path_authority_generation n),
        fb_set_u64 3 (dn_policy_generation n), fb_set_u64 4 (dn_evidence_generation n),
        fb_set_u64 5 (dn_plan_generation n), fb_set_u64 6 (dn_epoch n), fb_set_u64 7 (dn_publisher n),
        fb_set_u64 8 (dn_boot n), put_authority (dn_authority n) 100] fb_empty)"

definition encode_dependency :: "DependencyPayload \<Rightarrow> Limits \<Rightarrow> Status + byte list" where
  "encode_dependency p limits = encode_bag (dependency_bag p) limits"

definition fence_bag :: "FencePayload \<Rightarrow> FieldBag" where
  "fence_bag p = bag_all [fb_set_u64 1 (fp_publisher p), fb_set_u64 2 (fp_boot p),
     put_authority (fp_authority p) 100] fb_empty"

definition encode_fence :: "FencePayload \<Rightarrow> Limits \<Rightarrow> Status + byte list" where
  "encode_fence p limits = encode_bag (fence_bag p) limits"

fun direction_code :: "TraversalDirection \<Rightarrow> u16" where
  "direction_code TD_Outgoing = 0"
| "direction_code TD_Incoming = 1"

definition query_bag :: "QueryPayload \<Rightarrow> FieldBag" where
  "query_bag p = bag_all
     [fb_set_u64 1 (qp_lineage p), fb_set_u64 2 (qp_node p), fb_set_u16 3 (direction_code (qp_direction p)),
      fb_set_u32 4 (of_nat (tb_max_depth (qp_bounds p))), fb_set_u32 5 (of_nat (tb_max_results (qp_bounds p))),
      fb_set_u32 6 (of_nat (tb_max_visited (qp_bounds p))), fb_set_u16 7 (explain_mode_code (qp_mode p))] fb_empty"

definition encode_query :: "QueryPayload \<Rightarrow> Limits \<Rightarrow> Status + byte list" where
  "encode_query p limits = encode_bag (query_bag p) limits"

definition response_bag :: "ResponsePayload \<Rightarrow> FieldBag" where
  "response_bag p = bag_all [fb_set_u16 1 (outcome_code (rp_outcome p)), fb_set_text 2 (rp_detail p),
     fb_set_nested 3 (rp_body p)] fb_empty"

definition encode_response :: "ResponsePayload \<Rightarrow> Limits \<Rightarrow> Status + byte list" where
  "encode_response p limits = encode_bag (response_bag p) limits"

section \<open>Decoding\<close>

text \<open>\<^verbatim>\<open>decode_bag\<close> and the field checks every decoder starts with.\<close>

definition checked_bag :: "byte list \<Rightarrow> u16 list \<Rightarrow> u16 list \<Rightarrow> Limits \<Rightarrow> (FieldBag \<Rightarrow> 'a Result) \<Rightarrow> 'a Result" where
  "checked_bag payload allowed required limits k =
     r_then (fb_decode payload limits) (\<lambda>bag. r_guard (check_fields bag allowed required) (k bag))"

definition decode_registration :: "byte list \<Rightarrow> Limits \<Rightarrow> RegistrationPayload Result" where
  "decode_registration payload limits =
     checked_bag payload [1, 2, 3, 4, 5, 6, 7] [1, 2, 3, 4, 5, 7] limits (\<lambda>bag.
       let role = value_or (fb_u16 bag 1) 0;
           identity = \<lparr>pi_publisher = value_or (fb_u64 bag 2) 0, pi_boot = value_or (fb_u64 bag 3) 0,
             pi_epoch = value_or (fb_u64 bag 4) 0\<rparr>;
           scope_kind = value_or (fb_u16 bag 5) 0xFFFF; subject = value_or (fb_u64 bag 6) 0
       in (case scope_of_raw scope_kind subject of
             None \<Rightarrow> r_failure O_ProtocolFailure ''unknown authority scope kind''
           | Some scope \<Rightarrow> r_ok \<lparr>rg_role = role, rg_identity = identity, rg_scope = scope,
               rg_protocol_version = value_or (fb_u16 bag 7) 0\<rparr>))"

definition decode_hello_ack :: "byte list \<Rightarrow> Limits \<Rightarrow> HelloAckPayload Result" where
  "decode_hello_ack payload limits =
     checked_bag payload [1, 2, 3, 4, 5] [1, 2, 3, 4] limits (\<lambda>bag.
       r_ok \<lparr>ha_epoch = value_or (fb_u64 bag 1) 0, ha_accepted = value_or (fb_boolean bag 2) False,
         ha_max_frame_bytes = unat (value_or (fb_u32 bag 3) 0),
         ha_protocol_version = value_or (fb_u16 bag 4) 0, ha_detail = value_or (fb_text bag 5) []\<rparr>)"

text \<open>The members of a publication after its key.\<close>

definition publication_members :: "FieldBag \<Rightarrow> Limits \<Rightarrow> LineageKey \<Rightarrow> PublicationPayload Result" where
  "publication_members bag limits key =
     (case (reason_code_of (value_or (fb_u16 bag 5) 0xFFFF), source_class_of (value_or (fb_u16 bag 6) 0xFFFF)) of
        (Some reason, Some source) \<Rightarrow>
          (case root_reason_of_raw (value_or (fb_u16 bag 7) 0) of
             None \<Rightarrow> r_failure O_ProtocolFailure ''unknown root reason''
           | Some root \<Rightarrow>
               r_then (take_authority bag kAuthorityBase) (\<lambda>authority.
               r_then (take_evidence bag kEvidenceField limits) (\<lambda>evidence.
               r_then (take_bindings bag kBindingsBase) (\<lambda>bindings.
               r_then (take_edges bag kEdgesBase limits) (\<lambda>edges.
                 r_ok \<lparr>pp_key = key, pp_route_generation = value_or (fb_u64 bag 3) 0,
                   pp_route_state_digest = value_or (fb_digest bag 4) zero_digest,
                   pp_reason = reason, pp_source = source, pp_root_reason = root, pp_evidence = evidence,
                   pp_authority = authority, pp_bindings = bindings, pp_edges = edges\<rparr>)))))
      | _ \<Rightarrow> r_failure O_ProtocolFailure ''unknown publication enum value'')"

definition decode_publication :: "byte list \<Rightarrow> Limits \<Rightarrow> PublicationPayload Result" where
  "decode_publication payload limits =
     checked_bag payload (standard_ranges limits) [1, 2, 3, 4, 5, 6] limits (\<lambda>bag.
       if value_or (fb_u64 bag 1) 0 = 0 \<or> \<not> fb_has bag 2 \<or> value_or (fb_u64 bag 3) 0 = 0 then
         r_failure O_MalformedRequest ''publication payload is missing core identity fields''
       else r_then (take_key bag 1 2 limits) (publication_members bag limits))"

definition decode_administrative :: "byte list \<Rightarrow> Limits \<Rightarrow> AdministrativePayload Result" where
  "decode_administrative payload limits =
     checked_bag payload (standard_ranges limits) [1, 2, 3, 4, 5] limits (\<lambda>bag.
       r_then (take_key bag 1 2 limits) (\<lambda>key.
         case (reason_code_of (value_or (fb_u16 bag 4) 0xFFFF), source_class_of (value_or (fb_u16 bag 5) 0xFFFF)) of
           (Some reason, Some source) \<Rightarrow>
             r_then (take_authority bag kAuthorityBase) (\<lambda>authority.
             r_then (take_evidence bag kEvidenceField limits) (\<lambda>evidence.
             r_then (take_bindings bag kBindingsBase) (\<lambda>bindings.
               r_ok \<lparr>ap_key = key, ap_target = value_or (fb_u64 bag 3) 0, ap_reason = reason, ap_source = source,
                 ap_evidence = evidence, ap_authority = authority, ap_bindings = bindings,
                 ap_completion_evidence = value_or (fb_digest bag 6) zero_digest,
                 ap_allow_non_current_target = value_or (fb_boolean bag 7) False\<rparr>)))
         | _ \<Rightarrow> r_failure O_ProtocolFailure ''unknown administrative enum value''))"

definition decode_correction :: "byte list \<Rightarrow> Limits \<Rightarrow> CorrectionPayload Result" where
  "decode_correction payload limits =
     checked_bag payload (field_ranges [(1, 5), (8, 15), (16, 16), (20, 44)]) [1, 2, 3, 5] limits (\<lambda>bag.
       r_then (take_key bag 1 2 limits) (\<lambda>key.
         case source_class_of (value_or (fb_u16 bag 5) 0xFFFF) of
           None \<Rightarrow> r_failure O_ProtocolFailure ''unknown correction source''
         | Some source \<Rightarrow>
             r_then (take_authority bag kAuthorityBase) (\<lambda>authority.
             r_then (take_evidence bag kEvidenceField limits) (\<lambda>evidence.
             r_then (take_bindings bag kBindingsBase) (\<lambda>bindings.
               r_ok \<lparr>xp_key = key, xp_target = value_or (fb_u64 bag 3) 0,
                 xp_route_state_digest = value_or (fb_digest bag 4) zero_digest, xp_source = source,
                 xp_evidence = evidence, xp_authority = authority, xp_bindings = bindings\<rparr>)))))"

definition decode_declaration :: "byte list \<Rightarrow> Limits \<Rightarrow> DeclarationPayload Result" where
  "decode_declaration payload limits =
     checked_bag payload (standard_ranges limits) [1, 2, 3, 6, 7] limits (\<lambda>bag.
       r_then (take_key bag 1 2 limits) (\<lambda>key.
         case (node_kind_of (value_or (fb_u16 bag 3) 0xFFFF), reason_code_of (value_or (fb_u16 bag 6) 0xFFFF),
               source_class_of (value_or (fb_u16 bag 7) 0xFFFF)) of
           (Some kind, Some reason, Some source) \<Rightarrow>
             r_then (take_authority bag kAuthorityBase) (\<lambda>authority.
             r_then (take_evidence bag kEvidenceField limits) (\<lambda>evidence.
             r_then (take_bindings bag kBindingsBase) (\<lambda>bindings.
               r_ok \<lparr>dp_key = key, dp_kind = kind, dp_route = value_or (fb_u64 bag 4) 0,
                 dp_route_generation = value_or (fb_u64 bag 5) 0, dp_reason = reason, dp_source = source,
                 dp_evidence = evidence, dp_authority = authority, dp_bindings = bindings\<rparr>)))
         | _ \<Rightarrow> r_failure O_ProtocolFailure ''unknown declaration enum value''))"

definition decode_link :: "byte list \<Rightarrow> Limits \<Rightarrow> LinkPayload Result" where
  "decode_link payload limits =
     checked_bag payload (field_ranges [(1, 7), (8, 15), (16, 16)]) [1, 2, 3, 4, 5, 6, 7] limits (\<lambda>bag.
       r_then (take_key bag 1 2 limits) (\<lambda>key.
         case (edge_type_of (value_or (fb_u16 bag 3) 0xFFFF), reason_code_of (value_or (fb_u16 bag 6) 0xFFFF),
               source_class_of (value_or (fb_u16 bag 7) 0xFFFF)) of
           (Some type, Some reason, Some source) \<Rightarrow>
             r_then (take_authority bag kAuthorityBase) (\<lambda>authority.
             r_then (take_evidence bag kEvidenceField limits) (\<lambda>evidence.
               r_ok \<lparr>lp_key = key, lp_type = type, lp_from = value_or (fb_u64 bag 4) 0,
                 lp_to = value_or (fb_u64 bag 5) 0, lp_reason = reason, lp_source = source,
                 lp_evidence = evidence, lp_authority = authority\<rparr>))
         | _ \<Rightarrow> r_failure O_ProtocolFailure ''unknown link enum value''))"

definition decode_dependency :: "byte list \<Rightarrow> Limits \<Rightarrow> DependencyPayload Result" where
  "decode_dependency payload limits =
     checked_bag payload (field_ranges [(1, 8), (100, 107)]) [1, 6, 7, 8, 100] limits (\<lambda>bag.
       case parse_dependency_kind (value_or (fb_u16 bag 1) 0xFFFF) of
         None \<Rightarrow> r_failure O_ProtocolFailure ''unknown dependency kind''
       | Some kind \<Rightarrow>
           r_then (take_authority bag 100) (\<lambda>authority.
             r_ok \<lparr>yp_notification = \<lparr>dn_kind = kind,
               dn_path_authority_generation = value_or (fb_u64 bag 2) 0,
               dn_policy_generation = value_or (fb_u64 bag 3) 0,
               dn_evidence_generation = value_or (fb_u64 bag 4) 0,
               dn_plan_generation = value_or (fb_u64 bag 5) 0, dn_epoch = value_or (fb_u64 bag 6) 0,
               dn_publisher = value_or (fb_u64 bag 7) 0, dn_boot = value_or (fb_u64 bag 8) 0,
               dn_authority = authority\<rparr>\<rparr>))"

definition decode_fence :: "byte list \<Rightarrow> Limits \<Rightarrow> FencePayload Result" where
  "decode_fence payload limits =
     checked_bag payload (field_ranges [(1, 2), (100, 107)]) [1, 2, 100] limits (\<lambda>bag.
       r_then (take_authority bag 100) (\<lambda>authority.
         r_ok \<lparr>fp_publisher = value_or (fb_u64 bag 1) 0, fp_boot = value_or (fb_u64 bag 2) 0,
           fp_authority = authority\<rparr>))"

text \<open>\<^verbatim>\<open>parse_explain_mode(to_string(static_cast<ExplainMode>(raw)))\<close>, and the same for an outcome.\<close>

definition explain_mode_of :: "u16 \<Rightarrow> ExplainMode option" where
  "explain_mode_of raw = parse_explain_mode
     (case lookup_code explain_mode_code kExplainModes raw of Some m \<Rightarrow> explain_mode_name m | None \<Rightarrow> ''UNKNOWN'')"

definition response_outcome_of :: "u16 \<Rightarrow> Outcome option" where
  "response_outcome_of raw = parse_outcome
     (case lookup_code outcome_code kOutcomes raw of Some out \<Rightarrow> outcome_name out | None \<Rightarrow> ''UNKNOWN'')"

definition decode_query :: "byte list \<Rightarrow> Limits \<Rightarrow> QueryPayload Result" where
  "decode_query payload limits =
     checked_bag payload (field_ranges [(1, 7)]) [] limits (\<lambda>bag.
       let direction = value_or (fb_u16 bag 3) 0
       in if direction > 1 then r_failure O_ProtocolFailure ''unknown traversal direction''
          else (case explain_mode_of (value_or (fb_u16 bag 7) 0xFFFF) of
            None \<Rightarrow> r_failure O_ProtocolFailure ''unknown explanation mode''
          | Some mode \<Rightarrow>
              r_ok \<lparr>qp_lineage = value_or (fb_u64 bag 1) 0, qp_node = value_or (fb_u64 bag 2) 0,
                qp_direction = (if direction = 0 then TD_Outgoing else TD_Incoming),
                qp_bounds = \<lparr>tb_max_depth = unat (value_or (fb_u32 bag 4) 0),
                  tb_max_results = unat (value_or (fb_u32 bag 5) 0),
                  tb_max_visited = unat (value_or (fb_u32 bag 6) 0)\<rparr>, qp_mode = mode\<rparr>))"

definition decode_response :: "byte list \<Rightarrow> Limits \<Rightarrow> ResponsePayload Result" where
  "decode_response payload limits =
     checked_bag payload [1, 2, 3] [1] limits (\<lambda>bag.
       case response_outcome_of (value_or (fb_u16 bag 1) 0xFFFF) of
         None \<Rightarrow> r_failure O_ProtocolFailure ''unknown response outcome''
       | Some out \<Rightarrow>
           let detail = value_or (fb_text bag 2) []
           in if fb_has bag 3 then
                (case fb_nested bag 3 limits of
                   None \<Rightarrow> r_failure O_ProtocolFailure ''malformed response body''
                 | Some body \<Rightarrow> r_ok \<lparr>rp_outcome = out, rp_detail = detail, rp_body = body\<rparr>)
              else r_ok \<lparr>rp_outcome = out, rp_detail = detail, rp_body = fb_empty\<rparr>)"

end
