(* ===== verification/Evolve.thy ===== *)
theory Evolve
  imports Store_Query
begin

text \<open>
  How the store changes a lineage. Whatever the pipeline does to a lineage is a sequence of graph
  mutations on records and edges of that lineage (\<open>evolves\<close>); the graph invariant, the bounds, the
  lineage of every record and the history are kept along such sequences, so each piece of the
  pipeline only has to be recognised as one.
\<close>

section \<open>Sequences of graph mutations\<close>

fun lineage_op :: "RouteLineageId \<Rightarrow> GraphOp \<Rightarrow> bool" where
  "lineage_op i (Op_add_node n) \<longleftrightarrow> n_lineage n = i"
| "lineage_op i (Op_add_edge e) \<longleftrightarrow> e_lineage e = i"
| "lineage_op i (Op_compact_node j t) \<longleftrightarrow> n_lineage t = i"
| "lineage_op i _ \<longleftrightarrow> True"

fun commit_op :: "RouteLineageId \<Rightarrow> GraphOp \<Rightarrow> bool" where
  "commit_op i (Op_compact_node j t) \<longleftrightarrow> False"
| "commit_op i op \<longleftrightarrow> lineage_op i op"

lemma commit_op_lineage: "commit_op i op \<Longrightarrow> lineage_op i op"
  by (cases op) simp_all

inductive evolves :: "(GraphOp \<Rightarrow> bool) \<Rightarrow> hash_fun \<Rightarrow> Limits \<Rightarrow> ProvenanceGraph \<Rightarrow> ProvenanceGraph \<Rightarrow> bool"
  for allowed H limits where
  refl: "evolves allowed H limits g g"
| step: "evolves allowed H limits g g' \<Longrightarrow> allowed op \<Longrightarrow>
     evolves allowed H limits g (fst (graph_op H limits op g'))"

declare evolves.refl [simp, intro]

lemma evolves_trans:
  assumes "evolves A H limits g g'" and "evolves A H limits g' g''"
  shows "evolves A H limits g g''"
  using assms(2,1) by (induction) (auto intro: evolves.step)

lemma evolves_op: "A op \<Longrightarrow> evolves A H limits g (fst (graph_op H limits op g))"
  using evolves.step [OF evolves.refl] .

lemma evolves_mono:
  assumes "evolves A H limits g g'" and "\<And>op. A op \<Longrightarrow> B op"
  shows "evolves B H limits g g'"
  using assms(1) by (induction) (auto intro: evolves.step assms(2))

lemma evolves_ops: "evolves A H limits g g' \<longleftrightarrow> (\<exists>ops. list_all A ops \<and> g' = graph_ops H limits ops g)"
proof
  show "evolves A H limits g g' \<Longrightarrow> \<exists>ops. list_all A ops \<and> g' = graph_ops H limits ops g"
  proof (induction rule: evolves.induct)
    case (refl g)
    show ?case by (rule exI [of _ "[]"]) (simp add: graph_ops_def)
  next
    case (step g g' op)
    then obtain ops where "list_all A ops" "g' = graph_ops H limits ops g" by blast
    then show ?case
      using step.hyps by (intro exI [of _ "ops @ [op]"]) (simp add: graph_ops_def)
  qed
next
  have "list_all A ops \<Longrightarrow> evolves A H limits g (graph_ops H limits ops g)" for ops
    by (induction ops rule: rev_induct) (auto simp: graph_ops_def intro: evolves.step)
  then show "\<exists>ops. list_all A ops \<and> g' = graph_ops H limits ops g \<Longrightarrow> evolves A H limits g g'"
    by blast
qed

lemma evolves_wf: "evolves A H limits g g' \<Longrightarrow> graph_wf g \<Longrightarrow> graph_wf g'"
  by (induction rule: evolves.induct) (auto intro: graph_op_wf)

lemma evolves_bounded:
  "evolves A H limits g g' \<Longrightarrow> graph_wf g \<Longrightarrow> graph_bounded limits g \<Longrightarrow> graph_bounded limits g'"
  by (induction rule: evolves.induct) (auto intro: graph_op_bounded evolves_wf)

subsection \<open>The records of one lineage\<close>

definition graph_of :: "RouteLineageId \<Rightarrow> ProvenanceGraph \<Rightarrow> bool" where
  "graph_of i g \<longleftrightarrow>
     (\<forall>j n. om_find (g_nodes g) j = Some n \<longrightarrow> n_lineage n = i)
     \<and> (\<forall>j e. om_find (g_edges g) j = Some e \<longrightarrow> e_lineage e = i)"

lemma graph_of_empty [simp]: "graph_of i empty_graph"
  by (simp add: graph_of_def empty_graph_def)

lemma graph_of_op:
  assumes "graph_of i g" and "lineage_op i op"
  shows "graph_of i (fst (graph_op H limits op g))"
proof (cases op)
  case (Op_add_node n)
  then show ?thesis
    using assms by (cases rule: add_node_cases [of H n limits g])
      (auto simp: graph_of_def with_node_def om_find_emplace)
next
  case (Op_add_edge e)
  then show ?thesis
    using assms by (cases rule: add_edge_cases [of H e limits g])
      (auto simp: graph_of_def with_edge_def om_find_emplace)
next
  case (Op_compact_node j t)
  then show ?thesis using assms by (auto simp: graph_of_def compact_node_def)
next
  case (Op_update_node_state j l c r)
  then show ?thesis using assms by (auto simp: graph_of_def update_node_state_def split: option.split)
next
  case (Op_mark_revalidated j)
  then show ?thesis using assms by (auto simp: graph_of_def mark_revalidated_def split: option.split)
next
  case (Op_set_corrected_by j k)
  then show ?thesis using assms by (auto simp: graph_of_def set_corrected_by_def split: option.split)
qed

lemma evolves_graph_of:
  assumes "evolves A H limits g g'" and "graph_of i g" and "\<And>op. A op \<Longrightarrow> lineage_op i op"
  shows "graph_of i g'"
  using assms by (induction rule: evolves.induct) (auto intro: graph_of_op)

lemma graph_op_nodes:
  assumes "om_has (g_nodes g) j"
  shows "om_has (g_nodes (fst (graph_op H limits op g))) j"
proof (cases op)
  case (Op_add_node n)
  then show ?thesis
    using assms by (cases rule: add_node_cases [of H n limits g]) (simp_all add: with_node_def)
next
  case (Op_add_edge e)
  then show ?thesis
    using assms by (cases rule: add_edge_cases [of H e limits g]) (simp_all add: with_edge_def)
next
  case (Op_compact_node i t)
  then show ?thesis using assms by (simp add: compact_node_def)
next
  case (Op_update_node_state i l c r)
  then show ?thesis using assms by (simp add: update_node_state_def split: option.split)
next
  case (Op_mark_revalidated i)
  then show ?thesis using assms by (simp add: mark_revalidated_def split: option.split)
next
  case (Op_set_corrected_by i k)
  then show ?thesis using assms by (simp add: set_corrected_by_def split: option.split)
qed

lemma evolves_nodes: "evolves A H limits g g' \<Longrightarrow> om_has (g_nodes g) j \<Longrightarrow> om_has (g_nodes g') j"
  by (induction rule: evolves.induct) (auto intro: graph_op_nodes)

subsection \<open>History\<close>

text \<open>Records keep their identity-bearing content and only take legal lifecycle steps; edges stay.\<close>

definition record_kept :: "ProvenanceNode \<Rightarrow> ProvenanceNode \<Rightarrow> bool" where
  "record_kept n n' \<longleftrightarrow> core_of n' = core_of n
     \<and> is_valid_lifecycle_transition\<^sup>*\<^sup>* (n_lifecycle n) (n_lifecycle n')"

definition history_kept :: "ProvenanceGraph \<Rightarrow> ProvenanceGraph \<Rightarrow> bool" where
  "history_kept g g' \<longleftrightarrow>
     (\<forall>j n. om_find (g_nodes g) j = Some n \<longrightarrow>
        (\<exists>n'. om_find (g_nodes g') j = Some n' \<and> record_kept n n'))
     \<and> (\<forall>j e. om_find (g_edges g) j = Some e \<longrightarrow> om_find (g_edges g') j = Some e)"

lemma record_kept_refl [simp]: "record_kept n n"
  by (simp add: record_kept_def)

lemma record_kept_trans: "record_kept n n' \<Longrightarrow> record_kept n' n'' \<Longrightarrow> record_kept n n''"
  unfolding record_kept_def by (metis rtranclp_trans)

lemma history_kept_refl [simp]: "history_kept g g"
  by (simp add: history_kept_def)

lemma history_keptD:
  assumes "history_kept g g'"
  shows "om_find (g_nodes g) j = Some n \<Longrightarrow> \<exists>n'. om_find (g_nodes g') j = Some n' \<and> record_kept n n'"
    and "om_find (g_edges g) j = Some e \<Longrightarrow> om_find (g_edges g') j = Some e"
  using assms unfolding history_kept_def by blast+

lemma history_kept_trans:
  assumes "history_kept g g'" and "history_kept g' g''"
  shows "history_kept g g''"
  unfolding history_kept_def
proof (intro conjI allI impI)
  fix j n assume "om_find (g_nodes g) j = Some n"
  then obtain n' where n': "om_find (g_nodes g') j = Some n'" "record_kept n n'"
    using history_keptD(1) [OF assms(1)] by blast
  then obtain n'' where "om_find (g_nodes g'') j = Some n''" "record_kept n' n''"
    using history_keptD(1) [OF assms(2)] by blast
  then show "\<exists>n''. om_find (g_nodes g'') j = Some n'' \<and> record_kept n n''"
    using record_kept_trans [OF n'(2)] by blast
qed (use history_keptD(2) [OF assms(1)] history_keptD(2) [OF assms(2)] in blast)

lemma history_kept_replace:
  assumes "om_find (g_nodes g) j = Some n" and "record_kept n n'"
  shows "history_kept g (g\<lparr>g_nodes := om_put j n' (g_nodes g)\<rparr>)"
  using assms by (simp add: history_kept_def)

lemma history_kept_op:
  assumes "commit_op i op"
  shows "history_kept g (fst (graph_op H limits op g))"
proof (cases op)
  case (Op_add_node n)
  then show ?thesis
    by (cases rule: add_node_cases [of H n limits g])
       (simp_all add: history_kept_def with_node_def om_find_emplace)
next
  case (Op_add_edge e)
  then show ?thesis
    by (cases rule: add_edge_cases [of H e limits g])
       (simp_all add: history_kept_def with_edge_def om_find_emplace)
next
  case (Op_compact_node j t)
  then show ?thesis using assms by simp
next
  case (Op_update_node_state j l c r)
  then show ?thesis
    by (auto simp: update_node_state_def record_kept_def core_of_def r_into_rtranclp
        intro!: history_kept_replace split: option.split)
next
  case (Op_mark_revalidated j)
  then show ?thesis
    by (auto simp: mark_revalidated_def record_kept_def core_of_def
        intro!: history_kept_replace split: option.split)
next
  case (Op_set_corrected_by j k)
  then show ?thesis
    by (auto simp: set_corrected_by_def record_kept_def core_of_def
        intro!: history_kept_replace split: option.split)
qed

lemma evolves_history:
  "evolves A H limits g g' \<Longrightarrow> (\<And>op. A op \<Longrightarrow> commit_op i op) \<Longrightarrow> history_kept g g'"
  by (induction rule: evolves.induct) (auto intro: history_kept_trans history_kept_op)

section \<open>The pieces of the pipeline\<close>

abbreviation grows :: "RouteLineageId \<Rightarrow> hash_fun \<Rightarrow> Limits \<Rightarrow> ProvenanceGraph \<Rightarrow> ProvenanceGraph \<Rightarrow> bool" where
  "grows i H limits \<equiv> evolves (commit_op i) H limits"

lemma grows_add_node: "n_lineage n = i \<Longrightarrow> grows i H limits g (fst (add_node H n limits g))"
  using evolves_op [of "commit_op i" "Op_add_node n"] by simp

lemma grows_add_edge: "e_lineage e = i \<Longrightarrow> grows i H limits g (fst (add_edge H e limits g))"
  using evolves_op [of "commit_op i" "Op_add_edge e"] by simp

lemma grows_update: "grows i H limits g (fst (update_node_state j l c r g))"
  using evolves_op [of "commit_op i" "Op_update_node_state j l c r"] by simp

lemma grows_mark: "grows i H limits g (fst (mark_revalidated j g))"
  using evolves_op [of "commit_op i" "Op_mark_revalidated j"] by simp

lemma grows_corrected: "grows i H limits g (fst (set_corrected_by j k g))"
  using evolves_op [of "commit_op i" "Op_set_corrected_by j k"] by simp

lemmas grows_intros = grows_add_node grows_add_edge grows_update grows_mark grows_corrected

lemma grows_add_edges:
  "list_all (\<lambda>e. e_lineage e = i) es \<Longrightarrow> grows i H limits g (fst (add_edges H limits es out g))"
proof (induction es arbitrary: out g)
  case (Cons e es)
  have "grows i H limits g (fst (add_edge H e limits g))" using Cons.prems by (simp add: grows_add_edge)
  then show ?case
    using Cons.IH Cons.prems by (auto simp: case_prod_beta intro: evolves_trans)
qed simp

lemma grows_rebind:
  "list_all (\<lambda>e. e_lineage e = i) es \<Longrightarrow> grows i H limits g (fst (rebind_edges H limits es acc g))"
proof (induction es arbitrary: acc g)
  case (Cons e es)
  have "grows i H limits g (fst (add_edge H e limits g))" using Cons.prems by (simp add: grows_add_edge)
  then show ?case
    using Cons.IH Cons.prems by (auto simp: case_prod_beta intro: evolves_trans)
qed simp

end
