(* ===== verification/Store_Inv.thy ===== *)
theory Store_Inv
  imports Evolve
begin

text \<open>
  The invariant of the store and its preservation by every operation that changes state. The work
  is in \<open>commit_effect\<close>: whatever a commit returns, it changes at most one lineage, by a sequence
  of graph mutations, and the registry not at all.
\<close>

section \<open>Effects on one lineage\<close>

definition lineage_step :: "RouteLineageId \<Rightarrow> hash_fun \<Rightarrow> Limits \<Rightarrow> Lineage \<Rightarrow> Lineage \<Rightarrow> bool" where
  "lineage_step i H limits lin lin' \<longleftrightarrow>
     grows i H limits (l_graph lin) (l_graph lin') \<and> ls_id (l_state lin') = ls_id (l_state lin)
     \<and> ls_key (l_state lin') = ls_key (l_state lin) \<and> l_attempts lin' = l_attempts lin
     \<and> ls_lineage_generation (l_state lin) \<le> ls_lineage_generation (l_state lin')"

lemma lineage_step_refl [simp, intro]: "lineage_step i H limits lin lin"
  by (simp add: lineage_step_def)

lemma lineage_step_trans:
  "lineage_step i H limits lin lin' \<Longrightarrow> lineage_step i H limits lin' lin'' \<Longrightarrow> lineage_step i H limits lin lin''"
  by (auto simp: lineage_step_def intro: evolves_trans)

lemma lineage_step_graph:
  "grows i H limits (l_graph lin) g \<Longrightarrow> lineage_step i H limits lin (lin\<lparr>l_graph := g\<rparr>)"
  by (simp add: lineage_step_def)

lemma lineage_step_state:
  "ls_id s = ls_id (l_state lin) \<Longrightarrow> ls_key s = ls_key (l_state lin) \<Longrightarrow>
     ls_lineage_generation (l_state lin) \<le> ls_lineage_generation s \<Longrightarrow>
     lineage_step i H limits lin (lin\<lparr>l_state := s\<rparr>)"
  by (simp add: lineage_step_def)

lemma step_update: "lineage_step i H limits lin (on_graph (update_node_state j l c r) lin)"
  and step_mark: "lineage_step i H limits lin (on_graph (mark_revalidated j) lin)"
  and step_corrected: "lineage_step i H limits lin (on_graph (set_corrected_by j k) lin)"
  by (simp_all add: on_graph_def lineage_step_def grows_intros)

lemma on_graph_simps [simp]:
  "l_state (on_graph f lin) = l_state lin" "l_attempts (on_graph f lin) = l_attempts lin"
  "l_graph (on_graph f lin) = fst (f (l_graph lin))"
  by (simp_all add: on_graph_def)

lemma note_publisher_simps [simp]:
  "ls_id (note_publisher boot s) = ls_id s" "ls_key (note_publisher boot s) = ls_key s"
  "ls_current_node (note_publisher boot s) = ls_current_node s"
  "ls_lifecycle (note_publisher boot s) = ls_lifecycle s"
  "ls_lineage_generation (note_publisher boot s) = ls_lineage_generation s"
  "ls_current_route_generation (note_publisher boot s) = ls_current_route_generation s"
  by (simp_all add: note_publisher_def)

subsection \<open>The kinds\<close>

lemma step_route_state:
  "lineage_step i H limits lin (fst (kind_route_state rq node es affected lin))"
  by (simp add: kind_route_state_def lineage_step_def Let_def grows_intros split: option.split)

lemma outgoing_edges_found:
  "e \<in> set (outgoing_edges g j) \<Longrightarrow> \<exists>k. om_find (g_edges g) k = Some e"
  by (auto simp: outgoing_edges_def set_map_filter find_edge_def split: option.splits)

lemma step_correction:
  assumes "graph_of i (l_graph lin)"
  shows "lineage_step i H limits lin (fst (kind_correction H limits rq node es affected lin))"
proof -
  let ?rebound = "map (rebound_edge H (np_authority rq) (n_id node))
    (filter (\<lambda>e. edge_type_is_successor_relation (e_type e)) (outgoing_edges (l_graph lin) (np_target rq)))"
  let ?g1 = "fst (rebind_edges H limits ?rebound es (l_graph lin))"
  let ?g2 = "fst (set_corrected_by (np_target rq) (n_id node) ?g1)"
  have "e_lineage e = i" if "e \<in> set (outgoing_edges (l_graph lin) (np_target rq))" for e
    using assms outgoing_edges_found [OF that] by (auto simp: graph_of_def)
  then have "list_all (\<lambda>e. e_lineage e = i) ?rebound" by (simp add: list_all_iff rebound_edge_def)
  from evolves_trans [OF grows_rebind [OF this] evolves_trans [OF grows_corrected grows_update]]
  have "grows i H limits (l_graph lin)
      (fst (update_node_state (np_target rq) NL_Invalid CU_HistoricalOnly False ?g2))" .
  then show ?thesis by (simp add: kind_correction_def Let_def case_prod_beta lineage_step_def)
qed

lemma step_closing: "lineage_step i H limits lin (fst (kind_closing l ll j es affected lin))"
  by (simp add: kind_closing_def lineage_step_def Let_def grows_intros split: option.split)

lemma step_revalidation: "lineage_step i H limits lin (fst (kind_revalidation j es affected lin))"
  using evolves_trans [OF grows_update grows_mark]
  by (simp add: kind_revalidation_def lineage_step_def Let_def)

lemma step_kind:
  assumes "graph_of i (l_graph lin)"
  shows "lineage_step i H limits lin (fst (apply_kind H limits rq node es affected lin))"
  by (simp add: apply_kind_def step_route_state step_correction [OF assms] step_closing
      step_revalidation split: PublishKind.split)

lemma kind_current_node:
  "ls_current_node (l_state (fst (apply_kind H limits rq node es affected lin)))
     \<in> {ls_current_node (l_state lin), n_id node}"
  by (simp add: apply_kind_def kind_route_state_def kind_correction_def kind_closing_def
      kind_revalidation_def Let_def case_prod_beta split: PublishKind.split option.split)

subsection \<open>Promotion, counters, re-evaluation\<close>

lemma step_promote_targets:
  "lineage_step i H limits lin (fst (promote_targets es affected lin))
   \<and> l_state (fst (promote_targets es affected lin)) = l_state lin"
proof (induction es affected lin rule: promote_targets.induct)
  case (2 e es affected lin)
  then show ?case
    by (auto simp: promote_record_def intro: lineage_step_trans [OF step_update] split: option.splits)
qed simp

lemma step_promote:
  "lineage_step i H limits lin (fst (promote rq es affected lin))"
  "l_state (fst (promote rq es affected lin)) = l_state lin"
  using step_promote_targets [of i H limits lin es affected]
  by (auto simp: promote_def promote_record_def step_update split: option.split)

lemma step_counters: "lineage_step i H limits lin (refresh_counters lin)"
  by (simp add: refresh_counters_def lineage_step_def)

lemma refresh_counters_simps [simp]:
  "l_graph (refresh_counters lin) = l_graph lin" "l_attempts (refresh_counters lin) = l_attempts lin"
  "ls_current_node (l_state (refresh_counters lin)) = ls_current_node (l_state lin)"
  "ls_lifecycle (l_state (refresh_counters lin)) = ls_lifecycle (l_state lin)"
  "ls_lineage_generation (l_state (refresh_counters lin)) = ls_lineage_generation (l_state lin)"
  "ls_id (l_state (refresh_counters lin)) = ls_id (l_state lin)"
  "ls_key (l_state (refresh_counters lin)) = ls_key (l_state lin)"
  by (simp_all add: refresh_counters_def)

lemma grows_refresh: "grows i H limits g (fst (refresh_record st state j node g))"
  by (simp add: refresh_record_def grows_update)

lemma step_reevaluate:
  "lineage_step i H limits lin (fst (reevaluate_nodes st ids lin))
   \<and> l_state (fst (reevaluate_nodes st ids lin)) = l_state lin"
proof (induction st ids lin rule: reevaluate_nodes.induct)
  case (2 st j ids lin)
  show ?case
  proof (cases "find_node (l_graph lin) j")
    case (Some node)
    obtain g status where g: "refresh_record st (l_state lin) j node (l_graph lin) = (g, status)"
      by (cases "refresh_record st (l_state lin) j node (l_graph lin)")
    have "lineage_step i H limits lin (lin\<lparr>l_graph := g\<rparr>)"
      using grows_refresh [of i H limits "l_graph lin" st "l_state lin" j node] g
      by (simp add: lineage_step_def)
    then show ?thesis
      using 2(2) [OF Some HOL.refl g [symmetric]] Some g
      by (auto intro: lineage_step_trans)
  qed (use 2 in simp)
qed simp

section \<open>Stages up to 13 build records of the lineage\<close>

lemma link_edge_lineage: "link_edge H rq i g = Inr e \<Longrightarrow> e_lineage e = i"
  by (auto simp: link_edge_def Let_def split: option.splits if_splits)

lemma checked_edge_Inr: "checked_edge limits g e = Inr e' \<Longrightarrow> e' = e"
  by (simp add: checked_edge_def split: if_splits)

lemma spec_edge_lineage: "spec_edge H rq st i g node spec = Inr e \<Longrightarrow> e_lineage e = i"
  by (auto simp: spec_edge_def Let_def split: option.splits if_splits dest!: checked_edge_Inr)

lemma spec_edges_all:
  "spec_edges build specs = Inr es \<Longrightarrow> (\<And>spec e. build spec = Inr e \<Longrightarrow> P e) \<Longrightarrow> list_all P es"
  by (induction specs arbitrary: es) (auto split: sum.splits)

lemma finalize_node_simps [simp]:
  "n_lineage (finalize_node H n) = n_lineage n" "n_kind (finalize_node H n) = n_kind n"
  "n_lifecycle (finalize_node H n) = n_lifecycle n" "n_authority (finalize_node H n) = n_authority n"
  "n_route (finalize_node H n) = n_route n" "n_route_generation (finalize_node H n) = n_route_generation n"
  by (simp_all add: finalize_node_def)

lemma stage_edges_lineage:
  assumes "stage_edges H rq st i lin node = Inr (node', es)" and "n_lineage node = i"
  shows "n_lineage node' = i \<and> list_all (\<lambda>e. e_lineage e = i) es"
proof (cases "np_kind rq = PK_Link")
  case True
  then show ?thesis
    using assms by (auto simp: stage_edges_def dest!: checked_edge_Inr link_edge_lineage split: sum.splits)
next
  case False
  let ?build = "spec_edge H rq st i (l_graph lin) (finalize_node H node)"
  have "spec_edges ?build (np_edges rq) = Inr es" "node' = finalize_node H node"
    using assms(1) False by (auto simp: stage_edges_def Let_def split: sum.splits)
  then show ?thesis
    using assms(2) spec_edges_all [where build = ?build, OF _ spec_edge_lineage] by simp
qed

lemma stage_target_lineage: "stage_target H rq st i lin = Inr node \<Longrightarrow> n_lineage node = i"
  by (auto simp: stage_target_def Let_def target_route_state_def target_existing_def base_node_def
      split: PublishKind.splits if_splits option.splits)

text \<open>The case split every proof about an accepted commit starts with.\<close>

lemma commit_checks_Inr:
  assumes "commit_checks H rq st i lin = Inr (node', es)"
  obtains node where "stage_lifecycle (l_state lin) = None"
    "stage_attempt H rq (s_watermarks st) i lin = None" "stage_target H rq st i lin = Inr node"
    "stage_freshness (s_watermarks st) node = None" "stage_edges H rq st i lin node = Inr (node', es)"
    "stage_limits rq (s_limits st) lin es = None"
  using assms by (auto simp: commit_checks_def split: option.splits sum.splits)

lemma commit_checks_lineage:
  "commit_checks H rq st i lin = Inr (node, es) \<Longrightarrow> n_lineage node = i \<and> list_all (\<lambda>e. e_lineage e = i) es"
  by (erule commit_checks_Inr) (rule stage_edges_lineage, assumption, rule stage_target_lineage)

section \<open>Stage 14 and the bookkeeping\<close>

lemma validate_node_not_duplicate: "st_outcome (validate_node_consistency n) \<noteq> O_Duplicate"
  by (simp add: validate_node_consistency_def)

lemma add_node_present:
  assumes "st_is_ok (snd (add_node H n limits g)) \<or> st_outcome (snd (add_node H n limits g)) = O_Duplicate"
  shows "om_has (g_nodes (fst (add_node H n limits g))) (n_id n)"
proof (cases "om_find (g_nodes g) (n_id n)")
  case None
  then show ?thesis
    using assms validate_node_not_duplicate [of n]
    by (cases rule: add_node_cases [of H n limits g])
       (auto simp: add_node_def with_node_def split: if_splits)
next
  case (Some m)
  then have "om_has (g_nodes g) (n_id n)" by (simp add: om_has_def)
  then show ?thesis using graph_op_nodes [of g "n_id n" H limits "Op_add_node n"] by simp
qed

lemma apply_graph_effect:
  assumes "n_lineage node = i" and "list_all (\<lambda>e. e_lineage e = i) es"
  shows "grows i H limits g (fst (apply_graph H rq limits i node es g))"
    and "snd (apply_graph H rq limits i node es g) = Inr ap \<Longrightarrow> np_kind rq \<noteq> PK_Link \<Longrightarrow>
      om_has (g_nodes (fst (apply_graph H rq limits i node es g))) (n_id node)"
proof -
  let ?g1 = "fst (add_node H node limits g)"
  have 1: "grows i H limits g ?g1" using assms(1) by (rule grows_add_node)
  have 2: "grows i H limits g' (fst (add_edges H limits es out g'))" for out g'
    using assms(2) by (rule grows_add_edges)
  have 3: "fst (apply_node H limits node es g) = ?g1
      \<or> (\<exists>out. fst (apply_node H limits node es g) = fst (add_edges H limits es out ?g1))"
    by (simp add: apply_node_def case_prod_beta Let_def split: sum.split prod.split) metis
  have "grows i H limits g (fst (apply_node H limits node es g))"
    using 3 1 evolves_trans [OF 1 2] by metis
  moreover have "grows i H limits g (fst (apply_link H rq limits i es g))"
    by (auto simp: apply_link_def case_prod_beta Let_def split: sum.split
        dest!: link_edge_lineage intro: grows_add_edge)
  ultimately show "grows i H limits g (fst (apply_graph H rq limits i node es g))"
    by (simp add: apply_graph_def)
  assume r: "snd (apply_graph H rq limits i node es g) = Inr ap" "np_kind rq \<noteq> PK_Link"
  then have ok: "st_is_ok (snd (add_node H node limits g)) \<or> st_outcome (snd (add_node H node limits g)) = O_Duplicate"
    by (auto simp: apply_graph_def apply_node_def case_prod_beta Let_def split: if_splits)
  show "om_has (g_nodes (fst (apply_graph H rq limits i node es g))) (n_id node)"
    using 3 r(2) add_node_present [OF ok] evolves_nodes [OF 2] by (auto simp: apply_graph_def)
qed

text \<open>What a commit leaves alone in the store.\<close>

definition same_registry :: "Store \<Rightarrow> Store \<Rightarrow> bool" where
  "same_registry st st' \<longleftrightarrow>
     s_limits st' = s_limits st \<and> s_publishers st' = s_publishers st \<and> s_recovered st' = s_recovered st
     \<and> s_epoch_bootstrapped st' = s_epoch_bootstrapped st
     \<and> (s_watermarks st')\<lparr>wm_store_generation := 0\<rparr> = (s_watermarks st)\<lparr>wm_store_generation := 0\<rparr>
     \<and> wm_store_generation (s_watermarks st) \<le> wm_store_generation (s_watermarks st')"

lemma same_registry_refl [simp, intro]: "same_registry st st"
  by (simp add: same_registry_def)

lemma same_registry_trans: "same_registry st st' \<Longrightarrow> same_registry st' st'' \<Longrightarrow> same_registry st st''"
  by (auto simp: same_registry_def)

lemma next_store_generation_facts:
  "same_registry st (snd (next_store_generation st))"
  "s_lineages (snd (next_store_generation st)) = s_lineages st"
  "s_node_owner (snd (next_store_generation st)) = s_node_owner st"
  "s_route_index (snd (next_store_generation st)) = s_route_index st"
  "s_limits (snd (next_store_generation st)) = s_limits st"
  using bump_generation_mono [of "wm_store_generation (s_watermarks st)"]
  by (simp_all add: next_store_generation_def same_registry_def case_prod_beta)

lemma put_lineage_facts [simp]:
  "same_registry st (put_lineage i lin st') \<longleftrightarrow> same_registry st st'"
  "s_lineages (put_lineage i lin st) = om_put i lin (s_lineages st)"
  "s_node_owner (put_lineage i lin st) = s_node_owner st"
  "s_watermarks (put_lineage i lin st) = s_watermarks st"
  "s_limits (put_lineage i lin st) = s_limits st"
  "s_publishers (put_lineage i lin st) = s_publishers st"
  "s_route_index (put_lineage i lin st) = s_route_index st"
  by (simp_all add: put_lineage_def same_registry_def)

lemma index_node_facts [simp]:
  "same_registry st (index_node node i st') \<longleftrightarrow> same_registry st st'"
  "s_lineages (index_node node i st) = s_lineages st"
  "s_node_owner (index_node node i st) = om_put (n_id node) i (s_node_owner st)"
  "s_watermarks (index_node node i st) = s_watermarks st"
  "s_limits (index_node node i st) = s_limits st"
  "s_route_index (index_node node i st) = s_route_index st"
  "s_publishers (index_node node i st) = s_publishers st"
  by (simp_all add: index_node_def same_registry_def Let_def)

text \<open>The effect of a commit on its lineage, whatever it returns once stage 13 is passed.\<close>

definition lineage_effect ::
    "hash_fun \<Rightarrow> NormalizedPublication \<Rightarrow> RouteLineageId \<Rightarrow> Limits \<Rightarrow> Lineage \<Rightarrow> Lineage \<Rightarrow> bool" where
  "lineage_effect H rq i limits lin lin' \<longleftrightarrow>
     grows i H limits (l_graph lin) (l_graph lin')
     \<and> ls_id (l_state lin') = ls_id (l_state lin) \<and> ls_key (l_state lin') = ls_key (l_state lin)
     \<and> ls_lineage_generation (l_state lin) \<le> ls_lineage_generation (l_state lin')
     \<and> (ls_current_node (l_state lin') = ls_current_node (l_state lin)
        \<or> om_has (g_nodes (l_graph lin')) (ls_current_node (l_state lin')))
     \<and> (l_attempts lin' = l_attempts lin
        \<or> (\<exists>record. l_attempts lin' = om_emplace (attempt_key rq) record (l_attempts lin)))"

definition store_effect ::
    "hash_fun \<Rightarrow> NormalizedPublication \<Rightarrow> RouteLineageId \<Rightarrow> Store \<Rightarrow> Lineage \<Rightarrow> Store \<Rightarrow> bool" where
  "store_effect H rq i st lin st' \<longleftrightarrow>
     same_registry st st' \<and> s_route_index st' = s_route_index st
     \<and> (\<exists>lin'. s_lineages st' = om_put i lin' (s_lineages st)
          \<and> lineage_effect H rq i (s_limits st) lin lin'
          \<and> (\<forall>j. om_find (s_node_owner st') j = om_find (s_node_owner st) j
               \<or> om_find (s_node_owner st') j = Some i \<and> om_has (g_nodes (l_graph lin')) j))"

lemma commit_finish_effect:
  assumes before: "lineage_step i H limits lin lin1" and limits: "s_limits st0 = limits"
    and cur: "ls_current_node (l_state lin1) = ls_current_node (l_state lin)
       \<or> om_has (g_nodes (l_graph lin1)) (ls_current_node (l_state lin1))"
    and reg: "same_registry st0 st" "s_lineages st = s_lineages st0" "s_node_owner st = s_node_owner st0"
      "s_route_index st = s_route_index st0"
    and node: "np_kind rq \<noteq> PK_Link \<Longrightarrow> om_has (g_nodes (l_graph lin1)) (n_id node)"
  shows "store_effect H rq i st0 lin (fst (commit_finish H rq i node out es affected st lin1))"
proof -
  let ?r1 = "reevaluate_nodes st affected lin1"
  let ?lin2 = "fst ?r1"
  let ?lin3 = "fst (reevaluate_nodes st [ls_current_node (l_state ?lin2)] ?lin2)"
  have 2: "lineage_step i H limits lin ?lin2" "l_state ?lin2 = l_state lin1"
    using step_reevaluate lineage_step_trans [OF before] by blast+
  have 3: "lineage_step i H limits lin ?lin3" "l_state ?lin3 = l_state lin1"
    using step_reevaluate lineage_step_trans [OF 2(1)] 2(2) by metis+
  have keep: "om_has (g_nodes (l_graph lin1)) j \<Longrightarrow> om_has (g_nodes (l_graph ?lin2)) j"
    "om_has (g_nodes (l_graph ?lin2)) j \<Longrightarrow> om_has (g_nodes (l_graph ?lin3)) j" for j
    using step_reevaluate evolves_nodes unfolding lineage_step_def by blast+
  show ?thesis
  proof (cases "st_is_ok (snd ?r1)")
    case False
    have "lineage_effect H rq i limits lin ?lin2"
      using 2 cur keep by (auto simp: lineage_effect_def lineage_step_def)
    then show ?thesis
      using False reg limits
      by (auto simp: commit_finish_def case_prod_beta store_effect_def)
  next
    case True
    let ?rec = "attempt_record H rq node out es (l_graph ?lin3)"
    let ?lin4 = "?lin3\<lparr>l_attempts := om_emplace (attempt_key rq) ?rec (l_attempts ?lin3),
      l_state := (l_state ?lin3)\<lparr>ls_last_mutation_digest := request_digest H rq\<rparr>\<rparr>"
    have e: "lineage_effect H rq i limits lin ?lin4"
      using 3 cur keep by (auto simp: lineage_effect_def lineage_step_def)
    have owner: "np_kind rq \<noteq> PK_Link \<Longrightarrow> om_has (g_nodes (l_graph ?lin4)) (n_id node)"
      using node keep by simp
    have "fst (commit_finish H rq i node out es affected st lin1) =
        put_lineage i ?lin4 (if out \<noteq> O_Duplicate \<and> np_kind rq \<noteq> PK_Link then index_node node i st else st)"
      using True by (simp add: commit_finish_def case_prod_beta Let_def)
    then show ?thesis
      using e owner reg limits unfolding store_effect_def
      by (intro conjI exI [of _ ?lin4]) auto
  qed
qed

lemma store_effect_put:
  assumes "lineage_effect H rq i (s_limits st0) lin lin'" and "same_registry st0 st"
    and "s_lineages st = s_lineages st0" "s_node_owner st = s_node_owner st0" "s_route_index st = s_route_index st0"
  shows "store_effect H rq i st0 lin (put_lineage i lin' st)"
  using assms by (auto simp: store_effect_def)

lemma kind_current_link:
  "np_kind rq = PK_Link \<Longrightarrow> fst (apply_kind H limits rq node es affected lin) = lin"
  by (simp add: apply_kind_def)

text \<open>The state the bookkeeping hands to \<open>commit_finish\<close>.\<close>

definition booked ::
    "hash_fun \<Rightarrow> NormalizedPublication \<Rightarrow> Limits \<Rightarrow> ProvenanceNode \<Rightarrow> Applied \<Rightarrow> LineageGeneration \<Rightarrow> Lineage \<Rightarrow> Lineage" where
  "booked H rq limits node ap generation lin =
     (let k = apply_kind H limits rq node (ap_edges ap) (ap_affected ap)
                (lin\<lparr>l_state := note_publisher (pi_boot (ac_publisher (np_authority rq)))
                      ((l_state lin)\<lparr>ls_lineage_generation := generation\<rparr>)\<rparr>)
      in refresh_counters (fst (promote rq (fst (snd k)) (snd (snd k)) (fst k))))"

lemma booked_facts:
  assumes "graph_of i (l_graph lin)" and gen: "ls_lineage_generation (l_state lin) \<le> generation"
  shows "lineage_step i H limits lin (booked H rq limits node ap generation lin)"
    and "ls_current_node (l_state (booked H rq limits node ap generation lin))
       \<in> {ls_current_node (l_state lin), n_id node}"
    and "np_kind rq = PK_Link \<Longrightarrow> ls_current_node (l_state (booked H rq limits node ap generation lin))
       = ls_current_node (l_state lin)"
proof -
  let ?lin2 = "lin\<lparr>l_state := note_publisher (pi_boot (ac_publisher (np_authority rq)))
                      ((l_state lin)\<lparr>ls_lineage_generation := generation\<rparr>)\<rparr>"
  let ?k = "apply_kind H limits rq node (ap_edges ap) (ap_affected ap) ?lin2"
  have g: "graph_of i (l_graph ?lin2)" using assms(1) by simp
  have "lineage_step i H limits lin ?lin2" using gen by (intro lineage_step_state) simp_all
  from lineage_step_trans [OF this lineage_step_trans [OF step_kind [OF g] lineage_step_trans [OF step_promote(1) step_counters]]]
  show "lineage_step i H limits lin (booked H rq limits node ap generation lin)"
    unfolding booked_def Let_def .
  show "ls_current_node (l_state (booked H rq limits node ap generation lin))
       \<in> {ls_current_node (l_state lin), n_id node}"
    using kind_current_node [of H limits rq node "ap_edges ap" "ap_affected ap" ?lin2]
    by (simp add: booked_def Let_def step_promote(2))
  show "np_kind rq = PK_Link \<Longrightarrow> ls_current_node (l_state (booked H rq limits node ap generation lin))
       = ls_current_node (l_state lin)"
    using kind_current_link [of rq H limits node "ap_edges ap" "ap_affected ap" ?lin2]
    by (simp add: booked_def Let_def step_promote(2))
qed

lemma commit_apply_cases:
  obtains (refused) lin' st' r where "commit_apply H rq i node es st lin = (put_lineage i lin' st', r)"
      "lin' = lin\<lparr>l_graph := fst (apply_graph H rq (s_limits st) i node es (l_graph lin))\<rparr>"
      "st' = st \<or> st' = snd (next_store_generation st)" "r_value r = None \<or> snd (apply_graph H rq (s_limits st) i node es (l_graph lin)) = Inl r"
  | (booked) ap generation affected es' where
      "snd (apply_graph H rq (s_limits st) i node es (l_graph lin)) = Inr ap"
      "fst (next_store_generation st)"
      "bump_generation (ls_lineage_generation (l_state lin)) = (True, generation)"
      "commit_apply H rq i node es st lin =
         commit_finish H rq i node (ap_outcome ap) es' affected (snd (next_store_generation st))
           (booked H rq (s_limits st) node ap generation
             (lin\<lparr>l_graph := fst (apply_graph H rq (s_limits st) i node es (l_graph lin))\<rparr>))"
proof (cases "snd (apply_graph H rq (s_limits st) i node es (l_graph lin))")
  case (Inl r)
  then show ?thesis
    by (intro refused [of _ st r]) (simp_all add: commit_apply_def case_prod_beta)
next
  case (Inr ap)
  let ?lin1 = "lin\<lparr>l_graph := fst (apply_graph H rq (s_limits st) i node es (l_graph lin))\<rparr>"
  show ?thesis
  proof (cases "fst (next_store_generation st) \<and> fst (bump_generation (ls_lineage_generation (l_state lin)))")
    case False
    then show ?thesis
      using Inr by (intro refused [of ?lin1 "snd (next_store_generation st)" "snd (commit_apply H rq i node es st lin)"])
        (auto simp: commit_apply_def case_prod_beta Let_def)
  next
    case True
    let ?gen = "snd (bump_generation (ls_lineage_generation (l_state lin)))"
    let ?k = "apply_kind H (s_limits st) rq node (ap_edges ap) (ap_affected ap)
                (?lin1\<lparr>l_state := note_publisher (pi_boot (ac_publisher (np_authority rq)))
                      ((l_state ?lin1)\<lparr>ls_lineage_generation := ?gen\<rparr>)\<rparr>)"
    show ?thesis
      using Inr True
      by (intro booked [of ap ?gen "fst (snd ?k)" "snd (promote rq (fst (snd ?k)) (snd (snd ?k)) (fst ?k))"])
         (simp_all add: commit_apply_def booked_def case_prod_beta Let_def prod_eq_iff)
  qed
qed

lemma commit_apply_effect:
  assumes node: "n_lineage node = i" and es: "list_all (\<lambda>e. e_lineage e = i) es"
    and g: "graph_of i (l_graph lin)"
  shows "store_effect H rq i st lin (fst (commit_apply H rq i node es st lin))"
proof -
  let ?g1 = "fst (apply_graph H rq (s_limits st) i node es (l_graph lin))"
  let ?lin1 = "lin\<lparr>l_graph := ?g1\<rparr>"
  note grow = apply_graph_effect(1) [OF node es, of H "s_limits st" "l_graph lin" rq]
  have 1: "lineage_step i H (s_limits st) lin ?lin1" using grow by (rule lineage_step_graph)
  have g1: "graph_of i (l_graph ?lin1)"
    using evolves_graph_of [OF grow g commit_op_lineage] by simp
  note ns = next_store_generation_facts [of st]
  show ?thesis
  proof (cases rule: commit_apply_cases [of H rq i node es st lin])
    case (refused lin' st' r)
    have "lineage_effect H rq i (s_limits st) lin lin'"
      using grow by (simp add: refused(2) lineage_effect_def)
    then show ?thesis
      using refused(1,3) ns by (auto intro!: store_effect_put)
  next
    case (booked ap generation affected es')
    let ?lin3 = "booked H rq (s_limits st) node ap generation ?lin1"
    have gen: "ls_lineage_generation (l_state ?lin1) \<le> generation"
      using bump_generation_mono [of "ls_lineage_generation (l_state lin)"] booked(3) by simp
    have s: "lineage_step i H (s_limits st) ?lin1 ?lin3" using booked_facts(1) [OF g1 gen] .
    have c: "ls_current_node (l_state ?lin3) = ls_current_node (l_state lin)
        \<or> ls_current_node (l_state ?lin3) = n_id node"
      using booked_facts(2) [OF g1 gen, of H rq "s_limits st" node ap] by auto
    have n: "om_has (g_nodes (l_graph ?lin3)) (n_id node)" if "np_kind rq \<noteq> PK_Link"
      using evolves_nodes [of _ _ _ _ _ "n_id node"] s apply_graph_effect(2) [OF node es booked(1) that]
      unfolding lineage_step_def by fastforce
    have "store_effect H rq i st lin (fst (commit_finish H rq i node (ap_outcome ap) es' affected
        (snd (next_store_generation st)) ?lin3))"
    proof (rule commit_finish_effect [OF lineage_step_trans [OF 1 s] HOL.refl])
      show "ls_current_node (l_state ?lin3) = ls_current_node (l_state lin)
          \<or> om_has (g_nodes (l_graph ?lin3)) (ls_current_node (l_state ?lin3))"
        using c n booked_facts(3) [OF g1 gen, of rq H "s_limits st" node ap]
        by (cases "np_kind rq = PK_Link") auto
    qed (use ns n in simp_all)
    then show ?thesis using booked(4) by simp
  qed
qed

section \<open>The whole commit\<close>

lemma stage_authority_Inr:
  assumes "stage_authority H rq st = Inr i"
  shows "i = derive_lineage_id H (np_key rq)" "has_identity (np_authority rq)"
    "wm_epoch (s_watermarks st) \<noteq> 0"
    "pi_epoch (ac_publisher (np_authority rq)) = wm_epoch (s_watermarks st)"
    "publisher_is_live st (pi_publisher (ac_publisher (np_authority rq))) (pi_boot (ac_publisher (np_authority rq)))"
    "permits (ac_scope (np_authority rq))
       \<lparr>tg_routing_namespace = 0, tg_lineage = i, tg_route = lk_route (np_key rq)\<rparr>"
  using assms by (auto simp: stage_authority_def Let_def id_valid_def split: if_splits option.splits)

lemma stage_authority_Inl: "stage_authority H rq st = Inl r \<Longrightarrow> r_value r = None"
  by (auto simp: stage_authority_def Let_def split: if_splits)

lemma commit_cases:
  obtains (unauthorised) r where "stage_authority H rq st = Inl r" "commit H rq st = (st, r)"
  | (full) "stage_authority H rq st = Inr (derive_lineage_id H (np_key rq))"
      "commit H rq st = (st, r_failure O_ResourceLimit ''max_lineages reached'')"
  | (rejected) st1 lin r where "stage_authority H rq st = Inr (derive_lineage_id H (np_key rq))"
      "acquire_lineage (derive_lineage_id H (np_key rq)) (np_key rq) True st = Some (st1, lin)"
      "commit_checks H rq st1 (derive_lineage_id H (np_key rq)) lin = Inl r" "commit H rq st = (st1, r)"
  | (applied) st1 lin node es where "stage_authority H rq st = Inr (derive_lineage_id H (np_key rq))"
      "acquire_lineage (derive_lineage_id H (np_key rq)) (np_key rq) True st = Some (st1, lin)"
      "commit_checks H rq st1 (derive_lineage_id H (np_key rq)) lin = Inr (node, es)"
      "commit H rq st = commit_apply H rq (derive_lineage_id H (np_key rq)) node es st1 lin"
proof (cases "stage_authority H rq st")
  case (Inl r)
  then show ?thesis by (intro unauthorised) (simp_all add: commit_def)
next
  case (Inr i)
  note i = stage_authority_Inr(1) [OF Inr]
  show ?thesis
  proof (cases "acquire_lineage i (np_key rq) True st")
    case None
    then show ?thesis using Inr i by (intro full) (simp_all add: commit_def)
  next
    case (Some p)
    obtain st1 lin where p: "p = (st1, lin)" by (cases p)
    show ?thesis
    proof (cases "commit_checks H rq st1 i lin")
      case (Inl r)
      then show ?thesis using Inr Some p i by (intro rejected [of st1 lin r]) (simp_all add: commit_def)
    next
      case r: (Inr q)
      obtain node es where "q = (node, es)" by (cases q)
      then show ?thesis using r Inr Some p i by (intro applied [of st1 lin node es]) (simp_all add: commit_def)
    qed
  qed
qed

lemma acquire_cases:
  assumes "acquire_lineage i key True st = Some (st1, lin)"
  obtains (present) "find_lineage st i = Some lin" "st1 = st"
  | (fresh) "find_lineage st i = None" "om_size (s_lineages st) < max_lineages (s_limits st)"
      "lin = new_lineage i key"
      "st1 = (put_lineage i lin st)\<lparr>s_route_index := om_put (lk_route key) i (s_route_index st)\<rparr>"
  using assms by (auto simp: acquire_lineage_def split: option.splits if_splits)

section \<open>The invariant\<close>

definition lineage_inv :: "hash_fun \<Rightarrow> Limits \<Rightarrow> RouteLineageId \<Rightarrow> Lineage \<Rightarrow> bool" where
  "lineage_inv H limits i lin \<longleftrightarrow>
     ls_id (l_state lin) = i \<and> derive_lineage_id H (ls_key (l_state lin)) = i
     \<and> graph_wf (l_graph lin) \<and> graph_bounded limits (l_graph lin) \<and> graph_of i (l_graph lin)
     \<and> (ls_current_node (l_state lin) = 0 \<or> om_has (g_nodes (l_graph lin)) (ls_current_node (l_state lin)))
     \<and> om_size (l_attempts lin) \<le> max_attempts_per_lineage limits"

definition publishers_inv :: "(PublisherKey, PublisherRecord) omap \<Rightarrow> bool" where
  "publishers_inv ps \<longleftrightarrow>
     (\<forall>p b r. om_find ps (p, b) = Some r \<longrightarrow>
        pi_publisher (pr_identity r) = p \<and> pi_boot (pr_identity r) = b \<and> \<not> (pr_live r \<and> pr_fenced r))
     \<and> (\<forall>p b b' r r'. om_find ps (p, b) = Some r \<longrightarrow> om_find ps (p, b') = Some r' \<longrightarrow>
          pr_live r \<longrightarrow> pr_live r' \<longrightarrow> b = b')"

definition owners_inv :: "Store \<Rightarrow> bool" where
  "owners_inv st \<longleftrightarrow>
     (\<forall>j i. om_find (s_node_owner st) j = Some i \<longrightarrow>
        (\<exists>lin. find_lineage st i = Some lin \<and> om_has (g_nodes (l_graph lin)) j))"

definition store_inv :: "hash_fun \<Rightarrow> Store \<Rightarrow> bool" where
  "store_inv H st \<longleftrightarrow>
     (\<forall>i lin. find_lineage st i = Some lin \<longrightarrow> lineage_inv H (s_limits st) i lin)
     \<and> om_size (s_lineages st) \<le> max_lineages (s_limits st)
     \<and> publishers_inv (s_publishers st)
     \<and> om_size (s_publishers st) \<le> max_publishers (s_limits st)
     \<and> owners_inv st"

lemma store_invD:
  assumes "store_inv H st"
  shows "find_lineage st i = Some lin \<Longrightarrow> lineage_inv H (s_limits st) i lin"
    "om_size (s_lineages st) \<le> max_lineages (s_limits st)" "publishers_inv (s_publishers st)"
    "om_size (s_publishers st) \<le> max_publishers (s_limits st)" "owners_inv st"
  using assms by (auto simp: store_inv_def)

lemma new_store_inv: "store_inv H (new_store limits)"
  by (simp add: store_inv_def new_store_def find_lineage_def publishers_inv_def owners_inv_def)

lemma new_lineage_inv: "lineage_inv H limits (derive_lineage_id H key) (new_lineage (derive_lineage_id H key) key)"
  by (simp add: lineage_inv_def new_lineage_def new_state_def)

text \<open>Replacing one lineage by one that keeps the invariant and its records.\<close>

lemma put_lineage_inv:
  assumes inv: "store_inv H st" and lin: "find_lineage st i = Some lin"
    and lin': "lineage_inv H (s_limits st) i lin'"
    and keep: "\<And>j. om_has (g_nodes (l_graph lin)) j \<Longrightarrow> om_has (g_nodes (l_graph lin')) j"
    and st': "s_lineages st' = om_put i lin' (s_lineages st)" "s_limits st' = s_limits st"
      "s_publishers st' = s_publishers st"
    and owner: "\<And>j. om_find (s_node_owner st') j = om_find (s_node_owner st) j
       \<or> om_find (s_node_owner st') j = Some i \<and> om_has (g_nodes (l_graph lin')) j"
  shows "store_inv H st'"
proof -
  have f: "find_lineage st' k = (if k = i then Some lin' else find_lineage st k)" for k
    using st'(1) by (simp add: find_lineage_def)
  have "om_has (s_lineages st) i" using lin by (simp add: find_lineage_def om_has_def)
  then have sz: "om_size (s_lineages st') = om_size (s_lineages st)"
    using st'(1) by (simp add: om_size_put)
  have "owners_inv st'"
    unfolding owners_inv_def
  proof (intro allI impI)
    fix j k assume k: "om_find (s_node_owner st') j = Some k"
    show "\<exists>lin. find_lineage st' k = Some lin \<and> om_has (g_nodes (l_graph lin)) j"
    proof (cases "om_find (s_node_owner st) j = Some k")
      case True
      then obtain l where "find_lineage st k = Some l" "om_has (g_nodes (l_graph l)) j"
        using store_invD(5) [OF inv] by (auto simp: owners_inv_def)
      then show ?thesis using f [of k] lin keep by (cases "k = i") auto
    next
      case False
      then show ?thesis using owner [of j] k f by auto
    qed
  qed
  then show ?thesis
    using store_invD [OF inv] lin' f st' sz by (auto simp: store_inv_def)
qed

lemma lineage_inv_effect:
  assumes inv: "lineage_inv H limits i lin" and eff: "lineage_effect H rq i limits lin lin'"
    and room: "om_find (l_attempts lin) (attempt_key rq) = None \<Longrightarrow>
      om_size (l_attempts lin) < max_attempts_per_lineage limits"
  shows "lineage_inv H limits i lin'"
proof -
  have g: "grows i H limits (l_graph lin) (l_graph lin')" using eff by (simp add: lineage_effect_def)
  have "om_size (l_attempts lin') \<le> max_attempts_per_lineage limits"
    using eff inv room
    by (auto simp: lineage_effect_def lineage_inv_def om_size_emplace om_has_def)
  moreover have "ls_current_node (l_state lin') = 0
      \<or> om_has (g_nodes (l_graph lin')) (ls_current_node (l_state lin'))"
    using eff inv evolves_nodes [OF g] by (auto simp: lineage_effect_def lineage_inv_def)
  moreover have "graph_of i (l_graph lin')"
    using evolves_graph_of [OF g _ commit_op_lineage] inv by (simp add: lineage_inv_def)
  ultimately show ?thesis
    using eff inv evolves_wf [OF g] evolves_bounded [OF g]
    by (simp add: lineage_inv_def lineage_effect_def)
qed

lemma acquire_inv:
  assumes inv: "store_inv H st" and acq: "acquire_lineage (derive_lineage_id H key) key True st = Some (st1, lin)"
  shows "store_inv H st1 \<and> find_lineage st1 (derive_lineage_id H key) = Some lin \<and> same_registry st st1
    \<and> (\<forall>i l. find_lineage st i = Some l \<longrightarrow> find_lineage st1 i = Some l)"
  using acq
proof (cases rule: acquire_cases)
  case present
  then show ?thesis using inv by simp
next
  case fresh
  let ?i = "derive_lineage_id H key"
  have f: "find_lineage st1 k = (if k = ?i then Some lin else find_lineage st k)" for k
    using fresh(4) by (simp add: find_lineage_def put_lineage_def)
  have "\<not> om_has (s_lineages st) ?i" using fresh(1) by (simp add: find_lineage_def om_has_def)
  then have "om_size (s_lineages st1) \<le> max_lineages (s_limits st1)"
    using fresh(2,4) by (simp add: om_size_put put_lineage_def)
  moreover have "owners_inv st1"
    using store_invD(5) [OF inv] fresh(1,4) f unfolding owners_inv_def
    by (auto simp: put_lineage_def) (metis option.distinct(1))
  moreover have "same_registry st st1" using fresh(4) by (simp add: same_registry_def put_lineage_def)
  moreover have "lineage_inv H (s_limits st1) k l" if "find_lineage st1 k = Some l" for k l
    using that f fresh(3,4) store_invD(1) [OF inv] new_lineage_inv
    by (auto simp: put_lineage_def split: if_splits)
  ultimately show ?thesis
    using store_invD(3,4) [OF inv] f fresh(1,4)
    by (auto simp: store_inv_def put_lineage_def)
qed

lemma store_effect_inv:
  assumes inv: "store_inv H st" and lin: "find_lineage st i = Some lin"
    and eff: "store_effect H rq i st lin st'"
    and room: "om_find (l_attempts lin) (attempt_key rq) = None \<Longrightarrow>
      om_size (l_attempts lin) < max_attempts_per_lineage (s_limits st)"
  shows "store_inv H st'"
proof -
  obtain lin' where l: "s_lineages st' = om_put i lin' (s_lineages st)"
    "lineage_effect H rq i (s_limits st) lin lin'"
    "\<And>j. om_find (s_node_owner st') j = om_find (s_node_owner st) j
       \<or> om_find (s_node_owner st') j = Some i \<and> om_has (g_nodes (l_graph lin')) j"
    using eff unfolding store_effect_def by blast
  have reg: "s_limits st' = s_limits st" "s_publishers st' = s_publishers st"
    using eff by (simp_all add: store_effect_def same_registry_def)
  have "lineage_inv H (s_limits st) i lin'"
    using lineage_inv_effect [OF store_invD(1) [OF inv lin] l(2) room] .
  moreover have "grows i H (s_limits st) (l_graph lin) (l_graph lin')"
    using l(2) by (simp add: lineage_effect_def)
  ultimately show ?thesis
    using put_lineage_inv [OF inv lin _ _ l(1) reg l(3)] evolves_nodes by blast
qed

lemma checks_room:
  assumes "commit_checks H rq st i lin = Inr p" and "om_find (l_attempts lin) (attempt_key rq) = None"
  shows "om_size (l_attempts lin) < max_attempts_per_lineage (s_limits st)"
proof -
  obtain node es where "p = (node, es)" by (cases p)
  with assms(1) obtain "stage_limits rq (s_limits st) lin es = None" by (auto elim: commit_checks_Inr)
  then show ?thesis using assms(2) by (simp add: stage_limits_def split: if_splits)
qed

lemma commit_applied:
  assumes inv: "store_inv H st"
    and acq: "acquire_lineage (derive_lineage_id H (np_key rq)) (np_key rq) True st = Some (st1, lin)"
    and checks: "commit_checks H rq st1 (derive_lineage_id H (np_key rq)) lin = Inr (node, es)"
  shows "store_effect H rq (derive_lineage_id H (np_key rq)) st1 lin
      (fst (commit_apply H rq (derive_lineage_id H (np_key rq)) node es st1 lin))"
proof -
  note a = acquire_inv [OF inv acq]
  have "graph_of (derive_lineage_id H (np_key rq)) (l_graph lin)"
    using store_invD(1) [of H st1] a by (auto simp: lineage_inv_def)
  then show ?thesis using commit_apply_effect commit_checks_lineage [OF checks] by blast
qed

lemma commit_inv:
  assumes inv: "store_inv H st"
  shows "store_inv H (fst (commit H rq st))"
proof (cases rule: commit_cases [of H rq st])
  case (rejected st1 lin r)
  then show ?thesis using acquire_inv [OF inv rejected(2)] by simp
next
  case (applied st1 lin node es)
  then show ?thesis
    using store_effect_inv commit_applied [OF inv applied(2,3)] acquire_inv [OF inv applied(2)]
      checks_room [OF applied(3)] by (metis (no_types, lifting))
qed (use inv in simp_all)

section \<open>Lineages only grow\<close>

definition store_grows :: "hash_fun \<Rightarrow> Store \<Rightarrow> Store \<Rightarrow> bool" where
  "store_grows H st st' \<longleftrightarrow>
     (\<forall>i lin. find_lineage st i = Some lin \<longrightarrow>
        (\<exists>lin'. find_lineage st' i = Some lin' \<and> grows i H (s_limits st) (l_graph lin) (l_graph lin')
            \<and> ls_key (l_state lin') = ls_key (l_state lin)))
     \<and> s_limits st' = s_limits st"

lemma store_grows_refl [simp, intro]: "store_grows H st st"
  by (auto simp: store_grows_def)

lemma store_grows_trans:
  assumes "store_grows H st st'" and "store_grows H st' st''"
  shows "store_grows H st st''"
  unfolding store_grows_def
proof (intro conjI allI impI)
  fix i lin assume "find_lineage st i = Some lin"
  then obtain lin' where 1: "find_lineage st' i = Some lin'" "grows i H (s_limits st) (l_graph lin) (l_graph lin')"
      "ls_key (l_state lin') = ls_key (l_state lin)"
    using assms(1) unfolding store_grows_def by blast
  then obtain lin'' where "find_lineage st'' i = Some lin''" "grows i H (s_limits st') (l_graph lin') (l_graph lin'')"
      "ls_key (l_state lin'') = ls_key (l_state lin')"
    using assms(2) unfolding store_grows_def by blast
  moreover have "s_limits st' = s_limits st" using assms(1) by (simp add: store_grows_def)
  ultimately have "find_lineage st'' i = Some lin''" "grows i H (s_limits st) (l_graph lin) (l_graph lin'')"
      "ls_key (l_state lin'') = ls_key (l_state lin)"
    using 1(3) evolves_trans [OF 1(2)] by simp_all
  then show "\<exists>lin''. find_lineage st'' i = Some lin'' \<and> grows i H (s_limits st) (l_graph lin) (l_graph lin'')
      \<and> ls_key (l_state lin'') = ls_key (l_state lin)"
    by blast
qed (use assms in \<open>simp add: store_grows_def\<close>)

lemma store_grows_put:
  assumes "find_lineage st i = Some lin" and "grows i H (s_limits st) (l_graph lin) (l_graph lin')"
    and "ls_key (l_state lin') = ls_key (l_state lin)"
    and "s_lineages st' = om_put i lin' (s_lineages st)" and "s_limits st' = s_limits st"
  shows "store_grows H st st'"
  using assms by (auto simp: store_grows_def find_lineage_def)

lemma commit_grows:
  assumes inv: "store_inv H st"
  shows "store_grows H st (fst (commit H rq st)) \<and> same_registry st (fst (commit H rq st))"
proof -
  have a: "store_grows H st st1 \<and> same_registry st st1"
    if "acquire_lineage (derive_lineage_id H (np_key rq)) (np_key rq) True st = Some (st1, lin)" for st1 lin
    using acquire_inv [OF inv that] by (auto simp: store_grows_def same_registry_def)
  show ?thesis
  proof (cases rule: commit_cases [of H rq st])
    case (rejected st1 lin r)
    then show ?thesis using a by simp
  next
    case (applied st1 lin node es)
    let ?st' = "fst (commit_apply H rq (derive_lineage_id H (np_key rq)) node es st1 lin)"
    have e: "store_effect H rq (derive_lineage_id H (np_key rq)) st1 lin ?st'"
      using commit_applied [OF inv applied(2,3)] .
    then have "store_grows H st1 ?st'" "same_registry st1 ?st'"
      using acquire_inv [OF inv applied(2)] store_grows_put
      unfolding store_effect_def lineage_effect_def same_registry_def by blast+
    then show ?thesis
      using a [OF applied(2)] applied(4) store_grows_trans same_registry_trans by metis
  qed simp_all
qed

section \<open>Re-evaluation through an index\<close>

definition reevaluate_group :: "RouteLineageId \<times> ProvenanceNodeId list \<Rightarrow> Store \<Rightarrow> Store" where
  "reevaluate_group = (\<lambda>(owner, members) st.
     case find_lineage st owner of
       None \<Rightarrow> st | Some lin \<Rightarrow> put_lineage owner (fst (reevaluate_nodes st members lin)) st)"

lemma reevaluate_index_fold:
  "reevaluate_index ids st = fold reevaluate_group (om_entries (group_by_owner st ids)) st"
  by (simp add: reevaluate_index_def reevaluate_group_def)

text \<open>Only graphs change: the states of the lineages, their ledgers and the rest of the store stay.\<close>

definition graphs_only :: "Store \<Rightarrow> Store \<Rightarrow> bool" where
  "graphs_only st st' \<longleftrightarrow>
     (\<exists>ls. st' = st\<lparr>s_lineages := ls\<rparr>)
     \<and> (\<forall>i. map_option (\<lambda>l. (l_state l, l_attempts l)) (find_lineage st' i)
          = map_option (\<lambda>l. (l_state l, l_attempts l)) (find_lineage st i))"

lemma graphs_only_refl [simp]: "graphs_only st st"
  unfolding graphs_only_def by (auto intro: exI [of _ "s_lineages st"])

lemma graphs_only_trans: "graphs_only st st' \<Longrightarrow> graphs_only st' st'' \<Longrightarrow> graphs_only st st''"
  unfolding graphs_only_def by auto

lemma graphs_only_registry:
  assumes "graphs_only st st'"
  shows "same_registry st st'" "s_watermarks st' = s_watermarks st" "s_publishers st' = s_publishers st"
    "s_limits st' = s_limits st" "s_boot_index st' = s_boot_index st" "s_node_owner st' = s_node_owner st"
  using assms by (auto simp: graphs_only_def same_registry_def)

lemma reevaluate_group_effect:
  assumes inv: "store_inv H st"
  shows "store_inv H (reevaluate_group p st) \<and> store_grows H st (reevaluate_group p st)
    \<and> graphs_only st (reevaluate_group p st)"
proof (cases "find_lineage st (fst p)")
  case None
  then show ?thesis using inv by (simp add: reevaluate_group_def case_prod_beta)
next
  case (Some lin)
  let ?lin' = "fst (reevaluate_nodes st (snd p) lin)"
  have s: "lineage_step (fst p) H (s_limits st) lin ?lin'" "l_state ?lin' = l_state lin"
    using step_reevaluate by blast+
  then have g: "grows (fst p) H (s_limits st) (l_graph lin) (l_graph ?lin')"
    by (simp add: lineage_step_def)
  note l = store_invD(1) [OF inv Some]
  have "lineage_inv H (s_limits st) (fst p) ?lin'"
    using l s evolves_wf [OF g] evolves_bounded [OF g] evolves_nodes [OF g]
      evolves_graph_of [OF g _ commit_op_lineage]
    by (auto simp: lineage_inv_def lineage_step_def)
  then have "store_inv H (put_lineage (fst p) ?lin' st)"
    using evolves_nodes [OF g] by (intro put_lineage_inv [OF inv Some]) simp_all
  moreover have "store_grows H st (put_lineage (fst p) ?lin' st)"
    using store_grows_put [OF Some g] s(2) by simp
  moreover have "graphs_only st (put_lineage (fst p) ?lin' st)"
    using s Some by (auto simp: graphs_only_def put_lineage_def find_lineage_def lineage_step_def)
  ultimately show ?thesis using Some by (simp add: reevaluate_group_def case_prod_beta)
qed

lemma reevaluate_index_effect:
  assumes "store_inv H st"
  shows "store_inv H (reevaluate_index ids st) \<and> store_grows H st (reevaluate_index ids st)
    \<and> graphs_only st (reevaluate_index ids st)"
proof -
  have "store_inv H (fold reevaluate_group ps st) \<and> store_grows H st (fold reevaluate_group ps st)
      \<and> graphs_only st (fold reevaluate_group ps st)" for ps
    using assms
  proof (induction ps arbitrary: st)
    case (Cons p ps)
    note e = reevaluate_group_effect [OF Cons.prems, of p]
    note ih = Cons.IH [OF e [THEN conjunct1]]
    show ?case
      using ih store_grows_trans [OF e [THEN conjunct2, THEN conjunct1] ih [THEN conjunct2, THEN conjunct1]]
        graphs_only_trans [OF e [THEN conjunct2, THEN conjunct2] ih [THEN conjunct2, THEN conjunct2]]
      by simp
  qed simp
  then show ?thesis by (simp add: reevaluate_index_fold)
qed

section \<open>The registry\<close>

lemma lineages_only_inv:
  assumes "store_inv H st" and "s_lineages st' = s_lineages st" and "s_limits st' = s_limits st"
    and "s_node_owner st' = s_node_owner st" and "publishers_inv (s_publishers st')"
    and "om_size (s_publishers st') \<le> max_publishers (s_limits st)"
  shows "store_inv H st'" "store_grows H st st'"
  using assms by (auto simp: store_inv_def owners_inv_def find_lineage_def store_grows_def)

lemma find_fence_boots:
  "om_find (fence_boots p boots ps) (q, b) =
     (if q = p \<and> b \<in> set boots then map_option fence_record (om_find ps (q, b)) else om_find ps (q, b))"
proof (induction boots arbitrary: ps)
  case (Cons c boots)
  have idem: "map_option fence_record (map_option fence_record x) = map_option fence_record x" for x
    by (cases x) (simp_all add: fence_record_def)
  let ?ps = "case om_find ps (p, c) of None \<Rightarrow> ps | Some r \<Rightarrow> om_put (p, c) (fence_record r) ps"
  have "om_find ?ps (q, b) = (if q = p \<and> b = c then map_option fence_record (om_find ps (q, b)) else om_find ps (q, b))"
    by (auto split: option.split)
  then show ?case
    using Cons.IH [of ?ps] idem by (auto simp: fence_boots_def)
qed (simp add: fence_boots_def)

lemma size_fence_boots: "om_size (fence_boots p boots ps) = om_size ps"
proof -
  have "om_has (fence_boots p boots ps) k \<longleftrightarrow> om_has ps k" for k
    using find_fence_boots [of p boots ps "fst k" "snd k"] by (auto simp: om_has_def split: if_splits)
  then show ?thesis by (simp add: om_size_card)
qed

lemma superseded_boots_iff:
  "b \<in> set (superseded_boots identity st) \<longleftrightarrow>
     b \<noteq> pi_boot identity \<and> (\<exists>r. find_publisher st (pi_publisher identity) b = Some r \<and> pr_live r)"
proof -
  have "b \<in> set (superseded_boots identity st) \<longleftrightarrow>
      (\<exists>p r. ((p, b), r) \<in> set (om_entries (s_publishers st)) \<and> p = pi_publisher identity
         \<and> b \<noteq> pi_boot identity \<and> pr_live r)"
    unfolding superseded_boots_def set_map_filter by (auto split: if_splits) (rule bexI, auto)
  then show ?thesis by (auto simp: in_entries_iff find_publisher_def)
qed

lemma publishers_inv_register:
  assumes inv: "publishers_inv (s_publishers st)"
  shows "publishers_inv (om_put (pi_publisher identity, pi_boot identity)
     \<lparr>pr_identity = identity, pr_scope = scope, pr_live = True, pr_fenced = False\<rparr>
     (fence_boots (pi_publisher identity) (superseded_boots identity st) (s_publishers st)))"
  using inv superseded_boots_iff [of _ identity st]
  unfolding publishers_inv_def
  by (auto simp: find_fence_boots fence_record_def find_publisher_def split: if_splits)

lemma publishers_inv_fence:
  assumes inv: "publishers_inv ps" and r: "om_find ps (p, b) = Some r"
    and r': "pr_identity r' = pr_identity r" "\<not> pr_live r'"
  shows "publishers_inv (om_put (p, b) r' ps)"
  using assms unfolding publishers_inv_def by (auto split: if_splits)

text \<open>What the operations on the registry and the watermarks do to the lineages: nothing but growth.\<close>

definition kept :: "hash_fun \<Rightarrow> Store \<Rightarrow> Store \<Rightarrow> bool" where
  "kept H st st' \<longleftrightarrow> store_inv H st' \<and> store_grows H st st'"

lemma keptI: "store_inv H st' \<Longrightarrow> store_grows H st st' \<Longrightarrow> kept H st st'"
  by (simp add: kept_def)

lemma kept_refl: "store_inv H st \<Longrightarrow> kept H st st"
  by (simp add: kept_def)

lemma kept_trans: "kept H st st' \<Longrightarrow> kept H st' st'' \<Longrightarrow> kept H st st''"
  by (auto simp: kept_def intro: store_grows_trans)

lemma kept_reevaluate: "kept H st st' \<Longrightarrow> kept H st (reevaluate_index ids st')"
  using reevaluate_index_effect [of H st' ids] kept_trans [of H st st'] by (auto simp: kept_def)

lemma kept_reevaluate_fold: "kept H st st' \<Longrightarrow> kept H st (fold (\<lambda>b s. reevaluate_index (f s b) s) bs st')"
  by (induction bs arbitrary: st') (auto intro: kept_reevaluate)

lemma kept_registry:
  assumes "kept H st st1" and "s_lineages st' = s_lineages st1" and "s_limits st' = s_limits st1"
    and "s_node_owner st' = s_node_owner st1" and "publishers_inv (s_publishers st')"
    and "om_size (s_publishers st') \<le> max_publishers (s_limits st1)"
  shows "kept H st st'"
  using lineages_only_inv [OF _ assms(2-6)] assms(1) by (auto simp: kept_def intro: store_grows_trans)

lemma kept_marks:
  assumes "kept H st st1" and "s_lineages st' = s_lineages st1" and "s_limits st' = s_limits st1"
    and "s_node_owner st' = s_node_owner st1" and "s_publishers st' = s_publishers st1"
  shows "kept H st st'"
  using assms store_invD(3,4) [of H st1] by (intro kept_registry [OF assms(1)]) (simp_all add: kept_def)

lemma register_epoch_Some:
  assumes "register_epoch epoch st = Some st1"
  shows "s_lineages st1 = s_lineages st" "s_limits st1 = s_limits st"
    "s_node_owner st1 = s_node_owner st" "s_publishers st1 = s_publishers st"
    "wm_epoch (s_watermarks st1) = epoch" "s_boot_index st1 = s_boot_index st"
  using assms by (auto simp: register_epoch_def Let_def split: if_splits)

lemma register_publisher_kept:
  assumes inv: "store_inv H st"
  shows "kept H st (fst (register_publisher identity scope st))"
proof (cases "register_epoch (pi_epoch identity) st")
  case None
  then show ?thesis using kept_refl [OF inv] by (simp add: register_publisher_def)
next
  case (Some st1)
  note e = register_epoch_Some [OF Some]
  have 1: "kept H st st1" using kept_marks [OF kept_refl [OF inv] e(1-4)] .
  let ?ps = "om_put (pi_publisher identity, pi_boot identity)
     \<lparr>pr_identity = identity, pr_scope = scope, pr_live = True, pr_fenced = False\<rparr>
     (fence_boots (pi_publisher identity) (superseded_boots identity st1) (s_publishers st1))"
  have "om_size ?ps \<le> max_publishers (s_limits st1)" if "om_size (s_publishers st1) < max_publishers (s_limits st1)"
    using that by (simp add: om_size_put size_fence_boots)
  moreover have "publishers_inv ?ps"
    using publishers_inv_register [of st1] store_invD(3) [of H st1] 1 by (simp add: kept_def)
  ultimately have "kept H st (st1\<lparr>s_publishers := ?ps\<rparr>)"
    if "om_size (s_publishers st1) < max_publishers (s_limits st1)"
    using that by (intro kept_registry [OF 1]) simp_all
  then show ?thesis
    using Some 1 kept_refl [OF inv] by (simp add: register_publisher_def Let_def kept_reevaluate_fold)
qed

lemma fence_kept:
  assumes 1: "kept H st st1" and r: "find_publisher st1 p b = Some r"
    and r': "pr_identity r' = pr_identity r" "\<not> pr_live r'"
  shows "kept H st (st1\<lparr>s_publishers := om_put (p, b) r' (s_publishers st1)\<rparr>)"
proof -
  have r1: "om_find (s_publishers st1) (p, b) = Some r" using r by (simp add: find_publisher_def)
  then have "om_has (s_publishers st1) (p, b)" by (simp add: om_has_def)
  then show ?thesis
    using 1 publishers_inv_fence [OF _ r1 r'] store_invD(3,4) [of H st1]
    by (intro kept_registry [OF 1]) (simp_all add: kept_def om_size_put)
qed

lemma fence_publisher_kept:
  assumes inv: "store_inv H st"
  shows "kept H st (fst (fence_publisher publisher boot auth st))"
  using kept_refl [OF inv] fence_kept [OF kept_refl [OF inv], of publisher boot]
  by (auto simp: fence_publisher_def Let_def fence_record_def kept_reevaluate split: option.split)

lemma notify_kept:
  assumes inv: "store_inv H st"
  shows "kept H st (fst (notify_dependency n st))"
proof (cases "notify_marks n st")
  case (Inl status)
  then show ?thesis using kept_refl [OF inv] by (simp add: notify_dependency_def)
next
  case (Inr p)
  obtain marks affected where p: "p = (marks, affected)" by (cases p)
  let ?st1 = "snd (next_store_generation (st\<lparr>s_watermarks := marks\<rparr>))"
  have "kept H st ?st1"
    by (rule kept_marks [OF kept_refl [OF inv]]) (simp_all add: next_store_generation_def case_prod_beta)
  then have "kept H st (fst (notify_finish n affected ?st1))" and "kept H st ?st1"
    using fence_kept [of H st ?st1]
    by (auto simp: notify_finish_def Let_def kept_reevaluate split: DependencyKind.split option.split)
  then show ?thesis
    using Inr p kept_refl [OF inv] by (simp add: notify_dependency_def case_prod_beta Let_def)
qed

lemma commit_kept: "store_inv H st \<Longrightarrow> kept H st (fst (commit H rq st))"
  using commit_inv commit_grows by (simp add: kept_def)

lemma commit_normalized_kept: "store_inv H st \<Longrightarrow> kept H st (fst (commit_normalized H n st))"
  using commit_kept kept_refl by (simp add: commit_normalized_def split: option.split)

lemma commit_session_kept: "store_inv H st \<Longrightarrow> kept H st (fst (commit_session H s np st))"
  using commit_kept kept_refl by (simp add: commit_session_def)

section \<open>Compaction\<close>

lemma compact_nodes_evolves:
  "list_all (\<lambda>n. n_lineage n = i) ns \<Longrightarrow>
     evolves (lineage_op i) H limits g (fst (compact_nodes H auth ns g))"
proof (induction ns arbitrary: g)
  case (Cons n ns)
  let ?t = "tombstone H auth n"
  have "lineage_op i (Op_compact_node (n_id n) ?t)" using Cons.prems by (simp add: tombstone_def)
  from evolves_op [of "lineage_op i", OF this, of H limits g]
  have 1: "evolves (lineage_op i) H limits g (fst (compact_node (n_id n) ?t g))" by simp
  show ?case
    using evolves_trans [OF 1 Cons.IH] Cons.prems 1 by (simp add: case_prod_beta Let_def)
qed simp

lemma compact_authority_Inr: "compact_authority auth i st = Inr lin \<Longrightarrow> find_lineage st i = Some lin"
  by (auto simp: compact_authority_def Let_def split: if_splits option.splits)

definition same_content :: "Lineage \<Rightarrow> Lineage \<Rightarrow> bool" where
  "same_content lin lin' \<longleftrightarrow> l_graph lin' = l_graph lin \<and> l_attempts lin' = l_attempts lin
     \<and> ls_id (l_state lin') = ls_id (l_state lin) \<and> ls_key (l_state lin') = ls_key (l_state lin)
     \<and> ls_current_node (l_state lin') = ls_current_node (l_state lin)
     \<and> ls_lifecycle (l_state lin') = ls_lifecycle (l_state lin)
     \<and> ls_current_route_generation (l_state lin') = ls_current_route_generation (l_state lin)
     \<and> ls_lineage_generation (l_state lin) \<le> ls_lineage_generation (l_state lin')"

lemma compact_finish_effect:
  "\<exists>lin' st1. fst (compact_finish i ids st lin) = put_lineage i lin' st1 \<and> same_content lin lin'
     \<and> st1 \<in> {st, snd (next_store_generation st)}"
proof -
  let ?lin1 = "refresh_counters (lin\<lparr>l_state := (l_state lin)\<lparr>ls_compacted_node_count :=
                   ls_compacted_node_count (l_state lin) + length ids\<rparr>\<rparr>)"
  let ?lin2 = "?lin1\<lparr>l_state := (l_state ?lin1)\<lparr>ls_lineage_generation :=
                   snd (bump_generation (ls_lineage_generation (l_state ?lin1)))\<rparr>\<rparr>"
  have "same_content lin ?lin1" "same_content lin ?lin2"
    by (simp_all add: same_content_def refresh_counters_def bump_generation_mono)
  moreover have "fst (compact_finish i ids st lin) \<in>
      {put_lineage i ?lin1 st, put_lineage i ?lin2 (snd (next_store_generation st))}"
    by (simp add: compact_finish_def Let_def case_prod_beta)
  ultimately show ?thesis by blast
qed

text \<open>The compaction of a lineage, before the bookkeeping.\<close>

definition compacted_graph :: "hash_fun \<Rightarrow> AuthorityContext \<Rightarrow> CompactOptions \<Rightarrow> Limits \<Rightarrow> Lineage \<Rightarrow> ProvenanceGraph" where
  "compacted_graph H auth options limits lin = fst (compact_nodes H auth
     (take (bound_or (co_max_compactions options) (max_batch_size limits))
       (compact_candidates (co_retain_explanation_depth options) limits lin)) (l_graph lin))"

lemma compact_effect:
  "fst (compact H i auth options st) = st
   \<or> (\<exists>lin lin' st1. find_lineage st i = Some lin
        \<and> fst (compact H i auth options st) = put_lineage i lin' st1
        \<and> same_content (lin\<lparr>l_graph := compacted_graph H auth options (s_limits st) lin\<rparr>) lin'
        \<and> st1 \<in> {st, snd (next_store_generation st)})"
proof (cases "compact_authority auth i st")
  case (Inl s)
  then show ?thesis by (simp add: compact_def)
next
  case (Inr lin)
  let ?r = "compact_nodes H auth
     (take (bound_or (co_max_compactions options) (max_batch_size (s_limits st)))
       (compact_candidates (co_retain_explanation_depth options) (s_limits st) lin)) (l_graph lin)"
  let ?lin = "lin\<lparr>l_graph := compacted_graph H auth options (s_limits st) lin\<rparr>"
  note f = compact_authority_Inr [OF Inr]
  show ?thesis
  proof (cases "st_is_ok (snd (snd ?r))")
    case False
    then have "fst (compact H i auth options st) = put_lineage i ?lin st"
      by (simp add: compact_def Inr case_prod_beta Let_def compacted_graph_def)
    moreover have "same_content ?lin ?lin" by (simp add: same_content_def)
    ultimately show ?thesis using f by blast
  next
    case True
    then have "fst (compact H i auth options st) = fst (compact_finish i (fst (snd ?r)) st ?lin)"
      by (simp add: compact_def Inr case_prod_beta Let_def compacted_graph_def)
    then show ?thesis using f compact_finish_effect [of i "fst (snd ?r)" st ?lin] by auto
  qed
qed

lemma compact_candidates_lineage:
  assumes "graph_of i (l_graph lin)"
  shows "list_all (\<lambda>n. n_lineage n = i) (take k (compact_candidates depth limits lin))"
proof -
  have "n_lineage n = i" if "n \<in> set (compact_candidates depth limits lin)" for n
    using assms that
    by (auto simp: compact_candidates_def Let_def nodes_in_order_def set_om_values graph_of_def)
  then show ?thesis by (auto simp: list_all_iff dest: in_set_takeD)
qed

lemma compact_inv:
  assumes inv: "store_inv H st"
  shows "store_inv H (fst (compact H i auth options st))"
  using compact_effect [of H i auth options st]
proof (elim disjE exE conjE)
  fix lin lin' st1
  assume f: "find_lineage st i = Some lin" and r: "fst (compact H i auth options st) = put_lineage i lin' st1"
    and same: "same_content (lin\<lparr>l_graph := compacted_graph H auth options (s_limits st) lin\<rparr>) lin'"
    and st1: "st1 \<in> {st, snd (next_store_generation st)}"
  note l = store_invD(1) [OF inv f]
  have e: "evolves (lineage_op i) H (s_limits st) (l_graph lin) (l_graph lin')"
    using compact_nodes_evolves [OF compact_candidates_lineage] l same
    by (simp add: same_content_def compacted_graph_def lineage_inv_def)
  have "lineage_inv H (s_limits st) i lin'"
    using l same evolves_wf [OF e] evolves_bounded [OF e] evolves_nodes [OF e] evolves_graph_of [OF e]
    by (auto simp: lineage_inv_def same_content_def)
  moreover have "s_lineages st1 = s_lineages st" "s_limits st1 = s_limits st"
    "s_publishers st1 = s_publishers st" "s_node_owner st1 = s_node_owner st"
    using st1 next_store_generation_facts [of st] by (auto simp: same_registry_def)
  ultimately show ?thesis
    unfolding r by (intro put_lineage_inv [OF inv f, of lin']) (simp_all add: evolves_nodes [OF e])
qed (use inv in simp)

section \<open>Every operation\<close>

datatype StoreOp =
    SO_register PublisherIdentity AuthorityScope
  | SO_reincarnate PublisherId WorkerBootId CoordinatorEpoch AuthorityScope
  | SO_fence PublisherId WorkerBootId AuthorityContext
  | SO_notify DependencyNotification
  | SO_advance_epoch CoordinatorEpoch AuthorityContext
  | SO_publish_route PublishRouteRequest
  | SO_declare DeclarationRequest
  | SO_link LinkDerivationRequest
  | SO_withdraw AdministrativeRequest
  | SO_revoke AdministrativeRequest
  | SO_retire AdministrativeRequest
  | SO_revalidate AdministrativeRequest
  | SO_invalidate AdministrativeRequest
  | SO_correct CorrectionRequest
  | SO_session PublicationSession
  | SO_compact RouteLineageId AuthorityContext CompactOptions

definition with_outcome :: "'s \<times> 'a Result \<Rightarrow> 's \<times> Outcome" where
  "with_outcome p = (fst p, r_outcome (snd p))"

text \<open>One call of the public interface that may change the store, with its outcome.\<close>

fun store_op :: "hash_fun \<Rightarrow> StoreOp \<Rightarrow> Store \<Rightarrow> Store \<times> Outcome" where
  "store_op H (SO_register identity scope) st = with_outcome (register_publisher identity scope st)"
| "store_op H (SO_reincarnate p b ep scope) st = with_outcome (reincarnate_publisher p b ep scope st)"
| "store_op H (SO_fence p b auth) st = map_prod id st_outcome (fence_publisher p b auth st)"
| "store_op H (SO_notify n) st = map_prod id st_outcome (notify_dependency n st)"
| "store_op H (SO_advance_epoch ep auth) st = map_prod id st_outcome (advance_epoch ep auth st)"
| "store_op H (SO_publish_route rq) st = with_outcome (publish_route H rq st)"
| "store_op H (SO_declare rq) st = with_outcome (declare_record H rq st)"
| "store_op H (SO_link rq) st = with_outcome (link_derivation H rq st)"
| "store_op H (SO_withdraw rq) st = with_outcome (withdraw H rq st)"
| "store_op H (SO_revoke rq) st = with_outcome (revoke H rq st)"
| "store_op H (SO_retire rq) st = with_outcome (retire H rq st)"
| "store_op H (SO_revalidate rq) st = with_outcome (revalidate H rq st)"
| "store_op H (SO_invalidate rq) st = with_outcome (invalidate H rq st)"
| "store_op H (SO_correct rq) st = with_outcome (correct_record H rq st)"
| "store_op H (SO_session ps) st = with_outcome (snd (session_commit H ps st))"
| "store_op H (SO_compact i auth options) st = with_outcome (compact H i auth options st)"

definition store_ops :: "hash_fun \<Rightarrow> StoreOp list \<Rightarrow> Store \<Rightarrow> Store" where
  "store_ops H ops st = fold (\<lambda>op st. fst (store_op H op st)) ops st"

lemma store_ops_Nil [simp]: "store_ops H [] st = st"
  and store_ops_Cons [simp]: "store_ops H (op # ops) st = store_ops H ops (fst (store_op H op st))"
  and store_ops_append: "store_ops H (ops @ ops') st = store_ops H ops' (store_ops H ops st)"
  by (simp_all add: store_ops_def)

fun is_compaction :: "StoreOp \<Rightarrow> bool" where
  "is_compaction (SO_compact i auth options) = True"
| "is_compaction _ = False"

lemmas entry_points = publish_route_def declare_record_def link_derivation_def withdraw_def revoke_def
  retire_def revalidate_def invalidate_def correct_record_def

lemma store_op_kept:
  assumes inv: "store_inv H st" and "\<not> is_compaction op"
  shows "kept H st (fst (store_op H op st))"
proof (cases op)
  case (SO_session ps)
  then show ?thesis
    using commit_session_kept [OF inv] kept_refl [OF inv]
    by (simp add: with_outcome_def session_commit_def)
next
  case (SO_compact i auth options)
  then show ?thesis using assms(2) by simp
qed (simp_all add: with_outcome_def entry_points reincarnate_publisher_def advance_epoch_def
    commit_normalized_kept [OF inv] register_publisher_kept [OF inv] fence_publisher_kept [OF inv]
    notify_kept [OF inv] kept_refl [OF inv])

lemma store_op_inv: "store_inv H st \<Longrightarrow> store_inv H (fst (store_op H op st))"
proof (cases "is_compaction op")
  case True
  assume "store_inv H st"
  with True show ?thesis by (cases op) (simp_all add: with_outcome_def compact_inv)
qed (use store_op_kept in \<open>simp add: kept_def\<close>)

interpretation store_run: checked_mutator "store_inv H" "store_op H" for H
  by unfold_locales (rule store_op_inv)

lemma store_ops_inv: "store_inv H st \<Longrightarrow> store_inv H (store_ops H ops st)"
  using store_run.runs_inv [of H st ops] by (simp add: store_ops_def)

end
