(* ===== verification/Store_Samples.thy ===== *)
theory Store_Samples
  imports Store_Inv
begin

text \<open>
  A small concrete store for the witnesses: narrow limits, one fabric publisher, one route. Its
  operations are evaluated by the definitions alone.
\<close>

definition sample_limits :: Limits where
  "sample_limits = \<lparr>
     max_lineages = 4, max_store_bytes = 900, max_nodes_per_lineage = 8, max_edges_per_lineage = 8,
     max_history_nodes_per_lineage = 4, max_attempts_per_lineage = 4,
     max_parents_per_node = 1, max_children_per_node = 4,
     max_traversal_depth = 4, max_query_results = 4, max_visited_nodes = 8,
     max_explanation_nodes = 4, max_batch_size = 4, max_evidence_entries = 4,
     max_semantic_key_bytes = 4, max_frame_bytes = 8, max_publishers = 4,
     max_sessions = 4, max_frame_assembly_ms = 1, max_persistence_record_bytes = 800,
     max_persistence_nodes = 8, max_persistence_edges = 8\<rparr>"

definition sample_key :: LineageKey where
  "sample_key = \<lparr>lk_route = 3, lk_semantic_key = ''a''\<rparr>"

definition sample_identity :: PublisherIdentity where
  "sample_identity = \<lparr>pi_publisher = 1, pi_boot = 2, pi_epoch = 1\<rparr>"

definition sample_store :: Store where
  "sample_store = fst (register_publisher sample_identity scope_fabric (new_store sample_limits))"

text \<open>The root of the route, then a successor of it under its own attempt.\<close>

definition sample_root :: PublishRouteRequest where
  "sample_root = \<lparr>rq_key = sample_key, rq_route_generation = 1,
     rq_route_state_digest = digest_from_bytes [1], rq_reason = RC_InitialRoute, rq_source = SC_RouteFabric,
     rq_root_reason = Some RR_InitialPublication, rq_evidence = [], rq_authority = sample_authority,
     rq_bindings = no_bindings, rq_edges = [], rq_explicit_lineage = None\<rparr>"

definition sample_normal :: "PublishRouteRequest \<Rightarrow> NormalizedPublication" where
  "sample_normal rq = the (r_value (normalize_route rq sample_limits))"

definition sample_published :: Store where
  "sample_published = fst (publish_route sample_hash sample_root sample_store)"

lemma sample_make_store: "make_store sample_limits = Inr (new_store sample_limits)"
  by (simp add: make_store_def limits_error_def sample_limits_def)

lemma sample_store_ops:
  "sample_store = store_ops sample_hash [SO_register sample_identity scope_fabric] (new_store sample_limits)"
  by (simp add: sample_store_def with_outcome_def)

lemma sample_published_ops:
  "sample_published = store_ops sample_hash
     [SO_register sample_identity scope_fabric, SO_publish_route sample_root] (new_store sample_limits)"
  by (simp add: sample_published_def sample_store_def with_outcome_def)

lemma sample_store_inv: "store_inv sample_hash sample_store" "store_inv sample_hash sample_published"
  by (simp_all only: sample_store_ops sample_published_ops store_ops_inv [OF new_store_inv])

lemma sample_lineage_id: "derive_lineage_id sample_hash sample_key = 48"
  by code_simp

text \<open>The publication is evaluated once; what the witnesses need of it are its consequences.\<close>

lemma sample_publication_run:
  "(case publish_route sample_hash sample_root sample_store of (st, r) \<Rightarrow>
      r_outcome r = O_Created \<and> r_has_value r \<and> find_lineage sample_store 48 = None
      \<and> map_option (\<lambda>lin. om_has (g_nodes (l_graph lin)) 77) (find_lineage st 48) = Some True)"
  by code_simp

lemma sample_created: "r_outcome (snd (publish_route sample_hash sample_root sample_store)) = O_Created"
  "r_value (snd (publish_route sample_hash sample_root sample_store)) \<noteq> None"
  using sample_publication_run by (auto simp: r_has_value_def split: prod.splits)

lemma sample_published_lineage:
  "\<exists>lin. find_lineage sample_published 48 = Some lin \<and> om_has (g_nodes (l_graph lin)) 77"
  using sample_publication_run by (auto simp: sample_published_def split: prod.splits)

lemma sample_published_new: "sample_published \<noteq> sample_store"
  using sample_publication_run by (auto simp: sample_published_def split: prod.splits)

lemma sample_publish_commit:
  "publish_route sample_hash sample_root sample_store = commit sample_hash (sample_normal sample_root) sample_store"
proof -
  have "r_value (normalize_route sample_root sample_limits) = Some (sample_normal sample_root)" by code_simp
  moreover have "s_limits sample_store = sample_limits" by code_simp
  ultimately show ?thesis by (simp add: publish_route_def commit_normalized_def)
qed

end
