(* ===== verification/Wire_Codec.thy ===== *)
theory Wire_Codec
  imports Wire Store_Samples
begin

text \<open>
  Requests arrive as they were sent. The locale \<open>payload_codec\<close> is the contract of a payload: what is
  decoded from an encoded payload is what the receiver is meant to see of it, which is the payload itself
  except that the evidence of derivations is lost. Every request of the protocol interprets it.
\<close>

section \<open>Fields that are left alone\<close>

lemma word_u16_neq: "unat f \<noteq> unat g \<Longrightarrow> f \<noteq> (g :: u16)"
  by auto

lemma holds_run_cong:
  assumes "unat c + length vs \<le> 65536"
    and "\<And>f. unat c \<le> unat f \<Longrightarrow> unat f < unat c + length vs \<Longrightarrow> fb_find bag' f = fb_find bag f"
  shows "holds_run bag' c vs \<longleftrightarrow> holds_run bag c vs"
  using assms holds_run_other [of c vs bag' bag] holds_run_other [of c vs bag bag'] by auto

lemma holds_run_set:
  assumes "unat c + length vs \<le> 65536" and "unat f < unat c \<or> unat c + length vs \<le> unat f"
  shows "holds_run (fb_set_bytes f v bag) c vs \<longleftrightarrow> holds_run bag c vs"
  using assms by (intro holds_run_cong) auto

lemma holds_run_put:
  assumes "unat c + length vs \<le> 65536" and "unat d + length ws \<le> 65536"
    and "unat d + length ws \<le> unat c \<or> unat c + length vs \<le> unat d"
  shows "holds_run (put_run d ws bag) c vs \<longleftrightarrow> holds_run bag c vs"
  using assms by (intro holds_run_cong) (auto simp: fb_find_put_run)

lemma fb_has_simps [simp]:
  "\<not> fb_has fb_empty f" "fb_has (fb_set_bytes g v bag) f \<longleftrightarrow> f = g \<or> fb_has bag f"
  by (auto simp: fb_has_def)

lemma fb_has_put_run:
  "unat c + length vs \<le> 65536 \<Longrightarrow> fb_has (put_run c vs bag) f \<longleftrightarrow>
     (unat c \<le> unat f \<and> unat f < unat c + length vs) \<or> fb_has bag f"
  by (auto simp: fb_has_def fb_find_put_run)

lemma field_rangesI: "(lo, hi) \<in> set ranges \<Longrightarrow> lo \<le> unat f \<Longrightarrow> unat f \<le> hi \<Longrightarrow> f \<in> set (field_ranges ranges)"
  by (auto simp: field_ranges_def simp del: upt_Suc intro!: bexI [of _ "(lo, hi)"] image_eqI [where x = "unat f"])

lemma length_fields_mem: "(f, v) \<in> set fs \<Longrightarrow> length v \<le> length (fields_bytes fs)"
  by (induction fs) auto

lemma fb_find_length: "fb_ok bag \<Longrightarrow> fb_find bag f = Some v \<Longrightarrow> length v \<le> length (fb_encoded bag)"
  by (simp add: fb_ok_def fb_find_def in_entries_iff [symmetric] length_fields_mem)

lemma holds_run_mem: "holds_run bag c vs \<Longrightarrow> v \<in> set vs \<Longrightarrow> \<exists>f. fb_find bag f = Some v"
  by (induction vs arbitrary: c) auto

section \<open>The composite sections of a message\<close>

lemma length_authority_content [simp]: "length (authority_content a) = 8"
  by (simp add: authority_content_def)

text \<open>A bag that carries an authority, evidence and bindings at their usual fields.\<close>

definition carries :: "Limits \<Rightarrow> AuthorityContext \<Rightarrow> EvidenceVector \<Rightarrow> FieldBag \<Rightarrow> bool" where
  "carries limits a ev bag \<longleftrightarrow> holds_run bag 8 (authority_content a)
     \<and> fb_find bag 16 = Some (fb_encoded (evidence_bag ev))"

definition carries_bindings :: "Bindings \<Rightarrow> FieldBag \<Rightarrow> bool" where
  "carries_bindings b bag \<longleftrightarrow> fb_find bag 20 = Some (store_le32 (binding_presence b))
     \<and> holds_run bag 21 (bindings_content b)"

lemma unat_u16_numerals [simp]:
  "unat (8 :: u16) = 8" "unat (16 :: u16) = 16" "unat (20 :: u16) = 20" "unat (21 :: u16) = 21"
  "unat (100 :: u16) = 100" "unat (101 :: u16) = 101"
  by simp_all

lemma put_sections:
  "carries limits a ev (put_evidence ev 16 (put_authority a 8 bag))"
  "unat f < 8 \<Longrightarrow> fb_find (put_evidence ev 16 (put_authority a 8 bag)) f = fb_find bag f"
  "fb_has (put_evidence ev 16 (put_authority a 8 bag)) f \<longleftrightarrow> (8 \<le> unat f \<and> unat f \<le> 16) \<or> fb_has bag f"
proof -
  show "carries limits a ev (put_evidence ev 16 (put_authority a 8 bag))"
    by (simp add: carries_def put_evidence_def fb_set_nested_def put_authority_run holds_run_set holds_put_run)
  show "unat f < 8 \<Longrightarrow> fb_find (put_evidence ev 16 (put_authority a 8 bag)) f = fb_find bag f"
    by (auto simp: put_evidence_def fb_set_nested_def put_authority_run fb_find_put_run)
  have "f = 16 \<longleftrightarrow> unat f = 16" by (simp add: word_unat_eq_iff)
  then show "fb_has (put_evidence ev 16 (put_authority a 8 bag)) f \<longleftrightarrow> (8 \<le> unat f \<and> unat f \<le> 16) \<or> fb_has bag f"
    by (auto simp: put_evidence_def fb_set_nested_def put_authority_run fb_has_put_run)
qed

lemma put_bindings_sections:
  "carries_bindings b (put_bindings b 20 bag)"
  "unat f < 20 \<Longrightarrow> fb_find (put_bindings b 20 bag) f = fb_find bag f"
  "carries limits a ev bag \<Longrightarrow> carries limits a ev (put_bindings b 20 bag)"
  "fb_has (put_bindings b 20 bag) f \<Longrightarrow> (20 \<le> unat f \<and> unat f \<le> 44) \<or> fb_has bag f"
proof -
  note len = length_bindings_content [of b]
  show "carries_bindings b (put_bindings b 20 bag)"
    using len by (simp add: carries_bindings_def put_bindings_runs holds_put_run fb_find_put_run fb_set_u32_def)
  show "unat f < 20 \<Longrightarrow> fb_find (put_bindings b 20 bag) f = fb_find bag f"
    using len by (auto simp: put_bindings_runs fb_find_put_run fb_set_u32_def)
  show "carries limits a ev bag \<Longrightarrow> carries limits a ev (put_bindings b 20 bag)"
    using len by (simp add: carries_def put_bindings_runs fb_set_u32_def holds_run_put holds_run_set fb_find_put_run)
  have "f = 20 \<longleftrightarrow> unat f = 20" by (simp add: word_unat_eq_iff)
  then show "fb_has (put_bindings b 20 bag) f \<Longrightarrow> (20 \<le> unat f \<and> unat f \<le> 44) \<or> fb_has bag f"
    using len by (auto simp: put_bindings_runs fb_has_put_run fb_set_u32_def)
qed

lemma put_edges_sections:
  assumes "101 + 5 * length es \<le> 65536"
  shows "fb_find (put_edges es 100 bag) 100 = Some (store_le32 (of_nat (length es)))"
    "holds_run (put_edges es 100 bag) 101 (edges_content es)"
    "unat f < 100 \<Longrightarrow> fb_find (put_edges es 100 bag) f = fb_find bag f"
    "carries limits a ev bag \<Longrightarrow> carries limits a ev (put_edges es 100 bag)"
    "carries_bindings b bag \<Longrightarrow> carries_bindings b (put_edges es 100 bag)"
    "fb_has (put_edges es 100 bag) f \<Longrightarrow> (100 \<le> unat f \<and> unat f \<le> 100 + 5 * length es) \<or> fb_has bag f"
proof -
  note eq = put_edges_runs fb_set_u32_def length_edges_content
  show "fb_find (put_edges es 100 bag) 100 = Some (store_le32 (of_nat (length es)))"
    "holds_run (put_edges es 100 bag) 101 (edges_content es)"
    using assms by (simp_all add: eq fb_find_put_run holds_put_run)
  show "unat f < 100 \<Longrightarrow> fb_find (put_edges es 100 bag) f = fb_find bag f"
    using assms by (auto simp: eq fb_find_put_run)
  show "carries limits a ev bag \<Longrightarrow> carries limits a ev (put_edges es 100 bag)"
    using assms by (simp add: carries_def eq holds_run_put holds_run_set fb_find_put_run)
  show "carries_bindings b bag \<Longrightarrow> carries_bindings b (put_edges es 100 bag)"
    using assms length_bindings_content [of b]
    by (simp add: carries_bindings_def eq holds_run_put holds_run_set fb_find_put_run)
  have "f = 100 \<longleftrightarrow> unat f = 100" by (simp add: word_unat_eq_iff)
  then show "fb_has (put_edges es 100 bag) f \<Longrightarrow> (100 \<le> unat f \<and> unat f \<le> 100 + 5 * length es) \<or> fb_has bag f"
    using assms by (auto simp: eq fb_has_put_run)
qed

text \<open>What the readers make of such a bag.\<close>

locale frame_limits =
  fixes limits :: Limits
  assumes frame_bound: "max_frame_bytes limits < 4294967296"
begin

lemma take_carried:
  assumes "carries limits a ev bag" and "authority_ok a" and "evidence_wire_ok limits ev"
    and "fb_ok bag" and "length (fb_encoded bag) \<le> max_frame_bytes limits"
  shows "take_authority bag 8 = r_ok a" and "r_value (take_evidence bag 16 limits) = Some ev"
  using assms take_authority_content [of bag 8 a] take_evidence_content [of bag 16 ev limits] frame_bound
    fb_find_length [of bag 16 "fb_encoded (evidence_bag ev)"]
  by (auto simp: carries_def)

lemma take_carried_bindings: "carries_bindings b bag \<Longrightarrow> take_bindings bag 20 = r_ok b"
  using take_bindings_content [of bag 20 b] by (simp add: carries_bindings_def)

lemma take_carried_edges:
  assumes "fb_find bag 100 = Some (store_le32 (of_nat (length es)))" and "holds_run bag 101 (edges_content es)"
    and "\<forall>s \<in> set es. evidence_canonical (sp_evidence s)" and "length es \<le> max_batch_size limits"
    and "length es < 4294967296" and "fb_ok bag" and "length (fb_encoded bag) \<le> max_frame_bytes limits"
  shows "take_edges bag 100 limits = r_ok (map edge_received es)"
proof -
  have "edge_wire_ok limits s" if "s \<in> set es" for s
  proof -
    have "fb_encoded (put_evidence (sp_evidence s) 1 fb_empty) \<in> set (edges_content es)"
      using that by (force simp: edges_content_def edge_content_def)
    then obtain f where "fb_find bag f = Some (fb_encoded (put_evidence (sp_evidence s) 1 fb_empty))"
      using holds_run_mem [OF assms(2)] by blast
    then show ?thesis using fb_find_length [OF assms(6)] assms(3,7) that by (force simp: edge_wire_ok_def)
  qed
  then show ?thesis
    using assms frame_bound take_edges_content [of bag 100 es limits] by (simp add: list_all_iff)
qed

lemma checked_bag_encoded:
  assumes "fb_ok bag" and "length (fb_encoded bag) \<le> max_frame_bytes limits"
    and "\<And>f. fb_has bag f \<Longrightarrow> f \<in> set allowed" and "\<And>f. f \<in> set required \<Longrightarrow> fb_has bag f"
  shows "checked_bag (fb_encoded bag) allowed required limits k = k bag"
proof -
  have "fb_decode (fb_encoded bag) limits = r_ok bag" using fb_decode_encoded [OF frame_bound] assms by blast
  moreover have "st_is_ok (check_fields bag allowed required)" using assms by (simp add: check_fields_ok)
  ultimately show ?thesis by (simp add: checked_bag_def)
qed

end

section \<open>The contract of a payload\<close>

locale payload_codec =
  fixes bag_of :: "'a \<Rightarrow> FieldBag" and decode :: "byte list \<Rightarrow> Limits \<Rightarrow> 'a Result"
    and wire_ok :: "Limits \<Rightarrow> 'a \<Rightarrow> bool" and received :: "'a \<Rightarrow> 'a"
  assumes decodes: "frame_limits limits \<Longrightarrow> wire_ok limits p \<Longrightarrow>
      length (fb_encoded (bag_of p)) \<le> max_frame_bytes limits \<Longrightarrow>
      decode (fb_encoded (bag_of p)) limits = r_ok (received p)"
begin

lemma arrives:
  assumes "max_frame_bytes limits < 4294967296" and "wire_ok limits p" and "encode_bag (bag_of p) limits = Inr bytes"
  shows "decode bytes limits = r_ok (received p)"
  using assms decodes [of limits p] by (auto simp: encode_bag_def frame_limits_def split: if_splits)

text \<open>Through a frame: encoded, framed, unframed and decoded.\<close>

lemma framed:
  assumes "max_frame_bytes limits < 4294967296" and "wire_ok limits p" and "encode_bag (bag_of p) limits = Inr bytes"
    and "encode_frame H h bytes limits = Inr raw"
  shows "\<exists>d. decode_frame H raw limits = r_ok d \<and> df_payload d = bytes \<and> fh_message (df_header d) = fh_message h
     \<and> decode (df_payload d) limits = r_ok (received p)"
  using decode_encoded_frame [OF assms(1,4)] arrives [OF assms(1-3)] by auto

lemma same_bytes:
  assumes "max_frame_bytes limits < 4294967296" and "wire_ok limits p" and "wire_ok limits q"
    and "encode_bag (bag_of p) limits = Inr bytes" and "encode_bag (bag_of q) limits = Inr bytes"
  shows "received p = received q"
  using arrives [OF assms(1,2,4)] arrives [OF assms(1,3,5)] by (simp add: r_ok_def)

end

section \<open>Every request keeps the contract\<close>

lemma in_standard_ranges:
  assumes "(1 \<le> unat f \<and> unat f \<le> 7) \<or> (8 \<le> unat f \<and> unat f \<le> 16) \<or> (20 \<le> unat f \<and> unat f \<le> 44)
     \<or> (100 \<le> unat f \<and> unat f \<le> 100 + 5 * max_batch_size limits)"
  shows "f \<in> set (standard_ranges limits)"
proof -
  consider "1 \<le> unat f" "unat f \<le> 7" | "8 \<le> unat f" "unat f \<le> 15" | "16 \<le> unat f" "unat f \<le> 16"
    | "20 \<le> unat f" "unat f \<le> 44" | "100 \<le> unat f" "unat f \<le> 100 + 5 * max_batch_size limits"
    using assms by linarith
  then show ?thesis unfolding standard_ranges_def by cases (rule field_rangesI [rotated], assumption, assumption, simp)+
qed

lemma put_ok [simp]:
  "fb_ok (put_authority a base bag)" "fb_ok (put_evidence ev field bag)"
  "fb_ok (put_bindings b base bag)" "fb_ok (put_edges es base bag)"
  by (simp_all add: put_authority_def put_evidence_def put_bindings_runs put_edges_runs fb_set_defs)

definition key_wire_ok :: "Limits \<Rightarrow> LineageKey \<Rightarrow> bool" where
  "key_wire_ok limits key \<longleftrightarrow> length (lk_semantic_key key) \<le> max_semantic_key_bytes limits"

definition publication_wire_ok :: "Limits \<Rightarrow> PublicationPayload \<Rightarrow> bool" where
  "publication_wire_ok limits p \<longleftrightarrow> key_wire_ok limits (pp_key p) \<and> lk_route (pp_key p) \<noteq> 0
     \<and> pp_route_generation p \<noteq> 0 \<and> authority_ok (pp_authority p) \<and> evidence_wire_ok limits (pp_evidence p)
     \<and> (\<forall>s \<in> set (pp_edges p). evidence_canonical (sp_evidence s))
     \<and> length (pp_edges p) \<le> max_batch_size limits \<and> 101 + 5 * length (pp_edges p) \<le> 65536"

definition publication_received :: "PublicationPayload \<Rightarrow> PublicationPayload" where
  "publication_received p = p\<lparr>pp_edges := map edge_received (pp_edges p)\<rparr>"

interpretation publication: payload_codec publication_bag decode_publication publication_wire_ok publication_received
proof
  fix limits p
  assume lim: "frame_limits limits" and "publication_wire_ok limits p"
    and len: "length (fb_encoded (publication_bag p)) \<le> max_frame_bytes limits"
  note ok = this(2) [unfolded publication_wire_ok_def key_wire_ok_def]
  let ?b = "publication_bag p"
  have n: "101 + 5 * length (pp_edges p) \<le> 65536" using ok by blast
  note eq = publication_bag_def wire_bases put_edges_sections(3) [OF n] put_bindings_sections(2)
    put_sections(2) fb_set_defs
  have at: "fb_find ?b 1 = Some (store_le64 (lk_route (pp_key p)))"
    "fb_find ?b 2 = Some (string_bytes (lk_semantic_key (pp_key p)))"
    "fb_find ?b 3 = Some (store_le64 (pp_route_generation p))"
    "fb_find ?b 4 = Some (digest_bytes (pp_route_state_digest p))"
    "fb_find ?b 5 = Some (store_le16 (reason_code_code (pp_reason p)))"
    "fb_find ?b 6 = Some (store_le16 (source_class_code (pp_source p)))"
    "fb_find ?b 7 = Some (store_le16 (case pp_root_reason p of Some r \<Rightarrow> root_reason_code r | None \<Rightarrow> 0))"
    by (simp_all add: eq)
  have "f \<in> set (standard_ranges limits)" if "fb_has ?b f" for f
    using that ok by (intro in_standard_ranges)
      (auto simp: eq put_sections(3) dest!: put_edges_sections(6) [OF n] put_bindings_sections(4))
  moreover have "f \<in> set [1, 2, 3, 4, 5, 6] \<Longrightarrow> fb_has ?b f" for f
    by (auto simp: fb_has_def at)
  moreover have "fb_ok ?b" by (simp add: publication_bag_def)
  moreover have "take_key ?b 1 2 limits = r_ok (pp_key p)" using ok at by (simp add: take_key_content)
  moreover have "carries limits (pp_authority p) (pp_evidence p) ?b" "carries_bindings (pp_bindings p) ?b"
    by (simp_all add: publication_bag_def wire_bases put_edges_sections [OF n] put_bindings_sections put_sections)
  moreover have "take_edges ?b 100 limits = r_ok (map edge_received (pp_edges p))"
    using ok len frame_limits.take_carried_edges [OF lim, of ?b "pp_edges p"] calculation
    by (simp add: publication_bag_def wire_bases put_edges_sections [OF n])
  ultimately show "decode_publication (fb_encoded ?b) limits = r_ok (publication_received p)"
    using ok len frame_limits.take_carried [OF lim] frame_limits.take_carried_bindings [OF lim]
    unfolding decode_publication_def publication_members_def
    by (subst frame_limits.checked_bag_encoded [OF lim])
      (simp_all add: at fb_has_def wire_bases publication_received_def, cases p, simp)
qed

text \<open>The other publications carry no derivations and arrive unchanged.\<close>

definition administrative_wire_ok :: "Limits \<Rightarrow> AdministrativePayload \<Rightarrow> bool" where
  "administrative_wire_ok limits p \<longleftrightarrow> key_wire_ok limits (ap_key p) \<and> authority_ok (ap_authority p)
     \<and> evidence_wire_ok limits (ap_evidence p)"

interpretation administrative: payload_codec administrative_bag decode_administrative administrative_wire_ok id
proof
  fix limits p
  assume lim: "frame_limits limits" and "administrative_wire_ok limits p"
    and len: "length (fb_encoded (administrative_bag p)) \<le> max_frame_bytes limits"
  note ok = this(2) [unfolded administrative_wire_ok_def key_wire_ok_def]
  let ?b = "administrative_bag p"
  note eq = administrative_bag_def wire_bases put_bindings_sections(2) put_sections(2) fb_set_defs
  have at: "fb_find ?b 1 = Some (store_le64 (lk_route (ap_key p)))"
    "fb_find ?b 2 = Some (string_bytes (lk_semantic_key (ap_key p)))"
    "fb_find ?b 3 = Some (store_le64 (ap_target p))"
    "fb_find ?b 4 = Some (store_le16 (reason_code_code (ap_reason p)))"
    "fb_find ?b 5 = Some (store_le16 (source_class_code (ap_source p)))"
    "fb_find ?b 6 = Some (digest_bytes (ap_completion_evidence p))"
    "fb_find ?b 7 = Some [if ap_allow_non_current_target p then 1 else 0]"
    by (simp_all add: eq fb_set_u8_bytes)
  have "f \<in> set (standard_ranges limits)" if "fb_has ?b f" for f
    using that by (intro in_standard_ranges)
      (auto simp: eq fb_set_u8_bytes put_sections(3) dest!: put_bindings_sections(4))
  moreover have "f \<in> set [1, 2, 3, 4, 5] \<Longrightarrow> fb_has ?b f" for f
    by (auto simp: fb_has_def at)
  moreover have "fb_ok ?b" by (simp add: administrative_bag_def)
  moreover have "take_key ?b 1 2 limits = r_ok (ap_key p)" using ok at by (simp add: take_key_content)
  moreover have "carries limits (ap_authority p) (ap_evidence p) ?b" "carries_bindings (ap_bindings p) ?b"
    by (simp_all add: administrative_bag_def wire_bases put_bindings_sections put_sections)
  ultimately show "decode_administrative (fb_encoded ?b) limits = r_ok (id p)"
    using ok len frame_limits.take_carried [OF lim] frame_limits.take_carried_bindings [OF lim]
    unfolding decode_administrative_def
    by (subst frame_limits.checked_bag_encoded [OF lim]) (simp_all add: at fb_has_def wire_bases, cases p, simp)
qed

definition correction_wire_ok :: "Limits \<Rightarrow> CorrectionPayload \<Rightarrow> bool" where
  "correction_wire_ok limits p \<longleftrightarrow> key_wire_ok limits (xp_key p) \<and> authority_ok (xp_authority p)
     \<and> evidence_wire_ok limits (xp_evidence p)"

lemma in_correction_ranges:
  assumes "(1 \<le> unat f \<and> unat f \<le> 5) \<or> (8 \<le> unat f \<and> unat f \<le> 16) \<or> (20 \<le> unat f \<and> unat f \<le> 44)"
  shows "f \<in> set (field_ranges [(1, 5), (8, 15), (16, 16), (20, 44)])"
proof -
  consider "1 \<le> unat f" "unat f \<le> 5" | "8 \<le> unat f" "unat f \<le> 15" | "16 \<le> unat f" "unat f \<le> 16"
    | "20 \<le> unat f" "unat f \<le> 44"
    using assms by linarith
  then show ?thesis by cases (rule field_rangesI [rotated], assumption, assumption, simp)+
qed

interpretation correction: payload_codec correction_bag decode_correction correction_wire_ok id
proof
  fix limits p
  assume lim: "frame_limits limits" and "correction_wire_ok limits p"
    and len: "length (fb_encoded (correction_bag p)) \<le> max_frame_bytes limits"
  note ok = this(2) [unfolded correction_wire_ok_def key_wire_ok_def]
  let ?b = "correction_bag p"
  note eq = correction_bag_def wire_bases put_bindings_sections(2) put_sections(2) fb_set_defs
  have at: "fb_find ?b 1 = Some (store_le64 (lk_route (xp_key p)))"
    "fb_find ?b 2 = Some (string_bytes (lk_semantic_key (xp_key p)))"
    "fb_find ?b 3 = Some (store_le64 (xp_target p))"
    "fb_find ?b 4 = Some (digest_bytes (xp_route_state_digest p))"
    "fb_find ?b 5 = Some (store_le16 (source_class_code (xp_source p)))"
    by (simp_all add: eq)
  have "f \<in> set (field_ranges [(1, 5), (8, 15), (16, 16), (20, 44)])" if "fb_has ?b f" for f
    using that by (intro in_correction_ranges)
      (auto simp: eq put_sections(3) dest!: put_bindings_sections(4))
  moreover have "f \<in> set [1, 2, 3, 5] \<Longrightarrow> fb_has ?b f" for f
    by (auto simp: fb_has_def at)
  moreover have "fb_ok ?b" by (simp add: correction_bag_def)
  moreover have "take_key ?b 1 2 limits = r_ok (xp_key p)" using ok at by (simp add: take_key_content)
  moreover have "carries limits (xp_authority p) (xp_evidence p) ?b" "carries_bindings (xp_bindings p) ?b"
    by (simp_all add: correction_bag_def wire_bases put_bindings_sections put_sections)
  ultimately show "decode_correction (fb_encoded ?b) limits = r_ok (id p)"
    using ok len frame_limits.take_carried [OF lim] frame_limits.take_carried_bindings [OF lim]
    unfolding decode_correction_def
    by (subst frame_limits.checked_bag_encoded [OF lim]) (simp_all add: at fb_has_def wire_bases, cases p, simp)
qed

definition declaration_wire_ok :: "Limits \<Rightarrow> DeclarationPayload \<Rightarrow> bool" where
  "declaration_wire_ok limits p \<longleftrightarrow> key_wire_ok limits (dp_key p) \<and> authority_ok (dp_authority p)
     \<and> evidence_wire_ok limits (dp_evidence p)"

interpretation node_declaration: payload_codec declaration_bag decode_declaration declaration_wire_ok id
proof
  fix limits p
  assume lim: "frame_limits limits" and "declaration_wire_ok limits p"
    and len: "length (fb_encoded (declaration_bag p)) \<le> max_frame_bytes limits"
  note ok = this(2) [unfolded declaration_wire_ok_def key_wire_ok_def]
  let ?b = "declaration_bag p"
  note eq = declaration_bag_def wire_bases put_bindings_sections(2) put_sections(2) fb_set_defs
  have at: "fb_find ?b 1 = Some (store_le64 (lk_route (dp_key p)))"
    "fb_find ?b 2 = Some (string_bytes (lk_semantic_key (dp_key p)))"
    "fb_find ?b 3 = Some (store_le16 (node_kind_code (dp_kind p)))"
    "fb_find ?b 4 = Some (store_le64 (dp_route p))"
    "fb_find ?b 5 = Some (store_le64 (dp_route_generation p))"
    "fb_find ?b 6 = Some (store_le16 (reason_code_code (dp_reason p)))"
    "fb_find ?b 7 = Some (store_le16 (source_class_code (dp_source p)))"
    by (simp_all add: eq)
  have "f \<in> set (standard_ranges limits)" if "fb_has ?b f" for f
    using that by (intro in_standard_ranges)
      (auto simp: eq put_sections(3) dest!: put_bindings_sections(4))
  moreover have "f \<in> set [1, 2, 3, 6, 7] \<Longrightarrow> fb_has ?b f" for f
    by (auto simp: fb_has_def at)
  moreover have "fb_ok ?b" by (simp add: declaration_bag_def)
  moreover have "take_key ?b 1 2 limits = r_ok (dp_key p)" using ok at by (simp add: take_key_content)
  moreover have "carries limits (dp_authority p) (dp_evidence p) ?b" "carries_bindings (dp_bindings p) ?b"
    by (simp_all add: declaration_bag_def wire_bases put_bindings_sections put_sections)
  ultimately show "decode_declaration (fb_encoded ?b) limits = r_ok (id p)"
    using ok len frame_limits.take_carried [OF lim] frame_limits.take_carried_bindings [OF lim]
    unfolding decode_declaration_def
    by (subst frame_limits.checked_bag_encoded [OF lim]) (simp_all add: at fb_has_def wire_bases, cases p, simp)
qed

definition link_wire_ok :: "Limits \<Rightarrow> LinkPayload \<Rightarrow> bool" where
  "link_wire_ok limits p \<longleftrightarrow> key_wire_ok limits (lp_key p) \<and> authority_ok (lp_authority p)
     \<and> evidence_wire_ok limits (lp_evidence p)"

lemma in_link_ranges:
  assumes "(1 \<le> unat f \<and> unat f \<le> 7) \<or> (8 \<le> unat f \<and> unat f \<le> 16)"
  shows "f \<in> set (field_ranges [(1, 7), (8, 15), (16, 16)])"
proof -
  consider "1 \<le> unat f" "unat f \<le> 7" | "8 \<le> unat f" "unat f \<le> 15" | "16 \<le> unat f" "unat f \<le> 16"
    using assms by linarith
  then show ?thesis by cases (rule field_rangesI [rotated], assumption, assumption, simp)+
qed

interpretation link: payload_codec link_bag decode_link link_wire_ok id
proof
  fix limits p
  assume lim: "frame_limits limits" and "link_wire_ok limits p"
    and len: "length (fb_encoded (link_bag p)) \<le> max_frame_bytes limits"
  note ok = this(2) [unfolded link_wire_ok_def key_wire_ok_def]
  let ?b = "link_bag p"
  note eq = link_bag_def wire_bases put_sections(2) fb_set_defs
  have at: "fb_find ?b 1 = Some (store_le64 (lk_route (lp_key p)))"
    "fb_find ?b 2 = Some (string_bytes (lk_semantic_key (lp_key p)))"
    "fb_find ?b 3 = Some (store_le16 (edge_type_code (lp_type p)))"
    "fb_find ?b 4 = Some (store_le64 (lp_from p))" "fb_find ?b 5 = Some (store_le64 (lp_to p))"
    "fb_find ?b 6 = Some (store_le16 (reason_code_code (lp_reason p)))"
    "fb_find ?b 7 = Some (store_le16 (source_class_code (lp_source p)))"
    by (simp_all add: eq)
  have "f \<in> set (field_ranges [(1, 7), (8, 15), (16, 16)])" if "fb_has ?b f" for f
    using that by (intro in_link_ranges) (auto simp: eq put_sections(3))
  moreover have "f \<in> set [1, 2, 3, 4, 5, 6, 7] \<Longrightarrow> fb_has ?b f" for f
    by (auto simp: fb_has_def at)
  moreover have "fb_ok ?b" by (simp add: link_bag_def)
  moreover have "take_key ?b 1 2 limits = r_ok (lp_key p)" using ok at by (simp add: take_key_content)
  moreover have "carries limits (lp_authority p) (lp_evidence p) ?b"
    by (simp add: link_bag_def wire_bases put_sections)
  ultimately show "decode_link (fb_encoded ?b) limits = r_ok (id p)"
    using ok len frame_limits.take_carried [OF lim]
    unfolding decode_link_def
    by (subst frame_limits.checked_bag_encoded [OF lim]) (simp_all add: at fb_has_def wire_bases, cases p, simp)
qed

lemma kind_of_simps [simp]:
  "parse_dependency_kind (dependency_kind_code k) = Some k" "explain_mode_of (explain_mode_code m) = Some m"
  "response_outcome_of (outcome_code out) = Some out"
  by (simp_all add: parse_dependency_kind_def explain_mode_of_def parse_explain_mode_def explain_mode_name_def
      response_outcome_of_def parse_outcome_def outcome_name_def dependency_kind_tab.code_roundtrip
      explain_mode_tab.code_roundtrip explain_mode_tab.value_of_name outcome_tab.code_roundtrip
      outcome_tab.value_of_name)

text \<open>Dependency notifications and fences carry an authority only, at field 100.\<close>

lemma put_authority_at:
  assumes "unat base + 8 \<le> 65536"
  shows "holds_run (put_authority a base bag) base (authority_content a)"
    "unat f < unat base \<Longrightarrow> fb_find (put_authority a base bag) f = fb_find bag f"
    "fb_has (put_authority a base bag) f \<longleftrightarrow> (unat base \<le> unat f \<and> unat f < unat base + 8) \<or> fb_has bag f"
  using assms by (auto simp: put_authority_run holds_put_run fb_find_put_run fb_has_put_run)

lemma in_two_ranges:
  assumes "(a \<le> unat f \<and> unat f \<le> b) \<or> (c \<le> unat f \<and> unat f \<le> d)"
  shows "f \<in> set (field_ranges [(a, b), (c, d)])"
  using assms by (elim disjE) (rule field_rangesI [rotated], erule conjunct1, erule conjunct2, simp)+

definition dependency_wire_ok :: "Limits \<Rightarrow> DependencyPayload \<Rightarrow> bool" where
  "dependency_wire_ok limits p \<longleftrightarrow> authority_ok (dn_authority (yp_notification p))"

interpretation dependency: payload_codec dependency_bag decode_dependency dependency_wire_ok id
proof
  fix limits p
  assume lim: "frame_limits limits" and "dependency_wire_ok limits p"
    and len: "length (fb_encoded (dependency_bag p)) \<le> max_frame_bytes limits"
  note ok = this(2) [unfolded dependency_wire_ok_def]
  let ?b = "dependency_bag p" and ?n = "yp_notification p"
  note eq = dependency_bag_def Let_def put_authority_at fb_set_defs
  have at: "fb_find ?b 1 = Some (store_le16 (dependency_kind_code (dn_kind ?n)))"
    "fb_find ?b 2 = Some (store_le64 (dn_path_authority_generation ?n))"
    "fb_find ?b 3 = Some (store_le64 (dn_policy_generation ?n))"
    "fb_find ?b 4 = Some (store_le64 (dn_evidence_generation ?n))"
    "fb_find ?b 5 = Some (store_le64 (dn_plan_generation ?n))"
    "fb_find ?b 6 = Some (store_le64 (dn_epoch ?n))" "fb_find ?b 7 = Some (store_le64 (dn_publisher ?n))"
    "fb_find ?b 8 = Some (store_le64 (dn_boot ?n))"
    by (simp_all add: eq)
  have a: "holds_run ?b 100 (authority_content (dn_authority ?n))" by (simp add: eq)
  have "f \<in> set (field_ranges [(1, 8), (100, 107)])" if "fb_has ?b f" for f
    using that by (intro in_two_ranges) (auto simp: eq)
  moreover have "fb_has ?b 100" by (simp add: eq)
  then have "f \<in> set [1, 6, 7, 8, 100] \<Longrightarrow> fb_has ?b f" for f
    by (auto simp: fb_has_def at)
  moreover have "fb_ok ?b" by (simp add: dependency_bag_def Let_def)
  ultimately show "decode_dependency (fb_encoded ?b) limits = r_ok (id p)"
    using ok len take_authority_content [OF a] unfolding decode_dependency_def
    by (subst frame_limits.checked_bag_encoded [OF lim]) (simp_all add: at, cases p, cases "yp_notification p", simp)
qed

definition fence_wire_ok :: "Limits \<Rightarrow> FencePayload \<Rightarrow> bool" where
  "fence_wire_ok limits p \<longleftrightarrow> authority_ok (fp_authority p)"

interpretation fence: payload_codec fence_bag decode_fence fence_wire_ok id
proof
  fix limits p
  assume lim: "frame_limits limits" and "fence_wire_ok limits p"
    and len: "length (fb_encoded (fence_bag p)) \<le> max_frame_bytes limits"
  note ok = this(2) [unfolded fence_wire_ok_def]
  let ?b = "fence_bag p"
  note eq = fence_bag_def put_authority_at fb_set_defs
  have at: "fb_find ?b 1 = Some (store_le64 (fp_publisher p))" "fb_find ?b 2 = Some (store_le64 (fp_boot p))"
    by (simp_all add: eq)
  have a: "holds_run ?b 100 (authority_content (fp_authority p))" by (simp add: eq)
  have "f \<in> set (field_ranges [(1, 2), (100, 107)])" if "fb_has ?b f" for f
    using that by (intro in_two_ranges) (auto simp: eq)
  moreover have "fb_has ?b 100" by (simp add: eq)
  then have "f \<in> set [1, 2, 100] \<Longrightarrow> fb_has ?b f" for f by (auto simp: fb_has_def at)
  moreover have "fb_ok ?b" by (simp add: fence_bag_def)
  ultimately show "decode_fence (fb_encoded ?b) limits = r_ok (id p)"
    using ok len take_authority_content [OF a] unfolding decode_fence_def
    by (subst frame_limits.checked_bag_encoded [OF lim]) (simp_all add: at, cases p, simp)
qed

text \<open>The handshake, queries and responses.\<close>

definition registration_wire_ok :: "Limits \<Rightarrow> RegistrationPayload \<Rightarrow> bool" where
  "registration_wire_ok limits p \<longleftrightarrow> scope_wf (rg_scope p)"

interpretation registration: payload_codec registration_bag decode_registration registration_wire_ok id
proof
  fix limits p
  assume lim: "frame_limits limits" and "registration_wire_ok limits p"
    and len: "length (fb_encoded (registration_bag p)) \<le> max_frame_bytes limits"
  note ok = this(2) [unfolded registration_wire_ok_def]
  let ?b = "registration_bag p"
  have at: "fb_find ?b 1 = Some (store_le16 (rg_role p))" "fb_find ?b 2 = Some (store_le64 (pi_publisher (rg_identity p)))"
    "fb_find ?b 3 = Some (store_le64 (pi_boot (rg_identity p)))" "fb_find ?b 4 = Some (store_le64 (pi_epoch (rg_identity p)))"
    "fb_find ?b 5 = Some (store_le16 (scope_kind_code (scope_kind (rg_scope p))))"
    "fb_find ?b 6 = Some (store_le64 (scope_subject (rg_scope p)))" "fb_find ?b 7 = Some (store_le16 (rg_protocol_version p))"
    by (simp_all add: registration_bag_def fb_set_defs)
  have "f \<in> set [1, 2, 3, 4, 5, 6, 7]" if "fb_has ?b f" for f
    using that by (auto simp: registration_bag_def fb_set_defs)
  moreover have "f \<in> set [1, 2, 3, 4, 5, 7] \<Longrightarrow> fb_has ?b f" for f by (auto simp: fb_has_def at)
  moreover have "fb_ok ?b" by (simp add: registration_bag_def fb_set_defs)
  ultimately show "decode_registration (fb_encoded ?b) limits = r_ok (id p)"
    using ok len unfolding decode_registration_def
    by (subst frame_limits.checked_bag_encoded [OF lim]) (simp_all add: at scope_of_raw_code, cases p, simp)
qed

definition hello_ack_wire_ok :: "Limits \<Rightarrow> HelloAckPayload \<Rightarrow> bool" where
  "hello_ack_wire_ok limits p \<longleftrightarrow> ha_max_frame_bytes p < 4294967296"

interpretation hello_ack: payload_codec hello_ack_bag decode_hello_ack hello_ack_wire_ok id
proof
  fix limits p
  assume lim: "frame_limits limits" and "hello_ack_wire_ok limits p"
    and len: "length (fb_encoded (hello_ack_bag p)) \<le> max_frame_bytes limits"
  note ok = this(2) [unfolded hello_ack_wire_ok_def]
  let ?b = "hello_ack_bag p"
  have at: "fb_find ?b 1 = Some (store_le64 (ha_epoch p))" "fb_find ?b 2 = Some [if ha_accepted p then 1 else 0]"
    "fb_find ?b 3 = Some (store_le32 (of_nat (ha_max_frame_bytes p)))"
    "fb_find ?b 4 = Some (store_le16 (ha_protocol_version p))" "fb_find ?b 5 = Some (string_bytes (ha_detail p))"
    by (simp_all add: hello_ack_bag_def fb_set_defs fb_set_u8_bytes)
  have "f \<in> set [1, 2, 3, 4, 5]" if "fb_has ?b f" for f
    using that by (auto simp: hello_ack_bag_def fb_set_defs fb_set_u8_bytes)
  moreover have "f \<in> set [1, 2, 3, 4] \<Longrightarrow> fb_has ?b f" for f by (auto simp: fb_has_def at)
  moreover have "fb_ok ?b" by (simp add: hello_ack_bag_def fb_set_defs)
  ultimately show "decode_hello_ack (fb_encoded ?b) limits = r_ok (id p)"
    using ok len unfolding decode_hello_ack_def
    by (subst frame_limits.checked_bag_encoded [OF lim]) (simp_all add: at unat_of_nat_u32, cases p, simp)
qed

definition query_wire_ok :: "Limits \<Rightarrow> QueryPayload \<Rightarrow> bool" where
  "query_wire_ok limits p \<longleftrightarrow> tb_max_depth (qp_bounds p) < 4294967296
     \<and> tb_max_results (qp_bounds p) < 4294967296 \<and> tb_max_visited (qp_bounds p) < 4294967296"

interpretation query: payload_codec query_bag decode_query query_wire_ok id
proof
  fix limits p
  assume lim: "frame_limits limits" and "query_wire_ok limits p"
    and len: "length (fb_encoded (query_bag p)) \<le> max_frame_bytes limits"
  note ok = this(2) [unfolded query_wire_ok_def]
  let ?b = "query_bag p"
  have at: "fb_find ?b 1 = Some (store_le64 (qp_lineage p))" "fb_find ?b 2 = Some (store_le64 (qp_node p))"
    "fb_find ?b 3 = Some (store_le16 (direction_code (qp_direction p)))"
    "fb_find ?b 4 = Some (store_le32 (of_nat (tb_max_depth (qp_bounds p))))"
    "fb_find ?b 5 = Some (store_le32 (of_nat (tb_max_results (qp_bounds p))))"
    "fb_find ?b 6 = Some (store_le32 (of_nat (tb_max_visited (qp_bounds p))))"
    "fb_find ?b 7 = Some (store_le16 (explain_mode_code (qp_mode p)))"
    by (simp_all add: query_bag_def fb_set_defs)
  have "f \<in> set (field_ranges [(1, 7)])" if "fb_has ?b f" for f
    using that by (intro field_rangesI [of 1 7]) (auto simp: query_bag_def fb_set_defs)
  moreover have "fb_ok ?b" by (simp add: query_bag_def fb_set_defs)
  moreover have "\<not> 1 < direction_code d" "direction_code d = 0 \<longleftrightarrow> d = TD_Outgoing" for d by (cases d; simp)+
  ultimately show "decode_query (fb_encoded ?b) limits = r_ok (id p)"
    using ok len unfolding decode_query_def
    by (subst frame_limits.checked_bag_encoded [OF lim])
      (simp_all add: at unat_of_nat_u32, cases p, cases "qp_bounds p", cases "qp_direction p", simp_all)
qed

definition response_wire_ok :: "Limits \<Rightarrow> ResponsePayload \<Rightarrow> bool" where
  "response_wire_ok limits p \<longleftrightarrow> fb_ok (rp_body p)"

interpretation response: payload_codec response_bag decode_response response_wire_ok id
proof
  fix limits p
  assume lim: "frame_limits limits" and "response_wire_ok limits p"
    and len: "length (fb_encoded (response_bag p)) \<le> max_frame_bytes limits"
  note ok = this(2) [unfolded response_wire_ok_def]
  let ?b = "response_bag p"
  have at: "fb_find ?b 1 = Some (store_le16 (outcome_code (rp_outcome p)))"
    "fb_find ?b 2 = Some (string_bytes (rp_detail p))" "fb_find ?b 3 = Some (fb_encoded (rp_body p))"
    by (simp_all add: response_bag_def fb_set_defs)
  have b: "fb_ok ?b" by (simp add: response_bag_def fb_set_defs)
  have "length (fb_encoded (rp_body p)) \<le> max_frame_bytes limits" using fb_find_length [OF b at(3)] len by simp
  then have "fb_nested ?b 3 limits = Some (rp_body p)"
    using frame_limits.frame_bound [OF lim] ok at(3) by (simp add: fb_nested_value)
  moreover have "f \<in> set [1, 2, 3]" if "fb_has ?b f" for f using that by (auto simp: response_bag_def fb_set_defs)
  moreover have "f \<in> set [1] \<Longrightarrow> fb_has ?b f" for f by (auto simp: fb_has_def at)
  ultimately show "decode_response (fb_encoded ?b) limits = r_ok (id p)"
    using b len unfolding decode_response_def
    by (subst frame_limits.checked_bag_encoded [OF lim]) (simp_all add: at fb_has_def, cases p, simp)
qed

interpretation default_frames: frame_limits default_limits
  by unfold_locales (simp add: default_limits_def)

section \<open>Requests arrive\<close>


definition sample_wire_limits :: Limits where
  "sample_wire_limits = sample_limits\<lparr>max_frame_bytes := 900\<rparr>"

definition sample_publication :: PublicationPayload where
  "sample_publication = \<lparr>pp_key = sample_key, pp_route_generation = 1, pp_route_state_digest = digest_from_bytes [1],
     pp_reason = RC_InitialRoute, pp_source = SC_RouteFabric, pp_root_reason = Some RR_InitialPublication,
     pp_evidence = [EvidenceEntry EF_RouteGeneration 5], pp_authority = sample_authority, pp_bindings = no_bindings,
     pp_edges = [\<lparr>sp_type = ET_DerivedFrom, sp_target = 7, sp_reason = RC_InitialRoute, sp_source = SC_RouteFabric,
       sp_evidence = [EvidenceEntry EF_RouteGeneration 5]\<rparr>]\<rparr>"

text \<open>How long an encoding can become.\<close>

lemma length_fields_ins: "length (fields_bytes (ins_list f v fs)) \<le> 6 + length v + length (fields_bytes fs)"
  by (induction fs) auto

lemma fb_set_bytes_le:
  "fb_ok bag \<Longrightarrow> length (fb_encoded bag) + 6 + length v \<le> n \<Longrightarrow> length (fb_encoded (fb_set_bytes f v bag)) \<le> n"
  using length_fields_ins [of f v "om_entries (fb_fields bag)"] by (simp add: fb_set_bytes_def fb_ok_def)

lemma fb_single_length: "length (fb_encoded (fb_set_bytes f v fb_empty)) = 6 + length v"
  by (simp add: fb_set_bytes_def fb_empty_def)

lemmas wire_size = fb_set_bytes_le fb_single_length fb_set_defs fb_set_u8_bytes put_authority_def put_evidence_def evidence_bag_def
  put_bindings_def put_edges_def put_edge_spec_def set_all_def set_next_def put_opt_def

definition encoded :: "Status + byte list \<Rightarrow> byte list" where
  "encoded r = (case r of Inr bytes \<Rightarrow> bytes | Inl _ \<Rightarrow> [])"

lemma sample_header_ok: "fh_protocol_version sample_header = kWireProtocolVersion" "fh_flags sample_header = 0"
  by (simp_all add: sample_header_def)

lemma sample_publication_ok: "publication_wire_ok sample_wire_limits sample_publication"
proof -
  have "key_wire_ok sample_wire_limits (pp_key sample_publication)" by code_simp
  moreover have "authority_ok (pp_authority sample_publication)" by code_simp
  moreover have "evidence_wire_ok sample_wire_limits (pp_evidence sample_publication)" by code_simp
  moreover have "\<forall>s \<in> set (pp_edges sample_publication). evidence_canonical (sp_evidence s)" by code_simp
  ultimately show ?thesis
    by (simp add: publication_wire_ok_def) (simp add: sample_publication_def sample_key_def sample_wire_limits_def
        sample_limits_def)
qed

lemma sample_publication_encoded:
  "encode_publication sample_publication sample_wire_limits
     = Inr (encoded (encode_publication sample_publication sample_wire_limits))"
  "length (encoded (encode_publication sample_publication sample_wire_limits)) \<le> 500"
proof -
  have "length (fb_encoded (publication_bag sample_publication)) \<le> 500"
    by (simp add: publication_bag_def wire_size sample_publication_def sample_key_def no_bindings_def)
  then show "encode_publication sample_publication sample_wire_limits
     = Inr (encoded (encode_publication sample_publication sample_wire_limits))"
    "length (encoded (encode_publication sample_publication sample_wire_limits)) \<le> 500"
    by (simp_all add: encode_publication_def encode_bag_def sample_wire_limits_def encoded_def)
qed

lemma sample_wire_bound: "max_frame_bytes sample_wire_limits < 4294967296"
  by (simp add: sample_wire_limits_def)


text \<open>
  C36: Every other request and answer arrives exactly. Encoding a registration, its acknowledgement, an
  administrative publication, a correction, a declaration, a link, a dependency notification, a fence, a
  query or a response, and decoding the bytes, gives the payload back unchanged, including its absent
  and optional members.
\<close>

theorem requests_arrive:
  assumes "max_frame_bytes limits < 4294967296"
  shows "(registration_wire_ok limits rg \<longrightarrow> encode_registration rg limits = Inr bytes \<longrightarrow>
       decode_registration bytes limits = r_ok rg)
   \<and> (hello_ack_wire_ok limits ha \<longrightarrow> encode_hello_ack ha limits = Inr bytes \<longrightarrow>
       decode_hello_ack bytes limits = r_ok ha)
   \<and> (administrative_wire_ok limits ap \<longrightarrow> encode_administrative ap limits = Inr bytes \<longrightarrow>
       decode_administrative bytes limits = r_ok ap)
   \<and> (correction_wire_ok limits xp \<longrightarrow> encode_correction xp limits = Inr bytes \<longrightarrow>
       decode_correction bytes limits = r_ok xp)
   \<and> (declaration_wire_ok limits dp \<longrightarrow> encode_declaration dp limits = Inr bytes \<longrightarrow>
       decode_declaration bytes limits = r_ok dp)
   \<and> (link_wire_ok limits lp \<longrightarrow> encode_link lp limits = Inr bytes \<longrightarrow> decode_link bytes limits = r_ok lp)
   \<and> (dependency_wire_ok limits yp \<longrightarrow> encode_dependency yp limits = Inr bytes \<longrightarrow>
       decode_dependency bytes limits = r_ok yp)
   \<and> (fence_wire_ok limits fp \<longrightarrow> encode_fence fp limits = Inr bytes \<longrightarrow> decode_fence bytes limits = r_ok fp)
   \<and> (query_wire_ok limits qp \<longrightarrow> encode_query qp limits = Inr bytes \<longrightarrow> decode_query bytes limits = r_ok qp)
   \<and> (response_wire_ok limits rp \<longrightarrow> encode_response rp limits = Inr bytes \<longrightarrow>
       decode_response bytes limits = r_ok rp)"
  unfolding encode_registration_def encode_hello_ack_def encode_administrative_def encode_correction_def
    encode_declaration_def encode_link_def encode_dependency_def encode_fence_def encode_query_def encode_response_def
  by (intro conjI impI registration.arrives [OF assms, unfolded id_apply] hello_ack.arrives [OF assms, unfolded id_apply]
      administrative.arrives [OF assms, unfolded id_apply] correction.arrives [OF assms, unfolded id_apply]
      node_declaration.arrives [OF assms, unfolded id_apply] link.arrives [OF assms, unfolded id_apply]
      dependency.arrives [OF assms, unfolded id_apply] fence.arrives [OF assms, unfolded id_apply]
      query.arrives [OF assms, unfolded id_apply] response.arrives [OF assms, unfolded id_apply])

definition sample_link :: LinkPayload where
  "sample_link = \<lparr>lp_key = sample_key, lp_type = ET_Replaces, lp_from = 5, lp_to = 6, lp_reason = RC_InitialRoute,
     lp_source = SC_RouteFabric, lp_evidence = [EvidenceEntry EF_RouteGeneration 5], lp_authority = sample_authority\<rparr>"

theorem requests_arrive_witness:
  "decode_link (encoded (encode_link sample_link sample_wire_limits)) sample_wire_limits = r_ok sample_link"
proof -
  have "length (fb_encoded (link_bag sample_link)) \<le> 500"
    by (simp add: link_bag_def wire_size sample_link_def sample_key_def)
  then have "encode_link sample_link sample_wire_limits = Inr (encoded (encode_link sample_link sample_wire_limits))"
    by (simp add: encode_link_def encode_bag_def sample_wire_limits_def encoded_def)
  moreover have "link_wire_ok sample_wire_limits sample_link" by code_simp
  ultimately show ?thesis using requests_arrive [OF sample_wire_bound] by blast
qed

section \<open>What is accepted is within bounds\<close>

lemma checked_bag_value:
  "r_value (checked_bag payload allowed required limits k) = Some p \<Longrightarrow>
     \<exists>bag. r_value (fb_decode payload limits) = Some bag \<and> (\<forall>f. fb_has bag f \<longrightarrow> f \<in> set allowed)
       \<and> (\<forall>f \<in> set required. fb_has bag f) \<and> r_value (k bag) = Some p"
  by (auto simp: checked_bag_def r_then_value r_guard_value check_fields_ok)

lemma take_key_value:
  "r_value (take_key bag f g limits) = Some key \<Longrightarrow>
     lk_route key = value_or (fb_u64 bag f) 0 \<and> length (lk_semantic_key key) \<le> max_semantic_key_bytes limits"
  by (auto simp: take_key_def Let_def split: option.splits if_splits)

lemma take_authority_value:
  "r_value (take_authority bag base) = Some a \<Longrightarrow> scope_wf (ac_scope a)"
  by (auto simp: take_authority_def Let_def scope_of_raw_wf split: option.splits)

lemma evidence_create_bounds:
  "r_value (evidence_create es limits) = Some ev \<Longrightarrow> evidence_canonical ev \<and> length ev \<le> max_evidence_entries limits
     \<and> set ev \<subseteq> set es"
proof -
  assume "r_value (evidence_create es limits) = Some ev"
  then have ev: "length es \<le> max_evidence_entries limits" "evidence_canonical ev" "set ev = set es"
    by (simp_all add: evidence_create_value)
  have "distinct (map ee_field ev)" using ev(2) by (auto simp: evidence_canonical_def dest!: sorted_wrt_less_distinct)
  then have "length ev = card (set ev)" by (simp add: distinct_card distinct_map)
  then have "length ev \<le> length es" using ev(3) card_length [of es] by simp
  then show ?thesis using ev by simp
qed

lemma take_evidence_value:
  assumes "r_value (take_evidence bag f limits) = Some ev"
  shows "evidence_wire_ok limits ev"
proof (cases "fb_has bag f")
  case False
  then show ?thesis using assms by (simp add: take_evidence_def evidence_wire_ok_def evidence_canonical_def)
next
  case True
  then obtain nested where
    "r_value (evidence_create (List.map_filter (\<lambda>k. map_option (EvidenceEntry k) (fb_u64 nested k)) evidence_kAll) limits)
       = Some ev"
    using assms by (auto simp: take_evidence_def r_guard_value split: option.splits)
  from evidence_create_bounds [OF this] show ?thesis
    by (auto simp: evidence_wire_ok_def map_filter_entries evidence_kAll_distinct)
qed

lemma take_edge_specs_length:
  "r_value (take_edge_specs n bag limits c) = Some es \<Longrightarrow> length es = n"
  by (induction n arbitrary: c es) (auto simp: r_then_value split: prod.splits)

lemma take_edges_value:
  "r_value (take_edges bag base limits) = Some es \<Longrightarrow> length es \<le> max_batch_size limits"
  by (auto simp: take_edges_def dest!: take_edge_specs_length split: option.splits if_splits)

lemma publication_members_value:
  "r_value (publication_members bag limits key) = Some p \<Longrightarrow> pp_key p = key
     \<and> pp_route_generation p = value_or (fb_u64 bag 3) 0
     \<and> r_value (take_authority bag kAuthorityBase) = Some (pp_authority p)
     \<and> r_value (take_evidence bag kEvidenceField limits) = Some (pp_evidence p)
     \<and> r_value (take_edges bag kEdgesBase limits) = Some (pp_edges p)"
  by (auto simp: publication_members_def r_then_value split: option.splits)

text \<open>
  C38: Nothing outside the bounds is decoded. Whatever bytes a client sends, a publication the coordinator
  decodes from them was within the frame bound, had only the known fields and all the required ones; it
  names a route, a generation and a key within the key bound, its authority scope is well formed, its
  evidence is canonical, of known fields and within the evidence bound, and it has no more derivations
  than a batch may have.
\<close>

theorem decoded_publication_bounded:
  assumes "r_value (decode_publication payload limits) = Some p"
  shows "length payload \<le> max_frame_bytes limits
    \<and> (\<exists>bag. r_value (fb_decode payload limits) = Some bag \<and> (\<forall>f \<in> {1, 2, 3, 4, 5, 6}. fb_has bag f)
        \<and> (\<forall>f. fb_has bag f \<longrightarrow> f \<in> set (standard_ranges limits)))
    \<and> lk_route (pp_key p) \<noteq> 0 \<and> pp_route_generation p \<noteq> 0
    \<and> length (lk_semantic_key (pp_key p)) \<le> max_semantic_key_bytes limits \<and> scope_wf (ac_scope (pp_authority p))
    \<and> evidence_wire_ok limits (pp_evidence p) \<and> length (pp_edges p) \<le> max_batch_size limits"
proof -
  obtain bag where bag: "r_value (fb_decode payload limits) = Some bag"
    "\<forall>f. fb_has bag f \<longrightarrow> f \<in> set (standard_ranges limits)" "\<forall>f \<in> set [1, 2, 3, 4, 5, 6]. fb_has bag f"
    and k: "r_value (if value_or (fb_u64 bag 1) 0 = 0 \<or> \<not> fb_has bag 2 \<or> value_or (fb_u64 bag 3) 0 = 0 then
         r_failure O_MalformedRequest ''publication payload is missing core identity fields''
       else r_then (take_key bag 1 2 limits) (publication_members bag limits)) = Some p"
    using checked_bag_value [OF assms [unfolded decode_publication_def]] by blast
  then have "value_or (fb_u64 bag 1) 0 \<noteq> 0" and "value_or (fb_u64 bag 3) 0 \<noteq> 0"
    and "\<exists>key. r_value (take_key bag 1 2 limits) = Some key \<and> r_value (publication_members bag limits key) = Some p"
    by (auto simp: r_then_value split: if_splits)
  then have p: "value_or (fb_u64 bag 1) 0 \<noteq> 0" "pp_route_generation p \<noteq> 0"
      "r_value (take_key bag 1 2 limits) = Some (pp_key p)"
      "r_value (take_authority bag kAuthorityBase) = Some (pp_authority p)"
      "r_value (take_evidence bag kEvidenceField limits) = Some (pp_evidence p)"
      "r_value (take_edges bag kEdgesBase limits) = Some (pp_edges p)"
    by (auto dest!: publication_members_value)
  have "length payload \<le> max_frame_bytes limits" using bag(1) by (simp add: fb_decode_fields)
  then show ?thesis
    using bag p(1,2) take_key_value [OF p(3)] take_authority_value [OF p(4)] take_evidence_value [OF p(5)]
      take_edges_value [OF p(6)] by auto
qed

theorem decoded_publication_bounded_witness:
  "\<exists>p. r_value (decode_publication (encoded (encode_publication sample_publication sample_wire_limits)) sample_wire_limits)
      = Some p \<and> length (pp_edges p) \<le> 4"
proof -
  let ?bytes = "encoded (encode_publication sample_publication sample_wire_limits)"
  have "r_value (decode_publication ?bytes sample_wire_limits) = Some (publication_received sample_publication)"
    using publication.arrives [OF sample_wire_bound sample_publication_ok, of ?bytes] sample_publication_encoded(1)
    by (simp add: encode_publication_def)
  with decoded_publication_bounded [OF this] show ?thesis
    by (auto simp: sample_wire_limits_def sample_limits_def)
qed

end
