(* ===== verification/Wire_Bodies.thy ===== *)
theory Wire_Bodies
  imports Wire_Codec
begin

text \<open>
  The bodies of responses, the last part of \<^verbatim>\<open>src/wire.cpp\<close>: publications, lineage views, node lists,
  explanations, snapshots and watermarks. Lists of records travel as one blob of length-prefixed records,
  each read by a reader of its own.
\<close>

section \<open>Blobs of records\<close>

definition wr_framed :: "('a \<Rightarrow> Writer \<Rightarrow> Writer) \<Rightarrow> 'a \<Rightarrow> Writer \<Rightarrow> Writer" where
  "wr_framed wr v w = wr_bytes (written wr v) (wr_u32 (of_nat (length (written wr v))) w)"

text \<open>The loop of \<^verbatim>\<open>decode_records\<close>, of \<^verbatim>\<open>decode_edge_records\<close> and of the steps of an explanation.\<close>

fun read_framed :: "(byte list \<Rightarrow> Status + 'a) \<Rightarrow> string \<Rightarrow> nat \<Rightarrow> Reader \<Rightarrow> Status + ('a list \<times> Reader)" where
  "read_framed parse malformed 0 r = Inr ([], r)"
| "read_framed parse malformed (Suc n) r =
     (let (len, r) = rd_u32 r
      in if rd_failed r \<or> unat len > rd_remaining r then Inl (st_failure O_ProtocolFailure malformed)
         else
           (let (record, r) = rd_span (unat len) r
            in (case parse record of
                  Inl s \<Rightarrow> Inl s
                | Inr v \<Rightarrow>
                    (case read_framed parse malformed n r of
                       Inl s \<Rightarrow> Inl s
                     | Inr (vs, r) \<Rightarrow> Inr (v # vs, r)))))"

definition parse_record :: "(Reader \<Rightarrow> ('a \<times> Reader) option) \<Rightarrow> string \<Rightarrow> byte list \<Rightarrow> Status + 'a" where
  "parse_record rd malformed record =
     (case rd (rd_open record) of
        None \<Rightarrow> Inl (st_failure O_ProtocolFailure malformed)
      | Some (v, r) \<Rightarrow> if rd_at_end r then Inr v else Inl (st_failure O_ProtocolFailure malformed))"

definition finish_blob :: "Status + ('a list \<times> Reader) \<Rightarrow> string \<Rightarrow> 'a list Result" where
  "finish_blob res trailing =
     (case res of
        Inl s \<Rightarrow> r_failure (st_outcome s) (st_detail s)
      | Inr (vs, r) \<Rightarrow> if rd_failed r \<or> \<not> rd_at_end r then r_failure O_ProtocolFailure trailing else r_ok vs)"

definition decode_records :: "byte list \<Rightarrow> Limits \<Rightarrow> u32 \<Rightarrow> ProvenanceNode list Result" where
  "decode_records blob limits count =
     (if length blob > max_frame_bytes limits then
        r_failure O_ResourceLimit ''record blob exceeds the bound''
      else finish_blob
        (read_framed (parse_record (read_node limits) ''malformed record'') ''malformed record blob'' (unat count)
          (rd_open blob))
        ''record blob has trailing bytes'')"

definition decode_edge_records :: "byte list \<Rightarrow> Limits \<Rightarrow> u32 \<Rightarrow> ProvenanceEdge list Result" where
  "decode_edge_records blob limits count =
     (if length blob > max_frame_bytes limits then
        r_failure O_ResourceLimit ''edge blob exceeds the bound''
      else finish_blob
        (read_framed (parse_record (read_edge limits) ''malformed edge record'') ''malformed edge blob'' (unat count)
          (rd_open blob))
        ''edge blob has trailing bytes'')"

text \<open>The contract of such a blob.\<close>

locale framed_codec =
  fixes wr :: "'a \<Rightarrow> Writer \<Rightarrow> Writer" and parse :: "Limits \<Rightarrow> byte list \<Rightarrow> Status + 'a" and ok :: "Limits \<Rightarrow> 'a \<Rightarrow> bool"
  assumes parses: "ok limits v \<Longrightarrow> parse limits (written wr v) = Inr v"
begin

definition blob :: "'a list \<Rightarrow> byte list" where
  "blob vs = wr_list (wr_framed wr) vs []"

definition record_ok :: "Limits \<Rightarrow> 'a \<Rightarrow> bool" where
  "record_ok limits v \<longleftrightarrow> ok limits v \<and> length (written wr v) < 4294967296"

lemma framed_appends: "wr_list (wr_framed wr) vs w
  = w @ concat (map (\<lambda>v. store_le32 (of_nat (length (written wr v))) @ written wr v) vs)"
proof (induction vs arbitrary: w)
  case (Cons v vs)
  show ?case using Cons [of "wr_framed wr v w"] by (simp add: wr_list_def wr_framed_def wr_bytes_def wr_u32_def)
qed (simp add: wr_list_def)

lemma read_blob:
  "list_all (record_ok limits) vs \<Longrightarrow>
     read_framed (parse limits) malformed (length vs)
       (reader_at pre (concat (map (\<lambda>v. store_le32 (of_nat (length (written wr v))) @ written wr v) vs)))
     = Inr (vs, reader_at (pre @ concat (map (\<lambda>v. store_le32 (of_nat (length (written wr v))) @ written wr v) vs)) [])"
proof (induction vs arbitrary: pre)
  case (Cons v vs)
  then show ?case
    by (simp add: record_ok_def unat_of_nat_u32 rd_span_def rd_fixed_at parses Let_def)
qed simp

lemma finished:
  "list_all (record_ok limits) vs \<Longrightarrow>
     finish_blob (read_framed (parse limits) malformed (length vs) (rd_open (blob vs))) trailing = r_ok vs"
  using read_blob [of limits vs malformed "[]"] by (simp add: finish_blob_def rd_open_at blob_def framed_appends)

end

interpretation node_blob: framed_codec write_node
  "\<lambda>limits. parse_record (read_node limits) ''malformed record''" node_ok
proof
  show "parse_record (read_node limits) ''malformed record'' (written write_node v) = Inr v" if "node_ok limits v" for limits v
    using node_codec.round_trip [OF that, of "[]" "[]"] by (simp add: parse_record_def rd_open_at)
qed

interpretation edge_blob: framed_codec write_edge
  "\<lambda>limits. parse_record (read_edge limits) ''malformed edge record''" edge_ok
proof
  show "parse_record (read_edge limits) ''malformed edge record'' (written write_edge v) = Inr v" if "edge_ok limits v" for limits v
    using edge_codec.round_trip [OF that, of "[]" "[]"] by (simp add: parse_record_def rd_open_at)
qed

section \<open>Bodies\<close>

definition publication_body :: "Publication \<Rightarrow> FieldBag \<Rightarrow> FieldBag" where
  "publication_body p = bag_all
     [fb_set_u64 1 (p_lineage p), fb_set_u64 2 (p_node p), fb_set_u64 3 (p_lineage_generation p),
      fb_set_u64 4 (p_store_generation p), fb_set_u16 5 (node_lifecycle_code (p_lifecycle p)),
      fb_set_u16 6 (currentness_code (p_currentness p)), fb_set_u32 7 (of_nat (length (p_edges p))),
      fb_set_bytes 8 (wr_list wr_u64 (p_edges p) [])]"

text \<open>The index \<^verbatim>\<open>i * 8U\<close> is computed in 32 bits.\<close>

definition load_edge_ids :: "byte list \<Rightarrow> nat \<Rightarrow> ProvenanceEdgeId list" where
  "load_edge_ids blob count = map (\<lambda>i. load_le64 (drop (unat (of_nat i * 8 :: u32)) blob)) [0..<count]"

definition decode_publication_body :: "FieldBag \<Rightarrow> Limits \<Rightarrow> Publication Result" where
  "decode_publication_body body limits =
     (case fb_u32 body 7 of
        None \<Rightarrow> r_failure O_ProtocolFailure ''malformed publication body''
      | Some edges_n \<Rightarrow>
          if fb_u64 body 1 = None \<or> fb_u64 body 2 = None then
            r_failure O_ProtocolFailure ''malformed publication body''
          else if edges_n > 0 \<and> fb_bytes body 8 = None then
            r_failure O_ProtocolFailure ''publication body is missing its edges''
          else
            (case (node_lifecycle_of (value_or (fb_u16 body 5) 0xFFFF), currentness_of (value_or (fb_u16 body 6) 0xFFFF)) of
               (Some lifecycle, Some currentness) \<Rightarrow>
                 let blob = value_or (fb_bytes body 8) []
                 in if edges_n > 0 \<and> length blob \<noteq> unat edges_n * 8 then
                      r_failure O_ProtocolFailure ''malformed publication edge list''
                    else r_ok \<lparr>p_lineage = value_or (fb_u64 body 1) 0, p_node = value_or (fb_u64 body 2) 0,
                      p_edges = load_edge_ids blob (unat edges_n),
                      p_lineage_generation = value_or (fb_u64 body 3) 0,
                      p_store_generation = value_or (fb_u64 body 4) 0, p_lifecycle = lifecycle,
                      p_currentness = currentness\<rparr>
             | _ \<Rightarrow> r_failure O_ProtocolFailure ''unknown publication state value''))"

definition lineage_body :: "LineageView \<Rightarrow> FieldBag \<Rightarrow> FieldBag" where
  "lineage_body v = bag_all
     [fb_set_u64 1 (lv_id v), fb_set_u64 2 (lk_route (lv_key v)), fb_set_text 3 (lk_semantic_key (lv_key v)),
      fb_set_u16 4 (lineage_lifecycle_code (lv_lifecycle v)), fb_set_u64 5 (lv_current_route_generation v),
      fb_set_u64 6 (lv_current_node v), fb_set_u64 7 (lv_lineage_generation v),
      fb_set_u64 8 (lv_authority_generation v), fb_set_u64 9 (of_nat (lv_node_count v)),
      fb_set_u64 10 (of_nat (lv_edge_count v)), fb_set_u64 11 (of_nat (lv_compacted_node_count v)),
      fb_set_u16 12 (currentness_code (lv_current_currentness v)), fb_set_digest 13 (lv_digest v)]"

definition decode_lineage_body :: "FieldBag \<Rightarrow> Limits \<Rightarrow> LineageView Result" where
  "decode_lineage_body body limits =
     r_then (take_key body 2 3 limits) (\<lambda>key.
       case (lineage_lifecycle_of (value_or (fb_u16 body 4) 0xFFFF), currentness_of (value_or (fb_u16 body 12) 0xFFFF)) of
         (Some lifecycle, Some currentness) \<Rightarrow>
           r_ok \<lparr>lv_id = value_or (fb_u64 body 1) 0, lv_key = key, lv_lifecycle = lifecycle,
             lv_current_route_generation = value_or (fb_u64 body 5) 0, lv_current_node = value_or (fb_u64 body 6) 0,
             lv_lineage_generation = value_or (fb_u64 body 7) 0, lv_authority_generation = value_or (fb_u64 body 8) 0,
             lv_node_count = unat (value_or (fb_u64 body 9) 0), lv_edge_count = unat (value_or (fb_u64 body 10) 0),
             lv_compacted_node_count = unat (value_or (fb_u64 body 11) 0), lv_current_currentness = currentness,
             lv_digest = value_or (fb_digest body 13) zero_digest\<rparr>
       | _ \<Rightarrow> r_failure O_ProtocolFailure ''unknown lineage state value'')"

definition nodes_body :: "ProvenanceNode list \<Rightarrow> FieldBag \<Rightarrow> FieldBag" where
  "nodes_body nodes = bag_all
     [fb_set_u64 1 (of_nat (length nodes)), fb_set_bytes 2 (wr_list (wr_framed write_node) nodes [])]"

definition decode_nodes_body :: "FieldBag \<Rightarrow> Limits \<Rightarrow> ProvenanceNode list Result" where
  "decode_nodes_body body limits =
     (case fb_u64 body 1 of
        None \<Rightarrow> r_failure O_ProtocolFailure ''malformed node body''
      | Some count \<Rightarrow>
          if unat count > max_query_results limits then
            r_failure O_ResourceLimit ''node body exceeds the bound''
          else
            (case fb_bytes body 2 of
               None \<Rightarrow> r_failure O_ProtocolFailure ''node body is missing records''
             | Some blob \<Rightarrow> decode_records blob limits (ucast count)))"

definition write_step :: "ExplanationStep \<Rightarrow> Writer \<Rightarrow> Writer" where
  "write_step s = wr_all
     [wr_u32 (of_nat (es_depth s)), wr_u64 (es_edge s), wr_u16 (edge_type_code (es_type s)), wr_u64 (es_from s),
      wr_u64 (es_to s), wr_u16 (node_kind_code (es_kind s)), wr_u16 (reason_code_code (es_reason s)),
      wr_u16 (source_class_code (es_source s)), wr_u64 (es_route_generation s),
      wr_u16 (node_lifecycle_code (es_lifecycle s)), wr_u16 (currentness_code (es_currentness s)),
      wr_u8 (flag_byte (es_historically_valid s)), wr_u8 (flag_byte (es_current s)), wr_u16 0]"

definition parse_step :: "byte list \<Rightarrow> Status + ExplanationStep" where
  "parse_step record =
     (let (depth, r) = rd_u32 (rd_open record); (edge, r) = rd_u64 r; (type, r) = rd_u16 r; (from_node, r) = rd_u64 r;
          (to_node, r) = rd_u64 r; (kind, r) = rd_u16 r; (reason, r) = rd_u16 r; (source, r) = rd_u16 r;
          (route_generation, r) = rd_u64 r; (lifecycle, r) = rd_u16 r; (currentness, r) = rd_u16 r;
          (historically_valid, r) = rd_u8 r; (current, r) = rd_u8 r; (reserved, r) = rd_u16 r
      in if rd_failed r \<or> \<not> rd_at_end r then
           Inl (st_failure O_ProtocolFailure ''malformed explanation step record'')
         else
           (case (edge_type_of type, node_kind_of kind, reason_code_of reason, source_class_of source,
                  node_lifecycle_of lifecycle, currentness_of currentness) of
              (Some type, Some kind, Some reason, Some source, Some lifecycle, Some currentness) \<Rightarrow>
                Inr \<lparr>es_depth = unat depth, es_edge = edge, es_type = type, es_from = from_node, es_to = to_node,
                  es_kind = kind, es_reason = reason, es_source = source, es_route_generation = route_generation,
                  es_lifecycle = lifecycle, es_currentness = currentness,
                  es_historically_valid = (historically_valid = 1), es_current = (current = 1)\<rparr>
            | _ \<Rightarrow> Inl (st_failure O_ProtocolFailure ''unknown explanation step enum value'')))"

definition explanation_body :: "Explanation \<Rightarrow> FieldBag \<Rightarrow> FieldBag" where
  "explanation_body e = bag_all
     [fb_set_u64 1 (ex_subject e), fb_set_u16 2 (explain_mode_code (ex_mode e)), fb_set_u64 3 (ex_lineage e),
      fb_set_u64 4 (lk_route (ex_key e)), fb_set_text 5 (lk_semantic_key (ex_key e)),
      fb_set_u16 6 (node_lifecycle_code (ex_subject_lifecycle e)),
      fb_set_u16 7 (currentness_code (ex_subject_currentness e)), fb_set_bool 8 (ex_historically_valid e),
      fb_set_bool 9 (ex_current e), fb_set_bool 10 (ex_truncated e), fb_set_u64 11 (of_nat (length (ex_steps e))),
      fb_set_digest 12 (ex_digest e), fb_set_bytes 13 (wr_list (wr_framed write_step) (ex_steps e) [])]"

definition decode_explanation_body :: "FieldBag \<Rightarrow> Limits \<Rightarrow> Explanation Result" where
  "decode_explanation_body body limits =
     (case explain_mode_of (value_or (fb_u16 body 2) 0xFFFF) of
        None \<Rightarrow> r_failure O_ProtocolFailure ''unknown explanation mode''
      | Some mode \<Rightarrow>
          (case (node_lifecycle_of (value_or (fb_u16 body 6) 0xFFFF), currentness_of (value_or (fb_u16 body 7) 0xFFFF)) of
             (Some lifecycle, Some currentness) \<Rightarrow>
               (case fb_u64 body 11 of
                  None \<Rightarrow> r_failure O_ResourceLimit ''explanation exceeds the configured bound''
                | Some count \<Rightarrow>
                    if unat count > max_explanation_nodes limits then
                      r_failure O_ResourceLimit ''explanation exceeds the configured bound''
                    else
                      (case fb_bytes body 13 of
                         None \<Rightarrow> r_failure O_ProtocolFailure ''explanation is missing its steps''
                       | Some blob \<Rightarrow>
                           r_then (finish_blob
                               (read_framed parse_step ''malformed explanation step'' (unat count) (rd_open blob))
                               ''explanation steps have trailing bytes'') (\<lambda>steps.
                             r_ok \<lparr>ex_subject = value_or (fb_u64 body 1) 0, ex_mode = mode,
                               ex_lineage = value_or (fb_u64 body 3) 0,
                               ex_key = \<lparr>lk_route = value_or (fb_u64 body 4) 0,
                                 lk_semantic_key = value_or (fb_text body 5) []\<rparr>,
                               ex_subject_lifecycle = lifecycle, ex_subject_currentness = currentness,
                               ex_historically_valid = value_or (fb_boolean body 8) False,
                               ex_current = value_or (fb_boolean body 9) False, ex_steps = steps,
                               ex_truncated = value_or (fb_boolean body 10) False,
                               ex_digest = value_or (fb_digest body 12) zero_digest\<rparr>)))
           | _ \<Rightarrow> r_failure O_ProtocolFailure ''unknown explanation state value''))"

definition snapshot_body :: "Snapshot \<Rightarrow> FieldBag \<Rightarrow> FieldBag" where
  "snapshot_body s = bag_all
     [fb_set_u64 1 (sn_lineage s), fb_set_u64 2 (lk_route (sn_key s)), fb_set_text 3 (lk_semantic_key (sn_key s)),
      fb_set_u16 4 (lineage_lifecycle_code (sn_lifecycle s)), fb_set_u64 5 (sn_current_route_generation s),
      fb_set_u64 6 (sn_current_node s), fb_set_u64 7 (sn_lineage_generation s),
      fb_set_u64 8 (sn_authority_generation s), fb_set_u64 9 (sn_store_generation s),
      fb_set_u64 10 (sn_coordinator_epoch s), fb_set_u16 11 (currentness_code (sn_current_currentness s)),
      fb_set_digest 12 (sn_digest s), fb_set_bool 13 (sn_truncated s), fb_set_u64 14 (of_nat (length (sn_nodes s))),
      fb_set_bytes 15 (wr_list (wr_framed write_node) (sn_nodes s) []),
      fb_set_u64 16 (of_nat (length (sn_edges s))),
      fb_set_bytes 17 (wr_list (wr_framed write_edge) (sn_edges s) [])]"

definition decode_snapshot_body :: "FieldBag \<Rightarrow> Limits \<Rightarrow> Snapshot Result" where
  "decode_snapshot_body body limits =
     (case (lineage_lifecycle_of (value_or (fb_u16 body 4) 0xFFFF), currentness_of (value_or (fb_u16 body 11) 0xFFFF)) of
        (Some lifecycle, Some currentness) \<Rightarrow>
          (case (fb_u64 body 14, fb_u64 body 16) of
             (Some nodes_n, Some edges_n) \<Rightarrow>
               if unat nodes_n > max_nodes_per_lineage limits \<or> unat edges_n > max_edges_per_lineage limits then
                 r_failure O_ResourceLimit ''snapshot exceeds the configured bounds''
               else
                 (case (fb_bytes body 15, fb_bytes body 17) of
                    (Some node_bytes, Some edge_bytes) \<Rightarrow>
                      r_then (decode_records node_bytes limits (ucast nodes_n)) (\<lambda>nodes.
                      r_then (decode_edge_records edge_bytes limits (ucast edges_n)) (\<lambda>edges.
                        let digest = value_or (fb_digest body 12) zero_digest
                        in r_ok \<lparr>sn_id = derive_id digest, sn_lineage = value_or (fb_u64 body 1) 0,
                          sn_key = \<lparr>lk_route = value_or (fb_u64 body 2) 0,
                            lk_semantic_key = value_or (fb_text body 3) []\<rparr>,
                          sn_lifecycle = lifecycle, sn_current_route_generation = value_or (fb_u64 body 5) 0,
                          sn_current_node = value_or (fb_u64 body 6) 0,
                          sn_lineage_generation = value_or (fb_u64 body 7) 0,
                          sn_authority_generation = value_or (fb_u64 body 8) 0,
                          sn_store_generation = value_or (fb_u64 body 9) 0,
                          sn_coordinator_epoch = value_or (fb_u64 body 10) 0,
                          sn_current_currentness = currentness, sn_nodes = nodes, sn_edges = edges,
                          sn_digest = digest, sn_truncated = value_or (fb_boolean body 13) False\<rparr>))
                  | _ \<Rightarrow> r_failure O_ProtocolFailure ''snapshot is missing its records'')
           | _ \<Rightarrow> r_failure O_ResourceLimit ''snapshot exceeds the configured bounds'')
      | _ \<Rightarrow> r_failure O_ProtocolFailure ''unknown snapshot state value'')"

definition watermarks_body :: "DependencyWatermarks \<Rightarrow> FieldBag \<Rightarrow> FieldBag" where
  "watermarks_body m = bag_all
     [fb_set_u64 1 (wm_store_generation m), fb_set_u64 2 (wm_path_authority_generation m),
      fb_set_u64 3 (wm_policy_generation m), fb_set_u64 4 (wm_evidence_generation m),
      fb_set_u64 5 (wm_plan_generation m), fb_set_u64 6 (wm_epoch m), fb_set_digest 7 (wm_digest m)]"

definition decode_watermarks_body :: "FieldBag \<Rightarrow> DependencyWatermarks Result" where
  "decode_watermarks_body body =
     r_ok \<lparr>wm_store_generation = value_or (fb_u64 body 1) 0, wm_path_authority_generation = value_or (fb_u64 body 2) 0,
       wm_policy_generation = value_or (fb_u64 body 3) 0, wm_evidence_generation = value_or (fb_u64 body 4) 0,
       wm_plan_generation = value_or (fb_u64 body 5) 0, wm_epoch = value_or (fb_u64 body 6) 0,
       wm_digest = value_or (fb_digest body 7) zero_digest\<rparr>"

section \<open>Answers arrive\<close>

lemma r_ok_inject: "r_ok a = r_ok b \<longleftrightarrow> a = b"
  by (simp add: r_ok_def)

text \<open>A response as the coordinator builds it: an outcome, a detail and a body.\<close>

definition answer :: "Outcome \<Rightarrow> string \<Rightarrow> FieldBag \<Rightarrow> ResponsePayload" where
  "answer out det body = \<lparr>rp_outcome = out, rp_detail = det, rp_body = body\<rparr>"

text \<open>The client reads a body of a response that arrived.\<close>

definition read_answer :: "(FieldBag \<Rightarrow> Limits \<Rightarrow> 'a Result) \<Rightarrow> byte list \<Rightarrow> Limits \<Rightarrow> (Outcome \<times> string \<times> 'a) Result" where
  "read_answer decode bytes limits =
     r_then (decode_response bytes limits) (\<lambda>p.
     r_then (decode (rp_body p) limits) (\<lambda>v. r_ok (rp_outcome p, rp_detail p, v)))"

text \<open>The contract of a body: what the coordinator answers is what the client reads.\<close>

locale body_codec =
  fixes body_of :: "'a \<Rightarrow> FieldBag \<Rightarrow> FieldBag" and decode :: "FieldBag \<Rightarrow> Limits \<Rightarrow> 'a Result"
    and ok :: "Limits \<Rightarrow> 'a \<Rightarrow> bool"
  assumes body_ok: "fb_ok (body_of v fb_empty)"
    and decodes: "ok limits v \<Longrightarrow> decode (body_of v fb_empty) limits = r_ok v"
begin

lemma answered:
  assumes "max_frame_bytes limits < 4294967296" and "ok limits v"
    and "encode_response (answer out det (body_of v fb_empty)) limits = Inr bytes"
  shows "read_answer decode bytes limits = r_ok (out, det, v)"
  using response.arrives [OF assms(1) _ assms(3) [unfolded encode_response_def]] assms(2)
  by (simp add: response_wire_ok_def body_ok decodes answer_def read_answer_def)

end

lemma unat_count_u64: "n < 18446744073709551616 \<Longrightarrow> unat (of_nat n :: u64) = n"
  by (simp add: unsigned_of_nat take_bit_eq_mod)

lemma count_cast: "n < 4294967296 \<Longrightarrow> unat (ucast (of_nat n :: u64) :: u32) = n"
  by (simp add: unsigned_ucast_eq unsigned_of_nat take_bit_eq_mod)

definition publication_body_ok :: "Limits \<Rightarrow> Publication \<Rightarrow> bool" where
  "publication_body_ok limits p \<longleftrightarrow> length (p_edges p) < 536870912"

lemma load_edge_ids_written:
  assumes "length ids < 536870912"
  shows "load_edge_ids (wr_list wr_u64 ids []) (length ids) = ids"
proof -
  have "load_le64 (drop (8 * i) (concat (map store_le64 ids))) = ids ! i" if "i < length ids" for i ids
    using that
  proof (induction ids arbitrary: i)
    case (Cons v ids)
    show ?case
    proof (cases i)
      case 0
      then show ?thesis by (simp add: load_store_le64)
    next
      case (Suc k)
      then show ?thesis using Cons by (simp add: drop_append)
    qed
  qed simp
  moreover have "unat (of_nat i * 8 :: u32) = 8 * i" if "i < length ids" for i
  proof -
    have "of_nat i * 8 = (of_nat (8 * i) :: u32)" by simp
    moreover have "8 * i < 4294967296" using that assms by simp
    ultimately show ?thesis by (simp only: unat_of_nat_u32)
  qed
  ultimately show ?thesis
    by (auto simp: load_edge_ids_def wr_list_u64 intro!: nth_equalityI)
qed

interpretation publication_answer: body_codec publication_body decode_publication_body publication_body_ok
proof
  fix limits and v :: Publication
  show "fb_ok (publication_body v fb_empty)" by (simp add: publication_body_def fb_set_defs)
  let ?b = "publication_body v fb_empty"
  assume "publication_body_ok limits v"
  then have n: "length (p_edges v) < 536870912" by (simp add: publication_body_ok_def)
  have at: "fb_find ?b 1 = Some (store_le64 (p_lineage v))" "fb_find ?b 2 = Some (store_le64 (p_node v))"
    "fb_find ?b 3 = Some (store_le64 (p_lineage_generation v))" "fb_find ?b 4 = Some (store_le64 (p_store_generation v))"
    "fb_find ?b 5 = Some (store_le16 (node_lifecycle_code (p_lifecycle v)))"
    "fb_find ?b 6 = Some (store_le16 (currentness_code (p_currentness v)))"
    "fb_find ?b 7 = Some (store_le32 (of_nat (length (p_edges v))))"
    "fb_find ?b 8 = Some (wr_list wr_u64 (p_edges v) [])"
    by (simp_all add: publication_body_def fb_set_defs)
  have "length (wr_list wr_u64 (p_edges v) []) = length (p_edges v) * 8"
    by (induction "p_edges v" rule: rev_induct) (simp_all add: wr_list_u64 length_concat sum_list_triv o_def)
  then show "decode_publication_body ?b limits = r_ok v"
    using n by (simp add: decode_publication_body_def at unat_of_nat_u32 load_edge_ids_written Let_def, cases v, simp)
qed

definition lineage_body_ok :: "Limits \<Rightarrow> LineageView \<Rightarrow> bool" where
  "lineage_body_ok limits v \<longleftrightarrow> key_wire_ok limits (lv_key v) \<and> lv_node_count v < 18446744073709551616
     \<and> lv_edge_count v < 18446744073709551616 \<and> lv_compacted_node_count v < 18446744073709551616"

interpretation lineage_answer: body_codec lineage_body decode_lineage_body lineage_body_ok
proof
  fix limits and v :: LineageView
  show "fb_ok (lineage_body v fb_empty)" by (simp add: lineage_body_def fb_set_defs)
  let ?b = "lineage_body v fb_empty"
  assume ok: "lineage_body_ok limits v"
  have at: "fb_find ?b 1 = Some (store_le64 (lv_id v))" "fb_find ?b 2 = Some (store_le64 (lk_route (lv_key v)))"
    "fb_find ?b 3 = Some (string_bytes (lk_semantic_key (lv_key v)))"
    "fb_find ?b 4 = Some (store_le16 (lineage_lifecycle_code (lv_lifecycle v)))"
    "fb_find ?b 5 = Some (store_le64 (lv_current_route_generation v))"
    "fb_find ?b 6 = Some (store_le64 (lv_current_node v))" "fb_find ?b 7 = Some (store_le64 (lv_lineage_generation v))"
    "fb_find ?b 8 = Some (store_le64 (lv_authority_generation v))"
    "fb_find ?b 9 = Some (store_le64 (of_nat (lv_node_count v)))"
    "fb_find ?b 10 = Some (store_le64 (of_nat (lv_edge_count v)))"
    "fb_find ?b 11 = Some (store_le64 (of_nat (lv_compacted_node_count v)))"
    "fb_find ?b 12 = Some (store_le16 (currentness_code (lv_current_currentness v)))"
    "fb_find ?b 13 = Some (digest_bytes (lv_digest v))"
    by (simp_all add: lineage_body_def fb_set_defs)
  have "take_key ?b 2 3 limits = r_ok (lv_key v)"
    using ok at by (simp add: take_key_content lineage_body_ok_def key_wire_ok_def)
  then show "decode_lineage_body ?b limits = r_ok v"
    using ok by (simp add: decode_lineage_body_def at lineage_body_ok_def unat_count_u64, cases v, simp)
qed

definition nodes_body_ok :: "Limits \<Rightarrow> ProvenanceNode list \<Rightarrow> bool" where
  "nodes_body_ok limits nodes \<longleftrightarrow> length nodes \<le> max_query_results limits \<and> length nodes < 4294967296
     \<and> list_all (node_blob.record_ok limits) nodes \<and> length (node_blob.blob nodes) \<le> max_frame_bytes limits"

lemma decode_records_blob:
  "list_all (node_blob.record_ok limits) nodes \<Longrightarrow> length (node_blob.blob nodes) \<le> max_frame_bytes limits \<Longrightarrow>
     length nodes < 4294967296 \<Longrightarrow>
     decode_records (node_blob.blob nodes) limits (ucast (of_nat (length nodes) :: u64)) = r_ok nodes"
  by (simp add: decode_records_def count_cast node_blob.finished)

lemma decode_edge_records_blob:
  "list_all (edge_blob.record_ok limits) edges \<Longrightarrow> length (edge_blob.blob edges) \<le> max_frame_bytes limits \<Longrightarrow>
     length edges < 4294967296 \<Longrightarrow>
     decode_edge_records (edge_blob.blob edges) limits (ucast (of_nat (length edges) :: u64)) = r_ok edges"
  by (simp add: decode_edge_records_def count_cast edge_blob.finished)

interpretation nodes_answer: body_codec nodes_body decode_nodes_body nodes_body_ok
proof
  fix limits and v :: "ProvenanceNode list"
  show "fb_ok (nodes_body v fb_empty)" by (simp add: nodes_body_def fb_set_defs)
  let ?b = "nodes_body v fb_empty"
  assume ok: "nodes_body_ok limits v"
  have at: "fb_find ?b 1 = Some (store_le64 (of_nat (length v)))" "fb_find ?b 2 = Some (node_blob.blob v)"
    by (simp_all add: nodes_body_def fb_set_defs node_blob.blob_def)
  show "decode_nodes_body ?b limits = r_ok v"
    using ok by (simp add: decode_nodes_body_def at nodes_body_ok_def unat_count_u64 decode_records_blob)
qed

definition step_ok :: "Limits \<Rightarrow> ExplanationStep \<Rightarrow> bool" where
  "step_ok limits s \<longleftrightarrow> es_depth s < 4294967296"

interpretation step_blob: framed_codec write_step "\<lambda>_. parse_step" step_ok
proof
  show "parse_step (written write_step v) = Inr v" if "step_ok limits v" for limits v
    using that
    by (cases v) (simp add: parse_step_def written_def write_step_def wr_all_def wr_defs rd_open_at step_ok_def
        unat_of_nat_u32 flag_byte_def)
qed

definition explanation_body_ok :: "Limits \<Rightarrow> Explanation \<Rightarrow> bool" where
  "explanation_body_ok limits e \<longleftrightarrow> length (ex_steps e) \<le> max_explanation_nodes limits
     \<and> length (ex_steps e) < 18446744073709551616 \<and> list_all (step_blob.record_ok limits) (ex_steps e)"

interpretation explanation_answer: body_codec explanation_body decode_explanation_body explanation_body_ok
proof
  fix limits and v :: Explanation
  show "fb_ok (explanation_body v fb_empty)" by (simp add: explanation_body_def fb_set_defs)
  let ?b = "explanation_body v fb_empty"
  assume "explanation_body_ok limits v"
  note ok = this [unfolded explanation_body_ok_def]
  have at: "fb_find ?b 1 = Some (store_le64 (ex_subject v))" "fb_find ?b 2 = Some (store_le16 (explain_mode_code (ex_mode v)))"
    "fb_find ?b 3 = Some (store_le64 (ex_lineage v))" "fb_find ?b 4 = Some (store_le64 (lk_route (ex_key v)))"
    "fb_find ?b 5 = Some (string_bytes (lk_semantic_key (ex_key v)))"
    "fb_find ?b 6 = Some (store_le16 (node_lifecycle_code (ex_subject_lifecycle v)))"
    "fb_find ?b 7 = Some (store_le16 (currentness_code (ex_subject_currentness v)))"
    "fb_find ?b 8 = Some [if ex_historically_valid v then 1 else 0]" "fb_find ?b 9 = Some [if ex_current v then 1 else 0]"
    "fb_find ?b 10 = Some [if ex_truncated v then 1 else 0]" "fb_find ?b 11 = Some (store_le64 (of_nat (length (ex_steps v))))"
    "fb_find ?b 12 = Some (digest_bytes (ex_digest v))" "fb_find ?b 13 = Some (step_blob.blob (ex_steps v))"
    by (simp_all add: explanation_body_def fb_set_defs fb_set_u8_bytes step_blob.blob_def)
  show "decode_explanation_body ?b limits = r_ok v"
    using ok by (simp add: decode_explanation_body_def at unat_count_u64 step_blob.finished [of limits], cases v, cases "ex_key v", simp)
qed

definition snapshot_body_ok :: "Limits \<Rightarrow> Snapshot \<Rightarrow> bool" where
  "snapshot_body_ok limits s \<longleftrightarrow> sn_id s = derive_id (sn_digest s)
     \<and> length (sn_nodes s) \<le> max_nodes_per_lineage limits \<and> length (sn_edges s) \<le> max_edges_per_lineage limits
     \<and> length (sn_nodes s) < 4294967296 \<and> length (sn_edges s) < 4294967296
     \<and> list_all (node_blob.record_ok limits) (sn_nodes s) \<and> list_all (edge_blob.record_ok limits) (sn_edges s)
     \<and> length (node_blob.blob (sn_nodes s)) \<le> max_frame_bytes limits
     \<and> length (edge_blob.blob (sn_edges s)) \<le> max_frame_bytes limits"

interpretation snapshot_answer: body_codec snapshot_body decode_snapshot_body snapshot_body_ok
proof
  fix limits and v :: Snapshot
  show "fb_ok (snapshot_body v fb_empty)" by (simp add: snapshot_body_def fb_set_defs)
  let ?b = "snapshot_body v fb_empty"
  assume "snapshot_body_ok limits v"
  note ok = this [unfolded snapshot_body_ok_def]
  have at: "fb_find ?b 1 = Some (store_le64 (sn_lineage v))" "fb_find ?b 2 = Some (store_le64 (lk_route (sn_key v)))"
    "fb_find ?b 3 = Some (string_bytes (lk_semantic_key (sn_key v)))"
    "fb_find ?b 4 = Some (store_le16 (lineage_lifecycle_code (sn_lifecycle v)))"
    "fb_find ?b 5 = Some (store_le64 (sn_current_route_generation v))" "fb_find ?b 6 = Some (store_le64 (sn_current_node v))"
    "fb_find ?b 7 = Some (store_le64 (sn_lineage_generation v))" "fb_find ?b 8 = Some (store_le64 (sn_authority_generation v))"
    "fb_find ?b 9 = Some (store_le64 (sn_store_generation v))" "fb_find ?b 10 = Some (store_le64 (sn_coordinator_epoch v))"
    "fb_find ?b 11 = Some (store_le16 (currentness_code (sn_current_currentness v)))"
    "fb_find ?b 12 = Some (digest_bytes (sn_digest v))" "fb_find ?b 13 = Some [if sn_truncated v then 1 else 0]"
    "fb_find ?b 14 = Some (store_le64 (of_nat (length (sn_nodes v))))" "fb_find ?b 15 = Some (node_blob.blob (sn_nodes v))"
    "fb_find ?b 16 = Some (store_le64 (of_nat (length (sn_edges v))))" "fb_find ?b 17 = Some (edge_blob.blob (sn_edges v))"
    by (simp_all add: snapshot_body_def fb_set_defs fb_set_u8_bytes node_blob.blob_def edge_blob.blob_def)
  show "decode_snapshot_body ?b limits = r_ok v"
    using ok by (simp add: decode_snapshot_body_def at unat_count_u64 decode_records_blob decode_edge_records_blob Let_def,
        cases v, cases "sn_key v", simp)
qed

interpretation watermarks_answer: body_codec watermarks_body "\<lambda>body _. decode_watermarks_body body" "\<lambda>_ _. True"
proof
  fix v :: DependencyWatermarks
  show "fb_ok (watermarks_body v fb_empty)" by (simp add: watermarks_body_def fb_set_defs)
  show "decode_watermarks_body (watermarks_body v fb_empty) = r_ok v"
    by (simp add: watermarks_body_def decode_watermarks_body_def fb_set_defs, cases v, simp)
qed

text \<open>
  C37: Answers arrive. Whatever publication, lineage view, list of nodes, explanation, snapshot or set of
  watermarks the coordinator puts into a response, with whatever outcome and detail, the client that
  decodes the response and its body reads exactly that: every record, every step, every count, the
  digest, and the snapshot's identity, which is not transmitted but derived from its digest again.
\<close>

theorem answers_arrive:
  assumes "max_frame_bytes limits < 4294967296"
  shows "(publication_body_ok limits p \<longrightarrow>
       encode_response (answer out det (publication_body p fb_empty)) limits = Inr bytes \<longrightarrow>
       read_answer decode_publication_body bytes limits = r_ok (out, det, p))
   \<and> (lineage_body_ok limits v \<longrightarrow>
       encode_response (answer out det (lineage_body v fb_empty)) limits = Inr bytes \<longrightarrow>
       read_answer decode_lineage_body bytes limits = r_ok (out, det, v))
   \<and> (nodes_body_ok limits ns \<longrightarrow>
       encode_response (answer out det (nodes_body ns fb_empty)) limits = Inr bytes \<longrightarrow>
       read_answer decode_nodes_body bytes limits = r_ok (out, det, ns))
   \<and> (explanation_body_ok limits e \<longrightarrow>
       encode_response (answer out det (explanation_body e fb_empty)) limits = Inr bytes \<longrightarrow>
       read_answer decode_explanation_body bytes limits = r_ok (out, det, e))
   \<and> (snapshot_body_ok limits s \<longrightarrow>
       encode_response (answer out det (snapshot_body s fb_empty)) limits = Inr bytes \<longrightarrow>
       read_answer decode_snapshot_body bytes limits = r_ok (out, det, s))
   \<and> (encode_response (answer out det (watermarks_body m fb_empty)) limits = Inr bytes \<longrightarrow>
       read_answer (\<lambda>body _. decode_watermarks_body body) bytes limits = r_ok (out, det, m))"
  by (intro conjI impI publication_answer.answered [OF assms] lineage_answer.answered [OF assms]
      nodes_answer.answered [OF assms] explanation_answer.answered [OF assms] snapshot_answer.answered [OF assms]
      watermarks_answer.answered [OF assms TrueI])

definition sample_marks :: DependencyWatermarks where
  "sample_marks = \<lparr>wm_store_generation = 1, wm_path_authority_generation = 2, wm_policy_generation = 3,
     wm_evidence_generation = 4, wm_plan_generation = 5, wm_epoch = 6, wm_digest = digest_from_bytes [7]\<rparr>"

theorem answers_arrive_witness:
  "read_answer (\<lambda>body _. decode_watermarks_body body)
     (encoded (encode_response (answer O_Ok [] (watermarks_body sample_marks fb_empty)) sample_wire_limits)) sample_wire_limits
     = r_ok (O_Ok, [], sample_marks)"
proof -
  have "length (fb_encoded (watermarks_body sample_marks fb_empty)) \<le> 200"
    by (simp add: watermarks_body_def wire_size)
  moreover have "length (fb_encoded (fb_set_bytes 2 [] (fb_set_bytes 1 (store_le16 (outcome_code O_Ok)) fb_empty))) \<le> 20"
    by (simp add: wire_size)
  ultimately have "length (fb_encoded (response_bag (answer O_Ok [] (watermarks_body sample_marks fb_empty)))) \<le> 500"
    by (simp add: response_bag_def answer_def fb_set_defs string_bytes_def fb_set_bytes_le)
  then have "encode_response (answer O_Ok [] (watermarks_body sample_marks fb_empty)) sample_wire_limits
    = Inr (encoded (encode_response (answer O_Ok [] (watermarks_body sample_marks fb_empty)) sample_wire_limits))"
    by (simp add: encode_response_def encode_bag_def sample_wire_limits_def encoded_def)
  with answers_arrive [OF sample_wire_bound] show ?thesis by blast
qed

end
