(* ===== verification/Server.thy ===== *)
theory Server
  imports Wire_Bodies
begin

text \<open>
  The coordinator runtime of \<^verbatim>\<open>src/net.cpp\<close>: sessions, the dispatch of one frame, the assembly of frames
  from a session's input, and one turn of the session loop. Sockets are numbers; what the operating system
  answers (\<^verbatim>\<open>select\<close>, \<^verbatim>\<open>accept\<close>, \<^verbatim>\<open>recv\<close>, \<^verbatim>\<open>send\<close>, the clock) is an argument of each step, and every buffer
  handed to \<^verbatim>\<open>send_all\<close> is kept in order, with whether it was taken whole.
\<close>

section \<open>State\<close>

record ServerOptions =
  sv_bind_address :: string
  sv_port :: u16
  sv_limits :: Limits
  sv_client_scope :: AuthorityScope
  sv_coordinator_authority :: AuthorityContext

record ServerStats =
  ss_sessions_accepted :: u64
  ss_sessions_rejected :: u64
  ss_sessions_closed :: u64
  ss_frames_received :: u64
  ss_frames_sent :: u64
  ss_bytes_received :: u64
  ss_bytes_sent :: u64
  ss_publications :: u64
  ss_queries :: u64
  ss_protocol_failures :: u64
  ss_assembly_timeouts :: u64
  ss_publishers_fenced :: u64
  ss_active_sessions :: u64

text \<open>\<open>None\<close> is \<^verbatim>\<open>kNoSocket\<close>; times are in nanoseconds.\<close>

record SessionState =
  se_socket :: "nat option"
  se_input :: "byte list"
  se_assembling :: bool
  se_assembly_started :: nat
  se_registered :: bool
  se_closing :: bool
  se_identity :: PublisherIdentity
  se_scope :: AuthorityScope

record Server =
  sr_store :: Store
  sr_options :: ServerOptions
  sr_running :: bool
  sr_listening :: bool
  sr_loop :: bool
  sr_bound_port :: u16
  sr_active_sessions :: u64
  sr_stats :: ServerStats
  sr_sessions :: "SessionState list"
  sr_sent :: "(nat option \<times> byte list \<times> bool) list"

abbreviation sr_limits :: "Server \<Rightarrow> Limits" where
  "sr_limits sv \<equiv> sv_limits (sr_options sv)"

definition no_stats :: ServerStats where
  "no_stats = \<lparr>ss_sessions_accepted = 0, ss_sessions_rejected = 0, ss_sessions_closed = 0, ss_frames_received = 0,
     ss_frames_sent = 0, ss_bytes_received = 0, ss_bytes_sent = 0, ss_publications = 0, ss_queries = 0,
     ss_protocol_failures = 0, ss_assembly_timeouts = 0, ss_publishers_fenced = 0, ss_active_sessions = 0\<rparr>"

definition add_stats :: "ServerStats \<Rightarrow> Server \<Rightarrow> Server" where
  "add_stats delta sv = sv\<lparr>sr_stats := (sr_stats sv)\<lparr>
     ss_sessions_accepted := ss_sessions_accepted (sr_stats sv) + ss_sessions_accepted delta,
     ss_sessions_rejected := ss_sessions_rejected (sr_stats sv) + ss_sessions_rejected delta,
     ss_sessions_closed := ss_sessions_closed (sr_stats sv) + ss_sessions_closed delta,
     ss_frames_received := ss_frames_received (sr_stats sv) + ss_frames_received delta,
     ss_frames_sent := ss_frames_sent (sr_stats sv) + ss_frames_sent delta,
     ss_bytes_received := ss_bytes_received (sr_stats sv) + ss_bytes_received delta,
     ss_bytes_sent := ss_bytes_sent (sr_stats sv) + ss_bytes_sent delta,
     ss_publications := ss_publications (sr_stats sv) + ss_publications delta,
     ss_queries := ss_queries (sr_stats sv) + ss_queries delta,
     ss_protocol_failures := ss_protocol_failures (sr_stats sv) + ss_protocol_failures delta,
     ss_assembly_timeouts := ss_assembly_timeouts (sr_stats sv) + ss_assembly_timeouts delta,
     ss_publishers_fenced := ss_publishers_fenced (sr_stats sv) + ss_publishers_fenced delta\<rparr>\<rparr>"

text \<open>A session as \<^verbatim>\<open>accept\<close> leaves it.\<close>

definition new_session :: "nat \<Rightarrow> SessionState" where
  "new_session socket = \<lparr>se_socket = Some socket, se_input = [], se_assembling = False, se_assembly_started = 0,
     se_registered = False, se_closing = False,
     se_identity = \<lparr>pi_publisher = 0, pi_boot = 0, pi_epoch = 0\<rparr>, se_scope = scope_none\<rparr>"

definition peek_payload_length :: "byte list \<Rightarrow> u16" where
  "peek_payload_length buffer = (if length buffer < 16 then 0 else ucast (load_le32 (drop 12 buffer)))"

definition valid_magic :: "byte list \<Rightarrow> bool" where
  "valid_magic buffer \<longleftrightarrow> (if length buffer < 2 then True else buffer ! 0 = 0x52 \<and> buffer ! 1 = 0x50)"

section \<open>Sending\<close>

text \<open>The default header, \<^verbatim>\<open>FrameHeader{}\<close>.\<close>

definition blank_header :: FrameHeader where
  "blank_header = \<lparr>fh_protocol_version = kWireProtocolVersion, fh_message = MI_Hello, fh_flags = 0, fh_epoch = 0,
     fh_publisher = 0, fh_boot = 0, fh_attempt = 0, fh_payload_bytes = 0\<rparr>"

definition response_header :: "FrameHeader \<Rightarrow> MessageId \<Rightarrow> FrameHeader" where
  "response_header request message = blank_header\<lparr>fh_message := message, fh_epoch := fh_epoch request,
     fh_publisher := fh_publisher request, fh_boot := fh_boot request, fh_attempt := fh_attempt request\<rparr>"

definition narrow_scope :: "AuthorityScope \<Rightarrow> AuthorityScope \<Rightarrow> AuthorityScope" where
  "narrow_scope granted requested =
     (if scope_kind granted = SK_Fabric then (if scope_is_empty requested then granted else requested) else granted)"

text \<open>\<open>tx n\<close> is the result of the \<open>n\<close>th call of \<^verbatim>\<open>send_all\<close>.\<close>

definition send_frame ::
    "hash_fun \<Rightarrow> (nat \<Rightarrow> bool) \<Rightarrow> SessionState \<Rightarrow> FrameHeader \<Rightarrow> FieldBag \<Rightarrow> Server \<Rightarrow> bool \<times> Server" where
  "send_frame H tx session header body sv =
     (case encode_frame H header (fb_encoded body) (sr_limits sv) of
        Inl _ \<Rightarrow> (False, add_stats (no_stats\<lparr>ss_protocol_failures := 1\<rparr>) sv)
      | Inr frame \<Rightarrow>
          let sent = tx (length (sr_sent sv));
              sv = sv\<lparr>sr_sent := sr_sent sv @ [(se_socket session, frame, sent)]\<rparr>
          in if \<not> sent then (False, sv)
             else (True, add_stats (no_stats\<lparr>ss_frames_sent := 1, ss_bytes_sent := of_nat (length frame)\<rparr>) sv))"

definition send_error ::
    "hash_fun \<Rightarrow> (nat \<Rightarrow> bool) \<Rightarrow> SessionState \<Rightarrow> FrameHeader \<Rightarrow> Outcome \<Rightarrow> string \<Rightarrow> Server \<Rightarrow> bool \<times> Server" where
  "send_error H tx session request out det sv =
     (case encode_response (answer out det fb_empty) (sr_limits sv) of
        Inl _ \<Rightarrow> (False, sv)
      | Inr payload \<Rightarrow>
          (case r_value (fb_decode payload (sr_limits sv)) of
             None \<Rightarrow> (False, sv)
           | Some body \<Rightarrow> send_frame H tx session (response_header request MI_Error) body sv))"

section \<open>Closing\<close>

definition close_session :: "bool \<Rightarrow> SessionState \<times> Server \<Rightarrow> SessionState \<times> Server" where
  "close_session fence = (\<lambda>(session, sv).
     let coordinator = sv_coordinator_authority (sr_options sv);
         fencing = fence \<and> se_registered session \<and> has_identity coordinator;
         (store, fenced) = (if fencing then
            fence_publisher (pi_publisher (se_identity session)) (pi_boot (se_identity session)) coordinator (sr_store sv)
            else (sr_store sv, st_ok));
         delta = no_stats\<lparr>ss_sessions_closed := 1,
           ss_publishers_fenced := (if fencing \<and> (st_outcome fenced = O_Ok \<or> st_outcome fenced = O_Updated) then 1 else 0)\<rparr>;
         sv = add_stats delta (sv\<lparr>sr_store := store\<rparr>)
     in (session\<lparr>se_socket := None\<rparr>, sv\<lparr>sr_active_sessions := sr_active_sessions sv - 1\<rparr>))"

section \<open>Answers\<close>

text \<open>\<^verbatim>\<open>handle_frame\<close>'s two lambdas; both parse what they encoded and send it as a result.\<close>

definition send_result ::
    "hash_fun \<Rightarrow> (nat \<Rightarrow> bool) \<Rightarrow> SessionState \<Rightarrow> FrameHeader \<Rightarrow> ServerStats \<Rightarrow> ResponsePayload \<Rightarrow> Server \<Rightarrow> Server" where
  "send_result H tx session header delta response sv =
     (case encode_response response (sr_limits sv) of
        Inl _ \<Rightarrow> sv
      | Inr raw \<Rightarrow>
          (case r_value (fb_decode raw (sr_limits sv)) of
             None \<Rightarrow> sv
           | Some body \<Rightarrow>
               add_stats delta (snd (send_frame H tx session (response_header header MI_Result) body sv))))"

definition publish_response ::
    "hash_fun \<Rightarrow> (nat \<Rightarrow> bool) \<Rightarrow> SessionState \<Rightarrow> FrameHeader \<Rightarrow> Publication Result \<Rightarrow> Server \<Rightarrow> Server" where
  "publish_response H tx session header result sv =
     (if r_has_value result \<or> outcome_is_stale (r_outcome result) \<or> r_outcome result = O_Duplicate
          \<or> r_outcome result = O_Idempotent then
        send_result H tx session header (no_stats\<lparr>ss_publications := 1\<rparr>)
          (answer (r_outcome result) (r_detail result)
            (case r_value result of Some p \<Rightarrow> publication_body p fb_empty | None \<Rightarrow> fb_empty)) sv
      else snd (send_error H tx session header (r_outcome result) (r_detail result) sv))"

definition query_response ::
    "hash_fun \<Rightarrow> (nat \<Rightarrow> bool) \<Rightarrow> SessionState \<Rightarrow> FrameHeader \<Rightarrow> Outcome \<Rightarrow> string \<Rightarrow> FieldBag \<Rightarrow> Server \<Rightarrow> Server" where
  "query_response H tx session header out det body sv =
     (if det \<noteq> [] \<and> \<not> outcome_is_commit out then snd (send_error H tx session header out det sv)
      else send_result H tx session header (no_stats\<lparr>ss_queries := 1\<rparr>) (answer out det body) sv)"

text \<open>A store operation on the coordinator's store, and the answer to a request that did not decode.\<close>

definition on_store :: "(Store \<Rightarrow> Store \<times> 'a) \<Rightarrow> Server \<Rightarrow> 'a \<times> Server" where
  "on_store operation sv = (let (store, result) = operation (sr_store sv) in (result, sv\<lparr>sr_store := store\<rparr>))"

definition with_request ::
    "hash_fun \<Rightarrow> (nat \<Rightarrow> bool) \<Rightarrow> SessionState \<Rightarrow> FrameHeader \<Rightarrow> 'a Result \<Rightarrow> ('a \<Rightarrow> Server \<Rightarrow> Server) \<Rightarrow> Server \<Rightarrow> Server" where
  "with_request H tx session header decoded serve sv =
     (case r_value decoded of
        None \<Rightarrow> snd (send_error H tx session header (r_outcome decoded) (r_detail decoded) sv)
      | Some request \<Rightarrow> serve request sv)"

definition serve_operation ::
    "hash_fun \<Rightarrow> (nat \<Rightarrow> bool) \<Rightarrow> SessionState \<Rightarrow> FrameHeader \<Rightarrow> (Store \<Rightarrow> Store \<times> Publication Result) \<Rightarrow> Server \<Rightarrow> Server" where
  "serve_operation H tx session header operation sv =
     (let (result, sv) = on_store operation sv in publish_response H tx session header result sv)"

definition serve_status ::
    "hash_fun \<Rightarrow> (nat \<Rightarrow> bool) \<Rightarrow> SessionState \<Rightarrow> FrameHeader \<Rightarrow> (Store \<Rightarrow> Store \<times> Status) \<Rightarrow> Server \<Rightarrow> Server" where
  "serve_status H tx session header operation sv =
     (let (status, sv) = on_store operation sv
      in if \<not> outcome_is_rejection (st_outcome status) then
           query_response H tx session header (st_outcome status) (st_detail status) fb_empty sv
         else snd (send_error H tx session header (st_outcome status) (st_detail status) sv))"

definition serve_query ::
    "hash_fun \<Rightarrow> (nat \<Rightarrow> bool) \<Rightarrow> SessionState \<Rightarrow> FrameHeader \<Rightarrow> 'a Result \<Rightarrow> ('a \<Rightarrow> FieldBag \<Rightarrow> FieldBag) \<Rightarrow> Server \<Rightarrow> Server" where
  "serve_query H tx session header result body_of sv =
     (case r_value result of
        None \<Rightarrow> snd (send_error H tx session header (r_outcome result) (r_detail result) sv)
      | Some v \<Rightarrow> query_response H tx session header O_Ok [] (body_of v fb_empty) sv)"

section \<open>Requests of a registered session\<close>

definition as_publisher :: "PublisherIdentity \<Rightarrow> AuthorityContext \<Rightarrow> AuthorityContext" where
  "as_publisher identity authority = authority\<lparr>ac_publisher := identity\<rparr>"

definition publication_request :: "MessageId \<Rightarrow> PublisherIdentity \<Rightarrow> PublicationPayload \<Rightarrow> PublishRouteRequest" where
  "publication_request message identity p =
     \<lparr>rq_key = pp_key p, rq_route_generation = pp_route_generation p, rq_route_state_digest = pp_route_state_digest p,
      rq_reason = (if message = MI_Supersede then RC_RouteReplaced else pp_reason p), rq_source = pp_source p,
      rq_root_reason = pp_root_reason p, rq_evidence = pp_evidence p,
      rq_authority = as_publisher identity (pp_authority p), rq_bindings = pp_bindings p, rq_edges = pp_edges p,
      rq_explicit_lineage = None\<rparr>"

definition administrative_request :: "PublisherIdentity \<Rightarrow> AdministrativePayload \<Rightarrow> AdministrativeRequest" where
  "administrative_request identity p =
     \<lparr>aq_key = ap_key p, aq_target = ap_target p, aq_reason = ap_reason p, aq_source = ap_source p,
      aq_evidence = ap_evidence p, aq_authority = as_publisher identity (ap_authority p), aq_bindings = ap_bindings p,
      aq_completion_evidence = ap_completion_evidence p,
      aq_allow_non_current_target = ap_allow_non_current_target p\<rparr>"

definition administrative_operation ::
    "hash_fun \<Rightarrow> MessageId \<Rightarrow> AdministrativeRequest \<Rightarrow> Store \<Rightarrow> Store \<times> Publication Result" where
  "administrative_operation H message request =
     (case message of
        MI_Withdraw \<Rightarrow> withdraw H request
      | MI_Revoke \<Rightarrow> revoke H request
      | MI_Retire \<Rightarrow> retire H request
      | MI_Revalidate \<Rightarrow> revalidate H request
      | _ \<Rightarrow> invalidate H request)"

text \<open>The reason of a correction keeps its default.\<close>

definition correction_request :: "PublisherIdentity \<Rightarrow> CorrectionPayload \<Rightarrow> CorrectionRequest" where
  "correction_request identity p =
     \<lparr>cq_key = xp_key p, cq_target = xp_target p, cq_reason = RC_Correction, cq_source = xp_source p,
      cq_route_state_digest = xp_route_state_digest p, cq_evidence = xp_evidence p,
      cq_authority = as_publisher identity (xp_authority p), cq_bindings = xp_bindings p\<rparr>"

definition declaration_request :: "PublisherIdentity \<Rightarrow> DeclarationPayload \<Rightarrow> DeclarationRequest" where
  "declaration_request identity p =
     \<lparr>dq_key = dp_key p, dq_kind = dp_kind p, dq_route = dp_route p, dq_route_generation = dp_route_generation p,
      dq_reason = dp_reason p, dq_source = dp_source p, dq_evidence = dp_evidence p,
      dq_authority = as_publisher identity (dp_authority p), dq_bindings = dp_bindings p\<rparr>"

definition link_request :: "PublisherIdentity \<Rightarrow> LinkPayload \<Rightarrow> LinkDerivationRequest" where
  "link_request identity p =
     \<lparr>lq_key = lp_key p, lq_type = lp_type p, lq_from = lp_from p, lq_to = lp_to p, lq_reason = lp_reason p,
      lq_source = lp_source p, lq_evidence = lp_evidence p, lq_authority = as_publisher identity (lp_authority p)\<rparr>"

definition dependency_request :: "PublisherIdentity \<Rightarrow> DependencyPayload \<Rightarrow> DependencyNotification" where
  "dependency_request identity p =
     (let n = yp_notification p in n\<lparr>dn_authority := as_publisher identity (dn_authority n)\<rparr>)"

text \<open>The five queries.\<close>

definition serve_query_request ::
    "hash_fun \<Rightarrow> (nat \<Rightarrow> bool) \<Rightarrow> SessionState \<Rightarrow> FrameHeader \<Rightarrow> byte list \<Rightarrow> Server \<Rightarrow> Server" where
  "serve_query_request H tx session header payload sv =
     (let limits = sr_limits sv; message = fh_message header
      in if message = MI_QueryLineage then
           with_request H tx session header (decode_query payload limits)
             (\<lambda>q sv. serve_query H tx session header (lineage_view H (qp_lineage q) (sr_store sv)) lineage_body sv) sv
         else if message = MI_QueryAncestry then
           with_request H tx session header (decode_query payload limits)
             (\<lambda>q sv. serve_query H tx session header
                (if qp_direction q = TD_Outgoing then ancestors (qp_node q) (qp_bounds q) (sr_store sv)
                 else descendants (qp_node q) (qp_bounds q) (sr_store sv))
                (\<lambda>t. nodes_body (map fst (tr_nodes t))) sv) sv
         else if message = MI_QueryCause then
           with_request H tx session header (decode_query payload limits)
             (\<lambda>q sv. serve_query H tx session header
                (explain H \<lparr>xr_subject = qp_node q, xr_mode = qp_mode q, xr_max_depth = tb_max_depth (qp_bounds q),
                   xr_max_nodes = tb_max_results (qp_bounds q)\<rparr> (sr_store sv)) explanation_body sv) sv
         else if message = MI_SnapshotRequest then
           with_request H tx session header (decode_query payload limits)
             (\<lambda>q sv. serve_query H tx session header
                (snapshot H (qp_lineage q) \<lparr>so_include_edges = True, so_include_historical = True,
                   so_max_nodes = tb_max_results (qp_bounds q), so_max_edges = 0\<rparr> (sr_store sv)) snapshot_body sv) sv
         else
           serve_query H tx session header (watermarks H (sr_store sv)) watermarks_body sv)"

definition serve_request ::
    "hash_fun \<Rightarrow> (nat \<Rightarrow> bool) \<Rightarrow> SessionState \<Rightarrow> FrameHeader \<Rightarrow> byte list \<Rightarrow> Server \<Rightarrow> Server" where
  "serve_request H tx session header payload sv =
     (let limits = sr_limits sv; identity = se_identity session; message = fh_message header;
          operate = serve_operation H tx session header
      in if message = MI_PublishProvenance \<or> message = MI_Supersede then
           with_request H tx session header (decode_publication payload limits)
             (\<lambda>p. operate (publish_route H (publication_request message identity p))) sv
         else if message \<in> {MI_Withdraw, MI_Revoke, MI_Retire, MI_Revalidate, MI_Invalidate} then
           with_request H tx session header (decode_administrative payload limits)
             (\<lambda>p. operate (administrative_operation H message (administrative_request identity p))) sv
         else if message = MI_Correct then
           with_request H tx session header (decode_correction payload limits)
             (\<lambda>p. operate (correct_record H (correction_request identity p))) sv
         else if message = MI_DeclareSource then
           with_request H tx session header (decode_declaration payload limits)
             (\<lambda>p. operate (declare_record H (declaration_request identity p))) sv
         else if message = MI_LinkDerivation then
           with_request H tx session header (decode_link payload limits)
             (\<lambda>p. operate (link_derivation H (link_request identity p))) sv
         else if message = MI_NotifyDependency then
           with_request H tx session header (decode_dependency payload limits)
             (\<lambda>p. serve_status H tx session header (notify_dependency (dependency_request identity p))) sv
         else if message = MI_FenceNotice then
           with_request H tx session header (decode_fence payload limits)
             (\<lambda>p. serve_status H tx session header (fence_publisher (fp_publisher p) (fp_boot p) (fp_authority p))) sv
         else if message \<in> {MI_QueryLineage, MI_QueryAncestry, MI_QueryCause, MI_SnapshotRequest, MI_QueryWatermarks} then
           serve_query_request H tx session header payload sv
         else
           snd (send_error H tx session header O_ProtocolFailure ''message is not accepted by the coordinator'' sv))"

section \<open>One frame\<close>

text \<open>The acknowledgement of a registration, with the session and the store after it.\<close>

definition register_session ::
    "hash_fun \<Rightarrow> RegistrationPayload \<Rightarrow> SessionState \<times> Server \<Rightarrow> HelloAckPayload \<times> SessionState \<times> Server" where
  "register_session H registration = (\<lambda>(session, sv).
     let marks = watermarks H (sr_store sv);
         ack = \<lparr>ha_epoch = (case r_value marks of Some m \<Rightarrow> wm_epoch m | None \<Rightarrow> 0), ha_accepted = False,
           ha_max_frame_bytes = max_frame_bytes (sr_limits sv), ha_protocol_version = kWireProtocolVersion,
           ha_detail = ''''\<rparr>
     in if rg_protocol_version registration \<noteq> kWireProtocolVersion then
          (ack\<lparr>ha_detail := ''wire protocol version mismatch''\<rparr>, session, sv)
        else
          let granted = narrow_scope (sv_client_scope (sr_options sv)) (rg_scope registration);
              (record, sv) = on_store (register_publisher (rg_identity registration) granted) sv
          in (case r_value record of
                Some r \<Rightarrow> (ack\<lparr>ha_accepted := True, ha_detail := ''registered''\<rparr>,
                  session\<lparr>se_registered := True, se_identity := rg_identity registration, se_scope := pr_scope r\<rparr>, sv)
              | None \<Rightarrow> (ack\<lparr>ha_detail := outcome_name (r_outcome record) @ '': '' @ r_detail record\<rparr>, session,
                  add_stats (no_stats\<lparr>ss_sessions_rejected := 1\<rparr>) sv)))"

definition handle_registration ::
    "hash_fun \<Rightarrow> (nat \<Rightarrow> bool) \<Rightarrow> FrameHeader \<Rightarrow> byte list \<Rightarrow> SessionState \<times> Server \<Rightarrow> SessionState \<times> Server" where
  "handle_registration H tx header payload = (\<lambda>(session, sv).
     (let registration = decode_registration payload (sr_limits sv)
      in (case r_value registration of
            None \<Rightarrow> (session\<lparr>se_closing := True\<rparr>,
              snd (send_error H tx session header (r_outcome registration) (r_detail registration) sv))
          | Some rg \<Rightarrow>
              (let (ack, session, sv) = register_session H rg (session, sv)
               in (case encode_hello_ack ack (sr_limits sv) of
                     Inl _ \<Rightarrow> (session\<lparr>se_closing := True\<rparr>, sv)
                   | Inr raw \<Rightarrow>
                       (case r_value (fb_decode raw (sr_limits sv)) of
                          None \<Rightarrow> (session\<lparr>se_closing := True\<rparr>, sv)
                        | Some body \<Rightarrow>
                            (let (sent, sv) = send_frame H tx session (response_header header MI_HelloAck) body sv
                             in if \<not> sent \<or> \<not> ha_accepted ack then (session\<lparr>se_closing := True\<rparr>, sv)
                                else (session, sv))))))))"

definition handle_frame ::
    "hash_fun \<Rightarrow> (nat \<Rightarrow> bool) \<Rightarrow> DecodedFrame \<Rightarrow> SessionState \<times> Server \<Rightarrow> SessionState \<times> Server" where
  "handle_frame H tx frame = (\<lambda>(session, sv).
     let sv = add_stats (no_stats\<lparr>ss_frames_received := 1\<rparr>) sv;
         header = df_header frame; payload = df_payload frame; message = fh_message header
     in if message = MI_Ping then
          (session, snd (send_frame H tx session (response_header header MI_Pong) fb_empty sv))
        else if message = MI_Bye then (session\<lparr>se_closing := True\<rparr>, sv)
        else if message = MI_Hello \<or> message = MI_RegisterPublisher then
          handle_registration H tx header payload (session, sv)
        else if \<not> se_registered session then
          (session\<lparr>se_closing := True\<rparr>, snd (send_error H tx session header O_Unauthorized
             ''session is not registered with the coordinator'' sv))
        else if fh_publisher header \<noteq> pi_publisher (se_identity session)
             \<or> fh_boot header \<noteq> pi_boot (se_identity session) then
          (session\<lparr>se_closing := True\<rparr>, snd (send_error H tx session header O_Unauthorized
             ''frame identity does not match the registered session'' sv))
        else (session, serve_request H tx session header payload sv))"

text \<open>What a handler leaves of its session as it is.\<close>

definition same_transport :: "SessionState \<Rightarrow> SessionState \<Rightarrow> bool" where
  "same_transport s t \<longleftrightarrow> se_socket t = se_socket s \<and> se_input t = se_input s \<and> se_assembling t = se_assembling s
     \<and> se_assembly_started t = se_assembly_started s"

lemma register_session_transport:
  "register_session H rg (session, sv) = (ack, session', sv') \<Longrightarrow>
     same_transport session session' \<and> se_closing session' = se_closing session"
  by (auto simp: register_session_def Let_def same_transport_def case_prod_beta split: if_splits option.splits)

lemma handle_registration_transport:
  "same_transport session (fst (handle_registration H tx header payload (session, sv)))"
proof (cases "r_value (decode_registration payload (sr_limits sv))")
  case None
  then show ?thesis by (simp add: handle_registration_def same_transport_def Let_def)
next
  case (Some rg)
  obtain ack session' sv' where r: "register_session H rg (session, sv) = (ack, session', sv')"
    by (metis prod_cases3)
  then show ?thesis
    using register_session_transport [OF r]
    by (auto simp: handle_registration_def Some same_transport_def case_prod_beta split: sum.splits option.splits)
qed

lemma handle_frame_transport:
  "same_transport session (fst (handle_frame H tx frame (session, sv)))"
  using handle_registration_transport [of session]
  by (auto simp: handle_frame_def Let_def) (simp_all add: same_transport_def)

lemma handle_frame_input [simp]:
  "se_input (fst (handle_frame H tx frame (session, sv))) = se_input session"
  using handle_frame_transport by (simp add: same_transport_def)

section \<open>Frame assembly\<close>

text \<open>\<^verbatim>\<open>kFrameHeaderBytes + payload_length + kFrameTrailerBytes\<close>.\<close>

definition peek_frame_size :: "byte list \<Rightarrow> nat" where
  "peek_frame_size buffer = kFrameHeaderBytes + unat (peek_payload_length buffer) + kFrameTrailerBytes"

text \<open>The loop over the complete frames of a session's input.\<close>

function process_input ::
    "hash_fun \<Rightarrow> (nat \<Rightarrow> bool) \<Rightarrow> nat \<Rightarrow> SessionState \<Rightarrow> Server \<Rightarrow> SessionState \<times> Server" where
  "process_input H tx now session sv =
     (let size = peek_frame_size (se_input session);
          failed = (session\<lparr>se_closing := True\<rparr>, add_stats (no_stats\<lparr>ss_protocol_failures := 1\<rparr>) sv)
      in if se_closing session \<or> length (se_input session) < 16 then (session, sv)
         else if \<not> valid_magic (se_input session) then failed
         else if size > max_frame_bytes (sr_limits sv) then failed
         else if length (se_input session) < size then
           (if se_assembling session then session
            else session\<lparr>se_assembling := True, se_assembly_started := now\<rparr>, sv)
         else
           (let decoded = decode_frame H (take size (se_input session)) (sr_limits sv);
                session = session\<lparr>se_assembling := False, se_input := drop size (se_input session)\<rparr>
            in (case r_value decoded of
                  None \<Rightarrow>
                    (session\<lparr>se_closing := True\<rparr>,
                     snd (send_error H tx session blank_header (r_outcome decoded) (r_detail decoded)
                       (add_stats (no_stats\<lparr>ss_protocol_failures := 1\<rparr>) sv)))
                | Some frame \<Rightarrow>
                    process_input H tx now (fst (handle_frame H tx frame (session, sv)))
                      (snd (handle_frame H tx frame (session, sv))))))"
  by pat_completeness auto
termination
  by (relation "measure (\<lambda>(H, tx, now, session, sv). length (se_input session))")
    (auto simp: peek_frame_size_def kFrameHeaderBytes_def not_less case_prod_beta)

declare process_input.simps [simp del]

text \<open>One session's part of a turn: the start of an assembly, the frames, the deadline.\<close>

definition start_assembly :: "nat \<Rightarrow> SessionState \<Rightarrow> SessionState" where
  "start_assembly now session =
     (if \<not> se_closing session \<and> se_input session \<noteq> [] \<and> \<not> se_assembling session then
        session\<lparr>se_assembling := True, se_assembly_started := now\<rparr>
      else session)"

definition check_deadline :: "nat \<Rightarrow> SessionState \<times> Server \<Rightarrow> SessionState \<times> Server" where
  "check_deadline now = (\<lambda>(session, sv).
     if se_assembling session
        \<and> (now - se_assembly_started session) div 1000000 > max_frame_assembly_ms (sr_limits sv) then
       (session\<lparr>se_closing := True\<rparr>, add_stats (no_stats\<lparr>ss_assembly_timeouts := 1\<rparr>) sv)
     else (session, sv))"

definition serve_session ::
    "hash_fun \<Rightarrow> (nat \<Rightarrow> bool) \<Rightarrow> nat \<Rightarrow> SessionState \<times> Server \<Rightarrow> SessionState \<times> Server" where
  "serve_session H tx now = (\<lambda>(session, sv).
     if se_socket session = None then (session, sv)
     else check_deadline now (process_input H tx now (start_assembly now session) sv))"

section \<open>One turn of the session loop\<close>

text \<open>The answer of the one-byte peek every session is probed with.\<close>

datatype Probe = PR_Data | PR_Closed | PR_WouldBlock | PR_Error

text \<open>
  What the operating system answers in one turn: whether a stop was requested before it, the result of
  \<^verbatim>\<open>select\<close> (negative, zero or positive), whether the listener is readable, the connections accepted with
  the success of \<^verbatim>\<open>set_nonblocking\<close>, per readable socket the chunks received and whether the peer closed,
  the probes, the clock, and the results of \<^verbatim>\<open>send_all\<close>.
\<close>

record Turn =
  tn_stop :: bool
  tn_ready :: int
  tn_listener_readable :: bool
  tn_accepted :: "(nat \<times> bool) list"
  tn_received :: "nat \<Rightarrow> (byte list list \<times> bool) option"
  tn_probe :: "nat \<Rightarrow> Probe"
  tn_now :: nat
  tn_sends :: "nat \<Rightarrow> bool"

fun each_session ::
    "(SessionState \<times> Server \<Rightarrow> SessionState \<times> Server) \<Rightarrow> SessionState list \<Rightarrow> Server \<Rightarrow> SessionState list \<times> Server" where
  "each_session f [] sv = ([], sv)"
| "each_session f (session # rest) sv =
     (let (session, sv) = f (session, sv); (rest, sv) = each_session f rest sv in (session # rest, sv))"

definition for_sessions :: "(SessionState \<times> Server \<Rightarrow> SessionState \<times> Server) \<Rightarrow> Server \<Rightarrow> Server" where
  "for_sessions f sv = (let (sessions, sv) = each_session f (sr_sessions sv) sv in sv\<lparr>sr_sessions := sessions\<rparr>)"

definition accept_connection :: "nat \<times> bool \<Rightarrow> Server \<Rightarrow> Server" where
  "accept_connection = (\<lambda>(socket, nonblocking) sv.
     if length (sr_sessions sv) \<ge> max_sessions (sr_limits sv) then
       add_stats (no_stats\<lparr>ss_sessions_rejected := 1\<rparr>) sv
     else if \<not> nonblocking then add_stats (no_stats\<lparr>ss_sessions_rejected := 1\<rparr>) sv
     else add_stats (no_stats\<lparr>ss_sessions_accepted := 1\<rparr>)
       (sv\<lparr>sr_sessions := sr_sessions sv @ [new_session socket], sr_active_sessions := sr_active_sessions sv + 1\<rparr>))"

definition receive_chunk :: "byte list \<Rightarrow> SessionState \<times> Server \<Rightarrow> SessionState \<times> Server" where
  "receive_chunk chunk = (\<lambda>(session, sv).
     (session\<lparr>se_input := se_input session @ chunk\<rparr>,
      add_stats (no_stats\<lparr>ss_bytes_received := of_nat (length chunk)\<rparr>) sv))"

definition receive_input :: "Turn \<Rightarrow> SessionState \<times> Server \<Rightarrow> SessionState \<times> Server" where
  "receive_input turn = (\<lambda>(session, sv).
     (case se_socket session of
        None \<Rightarrow> (session, sv)
      | Some socket \<Rightarrow>
          (case tn_received turn socket of
             None \<Rightarrow> (session, sv)
           | Some (chunks, peer_closed) \<Rightarrow>
               (let (session, sv) = fold receive_chunk chunks (session, sv)
                in (if peer_closed then session\<lparr>se_closing := True\<rparr> else session, sv)))))"

definition probe_session :: "Turn \<Rightarrow> SessionState \<times> Server \<Rightarrow> SessionState \<times> Server" where
  "probe_session turn = (\<lambda>(session, sv).
     (case se_socket session of
        None \<Rightarrow> (session, sv)
      | Some socket \<Rightarrow>
          if \<not> se_closing session \<and> tn_probe turn socket \<in> {PR_Closed, PR_Error} then
            (session\<lparr>se_closing := True\<rparr>, sv)
          else (session, sv)))"

definition close_if :: "(SessionState \<Rightarrow> bool) \<Rightarrow> SessionState \<times> Server \<Rightarrow> SessionState \<times> Server" where
  "close_if p = (\<lambda>(session, sv).
     if p session \<and> se_socket session \<noteq> None then close_session True (session, sv) else (session, sv))"

definition drop_closed :: "Server \<Rightarrow> Server" where
  "drop_closed sv = sv\<lparr>sr_sessions := filter (\<lambda>session. se_socket session \<noteq> None) (sr_sessions sv)\<rparr>"

text \<open>The result says whether the loop goes on.\<close>

definition turn_loop :: "hash_fun \<Rightarrow> Turn \<Rightarrow> Server \<Rightarrow> bool \<times> Server" where
  "turn_loop H turn sv =
     (if tn_ready turn < 0 then (False, add_stats (no_stats\<lparr>ss_protocol_failures := 1\<rparr>) sv)
      else
        let sv = (if tn_ready turn > 0 \<and> tn_listener_readable turn then fold accept_connection (tn_accepted turn) sv else sv);
            sv = (if tn_ready turn > 0 then for_sessions (receive_input turn) sv else sv);
            sv = for_sessions (probe_session turn) sv;
            sv = for_sessions (serve_session H (tn_sends turn) (tn_now turn)) sv;
            sv = for_sessions (close_if se_closing) sv
        in (True, drop_closed sv))"

definition shut_down :: "Server \<Rightarrow> Server" where
  "shut_down sv = (for_sessions (close_if (\<lambda>_. True)) sv)\<lparr>sr_sessions := [], sr_running := False\<rparr>"

text \<open>\<^verbatim>\<open>run\<close>, as far as the turns observed.\<close>

fun run_server :: "hash_fun \<Rightarrow> Turn list \<Rightarrow> Server \<Rightarrow> Server" where
  "run_server H [] sv = sv"
| "run_server H (turn # turns) sv =
     (if tn_stop turn then shut_down sv
      else
        (let (go_on, sv) = turn_loop H turn sv in if go_on then run_server H turns sv else shut_down sv))"

section \<open>The server's own interface\<close>

definition new_server :: "Store \<Rightarrow> ServerOptions \<Rightarrow> Server" where
  "new_server st options = \<lparr>sr_store = st, sr_options = options, sr_running = False, sr_listening = False, sr_loop = False, sr_bound_port = 0,
     sr_active_sessions = 0, sr_stats = no_stats, sr_sessions = [], sr_sent = []\<rparr>"

text \<open>The calls of \<^verbatim>\<open>start\<close>: each succeeds or fails; \<^verbatim>\<open>getsockname\<close> tells the port.\<close>

record StartEvents =
  st_socket :: bool
  st_inet_pton :: bool
  st_bind :: bool
  st_listen :: bool
  st_getsockname :: "u16 option"
  st_nonblocking :: bool

text \<open>
  \<open>None\<close> is \<^verbatim>\<open>std::terminate\<close>: the new thread is assigned to one that has not been joined. An earlier
  listener is not closed but overwritten.
\<close>

definition server_start :: "StartEvents \<Rightarrow> Server \<Rightarrow> (Server \<times> Status) option" where
  "server_start ev sv =
     (if sr_running sv then Some (sv, st_failure O_MalformedRequest ''server is already running'')
      else
        let sv = sv\<lparr>sr_listening := False\<rparr>
        in if \<not> st_socket ev then Some (sv, st_failure O_IoFailure ''cannot create the listening socket'')
        else if sv_bind_address (sr_options sv) \<noteq> ''127.0.0.1'' \<and> \<not> st_inet_pton ev then
          Some (sv, st_failure O_MalformedRequest ''bind address must be a valid IPv4 literal'')
        else if \<not> st_bind ev then Some (sv, st_failure O_IoFailure ''cannot bind the coordinator endpoint'')
        else if \<not> st_listen ev then Some (sv, st_failure O_IoFailure ''cannot listen on the coordinator endpoint'')
        else (case st_getsockname ev of
          None \<Rightarrow> Some (sv, st_failure O_IoFailure ''cannot determine the bound coordinator port'')
        | Some port \<Rightarrow>
            if \<not> st_nonblocking ev then
              Some (sv, st_failure O_IoFailure ''cannot switch the listening socket to non-blocking mode'')
            else if sr_loop sv then None
            else Some (sv\<lparr>sr_listening := True, sr_bound_port := port, sr_running := True, sr_loop := True\<rparr>, st_ok)))"

text \<open>
  Joining the loop lets it see the request and shut down. A call from the loop's own thread only leaves
  the request, which the next turn sees.
\<close>

definition server_stop :: "bool \<Rightarrow> Server \<Rightarrow> Server \<times> Status" where
  "server_stop from_loop sv =
     (if \<not> sr_running sv \<and> \<not> sr_loop sv then (sv, st_ok_with O_Idempotent ''server is not running'')
      else if sr_loop sv \<and> from_loop then
        (sv, st_failure O_MalformedRequest ''the session loop cannot stop itself'')
      else ((if sr_running sv then shut_down sv else sv)\<lparr>sr_loop := False, sr_listening := False\<rparr>, st_ok))"

definition server_endpoint :: "Server \<Rightarrow> string" where
  "server_endpoint sv = sv_bind_address (sr_options sv) @ '':'' @ dec_string (unat (sr_bound_port sv))"

definition server_stats :: "Server \<Rightarrow> ServerStats" where
  "server_stats sv = (sr_stats sv)\<lparr>ss_active_sessions := sr_active_sessions sv\<rparr>"

definition server_advance_epoch :: "CoordinatorEpoch \<Rightarrow> Server \<Rightarrow> Server \<times> Status" where
  "server_advance_epoch epoch sv =
     (if \<not> sr_running sv then (sv, st_failure O_MalformedRequest ''server is not running'')
      else
        (let (advanced, sv) = on_store (advance_epoch epoch (sv_coordinator_authority (sr_options sv))) sv
         in if \<not> st_is_ok advanced then (sv, advanced)
            else
              (let coordinator = sv_coordinator_authority (sr_options sv)
               in (sv\<lparr>sr_options := (sr_options sv)\<lparr>sv_coordinator_authority :=
                     coordinator\<lparr>ac_publisher := (ac_publisher coordinator)\<lparr>pi_epoch := epoch\<rparr>\<rparr>\<rparr>\<rparr>,
                   st_ok_with O_Updated ''coordinator epoch advanced''))))"

end
