(* ===== verification/Store_Props.thy ===== *)
theory Store_Props
  imports Store_Samples
begin

text \<open>
  What the store promises: the invariant of every reachable store, history that is only appended to,
  generations and ledgers that only advance, and authority checks no mutation escapes.
\<close>

section \<open>Generations, ledgers and watermarks only advance\<close>

definition marks_later :: "DependencyWatermarks \<Rightarrow> DependencyWatermarks \<Rightarrow> bool" where
  "marks_later m m' \<longleftrightarrow>
     wm_store_generation m \<le> wm_store_generation m'
     \<and> wm_path_authority_generation m \<le> wm_path_authority_generation m'
     \<and> wm_policy_generation m \<le> wm_policy_generation m'
     \<and> wm_evidence_generation m \<le> wm_evidence_generation m'
     \<and> wm_plan_generation m \<le> wm_plan_generation m' \<and> wm_epoch m \<le> wm_epoch m'"

definition lineage_later :: "Lineage \<Rightarrow> Lineage \<Rightarrow> bool" where
  "lineage_later lin lin' \<longleftrightarrow>
     ls_key (l_state lin') = ls_key (l_state lin)
     \<and> ls_lineage_generation (l_state lin) \<le> ls_lineage_generation (l_state lin')
     \<and> (\<forall>k r. om_find (l_attempts lin) k = Some r \<longrightarrow> om_find (l_attempts lin') k = Some r)
     \<and> (\<forall>j. om_has (g_nodes (l_graph lin)) j \<longrightarrow> om_has (g_nodes (l_graph lin')) j)"

definition store_later :: "Store \<Rightarrow> Store \<Rightarrow> bool" where
  "store_later st st' \<longleftrightarrow>
     marks_later (s_watermarks st) (s_watermarks st') \<and> s_limits st' = s_limits st
     \<and> (\<forall>i lin. find_lineage st i = Some lin \<longrightarrow>
          (\<exists>lin'. find_lineage st' i = Some lin' \<and> lineage_later lin lin'))"

lemma lineage_later_refl [simp]: "lineage_later lin lin"
  by (simp add: lineage_later_def)

lemma lineage_later_trans: "lineage_later a b \<Longrightarrow> lineage_later b c \<Longrightarrow> lineage_later a c"
  by (auto simp: lineage_later_def)

lemma marks_later_refl [simp]: "marks_later m m"
  by (simp add: marks_later_def)

lemma marks_later_trans: "marks_later a b \<Longrightarrow> marks_later b c \<Longrightarrow> marks_later a c"
  by (auto simp: marks_later_def intro: order_trans)

lemma store_later_refl [simp]: "store_later st st"
  by (auto simp: store_later_def)

lemma store_laterD: "store_later st st' \<Longrightarrow> find_lineage st i = Some lin \<Longrightarrow>
    \<exists>lin'. find_lineage st' i = Some lin' \<and> lineage_later lin lin'"
  by (simp add: store_later_def)

lemma store_later_trans:
  assumes "store_later a b" and "store_later b c"
  shows "store_later a c"
  unfolding store_later_def
proof (intro conjI allI impI)
  fix i lin assume "find_lineage a i = Some lin"
  then obtain l where 1: "find_lineage b i = Some l" "lineage_later lin l"
    using store_laterD [OF assms(1)] by blast
  then obtain l' where "find_lineage c i = Some l'" "lineage_later l l'"
    using store_laterD [OF assms(2)] by blast
  then show "\<exists>l'. find_lineage c i = Some l' \<and> lineage_later lin l'"
    using lineage_later_trans [OF 1(2)] by blast
qed (use assms in \<open>auto simp: store_later_def intro: marks_later_trans\<close>)

lemma same_registry_marks: "same_registry st st' \<Longrightarrow> marks_later (s_watermarks st) (s_watermarks st')"
proof -
  assume s: "same_registry st st'"
  define m m' where "m = s_watermarks st" and "m' = s_watermarks st'"
  have e: "m'\<lparr>wm_store_generation := 0\<rparr> = m\<lparr>wm_store_generation := 0\<rparr>"
    "wm_store_generation m \<le> wm_store_generation m'"
    using s by (simp_all add: same_registry_def m_def m'_def)
  have "wm_path_authority_generation m = wm_path_authority_generation m'"
    "wm_policy_generation m = wm_policy_generation m'" "wm_evidence_generation m = wm_evidence_generation m'"
    "wm_plan_generation m = wm_plan_generation m'" "wm_epoch m = wm_epoch m'"
    using e(1) by (cases m; cases m'; simp)+
  then have "marks_later m m'" using e(2) by (simp add: marks_later_def)
  then show ?thesis by (simp add: m_def m'_def)
qed

lemma store_later_put:
  assumes "find_lineage st i = Some lin" and "lineage_later lin lin'"
    and "s_lineages st' = om_put i lin' (s_lineages st)" and "same_registry st st'"
  shows "store_later st st'"
  using assms same_registry_marks [OF assms(4)]
  by (auto simp: store_later_def find_lineage_def same_registry_def)

lemma lineage_effect_later: "lineage_effect H rq i limits lin lin' \<Longrightarrow> lineage_later lin lin'"
  using evolves_nodes [of "commit_op i" H limits "l_graph lin" "l_graph lin'"]
  by (auto simp: lineage_effect_def lineage_later_def om_find_emplace)

lemma commit_later:
  assumes inv: "store_inv H st"
  shows "store_later st (fst (commit H rq st))"
proof -
  have a: "store_later st st1"
    if "acquire_lineage (derive_lineage_id H (np_key rq)) (np_key rq) True st = Some (st1, lin)" for st1 lin
    using acquire_inv [OF inv that] same_registry_marks
    by (auto simp: store_later_def same_registry_def)
  show ?thesis
  proof (cases rule: commit_cases [of H rq st])
    case (applied st1 lin node es)
    let ?st' = "fst (commit_apply H rq (derive_lineage_id H (np_key rq)) node es st1 lin)"
    have "store_effect H rq (derive_lineage_id H (np_key rq)) st1 lin ?st'"
      using commit_applied [OF inv applied(2,3)] .
    then have "store_later st1 ?st'"
      using acquire_inv [OF inv applied(2)] store_later_put lineage_effect_later
      unfolding store_effect_def by metis
    then show ?thesis using a [OF applied(2)] applied(4) store_later_trans by metis
  qed (use a in simp_all)
qed

lemma graphs_only_later:
  assumes inv: "store_inv H st" and "graphs_only st st'" and "store_grows H st st'"
  shows "store_later st st'"
  unfolding store_later_def
proof (intro conjI allI impI)
  fix i lin assume f: "find_lineage st i = Some lin"
  then obtain lin' where l: "find_lineage st' i = Some lin'" "grows i H (s_limits st) (l_graph lin) (l_graph lin')"
    using assms(3) unfolding store_grows_def by blast
  have "map_option (\<lambda>l. (l_state l, l_attempts l)) (find_lineage st' i)
      = map_option (\<lambda>l. (l_state l, l_attempts l)) (find_lineage st i)"
    using assms(2) by (simp add: graphs_only_def)
  then have "l_state lin' = l_state lin" "l_attempts lin' = l_attempts lin" using f l(1) by simp_all
  then show "\<exists>lin'. find_lineage st' i = Some lin' \<and> lineage_later lin lin'"
    using l evolves_nodes [OF l(2)] by (auto simp: lineage_later_def)
qed (use graphs_only_registry [OF assms(2)] in simp_all)

text \<open>Both facts every operation is checked for: the invariant and the order.\<close>

definition moves :: "hash_fun \<Rightarrow> Store \<Rightarrow> Store \<Rightarrow> bool" where
  "moves H st st' \<longleftrightarrow> store_inv H st' \<and> store_later st st'"

lemma moves_refl: "store_inv H st \<Longrightarrow> moves H st st"
  by (simp add: moves_def)

lemma moves_reevaluate: "moves H st st' \<Longrightarrow> moves H st (reevaluate_index ids st')"
  using reevaluate_index_effect [of H st' ids] graphs_only_later [of H st'] store_later_trans [of st st']
  by (auto simp: moves_def)

lemma moves_reevaluate_fold: "moves H st st' \<Longrightarrow> moves H st (fold (\<lambda>b s. reevaluate_index (f s b) s) bs st')"
  by (induction bs arbitrary: st') (auto intro: moves_reevaluate)

lemma marks_only_later:
  assumes "s_lineages st' = s_lineages st" and "s_limits st' = s_limits st"
    and "marks_later (s_watermarks st) (s_watermarks st')"
  shows "store_later st st'"
  using assms by (auto simp: store_later_def find_lineage_def)

lemma register_epoch_marks:
  "register_epoch epoch st = Some st1 \<Longrightarrow> marks_later (s_watermarks st) (s_watermarks st1)"
  by (auto simp: register_epoch_def Let_def marks_later_def id_valid_def split: if_splits)

lemma register_publisher_later:
  assumes inv: "store_inv H st"
  shows "store_later st (fst (register_publisher identity scope st))"
proof (cases "register_epoch (pi_epoch identity) st")
  case (Some st1)
  note e = register_epoch_Some [OF Some]
  have 1: "moves H st st1"
    using kept_marks [OF kept_refl [OF inv] e(1-4)] marks_only_later [OF e(1,2) register_epoch_marks [OF Some]]
    by (simp add: moves_def kept_def)
  let ?ps = "om_put (pi_publisher identity, pi_boot identity)
     \<lparr>pr_identity = identity, pr_scope = scope, pr_live = True, pr_fenced = False\<rparr>
     (fence_boots (pi_publisher identity) (superseded_boots identity st1) (s_publishers st1))"
  let ?st2 = "st1\<lparr>s_publishers := ?ps\<rparr>"
  have later: "store_later st1 ?st2" by (rule marks_only_later) simp_all
  have "moves H st ?st2" if small: "om_size (s_publishers st1) < max_publishers (s_limits st1)"
  proof -
    have "kept H st1 ?st2"
      using 1 small publishers_inv_register [of st1] store_invD(3) [of H st1]
      by (intro kept_registry [OF kept_refl]) (simp_all add: moves_def om_size_put size_fence_boots)
    then show ?thesis
      using 1 store_later_trans [OF _ later] by (simp add: moves_def kept_def)
  qed
  then have "moves H st (fold (\<lambda>boot s. reevaluate_index (boot_records s boot) s)
      (superseded_boots identity st1) ?st2)" if "om_size (s_publishers st1) < max_publishers (s_limits st1)"
    using that moves_reevaluate_fold by blast
  then show ?thesis
    using Some 1 by (simp add: register_publisher_def Let_def moves_def)
qed (simp add: register_publisher_def)

lemma fence_later:
  assumes 1: "moves H st st1" and r: "find_publisher st1 p b = Some r"
    and r': "pr_identity r' = pr_identity r" "\<not> pr_live r'"
  shows "moves H st (st1\<lparr>s_publishers := om_put (p, b) r' (s_publishers st1)\<rparr>)"
proof -
  have "store_later st1 (st1\<lparr>s_publishers := om_put (p, b) r' (s_publishers st1)\<rparr>)"
    by (rule marks_only_later) simp_all
  then show ?thesis
    using 1 fence_kept [OF kept_refl [of H st1] r r'] store_later_trans
    by (auto simp: moves_def kept_def)
qed

lemma fence_publisher_later:
  assumes inv: "store_inv H st"
  shows "store_later st (fst (fence_publisher publisher boot auth st))"
proof -
  have "moves H st (fst (fence_publisher publisher boot auth st))"
    using moves_refl [OF inv] fence_later [OF moves_refl [OF inv], of publisher boot]
    by (auto simp: fence_publisher_def Let_def fence_record_def moves_reevaluate split: option.split)
  then show ?thesis by (simp add: moves_def)
qed

lemma advance_check_None: "advance_check name offered mark = None \<Longrightarrow> mark \<le> offered"
  by (auto simp: advance_check_def id_valid_def split: if_splits)

lemma notify_marks_later:
  "notify_marks n st = Inr (marks, affected) \<Longrightarrow> marks_later (s_watermarks st) marks"
  by (auto simp: notify_marks_def Let_def marks_later_def
      split: DependencyKind.splits option.splits if_splits dest: advance_check_None)

lemma notify_later:
  assumes inv: "store_inv H st"
  shows "store_later st (fst (notify_dependency n st))"
proof (cases "notify_marks n st")
  case (Inr p)
  obtain marks affected where p: "p = (marks, affected)" by (cases p)
  let ?st0 = "st\<lparr>s_watermarks := marks\<rparr>"
  let ?st1 = "snd (next_store_generation ?st0)"
  have k: "kept H st ?st1"
    by (rule kept_marks [OF kept_refl [OF inv]]) (simp_all add: next_store_generation_def case_prod_beta)
  have "marks_later marks (s_watermarks ?st1)"
    using next_store_generation_facts(1) [of ?st0] same_registry_marks [of ?st0] by simp
  then have "marks_later (s_watermarks st) (s_watermarks ?st1)"
    using notify_marks_later [of n st] Inr p marks_later_trans by blast
  then have m: "moves H st ?st1"
    using k by (auto simp: moves_def kept_def intro!: marks_only_later simp: next_store_generation_facts)
  then have "moves H st (fst (notify_finish n affected ?st1))"
    using fence_later [of H st ?st1]
    by (auto simp: notify_finish_def Let_def moves_reevaluate split: DependencyKind.split option.split)
  then show ?thesis
    using Inr p m by (simp add: notify_dependency_def case_prod_beta Let_def moves_def)
qed (simp add: notify_dependency_def)

lemma compact_later:
  assumes inv: "store_inv H st"
  shows "store_later st (fst (compact H i auth options st))"
  using compact_effect [of H i auth options st]
proof (elim disjE exE conjE)
  fix lin lin' st1
  assume f: "find_lineage st i = Some lin" and r: "fst (compact H i auth options st) = put_lineage i lin' st1"
    and same: "same_content (lin\<lparr>l_graph := compacted_graph H auth options (s_limits st) lin\<rparr>) lin'"
    and st1: "st1 \<in> {st, snd (next_store_generation st)}"
  have "evolves (lineage_op i) H (s_limits st) (l_graph lin) (l_graph lin')"
    using compact_nodes_evolves [OF compact_candidates_lineage] store_invD(1) [OF inv f] same
    by (simp add: same_content_def compacted_graph_def lineage_inv_def)
  from evolves_nodes [OF this] have "lineage_later lin lin'"
    using same by (simp add: lineage_later_def same_content_def)
  then show ?thesis
    using st1 next_store_generation_facts [of st] unfolding r
    by (intro store_later_put [OF f]) auto
qed simp

lemma store_op_later:
  assumes inv: "store_inv H st"
  shows "store_later st (fst (store_op H op st))"
proof -
  have c: "store_later st (fst (commit_normalized H n st))" for n
    using commit_later [OF inv] by (simp add: commit_normalized_def split: option.split)
  show ?thesis
    by (cases op) (simp_all add: with_outcome_def entry_points c reincarnate_publisher_def advance_epoch_def
        register_publisher_later [OF inv] fence_publisher_later [OF inv] notify_later [OF inv]
        compact_later [OF inv] session_commit_def commit_session_def commit_later [OF inv])
qed

lemma store_ops_later: "store_inv H st \<Longrightarrow> store_later st (store_ops H ops st)"
proof (induction ops arbitrary: st)
  case (Cons op ops)
  then show ?case
    using store_later_trans [OF store_op_later] store_op_inv by (metis store_ops_Cons)
qed simp

section \<open>Reachable stores\<close>

lemma reachable_inv: "make_store limits = Inr st0 \<Longrightarrow> store_inv H (store_ops H ops st0)"
  by (auto simp: make_store_def intro: store_ops_inv new_store_inv split: option.splits)

text \<open>
  C1: The invariant of every reachable store. From a fresh store with valid limits, after any sequence
  of calls of the public interface (registrations, fences, notifications, publications of every kind,
  sessions, compactions) with any arguments and outcomes: a lineage is stored under the identity
  derived from its key; its graph has exact indexes, no dangling edge and no cycle, respects the node,
  edge and degree limits, and holds only records and edges of that lineage; its current record is
  present and its ledger bounded; a publisher has at most one live boot, which is not fenced; the
  owner index only names records their lineage holds; and lineages and publishers stay within their
  limits.
\<close>

theorem reachable_store_safe:
  assumes "make_store limits = Inr st0"
  shows "(\<forall>i lin. find_lineage (store_ops H ops st0) i = Some lin \<longrightarrow>
        ls_id (l_state lin) = i \<and> derive_lineage_id H (ls_key (l_state lin)) = i
        \<and> graph_wf (l_graph lin) \<and> graph_bounded limits (l_graph lin) \<and> graph_of i (l_graph lin)
        \<and> (ls_current_node (l_state lin) = 0 \<or> om_has (g_nodes (l_graph lin)) (ls_current_node (l_state lin)))
        \<and> om_size (l_attempts lin) \<le> max_attempts_per_lineage limits)
     \<and> publishers_inv (s_publishers (store_ops H ops st0))
     \<and> owners_inv (store_ops H ops st0)
     \<and> om_size (s_lineages (store_ops H ops st0)) \<le> max_lineages limits
     \<and> om_size (s_publishers (store_ops H ops st0)) \<le> max_publishers limits
     \<and> s_limits (store_ops H ops st0) = limits"
proof -
  have st0: "st0 = new_store limits" using assms by (simp add: make_store_def split: option.splits)
  then have inv: "store_inv H (store_ops H ops st0)" and "store_later st0 (store_ops H ops st0)"
    using store_ops_inv store_ops_later new_store_inv by blast+
  then have "s_limits (store_ops H ops st0) = limits"
    using st0 by (simp add: store_later_def new_store_def)
  then show ?thesis using store_invD [OF inv] by (auto simp: lineage_inv_def)
qed

theorem reachable_store_safe_witness:
  "publishers_inv (s_publishers (store_ops sample_hash
      [SO_register sample_identity scope_fabric, SO_publish_route sample_root] (new_store sample_limits)))
   \<and> s_limits (store_ops sample_hash
      [SO_register sample_identity scope_fabric, SO_publish_route sample_root] (new_store sample_limits)) = sample_limits"
  using reachable_store_safe [OF sample_make_store] by blast


text \<open>
  C4: Nothing goes back. Along any sequence of further calls from a reachable store, every watermark
  (store generation, path authority, policy, evidence, plan, epoch) and every lineage generation is at
  least what it was; no lineage disappears or changes its key; no record disappears; and every entry of
  an attempt ledger stays exactly as it was recorded.
\<close>

theorem generations_advance:
  assumes "make_store limits = Inr st0"
  shows "marks_later (s_watermarks (store_ops H ops st0)) (s_watermarks (store_ops H (ops @ ops') st0))
    \<and> (\<forall>i lin. find_lineage (store_ops H ops st0) i = Some lin \<longrightarrow>
      (\<exists>lin'. find_lineage (store_ops H (ops @ ops') st0) i = Some lin'
        \<and> ls_key (l_state lin') = ls_key (l_state lin)
        \<and> ls_lineage_generation (l_state lin) \<le> ls_lineage_generation (l_state lin')
        \<and> (\<forall>k r. om_find (l_attempts lin) k = Some r \<longrightarrow> om_find (l_attempts lin') k = Some r)
        \<and> (\<forall>j. om_has (g_nodes (l_graph lin)) j \<longrightarrow> om_has (g_nodes (l_graph lin')) j)))"
proof -
  have "store_later (store_ops H ops st0) (store_ops H (ops @ ops') st0)"
    using store_ops_later [OF reachable_inv [OF assms]] by (simp add: store_ops_append)
  then show ?thesis unfolding store_later_def lineage_later_def by blast
qed

theorem generations_advance_witness:
  "marks_later (s_watermarks (new_store sample_limits)) (s_watermarks sample_published)"
  using generations_advance [OF sample_make_store, of sample_hash "[]"
      "[SO_register sample_identity scope_fabric, SO_publish_route sample_root]"]
  by (simp only: sample_published_ops append_Nil store_ops_Nil)

lemma store_ops_kept:
  "store_inv H st \<Longrightarrow> list_all (\<lambda>op. \<not> is_compaction op) ops \<Longrightarrow> kept H st (store_ops H ops st)"
proof (induction ops arbitrary: st)
  case (Cons op ops)
  then show ?case
    using kept_trans [OF store_op_kept [of H st op]] store_op_inv [of H st op] by simp
qed (simp add: kept_refl)

text \<open>
  C2: History is append-only. As long as no compaction is asked for, every record of a reachable store
  is still there after any further calls, with the same identity-bearing content and in a lifecycle
  state reached from the old one by legal transitions only; and every derivation edge is still there,
  unchanged in every field.
\<close>

theorem history_append_only:
  assumes "make_store limits = Inr st0" and "list_all (\<lambda>op. \<not> is_compaction op) ops'"
    and "find_lineage (store_ops H ops st0) i = Some lin"
  shows "\<exists>lin'. find_lineage (store_ops H (ops @ ops') st0) i = Some lin'
     \<and> (\<forall>j n. om_find (g_nodes (l_graph lin)) j = Some n \<longrightarrow>
          (\<exists>n'. om_find (g_nodes (l_graph lin')) j = Some n' \<and> core_of n' = core_of n
             \<and> is_valid_lifecycle_transition\<^sup>*\<^sup>* (n_lifecycle n) (n_lifecycle n')))
     \<and> (\<forall>j e. om_find (g_edges (l_graph lin)) j = Some e \<longrightarrow> om_find (g_edges (l_graph lin')) j = Some e)"
proof -
  have "kept H (store_ops H ops st0) (store_ops H (ops @ ops') st0)"
    using store_ops_kept [OF reachable_inv [OF assms(1)] assms(2)] by (simp add: store_ops_append)
  then obtain lin' where l: "find_lineage (store_ops H (ops @ ops') st0) i = Some lin'"
    "grows i H (s_limits (store_ops H ops st0)) (l_graph lin) (l_graph lin')"
    using assms(3) unfolding kept_def store_grows_def by blast
  show ?thesis
    using l(1) evolves_history [OF l(2)] unfolding history_kept_def record_kept_def by blast
qed

text \<open>
  C3: No mutation escapes the authority checks. If a commit returns a publication (even a replayed one)
  or changes the store at all, then the caller presented a full identity, its epoch is the valid current
  epoch, its boot is a live registered session, its scope permits the lineage the request derives, and
  an explicit lineage identity, if given, is the derived one.
\<close>

theorem commit_needs_authority:
  assumes "fst (commit H rq st) \<noteq> st \<or> r_value (snd (commit H rq st)) \<noteq> None"
  shows "has_identity (np_authority rq) \<and> id_valid (wm_epoch (s_watermarks st))
    \<and> pi_epoch (ac_publisher (np_authority rq)) = wm_epoch (s_watermarks st)
    \<and> publisher_is_live st (pi_publisher (ac_publisher (np_authority rq))) (pi_boot (ac_publisher (np_authority rq)))
    \<and> permits (ac_scope (np_authority rq)) \<lparr>tg_routing_namespace = 0,
        tg_lineage = derive_lineage_id H (np_key rq), tg_route = lk_route (np_key rq)\<rparr>
    \<and> np_explicit_lineage rq \<in> {None, Some (derive_lineage_id H (np_key rq))}"
proof -
  obtain i where i: "stage_authority H rq st = Inr i"
    using assms stage_authority_Inl by (cases rule: commit_cases [of H rq st]) auto
  then have "np_explicit_lineage rq \<in> {None, Some (derive_lineage_id H (np_key rq))}"
    by (auto simp: stage_authority_def Let_def split: if_splits)
  then show ?thesis using stage_authority_Inr [OF i] by (simp add: id_valid_def)
qed

theorem commit_needs_authority_witness: "publisher_is_live sample_store 1 2"
proof -
  have "r_value (snd (commit sample_hash (sample_normal sample_root) sample_store)) \<noteq> None"
    using sample_created(2) by (simp add: sample_publish_commit)
  moreover have "ac_publisher (np_authority (sample_normal sample_root)) = sample_identity" by code_simp
  ultimately show ?thesis
    using commit_needs_authority [of sample_hash "sample_normal sample_root" sample_store]
    by (simp add: sample_identity_def)
qed

theorem history_append_only_witness:
  "\<exists>lin lin'. find_lineage sample_published 48 = Some lin
     \<and> find_lineage (fst (fence_publisher 1 2 sample_authority sample_published)) 48 = Some lin'
     \<and> om_has (g_nodes (l_graph lin)) 77 \<and> om_has (g_nodes (l_graph lin')) 77"
proof -
  let ?ops = "[SO_register sample_identity scope_fabric, SO_publish_route sample_root]"
  let ?op = "SO_fence 1 2 sample_authority"
  have st: "store_ops sample_hash (?ops @ [?op]) (new_store sample_limits)
      = fst (fence_publisher 1 2 sample_authority sample_published)"
    by (simp add: store_ops_append sample_published_ops)
  obtain lin where lin: "find_lineage sample_published 48 = Some lin" and h: "om_has (g_nodes (l_graph lin)) 77"
    using sample_published_lineage by blast
  moreover from h obtain n where n: "om_find (g_nodes (l_graph lin)) 77 = Some n" by (auto simp: om_has_def)
  moreover have "list_all (\<lambda>op. \<not> is_compaction op) [?op]" by simp
  note k = history_append_only [OF sample_make_store this, of sample_hash ?ops 48 lin]
  obtain lin' where "find_lineage (fst (fence_publisher 1 2 sample_authority sample_published)) 48 = Some lin'"
    "om_has (g_nodes (l_graph lin')) 77"
    using k lin n unfolding st sample_published_ops [symmetric] om_has_def by blast
  ultimately show ?thesis using lin by blast
qed

end
