(* ===== verification/Server_Inv.thy ===== *)
theory Server_Inv
  imports Server Store_Props
begin

text \<open>
  What a frame, a turn and a run of the coordinator can do: answers change only the statistics and the
  log of sent buffers, and the store moves by operations of its public interface alone.
\<close>

section \<open>Answers only answer\<close>

definition talks :: "Server \<Rightarrow> Server \<Rightarrow> bool" where
  "talks sv sv' \<longleftrightarrow> (\<exists>stats sent. sv' = sv\<lparr>sr_stats := stats, sr_sent := sr_sent sv @ sent\<rparr>)"

lemma talks_refl [simp]: "talks sv sv"
  unfolding talks_def by (rule exI [of _ "sr_stats sv"], rule exI [of _ "[]"]) simp

lemma talks_trans: "talks a b \<Longrightarrow> talks b c \<Longrightarrow> talks a c"
  by (fastforce simp: talks_def)

lemma talks_simps:
  "talks sv sv' \<Longrightarrow> sr_store sv' = sr_store sv" "talks sv sv' \<Longrightarrow> sr_options sv' = sr_options sv"
  "talks sv sv' \<Longrightarrow> sr_sessions sv' = sr_sessions sv" "talks sv sv' \<Longrightarrow> sr_running sv' = sr_running sv"
  "talks sv sv' \<Longrightarrow> sr_active_sessions sv' = sr_active_sessions sv"
  by (auto simp: talks_def)

lemma talks_add_stats [simp]: "talks sv (add_stats delta sv)"
  unfolding talks_def add_stats_def by (rule exI, rule exI [of _ "[]"]) simp

lemma talks_add_stats_after: "talks sv sv' \<Longrightarrow> talks sv (add_stats delta sv')"
  using talks_trans talks_add_stats by blast

lemma talks_sent [simp]: "talks sv (sv\<lparr>sr_sent := sr_sent sv @ sent\<rparr>)"
  unfolding talks_def by (rule exI [of _ "sr_stats sv"], rule exI [of _ sent]) simp

lemma talks_send_frame [simp]: "talks sv (snd (send_frame H tx session header body sv))"
  by (auto simp: send_frame_def Let_def intro: talks_add_stats_after split: sum.splits)

lemma talks_send_error [simp]: "talks sv (snd (send_error H tx session header out det sv))"
  by (simp add: send_error_def split: sum.splits option.splits)

lemma talks_send_result [simp]: "talks sv (send_result H tx session header delta response sv)"
  by (auto simp: send_result_def intro: talks_add_stats_after split: sum.splits option.splits)

lemma talks_publish_response [simp]: "talks sv (publish_response H tx session header result sv)"
  by (simp add: publish_response_def)

lemma talks_query_response [simp]: "talks sv (query_response H tx session header out det body sv)"
  by (simp add: query_response_def)

lemma talks_serve_query [simp]: "talks sv (serve_query H tx session header result body_of sv)"
  by (simp add: serve_query_def split: option.splits)

section \<open>Store operations\<close>

text \<open>The server after an operation on its store and answers.\<close>

definition acts :: "(Store \<Rightarrow> Store) \<Rightarrow> Server \<Rightarrow> Server \<Rightarrow> bool" where
  "acts f sv sv' \<longleftrightarrow> talks (sv\<lparr>sr_store := f (sr_store sv)\<rparr>) sv'"

lemma acts_talks: "talks sv sv' \<Longrightarrow> acts (\<lambda>st. st) sv sv'"
  by (simp add: acts_def)

lemma acts_simps:
  "acts f sv sv' \<Longrightarrow> sr_store sv' = f (sr_store sv)" "acts f sv sv' \<Longrightarrow> sr_options sv' = sr_options sv"
  "acts f sv sv' \<Longrightarrow> sr_sessions sv' = sr_sessions sv" "acts f sv sv' \<Longrightarrow> sr_running sv' = sr_running sv"
  "acts f sv sv' \<Longrightarrow> sr_active_sessions sv' = sr_active_sessions sv"
  by (auto simp: acts_def dest: talks_simps)

lemma acts_after: "acts f sv sv' \<Longrightarrow> talks sv' sv'' \<Longrightarrow> acts f sv sv''"
  using talks_trans by (auto simp: acts_def)

lemma acts_before:
  assumes "talks sv sv'" and "acts f sv' sv''"
  shows "acts f sv sv''"
proof -
  obtain stats sent where "sv' = sv\<lparr>sr_stats := stats, sr_sent := sr_sent sv @ sent\<rparr>"
    using assms(1) by (auto simp: talks_def)
  then have "talks (sv\<lparr>sr_store := f (sr_store sv)\<rparr>) (sv'\<lparr>sr_store := f (sr_store sv')\<rparr>)"
    unfolding talks_def by (intro exI [of _ stats] exI [of _ sent]) simp
  then show ?thesis using assms(2) talks_trans by (auto simp: acts_def)
qed

lemma serve_operation_acts: "acts (\<lambda>st. fst (operation st)) sv (serve_operation H tx session header operation sv)"
  by (simp add: acts_def serve_operation_def on_store_def case_prod_beta)

lemma serve_status_acts: "acts (\<lambda>st. fst (operation st)) sv (serve_status H tx session header operation sv)"
  by (simp add: acts_def serve_status_def on_store_def case_prod_beta)

text \<open>The operations a session's requests stand for, each under the session's identity but for fences.\<close>

fun request_op :: "PublisherIdentity \<Rightarrow> StoreOp \<Rightarrow> bool" where
  "request_op i (SO_publish_route rq) \<longleftrightarrow> ac_publisher (rq_authority rq) = i"
| "request_op i (SO_withdraw rq) \<longleftrightarrow> ac_publisher (aq_authority rq) = i"
| "request_op i (SO_revoke rq) \<longleftrightarrow> ac_publisher (aq_authority rq) = i"
| "request_op i (SO_retire rq) \<longleftrightarrow> ac_publisher (aq_authority rq) = i"
| "request_op i (SO_revalidate rq) \<longleftrightarrow> ac_publisher (aq_authority rq) = i"
| "request_op i (SO_invalidate rq) \<longleftrightarrow> ac_publisher (aq_authority rq) = i"
| "request_op i (SO_correct rq) \<longleftrightarrow> ac_publisher (cq_authority rq) = i"
| "request_op i (SO_declare rq) \<longleftrightarrow> ac_publisher (dq_authority rq) = i"
| "request_op i (SO_link rq) \<longleftrightarrow> ac_publisher (lq_authority rq) = i"
| "request_op i (SO_notify n) \<longleftrightarrow> ac_publisher (dn_authority n) = i"
| "request_op i (SO_fence p b auth) \<longleftrightarrow> True"
| "request_op i _ \<longleftrightarrow> False"

definition request_effect :: "hash_fun \<Rightarrow> PublisherIdentity \<Rightarrow> Server \<Rightarrow> Server \<Rightarrow> bool" where
  "request_effect H i sv sv' \<longleftrightarrow>
     talks sv sv' \<or> (\<exists>op. request_op i op \<and> acts (\<lambda>st. fst (store_op H op st)) sv sv')"

lemma request_effect_with:
  assumes "\<And>v. request_effect H i sv (serve v sv)"
  shows "request_effect H i sv (with_request H tx session header decoded serve sv)"
  using assms by (auto simp: with_request_def request_effect_def split: option.splits)

lemma request_effect_operation:
  "request_op i op \<Longrightarrow> (\<And>st. fst (store_op H op st) = fst (operation st)) \<Longrightarrow>
     request_effect H i sv (serve_operation H tx session header operation sv)"
  using serve_operation_acts [of operation sv H tx session header] by (auto simp: request_effect_def)

lemma request_effect_status:
  "request_op i op \<Longrightarrow> (\<And>st. fst (store_op H op st) = fst (operation st)) \<Longrightarrow>
     request_effect H i sv (serve_status H tx session header operation sv)"
  using serve_status_acts [of operation sv H tx session header] by (auto simp: request_effect_def)

lemma request_effect_query: "request_effect H i sv (serve_query H tx session header result body_of sv)"
  by (simp add: request_effect_def)

lemma administrative_operation_op:
  "\<exists>op. request_op i op \<and>
     (\<forall>st. fst (store_op H op st) = fst (administrative_operation H message (administrative_request i p) st))"
proof -
  let ?rq = "administrative_request i p"
  have i: "ac_publisher (aq_authority ?rq) = i" by (simp add: administrative_request_def as_publisher_def)
  show ?thesis
    by (cases message; (rule exI [of _ "SO_withdraw ?rq"] exI [of _ "SO_revoke ?rq"] exI [of _ "SO_retire ?rq"]
          exI [of _ "SO_revalidate ?rq"] exI [of _ "SO_invalidate ?rq"],
          simp add: administrative_operation_def with_outcome_def i; fail))
qed

lemma serve_request_effect:
  "request_effect H (se_identity session) sv (serve_request H tx session header payload sv)"
proof -
  let ?i = "se_identity session" and ?operate = "serve_operation H tx session header"
    and ?status = "serve_status H tx session header"
  note eqs = with_outcome_def publication_request_def correction_request_def declaration_request_def
    link_request_def dependency_request_def as_publisher_def Let_def
  have "request_effect H ?i sv (?operate (publish_route H (publication_request m ?i p)) sv)" for m p
    by (rule request_effect_operation [where op = "SO_publish_route (publication_request m ?i p)"]) (simp_all add: eqs)
  moreover have "request_effect H ?i sv (?operate (correct_record H (correction_request ?i p)) sv)" for p
    by (rule request_effect_operation [where op = "SO_correct (correction_request ?i p)"]) (simp_all add: eqs)
  moreover have "request_effect H ?i sv (?operate (declare_record H (declaration_request ?i p)) sv)" for p
    by (rule request_effect_operation [where op = "SO_declare (declaration_request ?i p)"]) (simp_all add: eqs)
  moreover have "request_effect H ?i sv (?operate (link_derivation H (link_request ?i p)) sv)" for p
    by (rule request_effect_operation [where op = "SO_link (link_request ?i p)"]) (simp_all add: eqs)
  moreover have "request_effect H ?i sv (?status (notify_dependency (dependency_request ?i p)) sv)" for p
    by (rule request_effect_status [where op = "SO_notify (dependency_request ?i p)"]) (simp_all add: eqs)
  moreover have "request_effect H ?i sv (?status (fence_publisher p b a) sv)" for p b a
    by (rule request_effect_status [where op = "SO_fence p b a"]) simp_all
  moreover have "request_effect H ?i sv (?operate (administrative_operation H m (administrative_request ?i p)) sv)" for m p
    using administrative_operation_op request_effect_operation by metis
  moreover have "request_effect H ?i sv (snd (send_error H tx session header out det sv))" for out det
    by (simp add: request_effect_def)
  ultimately show ?thesis
    unfolding serve_request_def serve_query_request_def Let_def by (auto intro!: request_effect_with request_effect_query)
qed

section \<open>One frame\<close>

definition registration_store :: "RegistrationPayload \<Rightarrow> ServerOptions \<Rightarrow> Store \<Rightarrow> Store" where
  "registration_store rg options st =
     fst (register_publisher (rg_identity rg) (narrow_scope (sv_client_scope options) (rg_scope rg)) st)"

lemma register_session_effect:
  assumes "register_session H rg (session, sv) = (ack, session', sv')"
  shows "(talks sv sv' \<and> session' = session \<and> \<not> ha_accepted ack) \<or>
    (acts (registration_store rg (sr_options sv)) sv sv' \<and>
      ((ha_accepted ack \<and> se_registered session' \<and> se_identity session' = rg_identity rg) \<or> session' = session))"
proof (cases "rg_protocol_version rg = kWireProtocolVersion")
  case False
  then show ?thesis using assms by (auto simp: register_session_def Let_def)
next
  case True
  let ?op = "register_publisher (rg_identity rg) (narrow_scope (sv_client_scope (sr_options sv)) (rg_scope rg))"
  let ?sv = "sv\<lparr>sr_store := fst (?op (sr_store sv))\<rparr>"
  have store: "on_store ?op sv = (snd (?op (sr_store sv)), ?sv)" by (simp add: on_store_def case_prod_beta)
  have a: "acts (registration_store rg (sr_options sv)) sv ?sv" by (simp add: acts_def registration_store_def)
  show ?thesis
    using assms True a acts_after [OF a talks_add_stats]
    by (auto simp: register_session_def Let_def store split: option.splits)
qed

lemma handle_registration_effect:
  assumes "handle_registration H tx header payload (session, sv) = (session', sv')"
  shows "(talks sv sv' \<and> se_registered session' = se_registered session \<and> se_identity session' = se_identity session)
    \<or> (\<exists>rg. r_value (decode_registration payload (sr_limits sv)) = Some rg
        \<and> acts (registration_store rg (sr_options sv)) sv sv'
        \<and> ((se_registered session' \<and> se_identity session' = rg_identity rg)
            \<or> (se_registered session' = se_registered session \<and> se_identity session' = se_identity session)))"
proof (cases "r_value (decode_registration payload (sr_limits sv))")
  case None
  then show ?thesis using assms by (auto simp: handle_registration_def Let_def)
next
  case (Some rg)
  obtain ack s1 sv1 where r: "register_session H rg (session, sv) = (ack, s1, sv1)" by (metis prod_cases3)
  have "talks sv1 sv'" "se_registered session' = se_registered s1" "se_identity session' = se_identity s1"
    using assms
    by (auto simp: handle_registration_def Some r Let_def case_prod_beta split: sum.splits option.splits if_splits)
  then show ?thesis
    using register_session_effect [OF r] talks_trans acts_after Some by metis
qed

lemma handle_frame_effect:
  assumes "handle_frame H tx frame (session, sv) = (session', sv')"
  shows "(talks sv sv' \<and> se_registered session' = se_registered session \<and> se_identity session' = se_identity session)
    \<or> (fh_message (df_header frame) \<in> {MI_Hello, MI_RegisterPublisher}
        \<and> (\<exists>rg. r_value (decode_registration (df_payload frame) (sr_limits sv)) = Some rg
            \<and> acts (registration_store rg (sr_options sv)) sv sv'
            \<and> ((se_registered session' \<and> se_identity session' = rg_identity rg)
                \<or> (se_registered session' = se_registered session \<and> se_identity session' = se_identity session))))
    \<or> (fh_message (df_header frame) \<notin> {MI_Hello, MI_RegisterPublisher} \<and> se_registered session
        \<and> fh_publisher (df_header frame) = pi_publisher (se_identity session)
        \<and> fh_boot (df_header frame) = pi_boot (se_identity session) \<and> session' = session
        \<and> (\<exists>op. request_op (se_identity session) op \<and> acts (\<lambda>st. fst (store_op H op st)) sv sv'))"
proof -
  let ?h = "df_header frame" and ?sv = "add_stats (no_stats\<lparr>ss_frames_received := 1\<rparr>) sv"
  have opt: "sr_options ?sv = sr_options sv" by (simp add: add_stats_def)
  let ?refused = "\<not> se_registered session \<or> fh_publisher ?h \<noteq> pi_publisher (se_identity session)
     \<or> fh_boot ?h \<noteq> pi_boot (se_identity session)"
  consider (reg) "fh_message ?h \<in> {MI_Hello, MI_RegisterPublisher}"
    | (talk) "fh_message ?h \<in> {MI_Ping, MI_Bye} \<or> (fh_message ?h \<notin> {MI_Hello, MI_RegisterPublisher} \<and> ?refused)"
    | (request) "fh_message ?h \<notin> {MI_Ping, MI_Bye, MI_Hello, MI_RegisterPublisher}" "\<not> ?refused"
    by blast
  then show ?thesis
  proof cases
    case reg
    then have "handle_registration H tx ?h (df_payload frame) (session, ?sv) = (session', sv')"
      using assms by (auto simp: handle_frame_def Let_def)
    from handle_registration_effect [OF this] show ?thesis
      using reg talks_trans [OF talks_add_stats] acts_before [OF talks_add_stats] unfolding opt by blast
  next
    case talk
    then have "talks ?sv sv' \<and> se_registered session' = se_registered session \<and> se_identity session' = se_identity session"
      using assms by (auto simp: handle_frame_def Let_def split: if_splits)
    then show ?thesis using talks_trans [OF talks_add_stats] by blast
  next
    case request
    then have "session' = session" "sv' = serve_request H tx session ?h (df_payload frame) ?sv"
      using assms by (auto simp: handle_frame_def Let_def)
    then show ?thesis
      using request serve_request_effect [of H session ?sv tx ?h "df_payload frame"]
        talks_trans [OF talks_add_stats] acts_before [OF talks_add_stats]
      unfolding request_effect_def by blast
  qed
qed

section \<open>Turns and runs\<close>

text \<open>The store moves by operations of its interface, none of them a compaction; the options stay.\<close>

definition server_moves :: "hash_fun \<Rightarrow> Server \<Rightarrow> Server \<Rightarrow> bool" where
  "server_moves H sv sv' \<longleftrightarrow> sr_options sv' = sr_options sv
     \<and> (\<exists>ops. list_all (\<lambda>op. \<not> is_compaction op) ops \<and> sr_store sv' = store_ops H ops (sr_store sv))"

lemma server_moves_same: "sr_options sv' = sr_options sv \<Longrightarrow> sr_store sv' = sr_store sv \<Longrightarrow> server_moves H sv sv'"
  unfolding server_moves_def by (simp add: exI [of _ "[]"])

lemma server_moves_trans: "server_moves H a b \<Longrightarrow> server_moves H b c \<Longrightarrow> server_moves H a c"
  unfolding server_moves_def by (metis store_ops_append list_all_append)

lemma server_moves_talks: "talks sv sv' \<Longrightarrow> server_moves H sv sv'"
  by (simp add: server_moves_same talks_simps)

lemma server_moves_op:
  assumes "acts (\<lambda>st. fst (store_op H op st)) sv sv'" and "\<not> is_compaction op"
  shows "server_moves H sv sv'"
  unfolding server_moves_def using assms acts_simps [OF assms(1)] by (intro conjI exI [of _ "[op]"]) simp_all

lemma request_op_no_compaction: "request_op i op \<Longrightarrow> \<not> is_compaction op"
  by (cases op) simp_all

lemma registration_store_op:
  "registration_store rg options =
     (\<lambda>st. fst (store_op H (SO_register (rg_identity rg) (narrow_scope (sv_client_scope options) (rg_scope rg))) st))"
  by (simp add: fun_eq_iff registration_store_def with_outcome_def)

lemma registration_moves: "acts (registration_store rg options) sv sv' \<Longrightarrow> server_moves H sv sv'"
  unfolding registration_store_op [of _ _ H]
  by (erule server_moves_op) simp

lemma handle_frame_moves: "server_moves H sv (snd (handle_frame H tx frame (session, sv)))"
proof (cases "handle_frame H tx frame (session, sv)")
  case (Pair session' sv')
  from handle_frame_effect [OF Pair] have "server_moves H sv sv'"
    using server_moves_talks server_moves_op request_op_no_compaction registration_moves by blast
  then show ?thesis by (simp add: Pair)
qed

text \<open>What the parts of a turn leave of the server's own state.\<close>

definition same_table :: "Server \<Rightarrow> Server \<Rightarrow> bool" where
  "same_table sv sv' \<longleftrightarrow> sr_sessions sv' = sr_sessions sv \<and> sr_running sv' = sr_running sv
     \<and> sr_active_sessions sv' = sr_active_sessions sv"

lemma same_table_refl [simp]: "same_table sv sv"
  by (simp add: same_table_def)

lemma same_table_trans: "same_table a b \<Longrightarrow> same_table b c \<Longrightarrow> same_table a c"
  by (simp add: same_table_def)

lemma talks_same_table: "talks sv sv' \<Longrightarrow> same_table sv sv'"
  by (simp add: same_table_def talks_simps)

lemma acts_same_table: "acts f sv sv' \<Longrightarrow> same_table sv sv'"
  by (simp add: same_table_def acts_simps)

lemma handle_frame_same_table: "same_table sv (snd (handle_frame H tx frame (session, sv)))"
proof (cases "handle_frame H tx frame (session, sv)")
  case (Pair session' sv')
  from handle_frame_effect [OF Pair] have "same_table sv sv'" using talks_same_table acts_same_table by blast
  then show ?thesis by (simp add: Pair)
qed

lemma process_input_keeps:
  "server_moves H sv (snd (process_input H tx now session sv))
   \<and> same_table sv (snd (process_input H tx now session sv))
   \<and> se_socket (fst (process_input H tx now session sv)) = se_socket session"
proof (induction H tx now session sv rule: process_input.induct)
  case (1 H tx now session sv)
  let ?size = "peek_frame_size (se_input session)"
  let ?decoded = "decode_frame H (take ?size (se_input session)) (sr_limits sv)"
  let ?s = "session\<lparr>se_assembling := False, se_input := drop ?size (se_input session)\<rparr>"
  show ?case
  proof (cases "(se_closing session \<or> length (se_input session) < 16) \<or> \<not> valid_magic (se_input session)
      \<or> ?size > max_frame_bytes (sr_limits sv) \<or> length (se_input session) < ?size")
    case True
    then show ?thesis
      by (subst (1 2 3) process_input.simps)
        (auto simp: Let_def server_moves_talks talks_same_table server_moves_same)
  next
    case False
    show ?thesis
    proof (cases "r_value ?decoded")
      case None
      let ?sv = "add_stats (no_stats\<lparr>ss_protocol_failures := 1\<rparr>) sv"
      have "talks sv (snd (send_error H tx session' blank_header out det ?sv))" for session' out det
        using talks_trans talks_add_stats talks_send_error by blast
      then show ?thesis
        using False None by (subst (1 2 3) process_input.simps)
          (auto simp: Let_def server_moves_talks talks_same_table)
    next
      case (Some frame)
      let ?next = "handle_frame H tx frame (?s, sv)"
      have eq: "process_input H tx now session sv = process_input H tx now (fst ?next) (snd ?next)"
        using False Some by (subst process_input.simps) (simp add: Let_def)
      have "server_moves H (snd ?next) (snd (process_input H tx now (fst ?next) (snd ?next)))
        \<and> same_table (snd ?next) (snd (process_input H tx now (fst ?next) (snd ?next)))
        \<and> se_socket (fst (process_input H tx now (fst ?next) (snd ?next))) = se_socket (fst ?next)"
        using 1 [OF HOL.refl HOL.refl _ _ _ _ HOL.refl HOL.refl Some] False by simp
      moreover have "se_socket (fst ?next) = se_socket session"
        using handle_frame_transport [of ?s H tx frame sv] by (simp add: same_transport_def)
      ultimately show ?thesis
        using server_moves_trans [OF handle_frame_moves] same_table_trans [OF handle_frame_same_table]
        by (simp only: eq) blast
    qed
  qed
qed

section \<open>Passes over the sessions\<close>

definition open_session :: "SessionState \<Rightarrow> u64" where
  "open_session session = (if se_socket session = None then 0 else 1)"

text \<open>
  The contract of a pass: the store moves by its interface, and the count of active sessions follows the
  sockets.
\<close>

locale session_pass =
  fixes H :: hash_fun and f :: "SessionState \<times> Server \<Rightarrow> SessionState \<times> Server"
  assumes moves: "f (session, sv) = (session', sv') \<Longrightarrow> server_moves H sv sv'"
    and table: "f (session, sv) = (session', sv') \<Longrightarrow> sr_sessions sv' = sr_sessions sv \<and> sr_running sv' = sr_running sv"
    and active: "f (session, sv) = (session', sv') \<Longrightarrow>
      sr_active_sessions sv' + open_session session = sr_active_sessions sv + open_session session'"
begin

lemma each:
  "each_session f ss sv = (ss', sv') \<Longrightarrow> server_moves H sv sv' \<and> sr_sessions sv' = sr_sessions sv
     \<and> sr_running sv' = sr_running sv \<and> length ss' = length ss
     \<and> sr_active_sessions sv' + sum_list (map open_session ss) = sr_active_sessions sv + sum_list (map open_session ss')"
proof (induction ss arbitrary: sv ss')
  case Nil
  then show ?case by (simp add: server_moves_same)
next
  case (Cons session ss)
  obtain s1 sv1 where f: "f (session, sv) = (s1, sv1)" by (cases "f (session, sv)")
  obtain rest where rest: "each_session f ss sv1 = (rest, sv')" "ss' = s1 # rest"
    using Cons.prems by (cases "each_session f ss sv1") (auto simp: f)
  note IH = Cons.IH [OF rest(1)]
  let ?S = "sum_list (map open_session ss)" and ?R = "sum_list (map open_session rest)"
  have "sr_active_sessions sv' + (open_session session + ?S) = (sr_active_sessions sv' + ?S) + open_session session"
    by (simp add: ac_simps)
  also have "\<dots> = (sr_active_sessions sv1 + open_session session) + ?R" using IH by (simp add: ac_simps)
  also have "\<dots> = sr_active_sessions sv + (open_session s1 + ?R)" using active [OF f] by (simp add: ac_simps)
  finally have "sr_active_sessions sv' + (open_session session + ?S) = sr_active_sessions sv + (open_session s1 + ?R)" .
  then show ?case
    using IH server_moves_trans [OF moves [OF f]] table [OF f] rest(2) by simp
qed

lemma pass:
  "server_moves H sv (for_sessions f sv)" "sr_running (for_sessions f sv) = sr_running sv"
  "length (sr_sessions (for_sessions f sv)) = length (sr_sessions sv)"
  "sr_active_sessions sv = sum_list (map open_session (sr_sessions sv)) \<Longrightarrow>
     sr_active_sessions (for_sessions f sv) = sum_list (map open_session (sr_sessions (for_sessions f sv)))"
proof -
  obtain ss sv' where e: "each_session f (sr_sessions sv) sv = (ss, sv')" by (cases "each_session f (sr_sessions sv) sv")
  note r = each [OF e]
  have s: "for_sessions f sv = sv'\<lparr>sr_sessions := ss\<rparr>" by (simp add: for_sessions_def e)
  show "server_moves H sv (for_sessions f sv)" "sr_running (for_sessions f sv) = sr_running sv"
    "length (sr_sessions (for_sessions f sv)) = length (sr_sessions sv)"
    using r by (simp_all add: s server_moves_def)
  show "sr_active_sessions sv = sum_list (map open_session (sr_sessions sv)) \<Longrightarrow>
     sr_active_sessions (for_sessions f sv) = sum_list (map open_session (sr_sessions (for_sessions f sv)))"
    using r by (simp add: s algebra_simps)
qed

end

lemma same_table_pass:
  "same_table sv sv' \<Longrightarrow> se_socket session' = se_socket session \<Longrightarrow> sr_sessions sv' = sr_sessions sv
     \<and> sr_running sv' = sr_running sv
     \<and> sr_active_sessions sv' + open_session session = sr_active_sessions sv + open_session session'"
  by (simp add: same_table_def open_session_def)

lemma receive_chunks:
  "fold receive_chunk chunks (session, sv) = (session', sv') \<Longrightarrow> talks sv sv' \<and> se_socket session' = se_socket session"
proof (induction chunks arbitrary: session sv)
  case (Cons chunk chunks)
  then have "talks (add_stats (no_stats\<lparr>ss_bytes_received := of_nat (length chunk)\<rparr>) sv) sv'
      \<and> se_socket session' = se_socket (session\<lparr>se_input := se_input session @ chunk\<rparr>)"
    by (simp add: receive_chunk_def)
  then show ?case using talks_trans talks_add_stats by (metis SessionState.select_convs(1) SessionState.surjective SessionState.update_convs(2))
qed simp

lemma receive_input_talks:
  "receive_input turn (session, sv) = (session', sv') \<Longrightarrow> talks sv sv' \<and> se_socket session' = se_socket session"
  by (cases "se_socket session") (auto simp: receive_input_def split: option.splits prod.splits if_splits dest!: receive_chunks)

interpretation receive_pass: session_pass H "receive_input turn" for H turn
  using receive_input_talks same_table_pass talks_same_table server_moves_talks
  by unfold_locales blast+

lemma probe_session_socket:
  "probe_session turn (session, sv) = (session', sv') \<Longrightarrow> sv' = sv \<and> se_socket session' = se_socket session"
  by (auto simp: probe_session_def split: option.splits if_splits)

interpretation probe_pass: session_pass H "probe_session turn" for H turn
  by unfold_locales (auto dest!: probe_session_socket simp: server_moves_same open_session_def)

lemma serve_session_keeps:
  assumes "serve_session H tx now (session, sv) = (session', sv')"
  shows "server_moves H sv sv' \<and> same_table sv sv' \<and> se_socket session' = se_socket session"
proof (cases "se_socket session = None")
  case True
  then show ?thesis using assms by (auto simp: serve_session_def server_moves_same)
next
  case False
  let ?s = "start_assembly now session"
  obtain s1 sv1 where p: "process_input H tx now ?s sv = (s1, sv1)" by (cases "process_input H tx now ?s sv")
  have "talks sv1 sv'" "se_socket session' = se_socket s1"
    using assms False by (auto simp: serve_session_def p check_deadline_def split: if_splits)
  moreover have "se_socket ?s = se_socket session" by (simp add: start_assembly_def)
  ultimately show ?thesis
    using process_input_keeps [of H sv tx now ?s] server_moves_trans server_moves_talks same_table_trans talks_same_table
    by (simp add: p) blast
qed

interpretation serve_pass: session_pass H "serve_session H tx now" for H tx now
  using serve_session_keeps same_table_pass by unfold_locales blast+

lemma close_session_effect:
  assumes "close_session fence (session, sv) = (session', sv')"
  shows "server_moves H sv sv' \<and> sr_sessions sv' = sr_sessions sv \<and> sr_running sv' = sr_running sv
    \<and> sr_active_sessions sv' = sr_active_sessions sv - 1 \<and> se_socket session' = None"
proof -
  let ?auth = "sv_coordinator_authority (sr_options sv)"
    and ?op = "SO_fence (pi_publisher (se_identity session)) (pi_boot (se_identity session)) (sv_coordinator_authority (sr_options sv))"
  have "sr_store sv' = sr_store sv \<or> sr_store sv' = store_ops H [?op] (sr_store sv)"
    using assms by (auto simp: close_session_def Let_def add_stats_def case_prod_beta)
  moreover have "list_all (\<lambda>op. \<not> is_compaction op) [?op]" by simp
  moreover have "sr_options sv' = sr_options sv" "sr_sessions sv' = sr_sessions sv" "sr_running sv' = sr_running sv"
    "sr_active_sessions sv' = sr_active_sessions sv - 1" "se_socket session' = None"
    using assms by (auto simp: close_session_def Let_def add_stats_def case_prod_beta)
  ultimately show ?thesis using server_moves_same unfolding server_moves_def by blast
qed

interpretation close_pass: session_pass H "close_if p" for H p
  by unfold_locales
    (auto simp: close_if_def open_session_def server_moves_same split: if_splits
      dest: close_session_effect [of True])

section \<open>Runs\<close>

definition table_ok :: "Server \<Rightarrow> bool" where
  "table_ok sv \<longleftrightarrow> length (sr_sessions sv) \<le> max_sessions (sr_limits sv)
     \<and> sr_active_sessions sv = sum_list (map open_session (sr_sessions sv))"

definition all_open :: "Server \<Rightarrow> bool" where
  "all_open sv \<longleftrightarrow> list_all (\<lambda>session. se_socket session \<noteq> None) (sr_sessions sv)"

definition good_move :: "hash_fun \<Rightarrow> Server \<Rightarrow> Server \<Rightarrow> bool" where
  "good_move H sv sv' \<longleftrightarrow> server_moves H sv sv' \<and> (table_ok sv \<longrightarrow> table_ok sv')"

lemma good_move_trans: "good_move H a b \<Longrightarrow> good_move H b c \<Longrightarrow> good_move H a c"
  using server_moves_trans by (auto simp: good_move_def)

lemma good_move_refl [simp]: "good_move H sv sv"
  by (simp add: good_move_def server_moves_same)

context session_pass
begin

lemma good: "good_move H sv (for_sessions f sv)"
  using pass [of sv] by (simp add: good_move_def table_ok_def server_moves_def)

end

lemma good_accept: "good_move H sv (accept_connection c sv)"
  by (cases c) (auto simp: accept_connection_def good_move_def server_moves_same table_ok_def add_stats_def
      open_session_def new_session_def ac_simps)

lemma good_accepts: "good_move H sv (fold accept_connection cs sv)"
  by (induction cs arbitrary: sv) (auto intro: good_move_trans [OF good_accept])

lemma good_drop: "good_move H sv (drop_closed sv)"
proof -
  have "sum_list (map open_session (filter (\<lambda>s. se_socket s \<noteq> None) ss)) = sum_list (map open_session ss)" for ss
    by (induction ss) (simp_all add: open_session_def)
  then show ?thesis
    by (auto simp: good_move_def server_moves_same table_ok_def drop_closed_def intro: order_trans [OF length_filter_le])
qed

lemma good_turn: "good_move H sv (snd (turn_loop H turn sv))"
proof (cases "tn_ready turn < 0")
  case True
  then show ?thesis by (simp add: turn_loop_def good_move_def server_moves_same table_ok_def add_stats_def)
next
  case False
  have a: "good_move H sv (if b then fold accept_connection cs sv else sv)" for b cs sv by (simp add: good_accepts)
  have r: "good_move H sv (if b then for_sessions (receive_input turn) sv else sv)" for b sv
    by (simp add: receive_pass.good)
  show ?thesis
    unfolding turn_loop_def Let_def using False
    by (simp only: if_False snd_conv)
      (rule good_move_trans [OF a good_move_trans [OF r good_move_trans [OF probe_pass.good
          good_move_trans [OF serve_pass.good good_move_trans [OF close_pass.good good_drop]]]]])
qed

lemma all_open_turn: "fst (turn_loop H turn sv) \<Longrightarrow> all_open (snd (turn_loop H turn sv))"
  by (auto simp: turn_loop_def Let_def all_open_def drop_closed_def list_all_iff split: if_splits)

lemma close_all_sockets:
  "each_session (close_if (\<lambda>_. True)) ss sv = (ss', sv') \<Longrightarrow> sum_list (map open_session ss') = 0"
proof (induction ss arbitrary: sv ss')
  case (Cons session ss)
  obtain s1 sv1 where f: "close_if (\<lambda>_. True) (session, sv) = (s1, sv1)" by (cases "close_if (\<lambda>_. True) (session, sv)")
  have "open_session s1 = 0"
    using f close_session_effect [of True session sv s1 sv1]
    by (auto simp: close_if_def open_session_def split: if_splits)
  moreover obtain rest where "each_session (close_if (\<lambda>_. True)) ss sv1 = (rest, sv')" "ss' = s1 # rest"
    using Cons.prems by (cases "each_session (close_if (\<lambda>_. True)) ss sv1") (auto simp: f)
  ultimately show ?case using Cons.IH by simp
qed simp

lemma good_shut_down: "good_move H sv (shut_down sv)" "all_open (shut_down sv)"
proof -
  have g: "good_move H sv (for_sessions (close_if (\<lambda>_. True)) sv)" by (rule close_pass.good)
  obtain ss sv' where e: "each_session (close_if (\<lambda>_. True)) (sr_sessions sv) sv = (ss, sv')"
    by (cases "each_session (close_if (\<lambda>_. True)) (sr_sessions sv) sv")
  have "sum_list (map open_session (sr_sessions (for_sessions (close_if (\<lambda>_. True)) sv))) = 0"
    using close_all_sockets [OF e] by (simp add: for_sessions_def e)
  then show "good_move H sv (shut_down sv)"
    using g by (simp add: shut_down_def good_move_def server_moves_def table_ok_def)
  show "all_open (shut_down sv)" by (simp add: shut_down_def all_open_def)
qed

lemma run_server_good:
  "all_open sv \<Longrightarrow> good_move H sv (run_server H turns sv) \<and> all_open (run_server H turns sv)"
proof (induction turns arbitrary: sv)
  case (Cons turn turns)
  note next_turn = good_turn [of H sv turn] all_open_turn [of H turn sv]
  show ?case
    using Cons next_turn good_shut_down good_move_trans [OF next_turn(1)]
    by (auto simp: case_prod_beta)
qed simp

lemma table_ok_open: "table_ok sv \<Longrightarrow> all_open sv \<Longrightarrow> sr_active_sessions sv = of_nat (length (sr_sessions sv))"
proof -
  have "list_all (\<lambda>s. se_socket s \<noteq> None) ss \<Longrightarrow> sum_list (map open_session ss) = of_nat (length ss)" for ss
    by (induction ss) (simp_all add: open_session_def)
  then show "table_ok sv \<Longrightarrow> all_open sv \<Longrightarrow> sr_active_sessions sv = of_nat (length (sr_sessions sv))"
    by (simp add: table_ok_def all_open_def)
qed

text \<open>
  C19: The coordinator only serves. Whatever clients connect, send, stall or drop, whatever the operating
  system answers and however long the loop runs, the store the coordinator holds is the store it started
  with after some calls of the store's public interface, none of them a compaction; so everything proved
  of reachable stores holds of it. There are never more sessions than the limit, every session kept has
  an open socket, and the count of active sessions is exact.
\<close>

theorem server_run_safe:
  "(\<exists>ops. list_all (\<lambda>op. \<not> is_compaction op) ops
      \<and> sr_store (run_server H turns (new_server st options)) = store_ops H ops st)
   \<and> sr_options (run_server H turns (new_server st options)) = options
   \<and> length (sr_sessions (run_server H turns (new_server st options))) \<le> max_sessions (sv_limits options)
   \<and> list_all (\<lambda>session. se_socket session \<noteq> None) (sr_sessions (run_server H turns (new_server st options)))
   \<and> sr_active_sessions (run_server H turns (new_server st options))
      = of_nat (length (sr_sessions (run_server H turns (new_server st options))))"
proof -
  let ?s = "new_server st options" and ?r = "run_server H turns (new_server st options)"
  have s: "all_open ?s" "table_ok ?s" "sr_store ?s = st" "sr_options ?s = options"
    by (simp_all add: new_server_def all_open_def table_ok_def)
  have r: "server_moves H ?s ?r" "table_ok ?r" "all_open ?r"
    using run_server_good [OF s(1), of H turns] s(2) by (auto simp: good_move_def)
  then have "length (sr_sessions ?r) \<le> max_sessions (sv_limits options)"
    using s by (simp add: table_ok_def server_moves_def)
  then show ?thesis
    using r s table_ok_open [OF r(2,3)] unfolding server_moves_def all_open_def by auto
qed


end
