(* ===== verification/Server_Props.thy ===== *)
theory Server_Props
  imports Server_Inv
begin

text \<open>
  What the coordinator does with its input: complete frames are served at once and in order, incomplete
  ones wait under a deadline, and two defects of the session loop and of the epoch handling.
\<close>

section \<open>The steps of the assembly loop\<close>

text \<open>A frame is complete and acceptable so far.\<close>

definition frame_ready :: "SessionState \<Rightarrow> Server \<Rightarrow> bool" where
  "frame_ready session sv \<longleftrightarrow> \<not> se_closing session \<and> valid_magic (se_input session)
     \<and> peek_frame_size (se_input session) \<le> max_frame_bytes (sr_limits sv)
     \<and> peek_frame_size (se_input session) \<le> length (se_input session)"

lemma peek_frame_size_ge: "96 \<le> peek_frame_size buffer"
  by (simp add: peek_frame_size_def kFrameHeaderBytes_def kFrameTrailerBytes_def)

definition next_session :: "SessionState \<Rightarrow> SessionState" where
  "next_session session = session\<lparr>se_assembling := False,
     se_input := drop (peek_frame_size (se_input session)) (se_input session)\<rparr>"

definition next_frame :: "hash_fun \<Rightarrow> SessionState \<Rightarrow> Server \<Rightarrow> DecodedFrame Result" where
  "next_frame H session sv =
     decode_frame H (take (peek_frame_size (se_input session)) (se_input session)) (sr_limits sv)"

lemma process_input_frame:
  assumes "frame_ready session sv" and "r_value (next_frame H session sv) = Some frame"
    and "handle_frame H tx frame (next_session session, sv) = (session', sv')"
  shows "process_input H tx now session sv = process_input H tx now session' sv'"
  using assms peek_frame_size_ge [of "se_input session"]
  by (subst process_input.simps) (simp add: frame_ready_def next_frame_def next_session_def Let_def)

lemma process_input_bad_frame:
  assumes "frame_ready session sv" and "r_value (next_frame H session sv) = None"
  shows "process_input H tx now session sv = ((next_session session)\<lparr>se_closing := True\<rparr>,
     snd (send_error H tx (next_session session) blank_header (r_outcome (next_frame H session sv))
       (r_detail (next_frame H session sv)) (add_stats (no_stats\<lparr>ss_protocol_failures := 1\<rparr>) sv)))"
  using assms peek_frame_size_ge [of "se_input session"]
  by (subst process_input.simps) (simp add: frame_ready_def next_frame_def next_session_def Let_def)

lemma next_session_input:
  assumes "handle_frame H tx frame (next_session session, sv) = (session', sv')"
  shows "se_input session' = drop (peek_frame_size (se_input session)) (se_input session)"
  using handle_frame_transport [of "next_session session" H tx frame sv]
  by (simp add: assms same_transport_def) (simp add: next_session_def)

lemma process_input_closing: "se_closing session \<Longrightarrow> process_input H tx now session sv = (session, sv)"
  by (subst process_input.simps) (simp add: Let_def)

text \<open>Nothing to do: no complete header, or an acceptable one whose frame is not complete.\<close>

definition waiting :: "SessionState \<Rightarrow> Server \<Rightarrow> bool" where
  "waiting session sv \<longleftrightarrow> length (se_input session) < 16
     \<or> (valid_magic (se_input session) \<and> peek_frame_size (se_input session) \<le> max_frame_bytes (sr_limits sv)
        \<and> length (se_input session) < peek_frame_size (se_input session))"

lemma process_input_waiting:
  assumes "\<not> se_closing session" and "waiting session sv"
  shows "process_input H tx now session sv =
     (if length (se_input session) < 16 \<or> se_assembling session then session
      else session\<lparr>se_assembling := True, se_assembly_started := now\<rparr>, sv)"
  using assms by (subst process_input.simps) (auto simp: waiting_def Let_def)

lemma process_input_cases:
  obtains (closing) "se_closing session" | (waiting) "\<not> se_closing session" "waiting session sv"
    | (malformed) "\<not> se_closing session" "16 \<le> length (se_input session)"
        "\<not> valid_magic (se_input session) \<or> peek_frame_size (se_input session) > max_frame_bytes (sr_limits sv)"
    | (bad) "frame_ready session sv" "r_value (next_frame H session sv) = None"
    | (frame) frame where "frame_ready session sv" "r_value (next_frame H session sv) = Some frame"
  unfolding waiting_def frame_ready_def by (metis not_less option.exhaust)

lemma process_input_malformed:
  assumes "\<not> se_closing session" and "16 \<le> length (se_input session)"
    and "\<not> valid_magic (se_input session) \<or> peek_frame_size (se_input session) > max_frame_bytes (sr_limits sv)"
  shows "process_input H tx now session sv =
     (session\<lparr>se_closing := True\<rparr>, add_stats (no_stats\<lparr>ss_protocol_failures := 1\<rparr>) sv)"
  using assms by (subst process_input.simps) (auto simp: Let_def)

text \<open>Induction over the frames.\<close>

lemma process_input_induct [case_names stop frame]:
  assumes "\<And>session sv. \<not> (frame_ready session sv \<and> r_value (next_frame H session sv) \<noteq> None) \<Longrightarrow> P session sv"
    and "\<And>session sv frame session' sv'. frame_ready session sv \<Longrightarrow>
      r_value (next_frame H session sv) = Some frame \<Longrightarrow>
      handle_frame H tx frame (next_session session, sv) = (session', sv') \<Longrightarrow> P session' sv' \<Longrightarrow> P session sv"
  shows "P session sv"
proof (induction "length (se_input session)" arbitrary: session sv rule: less_induct)
  case (less session sv)
  show ?case
  proof (cases "frame_ready session sv \<and> r_value (next_frame H session sv) \<noteq> None")
    case False
    then show ?thesis by (rule assms(1))
  next
    case True
    then obtain frame where frame: "frame_ready session sv" "r_value (next_frame H session sv) = Some frame" by auto
    obtain session' sv' where h: "handle_frame H tx frame (next_session session, sv) = (session', sv')"
      by (cases "handle_frame H tx frame (next_session session, sv)")
    have "se_input session' = drop (peek_frame_size (se_input session)) (se_input session)"
      by (rule next_session_input [OF h])
    moreover have "96 \<le> length (se_input session)"
      using frame(1) peek_frame_size_ge [of "se_input session"] by (simp add: frame_ready_def)
    ultimately have "length (se_input session') < length (se_input session)"
      using peek_frame_size_ge [of "se_input session"] by simp
    from assms(2) [OF frame h less [OF this]] show ?thesis .
  qed
qed

section \<open>The input is drained\<close>

lemma process_input_drained:
  "(se_closing (fst (process_input H tx now session sv))
     \<or> waiting (fst (process_input H tx now session sv)) (snd (process_input H tx now session sv)))
   \<and> (\<exists>n. se_input (fst (process_input H tx now session sv)) = drop n (se_input session))"
proof (induction session sv rule: process_input_induct [where H = H and tx = tx])
  case (stop session sv)
  show ?case
  proof (cases rule: process_input_cases [where session = session and sv = sv and H = H])
    case closing
    then show ?thesis using drop_0 by (auto simp: process_input_closing intro: exI [of _ 0])
  next
    case waiting
    then show ?thesis
      by (auto simp: process_input_waiting waiting_def peek_frame_size_def intro: exI [of _ 0])
  next
    case malformed
    then show ?thesis by (auto simp: process_input_malformed intro: exI [of _ 0])
  next
    case bad
    then show ?thesis by (auto simp: process_input_bad_frame next_session_def)
  next
    case (frame frame)
    then show ?thesis using stop by simp
  qed
next
  case (frame session sv frame session' sv')
  have "se_input session' = drop (peek_frame_size (se_input session)) (se_input session)"
    by (rule next_session_input [OF frame(3)])
  then show ?case using frame(4) by (auto simp: process_input_frame [OF frame(1-3)] drop_drop)
qed

text \<open>
  No complete frame waits for the next turn. Whatever a session's input holds, one run of the assembly
  loop ends with the session closing, or with an input that is shorter than a frame header or starts with
  an acceptable header whose frame has not arrived in full; what is left is the end of what there was, so
  nothing is skipped or reordered, and the loop touches no other session.
\<close>

theorem input_is_drained:
  "(se_closing (fst (process_input H tx now session sv))
     \<or> length (se_input (fst (process_input H tx now session sv))) < 16
     \<or> (valid_magic (se_input (fst (process_input H tx now session sv)))
         \<and> length (se_input (fst (process_input H tx now session sv)))
             < peek_frame_size (se_input (fst (process_input H tx now session sv)))))
   \<and> (\<exists>n. se_input (fst (process_input H tx now session sv)) = drop n (se_input session))
   \<and> sr_sessions (snd (process_input H tx now session sv)) = sr_sessions sv"
  using process_input_drained [of H tx now session sv] process_input_keeps [of H sv tx now session]
  by (auto simp: waiting_def same_table_def)

section \<open>A stalled client is dropped\<close>

text \<open>A session in the middle of a frame since \<open>t\<close> or longer, or closing, with nothing served meanwhile.\<close>

definition stalled :: "nat \<Rightarrow> SessionState \<Rightarrow> Server \<Rightarrow> SessionState \<times> Server \<Rightarrow> bool" where
  "stalled t session sv = (\<lambda>(session', sv'). talks sv sv' \<and> se_socket session' = se_socket session
     \<and> se_registered session' = se_registered session \<and> se_identity session' = se_identity session
     \<and> (se_closing session' \<or> (se_input session' = se_input session \<and> se_assembling session'
          \<and> se_assembly_started session' \<le> t)))"

lemma stalled_step:
  assumes "se_socket session \<noteq> None" and "waiting session sv" and "stalled t session sv (s, sv1)"
  shows "stalled t session sv (serve_session H tx now (s, sv1))
    \<and> ((now - t) div 1000000 > max_frame_assembly_ms (sr_limits sv) \<longrightarrow> se_closing (fst (serve_session H tx now (s, sv1))))"
proof -
  have tk: "talks sv sv1" and sock: "se_socket s \<noteq> None" and lim: "sr_options sv1 = sr_options sv"
    using assms by (auto simp: stalled_def dest: talks_simps)
  have p: "process_input H tx now (start_assembly now s) sv1 = (s, sv1)"
  proof (cases "se_closing s")
    case True
    then show ?thesis by (simp add: process_input_closing start_assembly_def)
  next
    case False
    then have s: "se_input s = se_input session" "se_assembling s" using assms(3) by (auto simp: stalled_def)
    then have "waiting s sv1" using assms(2) by (simp add: waiting_def lim)
    then show ?thesis using False s by (simp add: process_input_waiting start_assembly_def)
  qed
  have mono: "(now - t) div 1000000 \<le> (now - u) div 1000000" if "u \<le> t" for u :: nat
    using that by (simp add: div_le_mono)
  show ?thesis
    using assms(3) sock talks_trans [OF tk talks_add_stats] mono [of "se_assembly_started s"]
    by (auto simp: serve_session_def p check_deadline_def stalled_def lim)
qed

lemma stalled_turns:
  "se_socket session \<noteq> None \<Longrightarrow> waiting session sv \<Longrightarrow> stalled t session sv st \<Longrightarrow>
     stalled t session sv (fold (\<lambda>now. serve_session H tx now) clocks st)"
proof (induction clocks arbitrary: st)
  case (Cons now clocks)
  then show ?case using stalled_step [of session sv t "fst st" "snd st" H tx now] by simp
qed simp

lemma stalled_start:
  assumes "se_socket session \<noteq> None" and "\<not> se_closing session" and "se_input session \<noteq> []" and "waiting session sv"
    and "se_assembling session \<Longrightarrow> se_assembly_started session \<le> t"
  shows "stalled t session sv (serve_session H tx t (session, sv))"
proof -
  let ?s = "start_assembly t session"
  have s: "\<not> se_closing ?s" "se_assembling ?s" "se_input ?s = se_input session" "se_assembly_started ?s \<le> t"
    "se_socket ?s = se_socket session" "se_registered ?s = se_registered session" "se_identity ?s = se_identity session"
    using assms by (auto simp: start_assembly_def)
  then have "waiting ?s sv" using assms(4) by (simp add: waiting_def)
  then have "process_input H tx t ?s sv = (?s, sv)" using s by (simp add: process_input_waiting)
  then show ?thesis using assms(1) s by (auto simp: serve_session_def check_deadline_def stalled_def)
qed


section \<open>Frames are served in order\<close>

lemma encode_frame_shape:
  assumes "encode_frame H h payload limits = Inr raw"
  shows "raw = frame_prefix h (length payload) @ payload
      @ digest_bytes (frame_digest H (h\<lparr>fh_payload_bytes := of_nat (length payload)\<rparr>) payload)"
    and "length raw = 96 + length payload" and "length raw \<le> max_frame_bytes limits"
  using assms by (auto simp: encode_frame_def Let_def kFrameHeaderBytes_def kFrameTrailerBytes_def split: if_splits)

lemma peek_encoded:
  assumes "encode_frame H h payload limits = Inr raw"
  shows "peek_payload_length (raw @ rest) = ucast (of_nat (length payload) :: u32)" and "valid_magic (raw @ rest)"
proof -
  have "64 \<le> length raw" using encode_frame_shape(2) [OF assms] by simp
  then show "peek_payload_length (raw @ rest) = ucast (of_nat (length payload) :: u32)" and "valid_magic (raw @ rest)"
    using frame_prefix_loads [of h "length payload"] encode_frame_shape(1) [OF assms]
    by (simp_all add: peek_payload_length_def valid_magic_def kMagicFirst_def kMagicSecond_def)
qed

text \<open>A frame of a client and what the coordinator reads it as; the length must fit 16 bits.\<close>

definition sent_frame :: "hash_fun \<Rightarrow> Limits \<Rightarrow> byte list \<Rightarrow> DecodedFrame \<Rightarrow> bool" where
  "sent_frame H limits raw frame \<longleftrightarrow> (\<exists>h. encode_frame H h (df_payload frame) limits = Inr raw
     \<and> df_header frame = h\<lparr>fh_payload_bytes := of_nat (length (df_payload frame))\<rparr> \<and> length (df_payload frame) < 65536)"

definition serve_all ::
    "hash_fun \<Rightarrow> (nat \<Rightarrow> bool) \<Rightarrow> DecodedFrame list \<Rightarrow> SessionState \<times> Server \<Rightarrow> SessionState \<times> Server" where
  "serve_all H tx frames st = fold (\<lambda>frame st. if se_closing (fst st) then st
     else handle_frame H tx frame (next_session (fst st), snd st)) frames st"

lemma sent_frame_ready:
  assumes "sent_frame H (sr_limits sv) raw frame" and "max_frame_bytes (sr_limits sv) < 4294967296"
    and "se_input session = raw @ rest" and "\<not> se_closing session"
  shows "frame_ready session sv" and "r_value (next_frame H session sv) = Some frame"
    and "drop (peek_frame_size (se_input session)) (se_input session) = rest"
proof -
  let ?p = "df_payload frame"
  obtain h where h: "encode_frame H h ?p (sr_limits sv) = Inr raw"
    "df_header frame = h\<lparr>fh_payload_bytes := of_nat (length ?p)\<rparr>" "length ?p < 65536"
    using assms(1) by (auto simp: sent_frame_def)
  have "unat (ucast (of_nat (length ?p) :: u32) :: u16) = length ?p"
    using h(3) by (simp add: unsigned_ucast_eq unsigned_of_nat take_bit_eq_mod)
  then have size: "peek_frame_size (raw @ rest) = length raw"
    using encode_frame_shape(2) [OF h(1)] peek_encoded(1) [OF h(1), of rest]
    by (simp add: peek_frame_size_def kFrameHeaderBytes_def kFrameTrailerBytes_def)
  show "frame_ready session sv"
    using encode_frame_shape(3) [OF h(1)] peek_encoded(2) [OF h(1), of rest] assms(3,4)
    by (simp add: frame_ready_def size)
  show "drop (peek_frame_size (se_input session)) (se_input session) = rest" by (simp add: size assms(3))
  have "next_frame H session sv = decode_frame H raw (sr_limits sv)" by (simp add: next_frame_def size assms(3))
  then show "r_value (next_frame H session sv) = Some frame"
    using decode_encoded_frame [OF assms(2) h(1)] h(2) by (cases frame) simp
qed

lemma process_sent_frames:
  "list_all2 (sent_frame H limits) raws frames \<Longrightarrow> max_frame_bytes limits < 4294967296 \<Longrightarrow> sr_limits sv = limits \<Longrightarrow>
   se_input session = concat raws @ rest \<Longrightarrow> serve_all H tx frames (session, sv) = (session', sv') \<Longrightarrow>
     process_input H tx now session sv = process_input H tx now session' sv'
     \<and> (\<not> se_closing session' \<longrightarrow> se_input session' = rest) \<and> sr_options sv' = sr_options sv"
proof (induction raws frames arbitrary: session sv rule: list_all2_induct)
  case Nil
  then show ?case by (simp add: serve_all_def)
next
  case (Cons raw raws frame frames)
  show ?case
  proof (cases "se_closing session")
    case True
    have "fold (\<lambda>frame st. if se_closing (fst st) then st
        else handle_frame H tx frame (next_session (fst st), snd st)) fs (session, sv) = (session, sv)" for fs
      by (induction fs) (simp_all add: True)
    then show ?thesis using Cons.prems(4) True by (simp add: serve_all_def)
  next
    case False
    obtain s1 sv1 where h: "handle_frame H tx frame (next_session session, sv) = (s1, sv1)"
      by (cases "handle_frame H tx frame (next_session session, sv)")
    have opt: "sr_options sv1 = sr_options sv"
      using handle_frame_moves [of H sv tx frame "next_session session"] by (simp add: h server_moves_def)
    have "sent_frame H (sr_limits sv) raw frame" "max_frame_bytes (sr_limits sv) < 4294967296"
      "se_input session = raw @ concat raws @ rest"
      using Cons.hyps(1) Cons.prems by simp_all
    note ready = sent_frame_ready [OF this False]
    have "se_input s1 = concat raws @ rest" using next_session_input [OF h] ready(3) by simp
    moreover have "serve_all H tx frames (s1, sv1) = (session', sv')"
      using Cons.prems(4) False by (simp add: serve_all_def h)
    ultimately show ?thesis
      using Cons.IH [of sv1 s1] Cons.prems(1,2) process_input_frame [OF ready(1,2) h, of now] opt
      by simp
  qed
qed

text \<open>
  C22: Frames are served in order. If what has arrived on a session is any number of frames a client
  encoded, each with a payload below 64 KiB, followed by the start of another, then one run of the
  assembly loop does exactly this: it handles these frames, one after the other, as the frames the client
  meant, until one closes the session; and unless one does, the start of the next frame is what remains.
  How the bytes were split into packets makes no difference.
\<close>

theorem frames_served_in_order:
  assumes "list_all2 (sent_frame H (sr_limits sv)) raws frames" and "max_frame_bytes (sr_limits sv) < 4294967296"
    and "se_input session = concat raws @ rest" and "waiting (session\<lparr>se_input := rest\<rparr>) sv"
  shows "snd (process_input H tx now session sv) = snd (serve_all H tx frames (session, sv))
    \<and> se_closing (fst (process_input H tx now session sv)) = se_closing (fst (serve_all H tx frames (session, sv)))
    \<and> (se_closing (fst (process_input H tx now session sv)) \<or> se_input (fst (process_input H tx now session sv)) = rest)"
proof -
  obtain session' sv' where all: "serve_all H tx frames (session, sv) = (session', sv')"
    by (cases "serve_all H tx frames (session, sv)")
  note p = process_sent_frames [OF assms(1,2) HOL.refl assms(3) all]
  show ?thesis
  proof (cases "se_closing session'")
    case True
    then show ?thesis using p by (simp add: all process_input_closing)
  next
    case False
    then have "waiting session' sv'" using p assms(4) by (simp add: waiting_def)
    then show ?thesis using p False by (simp add: all process_input_waiting)
  qed
qed

section \<open>A payload of 64 KiB is never served\<close>

text \<open>
  C26: Payloads of 64 KiB and more are cut short. The assembly loop keeps only the low 16 bits of a frame's
  payload length. So a frame the encoder accepts, within the frame bound, whose payload has 65536 bytes or
  more is never handled: the loop takes a prefix of it for a frame, which cannot decode, answers with an
  error and closes the session, and the store is untouched.
\<close>

theorem large_payload_refused:
  assumes "encode_frame H h payload (sr_limits sv) = Inr raw" and "65536 \<le> length payload"
    and "max_frame_bytes (sr_limits sv) < 4294967296" and "se_input session = raw @ rest" and "\<not> se_closing session"
  shows "se_closing (fst (process_input H tx now session sv))
    \<and> sr_store (snd (process_input H tx now session sv)) = sr_store sv"
proof -
  let ?size = "peek_frame_size (se_input session)" and ?n = "length payload"
  note shape = encode_frame_shape [OF assms(1)]
  have n: "?n < 4294967296" using shape(2,3) assms(3) by simp
  have peek: "unat (peek_payload_length (raw @ rest)) = ?n mod 65536"
    using n by (simp add: peek_encoded [OF assms(1)] unsigned_ucast_eq unsigned_of_nat take_bit_eq_mod)
  then have size: "?size = 96 + ?n mod 65536"
    by (simp add: assms(4) peek_frame_size_def kFrameHeaderBytes_def kFrameTrailerBytes_def)
  have "?n mod 65536 < ?n" using mod_less_divisor [of 65536 ?n] assms(2) by linarith
  then have small: "?size < 96 + ?n" by (simp add: size)
  have ready: "frame_ready session sv"
    using small shape(2,3) peek_encoded(2) [OF assms(1), of rest] assms(4,5) by (simp add: frame_ready_def)
  have "r_value (next_frame H session sv) = None"
  proof (rule ccontr)
    let ?raw = "take ?size (se_input session)"
    assume "r_value (next_frame H session sv) \<noteq> None"
    then obtain d where d: "r_value (decode_frame H ?raw (sr_limits sv)) = Some d" by (auto simp: next_frame_def)
    note e = encode_frame_shape [OF decode_frame_canonical(1) [OF d]]
    have len: "length (df_payload d) = ?n mod 65536"
      using e(2) small shape(2) size by (simp add: assms(4))
    have "take ?size (raw @ rest) = frame_prefix h ?n @ take (?size - 64) (drop 64 (raw @ rest))"
    proof -
      have "take ?size (raw @ rest) = take 64 (raw @ rest) @ take (?size - 64) (drop 64 (raw @ rest))"
        using take_add [of 64 "?size - 64" "raw @ rest"] by (simp add: size)
      moreover have "take 64 (raw @ rest) = frame_prefix h ?n" using shape(1) by simp
      ultimately show ?thesis by simp
    qed
    then have "load_le32 (drop 12 ?raw) = of_nat ?n"
      using frame_prefix_loads(7) [of h ?n] by (simp add: assms(4))
    moreover have "load_le32 (drop 12 ?raw) = of_nat (length (df_payload d))"
      using frame_prefix_loads(7) [of "df_header d" "length (df_payload d)"] e(1) by metis
    ultimately have "of_nat ?n = (of_nat (?n mod 65536) :: u32)" by (simp add: len)
    then have "?n = ?n mod 65536"
      using of_nat_inj_u32 [OF n less_trans [OF \<open>?n mod 65536 < ?n\<close> n]] by blast
    then show False using \<open>?n mod 65536 < ?n\<close> by simp
  qed
  note p = process_input_bad_frame [OF ready this, of tx now]
  have "talks sv (snd (send_error H tx session' blank_header out det (add_stats delta sv)))" for session' out det delta
    using talks_trans talks_add_stats talks_send_error by blast
  then show ?thesis by (simp add: p talks_simps)
qed

section \<open>A failed loop is not restarted\<close>

text \<open>
  When \<^verbatim>\<open>select\<close> fails, the loop ends and the server counts as stopped, but its thread has not been
  joined; starting the server again, with every call of the system succeeding, ends the process.
\<close>

theorem failed_loop_not_restarted:
  assumes "sr_sessions sv = []" and "sr_loop sv" and "\<not> tn_stop turn" and "tn_ready turn < 0"
    and "st_socket ev" and "st_inet_pton ev" and "st_bind ev" and "st_listen ev" and "st_getsockname ev = Some port"
    and "st_nonblocking ev"
  shows "\<not> sr_running (run_server H (turn # turns) sv) \<and> server_start ev (run_server H (turn # turns) sv) = None"
  using assms
  by (simp add: turn_loop_def shut_down_def for_sessions_def server_start_def add_stats_def)

section \<open>The theorems on a concrete server\<close>

definition sample_options :: ServerOptions where
  "sample_options = \<lparr>sv_bind_address = ''127.0.0.1'', sv_port = 0, sv_limits = sample_wire_limits,
     sv_client_scope = scope_fabric, sv_coordinator_authority = sample_authority\<rparr>"

definition sample_server :: Server where
  "sample_server = (new_server sample_store sample_options)\<lparr>sr_running := True\<rparr>"

lemma sample_server_limits [simp]: "sr_limits sample_server = sample_wire_limits"
  by (simp add: sample_server_def new_server_def sample_options_def)


lemma sample_frame_encoded:
  fixes payload :: "byte list"
  assumes "length payload + 96 \<le> max_frame_bytes limits"
  shows "encode_frame sample_hash sample_header payload limits
    = Inr (encoded (encode_frame sample_hash sample_header payload limits))"
  using encode_frame_fits [OF sample_header_ok assms, of sample_hash] by (auto simp: encoded_def)

theorem frames_served_in_order_witness:
  "snd (process_input sample_hash (\<lambda>_. True) 0 ((new_session 7)\<lparr>se_input :=
       encoded (encode_frame sample_hash sample_header [1, 2] sample_wire_limits) @ [0x52]\<rparr>) sample_server)
   = snd (serve_all sample_hash (\<lambda>_. True)
       [\<lparr>df_header = sample_header\<lparr>fh_payload_bytes := 2\<rparr>, df_payload = [1, 2]\<rparr>]
       ((new_session 7)\<lparr>se_input :=
         encoded (encode_frame sample_hash sample_header [1, 2] sample_wire_limits) @ [0x52]\<rparr>, sample_server))"
proof -
  let ?raw = "encoded (encode_frame sample_hash sample_header [1, 2] sample_wire_limits)"
  let ?session = "(new_session 7)\<lparr>se_input := ?raw @ [0x52]\<rparr>"
  have "encode_frame sample_hash sample_header [1, 2] sample_wire_limits = Inr ?raw"
    by (rule sample_frame_encoded) (simp add: sample_wire_limits_def)
  then have "sent_frame sample_hash (sr_limits sample_server) ?raw
      \<lparr>df_header = sample_header\<lparr>fh_payload_bytes := 2\<rparr>, df_payload = [1, 2]\<rparr>"
    by (auto simp: sent_frame_def)
  then have f: "list_all2 (sent_frame sample_hash (sr_limits sample_server)) [?raw]
      [\<lparr>df_header = sample_header\<lparr>fh_payload_bytes := 2\<rparr>, df_payload = [1, 2]\<rparr>]" by simp
  have b: "max_frame_bytes (sr_limits sample_server) < 4294967296" by (simp add: sample_wire_limits_def)
  have i: "se_input ?session = concat [?raw] @ [0x52]" by simp
  have w: "waiting (?session\<lparr>se_input := [0x52]\<rparr>) sample_server" by (simp add: waiting_def)
  show ?thesis using frames_served_in_order [OF f b i w] by blast
qed

theorem large_payload_refused_witness:
  "se_closing (fst (process_input sample_hash (\<lambda>_. True) 0 ((new_session 7)\<lparr>se_input :=
       encoded (encode_frame sample_hash sample_header (replicate 65536 0) default_limits)\<rparr>)
     (new_server sample_store (sample_options\<lparr>sv_limits := default_limits\<rparr>))))"
proof -
  let ?payload = "replicate 65536 0 :: byte list"
  let ?raw = "encoded (encode_frame sample_hash sample_header ?payload default_limits)"
  let ?sv = "new_server sample_store (sample_options\<lparr>sv_limits := default_limits\<rparr>)"
  let ?session = "(new_session 7)\<lparr>se_input := ?raw\<rparr>"
  have sv: "sr_limits ?sv = default_limits" by (simp add: new_server_def)
  have "length ?payload + 96 \<le> max_frame_bytes default_limits" by (simp add: default_limits_def)
  then have r: "encode_frame sample_hash sample_header ?payload (sr_limits ?sv) = Inr ?raw"
    unfolding sv by (rule sample_frame_encoded)
  have n: "65536 \<le> length ?payload" by simp
  have b: "max_frame_bytes (sr_limits ?sv) < 4294967296" unfolding sv by (simp add: default_limits_def)
  have i: "se_input ?session = ?raw @ []" "\<not> se_closing ?session" by (simp_all add: new_session_def)
  show ?thesis using large_payload_refused [OF r n b i] by blast
qed

end
