(* ===== verification/Server_Epoch.thy ===== *)
theory Server_Epoch
  imports Server_Props
begin

text \<open>
  What an epoch advance of the coordinator really does: the store moves on, but the authority the server
  fences with stays at the old epoch, so from then on it can neither fence nor advance again.
\<close>

section \<open>Advancing the store's epoch\<close>

lemma notify_authority_outcome:
  "st_outcome (notify_authority auth st) \<in> {O_Ok, O_Unauthorized, O_StaleEpoch, O_StaleWorker}"
  by (simp add: notify_authority_def check_authority_fields_def Let_def result_defs)

lemma reevaluate_group_marks: "s_watermarks (reevaluate_group p st) = s_watermarks st"
  by (simp add: reevaluate_group_def case_prod_beta put_lineage_def split: option.splits)

lemma reevaluate_index_marks [simp]: "s_watermarks (reevaluate_index ids st) = s_watermarks st"
proof -
  have "s_watermarks (fold reevaluate_group ps st) = s_watermarks st" for ps
    by (induction ps arbitrary: st) (simp_all add: reevaluate_group_marks)
  then show ?thesis by (simp add: reevaluate_index_fold)
qed

lemma advance_epoch_cases:
  assumes "advance_epoch e auth st = (st', status)"
  shows "\<not> st_is_ok status"
    and "st_outcome status = O_Updated \<Longrightarrow> wm_epoch (s_watermarks st') = e \<and> pi_epoch (ac_publisher auth) < e"
    and "pi_epoch (ac_publisher auth) \<noteq> wm_epoch (s_watermarks st) \<Longrightarrow> st' = st \<and> st_outcome status \<noteq> O_Updated"
proof -
  note eqs = advance_epoch_def notify_dependency_def notify_marks_def notify_finish_def next_store_generation_def
    Let_def case_prod_beta result_defs
  have auth: "st_is_ok (notify_authority auth st) \<Longrightarrow> pi_epoch (ac_publisher auth) = wm_epoch (s_watermarks st)"
    by (simp add: notify_authority_def Let_def result_defs split: if_splits)
  show "\<not> st_is_ok status" using assms by (auto simp: eqs split: if_splits)
  show "st_outcome status = O_Updated \<Longrightarrow> wm_epoch (s_watermarks st') = e \<and> pi_epoch (ac_publisher auth) < e"
    using assms auth notify_authority_outcome [of auth st] by (auto simp: eqs split: if_splits)
  show "st' = st \<and> st_outcome status \<noteq> O_Updated" if "pi_epoch (ac_publisher auth) \<noteq> wm_epoch (s_watermarks st)"
  proof -
    have "\<not> st_is_ok (notify_authority auth st)" using auth that by blast
    then have "st' = st" "status = notify_authority auth st"
      using assms by (auto simp: advance_epoch_def notify_dependency_def)
    then show ?thesis using notify_authority_outcome [of auth st] by auto
  qed
qed

lemma stale_fence_refused:
  assumes "pi_epoch (ac_publisher auth) \<noteq> wm_epoch (s_watermarks st)"
  shows "fst (fence_publisher p b auth st) = st" and "st_outcome (snd (fence_publisher p b auth st)) \<noteq> O_Updated"
    and "st_outcome (snd (fence_publisher p b auth st)) \<noteq> O_Ok"
  using assms by (auto simp: fence_publisher_def check_authority_fields_def Let_def result_defs)

section \<open>The server after an epoch advance\<close>

lemma run_server_moves: "server_moves H sv (run_server H turns sv)"
proof (induction turns arbitrary: sv)
  case (Cons turn turns)
  have "server_moves H sv (snd (turn_loop H turn sv))" "server_moves H s (shut_down s)" for s
    using good_turn good_shut_down(1) by (auto simp: good_move_def)
  then show ?case using Cons server_moves_trans by (auto simp: case_prod_beta)
qed (simp add: server_moves_same)

lemma server_moves_later:
  assumes "server_moves H sv sv'" and "store_inv H (sr_store sv)"
  shows "wm_epoch (s_watermarks (sr_store sv)) \<le> wm_epoch (s_watermarks (sr_store sv'))"
  using assms store_ops_later [OF assms(2)] by (auto simp: server_moves_def store_later_def marks_later_def)

text \<open>
  C25: An epoch advance disarms the coordinator. When the server's epoch advance answers that it was done,
  the store has the new epoch but the server still acts with its authority of the old one. So, however
  the session loop then runs, no session that closes is fenced any more, its publisher keeps its live
  boot, and every further epoch advance is refused and changes nothing.
\<close>

theorem epoch_advance_disarms:
  assumes "store_inv H (sr_store sv)" and "server_advance_epoch e sv = (sv1, status)" and "st_outcome status = O_Updated"
  shows "wm_epoch (s_watermarks (sr_store sv1)) = e
    \<and> pi_epoch (ac_publisher (sv_coordinator_authority (sr_options (run_server H turns sv1)))) < e
    \<and> sr_store (snd (close_session True (session, run_server H turns sv1))) = sr_store (run_server H turns sv1)
    \<and> ss_publishers_fenced (sr_stats (snd (close_session True (session, run_server H turns sv1))))
        = ss_publishers_fenced (sr_stats (run_server H turns sv1))
    \<and> sr_store (fst (server_advance_epoch e2 (run_server H turns sv1))) = sr_store (run_server H turns sv1)
    \<and> st_outcome (snd (server_advance_epoch e2 (run_server H turns sv1))) \<noteq> O_Updated"
proof -
  let ?auth = "sv_coordinator_authority (sr_options sv)" and ?sv2 = "run_server H turns sv1"
  obtain st' s where a: "advance_epoch e ?auth (sr_store sv) = (st', s)" by (cases "advance_epoch e ?auth (sr_store sv)")
  have sv1: "sr_running sv" "sv1 = sv\<lparr>sr_store := st'\<rparr>" "s = status"
    using assms(2,3) advance_epoch_cases(1) [OF a]
    by (auto simp: server_advance_epoch_def on_store_def a result_defs split: if_splits)
  have e: "wm_epoch (s_watermarks st') = e" "pi_epoch (ac_publisher ?auth) < e"
    using advance_epoch_cases(2) [OF a] assms(3) sv1(3) by auto
  have "server_moves H sv sv1"
    unfolding server_moves_def sv1
    by (intro conjI exI [of _ "[SO_advance_epoch e ?auth]"]) (simp_all add: a with_outcome_def)
  then have "store_inv H (sr_store sv1)"
    using store_ops_inv [OF assms(1)] by (auto simp: server_moves_def)
  then have "e \<le> wm_epoch (s_watermarks (sr_store ?sv2))"
    using server_moves_later [OF run_server_moves] e(1) sv1(2) by fastforce
  moreover have opt: "sr_options ?sv2 = sr_options sv"
    using run_server_moves [of H sv1 turns] by (simp add: server_moves_def sv1)
  ultimately have ne: "pi_epoch (ac_publisher ?auth) \<noteq> wm_epoch (s_watermarks (sr_store ?sv2))" using e(2) by auto
  note f = stale_fence_refused [OF ne]
  have "sr_store (snd (close_session True (session, ?sv2))) = sr_store ?sv2
    \<and> ss_publishers_fenced (sr_stats (snd (close_session True (session, ?sv2)))) = ss_publishers_fenced (sr_stats ?sv2)"
    using f by (simp add: close_session_def Let_def add_stats_def case_prod_beta no_stats_def opt)
  moreover have "sr_store (fst (server_advance_epoch e2 ?sv2)) = sr_store ?sv2
    \<and> st_outcome (snd (server_advance_epoch e2 ?sv2)) \<noteq> O_Updated"
  proof -
    obtain st2 s2 where a2: "advance_epoch e2 ?auth (sr_store ?sv2) = (st2, s2)"
      by (cases "advance_epoch e2 ?auth (sr_store ?sv2)")
    show ?thesis
      using advance_epoch_cases(1,3) [OF a2] ne
      by (simp add: server_advance_epoch_def on_store_def a2 opt Let_def)
  qed
  ultimately show ?thesis using e sv1(2) opt by simp
qed

theorem epoch_advance_disarms_witness:
  "sr_store (snd (close_session True (new_session 7,
      run_server sample_hash [] (fst (server_advance_epoch 9 sample_server)))))
    = sr_store (fst (server_advance_epoch 9 sample_server))"
proof -
  obtain sv1 status where a: "server_advance_epoch 9 sample_server = (sv1, status)"
    by (cases "server_advance_epoch 9 sample_server")
  have "store_inv sample_hash (sr_store sample_server)"
    using store_ops_inv [OF new_store_inv, of sample_hash "[SO_register sample_identity scope_fabric]" sample_limits]
    by (simp add: sample_server_def new_server_def sample_store_def with_outcome_def)
  moreover have "st_outcome (snd (server_advance_epoch 9 sample_server)) = O_Updated" by code_simp
  ultimately show ?thesis
    using epoch_advance_disarms [OF _ a, of sample_hash "[]" "new_session 7"] a by simp
qed

end
