(* ===== verification/Client.thy ===== *)
theory Client
  imports Server_Epoch
begin

text \<open>
  The publisher and query client of \<^verbatim>\<open>src/net.cpp\<close>. What the operating system answers to one call is an
  argument of it: whether \<^verbatim>\<open>send_all\<close> took the request, and for every turn of the waiting loop the clock
  and the outcome of \<^verbatim>\<open>select\<close> and \<^verbatim>\<open>recv\<close>. A call that is still waiting when these are used up is
  \<open>None\<close>.
\<close>

section \<open>State\<close>

record ClientOptions =
  cn_address :: string
  cn_port :: u16
  cn_limits :: Limits

record Client =
  ct_options :: ClientOptions
  ct_socket :: "nat option"
  ct_epoch :: CoordinatorEpoch
  ct_identity :: PublisherIdentity
  ct_input :: "byte list"

abbreviation ct_limits :: "Client \<Rightarrow> Limits" where
  "ct_limits client \<equiv> cn_limits (ct_options client)"

definition new_client :: "ClientOptions \<Rightarrow> Client" where
  "new_client options = \<lparr>ct_options = options, ct_socket = None, ct_epoch = 0,
     ct_identity = \<lparr>pi_publisher = 0, pi_boot = 0, pi_epoch = 0\<rparr>, ct_input = []\<rparr>"

text \<open>\<open>WT_Received []\<close> is a \<^verbatim>\<open>recv\<close> of no bytes: the coordinator closed the session.\<close>

datatype Wait = WT_NotReady | WT_Received "byte list" | WT_Failed

text \<open>Clock readings are in nanoseconds.\<close>

record Exchange =
  xg_sent :: bool
  xg_started :: nat
  xg_waits :: "(nat \<times> Wait) list"

section \<open>Connecting\<close>

record ConnectEvents =
  co_socket :: "nat option"
  co_inet_pton :: bool
  co_connect :: bool

definition client_connect :: "ConnectEvents \<Rightarrow> Client \<Rightarrow> Client \<times> Status" where
  "client_connect ev client =
     (if ct_socket client \<noteq> None then (client, st_failure O_MalformedRequest ''client is already connected'')
      else (case co_socket ev of
        None \<Rightarrow> (client, st_failure O_IoFailure ''cannot create the client socket'')
      | Some socket \<Rightarrow>
          if \<not> co_inet_pton ev then
            (client, st_failure O_MalformedRequest ''coordinator address must be a valid IPv4 literal'')
          else if \<not> co_connect ev then (client, st_failure O_IoFailure ''cannot connect to the coordinator'')
          else (client\<lparr>ct_socket := Some socket\<rparr>, st_ok)))"

definition client_close :: "Client \<Rightarrow> Client" where
  "client_close client = client\<lparr>ct_socket := None, ct_input := []\<rparr>"

definition connected :: "Client \<Rightarrow> bool" where
  "connected client \<longleftrightarrow> ct_socket client \<noteq> None"

section \<open>One exchange\<close>

definition kExchangeBudgetMs :: nat where "kExchangeBudgetMs = 20000"

definition request_header :: "Client \<Rightarrow> MessageId \<Rightarrow> FrameHeader" where
  "request_header client message = blank_header\<lparr>fh_message := message, fh_epoch := ct_epoch client,
     fh_publisher := pi_publisher (ct_identity client), fh_boot := pi_boot (ct_identity client), fh_attempt := 0\<rparr>"

text \<open>What the buffered input already decides: \<open>None\<close> if the response is not complete yet.\<close>

definition take_response :: "hash_fun \<Rightarrow> Limits \<Rightarrow> byte list \<Rightarrow> (byte list \<times> (Status + DecodedFrame)) option" where
  "take_response H limits buffer =
     (if length buffer < 16 then None
      else
        let frame_size = kFrameHeaderBytes + unat (load_le32 (drop 12 buffer)) + kFrameTrailerBytes
        in if frame_size > max_frame_bytes limits then
             Some (buffer, Inl (st_failure O_ResourceLimit ''coordinator response exceeds max_frame_bytes''))
           else if length buffer < frame_size then None
           else
             let decoded = decode_frame H (take frame_size buffer) limits
             in Some (drop frame_size buffer,
                  (case r_value decoded of
                     None \<Rightarrow> Inl (st_failure (r_outcome decoded) (r_detail decoded))
                   | Some frame \<Rightarrow> Inr frame)))"

fun await_response ::
    "hash_fun \<Rightarrow> Limits \<Rightarrow> nat \<Rightarrow> (nat \<times> Wait) list \<Rightarrow> byte list \<Rightarrow> (byte list \<times> (Status + DecodedFrame)) option" where
  "await_response H limits deadline [] buffer = take_response H limits buffer"
| "await_response H limits deadline ((now, wait) # waits) buffer =
     (case take_response H limits buffer of
        Some reply \<Rightarrow> Some reply
      | None \<Rightarrow>
          if now > deadline then
            Some (buffer, Inl (st_failure O_ProtocolFailure
              ''coordinator did not complete a response within the exchange budget''))
          else (case wait of
            WT_NotReady \<Rightarrow> await_response H limits deadline waits buffer
          | WT_Received chunk \<Rightarrow>
              if chunk = [] then Some (buffer, Inl (st_failure O_ProtocolFailure ''coordinator closed the session''))
              else await_response H limits deadline waits (buffer @ chunk)
          | WT_Failed \<Rightarrow> Some (buffer, Inl (st_failure O_ProtocolFailure ''coordinator session failed''))))"

definition exchange ::
    "hash_fun \<Rightarrow> MessageId \<Rightarrow> byte list \<Rightarrow> Exchange \<Rightarrow> Client \<Rightarrow> (Client \<times> (Status + DecodedFrame)) option" where
  "exchange H message payload io client =
     (if ct_socket client = None then Some (client, Inl (st_failure O_ProtocolFailure ''client is not connected''))
      else (case encode_frame H (request_header client message) payload (ct_limits client) of
        Inl status \<Rightarrow> Some (client, Inl status)
      | Inr _ \<Rightarrow>
          if \<not> xg_sent io then
            Some (client, Inl (st_failure O_ProtocolFailure ''cannot send the request to the coordinator''))
          else
            (case await_response H (ct_limits client) (xg_started io + kExchangeBudgetMs * 1000000) (xg_waits io)
                    (ct_input client) of
               None \<Rightarrow> None
             | Some (rest, reply) \<Rightarrow> Some (client\<lparr>ct_input := rest\<rparr>, reply))))"

section \<open>Calls\<close>

text \<open>
  The shape of every call: encode the payload, exchange, and read the response; a failed step is the
  result of the call.
\<close>

definition client_call ::
    "hash_fun \<Rightarrow> MessageId \<Rightarrow> Status + byte list \<Rightarrow> (byte list \<Rightarrow> 'a Result) \<Rightarrow> Exchange \<Rightarrow> Client \<Rightarrow> (Client \<times> 'a Result) option" where
  "client_call H message payload read io client =
     (case payload of
        Inl status \<Rightarrow> Some (client, r_failure (st_outcome status) (st_detail status))
      | Inr bytes \<Rightarrow>
          (case exchange H message bytes io client of
             None \<Rightarrow> None
           | Some (client, Inl status) \<Rightarrow> Some (client, r_failure (st_outcome status) (st_detail status))
           | Some (client, Inr response) \<Rightarrow> Some (client, read (df_payload response))))"

text \<open>How the publication operations read a response: the outcome and the detail are those of the coordinator.\<close>

definition read_publication :: "Limits \<Rightarrow> byte list \<Rightarrow> Publication Result" where
  "read_publication limits bytes =
     r_then (decode_response bytes limits) (\<lambda>decoded.
       if \<not> fb_has (rp_body decoded) 1 then Result (rp_outcome decoded) None (rp_detail decoded)
       else (case r_value (decode_publication_body (rp_body decoded) limits) of
         None \<Rightarrow> Result (rp_outcome decoded) None (rp_detail decoded)
       | Some publication \<Rightarrow> Result (rp_outcome decoded) (Some publication) (rp_detail decoded)))"

text \<open>How the queries read one: the body only if the outcome is \<open>O_Ok\<close>.\<close>

definition read_query :: "(FieldBag \<Rightarrow> Limits \<Rightarrow> 'a Result) \<Rightarrow> Limits \<Rightarrow> byte list \<Rightarrow> 'a Result" where
  "read_query decode limits bytes =
     r_then (decode_response bytes limits) (\<lambda>decoded.
       if rp_outcome decoded \<noteq> O_Ok then r_failure (rp_outcome decoded) (rp_detail decoded)
       else decode (rp_body decoded) limits)"

text \<open>How notifications and fences read one; a status is a result without a value.\<close>

definition read_status :: "Limits \<Rightarrow> byte list \<Rightarrow> unit Result" where
  "read_status limits bytes =
     r_then (decode_response bytes limits) (\<lambda>decoded.
       if rp_outcome decoded \<noteq> O_Ok then r_failure (rp_outcome decoded) (rp_detail decoded)
       else Result (rp_outcome decoded) None (rp_detail decoded))"

definition status_of :: "unit Result \<Rightarrow> Status" where
  "status_of r = Status (r_outcome r) (r_detail r)"

definition hello ::
    "hash_fun \<Rightarrow> RegistrationPayload \<Rightarrow> Exchange \<Rightarrow> Client \<Rightarrow> (Client \<times> HelloAckPayload Result) option" where
  "hello H rg io client =
     (case client_call H MI_Hello (encode_registration rg (ct_limits client))
             (\<lambda>bytes. decode_hello_ack bytes (ct_limits client)) io client of
        None \<Rightarrow> None
      | Some (client, ack) \<Rightarrow>
          Some
            (if \<exists>v. r_value ack = Some v \<and> ha_accepted v then
               client\<lparr>ct_epoch := pi_epoch (rg_identity rg), ct_identity := rg_identity rg\<rparr>
             else client, ack))"

definition client_watermarks :: "hash_fun \<Rightarrow> Exchange \<Rightarrow> Client \<Rightarrow> (Client \<times> DependencyWatermarks Result) option" where
  "client_watermarks H io client =
     client_call H MI_QueryWatermarks (Inr []) (read_query (\<lambda>body _. decode_watermarks_body body) (ct_limits client)) io client"

definition client_publish :: "hash_fun \<Rightarrow> PublicationPayload \<Rightarrow> Exchange \<Rightarrow> Client \<Rightarrow> (Client \<times> Publication Result) option" where
  "client_publish H p io client =
     client_call H MI_PublishProvenance (encode_publication p (ct_limits client)) (read_publication (ct_limits client)) io client"

definition client_administrative ::
    "hash_fun \<Rightarrow> MessageId \<Rightarrow> AdministrativePayload \<Rightarrow> Exchange \<Rightarrow> Client \<Rightarrow> (Client \<times> Publication Result) option" where
  "client_administrative H message p io client =
     client_call H message (encode_administrative p (ct_limits client)) (read_publication (ct_limits client)) io client"

definition client_correct :: "hash_fun \<Rightarrow> CorrectionPayload \<Rightarrow> Exchange \<Rightarrow> Client \<Rightarrow> (Client \<times> Publication Result) option" where
  "client_correct H p io client =
     client_call H MI_Correct (encode_correction p (ct_limits client)) (read_publication (ct_limits client)) io client"

definition client_declare :: "hash_fun \<Rightarrow> DeclarationPayload \<Rightarrow> Exchange \<Rightarrow> Client \<Rightarrow> (Client \<times> Publication Result) option" where
  "client_declare H p io client =
     client_call H MI_DeclareSource (encode_declaration p (ct_limits client)) (read_publication (ct_limits client)) io client"

definition client_link :: "hash_fun \<Rightarrow> LinkPayload \<Rightarrow> Exchange \<Rightarrow> Client \<Rightarrow> (Client \<times> Publication Result) option" where
  "client_link H p io client =
     client_call H MI_LinkDerivation (encode_link p (ct_limits client)) (read_publication (ct_limits client)) io client"

definition client_notify_dependency :: "hash_fun \<Rightarrow> DependencyPayload \<Rightarrow> Exchange \<Rightarrow> Client \<Rightarrow> (Client \<times> Status) option" where
  "client_notify_dependency H p io client = map_option (map_prod id status_of)
     (client_call H MI_NotifyDependency (encode_dependency p (ct_limits client)) (read_status (ct_limits client)) io client)"

definition client_fence :: "hash_fun \<Rightarrow> FencePayload \<Rightarrow> Exchange \<Rightarrow> Client \<Rightarrow> (Client \<times> Status) option" where
  "client_fence H p io client = map_option (map_prod id status_of)
     (client_call H MI_FenceNotice (encode_fence p (ct_limits client)) (read_status (ct_limits client)) io client)"

text \<open>The default query.\<close>

definition blank_query :: QueryPayload where
  "blank_query = \<lparr>qp_lineage = 0, qp_node = 0, qp_direction = TD_Outgoing,
     qp_bounds = \<lparr>tb_max_depth = 0, tb_max_results = 0, tb_max_visited = 0\<rparr>, qp_mode = EM_ImmediateCause\<rparr>"

definition client_query_lineage :: "hash_fun \<Rightarrow> RouteLineageId \<Rightarrow> Exchange \<Rightarrow> Client \<Rightarrow> (Client \<times> LineageView Result) option" where
  "client_query_lineage H lineage io client =
     client_call H MI_QueryLineage (encode_query (blank_query\<lparr>qp_lineage := lineage\<rparr>) (ct_limits client))
       (read_query decode_lineage_body (ct_limits client)) io client"

definition client_query_traversal ::
    "hash_fun \<Rightarrow> QueryPayload \<Rightarrow> Exchange \<Rightarrow> Client \<Rightarrow> (Client \<times> ProvenanceNode list Result) option" where
  "client_query_traversal H q io client =
     client_call H MI_QueryAncestry (encode_query q (ct_limits client)) (read_query decode_nodes_body (ct_limits client)) io client"

definition client_query_cause :: "hash_fun \<Rightarrow> QueryPayload \<Rightarrow> Exchange \<Rightarrow> Client \<Rightarrow> (Client \<times> Explanation Result) option" where
  "client_query_cause H q io client =
     client_call H MI_QueryCause (encode_query q (ct_limits client)) (read_query decode_explanation_body (ct_limits client)) io client"

definition client_query_snapshot :: "hash_fun \<Rightarrow> RouteLineageId \<Rightarrow> Exchange \<Rightarrow> Client \<Rightarrow> (Client \<times> Snapshot Result) option" where
  "client_query_snapshot H lineage io client =
     client_call H MI_SnapshotRequest (encode_query (blank_query\<lparr>qp_lineage := lineage\<rparr>) (ct_limits client))
       (read_query decode_snapshot_body (ct_limits client)) io client"

end
