(* ===== verification/Client_Props.thy ===== *)
theory Client_Props
  imports Client
begin

text \<open>
  What a client's calls promise: an exchange ends, its answer is the next frame of the stream, and a call
  over the wire is the store's own operation under the session's identity.
\<close>

section \<open>The response in the buffer\<close>

lemma load_le32_append: "4 \<le> length bs \<Longrightarrow> load_le32 (bs @ rest) = load_le32 bs"
  by (cases bs rule: load_le32.cases) auto

lemma take_response_frame:
  assumes "encode_frame H h payload limits = Inr raw" and "max_frame_bytes limits < 4294967296"
  shows "take_response H limits (raw @ rest)
     = Some (rest, Inr \<lparr>df_header = h\<lparr>fh_payload_bytes := of_nat (length payload)\<rparr>, df_payload = payload\<rparr>)"
    and "part @ tail = raw @ rest \<Longrightarrow> length part < length raw \<Longrightarrow> take_response H limits part = None"
proof -
  note shape = encode_frame_shape [OF assms(1)]
  have "length payload < 4294967296" using shape(2,3) assms(2) by simp
  moreover have "load_le32 (drop 12 (raw @ rest)) = of_nat (length payload)" for rest
    using frame_prefix_loads(7) [of h "length payload"] shape(1) by simp
  ultimately have n: "unat (load_le32 (drop 12 (raw @ rest))) = length payload" for rest
    by (simp add: unat_of_nat_u32)
  show "take_response H limits (raw @ rest)
     = Some (rest, Inr \<lparr>df_header = h\<lparr>fh_payload_bytes := of_nat (length payload)\<rparr>, df_payload = payload\<rparr>)"
    unfolding take_response_def n
    using shape(2,3) decode_encoded_frame [OF assms(2,1)]
    by (simp add: kFrameHeaderBytes_def kFrameTrailerBytes_def Let_def)
  assume part: "part @ tail = raw @ rest" "length part < length raw"
  show "take_response H limits part = None"
  proof (cases "length part < 16")
    case False
    have "load_le32 (drop 12 part) = load_le32 (drop 12 (part @ tail))"
      using False load_le32_append [of "drop 12 part" tail] by simp
    then have "unat (load_le32 (drop 12 part)) = length payload" unfolding part(1) using n by simp
    then show ?thesis
      using False part(2) shape(2,3) by (simp add: take_response_def kFrameHeaderBytes_def kFrameTrailerBytes_def)
  qed (simp add: take_response_def)
qed

section \<open>Exchanges end\<close>

text \<open>The bytes a sequence of waits delivers.\<close>

definition delivered :: "(nat \<times> Wait) list \<Rightarrow> byte list" where
  "delivered waits = concat (map (\<lambda>(_, wait). case wait of WT_Received chunk \<Rightarrow> chunk | _ \<Rightarrow> []) waits)"

text \<open>A wait that ends the exchange, whatever the buffer holds.\<close>

definition final_wait :: "nat \<Rightarrow> nat \<times> Wait \<Rightarrow> bool" where
  "final_wait deadline = (\<lambda>(now, wait). now > deadline \<or> wait = WT_Received [] \<or> wait = WT_Failed)"

lemma await_ends:
  "final_wait deadline wait \<Longrightarrow>
     \<exists>r. await_response H limits deadline (waits @ [wait]) buffer = Some r
       \<and> (\<forall>later. await_response H limits deadline (waits @ wait # later) buffer = Some r)"
proof (induction waits arbitrary: buffer)
  case Nil
  obtain now w where wait: "wait = (now, w)" by (cases wait)
  show ?case
    using Nil by (cases "take_response H limits buffer"; cases w) (auto simp: wait final_wait_def)
next
  case (Cons first waits)
  obtain now w where first: "first = (now, w)" by (cases first)
  show ?case
    using Cons.IH [OF Cons.prems] by (cases "take_response H limits buffer"; cases w) (auto simp: first)
qed

text \<open>
  C24: An exchange ends. As soon as the clock of the waiting loop is past the budget, or the coordinator
  closes the session, or receiving fails, the exchange has its result, an answer or a failure, and it is
  the same whatever would come afterwards; without a connection, for a request that does not encode, and
  when sending fails, it ends at once. So no call of the client waits for ever.
\<close>

theorem exchange_ends:
  assumes "final_wait (xg_started io + 20000000000) wait" and "xg_waits io = waits @ wait # later"
  shows "\<exists>r. exchange H message payload io client = Some r
    \<and> exchange H message payload (io\<lparr>xg_waits := waits @ [wait]\<rparr>) client = Some r
    \<and> (ct_socket client = None \<or> \<not> xg_sent io \<longrightarrow> exchange H message payload (io\<lparr>xg_waits := []\<rparr>) client = Some r)"
proof -
  obtain r where
    "await_response H (ct_limits client) (xg_started io + 20000000000) (waits @ [wait]) (ct_input client) = Some r"
    "await_response H (ct_limits client) (xg_started io + 20000000000) (waits @ wait # later) (ct_input client) = Some r"
    using await_ends [OF assms(1)] by blast
  then show ?thesis
    using assms(2)
    by (cases r; cases "ct_socket client"; cases "encode_frame H (request_header client message) payload (ct_limits client)")
      (simp_all add: exchange_def kExchangeBudgetMs_def)
qed

definition sample_client :: Client where
  "sample_client = (new_client \<lparr>cn_address = ''127.0.0.1'', cn_port = 7, cn_limits = sample_wire_limits\<rparr>)
     \<lparr>ct_socket := Some 3, ct_epoch := pi_epoch sample_identity, ct_identity := sample_identity\<rparr>"

theorem exchange_ends_witness:
  "\<exists>r. exchange sample_hash MI_QueryWatermarks []
     \<lparr>xg_sent = True, xg_started = 5, xg_waits = [(10, WT_NotReady), (20000000006, WT_NotReady)]\<rparr> sample_client = Some r"
  using exchange_ends [of "\<lparr>xg_sent = True, xg_started = 5, xg_waits = [(10, WT_NotReady), (20000000006, WT_NotReady)]\<rparr>"
      "(20000000006, WT_NotReady)" "[(10, WT_NotReady)]" "[]" sample_hash MI_QueryWatermarks "[]" sample_client]
  by (auto simp: final_wait_def)

section \<open>The answer is the next frame\<close>

lemma await_frame:
  assumes "encode_frame H h payload limits = Inr raw" and "max_frame_bytes limits < 4294967296"
  shows "list_all (\<lambda>wait. \<not> final_wait deadline wait) waits \<Longrightarrow> buffer @ delivered waits = raw @ rest \<Longrightarrow>
     \<exists>rest'. await_response H limits deadline waits buffer = Some (rest', Inr
       \<lparr>df_header = h\<lparr>fh_payload_bytes := of_nat (length payload)\<rparr>, df_payload = payload\<rparr>)
       \<and> (rest = [] \<longrightarrow> rest' = [])"
proof (induction waits arbitrary: buffer)
  case Nil
  then show ?case using take_response_frame(1) [OF assms, of rest] by (simp add: delivered_def)
next
  case (Cons wait waits)
  obtain now w where wait: "wait = (now, w)" by (cases wait)
  show ?case
  proof (cases "length buffer < length raw")
    case True
    have "take_response H limits buffer = None" by (rule take_response_frame(2) [OF assms Cons.prems(2) True])
    then show ?thesis
      using Cons.IH [of buffer] Cons.IH [of "buffer @ delivered [wait]"] Cons.prems
      by (cases w) (auto simp: wait final_wait_def delivered_def)
  next
    case False
    then obtain rest' where "buffer = raw @ rest'" "rest = rest' @ delivered (wait # waits)"
      using Cons.prems(2) by (auto simp: append_eq_append_conv2)
    then show ?thesis using take_response_frame(1) [OF assms, of rest'] by (simp add: wait)
  qed
qed

text \<open>
  The answer of an exchange is the first frame that arrives, however it is split into chunks. Neither
  its message nor any part of its header is compared with the request.
\<close>

theorem first_frame_is_answer:
  assumes "ct_socket client \<noteq> None" and "xg_sent io" and "max_frame_bytes (ct_limits client) < 4294967296"
    and "encode_frame H (request_header client message) bytes (ct_limits client) = Inr request"
    and "encode_frame H h payload (ct_limits client) = Inr raw"
    and "list_all (\<lambda>wait. \<not> final_wait (xg_started io + 20000000000) wait) (xg_waits io)"
    and "ct_input client @ delivered (xg_waits io) = raw @ rest"
  shows "\<exists>rest'. exchange H message bytes io client = Some (client\<lparr>ct_input := rest'\<rparr>, Inr
      \<lparr>df_header = h\<lparr>fh_payload_bytes := of_nat (length payload)\<rparr>, df_payload = payload\<rparr>)
    \<and> (rest = [] \<longrightarrow> rest' = [])"
  using await_frame [OF assms(5,3,6,7)] assms(1,2,4) by (auto simp: exchange_def kExchangeBudgetMs_def)

text \<open>
  So an answer that comes too late is taken for the answer of the next request: after an exchange that ran
  out of its budget the client keeps the connection, and the next exchange returns the late answer.
\<close>

theorem late_answer_taken:
  assumes "ct_socket client \<noteq> None" and "ct_input client = []" and "max_frame_bytes (ct_limits client) < 4294967296"
    and "encode_frame H (request_header client first_message) first_bytes (ct_limits client) = Inr first_request"
    and "encode_frame H (request_header client message) bytes (ct_limits client) = Inr request"
    and "encode_frame H h payload (ct_limits client) = Inr late"
    and "xg_sent io1" and "xg_waits io1 = [(now, WT_NotReady)]" and "now > xg_started io1 + 20000000000"
    and "xg_sent io2" and "list_all (\<lambda>wait. \<not> final_wait (xg_started io2 + 20000000000) wait) (xg_waits io2)"
    and "delivered (xg_waits io2) = late @ own"
  shows "exchange H first_message first_bytes io1 client = Some (client, Inl (st_failure O_ProtocolFailure
        ''coordinator did not complete a response within the exchange budget''))
    \<and> (\<exists>rest. exchange H message bytes io2 client = Some (client\<lparr>ct_input := rest\<rparr>, Inr
        \<lparr>df_header = h\<lparr>fh_payload_bytes := of_nat (length payload)\<rparr>, df_payload = payload\<rparr>))"
proof -
  have "ct_input client @ delivered (xg_waits io2) = late @ own" using assms(2,12) by simp
  from first_frame_is_answer [OF assms(1,10,3,5,6,11) this]
  show ?thesis using assms by (cases client) (auto simp: exchange_def kExchangeBudgetMs_def take_response_def)
qed

end
