(* ===== verification/Remote.thy ===== *)
theory Remote
  imports Client_Props
begin

text \<open>
  Client and coordinator together: a call over the wire has the effect and the result of the store's own
  operation. The contract of a call is a locale; every call of the client interprets it.
\<close>

section \<open>Replies\<close>

text \<open>A response that fits a frame, and its arrival as the one buffer sent.\<close>

definition fits :: "Limits \<Rightarrow> ResponsePayload \<Rightarrow> bool" where
  "fits limits response \<longleftrightarrow> fb_ok (rp_body response)
     \<and> length (fb_encoded (response_bag response)) + 96 \<le> max_frame_bytes limits"

definition replied :: "hash_fun \<Rightarrow> SessionState \<Rightarrow> Server \<Rightarrow> ResponsePayload \<Rightarrow> Server \<Rightarrow> bool" where
  "replied H session sv response sv' \<longleftrightarrow> sr_store sv' = sr_store sv \<and>
     (\<exists>h raw. encode_frame H h (fb_encoded (response_bag response)) (sr_limits sv) = Inr raw
       \<and> sr_sent sv' = sr_sent sv @ [(se_socket session, raw, True)])"

definition publication_reply :: "Publication Result \<Rightarrow> ResponsePayload" where
  "publication_reply result = answer (r_outcome result) (r_detail result)
     (case r_value result of Some p \<Rightarrow> publication_body p fb_empty | None \<Rightarrow> fb_empty)"

definition query_reply :: "('a \<Rightarrow> FieldBag \<Rightarrow> FieldBag) \<Rightarrow> 'a Result \<Rightarrow> ResponsePayload" where
  "query_reply body_of result = (case r_value result of
     None \<Rightarrow> answer (r_outcome result) (r_detail result) fb_empty
   | Some v \<Rightarrow> answer O_Ok [] (body_of v fb_empty))"

definition status_reply :: "Status \<Rightarrow> ResponsePayload" where
  "status_reply status = answer (st_outcome status) (st_detail status) fb_empty"

lemma response_bag_ok [simp]: "fb_ok (response_bag response)"
  by (simp add: response_bag_def fb_set_defs)

lemma response_header_ok [simp]:
  "fh_protocol_version (response_header request message) = kWireProtocolVersion"
  "fh_flags (response_header request message) = 0"
  by (simp_all add: response_header_def blank_header_def)

lemma fits_encoded:
  assumes "fits limits response" and "max_frame_bytes limits < 4294967296"
  shows "encode_response response limits = Inr (fb_encoded (response_bag response))"
    and "fb_decode (fb_encoded (response_bag response)) limits = r_ok (response_bag response)"
    and "decode_response (fb_encoded (response_bag response)) limits = r_ok response"
proof -
  show e: "encode_response response limits = Inr (fb_encoded (response_bag response))"
    using assms(1) by (simp add: fits_def encode_response_def encode_bag_def)
  show "fb_decode (fb_encoded (response_bag response)) limits = r_ok (response_bag response)"
    using assms by (intro fb_decode_encoded) (simp_all add: fits_def)
  show "decode_response (fb_encoded (response_bag response)) limits = r_ok response"
    using response.arrives [OF assms(2) _ e [unfolded encode_response_def]] assms(1)
    by (simp add: response_wire_ok_def fits_def)
qed

lemma send_frame_replied:
  assumes "fits (sr_limits sv) response" and "tx (length (sr_sent sv))"
    and "fh_protocol_version header = kWireProtocolVersion" and "fh_flags header = 0"
  shows "replied H session sv response (snd (send_frame H tx session header (response_bag response) sv))"
proof -
  obtain raw where "encode_frame H header (fb_encoded (response_bag response)) (sr_limits sv) = Inr raw"
    using encode_frame_fits [OF assms(3,4), of "fb_encoded (response_bag response)" "sr_limits sv" H] assms(1) by (auto simp: fits_def)
  then show ?thesis using assms(2) by (auto simp: send_frame_def replied_def add_stats_def Let_def)
qed

lemma replied_add_stats: "replied H session sv response sv' \<Longrightarrow> replied H session sv response (add_stats delta sv')"
  by (simp add: replied_def add_stats_def)

text \<open>The next call of \<^verbatim>\<open>send_all\<close> succeeds.\<close>

definition can_send :: "(nat \<Rightarrow> bool) \<Rightarrow> Server \<Rightarrow> bool" where
  "can_send tx sv \<longleftrightarrow> max_frame_bytes (sr_limits sv) < 4294967296 \<and> tx (length (sr_sent sv))"

lemma send_frame_sent:
  "fits (sr_limits sv) response \<Longrightarrow> can_send tx sv \<Longrightarrow>
     replied H session sv response
       (snd (send_frame H tx session (response_header request message) (response_bag response) sv))"
  by (simp add: send_frame_replied can_send_def)

lemma send_error_replied:
  "can_send tx sv \<Longrightarrow> fits (sr_limits sv) (answer out det fb_empty) \<Longrightarrow>
     replied H session sv (answer out det fb_empty) (snd (send_error H tx session request out det sv))"
  using fits_encoded [of "sr_limits sv" "answer out det fb_empty"] by (simp add: send_error_def send_frame_sent can_send_def [of tx sv])

lemma send_result_replied:
  "can_send tx sv \<Longrightarrow> fits (sr_limits sv) response \<Longrightarrow>
     replied H session sv response (send_result H tx session header delta response sv)"
  using fits_encoded [of "sr_limits sv" response] by (simp add: send_result_def send_frame_sent replied_add_stats can_send_def [of tx sv])

lemma publish_response_replied:
  "can_send tx sv \<Longrightarrow> fits (sr_limits sv) (publication_reply result) \<Longrightarrow>
     replied H session sv (publication_reply result) (publish_response H tx session header result sv)"
  using send_result_replied send_error_replied
  by (auto simp: publish_response_def publication_reply_def r_has_value_def)

lemma query_response_replied:
  "can_send tx sv \<Longrightarrow> fits (sr_limits sv) (answer out det body) \<Longrightarrow>
     det \<noteq> [] \<and> \<not> outcome_is_commit out \<longrightarrow> body = fb_empty \<Longrightarrow>
     replied H session sv (answer out det body) (query_response H tx session header out det body sv)"
  using send_result_replied send_error_replied by (auto simp: query_response_def)

lemma serve_query_replied:
  "can_send tx sv \<Longrightarrow> fits (sr_limits sv) (query_reply body_of result) \<Longrightarrow>
     replied H session sv (query_reply body_of result) (serve_query H tx session header result body_of sv)"
  using query_response_replied send_error_replied
  by (auto simp: serve_query_def query_reply_def split: option.splits)

section \<open>One request\<close>

text \<open>A connected client and its registered session, with nothing under way.\<close>

definition paired :: "Client \<Rightarrow> SessionState \<Rightarrow> Server \<Rightarrow> bool" where
  "paired client session sv \<longleftrightarrow> ct_socket client \<noteq> None \<and> ct_input client = [] \<and> ct_limits client = sr_limits sv
     \<and> ct_identity client = se_identity session \<and> se_registered session \<and> \<not> se_closing session
     \<and> se_input session = [] \<and> max_frame_bytes (sr_limits sv) < 4294967296"

text \<open>A connected client and the session accepted for it, with nothing under way.\<close>

definition met :: "Client \<Rightarrow> SessionState \<Rightarrow> Server \<Rightarrow> bool" where
  "met client session sv \<longleftrightarrow> ct_socket client \<noteq> None \<and> ct_input client = [] \<and> ct_limits client = sr_limits sv
     \<and> \<not> se_closing session \<and> se_input session = [] \<and> max_frame_bytes (sr_limits sv) < 4294967296"

lemma paired_met: "paired client session sv \<Longrightarrow> met client session sv"
  by (simp add: paired_def met_def)

definition greeting :: "MessageId \<Rightarrow> bool" where
  "greeting m \<longleftrightarrow> m \<in> {MI_Ping, MI_Bye, MI_Hello, MI_RegisterPublisher}"

lemma serve_one:
  assumes "paired client session sv" and "\<not> greeting message" and "length bytes < 65536"
    and "encode_frame H (request_header client message) bytes (sr_limits sv) = Inr request"
  shows "process_input H tx now (session\<lparr>se_input := request\<rparr>) sv =
    (session\<lparr>se_assembling := False\<rparr>,
     serve_request H tx (session\<lparr>se_assembling := False\<rparr>)
       ((request_header client message)\<lparr>fh_payload_bytes := of_nat (length bytes)\<rparr>) bytes
       (add_stats (no_stats\<lparr>ss_frames_received := 1\<rparr>) sv))"
proof -
  let ?h = "(request_header client message)\<lparr>fh_payload_bytes := of_nat (length bytes)\<rparr>"
  let ?frame = "\<lparr>df_header = ?h, df_payload = bytes\<rparr>" and ?s = "session\<lparr>se_input := request\<rparr>"
  note p = assms(1) [unfolded paired_def]
  have "sent_frame H (sr_limits sv) request ?frame" using assms(3,4) by (auto simp: sent_frame_def)
  then have ready: "frame_ready ?s sv" "r_value (next_frame H ?s sv) = Some ?frame"
    "drop (peek_frame_size (se_input ?s)) (se_input ?s) = []"
    using sent_frame_ready [of H sv request ?frame ?s "[]"] p by simp_all
  have next_s: "next_session ?s = session\<lparr>se_assembling := False\<rparr>"
    using ready(3) p by (cases session) (simp add: next_session_def)
  let ?served = "serve_request H tx (session\<lparr>se_assembling := False\<rparr>) ?h bytes (add_stats (no_stats\<lparr>ss_frames_received := 1\<rparr>) sv)"
  have "handle_frame H tx ?frame (next_session ?s, sv) = (session\<lparr>se_assembling := False\<rparr>, ?served)"
    using assms(2) p by (simp add: handle_frame_def next_s greeting_def request_header_def Let_def)
  note process_input_frame [OF ready(1,2) this, of now]
  moreover have "waiting (session\<lparr>se_assembling := False\<rparr>) ?served" using p by (simp add: waiting_def)
  ultimately show ?thesis using p by (simp add: process_input_waiting)
qed

text \<open>
  A call is as good as local: if its payload encodes, its frame fits and its result fits a response, the
  coordinator runs the operation on its store and sends one buffer, and the client that receives this
  buffer within its budget, in whatever chunks, has the operation's result.
\<close>

definition remote_as_local ::
    "hash_fun \<Rightarrow> (nat \<Rightarrow> bool) \<Rightarrow> nat \<Rightarrow> Client \<Rightarrow> SessionState \<Rightarrow> Server \<Rightarrow> MessageId \<Rightarrow> Status + byte list
     \<Rightarrow> (Store \<Rightarrow> Store \<times> 'b) \<Rightarrow> (Limits \<Rightarrow> 'b \<Rightarrow> bool) \<Rightarrow> (Exchange \<Rightarrow> (Client \<times> 'c) option) \<Rightarrow> ('b \<Rightarrow> 'c) \<Rightarrow> bool" where
  "remote_as_local H tx now client session sv message payload operation carried call result \<longleftrightarrow>
     (\<forall>bytes request. payload = Inr bytes \<longrightarrow> length bytes < 65536 \<longrightarrow>
        encode_frame H (request_header client message) bytes (ct_limits client) = Inr request \<longrightarrow>
        carried (ct_limits client) (snd (operation (sr_store sv))) \<longrightarrow>
        (case process_input H tx now (session\<lparr>se_input := request\<rparr>) sv of (session', sv') \<Rightarrow>
           session' = session\<lparr>se_assembling := False\<rparr> \<and> sr_store sv' = fst (operation (sr_store sv))
           \<and> (\<exists>raw. raw \<noteq> [] \<and> sr_sent sv' = sr_sent sv @ [(se_socket session, raw, True)]
               \<and> (\<forall>io. xg_sent io \<longrightarrow> delivered (xg_waits io) = raw \<longrightarrow>
                    list_all (\<lambda>wait. \<not> final_wait (xg_started io + 20000000000) wait) (xg_waits io) \<longrightarrow>
                    call io = Some (client, result (snd (operation (sr_store sv))))))))"

lemma client_reads:
  assumes "met client session sv" and "payload = Inr bytes"
    and "encode_frame H (request_header client message) bytes (sr_limits sv) = Inr request"
    and "encode_frame H h answered (sr_limits sv) = Inr raw"
    and "xg_sent io" and "delivered (xg_waits io) = raw"
    and "list_all (\<lambda>wait. \<not> final_wait (xg_started io + 20000000000) wait) (xg_waits io)"
  shows "client_call H message payload read io client = Some (client, read answered)"
proof -
  note p = assms(1) [unfolded met_def]
  have bound: "max_frame_bytes (sr_limits sv) < 4294967296" using p by simp
  have "[] @ delivered (xg_waits io) = raw @ []" using assms(6) by simp
  from await_frame [OF assms(4) bound assms(7) this]
  show ?thesis using p assms(2,3,5) by (cases client) (auto simp: client_call_def exchange_def kExchangeBudgetMs_def)
qed

locale remote_call = payload_codec bag_of decode wire_ok received
  for bag_of :: "'a \<Rightarrow> FieldBag" and decode :: "byte list \<Rightarrow> Limits \<Rightarrow> 'a Result"
    and wire_ok :: "Limits \<Rightarrow> 'a \<Rightarrow> bool" and received :: "'a \<Rightarrow> 'a" +
  fixes accepts :: "MessageId \<Rightarrow> bool"
    and operation :: "hash_fun \<Rightarrow> MessageId \<Rightarrow> PublisherIdentity \<Rightarrow> 'a \<Rightarrow> Store \<Rightarrow> Store \<times> 'b"
    and reply :: "'b \<Rightarrow> ResponsePayload" and carried :: "Limits \<Rightarrow> 'b \<Rightarrow> bool"
    and read :: "Limits \<Rightarrow> byte list \<Rightarrow> 'c Result" and result :: "'b \<Rightarrow> 'c Result"
  assumes accepted: "accepts m \<Longrightarrow> \<not> greeting m"
    and carried_fits: "carried limits v \<Longrightarrow> fits limits (reply v)"
    and served: "accepts (fh_message header) \<Longrightarrow> can_send tx sv \<Longrightarrow>
      r_value (decode payload (sr_limits sv)) = Some p \<Longrightarrow>
      operation H (fh_message header) (se_identity session) p (sr_store sv) = (st', v) \<Longrightarrow>
      fits (sr_limits sv) (reply v) \<Longrightarrow>
      replied H session (sv\<lparr>sr_store := st'\<rparr>) (reply v) (serve_request H tx session header payload sv)"
    and read_reply: "max_frame_bytes limits < 4294967296 \<Longrightarrow> carried limits v \<Longrightarrow>
      read limits (fb_encoded (response_bag (reply v))) = result v"
begin

lemma remote:
  assumes "paired client session sv" and "tx (length (sr_sent sv))" and "accepts message"
    and "wire_ok (ct_limits client) p"
  shows "remote_as_local H tx now client session sv message (encode_bag (bag_of p) (ct_limits client))
     (operation H message (se_identity session) (received p)) carried
     (\<lambda>io. client_call H message (encode_bag (bag_of p) (ct_limits client)) (read (ct_limits client)) io client) result"
  unfolding remote_as_local_def
proof (intro allI impI)
  fix bytes request :: "byte list"
  let ?op = "operation H message (se_identity session) (received p)"
  let ?sv = "add_stats (no_stats\<lparr>ss_frames_received := 1\<rparr>) sv" and ?s = "session\<lparr>se_assembling := False\<rparr>"
  let ?h = "(request_header client message)\<lparr>fh_payload_bytes := of_nat (length bytes)\<rparr>"
  obtain st' v where op: "?op (sr_store sv) = (st', v)" by (cases "?op (sr_store sv)")
  assume bytes: "encode_bag (bag_of p) (ct_limits client) = Inr bytes" "length bytes < 65536"
    and request: "encode_frame H (request_header client message) bytes (ct_limits client) = Inr request"
    and carried: "carried (ct_limits client) (snd (?op (sr_store sv)))"
  note pr = assms(1) [unfolded paired_def]
  have lim: "ct_limits client = sr_limits sv" "max_frame_bytes (sr_limits sv) < 4294967296" using pr by simp_all
  have frame: "encode_frame H (request_header client message) bytes (sr_limits sv) = Inr request"
    using request lim(1) by simp
  have v: "carried (sr_limits sv) v" using carried op lim(1) by simp
  have sv: "sr_store ?sv = sr_store sv" "sr_options ?sv = sr_options sv" "sr_sent ?sv = sr_sent sv"
    by (simp_all add: add_stats_def)
  let ?sv' = "serve_request H tx ?s ?h bytes ?sv"
  have run: "process_input H tx now (session\<lparr>se_input := request\<rparr>) sv = (?s, ?sv')"
    by (rule serve_one [OF assms(1) accepted [OF assms(3)] bytes(2) frame])
  have "decode bytes (sr_limits sv) = r_ok (received p)"
    using arrives [OF _ assms(4) bytes(1)] lim by simp
  then have "replied H ?s (?sv\<lparr>sr_store := st'\<rparr>) (reply v) ?sv'"
    using served [of ?h tx ?sv bytes "received p" H ?s st' v] assms(2,3) op carried_fits [OF v] lim(2)
    by (simp add: sv can_send_def request_header_def)
  then obtain h raw where reply: "sr_store ?sv' = st'" "sr_sent ?sv' = sr_sent sv @ [(se_socket session, raw, True)]"
    "encode_frame H h (fb_encoded (response_bag (reply v))) (sr_limits sv) = Inr raw"
    by (auto simp: replied_def sv)
  note call = client_reads [where read = "read (sr_limits sv)", OF paired_met [OF assms(1)] bytes(1) frame reply(3), unfolded read_reply [OF lim(2) v]]
  show "case process_input H tx now (session\<lparr>se_input := request\<rparr>) sv of (session', sv') \<Rightarrow>
     session' = ?s \<and> sr_store sv' = fst (?op (sr_store sv))
     \<and> (\<exists>raw. raw \<noteq> [] \<and> sr_sent sv' = sr_sent sv @ [(se_socket session, raw, True)]
         \<and> (\<forall>io. xg_sent io \<longrightarrow> delivered (xg_waits io) = raw \<longrightarrow>
              list_all (\<lambda>wait. \<not> final_wait (xg_started io + 20000000000) wait) (xg_waits io) \<longrightarrow>
              client_call H message (encode_bag (bag_of p) (ct_limits client)) (read (ct_limits client)) io client
                = Some (client, result (snd (?op (sr_store sv))))))"
    using reply(1,2) call encode_frame_shape(2) [OF reply(3)] by (auto simp: run op lim(1))
qed

end

section \<open>Every call of the client\<close>

definition publication_carried :: "Limits \<Rightarrow> Publication Result \<Rightarrow> bool" where
  "publication_carried limits result \<longleftrightarrow> fits limits (publication_reply result)
     \<and> (\<forall>p. r_value result = Some p \<longrightarrow> publication_body_ok limits p)"

definition status_carried :: "Limits \<Rightarrow> Status \<Rightarrow> bool" where
  "status_carried limits status \<longleftrightarrow> fits limits (status_reply status)"

definition query_carried ::
    "('a \<Rightarrow> FieldBag \<Rightarrow> FieldBag) \<Rightarrow> (Limits \<Rightarrow> 'a \<Rightarrow> bool) \<Rightarrow> Limits \<Rightarrow> 'a Result \<Rightarrow> bool" where
  "query_carried body_of ok limits result \<longleftrightarrow> fits limits (query_reply body_of result)
     \<and> (case r_value result of Some v \<Rightarrow> ok limits v | None \<Rightarrow> r_outcome result \<noteq> O_Ok)"

text \<open>What a query returns to the client: the value alone, or the failure.\<close>

definition query_result :: "('a \<Rightarrow> 'b) \<Rightarrow> 'a Result \<Rightarrow> 'b Result" where
  "query_result f result = (case r_value result of
     Some v \<Rightarrow> r_ok (f v) | None \<Rightarrow> r_failure (r_outcome result) (r_detail result))"

definition status_result :: "Status \<Rightarrow> unit Result" where
  "status_result status = Result (st_outcome status) None (st_detail status)"

lemma publication_read:
  assumes "max_frame_bytes limits < 4294967296" and "publication_carried limits result"
  shows "read_publication limits (fb_encoded (response_bag (publication_reply result))) = result"
proof -
  have has: "fb_has (publication_body p fb_empty) 1" for p by (simp add: publication_body_def fb_set_defs)
  show ?thesis
    using assms fits_encoded(3) [OF _ assms(1)] publication_answer.decodes has
    by (cases result) (auto simp: read_publication_def publication_carried_def publication_reply_def answer_def
        split: option.splits)
qed

lemma status_read:
  assumes "max_frame_bytes limits < 4294967296" and "status_carried limits status"
  shows "read_status limits (fb_encoded (response_bag (status_reply status))) = status_result status"
  using assms fits_encoded(3) [OF _ assms(1)]
  by (auto simp: read_status_def status_carried_def status_reply_def answer_def status_result_def r_failure_def)

lemma query_read:
  assumes "max_frame_bytes limits < 4294967296" and "query_carried body_of ok limits result"
    and "\<And>v. ok limits v \<Longrightarrow> decode (body_of v fb_empty) limits = r_ok (f v)"
  shows "read_query decode limits (fb_encoded (response_bag (query_reply body_of result))) = query_result f result"
  using assms(2,3) fits_encoded(3) [OF _ assms(1)]
  by (cases result) (auto simp: read_query_def query_carried_def query_reply_def answer_def query_result_def
      split: option.splits)

text \<open>What the coordinator does with a request that decodes.\<close>

lemma operation_replied:
  assumes "can_send tx sv" and "operation (sr_store sv) = (st', v)" and "fits (sr_limits sv) (publication_reply v)"
  shows "replied H session (sv\<lparr>sr_store := st'\<rparr>) (publication_reply v) (serve_operation H tx session header operation sv)"
  using publish_response_replied [of tx "sv\<lparr>sr_store := st'\<rparr>" v] assms
  by (simp add: serve_operation_def on_store_def can_send_def)

lemma status_replied:
  assumes "can_send tx sv" and "operation (sr_store sv) = (st', v)" and "fits (sr_limits sv) (status_reply v)"
  shows "replied H session (sv\<lparr>sr_store := st'\<rparr>) (status_reply v) (serve_status H tx session header operation sv)"
  using query_response_replied [of tx "sv\<lparr>sr_store := st'\<rparr>" "st_outcome v" "st_detail v" fb_empty]
    send_error_replied [of tx "sv\<lparr>sr_store := st'\<rparr>" "st_outcome v" "st_detail v"] assms
  by (simp add: serve_status_def on_store_def can_send_def status_reply_def)

lemmas remote_defs = serve_request_def serve_query_request_def with_request_def greeting_def Let_def

interpretation remote_publish: remote_call publication_bag decode_publication publication_wire_ok publication_received
  "\<lambda>m. m \<in> {MI_PublishProvenance, MI_Supersede}" "\<lambda>H m identity p. publish_route H (publication_request m identity p)"
  publication_reply publication_carried read_publication "\<lambda>r. r"
  by unfold_locales (auto simp: remote_defs publication_read publication_carried_def operation_replied)

interpretation remote_administrative: remote_call administrative_bag decode_administrative administrative_wire_ok id
  "\<lambda>m. m \<in> {MI_Withdraw, MI_Revoke, MI_Retire, MI_Revalidate, MI_Invalidate}"
  "\<lambda>H m identity p. administrative_operation H m (administrative_request identity p)"
  publication_reply publication_carried read_publication "\<lambda>r. r"
  by unfold_locales (auto simp: remote_defs publication_read publication_carried_def operation_replied)

interpretation remote_correct: remote_call correction_bag decode_correction correction_wire_ok id
  "\<lambda>m. m = MI_Correct" "\<lambda>H m identity p. correct_record H (correction_request identity p)"
  publication_reply publication_carried read_publication "\<lambda>r. r"
  by unfold_locales (auto simp: remote_defs publication_read publication_carried_def operation_replied)

interpretation remote_declare: remote_call declaration_bag decode_declaration declaration_wire_ok id
  "\<lambda>m. m = MI_DeclareSource" "\<lambda>H m identity p. declare_record H (declaration_request identity p)"
  publication_reply publication_carried read_publication "\<lambda>r. r"
  by unfold_locales (auto simp: remote_defs publication_read publication_carried_def operation_replied)

interpretation remote_link: remote_call link_bag decode_link link_wire_ok id
  "\<lambda>m. m = MI_LinkDerivation" "\<lambda>H m identity p. link_derivation H (link_request identity p)"
  publication_reply publication_carried read_publication "\<lambda>r. r"
  by unfold_locales (auto simp: remote_defs publication_read publication_carried_def operation_replied)

interpretation remote_notify: remote_call dependency_bag decode_dependency dependency_wire_ok id
  "\<lambda>m. m = MI_NotifyDependency" "\<lambda>H m identity p. notify_dependency (dependency_request identity p)"
  status_reply status_carried read_status status_result
  by unfold_locales (auto simp: remote_defs status_read status_carried_def status_replied)

interpretation remote_fence: remote_call fence_bag decode_fence fence_wire_ok id
  "\<lambda>m. m = MI_FenceNotice" "\<lambda>H m identity p. fence_publisher (fp_publisher p) (fp_boot p) (fp_authority p)"
  status_reply status_carried read_status status_result
  by unfold_locales (auto simp: remote_defs status_read status_carried_def status_replied)

interpretation remote_lineage: remote_call query_bag decode_query query_wire_ok id
  "\<lambda>m. m = MI_QueryLineage" "\<lambda>H m identity q st. (st, lineage_view H (qp_lineage q) st)"
  "query_reply lineage_body" "query_carried lineage_body lineage_body_ok" "read_query decode_lineage_body" "query_result id"
  by unfold_locales
    (auto simp: remote_defs query_carried_def lineage_answer.decodes serve_query_replied
      intro: query_read [where ok = lineage_body_ok])

definition query_traversal :: "QueryPayload \<Rightarrow> Store \<Rightarrow> TraversalResult Result" where
  "query_traversal q st = (if qp_direction q = TD_Outgoing then ancestors (qp_node q) (qp_bounds q) st
     else descendants (qp_node q) (qp_bounds q) st)"

abbreviation traversal_body :: "TraversalResult \<Rightarrow> FieldBag \<Rightarrow> FieldBag" where
  "traversal_body t \<equiv> nodes_body (map fst (tr_nodes t))"

abbreviation traversal_body_ok :: "Limits \<Rightarrow> TraversalResult \<Rightarrow> bool" where
  "traversal_body_ok limits t \<equiv> nodes_body_ok limits (map fst (tr_nodes t))"

interpretation remote_traversal: remote_call query_bag decode_query query_wire_ok id
  "\<lambda>m. m = MI_QueryAncestry" "\<lambda>H m identity q st. (st, query_traversal q st)"
  "query_reply traversal_body" "query_carried traversal_body traversal_body_ok"
  "read_query decode_nodes_body" "query_result (\<lambda>t. map fst (tr_nodes t))"
  by unfold_locales
    (auto simp: remote_defs query_carried_def nodes_answer.decodes serve_query_replied query_traversal_def [symmetric]
      intro: query_read [where ok = traversal_body_ok])

definition query_explanation :: "hash_fun \<Rightarrow> QueryPayload \<Rightarrow> Store \<Rightarrow> Explanation Result" where
  "query_explanation H q st = explain H \<lparr>xr_subject = qp_node q, xr_mode = qp_mode q,
     xr_max_depth = tb_max_depth (qp_bounds q), xr_max_nodes = tb_max_results (qp_bounds q)\<rparr> st"

interpretation remote_cause: remote_call query_bag decode_query query_wire_ok id
  "\<lambda>m. m = MI_QueryCause" "\<lambda>H m identity q st. (st, query_explanation H q st)"
  "query_reply explanation_body" "query_carried explanation_body explanation_body_ok"
  "read_query decode_explanation_body" "query_result id"
  by unfold_locales
    (auto simp: remote_defs query_carried_def explanation_answer.decodes serve_query_replied query_explanation_def [symmetric]
      intro: query_read [where ok = explanation_body_ok])

definition query_snapshot :: "hash_fun \<Rightarrow> QueryPayload \<Rightarrow> Store \<Rightarrow> Snapshot Result" where
  "query_snapshot H q st = snapshot H (qp_lineage q) \<lparr>so_include_edges = True, so_include_historical = True,
     so_max_nodes = tb_max_results (qp_bounds q), so_max_edges = 0\<rparr> st"

interpretation remote_snapshot: remote_call query_bag decode_query query_wire_ok id
  "\<lambda>m. m = MI_SnapshotRequest" "\<lambda>H m identity q st. (st, query_snapshot H q st)"
  "query_reply snapshot_body" "query_carried snapshot_body snapshot_body_ok"
  "read_query decode_snapshot_body" "query_result id"
  by unfold_locales
    (auto simp: remote_defs query_carried_def snapshot_answer.decodes serve_query_replied query_snapshot_def [symmetric]
      intro: query_read [where ok = snapshot_body_ok])

text \<open>The watermarks are asked for without a payload.\<close>

interpretation remote_watermarks: remote_call "\<lambda>_. fb_empty" "\<lambda>_ _. r_ok ()" "\<lambda>_ _. True" id
  "\<lambda>m. m = MI_QueryWatermarks" "\<lambda>H m identity _ st. (st, watermarks H st)"
  "query_reply watermarks_body" "query_carried watermarks_body (\<lambda>_ _. True)"
  "read_query (\<lambda>body _. decode_watermarks_body body)" "query_result id"
  by unfold_locales
    (auto simp: remote_defs query_carried_def watermarks_answer.decodes serve_query_replied
      intro: query_read [where ok = "\<lambda>_ _. True"])

section \<open>Calls over the wire are calls of the store\<close>

lemma remote_as_local_map:
  "remote_as_local H tx now client session sv message payload operation carried call result \<Longrightarrow>
     remote_as_local H tx now client session sv message payload operation carried
       (\<lambda>io. map_option (map_prod id f) (call io)) (\<lambda>v. f (result v))"
  unfolding remote_as_local_def by (fastforce split: prod.splits)

lemma status_of_result [simp]: "status_of (status_result status) = status"
  by (simp add: status_of_def status_result_def)

lemma encode_empty: "encode_bag fb_empty limits = Inr []"
  by (simp add: encode_bag_def fb_empty_def)

lemmas client_defs = client_publish_def client_administrative_def client_correct_def client_declare_def client_link_def
  client_notify_dependency_def client_fence_def client_watermarks_def client_query_lineage_def
  client_query_traversal_def client_query_cause_def client_query_snapshot_def encode_publication_def
  encode_administrative_def encode_correction_def encode_declaration_def encode_link_def encode_dependency_def
  encode_fence_def encode_query_def



section \<open>The theorems on a concrete pair\<close>

definition sample_session :: SessionState where
  "sample_session = (new_session 7)\<lparr>se_registered := True, se_identity := sample_identity\<rparr>"

definition sample_remote :: PublicationPayload where
  "sample_remote = sample_publication\<lparr>pp_edges := []\<rparr>"

abbreviation sample_operation :: "Store \<Rightarrow> Store \<times> Publication Result" where
  "sample_operation \<equiv> publish_route sample_hash
     (publication_request MI_PublishProvenance sample_identity (publication_received sample_remote))"

lemma sample_paired: "paired sample_client sample_session sample_server"
  by (simp add: paired_def sample_client_def sample_session_def new_session_def new_client_def sample_wire_limits_def)

lemma sample_outcome: "r_outcome (snd (sample_operation sample_store)) = O_Created"
  "r_detail (snd (sample_operation sample_store)) = []"
  "map_option p_edges (r_value (snd (sample_operation sample_store))) = Some []"
  by code_simp+

lemma response_length:
  assumes "length (fb_encoded body) \<le> 300"
  shows "length (fb_encoded (response_bag (answer out [] body))) \<le> 500"
proof -
  have "length (fb_encoded (fb_set_bytes 2 [] (fb_set_bytes 1 (store_le16 (outcome_code out)) fb_empty))) \<le> 20"
    by (simp add: wire_size)
  then show ?thesis using assms fb_set_bytes_le
    by (simp add: response_bag_def answer_def fb_set_defs string_bytes_def)
qed

lemma sample_carried: "publication_carried sample_wire_limits (snd (sample_operation sample_store))"
proof -
  obtain p where p: "r_value (snd (sample_operation sample_store)) = Some p" "p_edges p = []"
    using sample_outcome(3) by auto
  have "length (fb_encoded (publication_body p fb_empty)) \<le> 300"
    by (simp add: publication_body_def wire_size p(2) wr_list_u64)
  then have "length (fb_encoded (response_bag (answer O_Created [] (publication_body p fb_empty)))) \<le> 500"
    by (rule response_length)
  then show ?thesis
    by (simp add: publication_carried_def publication_reply_def sample_outcome p fits_def sample_wire_limits_def
        publication_body_ok_def publication_answer.body_ok answer_def)
qed

lemma sample_remote_encoded:
  "\<exists>bytes. encode_publication sample_remote sample_wire_limits = Inr bytes \<and> length bytes \<le> 500"
proof -
  have "length (fb_encoded (publication_bag sample_remote)) \<le> 500"
    by (simp add: publication_bag_def wire_size sample_remote_def sample_publication_def sample_key_def no_bindings_def)
  then show ?thesis by (simp add: encode_publication_def encode_bag_def sample_wire_limits_def)
qed

lemma sample_remote_ok: "publication_wire_ok sample_wire_limits sample_remote"
  using sample_publication_ok by (simp add: sample_remote_def publication_wire_ok_def)

lemma sample_request_encoded:
  assumes "length bytes \<le> 500"
  shows "\<exists>raw. encode_frame H (request_header client message) bytes sample_wire_limits = Inr raw"
  using assms
  by (intro encode_frame_fits) (simp_all add: request_header_def blank_header_def sample_wire_limits_def)

lemma sample_pair_simps [simp]:
  "ct_limits sample_client = sample_wire_limits" "sr_store sample_server = sample_store"
  "se_identity sample_session = sample_identity" "sample_session\<lparr>se_assembling := False\<rparr> = sample_session"
  by (simp_all add: sample_client_def new_client_def sample_server_def new_server_def sample_session_def new_session_def)



end
