(* ===== verification/Persistence.thy ===== *)
theory Persistence
  imports Codec Store_Query
begin

text \<open>
  The store file, \<^verbatim>\<open>src/persistence.cpp\<close> and \<^verbatim>\<open>persistence.hpp\<close>: the structured image, its encoder
  and its checking decoder. A failed step is \<open>Inl\<close> of the status the source returns. The hash of the
  integrity trailer is the parameter \<open>H\<close>, as it is for the identities.
\<close>

section \<open>Images\<close>

record StoredLineage =
  sl_state :: LineageState
  sl_nodes :: "ProvenanceNode list"
  sl_edges :: "ProvenanceEdge list"
  sl_attempts :: "StoredAttempt list"

record StoreImage =
  im_watermarks :: DependencyWatermarks
  im_lineages :: "StoredLineage list"

definition image_node_count :: "StoreImage \<Rightarrow> nat" where
  "image_node_count img = sum_list (map (\<lambda>l. length (sl_nodes l)) (im_lineages img))"

definition image_edge_count :: "StoreImage \<Rightarrow> nat" where
  "image_edge_count img = sum_list (map (\<lambda>l. length (sl_edges l)) (im_lineages img))"

definition kMagic :: "byte list" where
  "kMagic = string_bytes ''RPSTORE1''"

definition kHeaderSize :: nat where
  "kHeaderSize = 128"

definition kTrailerSize :: nat where
  "kTrailerSize = 32"

definition kPersistenceFormatVersion :: u32 where
  "kPersistenceFormatVersion = 1"

definition kDigestEncodingVersion :: u32 where
  "kDigestEncodingVersion = 1"

section \<open>Encoding\<close>

definition write_lineage :: "StoredLineage \<Rightarrow> Writer \<Rightarrow> Writer" where
  "write_lineage l = wr_all
     [wr_u64 (ls_id (sl_state l)), wr_u64 (lk_route (ls_key (sl_state l))),
      wr_text (lk_semantic_key (ls_key (sl_state l))),
      wr_u16 (lineage_lifecycle_code (ls_lifecycle (sl_state l))), wr_u16 0,
      wr_u64 (ls_current_route_generation (sl_state l)), wr_u64 (ls_current_node (sl_state l)),
      wr_u64 (ls_lineage_generation (sl_state l)), wr_u64 (ls_authority_generation (sl_state l)),
      wr_u64 (ls_last_publisher_boot (sl_state l)),
      wr_u32 (of_nat (length (sl_nodes l))), wr_u32 (of_nat (length (sl_edges l))),
      wr_u32 (of_nat (length (sl_attempts l))), wr_u32 0,
      wr_list write_node (sl_nodes l), wr_list write_edge (sl_edges l),
      wr_list write_attempt (sl_attempts l)]"

fun encode_lineages :: "Limits \<Rightarrow> StoredLineage list \<Rightarrow> Writer \<Rightarrow> Status + Writer" where
  "encode_lineages limits [] body = Inr body"
| "encode_lineages limits (l # ls) body =
     (if length (write_lineage l body) - length body > max_persistence_record_bytes limits then
        Inl (st_failure O_ResourceLimit ''lineage record exceeds max_persistence_record_bytes'')
      else encode_lineages limits ls (write_lineage l body))"

definition write_header :: "StoreImage \<Rightarrow> nat \<Rightarrow> Writer \<Rightarrow> Writer" where
  "write_header img body_size w =
     (let m = im_watermarks img;
          w = wr_all
            [wr_bytes kMagic, wr_u32 kPersistenceFormatVersion, wr_u32 (of_nat kHeaderSize),
             wr_u32 kGraphEncodingVersion, wr_u32 kDigestEncodingVersion, wr_u32 0, wr_u32 0,
             wr_u64 (wm_store_generation m), wr_u64 (wm_epoch m), wr_u64 (wm_path_authority_generation m),
             wr_u64 (wm_policy_generation m), wr_u64 (wm_evidence_generation m),
             wr_u64 (wm_plan_generation m),
             wr_u32 (of_nat (length (im_lineages img))), wr_u32 (of_nat (image_node_count img)),
             wr_u32 (of_nat (image_edge_count img)), wr_u32 0, wr_u64 (of_nat body_size)] w
      in w @ replicate (kHeaderSize - length w) 0)"

definition encode_store_image :: "hash_fun \<Rightarrow> StoreImage \<Rightarrow> Limits \<Rightarrow> Status + byte list" where
  "encode_store_image H img limits =
     (if length (im_lineages img) > max_lineages limits then
        Inl (st_failure O_ResourceLimit ''image exceeds max_lineages'')
      else if image_node_count img > max_persistence_nodes limits then
        Inl (st_failure O_ResourceLimit ''image exceeds max_persistence_nodes'')
      else if image_edge_count img > max_persistence_edges limits then
        Inl (st_failure O_ResourceLimit ''image exceeds max_persistence_edges'')
      else case encode_lineages limits (im_lineages img) [] of
        Inl s \<Rightarrow> Inl s
      | Inr body \<Rightarrow>
          if length body > max_store_bytes limits then
            Inl (st_failure O_ResourceLimit ''image exceeds max_store_bytes'')
          else
            let unsealed = write_header img (length body) [] @ body;
                sealed = unsealed @ digest_bytes (H unsealed)
            in if length sealed > max_store_bytes limits then
                 Inl (st_failure O_ResourceLimit ''encoded image exceeds max_store_bytes'')
               else Inr sealed)"

section \<open>Decoding\<close>

definition corrupt :: "string \<Rightarrow> Status" where
  "corrupt det = st_failure O_StoreCorrupt det"

text \<open>\<open>k\<close> records, each with a check that may return early and a set of what has been seen.\<close>

fun read_loop :: "(Reader \<Rightarrow> 's \<Rightarrow> Status + 'a \<times> Reader \<times> 's) \<Rightarrow> nat \<Rightarrow> Reader \<Rightarrow> 's
    \<Rightarrow> Status + 'a list \<times> Reader \<times> 's" where
  "read_loop step 0 r seen = Inr ([], r, seen)"
| "read_loop step (Suc k) r seen =
     (case step r seen of
        Inl s \<Rightarrow> Inl s
      | Inr (v, r, seen) \<Rightarrow>
          (case read_loop step k r seen of Inl s \<Rightarrow> Inl s | Inr (vs, r, seen) \<Rightarrow> Inr (v # vs, r, seen)))"

definition check_stored_node ::
    "hash_fun \<Rightarrow> RouteLineageId \<Rightarrow> ProvenanceNodeId oset \<Rightarrow> ProvenanceNode \<Rightarrow> Status" where
  "check_stored_node H lineage_id seen node =
     (if n_lineage node \<noteq> lineage_id then corrupt ''record lineage mismatch''
      else if \<not> id_valid (n_id node) then corrupt ''invalid record identity''
      else if om_has seen (n_id node) then corrupt ''duplicate provenance record''
      else if \<not> st_is_ok (validate_node_consistency node) then
        corrupt (st_detail (validate_node_consistency node))
      else if n_kind node \<noteq> NK_CompactedSummary \<and> n_id node \<noteq> derive_node_id H node then
        corrupt ''record identity does not match its content''
      else st_ok)"

definition decode_node ::
    "hash_fun \<Rightarrow> Limits \<Rightarrow> RouteLineageId \<Rightarrow> Reader \<Rightarrow> ProvenanceNodeId oset
     \<Rightarrow> Status + ProvenanceNode \<times> Reader \<times> ProvenanceNodeId oset" where
  "decode_node H limits lineage_id r seen =
     (case read_node limits r of
        None \<Rightarrow> Inl (corrupt ''malformed provenance record'')
      | Some (node, r) \<Rightarrow>
          if \<not> st_is_ok (check_stored_node H lineage_id seen node) then
            Inl (check_stored_node H lineage_id seen node)
          else Inr (node, r, os_insert (n_id node) seen))"

definition check_stored_edge ::
    "hash_fun \<Rightarrow> RouteLineageId \<Rightarrow> ProvenanceEdgeId oset \<times> DerivationId oset \<Rightarrow> ProvenanceEdge \<Rightarrow> Status" where
  "check_stored_edge H lineage_id seen e =
     (if e_lineage e \<noteq> lineage_id then corrupt ''edge lineage mismatch''
      else if om_has (fst seen) (e_id e) then corrupt ''duplicate derivation edge''
      else if om_has (snd seen) (e_derivation e) then corrupt ''duplicate derivation identity''
      else if \<not> st_is_ok (validate_edge_consistency e) then
        corrupt (st_detail (validate_edge_consistency e))
      else if e_derivation e \<noteq> compute_derivation_id H e \<or> e_id e \<noteq> compute_edge_id H e then
        corrupt ''edge identity does not match its content''
      else st_ok)"

definition decode_edge ::
    "hash_fun \<Rightarrow> Limits \<Rightarrow> RouteLineageId \<Rightarrow> Reader \<Rightarrow> ProvenanceEdgeId oset \<times> DerivationId oset
     \<Rightarrow> Status + ProvenanceEdge \<times> Reader \<times> ProvenanceEdgeId oset \<times> DerivationId oset" where
  "decode_edge H limits lineage_id r seen =
     (case read_edge limits r of
        None \<Rightarrow> Inl (corrupt ''malformed derivation edge'')
      | Some (e, r) \<Rightarrow>
          if \<not> st_is_ok (check_stored_edge H lineage_id seen e) then
            Inl (check_stored_edge H lineage_id seen e)
          else Inr (e, r, os_insert (e_id e) (fst seen), os_insert (e_derivation e) (snd seen)))"

definition decode_attempt :: "Limits \<Rightarrow> Reader \<Rightarrow> unit \<Rightarrow> Status + StoredAttempt \<times> Reader \<times> unit" where
  "decode_attempt limits r seen =
     (case read_attempt limits r of
        None \<Rightarrow> Inl (corrupt ''malformed attempt record'')
      | Some (a, r) \<Rightarrow>
          if \<not> id_valid (sa_publisher a) \<or> \<not> id_valid (sa_attempt a) \<or> \<not> id_valid (sa_node a) then
            Inl (corrupt ''invalid attempt identity'')
          else Inr (a, r, ()))"

text \<open>The fixed part of a lineage record: the state and the three counts.\<close>

definition read_lineage_header :: "Limits \<Rightarrow> Reader \<Rightarrow> Status + LineageState \<times> nat \<times> nat \<times> nat \<times> Reader" where
  "read_lineage_header limits r =
     (let (i, r) = rd_u64 r; (route, r) = rd_u64 r;
          (key, r) = rd_text (max_semantic_key_bytes limits) r; (lifecycle_raw, r) = rd_u16 r;
          (_, r) = rd_u16 r; (current_generation, r) = rd_u64 r; (current_node, r) = rd_u64 r;
          (lineage_generation, r) = rd_u64 r; (authority_generation, r) = rd_u64 r;
          (boot, r) = rd_u64 r; (nodes, r) = rd_u32 r; (edges, r) = rd_u32 r; (attempts, r) = rd_u32 r;
          (_, r) = rd_u32 r
      in if rd_failed r then Inl (corrupt ''truncated lineage header'')
         else case lineage_lifecycle_of lifecycle_raw of
           None \<Rightarrow> Inl (corrupt ''malformed lineage lifecycle'')
         | Some lifecycle \<Rightarrow>
             Inr ((new_state i \<lparr>lk_route = route, lk_semantic_key = key\<rparr>)
                    \<lparr>ls_lifecycle := lifecycle, ls_current_route_generation := current_generation,
                     ls_current_node := current_node, ls_lineage_generation := lineage_generation,
                     ls_authority_generation := authority_generation, ls_last_publisher_boot := boot\<rparr>,
                  unat nodes, unat edges, unat attempts, r))"

definition check_lineage_header :: "Limits \<Rightarrow> LineageState \<Rightarrow> nat \<Rightarrow> nat \<Rightarrow> nat \<Rightarrow> Status" where
  "check_lineage_header limits s nodes edges attempts =
     (if \<not> id_valid (ls_id s) \<or> \<not> id_valid (lk_route (ls_key s)) \<or> lk_semantic_key (ls_key s) = [] then
        corrupt ''invalid lineage identity''
      else if nodes > max_nodes_per_lineage limits \<or> edges > max_edges_per_lineage limits
              \<or> attempts > max_attempts_per_lineage limits then
        st_failure O_ResourceLimit ''lineage exceeds the configured bounds''
      else if nodes > 0 \<and> \<not> id_valid (ls_lineage_generation s) then corrupt ''impossible lineage generation''
      else if nodes = 0 \<and> (id_valid (ls_current_node s) \<or> id_valid (ls_current_route_generation s)) then
        corrupt ''empty lineage claims current route state''
      else st_ok)"

type_synonym Seen = "ProvenanceNodeId oset \<times> ProvenanceEdgeId oset \<times> DerivationId oset"

definition decode_lineage ::
    "hash_fun \<Rightarrow> Limits \<Rightarrow> Reader \<Rightarrow> Seen \<Rightarrow> Status + StoredLineage \<times> Reader \<times> Seen" where
  "decode_lineage H limits r seen =
     (let start = rd_cursor r
      in case read_lineage_header limits r of
           Inl s \<Rightarrow> Inl s
         | Inr (state, nodes, edges, attempts, r) \<Rightarrow>
             if \<not> st_is_ok (check_lineage_header limits state nodes edges attempts) then
               Inl (check_lineage_header limits state nodes edges attempts)
             else case read_loop (decode_node H limits (ls_id state)) nodes r (fst seen) of
               Inl s \<Rightarrow> Inl s
             | Inr (ns, r, seen_nodes) \<Rightarrow>
                 (case read_loop (decode_edge H limits (ls_id state)) edges r (snd seen) of
                    Inl s \<Rightarrow> Inl s
                  | Inr (es, r, seen_edges) \<Rightarrow>
                      (case read_loop (decode_attempt limits) attempts r () of
                         Inl s \<Rightarrow> Inl s
                       | Inr (as, r, _) \<Rightarrow>
                           if rd_cursor r - start > max_persistence_record_bytes limits then
                             Inl (st_failure O_ResourceLimit
                               ''lineage record exceeds max_persistence_record_bytes'')
                           else Inr (\<lparr>sl_state = state, sl_nodes = ns, sl_edges = es, sl_attempts = as\<rparr>,
                                     r, seen_nodes, seen_edges))))"

text \<open>Rebuilding a lineage's graph; the prefixes are those the loader puts before the details.\<close>

fun add_nodes :: "hash_fun \<Rightarrow> Limits \<Rightarrow> ProvenanceNode list \<Rightarrow> ProvenanceGraph \<Rightarrow> Status + ProvenanceGraph" where
  "add_nodes H limits [] g = Inr g"
| "add_nodes H limits (n # ns) g =
     (let (g', s) = add_node H n limits g
      in if \<not> st_is_ok s then Inl s else add_nodes H limits ns g')"

fun insert_edges :: "hash_fun \<Rightarrow> Limits \<Rightarrow> ProvenanceEdge list \<Rightarrow> ProvenanceGraph \<Rightarrow> Status + ProvenanceGraph" where
  "insert_edges H limits [] g = Inr g"
| "insert_edges H limits (e # es) g =
     (let (g', s) = add_edge H e limits g
      in if \<not> st_is_ok s then Inl s else insert_edges H limits es g')"

definition rebuild_graph ::
    "hash_fun \<Rightarrow> Limits \<Rightarrow> string \<Rightarrow> string \<Rightarrow> string \<Rightarrow> StoredLineage \<Rightarrow> Status + ProvenanceGraph" where
  "rebuild_graph H limits node_prefix edge_prefix structure_prefix l =
     (case add_nodes H limits (sl_nodes l) empty_graph of
        Inl s \<Rightarrow> Inl (corrupt (node_prefix @ st_detail s))
      | Inr g \<Rightarrow>
          (case insert_edges H limits (sl_edges l) g of
             Inl s \<Rightarrow> Inl (corrupt (edge_prefix @ st_detail s))
           | Inr g \<Rightarrow>
               if \<not> st_is_ok (validate_structure g) then
                 Inl (corrupt (structure_prefix @ st_detail (validate_structure g)))
               else Inr g))"

fun check_structures :: "hash_fun \<Rightarrow> Limits \<Rightarrow> StoredLineage list \<Rightarrow> Status" where
  "check_structures H limits [] = st_ok"
| "check_structures H limits (l # ls) =
     (case rebuild_graph H limits [] [] [] l of Inl s \<Rightarrow> s | Inr _ \<Rightarrow> check_structures H limits ls)"

definition decode_body ::
    "hash_fun \<Rightarrow> Limits \<Rightarrow> nat \<Rightarrow> nat \<Rightarrow> nat \<Rightarrow> byte list \<Rightarrow> Status + StoredLineage list" where
  "decode_body H limits lineage_count stored_nodes stored_edges body =
     (case read_loop (decode_lineage H limits) lineage_count (rd_open body) (om_empty, om_empty, om_empty) of
        Inl s \<Rightarrow> Inl s
      | Inr (ls, r, _) \<Rightarrow>
          if rd_failed r then Inl (corrupt ''truncated store body'')
          else if \<not> rd_at_end r then Inl (corrupt ''trailing bytes after the store body'')
          else if sum_list (map (\<lambda>l. length (sl_nodes l)) ls) \<noteq> stored_nodes
                  \<or> sum_list (map (\<lambda>l. length (sl_edges l)) ls) \<noteq> stored_edges then
            Inl (corrupt ''store record counts disagree'')
          else if \<not> st_is_ok (check_structures H limits ls) then Inl (check_structures H limits ls)
          else Inr ls)"

definition decode_store_image :: "hash_fun \<Rightarrow> byte list \<Rightarrow> Limits \<Rightarrow> Status + StoreImage" where
  "decode_store_image H bytes limits =
     (if length bytes < kHeaderSize + kTrailerSize then
        Inl (corrupt ''store image is shorter than its header and trailer'')
      else if length bytes > max_store_bytes limits then
        Inl (st_failure O_ResourceLimit ''store image exceeds max_store_bytes'')
      else if take 8 bytes \<noteq> kMagic then Inl (corrupt ''bad store magic'')
      else
        let header = rd_open (take (kHeaderSize - 8) (drop 8 bytes));
            (format_version, header) = rd_u32 header; (header_size, header) = rd_u32 header;
            (graph_version, header) = rd_u32 header; (digest_version, header) = rd_u32 header;
            (flags, header) = rd_u32 header; (_, header) = rd_u32 header;
            (store_generation, header) = rd_u64 header; (epoch, header) = rd_u64 header;
            (path_generation, header) = rd_u64 header; (policy_generation, header) = rd_u64 header;
            (evidence_generation, header) = rd_u64 header; (plan_generation, header) = rd_u64 header;
            (lineage_count, header) = rd_u32 header; (stored_nodes, header) = rd_u32 header;
            (stored_edges, header) = rd_u32 header; (_, header) = rd_u32 header;
            (body_bytes, header) = rd_u64 header
        in if rd_failed header \<or> header_size \<noteq> of_nat kHeaderSize then
             Inl (corrupt ''malformed store header'')
           else if format_version \<noteq> kPersistenceFormatVersion \<or> graph_version \<noteq> kGraphEncodingVersion
                   \<or> digest_version \<noteq> kDigestEncodingVersion then
             Inl (st_failure O_UnsupportedVersion ''unsupported store format or encoding version'')
           else if flags \<noteq> 0 then Inl (corrupt ''unsupported store flags'')
           else if of_nat kHeaderSize + body_bytes + of_nat kTrailerSize \<noteq> (of_nat (length bytes) :: u64) then
             Inl (corrupt ''store size does not match the header'')
           else if digest_bytes (H (take (length bytes - kTrailerSize) bytes))
                   \<noteq> drop (length bytes - kTrailerSize) bytes then
             Inl (corrupt ''store integrity check failed'')
           else if unat lineage_count > max_lineages limits then
             Inl (corrupt ''lineage count exceeds the configured bound'')
           else if unat stored_nodes > max_persistence_nodes limits
                   \<or> unat stored_edges > max_persistence_edges limits then
             Inl (corrupt ''record counts exceed the configured bounds'')
           else
             case decode_body H limits (unat lineage_count) (unat stored_nodes) (unat stored_edges)
                    (take (unat body_bytes) (drop kHeaderSize bytes)) of
               Inl s \<Rightarrow> Inl s
             | Inr ls \<Rightarrow> Inr \<lparr>im_watermarks = no_watermarks\<lparr>wm_store_generation := store_generation,
                   wm_epoch := epoch, wm_path_authority_generation := path_generation,
                   wm_policy_generation := policy_generation,
                   wm_evidence_generation := evidence_generation,
                   wm_plan_generation := plan_generation\<rparr>, im_lineages = ls\<rparr>)"

section \<open>Checked loops\<close>

text \<open>A list whose elements pass a check against what was seen before them.\<close>

fun all_seen :: "('s \<Rightarrow> 'a \<Rightarrow> bool) \<Rightarrow> ('a \<Rightarrow> 's \<Rightarrow> 's) \<Rightarrow> 's \<Rightarrow> 'a list \<Rightarrow> bool" where
  "all_seen ok ins seen [] \<longleftrightarrow> True"
| "all_seen ok ins seen (v # vs) \<longleftrightarrow> ok seen v \<and> all_seen ok ins (ins v seen) vs"

lemma all_seen_all:
  "all_seen ok ins seen vs \<Longrightarrow> (\<And>seen v. ok seen v \<Longrightarrow> P v) \<Longrightarrow> v \<in> set vs \<Longrightarrow> P v"
  by (induction vs arbitrary: seen) auto

text \<open>When a check refuses keys already seen, no key occurs twice in an accepted list.\<close>

lemma all_seen_keys:
  assumes "all_seen ok ins seen vs"
    and "\<And>seen v. ok seen v \<Longrightarrow> distinct (f v) \<and> (\<forall>k \<in> set (f v). \<not> om_has (g seen) k)"
    and "\<And>seen v k. om_has (g (ins v seen)) k \<longleftrightarrow> k \<in> set (f v) \<or> om_has (g seen) k"
  shows "distinct (concat (map f vs)) \<and> (\<forall>k \<in> set (concat (map f vs)). \<not> om_has (g seen) k)"
  using assms(1)
proof (induction vs arbitrary: seen)
  case (Cons v vs)
  then have "ok seen v" and "all_seen ok ins (ins v seen) vs" by simp_all
  then show ?case using Cons.IH [of "ins v seen"] assms(2) [of seen v] assms(3) by auto
qed simp

text \<open>
  The contract of one step of a decoding loop: it reads back what was written when the check and the
  size bound hold, and what it returns has passed the check.
\<close>

locale checked_reader =
  fixes wr :: "'a \<Rightarrow> Writer \<Rightarrow> Writer" and step :: "Reader \<Rightarrow> 's \<Rightarrow> Status + 'a \<times> Reader \<times> 's"
    and ok :: "'s \<Rightarrow> 'a \<Rightarrow> bool" and fits :: "'a \<Rightarrow> bool" and ins :: "'a \<Rightarrow> 's \<Rightarrow> 's"
  assumes step_written: "ok seen v \<Longrightarrow> fits v \<Longrightarrow>
      step (reader_at pre (written wr v @ rest)) seen = Inr (v, reader_at (pre @ written wr v) rest, ins v seen)"
    and step_sound: "step r seen = Inr (v, r', seen') \<Longrightarrow> ok seen v \<and> seen' = ins v seen"
begin

lemma loop_written:
  "all_seen ok ins seen vs \<Longrightarrow> list_all fits vs \<Longrightarrow>
     read_loop step (length vs) (reader_at pre (concat (map (written wr) vs) @ rest)) seen
       = Inr (vs, reader_at (pre @ concat (map (written wr) vs)) rest, fold ins vs seen)"
proof (induction vs arbitrary: pre seen)
  case (Cons v vs)
  then show ?case using step_written [of seen v pre] by simp
qed simp

lemma loop_sound:
  "read_loop step k r seen = Inr (vs, r', seen') \<Longrightarrow>
     all_seen ok ins seen vs \<and> seen' = fold ins vs seen \<and> length vs = k"
proof (induction k arbitrary: r seen vs r' seen')
  case (Suc k)
  then show ?case by (fastforce split: sum.splits prod.splits dest: step_sound)
qed simp

end

definition stored_node_ok ::
    "hash_fun \<Rightarrow> Limits \<Rightarrow> RouteLineageId \<Rightarrow> ProvenanceNodeId oset \<Rightarrow> ProvenanceNode \<Rightarrow> bool" where
  "stored_node_ok H limits i seen n \<longleftrightarrow> node_ok limits n \<and> st_is_ok (check_stored_node H i seen n)"

definition stored_edge_ok ::
    "hash_fun \<Rightarrow> Limits \<Rightarrow> RouteLineageId \<Rightarrow> ProvenanceEdgeId oset \<times> DerivationId oset \<Rightarrow> ProvenanceEdge \<Rightarrow> bool" where
  "stored_edge_ok H limits i seen e \<longleftrightarrow> edge_ok limits e \<and> st_is_ok (check_stored_edge H i seen e)"

definition stored_attempt_ok :: "Limits \<Rightarrow> unit \<Rightarrow> StoredAttempt \<Rightarrow> bool" where
  "stored_attempt_ok limits _ a \<longleftrightarrow> attempt_ok limits a
     \<and> id_valid (sa_publisher a) \<and> id_valid (sa_attempt a) \<and> id_valid (sa_node a)"

abbreviation see_node :: "ProvenanceNode \<Rightarrow> ProvenanceNodeId oset \<Rightarrow> ProvenanceNodeId oset" where
  "see_node n \<equiv> os_insert (n_id n)"

abbreviation see_edge :: "ProvenanceEdge \<Rightarrow> ProvenanceEdgeId oset \<times> DerivationId oset \<Rightarrow> ProvenanceEdgeId oset \<times> DerivationId oset" where
  "see_edge e seen \<equiv> (os_insert (e_id e) (fst seen), os_insert (e_derivation e) (snd seen))"

interpretation node_loop: checked_reader write_node "decode_node H limits i" "stored_node_ok H limits i"
    "\<lambda>_. True" see_node for H limits i
  by unfold_locales
     (auto simp: decode_node_def stored_node_ok_def node_codec.round_trip
       split: option.splits if_splits dest: node_codec.sound)

interpretation edge_loop: checked_reader write_edge "decode_edge H limits i" "stored_edge_ok H limits i"
    "\<lambda>_. True" see_edge for H limits i
  by unfold_locales
     (auto simp: decode_edge_def stored_edge_ok_def edge_codec.round_trip
       split: option.splits if_splits dest: edge_codec.sound)

interpretation attempt_loop: checked_reader write_attempt "decode_attempt limits" "stored_attempt_ok limits"
    "\<lambda>_. True" "\<lambda>_ seen. seen" for limits
  by unfold_locales
     (auto simp: decode_attempt_def stored_attempt_ok_def attempt_codec.round_trip
       split: option.splits if_splits dest: attempt_codec.sound)

section \<open>Lineage records\<close>

text \<open>The part of a lineage state the file carries; the counters are recomputed by a load.\<close>

definition persisted_state :: "LineageState \<Rightarrow> LineageState" where
  "persisted_state s = s\<lparr>ls_node_count := 0, ls_edge_count := 0, ls_compacted_node_count := 0,
     ls_history_node_count := 0, ls_last_mutation_digest := zero_digest\<rparr>"

definition see_lineage :: "StoredLineage \<Rightarrow> Seen \<Rightarrow> Seen" where
  "see_lineage l seen = (fold see_node (sl_nodes l) (fst seen), fold see_edge (sl_edges l) (snd seen))"

definition stored_lineage_ok :: "hash_fun \<Rightarrow> Limits \<Rightarrow> Seen \<Rightarrow> StoredLineage \<Rightarrow> bool" where
  "stored_lineage_ok H limits seen l \<longleftrightarrow>
     persisted_state (sl_state l) = sl_state l
     \<and> length (lk_semantic_key (ls_key (sl_state l))) \<le> max_semantic_key_bytes limits
     \<and> length (lk_semantic_key (ls_key (sl_state l))) < 4294967296
     \<and> length (sl_nodes l) < 4294967296 \<and> length (sl_edges l) < 4294967296
     \<and> length (sl_attempts l) < 4294967296
     \<and> st_is_ok (check_lineage_header limits (sl_state l) (length (sl_nodes l)) (length (sl_edges l))
          (length (sl_attempts l)))
     \<and> all_seen (stored_node_ok H limits (ls_id (sl_state l))) see_node (fst seen) (sl_nodes l)
     \<and> all_seen (stored_edge_ok H limits (ls_id (sl_state l))) see_edge (snd seen) (sl_edges l)
     \<and> list_all (stored_attempt_ok limits ()) (sl_attempts l)"

definition lineage_fits :: "Limits \<Rightarrow> StoredLineage \<Rightarrow> bool" where
  "lineage_fits limits l \<longleftrightarrow> length (written write_lineage l) \<le> max_persistence_record_bytes limits"

definition lineage_header_bytes :: "StoredLineage \<Rightarrow> byte list" where
  "lineage_header_bytes l =
     store_le64 (ls_id (sl_state l)) @ store_le64 (lk_route (ls_key (sl_state l)))
     @ store_le32 (of_nat (length (lk_semantic_key (ls_key (sl_state l)))))
     @ string_bytes (lk_semantic_key (ls_key (sl_state l)))
     @ store_le16 (lineage_lifecycle_code (ls_lifecycle (sl_state l))) @ store_le16 0
     @ store_le64 (ls_current_route_generation (sl_state l)) @ store_le64 (ls_current_node (sl_state l))
     @ store_le64 (ls_lineage_generation (sl_state l)) @ store_le64 (ls_authority_generation (sl_state l))
     @ store_le64 (ls_last_publisher_boot (sl_state l))
     @ store_le32 (of_nat (length (sl_nodes l))) @ store_le32 (of_nat (length (sl_edges l)))
     @ store_le32 (of_nat (length (sl_attempts l))) @ store_le32 0"

lemma write_lineage_bytes:
  "write_lineage l w = w @ lineage_header_bytes l @ concat (map (written write_node) (sl_nodes l))
     @ concat (map (written write_edge) (sl_edges l)) @ concat (map (written write_attempt) (sl_attempts l))"
  by (simp add: write_lineage_def wr_all_def wr_defs lineage_header_bytes_def node_codec.list_appends
      edge_codec.list_appends attempt_codec.list_appends)

lemma written_lineage:
  "written write_lineage l = lineage_header_bytes l @ concat (map (written write_node) (sl_nodes l))
     @ concat (map (written write_edge) (sl_edges l)) @ concat (map (written write_attempt) (sl_attempts l))"
  by (simp add: written_def [of write_lineage] write_lineage_bytes)

lemma rd_text_header [simp]:
  "length str \<le> max_length \<Longrightarrow> length str < 4294967296 \<Longrightarrow>
   rd_text max_length (reader_at pre (store_le32 (of_nat (length str)) @ string_bytes str @ rest))
     = (str, reader_at (pre @ store_le32 (of_nat (length str)) @ string_bytes str) rest)"
  by (rule rd_text_at)

lemma read_lineage_header_written:
  assumes "stored_lineage_ok H limits seen l"
  shows "read_lineage_header limits (reader_at pre (lineage_header_bytes l @ rest))
    = Inr (sl_state l, length (sl_nodes l), length (sl_edges l), length (sl_attempts l),
        reader_at (pre @ lineage_header_bytes l) rest)"
proof -
  note ok = assms [unfolded stored_lineage_ok_def]
  from ok have "persisted_state (sl_state l) = sl_state l" by simp
  then have "(new_state (ls_id (sl_state l)) \<lparr>lk_route = lk_route (ls_key (sl_state l)),
       lk_semantic_key = lk_semantic_key (ls_key (sl_state l))\<rparr>)
     \<lparr>ls_lifecycle := ls_lifecycle (sl_state l),
      ls_current_route_generation := ls_current_route_generation (sl_state l),
      ls_current_node := ls_current_node (sl_state l),
      ls_lineage_generation := ls_lineage_generation (sl_state l),
      ls_authority_generation := ls_authority_generation (sl_state l),
      ls_last_publisher_boot := ls_last_publisher_boot (sl_state l)\<rparr> = sl_state l"
    by (cases "sl_state l"; cases "ls_key (sl_state l)") (simp add: new_state_def persisted_state_def)
  then show ?thesis
    using ok by (simp add: read_lineage_header_def lineage_header_bytes_def unat_of_nat_u32)
qed

lemma read_lineage_header_sound:
  assumes "read_lineage_header limits r = Inr (state, nodes, edges, attempts, r')"
  shows "persisted_state state = state \<and> length (lk_semantic_key (ls_key state)) \<le> max_semantic_key_bytes limits
    \<and> length (lk_semantic_key (ls_key state)) < 4294967296
    \<and> nodes < 4294967296 \<and> edges < 4294967296 \<and> attempts < 4294967296"
  using assms unat_u32_lt
  by (auto simp: read_lineage_header_def new_state_def persisted_state_def Let_def
      dest!: rd_text_length split: prod.splits if_splits option.splits)

lemma all_seen_unit: "all_seen ok (\<lambda>_ _. ()) u vs \<longleftrightarrow> list_all (ok ()) vs"
  by (induction vs) (simp_all add: unit_eq)

interpretation lineage_loop: checked_reader write_lineage "decode_lineage H limits"
    "stored_lineage_ok H limits" "lineage_fits limits" see_lineage for H limits
proof
  fix seen l pre rest assume ok: "stored_lineage_ok H limits seen l" and fits: "lineage_fits limits l"
  note parts = ok [unfolded stored_lineage_ok_def]
  have "read_loop (decode_node H limits (ls_id (sl_state l))) (length (sl_nodes l))
      (reader_at p (concat (map (written write_node) (sl_nodes l)) @ q)) (fst seen)
    = Inr (sl_nodes l, reader_at (p @ concat (map (written write_node) (sl_nodes l))) q,
        fold see_node (sl_nodes l) (fst seen))" for p q
    using parts by (intro node_loop.loop_written) (simp_all add: list.pred_True)
  moreover have "read_loop (decode_edge H limits (ls_id (sl_state l))) (length (sl_edges l))
      (reader_at p (concat (map (written write_edge) (sl_edges l)) @ q)) (snd seen)
    = Inr (sl_edges l, reader_at (p @ concat (map (written write_edge) (sl_edges l))) q,
        fold see_edge (sl_edges l) (snd seen))" for p q
    using parts by (intro edge_loop.loop_written) (simp_all add: list.pred_True)
  moreover have "read_loop (decode_attempt limits) (length (sl_attempts l))
      (reader_at p (concat (map (written write_attempt) (sl_attempts l)) @ q)) ()
    = Inr (sl_attempts l, reader_at (p @ concat (map (written write_attempt) (sl_attempts l))) q, ())" for p q
    using attempt_loop.loop_written [of limits "()" "sl_attempts l" p q] parts
    by (simp add: all_seen_unit list.pred_True)
  ultimately show "decode_lineage H limits (reader_at pre (written write_lineage l @ rest)) seen
      = Inr (l, reader_at (pre @ written write_lineage l) rest, see_lineage l seen)"
    using parts fits
    by (simp add: decode_lineage_def written_lineage read_lineage_header_written [OF ok]
        lineage_fits_def see_lineage_def)
next
  fix r seen l r' seen' assume d: "decode_lineage H limits r seen = Inr (l, r', seen')"
  then obtain state nodes edges attempts r1 ns r2 sn es r3 se as where
    h: "read_lineage_header limits r = Inr (state, nodes, edges, attempts, r1)"
      "st_is_ok (check_lineage_header limits state nodes edges attempts)"
    and n: "read_loop (decode_node H limits (ls_id state)) nodes r1 (fst seen) = Inr (ns, r2, sn)"
    and e: "read_loop (decode_edge H limits (ls_id state)) edges r2 (snd seen) = Inr (es, r3, se)"
    and a: "read_loop (decode_attempt limits) attempts r3 () = Inr (as, r', ())"
    and l: "l = \<lparr>sl_state = state, sl_nodes = ns, sl_edges = es, sl_attempts = as\<rparr>" "seen' = (sn, se)"
    by (auto simp: decode_lineage_def Let_def split: sum.splits prod.splits if_splits)
  then show "stored_lineage_ok H limits seen l \<and> seen' = see_lineage l seen"
    using read_lineage_header_sound [OF h(1)] h(2) node_loop.loop_sound [OF n] edge_loop.loop_sound [OF e]
      attempt_loop.loop_sound [OF a]
    by (simp add: stored_lineage_ok_def see_lineage_def all_seen_unit)
qed

section \<open>Images\<close>

text \<open>The members of \<^verbatim>\<open>Limits\<close> that bound sizes are 32-bit and, for the file size, 64-bit integers.\<close>

definition limits_typed :: "Limits \<Rightarrow> bool" where
  "limits_typed l \<longleftrightarrow> max_store_bytes l < 18446744073709551616
     \<and> list_all (\<lambda>n. n < 4294967296)
         [max_lineages l, max_nodes_per_lineage l, max_edges_per_lineage l, max_attempts_per_lineage l,
          max_evidence_entries l, max_semantic_key_bytes l, max_persistence_record_bytes l,
          max_persistence_nodes l, max_persistence_edges l]"

definition no_seen :: Seen where
  "no_seen = (om_empty, om_empty, om_empty)"

definition image_ok :: "hash_fun \<Rightarrow> Limits \<Rightarrow> StoreImage \<Rightarrow> bool" where
  "image_ok H limits img \<longleftrightarrow>
     length (im_lineages img) \<le> max_lineages limits
     \<and> image_node_count img \<le> max_persistence_nodes limits
     \<and> image_edge_count img \<le> max_persistence_edges limits
     \<and> wm_digest (im_watermarks img) = zero_digest
     \<and> all_seen (stored_lineage_ok H limits) see_lineage no_seen (im_lineages img)
     \<and> st_is_ok (check_structures H limits (im_lineages img))"

lemma encode_lineages_result:
  "encode_lineages limits ls body =
     (if list_all (lineage_fits limits) ls then Inr (body @ concat (map (written write_lineage) ls))
      else Inl (st_failure O_ResourceLimit ''lineage record exceeds max_persistence_record_bytes''))"
proof (induction ls arbitrary: body)
  case (Cons l ls)
  have "write_lineage l body = body @ written write_lineage l"
    by (simp add: write_lineage_bytes written_lineage)
  then show ?case using Cons by (simp add: lineage_fits_def)
qed simp

lemma length_kMagic [simp]: "length kMagic = 8"
  by (simp add: kMagic_def)

definition header_fields :: "StoreImage \<Rightarrow> nat \<Rightarrow> byte list" where
  "header_fields img body_size =
     (let m = im_watermarks img
      in store_le32 kPersistenceFormatVersion @ store_le32 (of_nat kHeaderSize)
         @ store_le32 kGraphEncodingVersion @ store_le32 kDigestEncodingVersion @ store_le32 0 @ store_le32 0
         @ store_le64 (wm_store_generation m) @ store_le64 (wm_epoch m)
         @ store_le64 (wm_path_authority_generation m) @ store_le64 (wm_policy_generation m)
         @ store_le64 (wm_evidence_generation m) @ store_le64 (wm_plan_generation m)
         @ store_le32 (of_nat (length (im_lineages img))) @ store_le32 (of_nat (image_node_count img))
         @ store_le32 (of_nat (image_edge_count img)) @ store_le32 0 @ store_le64 (of_nat body_size)
         @ replicate 24 0)"

lemma write_header_fields: "write_header img n [] = kMagic @ header_fields img n"
  by (simp add: write_header_def wr_all_def wr_defs header_fields_def kHeaderSize_def Let_def)

lemma length_header_fields [simp]: "length (header_fields img n) = 120"
  by (simp add: header_fields_def Let_def)

definition image_body :: "StoreImage \<Rightarrow> byte list" where
  "image_body img = concat (map (written write_lineage) (im_lineages img))"

definition image_bytes :: "hash_fun \<Rightarrow> StoreImage \<Rightarrow> byte list" where
  "image_bytes H img =
     (let unsealed = kMagic @ header_fields img (length (image_body img)) @ image_body img
      in unsealed @ digest_bytes (H unsealed))"

lemma encode_store_image_Inr:
  assumes "encode_store_image H img limits = Inr bytes"
  shows "bytes = image_bytes H img" and "length bytes \<le> max_store_bytes limits"
    and "length bytes = 160 + length (image_body img)" and "list_all (lineage_fits limits) (im_lineages img)"
    and "length (im_lineages img) \<le> max_lineages limits"
    and "image_node_count img \<le> max_persistence_nodes limits"
    and "image_edge_count img \<le> max_persistence_edges limits"
  using assms
  by (auto simp: encode_store_image_def encode_lineages_result write_header_fields image_bytes_def
      image_body_def Let_def split: if_splits)

lemma unat_of_nat_u64: "n < 18446744073709551616 \<Longrightarrow> unat (of_nat n :: u64) = n"
  by (simp add: unsigned_of_nat take_bit_nat_eq_self)

lemma decode_body_written:
  assumes "image_ok H limits img" and "list_all (lineage_fits limits) (im_lineages img)"
  shows "decode_body H limits (length (im_lineages img)) (image_node_count img) (image_edge_count img)
     (image_body img) = Inr (im_lineages img)"
  using lineage_loop.loop_written [of H limits no_seen "im_lineages img" "[]" "[]"] assms
  by (simp add: decode_body_def image_ok_def image_body_def no_seen_def rd_open_at image_node_count_def
      image_edge_count_def)

lemma decode_encoded:
  assumes ok: "image_ok H limits img" and typed: "limits_typed limits"
    and enc: "encode_store_image H img limits = Inr bytes"
  shows "decode_store_image H bytes limits = Inr img"
proof -
  note e = encode_store_image_Inr [OF enc]
  let ?body = "image_body img"
  let ?fields = "header_fields img (length ?body)"
  let ?unsealed = "kMagic @ ?fields @ ?body"
  have b: "bytes = ?unsealed @ digest_bytes (H ?unsealed)"
    using e(1) by (simp add: image_bytes_def Let_def)
  have sizes: "length ?body < 18446744073709551616" "length (im_lineages img) < 4294967296"
    "image_node_count img < 4294967296" "image_edge_count img < 4294967296"
    using e(2,3,5,6,7) typed by (simp_all add: limits_typed_def)
  have split_bytes: "take 8 bytes = kMagic" "take 120 (drop 8 bytes) = ?fields"
    "take (length bytes - 32) bytes = ?unsealed" "drop (length bytes - 32) bytes = digest_bytes (H ?unsealed)"
    "take (length ?body) (drop 128 bytes) = ?body"
    by (simp_all add: b)
  have size: "of_nat 128 + of_nat (length ?body) + of_nat 32 = (of_nat (length bytes) :: u64)"
    by (simp add: e(3))
  have "im_watermarks img = no_watermarks\<lparr>wm_store_generation := wm_store_generation (im_watermarks img),
      wm_epoch := wm_epoch (im_watermarks img),
      wm_path_authority_generation := wm_path_authority_generation (im_watermarks img),
      wm_policy_generation := wm_policy_generation (im_watermarks img),
      wm_evidence_generation := wm_evidence_generation (im_watermarks img),
      wm_plan_generation := wm_plan_generation (im_watermarks img)\<rparr>"
    using ok by (cases "im_watermarks img") (simp add: no_watermarks_def image_ok_def)
  then show ?thesis
    using decode_body_written [OF ok e(4)] e(2,3,5,6,7) sizes size split_bytes(3,4)
    by (simp add: decode_store_image_def kHeaderSize_def kTrailerSize_def split_bytes(1,2,5) rd_open_at
        header_fields_def Let_def unat_of_nat_u32 unat_of_nat_u64)
qed

section \<open>What the decoder accepts\<close>

lemma stored_node_okD:
  "stored_node_ok H limits i seen n \<Longrightarrow> \<not> om_has seen (n_id n)
     \<and> n_lineage n = i \<and> id_valid (n_id n) \<and> node_ok limits n
     \<and> st_is_ok (validate_node_consistency n)
     \<and> (n_kind n \<noteq> NK_CompactedSummary \<longrightarrow> n_id n = derive_node_id H n)"
  by (auto simp: stored_node_ok_def check_stored_node_def corrupt_def split: if_splits)

lemma stored_edge_okD:
  "stored_edge_ok H limits i seen e \<Longrightarrow> \<not> om_has (fst seen) (e_id e) \<and> \<not> om_has (snd seen) (e_derivation e)
     \<and> e_lineage e = i \<and> edge_ok limits e
     \<and> st_is_ok (validate_edge_consistency e)
     \<and> e_derivation e = compute_derivation_id H e \<and> e_id e = compute_edge_id H e"
  by (auto simp: stored_edge_ok_def check_stored_edge_def corrupt_def split: if_splits)

lemma fold_see_node: "om_has (fold see_node ns seen) k \<longleftrightarrow> k \<in> n_id ` set ns \<or> om_has seen k"
  by (induction ns arbitrary: seen) auto

lemma fold_see_edge:
  "om_has (fst (fold see_edge es seen)) k \<longleftrightarrow> k \<in> e_id ` set es \<or> om_has (fst seen) k"
  "om_has (snd (fold see_edge es seen)) k \<longleftrightarrow> k \<in> e_derivation ` set es \<or> om_has (snd seen) k"
  by (induction es arbitrary: seen) auto

lemma stored_nodes_distinct:
  assumes "all_seen (stored_node_ok H limits i) see_node seen ns"
  shows "distinct (map n_id ns) \<and> (\<forall>k \<in> set (map n_id ns). \<not> om_has seen k)"
proof -
  have "distinct [n_id n] \<and> (\<forall>k \<in> set [n_id n]. \<not> om_has (id s) k)" if "stored_node_ok H limits i s n" for s n
    using stored_node_okD [OF that] by simp
  from all_seen_keys [of _ _ _ _ "\<lambda>n. [n_id n]" id, OF assms this]
  show ?thesis by (simp add: concat_map_singleton)
qed

lemma stored_edges_distinct:
  assumes "all_seen (stored_edge_ok H limits i) see_edge seen es"
  shows "(distinct (map e_id es) \<and> (\<forall>k \<in> set (map e_id es). \<not> om_has (fst seen) k))
    \<and> distinct (map e_derivation es) \<and> (\<forall>k \<in> set (map e_derivation es). \<not> om_has (snd seen) k)"
proof -
  have i: "distinct [e_id e] \<and> (\<forall>k \<in> set [e_id e]. \<not> om_has (fst s) k)"
    and d: "distinct [e_derivation e] \<and> (\<forall>k \<in> set [e_derivation e]. \<not> om_has (snd s) k)"
    if "stored_edge_ok H limits i s e" for s e
    using stored_edge_okD [OF that, THEN conjunct1] stored_edge_okD [OF that, THEN conjunct2, THEN conjunct1]
    by simp_all
  from all_seen_keys [of _ _ _ _ "\<lambda>e. [e_id e]" fst, OF assms i]
    all_seen_keys [of _ _ _ _ "\<lambda>e. [e_derivation e]" snd, OF assms d]
  show ?thesis by (simp add: concat_map_singleton)
qed

lemma image_distinct:
  assumes "all_seen (stored_lineage_ok H limits) see_lineage no_seen ls"
  shows "distinct (concat (map (\<lambda>l. map n_id (sl_nodes l)) ls))
    \<and> distinct (concat (map (\<lambda>l. map e_id (sl_edges l)) ls))
    \<and> distinct (concat (map (\<lambda>l. map e_derivation (sl_edges l)) ls))"
proof -
  have parts: "all_seen (stored_node_ok H limits (ls_id (sl_state l))) see_node (fst seen) (sl_nodes l)"
    "all_seen (stored_edge_ok H limits (ls_id (sl_state l))) see_edge (snd seen) (sl_edges l)"
    if "stored_lineage_ok H limits seen l" for seen l
    using that unfolding stored_lineage_ok_def by simp_all
  have n: "distinct (map n_id (sl_nodes l)) \<and> (\<forall>k \<in> set (map n_id (sl_nodes l)). \<not> om_has (fst seen) k)"
    and e: "distinct (map e_id (sl_edges l)) \<and> (\<forall>k \<in> set (map e_id (sl_edges l)). \<not> om_has (fst (snd seen)) k)"
    and d: "distinct (map e_derivation (sl_edges l))
      \<and> (\<forall>k \<in> set (map e_derivation (sl_edges l)). \<not> om_has (snd (snd seen)) k)"
    if "stored_lineage_ok H limits seen l" for seen l
    using stored_nodes_distinct [OF parts(1) [OF that]] stored_edges_distinct [OF parts(2) [OF that]]
    by simp_all
  from all_seen_keys [of _ _ _ _ "\<lambda>l. map n_id (sl_nodes l)" fst, OF assms n]
    all_seen_keys [of _ _ _ _ "\<lambda>l. map e_id (sl_edges l)" "\<lambda>s. fst (snd s)", OF assms e]
    all_seen_keys [of _ _ _ _ "\<lambda>l. map e_derivation (sl_edges l)" "\<lambda>s. snd (snd s)", OF assms d]
  show ?thesis by (simp add: see_lineage_def fold_see_node fold_see_edge)
qed

lemma check_structures_ok:
  "st_is_ok (check_structures H limits ls) \<longleftrightarrow> (\<forall>l \<in> set ls. \<exists>g. rebuild_graph H limits [] [] [] l = Inr g)"
proof (induction ls)
  case (Cons l ls)
  have "\<not> st_is_ok s" if "rebuild_graph H limits [] [] [] l = Inl s" for s
    using that by (auto simp: rebuild_graph_def corrupt_def split: sum.splits if_splits)
  then show ?case using Cons by (auto split: sum.splits)
qed simp

lemma decode_store_image_Inr:
  assumes d: "decode_store_image H bytes limits = Inr img"
  shows "image_ok H limits img" and "length bytes \<le> max_store_bytes limits" and "take 8 bytes = kMagic"
    and "drop (length bytes - 32) bytes = digest_bytes (H (take (length bytes - 32) bytes))"
proof -
  from d obtain k n e body where b: "decode_body H limits k n e body = Inr (im_lineages img)"
    and k: "k \<le> max_lineages limits" "n \<le> max_persistence_nodes limits" "e \<le> max_persistence_edges limits"
    and w: "wm_digest (im_watermarks img) = zero_digest"
    by (auto simp: decode_store_image_def Let_def no_watermarks_def not_less
        split: if_splits prod.splits sum.splits)
  then show "image_ok H limits img"
    by (auto simp: decode_body_def image_ok_def no_seen_def image_node_count_def image_edge_count_def
        dest!: lineage_loop.loop_sound split: sum.splits if_splits)
  show "length bytes \<le> max_store_bytes limits" "take 8 bytes = kMagic"
    "drop (length bytes - 32) bytes = digest_bytes (H (take (length bytes - 32) bytes))"
    using d by (auto simp: decode_store_image_def Let_def not_less kTrailerSize_def
        split: if_splits prod.splits)
qed

lemma graph_run_nodes:
  "add_nodes H limits ns g = Inr g' \<Longrightarrow> graph_wf g \<and> graph_bounded limits g \<Longrightarrow> graph_wf g' \<and> graph_bounded limits g'"
proof (induction ns arbitrary: g)
  case (Cons n ns)
  have "graph_wf (fst (add_node H n limits g)) \<and> graph_bounded limits (fst (add_node H n limits g))"
    using graph_op_wf [of g H limits "Op_add_node n"] graph_op_bounded [of g limits H "Op_add_node n"] Cons.prems(2)
    by simp
  then show ?case using Cons by (auto split: prod.splits if_splits)
qed simp

lemma graph_run_edges:
  "insert_edges H limits es g = Inr g' \<Longrightarrow> graph_wf g \<and> graph_bounded limits g \<Longrightarrow> graph_wf g' \<and> graph_bounded limits g'"
proof (induction es arbitrary: g)
  case (Cons e es)
  have "graph_wf (fst (add_edge H e limits g)) \<and> graph_bounded limits (fst (add_edge H e limits g))"
    using graph_op_wf [of g H limits "Op_add_edge e"] graph_op_bounded [of g limits H "Op_add_edge e"] Cons.prems(2)
    by simp
  then show ?case using Cons by (auto split: prod.splits if_splits)
qed simp

lemma rebuild_graph_wf:
  "rebuild_graph H limits a b c l = Inr g \<Longrightarrow> graph_wf g \<and> graph_bounded limits g"
  using graph_run_nodes [of H limits "sl_nodes l" empty_graph] graph_run_edges
  by (fastforce simp: rebuild_graph_def split: sum.splits if_splits)

end
