(* ===== verification/Recovery.thy ===== *)
theory Recovery
  imports Persistence Store_Inv
begin

text \<open>
  Saving and loading a store, the second half of \<^verbatim>\<open>src/persistence.cpp\<close>: the export of an image, the
  atomic replacement of the store file, and the conservative recovery of \<^verbatim>\<open>ProvenanceStore::load\<close>.

  A file system maps paths to contents. Every library call of the sources may fail; which ones do is
  an argument of the operation. \<open>write_store_image_atomic\<close> returns all the states the directory goes
  through, so a crash between two calls is one of them. The Windows branches are not modelled.
\<close>

section \<open>Export\<close>

definition stored_attempt :: "AttemptKey \<times> AttemptRecord \<Rightarrow> StoredAttempt" where
  "stored_attempt entry = \<lparr>sa_publisher = fst (fst entry), sa_attempt = snd (fst entry),
     sa_request = ar_request (snd entry), sa_node = ar_node (snd entry), sa_edges = ar_edges (snd entry),
     sa_outcome = ar_outcome (snd entry), sa_lifecycle = ar_lifecycle (snd entry),
     sa_currentness = ar_currentness (snd entry)\<rparr>"

definition stored_lineage :: "Lineage \<Rightarrow> StoredLineage" where
  "stored_lineage lin = \<lparr>sl_state = l_state lin, sl_nodes = nodes_in_order (l_graph lin),
     sl_edges = edges_in_order (l_graph lin),
     sl_attempts = map stored_attempt (om_entries (l_attempts lin))\<rparr>"

definition export_image :: "Store \<Rightarrow> StoreImage" where
  "export_image st = \<lparr>im_watermarks = s_watermarks st,
     im_lineages = map stored_lineage (om_values (s_lineages st))\<rparr>"

section \<open>The store file\<close>

type_synonym FileSystem = "string \<Rightarrow> byte list option"

definition sidecar_path :: "string \<Rightarrow> string" where
  "sidecar_path path = path @ ''.tmp''"

text \<open>What the library calls of one save return: success, or the number of bytes \<^verbatim>\<open>fwrite\<close> accepts.\<close>

record WriteEvents =
  we_open :: bool
  we_written :: nat
  we_flush :: bool
  we_close :: bool
  we_rename :: bool
  we_remove :: bool

definition write_store_image_atomic ::
    "hash_fun \<Rightarrow> StoreImage \<Rightarrow> string \<Rightarrow> Limits \<Rightarrow> WriteEvents \<Rightarrow> FileSystem \<Rightarrow> FileSystem list \<times> Status" where
  "write_store_image_atomic H img path limits io fs =
     (case encode_store_image H img limits of
        Inl s \<Rightarrow> ([fs], s)
      | Inr bytes \<Rightarrow>
          let tmp = sidecar_path path
          in if \<not> we_open io then
               ([fs], st_failure O_IoFailure ''cannot open the temporary store file for writing'')
             else
               let opened = fs(tmp \<mapsto> []);
                   written = fs(tmp \<mapsto> take (we_written io) bytes);
                   removed = (if we_remove io then fs(tmp := None) else written)
               in if we_written io < length bytes then
                    ([opened, written, removed],
                     st_failure O_IoFailure ''short write of the temporary store file'')
                  else if \<not> we_flush io then
                    ([opened, written, removed],
                     st_failure O_IoFailure ''cannot flush the temporary store file'')
                  else if \<not> we_close io then
                    ([opened, written, removed],
                     st_failure O_IoFailure ''cannot close the temporary store file'')
                  else if \<not> we_rename io then
                    ([opened, written, removed],
                     st_failure O_IoFailure ''cannot replace the store file atomically'')
                  else ([opened, written, (fs(path \<mapsto> bytes))(tmp := None)], st_ok))"

definition save ::
    "hash_fun \<Rightarrow> string \<Rightarrow> WriteEvents \<Rightarrow> Store \<Rightarrow> FileSystem \<Rightarrow> FileSystem list \<times> Status" where
  "save H path io st fs =
     (if path = [] then ([fs], st_failure O_MalformedRequest ''store path is required'')
      else write_store_image_atomic H (export_image st) path (s_limits st) io fs)"

record ReadEvents =
  re_size :: bool
  re_open :: bool
  re_read :: nat

definition read_store_image ::
    "hash_fun \<Rightarrow> string \<Rightarrow> Limits \<Rightarrow> ReadEvents \<Rightarrow> FileSystem \<Rightarrow> Status + StoreImage" where
  "read_store_image H path limits io fs =
     (case fs path of
        None \<Rightarrow> Inl (st_failure O_IoFailure ''cannot determine store file size'')
      | Some bytes \<Rightarrow>
          if \<not> re_size io then Inl (st_failure O_IoFailure ''cannot determine store file size'')
          else if length bytes > max_store_bytes limits then
            Inl (st_failure O_ResourceLimit ''store file exceeds max_store_bytes'')
          else if \<not> re_open io then Inl (st_failure O_IoFailure ''cannot open store file for reading'')
          else if re_read io < length bytes then Inl (st_failure O_IoFailure ''short read of store file'')
          else decode_store_image H bytes limits)"

section \<open>Recovery\<close>

definition attempt_entry :: "StoredAttempt \<Rightarrow> AttemptKey \<times> AttemptRecord" where
  "attempt_entry a = ((sa_publisher a, sa_attempt a),
     \<lparr>ar_request = sa_request a, ar_node = sa_node a, ar_edges = sa_edges a, ar_outcome = sa_outcome a,
      ar_currentness = sa_currentness a, ar_lifecycle = sa_lifecycle a\<rparr>)"

text \<open>A record that was current only because a live session vouched for it awaits revalidation.\<close>

definition demotes :: "ProvenanceNode \<Rightarrow> bool" where
  "demotes n \<longleftrightarrow> n_currentness n = CU_Current \<and> n_lifecycle n = NL_Current"

fun demote_records :: "ProvenanceNode list \<Rightarrow> ProvenanceGraph \<Rightarrow> Status + ProvenanceGraph" where
  "demote_records [] g = Inr g"
| "demote_records (n # ns) g =
     (if demotes n then
        (let (g', s) = update_node_state (n_id n) NL_RevalidationRequired CU_RevalidationRequired True g
         in if \<not> st_is_ok s then Inl (corrupt (''recovery could not demote a record: '' @ st_detail s))
            else demote_records ns g')
      else demote_records ns g)"

definition recount :: "ProvenanceGraph \<Rightarrow> LineageState \<Rightarrow> LineageState" where
  "recount g s = s\<lparr>
     ls_history_node_count := length (filter node_is_history_record (nodes_in_order g)),
     ls_compacted_node_count := length (filter (\<lambda>n. n_kind n = NK_CompactedSummary) (nodes_in_order g)),
     ls_node_count := node_count g, ls_edge_count := edge_count g\<rparr>"

definition load_lineage :: "hash_fun \<Rightarrow> Limits \<Rightarrow> StoredLineage \<Rightarrow> Status + Lineage" where
  "load_lineage H limits l =
     (case rebuild_graph H limits ''stored record rejected: '' ''stored derivation rejected: ''
             ''stored lineage is inconsistent: '' l of
        Inl s \<Rightarrow> Inl s
      | Inr g \<Rightarrow>
          (case demote_records (nodes_in_order g) g of
             Inl s \<Rightarrow> Inl s
           | Inr g \<Rightarrow>
               if id_valid (ls_current_node (sl_state l)) \<and> find_node g (ls_current_node (sl_state l)) = None then
                 Inl (corrupt ''stored lineage current record is missing'')
               else Inr \<lparr>l_state = recount g (sl_state l), l_graph = g,
                 l_attempts = fold (\<lambda>a m. om_emplace (fst (attempt_entry a)) (snd (attempt_entry a)) m)
                                (sl_attempts l) om_empty\<rparr>))"

type_synonym Registry = "(RouteLineageId, Lineage) omap \<times> (RouteId, RouteLineageId) omap"

fun load_lineages :: "hash_fun \<Rightarrow> Limits \<Rightarrow> StoredLineage list \<Rightarrow> Registry \<Rightarrow> Status + Registry" where
  "load_lineages H limits [] reg = Inr reg"
| "load_lineages H limits (l # ls) reg =
     (case load_lineage H limits l of
        Inl s \<Rightarrow> Inl s
      | Inr lin \<Rightarrow>
          if om_has (fst reg) (ls_id (sl_state l)) then Inl (corrupt ''duplicate lineage identity'')
          else if om_has (snd reg) (lk_route (ls_key (sl_state l))) then
            Inl (corrupt ''duplicate route identity'')
          else load_lineages H limits ls
                 (om_put (ls_id (sl_state l)) lin (fst reg),
                  om_put (lk_route (ls_key (sl_state l))) (ls_id (sl_state l)) (snd reg)))"

definition index_lineages :: "(RouteLineageId, Lineage) omap \<Rightarrow> Store \<Rightarrow> Store" where
  "index_lineages lineages st =
     fold (\<lambda>(i, lin) st. fold (\<lambda>n. index_node n i) (nodes_in_order (l_graph lin)) st)
       (om_entries lineages) st"

definition reevaluate_lineages :: "Store \<Rightarrow> Store" where
  "reevaluate_lineages st =
     fold (\<lambda>(i, lin) st. put_lineage i (reevaluate_all st lin) st) (om_entries (s_lineages st)) st"

definition install_image :: "DependencyWatermarks \<Rightarrow> Registry \<Rightarrow> Store \<Rightarrow> Store" where
  "install_image marks reg st =
     reevaluate_lineages
       ((index_lineages (fst reg)
          (st\<lparr>s_lineages := fst reg, s_route_index := snd reg, s_node_owner := om_empty,
              s_route_generation_index := om_empty, s_path_index := om_empty,
              s_path_authority_index := om_empty, s_policy_index := om_empty,
              s_evidence_index := om_empty, s_boot_index := om_empty, s_publisher_index := om_empty,
              s_watermarks := marks\<rparr>))
        \<lparr>s_publishers := om_empty, s_recovered := True\<rparr>)"

definition load :: "hash_fun \<Rightarrow> string \<Rightarrow> ReadEvents \<Rightarrow> FileSystem \<Rightarrow> Store \<Rightarrow> Store \<times> Status" where
  "load H path io fs st =
     (if path = [] then (st, st_failure O_MalformedRequest ''store path is required'')
      else case read_store_image H path (s_limits st) io fs of
        Inl s \<Rightarrow> (st, s)
      | Inr img \<Rightarrow>
          (case load_lineages H (s_limits st) (im_lineages img) (om_empty, om_empty) of
             Inl s \<Rightarrow> (st, s)
           | Inr reg \<Rightarrow>
               (install_image (im_watermarks img) reg st,
                st_ok_with O_Updated ''store loaded and recovered'')))"

end
