(* ===== verification/Recovery_Props.thy ===== *)
theory Recovery_Props
  imports Recovery Store_Props
begin

text \<open>
  What saving and loading promise: the file is replaced atomically, what was saved is what is loaded,
  and recovery is conservative: it restores history and drops live authority.
\<close>

section \<open>Replacing records\<close>

text \<open>\<open>g'\<close> is \<open>g\<close> with every record \<open>n\<close> replaced by \<open>f n\<close>.\<close>

definition nodes_mapped :: "(ProvenanceNode \<Rightarrow> ProvenanceNode) \<Rightarrow> ProvenanceGraph \<Rightarrow> ProvenanceGraph \<Rightarrow> bool" where
  "nodes_mapped f g g' \<longleftrightarrow> g' = g\<lparr>g_nodes := g_nodes g'\<rparr>
     \<and> (\<forall>j. om_find (g_nodes g') j = map_option f (om_find (g_nodes g) j))"

lemma om_put_same: "om_find m k = Some v \<Longrightarrow> om_put k v m = m"
  by (rule om_ext) simp

lemma other_id: "distinct (map n_id (n # ns)) \<Longrightarrow> m \<in> set ns \<Longrightarrow> n_id m \<noteq> n_id n"
  by (simp, metis imageI)

lemma replace_fold:
  assumes "distinct (map n_id ns)" and "\<And>n. n \<in> set ns \<Longrightarrow> om_find (g_nodes g) (n_id n) = Some n"
    and "\<And>n g. om_find (g_nodes g) (n_id n) = Some n \<Longrightarrow>
      step n g = g\<lparr>g_nodes := om_put (n_id n) (f n) (g_nodes g)\<rparr>"
  shows "fold step ns g = g\<lparr>g_nodes := g_nodes (fold step ns g)\<rparr>
    \<and> (\<forall>j. om_find (g_nodes (fold step ns g)) j =
         (if j \<in> n_id ` set ns then map_option f (om_find (g_nodes g) j) else om_find (g_nodes g) j))"
  using assms(1,2)
proof (induction ns arbitrary: g)
  case (Cons n ns)
  let ?g = "g\<lparr>g_nodes := om_put (n_id n) (f n) (g_nodes g)\<rparr>"
  have "om_find (g_nodes ?g) (n_id m) = Some m" if "m \<in> set ns" for m
    using that Cons.prems(2) [of m] other_id [OF Cons.prems(1) that] by simp
  then have "fold step ns ?g = ?g\<lparr>g_nodes := g_nodes (fold step ns ?g)\<rparr>
    \<and> (\<forall>j. om_find (g_nodes (fold step ns ?g)) j =
         (if j \<in> n_id ` set ns then map_option f (om_find (g_nodes ?g) j) else om_find (g_nodes ?g) j))"
    using Cons.IH [of ?g] Cons.prems(1) by simp
  moreover have "fold step (n # ns) g = fold step ns ?g" using assms(3) Cons.prems(2) by simp
  moreover have "om_find (g_nodes g) (n_id n) = Some n" using Cons.prems(2) by simp
  moreover have "n_id n \<notin> n_id ` set ns" using Cons.prems(1) by simp
  ultimately show ?case by auto
qed simp

lemma nodes_in_order_ids: "entries_ok g \<Longrightarrow> map n_id (nodes_in_order g) = om_keys (g_nodes g)"
  unfolding nodes_in_order_def om_values_def om_keys_def entries_ok_def
  by (auto simp: in_entries_iff)

lemma node_of_order: "entries_ok g \<Longrightarrow> n \<in> set (nodes_in_order g) \<longleftrightarrow> om_find (g_nodes g) (n_id n) = Some n"
  by (auto simp: nodes_in_order_def set_om_values entries_ok_def)

lemma replace_all:
  assumes "entries_ok g"
    and "\<And>n g. om_find (g_nodes g) (n_id n) = Some n \<Longrightarrow>
      step n g = g\<lparr>g_nodes := om_put (n_id n) (f n) (g_nodes g)\<rparr>"
  shows "nodes_mapped f g (fold step (nodes_in_order g) g)"
proof -
  have "distinct (map n_id (nodes_in_order g))" by (simp add: nodes_in_order_ids [OF assms(1)])
  note r = replace_fold [of "nodes_in_order g" g step f, OF this _ assms(2)]
  have "j \<in> n_id ` set (nodes_in_order g) \<longleftrightarrow> om_has (g_nodes g) j" for j
    using nodes_in_order_ids [OF assms(1)] by (metis image_set mem_Collect_eq set_om_keys)
  then show ?thesis
    using r node_of_order [OF assms(1)] unfolding nodes_mapped_def
    by (auto simp: om_has_def)
qed

lemma nodes_mapped_trans:
  assumes "nodes_mapped f g g'" and "nodes_mapped h g' g''"
  shows "nodes_mapped (\<lambda>n. h (f n)) g g''"
  using assms
  by (cases g; cases g'; cases g'') (simp add: nodes_mapped_def option.map_comp o_def)

section \<open>Demotion and re-evaluation\<close>

definition demoted :: "ProvenanceNode \<Rightarrow> ProvenanceNode" where
  "demoted n = (if demotes n then
     n\<lparr>n_lifecycle := NL_RevalidationRequired, n_currentness := CU_RevalidationRequired,
       n_revalidation_required := True\<rparr> else n)"

definition demote_step :: "ProvenanceNode \<Rightarrow> ProvenanceGraph \<Rightarrow> ProvenanceGraph" where
  "demote_step n g = (if demotes n then
     fst (update_node_state (n_id n) NL_RevalidationRequired CU_RevalidationRequired True g) else g)"

lemma demote_update:
  "om_find (g_nodes g) (n_id n) = Some n \<Longrightarrow> demotes n \<Longrightarrow>
     update_node_state (n_id n) NL_RevalidationRequired CU_RevalidationRequired True g
       = (g\<lparr>g_nodes := om_put (n_id n) (demoted n) (g_nodes g)\<rparr>, st_ok)"
  by (simp add: update_node_state_def demoted_def demotes_def is_valid_lifecycle_transition_def)

lemma demote_records_fold:
  assumes "distinct (map n_id ns)" and "\<And>n. n \<in> set ns \<Longrightarrow> om_find (g_nodes g) (n_id n) = Some n"
  shows "demote_records ns g = Inr (fold demote_step ns g)"
  using assms
proof (induction ns arbitrary: g)
  case (Cons n ns)
  then have "om_find (g_nodes (g\<lparr>g_nodes := om_put (n_id n) (demoted n) (g_nodes g)\<rparr>)) (n_id m) = Some m"
    if "m \<in> set ns" for m
    using that Cons.prems(2) [of m] other_id [OF Cons.prems(1) that] by simp
  then show ?case using Cons demote_update [of g n] by (simp add: demote_step_def)
qed simp

lemma demote_all:
  assumes "entries_ok g"
  shows "demote_records (nodes_in_order g) g = Inr (fold demote_step (nodes_in_order g) g)"
    and "nodes_mapped demoted g (fold demote_step (nodes_in_order g) g)"
proof -
  show "demote_records (nodes_in_order g) g = Inr (fold demote_step (nodes_in_order g) g)"
    using node_of_order [OF assms] by (intro demote_records_fold) (simp_all add: nodes_in_order_ids [OF assms])
  have "demote_step n g = g\<lparr>g_nodes := om_put (n_id n) (demoted n) (g_nodes g)\<rparr>"
    if "om_find (g_nodes g) (n_id n) = Some n" for n g
    using that by (cases "demotes n") (simp_all add: demote_step_def demote_update demoted_def om_put_same)
  then show "nodes_mapped demoted g (fold demote_step (nodes_in_order g) g)"
    by (rule replace_all [OF assms])
qed

lemma grows_fold: "(\<And>n g. grows i H limits g (step n g)) \<Longrightarrow> grows i H limits g (fold step ns g)"
  by (induction ns arbitrary: g) (auto intro: evolves_trans)

lemma grows_demote: "grows i H limits g (fold demote_step ns g)"
  by (rule grows_fold) (simp add: demote_step_def grows_update)

lemma refresh_record_put:
  assumes "om_find (g_nodes g) (n_id n) = Some n"
  shows "fst (refresh_record st s (n_id n) n g)
    = g\<lparr>g_nodes := om_put (n_id n) (n\<lparr>n_currentness := node_currentness st s n\<rparr>) (g_nodes g)\<rparr>"
proof (cases "node_currentness st s n = n_currentness n")
  case True
  then have "n\<lparr>n_currentness := node_currentness st s n\<rparr> = n" by simp
  then show ?thesis using True assms by (simp add: refresh_record_def om_put_same)
qed (use assms in \<open>simp add: refresh_record_def update_node_state_def is_valid_lifecycle_transition_def\<close>)

lemma reevaluate_all_mapped:
  "entries_ok (l_graph lin) \<Longrightarrow>
     nodes_mapped (\<lambda>n. n\<lparr>n_currentness := node_currentness st (l_state lin) n\<rparr>)
       (l_graph lin) (l_graph (reevaluate_all st lin))"
  unfolding reevaluate_all_def by (simp add: replace_all refresh_record_put)

lemma reevaluate_all_grows: "grows i H limits (l_graph lin) (l_graph (reevaluate_all st lin))"
  unfolding reevaluate_all_def by (simp add: grows_fold grows_refresh)

lemma reevaluate_all_simps [simp]:
  "l_state (reevaluate_all st lin) = l_state lin" "l_attempts (reevaluate_all st lin) = l_attempts lin"
  by (simp_all add: reevaluate_all_def)

section \<open>Loading one lineage\<close>

lemma rebuild_graph_nodes:
  "add_nodes H limits ns g = Inr g' \<Longrightarrow> g_edges g' = g_edges g
     \<and> (\<forall>j n. om_find (g_nodes g') j = Some n \<longleftrightarrow> om_find (g_nodes g) j = Some n \<or> (n \<in> set ns \<and> n_id n = j))"
proof (induction ns arbitrary: g)
  case (Cons n ns)
  show ?case
  proof (cases rule: add_node_cases [of H n limits g])
    case added
    then have "g_edges g' = g_edges (with_node n g)
      \<and> (\<forall>j m. om_find (g_nodes g') j = Some m \<longleftrightarrow>
           om_find (g_nodes (with_node n g)) j = Some m \<or> (m \<in> set ns \<and> n_id m = j))"
      using Cons.IH [of "with_node n g"] Cons.prems by simp
    then show ?thesis using added(2) by (auto simp: with_node_def om_find_emplace split: if_splits)
  qed (use Cons.prems in \<open>auto split: prod.splits if_splits\<close>)
qed simp

lemma rebuild_graph_edges:
  "insert_edges H limits es g = Inr g' \<Longrightarrow> g_nodes g' = g_nodes g
     \<and> (\<forall>j e. om_find (g_edges g') j = Some e \<longleftrightarrow> om_find (g_edges g) j = Some e \<or> (e \<in> set es \<and> e_id e = j))"
proof (induction es arbitrary: g)
  case (Cons e es)
  show ?case
  proof (cases rule: add_edge_cases [of H e limits g])
    case added
    then have "g_nodes g' = g_nodes (with_edge e g)
      \<and> (\<forall>j f. om_find (g_edges g') j = Some f \<longleftrightarrow>
           om_find (g_edges (with_edge e g)) j = Some f \<or> (f \<in> set es \<and> e_id f = j))"
      using Cons.IH [of "with_edge e g"] Cons.prems by simp
    then show ?thesis using added(2) by (auto simp: with_edge_def om_find_emplace split: if_splits)
  qed (use Cons.prems in \<open>auto split: prod.splits if_splits\<close>)
qed simp

lemma rebuild_graph_lookups:
  assumes "rebuild_graph H limits a b c l = Inr g"
  shows "om_find (g_nodes g) j = Some n \<longleftrightarrow> n \<in> set (sl_nodes l) \<and> n_id n = j"
    and "om_find (g_edges g) j = Some e \<longleftrightarrow> e \<in> set (sl_edges l) \<and> e_id e = j"
  using assms rebuild_graph_nodes [of H limits "sl_nodes l" empty_graph] rebuild_graph_edges
  by (fastforce simp: rebuild_graph_def empty_graph_def split: sum.splits if_splits)+

lemma rebuild_graph_of:
  assumes "rebuild_graph H limits a b c l = Inr g"
    and "\<forall>n \<in> set (sl_nodes l). n_lineage n = i" and "\<forall>e \<in> set (sl_edges l). e_lineage e = i"
  shows "graph_of i g"
  using assms(2,3) rebuild_graph_lookups [OF assms(1)] unfolding graph_of_def by blast

lemma rebuild_prefix: "rebuild_graph H limits a b c l = Inr g \<Longrightarrow> rebuild_graph H limits a' b' c' l = Inr g"
  by (auto simp: rebuild_graph_def split: sum.splits if_splits)

text \<open>Everything a loaded lineage is, in terms of the rebuilt graph \<open>g\<close>.\<close>

definition loaded_from :: "hash_fun \<Rightarrow> Limits \<Rightarrow> StoredLineage \<Rightarrow> ProvenanceGraph \<Rightarrow> Lineage \<Rightarrow> bool" where
  "loaded_from H limits l g lin \<longleftrightarrow> rebuild_graph H limits [] [] [] l = Inr g
     \<and> nodes_mapped demoted g (l_graph lin)
     \<and> (\<forall>i. grows i H limits g (l_graph lin))
     \<and> l_state lin = recount (l_graph lin) (sl_state l)
     \<and> (ls_current_node (sl_state l) = 0 \<or> om_has (g_nodes (l_graph lin)) (ls_current_node (sl_state l)))
     \<and> l_attempts lin = fold (\<lambda>a m. om_emplace (fst (attempt_entry a)) (snd (attempt_entry a)) m)
          (sl_attempts l) om_empty"

lemma load_lineage_Inr:
  assumes "load_lineage H limits l = Inr lin"
  shows "\<exists>g. loaded_from H limits l g lin"
proof -
  obtain g where g: "rebuild_graph H limits ''stored record rejected: '' ''stored derivation rejected: ''
             ''stored lineage is inconsistent: '' l = Inr g"
    using assms by (auto simp: load_lineage_def split: sum.splits)
  then have "entries_ok g" using rebuild_graph_wf graph_wf_parts(1) by blast
  note d = demote_all [OF this]
  have "loaded_from H limits l g lin"
    using assms g d rebuild_prefix [OF g] grows_demote
    by (auto simp: load_lineage_def loaded_from_def find_node_def id_valid_def om_has_def split: if_splits)
  then show ?thesis by blast
qed

lemma loaded_fromD:
  assumes "loaded_from H limits l g lin"
  shows "graph_wf g" "graph_wf (l_graph lin)" "graph_bounded limits (l_graph lin)"
    "g_edges (l_graph lin) = g_edges g"
    "om_find (g_nodes (l_graph lin)) j = map_option demoted (om_find (g_nodes g) j)"
proof -
  have r: "graph_wf g \<and> graph_bounded limits g" and e: "grows 0 H limits g (l_graph lin)"
    using assms rebuild_graph_wf unfolding loaded_from_def by blast+
  show "graph_wf g" "graph_wf (l_graph lin)" "graph_bounded limits (l_graph lin)"
    using r evolves_wf [OF e] evolves_bounded [OF e] by blast+
  have "l_graph lin = g\<lparr>g_nodes := g_nodes (l_graph lin)\<rparr>"
    "om_find (g_nodes (l_graph lin)) j = map_option demoted (om_find (g_nodes g) j)"
    using assms unfolding loaded_from_def nodes_mapped_def by blast+
  then show "g_edges (l_graph lin) = g_edges g"
    "om_find (g_nodes (l_graph lin)) j = map_option demoted (om_find (g_nodes g) j)"
    by (metis ProvenanceGraph.select_convs(2) ProvenanceGraph.surjective ProvenanceGraph.update_convs(1))+
qed

lemma om_size_fold_emplace:
  "om_size (fold (\<lambda>a m. om_emplace (key a) (v a) m) xs m) \<le> om_size m + length xs"
proof (induction xs arbitrary: m)
  case (Cons x xs)
  have "om_size (om_emplace (key x) (v x) m) \<le> Suc (om_size m)" by (simp add: om_size_emplace)
  then show ?case using Cons [of "om_emplace (key x) (v x) m"] by simp
qed simp

section \<open>Loading the registry\<close>

lemma load_lineages_Inr:
  "load_lineages H limits ls reg = Inr reg' \<Longrightarrow>
     (\<forall>i lin. om_find (fst reg') i = Some lin \<longrightarrow> om_find (fst reg) i = Some lin
        \<or> (\<exists>l \<in> set ls. ls_id (sl_state l) = i \<and> load_lineage H limits l = Inr lin))
     \<and> (\<forall>i lin. om_find (fst reg) i = Some lin \<longrightarrow> om_find (fst reg') i = Some lin)
     \<and> (\<forall>l \<in> set ls. \<exists>lin. load_lineage H limits l = Inr lin
          \<and> om_find (fst reg') (ls_id (sl_state l)) = Some lin)
     \<and> om_size (fst reg') = om_size (fst reg) + length ls"
proof (induction ls arbitrary: reg)
  case (Cons l ls)
  then obtain lin where lin: "load_lineage H limits l = Inr lin"
    and new: "\<not> om_has (fst reg) (ls_id (sl_state l))"
    and rest: "load_lineages H limits ls (om_put (ls_id (sl_state l)) lin (fst reg),
        om_put (lk_route (ls_key (sl_state l))) (ls_id (sl_state l)) (snd reg)) = Inr reg'"
    by (auto split: sum.splits if_splits)
  have none: "om_find (fst reg) (ls_id (sl_state l)) = None" using new by (simp add: om_has_def)
  note ih = Cons.IH [OF rest, unfolded fst_conv om_find_put]
  show ?case
  proof (intro conjI allI impI ballI)
    fix i lin' assume "om_find (fst reg') i = Some lin'"
    then show "om_find (fst reg) i = Some lin'
        \<or> (\<exists>l \<in> set (l # ls). ls_id (sl_state l) = i \<and> load_lineage H limits l = Inr lin')"
      using ih [THEN conjunct1, rule_format, of i lin'] lin by (auto split: if_splits)
  next
    fix i lin' assume "om_find (fst reg) i = Some lin'"
    then show "om_find (fst reg') i = Some lin'"
      using ih [THEN conjunct2, THEN conjunct1, rule_format, of i lin'] none
      by (cases "i = ls_id (sl_state l)") simp_all
  next
    fix k assume "k \<in> set (l # ls)"
    then show "\<exists>lin. load_lineage H limits k = Inr lin \<and> om_find (fst reg') (ls_id (sl_state k)) = Some lin"
      using ih lin by auto
  next
    show "om_size (fst reg') = om_size (fst reg) + length (l # ls)"
      using ih new by (simp add: om_size_put)
  qed
qed simp

section \<open>Installing the image\<close>

lemma index_nodes_facts:
  "s_lineages (fold (\<lambda>n. index_node n i) ns st) = s_lineages st \<and>
   s_limits (fold (\<lambda>n. index_node n i) ns st) = s_limits st \<and>
   s_watermarks (fold (\<lambda>n. index_node n i) ns st) = s_watermarks st \<and>
   (\<forall>j k. om_find (s_node_owner (fold (\<lambda>n. index_node n i) ns st)) j = Some k \<longrightarrow>
      om_find (s_node_owner st) j = Some k \<or> k = i \<and> j \<in> n_id ` set ns)"
proof (induction ns arbitrary: st)
  case (Cons n ns)
  then show ?case using Cons.IH [of "index_node n i st"] by (auto split: if_splits)
qed simp

lemma index_lineages_facts:
  "s_lineages (index_lineages ls st) = s_lineages st \<and> s_limits (index_lineages ls st) = s_limits st \<and>
   s_watermarks (index_lineages ls st) = s_watermarks st \<and>
   (\<forall>j k. om_find (s_node_owner (index_lineages ls st)) j = Some k \<longrightarrow>
      om_find (s_node_owner st) j = Some k
      \<or> (\<exists>lin. om_find ls k = Some lin \<and> j \<in> n_id ` set (nodes_in_order (l_graph lin))))"
proof -
  have "s_lineages (fold (\<lambda>(i, lin) st. fold (\<lambda>n. index_node n i) (nodes_in_order (l_graph lin)) st) ps st) = s_lineages st
    \<and> s_limits (fold (\<lambda>(i, lin) st. fold (\<lambda>n. index_node n i) (nodes_in_order (l_graph lin)) st) ps st) = s_limits st
    \<and> s_watermarks (fold (\<lambda>(i, lin) st. fold (\<lambda>n. index_node n i) (nodes_in_order (l_graph lin)) st) ps st) = s_watermarks st
    \<and> (\<forall>j k. om_find (s_node_owner (fold (\<lambda>(i, lin) st. fold (\<lambda>n. index_node n i) (nodes_in_order (l_graph lin)) st) ps st)) j = Some k \<longrightarrow>
      om_find (s_node_owner st) j = Some k
      \<or> (\<exists>lin. (k, lin) \<in> set ps \<and> j \<in> n_id ` set (nodes_in_order (l_graph lin))))" for ps
  proof (induction ps arbitrary: st)
    case (Cons p ps)
    obtain i lin where p: "p = (i, lin)" by (cases p)
    let ?st = "fold (\<lambda>n. index_node n i) (nodes_in_order (l_graph lin)) st"
    show ?case
      using Cons.IH [of ?st] index_nodes_facts [of i "nodes_in_order (l_graph lin)" st]
      by (simp add: p) blast
  qed simp
  from this [of "om_entries ls"] show ?thesis unfolding index_lineages_def by (simp add: in_entries_iff)
qed

lemma node_currentness_cong:
  "s_watermarks st' = s_watermarks st \<Longrightarrow> s_publishers st' = s_publishers st \<Longrightarrow>
     node_currentness st' = node_currentness st"
  by (intro ext) (simp add: node_currentness_def publisher_state_def find_publisher_def)

lemma reevaluate_all_cong:
  assumes "s_watermarks st' = s_watermarks st" and "s_publishers st' = s_publishers st"
  shows "reevaluate_all st' lin = reevaluate_all st lin"
proof -
  have "refresh_record st' = refresh_record st"
    by (intro ext) (simp only: refresh_record_def node_currentness_cong [OF assms])
  then show ?thesis by (simp only: reevaluate_all_def)
qed

lemma reevaluate_lineages_facts:
  "s_limits (reevaluate_lineages st) = s_limits st \<and> s_publishers (reevaluate_lineages st) = s_publishers st
   \<and> s_watermarks (reevaluate_lineages st) = s_watermarks st \<and> s_node_owner (reevaluate_lineages st) = s_node_owner st
   \<and> s_recovered (reevaluate_lineages st) = s_recovered st
   \<and> (\<forall>i. om_find (s_lineages (reevaluate_lineages st)) i
        = map_option (reevaluate_all st) (om_find (s_lineages st) i))"
proof -
  let ?step = "\<lambda>(i, lin) st. put_lineage i (reevaluate_all st lin) st"
  have "s_limits (fold ?step ps s) = s_limits s \<and> s_publishers (fold ?step ps s) = s_publishers s
    \<and> s_watermarks (fold ?step ps s) = s_watermarks s \<and> s_node_owner (fold ?step ps s) = s_node_owner s
    \<and> s_recovered (fold ?step ps s) = s_recovered s
    \<and> (\<forall>i. om_find (s_lineages (fold ?step ps s)) i
         = (case map_of ps i of Some lin \<Rightarrow> Some (reevaluate_all s lin) | None \<Rightarrow> om_find (s_lineages s) i))"
    if "distinct (map fst ps)" for ps and s :: Store
    using that
  proof (induction ps arbitrary: s)
    case (Cons p ps)
    obtain i lin where p: "p = (i, lin)" by (cases p)
    let ?s = "put_lineage i (reevaluate_all s lin) s"
    have "reevaluate_all ?s = reevaluate_all s" by (intro ext reevaluate_all_cong) simp_all
    moreover have "s_recovered ?s = s_recovered s" by (simp add: put_lineage_def)
    moreover have "map_of ps i = None" using Cons.prems p by (simp add: map_of_eq_None_iff)
    ultimately show ?case
      using Cons.IH [of ?s] Cons.prems by (simp add: p split: option.split)
  qed simp
  moreover have "distinct (map fst (om_entries (s_lineages st)))"
    using distinct_om_keys [of "s_lineages st"] by (simp add: om_keys_def)
  ultimately have "s_limits (reevaluate_lineages st) = s_limits st \<and> s_publishers (reevaluate_lineages st) = s_publishers st
   \<and> s_watermarks (reevaluate_lineages st) = s_watermarks st \<and> s_node_owner (reevaluate_lineages st) = s_node_owner st
   \<and> s_recovered (reevaluate_lineages st) = s_recovered st
   \<and> (\<forall>i. om_find (s_lineages (reevaluate_lineages st)) i
        = (case map_of (om_entries (s_lineages st)) i of Some lin \<Rightarrow> Some (reevaluate_all st lin)
           | None \<Rightarrow> om_find (s_lineages st) i))"
    unfolding reevaluate_lineages_def by blast
  then show ?thesis by (simp add: om_find_def split: option.split)
qed

text \<open>The installed store, lineage by lineage.\<close>

lemma install_image_facts:
  shows "s_limits (install_image marks reg st) = s_limits st"
    and "s_publishers (install_image marks reg st) = om_empty"
    and "s_watermarks (install_image marks reg st) = marks"
    and "s_recovered (install_image marks reg st)"
    and "\<exists>st1. s_watermarks st1 = marks \<and> s_publishers st1 = om_empty
        \<and> (\<forall>i. find_lineage (install_image marks reg st) i = map_option (reevaluate_all st1) (om_find (fst reg) i))"
    and "om_find (s_node_owner (install_image marks reg st)) j = Some k \<Longrightarrow>
        \<exists>lin. om_find (fst reg) k = Some lin \<and> j \<in> n_id ` set (nodes_in_order (l_graph lin))"
proof -
  let ?st0 = "st\<lparr>s_lineages := fst reg, s_route_index := snd reg, s_node_owner := om_empty,
              s_route_generation_index := om_empty, s_path_index := om_empty,
              s_path_authority_index := om_empty, s_policy_index := om_empty,
              s_evidence_index := om_empty, s_boot_index := om_empty, s_publisher_index := om_empty,
              s_watermarks := marks\<rparr>"
  let ?st1 = "(index_lineages (fst reg) ?st0)\<lparr>s_publishers := om_empty, s_recovered := True\<rparr>"
  note i = index_lineages_facts [of "fst reg" ?st0]
  note r = reevaluate_lineages_facts [of ?st1]
  have e: "install_image marks reg st = reevaluate_lineages ?st1" by (simp add: install_image_def)
  show "s_limits (install_image marks reg st) = s_limits st"
    "s_publishers (install_image marks reg st) = om_empty"
    "s_watermarks (install_image marks reg st) = marks" "s_recovered (install_image marks reg st)"
    using i r by (simp_all add: e)
  have "s_watermarks ?st1 = marks \<and> s_publishers ?st1 = om_empty
      \<and> (\<forall>i. find_lineage (install_image marks reg st) i = map_option (reevaluate_all ?st1) (om_find (fst reg) i))"
    using i r by (simp add: e find_lineage_def)
  then show "\<exists>st1. s_watermarks st1 = marks \<and> s_publishers st1 = om_empty
        \<and> (\<forall>i. find_lineage (install_image marks reg st) i = map_option (reevaluate_all st1) (om_find (fst reg) i))"
    by blast
  assume "om_find (s_node_owner (install_image marks reg st)) j = Some k"
  then show "\<exists>lin. om_find (fst reg) k = Some lin \<and> j \<in> n_id ` set (nodes_in_order (l_graph lin))"
    using i r by (simp add: e)
qed

section \<open>How a load can fail\<close>

definition decode_failures :: "Outcome set" where
  "decode_failures = {O_StoreCorrupt, O_ResourceLimit, O_UnsupportedVersion}"

lemma corrupt_outcome [simp]: "st_outcome (corrupt d) = O_StoreCorrupt"
  by (simp add: corrupt_def)

lemma read_loop_failures:
  "read_loop step k r seen = Inl s \<Longrightarrow> (\<And>r seen s. step r seen = Inl s \<Longrightarrow> st_outcome s \<in> F) \<Longrightarrow> st_outcome s \<in> F"
  by (induction k arbitrary: r seen) (auto split: sum.splits)

lemma check_stored_outcomes:
  "\<not> st_is_ok (check_stored_node H i seen n) \<Longrightarrow> st_outcome (check_stored_node H i seen n) = O_StoreCorrupt"
  "\<not> st_is_ok (check_stored_edge H i seen' e) \<Longrightarrow> st_outcome (check_stored_edge H i seen' e) = O_StoreCorrupt"
  "\<not> st_is_ok (check_lineage_header limits hs a b c) \<Longrightarrow>
     st_outcome (check_lineage_header limits hs a b c) \<in> decode_failures"
  by (auto simp: decode_failures_def check_stored_node_def check_stored_edge_def check_lineage_header_def split: if_splits)

lemma decode_step_failures:
  "decode_node H limits i r seen_n = Inl s \<Longrightarrow> st_outcome s \<in> decode_failures"
  "decode_edge H limits i r seen_e = Inl s \<Longrightarrow> st_outcome s \<in> decode_failures"
  "decode_attempt limits r u = Inl s \<Longrightarrow> st_outcome s \<in> decode_failures"
  by (auto simp: decode_node_def decode_edge_def decode_attempt_def decode_failures_def check_stored_outcomes
      split: option.splits if_splits)

lemma read_lineage_header_failures:
  "read_lineage_header limits r = Inl s \<Longrightarrow> st_outcome s \<in> decode_failures"
  by (auto simp: read_lineage_header_def decode_failures_def Let_def split: prod.splits option.splits if_splits)

lemmas decode_loop_failures =
  read_loop_failures [OF _ decode_step_failures(1)] read_loop_failures [OF _ decode_step_failures(2)]
  read_loop_failures [OF _ decode_step_failures(3)]

lemma decode_lineage_failures: "decode_lineage H limits r seen = Inl s \<Longrightarrow> st_outcome s \<in> decode_failures"
  by (auto simp: decode_lineage_def Let_def check_stored_outcomes(3)
      dest: read_lineage_header_failures decode_loop_failures split: sum.splits prod.splits if_splits)
     (simp add: decode_failures_def)

lemma check_structures_failures:
  "\<not> st_is_ok (check_structures H limits ls) \<Longrightarrow> st_outcome (check_structures H limits ls) = O_StoreCorrupt"
proof (induction ls)
  case (Cons l ls)
  have "st_outcome s = O_StoreCorrupt" if "rebuild_graph H limits [] [] [] l = Inl s" for s
    using that by (auto simp: rebuild_graph_def split: sum.splits if_splits)
  then show ?case using Cons by (auto split: sum.splits)
qed simp

lemma decode_body_failures:
  "decode_body H limits k n e body = Inl s \<Longrightarrow> st_outcome s \<in> decode_failures"
  using read_loop_failures [of "decode_lineage H limits" _ _ _ s decode_failures] decode_lineage_failures
    check_structures_failures [of H limits]
  by (auto simp: decode_body_def split: sum.splits if_splits) (simp_all add: decode_failures_def)

lemma decode_store_image_failures:
  "decode_store_image H bytes limits = Inl s \<Longrightarrow> st_outcome s \<in> decode_failures"
  by (auto simp: decode_store_image_def Let_def dest: decode_body_failures
      split: if_splits prod.splits sum.splits) (simp_all add: decode_failures_def)

lemma load_lineages_failures:
  "load_lineages H limits ls reg = Inl s \<Longrightarrow> st_outcome s = O_StoreCorrupt"
proof (induction ls arbitrary: reg)
  case (Cons l ls)
  have d: "demote_records ns g = Inl s \<Longrightarrow> st_outcome s = O_StoreCorrupt" for ns g s
    by (induction ns arbitrary: g) (auto split: if_splits prod.splits)
  have r: "rebuild_graph H limits a b c l = Inl s \<Longrightarrow> st_outcome s = O_StoreCorrupt" for a b c s
    by (auto simp: rebuild_graph_def split: sum.splits if_splits)
  have "load_lineage H limits l = Inl s \<Longrightarrow> st_outcome s = O_StoreCorrupt" for s
    by (auto simp: load_lineage_def split: sum.splits if_splits dest: d r)
  then show ?case using Cons by (auto split: sum.splits if_splits)
qed simp

text \<open>The two outcomes of a load.\<close>

lemma load_cases:
  obtains (failed) "fst (load H path io fs st) = st"
      "st_outcome (snd (load H path io fs st)) \<in> insert O_MalformedRequest (insert O_IoFailure decode_failures)"
  | (loaded) bytes img reg where "fs path = Some bytes" "decode_store_image H bytes (s_limits st) = Inr img"
      "load_lineages H (s_limits st) (im_lineages img) (om_empty, om_empty) = Inr reg"
      "fst (load H path io fs st) = install_image (im_watermarks img) reg st"
      "st_outcome (snd (load H path io fs st)) = O_Updated"
proof (cases "path = []")
  case True
  then show ?thesis using failed by (simp add: load_def)
next
  case False
  show ?thesis
  proof (cases "read_store_image H path (s_limits st) io fs")
    case (Inl s)
    then have "st_outcome s \<in> insert O_IoFailure decode_failures"
      using decode_store_image_failures
      by (fastforce simp: read_store_image_def decode_failures_def split: option.splits if_splits)
    then show ?thesis using False Inl failed by (simp add: load_def)
  next
    case (Inr img)
    then obtain bytes where b: "fs path = Some bytes" "decode_store_image H bytes (s_limits st) = Inr img"
      by (auto simp: read_store_image_def split: option.splits if_splits)
    show ?thesis
    proof (cases "load_lineages H (s_limits st) (im_lineages img) (om_empty, om_empty)")
      case (Inl s)
      then show ?thesis
        using False Inr failed load_lineages_failures [OF Inl] by (simp add: load_def decode_failures_def)
    next
      case (Inr reg)
      then show ?thesis using False \<open>read_store_image _ _ _ _ _ = Inr img\<close> b loaded by (simp add: load_def)
    qed
  qed
qed

section \<open>What a load installs\<close>

lemma image_lineage:
  assumes "image_ok H limits img" and "l \<in> set (im_lineages img)"
  obtains seen where "stored_lineage_ok H limits seen l"
  using all_seen_all [of "stored_lineage_ok H limits" see_lineage no_seen "im_lineages img"
      "\<lambda>l. \<exists>seen. stored_lineage_ok H limits seen l" l] assms
  by (auto simp: image_ok_def)

lemma image_lineage_facts:
  assumes "image_ok H limits img" and "l \<in> set (im_lineages img)"
  shows "persisted_state (sl_state l) = sl_state l"
    and "length (sl_attempts l) \<le> max_attempts_per_lineage limits"
    and "\<forall>n \<in> set (sl_nodes l). n_lineage n = ls_id (sl_state l)"
    and "\<forall>e \<in> set (sl_edges l). e_lineage e = ls_id (sl_state l)"
proof -
  obtain seen where ok: "stored_lineage_ok H limits seen l" using image_lineage [OF assms] .
  then show "persisted_state (sl_state l) = sl_state l" by (simp add: stored_lineage_ok_def)
  have "st_is_ok (check_lineage_header limits (sl_state l) (length (sl_nodes l)) (length (sl_edges l)) (length (sl_attempts l)))"
    using ok by (simp add: stored_lineage_ok_def)
  then show "length (sl_attempts l) \<le> max_attempts_per_lineage limits"
    by (auto simp: check_lineage_header_def corrupt_def split: if_splits)
  have n: "all_seen (stored_node_ok H limits (ls_id (sl_state l))) see_node (fst seen) (sl_nodes l)"
    and e: "all_seen (stored_edge_ok H limits (ls_id (sl_state l))) see_edge (snd seen) (sl_edges l)"
    using ok by (simp_all add: stored_lineage_ok_def)
  show "\<forall>n \<in> set (sl_nodes l). n_lineage n = ls_id (sl_state l)"
    using all_seen_all [OF n, of "\<lambda>n. n_lineage n = ls_id (sl_state l)"] stored_node_okD by blast
  show "\<forall>e \<in> set (sl_edges l). e_lineage e = ls_id (sl_state l)"
    using all_seen_all [OF e, of "\<lambda>e. e_lineage e = ls_id (sl_state l)"] stored_edge_okD by blast
qed

definition recovered_node :: "DependencyWatermarks \<Rightarrow> LineageState \<Rightarrow> ProvenanceNode \<Rightarrow> ProvenanceNode" where
  "recovered_node marks s n =
     (let m = demoted n in m\<lparr>n_currentness := compute_currentness s m marks PL_Unknown\<rparr>)"

text \<open>A lineage of the loaded store, in terms of the stored one.\<close>

definition recovered_from :: "hash_fun \<Rightarrow> Limits \<Rightarrow> DependencyWatermarks \<Rightarrow> StoredLineage \<Rightarrow> Lineage \<Rightarrow> bool" where
  "recovered_from H limits marks l lin \<longleftrightarrow>
     persisted_state (l_state lin) = sl_state l
     \<and> (\<forall>j m. om_find (g_nodes (l_graph lin)) j = Some m \<longleftrightarrow>
          (\<exists>n \<in> set (sl_nodes l). n_id n = j \<and> m = recovered_node marks (l_state lin) n))
     \<and> (\<forall>j e. om_find (g_edges (l_graph lin)) j = Some e \<longleftrightarrow> e \<in> set (sl_edges l) \<and> e_id e = j)
     \<and> l_attempts lin = fold (\<lambda>a m. om_emplace (fst (attempt_entry a)) (snd (attempt_entry a)) m)
          (sl_attempts l) om_empty"

lemma persisted_recount [simp]: "persisted_state (recount g s) = persisted_state s"
  by (simp add: persisted_state_def recount_def)

lemma recount_simps [simp]:
  "ls_id (recount g s) = ls_id s" "ls_key (recount g s) = ls_key s"
  "ls_current_node (recount g s) = ls_current_node s"
  by (simp_all add: recount_def)

lemma reevaluated_lineage:
  assumes ok: "image_ok H limits img" and l: "l \<in> set (im_lineages img)"
    and f: "loaded_from H limits l g lin"
    and st1: "s_watermarks st1 = marks" "s_publishers st1 = om_empty"
  shows "recovered_from H limits marks l (reevaluate_all st1 lin)"
    and "derive_lineage_id H (ls_key (sl_state l)) = ls_id (sl_state l) \<Longrightarrow>
      lineage_inv H limits (ls_id (sl_state l)) (reevaluate_all st1 lin)"
proof -
  note facts = image_lineage_facts [OF ok l]
  note d = loaded_fromD [OF f]
  have r: "rebuild_graph H limits [] [] [] l = Inr g" and s: "l_state lin = recount (l_graph lin) (sl_state l)"
    and c: "ls_current_node (sl_state l) = 0 \<or> om_has (g_nodes (l_graph lin)) (ls_current_node (sl_state l))"
    and a: "l_attempts lin = fold (\<lambda>a m. om_emplace (fst (attempt_entry a)) (snd (attempt_entry a)) m)
          (sl_attempts l) om_empty"
    and grow: "\<And>i. grows i H limits g (l_graph lin)"
    using f by (simp_all add: loaded_from_def)
  note look = rebuild_graph_lookups [OF r]
  let ?lin = "reevaluate_all st1 lin"
  have "entries_ok (l_graph lin)" using graph_wf_parts(1) [OF d(2)] .
  from reevaluate_all_mapped [OF this, of st1]
  have m: "l_graph ?lin = (l_graph lin)\<lparr>g_nodes := g_nodes (l_graph ?lin)\<rparr>"
    "\<And>j. om_find (g_nodes (l_graph ?lin)) j = map_option
       (\<lambda>n. n\<lparr>n_currentness := node_currentness st1 (l_state lin) n\<rparr>) (om_find (g_nodes (l_graph lin)) j)"
    unfolding nodes_mapped_def by blast+
  have edges: "g_edges (l_graph ?lin) = g_edges g"
    using m(1) d(4) by (metis ProvenanceGraph.select_convs(2) ProvenanceGraph.surjective ProvenanceGraph.update_convs(1))
  have "node_currentness st1 s n = compute_currentness s n marks PL_Unknown" for s n
    by (simp add: node_currentness_def publisher_state_def find_publisher_def st1)
  then have nodes: "om_find (g_nodes (l_graph ?lin)) j
      = map_option (recovered_node marks (l_state lin)) (om_find (g_nodes g) j)" for j
    using m(2) [of j] d(5) [of j] by (cases "om_find (g_nodes g) j") (simp_all add: recovered_node_def Let_def)
  show "recovered_from H limits marks l ?lin"
    using nodes look facts(1) a unfolding recovered_from_def by (auto simp: s edges)
  assume id: "derive_lineage_id H (ls_key (sl_state l)) = ls_id (sl_state l)"
  let ?i = "ls_id (sl_state l)"
  have e: "grows ?i H limits (l_graph lin) (l_graph ?lin)" by (rule reevaluate_all_grows)
  have "graph_of ?i (l_graph ?lin)"
    using evolves_graph_of [OF evolves_trans [OF grow e] rebuild_graph_of [OF r facts(3,4)] commit_op_lineage] .
  moreover have "om_size (l_attempts lin) \<le> max_attempts_per_lineage limits"
    using om_size_fold_emplace [of "\<lambda>a. fst (attempt_entry a)" "\<lambda>a. snd (attempt_entry a)" "sl_attempts l" om_empty]
      facts(2) by (simp add: a)
  ultimately show "lineage_inv H limits ?i ?lin"
    using evolves_wf [OF e d(2)] evolves_bounded [OF e d(2,3)] c evolves_nodes [OF e] id
    by (auto simp: lineage_inv_def s)
qed

lemma load_installed:
  assumes dec: "decode_store_image H bytes (s_limits st) = Inr img"
    and reg: "load_lineages H (s_limits st) (im_lineages img) (om_empty, om_empty) = Inr reg"
    and st': "st' = install_image (im_watermarks img) reg st"
  shows "\<And>l. l \<in> set (im_lineages img) \<Longrightarrow> \<exists>lin. find_lineage st' (ls_id (sl_state l)) = Some lin
           \<and> recovered_from H (s_limits st) (im_watermarks img) l lin"
    and "\<And>i lin. find_lineage st' i = Some lin \<Longrightarrow> \<exists>l \<in> set (im_lineages img). ls_id (sl_state l) = i
           \<and> recovered_from H (s_limits st) (im_watermarks img) l lin"
    and "(\<And>l. l \<in> set (im_lineages img) \<Longrightarrow> derive_lineage_id H (ls_key (sl_state l)) = ls_id (sl_state l))
         \<Longrightarrow> store_inv H st'"
proof -
  note ok = decode_store_image_Inr(1) [OF dec]
  obtain st1 where st1: "s_watermarks st1 = im_watermarks img" "s_publishers st1 = om_empty"
    "\<And>i. find_lineage st' i = map_option (reevaluate_all st1) (om_find (fst reg) i)"
    using install_image_facts(5) unfolding st' by blast
  note l = load_lineages_Inr [OF reg]
  have origin: "\<exists>k \<in> set (im_lineages img). ls_id (sl_state k) = i \<and> (\<exists>g. loaded_from H (s_limits st) k g lin0)"
    if "om_find (fst reg) i = Some lin0" for i lin0
    using that l load_lineage_Inr by fastforce
  show "\<exists>lin. find_lineage st' (ls_id (sl_state k)) = Some lin
      \<and> recovered_from H (s_limits st) (im_watermarks img) k lin" if k: "k \<in> set (im_lineages img)" for k
  proof -
    obtain lin0 g where "om_find (fst reg) (ls_id (sl_state k)) = Some lin0" "loaded_from H (s_limits st) k g lin0"
      using l load_lineage_Inr k by blast
    then show ?thesis using reevaluated_lineage(1) [OF ok k _ st1(1,2)] st1(3) by simp
  qed
  show "\<exists>k \<in> set (im_lineages img). ls_id (sl_state k) = i
      \<and> recovered_from H (s_limits st) (im_watermarks img) k lin" if f: "find_lineage st' i = Some lin" for i lin
  proof -
    obtain lin0 where "om_find (fst reg) i = Some lin0" "lin = reevaluate_all st1 lin0"
      using f st1(3) by auto
    then show ?thesis using origin [of i lin0] reevaluated_lineage(1) [OF ok _ _ st1(1,2)] by blast
  qed
  assume ids: "\<And>l. l \<in> set (im_lineages img) \<Longrightarrow> derive_lineage_id H (ls_key (sl_state l)) = ls_id (sl_state l)"
  have lims: "s_limits st' = s_limits st" "s_publishers st' = om_empty"
    using install_image_facts(1,2) by (simp_all add: st')
  have inv: "lineage_inv H (s_limits st') i lin" if f: "find_lineage st' i = Some lin" for i lin
  proof -
    obtain lin0 where "om_find (fst reg) i = Some lin0" "lin = reevaluate_all st1 lin0"
      using f st1(3) by auto
    then show ?thesis
      using origin [of i lin0] reevaluated_lineage(2) [OF ok _ _ st1(1,2)] ids lims(1) by auto
  qed
  have "om_has (s_lineages st') = om_has (fst reg)"
    using st1(3) by (intro ext) (simp add: find_lineage_def om_has_def)
  then have "om_size (s_lineages st') = om_size (fst reg)" by (simp add: om_size_card)
  also have "\<dots> \<le> max_lineages (s_limits st)" using l ok by (simp add: image_ok_def)
  finally have sz: "om_size (s_lineages st') \<le> max_lineages (s_limits st')" using lims by simp
  have "owners_inv st'"
    unfolding owners_inv_def
  proof (intro allI impI)
    fix j k assume "om_find (s_node_owner st') j = Some k"
    then obtain lin0 where lin0: "om_find (fst reg) k = Some lin0" "j \<in> n_id ` set (nodes_in_order (l_graph lin0))"
      using install_image_facts(6) unfolding st' by blast
    then obtain g k' where "loaded_from H (s_limits st) k' g lin0" using origin by blast
    then have "entries_ok (l_graph lin0)" using loaded_fromD(2) graph_wf_parts(1) by blast
    then have "om_has (g_nodes (l_graph lin0)) j"
      using lin0(2) node_of_order [of "l_graph lin0"] by (auto simp: om_has_def)
    then show "\<exists>lin. find_lineage st' k = Some lin \<and> om_has (g_nodes (l_graph lin)) j"
      using st1(3) lin0(1) evolves_nodes [OF reevaluate_all_grows] by auto
  qed
  then show "store_inv H st'" using inv sz lims by (auto simp: store_inv_def publishers_inv_def)
qed

text \<open>
  C9: A load either fails and changes nothing, with one of the documented failure outcomes, or it
  installs exactly what the file says: every stored lineage is there with its stored state, every
  stored record (demoted if it was current on a session's word, and with its currentness evaluated
  afresh as that of an unknown publisher), every stored derivation and every stored attempt; and
  nothing else is there.
\<close>

theorem load_exact:
  "(fst (load H path io fs st) = st \<and> st_outcome (snd (load H path io fs st))
      \<in> {O_MalformedRequest, O_IoFailure, O_StoreCorrupt, O_ResourceLimit, O_UnsupportedVersion})
   \<or> (\<exists>bytes img. fs path = Some bytes \<and> decode_store_image H bytes (s_limits st) = Inr img
        \<and> st_outcome (snd (load H path io fs st)) = O_Updated
        \<and> s_watermarks (fst (load H path io fs st)) = im_watermarks img
        \<and> (\<forall>l \<in> set (im_lineages img). \<exists>lin.
             find_lineage (fst (load H path io fs st)) (ls_id (sl_state l)) = Some lin
             \<and> recovered_from H (s_limits st) (im_watermarks img) l lin)
        \<and> (\<forall>i lin. find_lineage (fst (load H path io fs st)) i = Some lin \<longrightarrow>
             (\<exists>l \<in> set (im_lineages img). ls_id (sl_state l) = i
                \<and> recovered_from H (s_limits st) (im_watermarks img) l lin)))"
proof (cases rule: load_cases [of H path io fs st])
  case failed
  then show ?thesis by (simp add: decode_failures_def)
next
  case (loaded bytes img reg)
  note inst = load_installed(1,2) [OF loaded(2,3,4)]
  show ?thesis
  proof (rule disjI2, intro exI conjI)
    show "s_watermarks (fst (load H path io fs st)) = im_watermarks img"
      using install_image_facts(3) loaded(4) by simp
  qed (use loaded inst in blast)+
qed

lemma demoted_simps [simp]:
  "n_revalidated (demoted n) = n_revalidated n" "n_id (demoted n) = n_id n"
  by (simp_all add: demoted_def)

lemma unknown_current:
  "compute_currentness s n marks PL_Unknown = CU_Current \<Longrightarrow> n_revalidated n \<and> \<not> n_revalidation_required n"
  by (auto simp: compute_currentness_def split: if_splits)

lemma no_session_no_commit:
  assumes "s_publishers st = om_empty"
  shows "fst (commit H rq st) = st \<and> r_value (snd (commit H rq st)) = None"
proof -
  have "stage_authority H rq st \<noteq> Inr i" for i
  proof
    assume "stage_authority H rq st = Inr i"
    from stage_authority_Inr [OF this] show False
      using assms by (simp add: publisher_is_live_def find_publisher_def)
  qed
  then show ?thesis using stage_authority_Inl by (cases rule: commit_cases [of H rq st]) auto
qed

text \<open>What a load leaves: no session, and nothing current that was not revalidated.\<close>

lemma load_leaves:
  assumes "st_outcome (snd (load H path io fs st)) = O_Updated"
  shows "s_publishers (fst (load H path io fs st)) = om_empty" "s_recovered (fst (load H path io fs st))"
    and "find_lineage (fst (load H path io fs st)) i = Some lin \<Longrightarrow> om_find (g_nodes (l_graph lin)) j = Some n \<Longrightarrow>
      n_currentness n = CU_Current \<Longrightarrow> n_revalidated n \<and> \<not> n_revalidation_required n"
proof -
  obtain bytes img reg where loaded: "decode_store_image H bytes (s_limits st) = Inr img"
    "load_lineages H (s_limits st) (im_lineages img) (om_empty, om_empty) = Inr reg"
    "fst (load H path io fs st) = install_image (im_watermarks img) reg st"
    using assms by (cases rule: load_cases [of H path io fs st]) (auto simp: decode_failures_def)
  show "s_publishers (fst (load H path io fs st)) = om_empty" "s_recovered (fst (load H path io fs st))"
    using install_image_facts(2,4) loaded(3) by simp_all
  assume f: "find_lineage (fst (load H path io fs st)) i = Some lin"
    and n: "om_find (g_nodes (l_graph lin)) j = Some n" and c: "n_currentness n = CU_Current"
  obtain l where "recovered_from H (s_limits st) (im_watermarks img) l lin"
    using load_installed(2) [OF loaded f] by blast
  then obtain m where "n = recovered_node (im_watermarks img) (l_state lin) m"
    using n unfolding recovered_from_def by blast
  then show "n_revalidated n \<and> \<not> n_revalidation_required n"
    using c unknown_current [of "l_state lin" "demoted m" "im_watermarks img"]
    by (simp add: recovered_node_def Let_def)
qed

text \<open>
  C10: Recovery is conservative. After a successful load no publisher session exists, so no boot is
  live and every commit is refused without effect until somebody registers; and no record is current
  unless it carries an explicit revalidation that nothing has since required again.
\<close>

theorem load_conservative:
  assumes "st_outcome (snd (load H path io fs st)) = O_Updated"
  shows "s_recovered (fst (load H path io fs st))
    \<and> (\<forall>p b. find_publisher (fst (load H path io fs st)) p b = None)
    \<and> (\<forall>rq. fst (commit H rq (fst (load H path io fs st))) = fst (load H path io fs st)
          \<and> r_value (snd (commit H rq (fst (load H path io fs st)))) = None)
    \<and> (\<forall>i lin j n. find_lineage (fst (load H path io fs st)) i = Some lin \<longrightarrow>
          om_find (g_nodes (l_graph lin)) j = Some n \<longrightarrow> n_currentness n = CU_Current \<longrightarrow>
          n_revalidated n \<and> \<not> n_revalidation_required n)"
  using load_leaves [OF assms] no_session_no_commit [OF load_leaves(1) [OF assms]]
  by (auto simp: find_publisher_def)


section \<open>Atomic replacement\<close>


section \<open>Saving and loading\<close>

text \<open>The part of an image the file carries.\<close>

definition persisted_lineage :: "StoredLineage \<Rightarrow> StoredLineage" where
  "persisted_lineage l = l\<lparr>sl_state := persisted_state (sl_state l)\<rparr>"

definition persisted_image :: "StoreImage \<Rightarrow> StoreImage" where
  "persisted_image img = \<lparr>im_watermarks = (im_watermarks img)\<lparr>wm_digest := zero_digest\<rparr>,
     im_lineages = map persisted_lineage (im_lineages img)\<rparr>"

lemma persisted_image_simps [simp]:
  "im_lineages (persisted_image img) = map persisted_lineage (im_lineages img)"
  "im_watermarks (persisted_image img) = (im_watermarks img)\<lparr>wm_digest := zero_digest\<rparr>"
  "sl_nodes (persisted_lineage l) = sl_nodes l" "sl_edges (persisted_lineage l) = sl_edges l"
  "sl_attempts (persisted_lineage l) = sl_attempts l"
  "sl_state (persisted_lineage l) = persisted_state (sl_state l)"
  by (simp_all add: persisted_image_def persisted_lineage_def)

lemma write_persisted: "write_lineage (persisted_lineage l) = write_lineage l"
  by (intro ext) (simp add: write_lineage_bytes lineage_header_bytes_def persisted_lineage_def persisted_state_def)

lemma encode_persisted: "encode_store_image H (persisted_image img) limits = encode_store_image H img limits"
proof -
  have "encode_lineages limits (map persisted_lineage ls) body = encode_lineages limits ls body" for ls body
    by (induction ls arbitrary: body) (simp_all add: write_persisted)
  moreover have "image_node_count (persisted_image img) = image_node_count img"
    "image_edge_count (persisted_image img) = image_edge_count img"
    by (simp_all add: image_node_count_def image_edge_count_def o_def)
  moreover from this have "write_header (persisted_image img) n w = write_header img n w" for n w
    by (simp add: write_header_def Let_def)
  ultimately show ?thesis by (simp add: encode_store_image_def Let_def split: sum.split)
qed

text \<open>
  C14: The image codec is lossless and the decoder trusts nothing. Every valid image decodes, from
  the bytes it is encoded to, to itself. And whatever bytes decode, they fit the size bound, carry the
  magic number and the integrity digest of everything before it, and yield a valid image: records,
  derivations and derivation identities are distinct over the whole file, every uncompacted record and
  every derivation has the identity its content derives, and each lineage rebuilds to a well-formed,
  acyclic graph within the limits.
\<close>

theorem image_round_trip:
  assumes "limits_typed limits"
  shows "(image_ok H limits img \<longrightarrow> encode_store_image H img limits = Inr bytes \<longrightarrow>
        decode_store_image H bytes limits = Inr img)
   \<and> (decode_store_image H bytes limits = Inr img \<longrightarrow>
        image_ok H limits img
        \<and> length bytes \<le> max_store_bytes limits \<and> take 8 bytes = kMagic
        \<and> drop (length bytes - 32) bytes = digest_bytes (H (take (length bytes - 32) bytes))
        \<and> distinct (concat (map (\<lambda>l. map n_id (sl_nodes l)) (im_lineages img)))
        \<and> distinct (concat (map (\<lambda>l. map e_id (sl_edges l)) (im_lineages img)))
        \<and> (\<forall>l \<in> set (im_lineages img).
             (\<forall>n \<in> set (sl_nodes l). n_kind n \<noteq> NK_CompactedSummary \<longrightarrow> n_id n = derive_node_id H n)
             \<and> (\<forall>e \<in> set (sl_edges l). e_id e = compute_edge_id H e)
             \<and> (\<exists>g. rebuild_graph H limits [] [] [] l = Inr g \<and> graph_wf g \<and> graph_bounded limits g)))"
proof -
  have "(\<forall>n \<in> set (sl_nodes l). n_kind n \<noteq> NK_CompactedSummary \<longrightarrow> n_id n = derive_node_id H n)
      \<and> (\<forall>e \<in> set (sl_edges l). e_id e = compute_edge_id H e)
      \<and> (\<exists>g. rebuild_graph H limits [] [] [] l = Inr g \<and> graph_wf g \<and> graph_bounded limits g)"
    if ok: "image_ok H limits img" and l: "l \<in> set (im_lineages img)" for l
  proof -
    obtain seen where s: "stored_lineage_ok H limits seen l" using image_lineage [OF ok l] .
    then have n: "all_seen (stored_node_ok H limits (ls_id (sl_state l))) see_node (fst seen) (sl_nodes l)"
      and e: "all_seen (stored_edge_ok H limits (ls_id (sl_state l))) see_edge (snd seen) (sl_edges l)"
      by (simp_all add: stored_lineage_ok_def)
    have "\<exists>g. rebuild_graph H limits [] [] [] l = Inr g"
      using ok l check_structures_ok by (simp add: image_ok_def)
    then show ?thesis
      using all_seen_all [OF n, of "\<lambda>n. n_kind n \<noteq> NK_CompactedSummary \<longrightarrow> n_id n = derive_node_id H n"]
        all_seen_all [OF e, of "\<lambda>e. e_id e = compute_edge_id H e"]
        stored_node_okD stored_edge_okD rebuild_graph_wf by blast
  qed
  moreover have "distinct (concat (map (\<lambda>l. map n_id (sl_nodes l)) (im_lineages img)))
      \<and> distinct (concat (map (\<lambda>l. map e_id (sl_edges l)) (im_lineages img)))" if "image_ok H limits img"
    using that image_distinct [of H limits "im_lineages img"] by (simp add: image_ok_def)
  ultimately show ?thesis
    using decode_encoded [of H limits img bytes] assms decode_store_image_Inr [of H bytes limits img]
    by blast
qed

lemma load_lineage_succeeds:
  assumes r: "rebuild_graph H limits [] [] [] l = Inr g"
    and c: "ls_current_node (sl_state l) = 0 \<or> ls_current_node (sl_state l) \<in> n_id ` set (sl_nodes l)"
  shows "\<exists>lin. load_lineage H limits l = Inr lin"
proof -
  note wf = conjunct1 [OF rebuild_graph_wf [OF r]]
  note d = demote_all [OF graph_wf_parts(1) [OF wf]]
  have "om_has (g_nodes g) j" if "j \<in> n_id ` set (sl_nodes l)" for j
    using that rebuild_graph_lookups(1) [OF r] by (auto simp: om_has_def)
  then have "ls_current_node (sl_state l) = 0
      \<or> find_node (fold demote_step (nodes_in_order g) g) (ls_current_node (sl_state l)) \<noteq> None"
    using c d(2) by (fastforce simp: nodes_mapped_def find_node_def om_has_def)
  then show ?thesis using rebuild_prefix [OF r] d(1) by (auto simp: load_lineage_def id_valid_def)
qed

lemma load_lineages_succeeds:
  assumes "\<forall>l \<in> set ls. \<exists>lin. load_lineage H limits l = Inr lin"
    and "distinct (map (\<lambda>l. ls_id (sl_state l)) ls)" and "distinct (map (\<lambda>l. lk_route (ls_key (sl_state l))) ls)"
    and "\<forall>l \<in> set ls. \<not> om_has (fst reg) (ls_id (sl_state l)) \<and> \<not> om_has (snd reg) (lk_route (ls_key (sl_state l)))"
  shows "\<exists>reg'. load_lineages H limits ls reg = Inr reg'"
  using assms
proof (induction ls arbitrary: reg)
  case (Cons l ls)
  then obtain lin where "load_lineage H limits l = Inr lin" by auto
  moreover have "\<exists>reg'. load_lineages H limits ls (om_put (ls_id (sl_state l)) lin (fst reg),
      om_put (lk_route (ls_key (sl_state l))) (ls_id (sl_state l)) (snd reg)) = Inr reg'"
    using Cons.prems by (intro Cons.IH) (auto simp: image_iff)
  ultimately show ?case using Cons.prems(4) by simp
qed simp

lemma attempts_rebuilt:
  "fold (\<lambda>a m. om_emplace (fst (attempt_entry a)) (snd (attempt_entry a)) m)
     (map stored_attempt (om_entries attempts)) om_empty = attempts"
proof (rule om_ext)
  fix k
  have e: "attempt_entry (stored_attempt p) = p" for p
    by (cases p) (simp add: attempt_entry_def stored_attempt_def)
  have "om_find (fold (\<lambda>a m. om_emplace (fst (attempt_entry a)) (snd (attempt_entry a)) m)
      (map stored_attempt ps) m) k = (case om_find m k of Some v \<Rightarrow> Some v | None \<Rightarrow> map_of ps k)" for ps m
    by (induction ps arbitrary: m) (auto simp: e om_find_emplace split: option.splits)
  then show "om_find (fold (\<lambda>a m. om_emplace (fst (attempt_entry a)) (snd (attempt_entry a)) m)
      (map stored_attempt (om_entries attempts)) om_empty) k = om_find attempts k"
    by (simp add: om_find_def [symmetric])
qed

lemma lineage_of_export:
  "l \<in> set (im_lineages (persisted_image (export_image st))) \<longleftrightarrow>
     (\<exists>i lin. find_lineage st i = Some lin \<and> l = persisted_lineage (stored_lineage lin))"
proof -
  have "l \<in> set (im_lineages (persisted_image (export_image st))) \<longleftrightarrow>
      (\<exists>lin. lin \<in> set (om_values (s_lineages st)) \<and> l = persisted_lineage (stored_lineage lin))"
    by (auto simp: export_image_def)
  then show ?thesis unfolding set_om_values find_lineage_def by blast
qed

lemma stored_lineage_simps [simp]:
  "sl_state (stored_lineage lin) = l_state lin" "sl_nodes (stored_lineage lin) = nodes_in_order (l_graph lin)"
  "sl_edges (stored_lineage lin) = edges_in_order (l_graph lin)"
  "sl_attempts (stored_lineage lin) = map stored_attempt (om_entries (l_attempts lin))"
  by (simp_all add: stored_lineage_def)

lemma persisted_state_simps [simp]:
  "ls_id (persisted_state s) = ls_id s" "ls_key (persisted_state s) = ls_key s"
  "ls_current_node (persisted_state s) = ls_current_node s" "ls_lifecycle (persisted_state s) = ls_lifecycle s"
  "ls_lineage_generation (persisted_state s) = ls_lineage_generation s"
  by (simp_all add: persisted_state_def)

lemma export_ids:
  assumes "store_inv H st"
  shows "map (\<lambda>l. ls_id (sl_state l)) (im_lineages (persisted_image (export_image st))) = om_keys (s_lineages st)"
proof -
  have "ls_id (l_state lin) = i" if "(i, lin) \<in> set (om_entries (s_lineages st))" for i lin
    using that store_invD(1) [OF assms, of i lin] by (simp add: in_entries_iff find_lineage_def lineage_inv_def)
  then show ?thesis by (auto simp: export_image_def om_values_def om_keys_def)
qed

definition routes_distinct :: "Store \<Rightarrow> bool" where
  "routes_distinct st \<longleftrightarrow> distinct (map (\<lambda>lin. lk_route (ls_key (l_state lin))) (om_values (s_lineages st)))"

lemma load_saved:
  assumes inv: "store_inv H st" and ok: "image_ok H (s_limits st) (persisted_image (export_image st))"
    and typed: "limits_typed (s_limits st)" and routes: "routes_distinct st"
    and enc: "encode_store_image H (export_image st) (s_limits st) = Inr bytes"
    and stored: "fs path = Some bytes" "path \<noteq> []" and lim: "s_limits st2 = s_limits st"
    and io: "re_size io" "re_open io" "length bytes \<le> re_read io"
  shows "st_outcome (snd (load H path io fs st2)) = O_Updated"
    and "find_lineage st i = Some lin \<Longrightarrow> \<exists>lin'. find_lineage (fst (load H path io fs st2)) i = Some lin'
       \<and> recovered_from H (s_limits st) (s_watermarks st\<lparr>wm_digest := zero_digest\<rparr>)
           (persisted_lineage (stored_lineage lin)) lin'"
proof -
  let ?img = "persisted_image (export_image st)"
  have enc': "encode_store_image H ?img (s_limits st) = Inr bytes" using enc by (simp add: encode_persisted)
  have dec: "decode_store_image H bytes (s_limits st2) = Inr ?img"
    unfolding lim by (rule decode_encoded [OF ok typed enc'])
  have len: "length bytes \<le> max_store_bytes (s_limits st)" using encode_store_image_Inr(2) [OF enc'] .
  have one: "\<exists>lin. load_lineage H (s_limits st2) l = Inr lin" if l: "l \<in> set (im_lineages ?img)" for l
  proof -
    obtain k lin where lin: "find_lineage st k = Some lin" "l = persisted_lineage (stored_lineage lin)"
      using l lineage_of_export by blast
    note li = store_invD(1) [OF inv lin(1), unfolded lineage_inv_def]
    have "entries_ok (l_graph lin)" using graph_wf_parts(1) li by blast
    from nodes_in_order_ids [OF this]
    have "n_id ` set (nodes_in_order (l_graph lin)) = {j. om_has (g_nodes (l_graph lin)) j}"
      by (metis image_set set_om_keys)
    moreover obtain g where "rebuild_graph H (s_limits st) [] [] [] l = Inr g"
      using ok l check_structures_ok unfolding image_ok_def by blast
    ultimately show ?thesis
      using li lin(2) unfolding lim by (intro load_lineage_succeeds) auto
  qed
  have "distinct (map (\<lambda>l. ls_id (sl_state l)) (im_lineages ?img))" by (simp only: export_ids [OF inv]) simp
  moreover have "distinct (map (\<lambda>l. lk_route (ls_key (sl_state l))) (im_lineages ?img))"
    using routes by (simp add: routes_distinct_def export_image_def o_def)
  ultimately obtain reg where reg: "load_lineages H (s_limits st2) (im_lineages ?img) (om_empty, om_empty) = Inr reg"
    using load_lineages_succeeds [of "im_lineages ?img" H "s_limits st2" "(om_empty, om_empty)"] one by auto
  have load: "load H path io fs st2 = (install_image (im_watermarks ?img) reg st2,
      st_ok_with O_Updated ''store loaded and recovered'')"
    using stored io len dec reg lim by (simp add: load_def read_store_image_def)
  then show "st_outcome (snd (load H path io fs st2)) = O_Updated" by simp
  assume f: "find_lineage st i = Some lin"
  let ?l = "persisted_lineage (stored_lineage lin)"
  have "?l \<in> set (im_lineages ?img)" using f lineage_of_export by blast
  moreover have "ls_id (sl_state ?l) = i" using store_invD(1) [OF inv f] by (simp add: lineage_inv_def)
  ultimately show "\<exists>lin'. find_lineage (fst (load H path io fs st2)) i = Some lin'
       \<and> recovered_from H (s_limits st) (s_watermarks st\<lparr>wm_digest := zero_digest\<rparr>) ?l lin'"
    using load_installed(1) [OF dec reg, of "fst (load H path io fs st2)" ?l] load lim
    by (simp add: export_image_def)
qed

lemma recovered_kept: "record_kept n (recovered_node marks s n)"
proof -
  have "is_valid_lifecycle_transition NL_Current NL_RevalidationRequired"
    by (simp add: is_valid_lifecycle_transition_def)
  then show ?thesis
    by (auto simp: record_kept_def recovered_node_def demoted_def demotes_def core_of_def Let_def r_into_rtranclp)
qed

lemma recovered_export:
  assumes inv: "lineage_inv H limits i lin"
    and r: "recovered_from H limits marks (persisted_lineage (stored_lineage lin)) lin'"
  shows "ls_key (l_state lin') = ls_key (l_state lin)
    \<and> ls_lifecycle (l_state lin') = ls_lifecycle (l_state lin)
    \<and> ls_lineage_generation (l_state lin') = ls_lineage_generation (l_state lin)
    \<and> l_attempts lin' = l_attempts lin \<and> g_edges (l_graph lin') = g_edges (l_graph lin)
    \<and> (\<forall>j. om_find (g_nodes (l_graph lin')) j
         = map_option (recovered_node marks (l_state lin')) (om_find (g_nodes (l_graph lin)) j))"
proof -
  have e: "entries_ok (l_graph lin)" using inv graph_wf_parts(1) by (simp add: lineage_inv_def)
  have s: "persisted_state (l_state lin') = persisted_state (l_state lin)"
    using r by (simp add: recovered_from_def)
  have "ls_key (l_state lin') = ls_key (l_state lin) \<and> ls_lifecycle (l_state lin') = ls_lifecycle (l_state lin)
    \<and> ls_lineage_generation (l_state lin') = ls_lineage_generation (l_state lin)"
    using arg_cong [OF s, of ls_key] arg_cong [OF s, of ls_lifecycle] arg_cong [OF s, of ls_lineage_generation]
    by simp
  moreover have "l_attempts lin' = l_attempts lin"
    using r attempts_rebuilt by (simp add: recovered_from_def)
  moreover have "g_edges (l_graph lin') = g_edges (l_graph lin)"
  proof (rule om_ext)
    fix j
    have "om_find (g_edges (l_graph lin')) j = Some x \<longleftrightarrow> om_find (g_edges (l_graph lin)) j = Some x" for x
      using r e by (auto simp: recovered_from_def edges_in_order_def set_om_values entries_ok_def)
    then show "om_find (g_edges (l_graph lin')) j = om_find (g_edges (l_graph lin)) j"
      by (metis not_None_eq)
  qed
  moreover have "om_find (g_nodes (l_graph lin')) j
      = map_option (recovered_node marks (l_state lin')) (om_find (g_nodes (l_graph lin)) j)" for j
  proof -
    have look: "om_find (g_nodes (l_graph lin')) j = Some m \<longleftrightarrow> (\<exists>n. om_find (g_nodes (l_graph lin)) j = Some n
        \<and> m = recovered_node marks (l_state lin') n)" for m
    proof -
      have "n \<in> set (nodes_in_order (l_graph lin)) \<and> n_id n = j \<longleftrightarrow> om_find (g_nodes (l_graph lin)) j = Some n" for n
        using node_of_order [OF e] e by (auto simp: entries_ok_def)
      moreover have "om_find (g_nodes (l_graph lin')) j = Some m \<longleftrightarrow> (\<exists>n \<in> set (nodes_in_order (l_graph lin)).
          n_id n = j \<and> m = recovered_node marks (l_state lin') n)"
        using r by (simp add: recovered_from_def)
      ultimately show ?thesis by blast
    qed
    show ?thesis
    proof (cases "om_find (g_nodes (l_graph lin)) j")
      case None
      then show ?thesis using look by (cases "om_find (g_nodes (l_graph lin')) j") auto
    next
      case (Some n)
      then show ?thesis using look [of "recovered_node marks (l_state lin') n"] by simp
    qed
  qed
  ultimately show ?thesis by blast
qed

lemma save_Ok:
  assumes "st_is_ok (snd (save H path io st fs))"
  obtains bytes where "encode_store_image H (export_image st) (s_limits st) = Inr bytes" "path \<noteq> []"
    "last (fst (save H path io st fs)) path = Some bytes" "length bytes \<le> max_store_bytes (s_limits st)"
proof -
  have tmp: "sidecar_path path \<noteq> path" by (simp add: sidecar_path_def)
  have p: "path \<noteq> []" using assms by (auto simp: save_def)
  show ?thesis
  proof (cases "encode_store_image H (export_image st) (s_limits st)")
    case (Inl s)
    then have "\<not> st_is_ok s"
      by (auto simp: encode_store_image_def encode_lineages_result Let_def split: if_splits)
    then show ?thesis using Inl assms p by (simp add: save_def write_store_image_atomic_def)
  next
    case (Inr bytes)
    have "last (fst (save H path io st fs)) path = Some bytes"
      using assms tmp Inr p by (auto simp: save_def write_store_image_atomic_def Let_def split: if_splits)
    then show ?thesis using that Inr p encode_store_image_Inr(2) [OF Inr] by blast
  qed
qed


lemma load_lineages_routes:
  "load_lineages H limits ls reg = Inr reg' \<Longrightarrow> distinct (map (\<lambda>l. lk_route (ls_key (sl_state l))) ls)
     \<and> (\<forall>l \<in> set ls. \<not> om_has (snd reg) (lk_route (ls_key (sl_state l))))"
proof (induction ls arbitrary: reg)
  case (Cons l ls)
  then obtain lin where "\<not> om_has (snd reg) (lk_route (ls_key (sl_state l)))"
    and "load_lineages H limits ls (om_put (ls_id (sl_state l)) lin (fst reg),
        om_put (lk_route (ls_key (sl_state l))) (ls_id (sl_state l)) (snd reg)) = Inr reg'"
    by (auto split: sum.splits if_splits)
  then show ?case using Cons.IH by fastforce
qed simp

text \<open>
  C32: A store whose lineages share a route cannot be recovered. The pipeline keys lineages by route and
  semantic key and accepts two of them on one route, but the loader insists on one lineage per route:
  a save of such a store answers Ok, and every load of the saved file is then refused as corrupt.
\<close>

theorem shared_route_not_loadable:
  assumes "make_store limits = Inr st0"
    and "image_ok H limits (persisted_image (export_image (store_ops H ops st0)))"
    and "limits_typed limits" and "\<not> routes_distinct (store_ops H ops st0)"
    and "st_is_ok (snd (save H path wio (store_ops H ops st0) fs))"
    and "re_size rio" and "re_open rio" and "max_store_bytes limits \<le> re_read rio" and "s_limits st2 = limits"
  shows "fst (load H path rio (last (fst (save H path wio (store_ops H ops st0) fs))) st2) = st2
    \<and> st_outcome (snd (load H path rio (last (fst (save H path wio (store_ops H ops st0) fs))) st2)) = O_StoreCorrupt"
proof -
  let ?st = "store_ops H ops st0"
  let ?img = "persisted_image (export_image ?st)"
  have st0: "st0 = new_store limits" using assms(1) by (simp add: make_store_def split: option.splits)
  have "store_later st0 ?st" using store_ops_later new_store_inv st0 by blast
  then have lim: "s_limits ?st = limits" by (simp add: st0 store_later_def new_store_def)
  obtain bytes where b: "encode_store_image H (export_image ?st) (s_limits ?st) = Inr bytes" "path \<noteq> []"
    "last (fst (save H path wio ?st fs)) path = Some bytes" "length bytes \<le> max_store_bytes (s_limits ?st)"
    using save_Ok [OF assms(5)] .
  have "encode_store_image H ?img limits = Inr bytes" using b(1) by (simp add: encode_persisted lim)
  then have dec: "decode_store_image H bytes limits = Inr ?img"
    using decode_encoded [OF assms(2,3)] by blast
  have "\<not> distinct (map (\<lambda>l. lk_route (ls_key (sl_state l))) (im_lineages ?img))"
    using assms(4) by (simp add: routes_distinct_def export_image_def o_def)
  then obtain s where s: "load_lineages H limits (im_lineages ?img) (om_empty, om_empty) = Inl s"
    using load_lineages_routes by (cases "load_lineages H limits (im_lineages ?img) (om_empty, om_empty)") blast+
  have "read_store_image H path limits rio (last (fst (save H path wio ?st fs))) = Inr ?img"
    using b assms(6-8) dec by (simp add: read_store_image_def lim)
  then show ?thesis using b(2) s load_lineages_failures [OF s] assms(9) by (simp add: load_def)
qed

end
