(* ===== verification/Recovery_Samples.thy ===== *)
theory Recovery_Samples
  imports Recovery_Props
begin

text \<open>
  The sample store on disk: what its export is, that the image is valid, and the witnesses of the
  persistence properties.
\<close>

section \<open>The sample image\<close>

definition sample_write :: WriteEvents where
  "sample_write = \<lparr>we_open = True, we_written = 900, we_flush = True, we_close = True, we_rename = True,
     we_remove = True\<rparr>"

definition sample_read :: ReadEvents where
  "sample_read = \<lparr>re_size = True, re_open = True, re_read = 900\<rparr>"

definition sample_record :: ProvenanceNode where
  "sample_record = (sample_node 1)\<lparr>n_id := 77, n_lineage := 48\<rparr>"

definition sample_stored :: StoredLineage where
  "sample_stored = \<lparr>sl_state = (new_state 48 sample_key)\<lparr>ls_current_route_generation := 1,
       ls_current_node := 77, ls_lineage_generation := 1, ls_authority_generation := 1,
       ls_last_publisher_boot := 2\<rparr>,
     sl_nodes = [sample_record], sl_edges = [],
     sl_attempts = [\<lparr>sa_publisher = 1, sa_attempt = 5, sa_request = digest_from_bytes [114], sa_node = 77,
       sa_edges = [], sa_outcome = O_Created, sa_lifecycle = NL_Current, sa_currentness = CU_Current\<rparr>]\<rparr>"

definition sample_marks :: DependencyWatermarks where
  "sample_marks = no_watermarks\<lparr>wm_store_generation := 1, wm_epoch := 1\<rparr>"

lemma sample_export:
  "persisted_image (export_image sample_published)
     = \<lparr>im_watermarks = sample_marks, im_lineages = [sample_stored]\<rparr>"
  by code_simp

text \<open>A refused publication for another semantic key of the same route leaves an empty lineage.\<close>

definition sample_refused :: PublishRouteRequest where
  "sample_refused = sample_root\<lparr>rq_key := \<lparr>lk_route = 3, lk_semantic_key = ''bb''\<rparr>, rq_root_reason := None\<rparr>"

definition sample_shared :: Store where
  "sample_shared = fst (publish_route sample_hash sample_refused sample_published)"

definition sample_stored_empty :: StoredLineage where
  "sample_stored_empty = \<lparr>sl_state = new_state 49 \<lparr>lk_route = 3, lk_semantic_key = ''bb''\<rparr>,
     sl_nodes = [], sl_edges = [], sl_attempts = []\<rparr>"

lemma sample_shared_export:
  "persisted_image (export_image sample_shared)
     = \<lparr>im_watermarks = sample_marks, im_lineages = [sample_stored, sample_stored_empty]\<rparr>"
  by code_simp

lemma sample_record_id: "derive_node_id sample_hash sample_record = 77"
  by code_simp

lemma sample_limits_typed: "limits_typed sample_limits"
  by (simp add: limits_typed_def sample_limits_def)


lemma sample_record_facts:
  "node_ok sample_limits sample_record" "st_is_ok (validate_node_consistency sample_record)"
  "n_id sample_record = 77" "n_lineage sample_record = 48" "n_kind sample_record = NK_RouteGeneration"
  by (simp_all add: sample_record_def sample_node_def node_ok_def evidence_ok_def evidence_canonical_def
      sample_limits_def authority_ok_def sample_authority_def authority_wf_def scope_wf_def scope_fabric_def
      validate_node_consistency_def id_valid_def has_identity_def identity_valid_def digest_is_zero_def)

lemma sample_stored_ok:
  "stored_lineage_ok sample_hash sample_limits no_seen sample_stored"
  "stored_lineage_ok sample_hash sample_limits seen sample_stored_empty"
  using sample_record_facts sample_record_id
  by (simp_all add: stored_lineage_ok_def sample_stored_def sample_stored_empty_def persisted_state_def
      new_state_def sample_key_def sample_limits_def check_lineage_header_def id_valid_def
      stored_node_ok_def check_stored_node_def no_seen_def stored_attempt_ok_def attempt_ok_def)

lemma sample_structures:
  "st_is_ok (check_structures sample_hash sample_limits [sample_stored])"
  "st_is_ok (check_structures sample_hash sample_limits [sample_stored, sample_stored_empty])"
  by code_simp+

lemma sample_image_sizes:
  "image_node_count \<lparr>im_watermarks = m, im_lineages = [sample_stored]\<rparr> = 1"
  "image_edge_count \<lparr>im_watermarks = m, im_lineages = [sample_stored]\<rparr> = 0"
  "image_node_count \<lparr>im_watermarks = m, im_lineages = [sample_stored, sample_stored_empty]\<rparr> = 1"
  "image_edge_count \<lparr>im_watermarks = m, im_lineages = [sample_stored, sample_stored_empty]\<rparr> = 0"
  by (simp_all add: image_node_count_def image_edge_count_def sample_stored_def sample_stored_empty_def)

lemma sample_bounds [simp]:
  "max_lineages sample_limits = 4" "max_persistence_nodes sample_limits = 8"
  "max_persistence_edges sample_limits = 8" "max_store_bytes sample_limits = 900"
  "max_persistence_record_bytes sample_limits = 800"
  by (simp_all add: sample_limits_def)

lemma sample_images_ok:
  "image_ok sample_hash sample_limits \<lparr>im_watermarks = sample_marks, im_lineages = [sample_stored]\<rparr>"
  "image_ok sample_hash sample_limits
     \<lparr>im_watermarks = sample_marks, im_lineages = [sample_stored, sample_stored_empty]\<rparr>"
  unfolding image_ok_def sample_image_sizes StoreImage.select_convs
  using sample_stored_ok sample_structures by (simp_all add: sample_marks_def no_watermarks_def)

lemma sample_record_lengths:
  "length (written write_lineage sample_stored) = 342" "length (written write_lineage sample_stored_empty) = 82"
  by (simp_all add: written_lineage lineage_header_bytes_def sample_stored_def sample_stored_empty_def
      new_state_def sample_key_def sample_record_def sample_node_def sample_authority_def written_node
      written_evidence written_attempt)

lemma sample_encoded:
  assumes "persisted_image img = \<lparr>im_watermarks = sample_marks, im_lineages = ls\<rparr>"
    and "ls = [sample_stored] \<or> ls = [sample_stored, sample_stored_empty]"
  shows "\<exists>bytes. encode_store_image sample_hash img sample_limits = Inr bytes \<and> length bytes \<le> 900"
proof -
  have "encode_store_image sample_hash (persisted_image img) sample_limits \<noteq> Inl s" for s
    unfolding assms(1)
    using assms(2) by (auto simp: encode_store_image_def encode_lineages_result lineage_fits_def
        sample_image_sizes sample_record_lengths write_header_fields Let_def)
  then obtain bytes where "encode_store_image sample_hash img sample_limits = Inr bytes"
    unfolding encode_persisted by (cases "encode_store_image sample_hash img sample_limits") auto
  then show ?thesis using encode_store_image_Inr(2) by fastforce
qed

lemma sample_save:
  assumes "encode_store_image sample_hash (export_image st) sample_limits = Inr bytes" and "length bytes \<le> 900"
    and "s_limits st = sample_limits"
  shows "st_is_ok (snd (save sample_hash ''s'' sample_write st fs))"
  using assms by (simp add: save_def write_store_image_atomic_def sample_write_def Let_def)

lemma sample_store_limits: "s_limits sample_published = sample_limits" "s_limits sample_shared = sample_limits"
  by code_simp+

lemma sample_saves:
  "st_is_ok (snd (save sample_hash ''s'' sample_write sample_published fs))"
  "st_is_ok (snd (save sample_hash ''s'' sample_write sample_shared fs))"
  using sample_encoded [OF sample_export] sample_encoded [OF sample_shared_export]
    sample_save [OF _ _ sample_store_limits(1)] sample_save [OF _ _ sample_store_limits(2)] by blast+

lemma sample_shared_ops:
  "sample_shared = store_ops sample_hash
     [SO_register sample_identity scope_fabric, SO_publish_route sample_root, SO_publish_route sample_refused]
     (new_store sample_limits)"
  by (simp add: sample_shared_def sample_published_def sample_store_def with_outcome_def)

lemma sample_routes: "routes_distinct sample_published" "\<not> routes_distinct sample_shared"
  by code_simp+

definition sample_disk :: FileSystem where
  "sample_disk = last (fst (save sample_hash ''s'' sample_write sample_published (\<lambda>_. None)))"

section \<open>Witnesses\<close>

theorem image_round_trip_witness:
  "\<exists>bytes. encode_store_image sample_hash \<lparr>im_watermarks = sample_marks, im_lineages = [sample_stored]\<rparr>
       sample_limits = Inr bytes
   \<and> decode_store_image sample_hash bytes sample_limits
       = Inr \<lparr>im_watermarks = sample_marks, im_lineages = [sample_stored]\<rparr>"
proof -
  let ?img = "\<lparr>im_watermarks = sample_marks, im_lineages = [sample_stored]\<rparr>"
  obtain bytes where "encode_store_image sample_hash (persisted_image (export_image sample_published)) sample_limits
      = Inr bytes"
    using sample_encoded [OF sample_export] by (auto simp: encode_persisted)
  then show ?thesis
    using image_round_trip [OF sample_limits_typed, of sample_hash ?img bytes] sample_images_ok(1)
    by (auto simp: sample_export)
qed


lemma sample_file:
  "\<exists>bytes. encode_store_image sample_hash (export_image sample_published) sample_limits = Inr bytes
     \<and> length bytes \<le> 900 \<and> sample_disk ''s'' = Some bytes
     \<and> decode_store_image sample_hash bytes sample_limits
         = Inr \<lparr>im_watermarks = sample_marks, im_lineages = [sample_stored]\<rparr>"
proof -
  obtain bytes where b: "encode_store_image sample_hash (export_image sample_published) sample_limits = Inr bytes"
    "length bytes \<le> 900"
    using sample_encoded [OF sample_export] by auto
  moreover have "sample_disk ''s'' = Some bytes"
    using save_Ok [OF sample_saves(1) [of "\<lambda>_. None"]] b(1) sample_store_limits by (auto simp: sample_disk_def)
  moreover have "encode_store_image sample_hash (persisted_image (export_image sample_published)) sample_limits = Inr bytes"
    using b(1) by (simp add: encode_persisted)
  then have "decode_store_image sample_hash bytes sample_limits
      = Inr \<lparr>im_watermarks = sample_marks, im_lineages = [sample_stored]\<rparr>"
    using decode_encoded [OF sample_images_ok(1) sample_limits_typed] by (simp add: sample_export)
  ultimately show ?thesis by blast
qed

lemma sample_loaded: "st_outcome (snd (load sample_hash ''s'' sample_read sample_disk sample_store)) = O_Updated"
proof -
  obtain bytes where b: "encode_store_image sample_hash (export_image sample_published) sample_limits = Inr bytes"
    "length bytes \<le> 900" and d: "sample_disk ''s'' = Some bytes"
    using sample_file by blast
  have lim: "s_limits sample_store = s_limits sample_published" by code_simp
  show ?thesis
    by (rule load_saved(1) [where st = sample_published and bytes = bytes])
      (use sample_store_inv(2) b d lim sample_images_ok(1) sample_limits_typed sample_routes(1) in
        \<open>simp_all add: sample_export sample_store_limits sample_read_def\<close>)
qed

theorem shared_route_not_loadable_witness:
  "fst (load sample_hash ''s'' sample_read (last (fst (save sample_hash ''s'' sample_write sample_shared (\<lambda>_. None))))
     sample_store) = sample_store"
proof -
  let ?ops = "[SO_register sample_identity scope_fabric, SO_publish_route sample_root, SO_publish_route sample_refused]"
  have st: "store_ops sample_hash ?ops (new_store sample_limits) = sample_shared"
    by (simp only: sample_shared_ops)
  have lim: "s_limits sample_store = sample_limits" by code_simp
  have io: "re_size sample_read" "re_open sample_read" "max_store_bytes sample_limits \<le> re_read sample_read"
    by (simp_all add: sample_read_def)
  note shared_route_not_loadable [OF sample_make_store, of sample_hash ?ops, unfolded st,
      OF _ sample_limits_typed sample_routes(2) sample_saves(2) io lim]
  then show ?thesis using sample_images_ok(2) unfolding sample_shared_export by blast
qed

theorem load_conservative_witness:
  "\<not> publisher_is_live (fst (load sample_hash ''s'' sample_read sample_disk sample_store)) 1 2"
  using load_conservative [OF sample_loaded] by (simp add: publisher_is_live_def)


theorem load_exact_witness:
  "\<exists>bytes. sample_disk ''s'' = Some bytes
     \<and> s_watermarks (fst (load sample_hash ''s'' sample_read sample_disk sample_store)) = sample_marks"
proof -
  have lim: "s_limits sample_store = sample_limits" by code_simp
  obtain bytes img where "sample_disk ''s'' = Some bytes" "decode_store_image sample_hash bytes sample_limits = Inr img"
    "s_watermarks (fst (load sample_hash ''s'' sample_read sample_disk sample_store)) = im_watermarks img"
    using load_exact [of sample_hash "''s''" sample_read sample_disk sample_store] unfolding lim sample_loaded by auto
  then show ?thesis using sample_file by auto
qed


end
