(* ===== verification/Tools.thy ===== *)
theory Tools
  imports Remote Recovery_Samples
begin

text \<open>
  What the command-line tools share: their number parsers, the loop over the arguments, splitting, the
  extraction of words and numbers from a line, and the version report.
\<close>

section \<open>Exits\<close>

text \<open>The exit code of a tool and what it has written to its two streams.\<close>

record ToolExit =
  te_code :: int
  te_out :: string
  te_err :: string

definition quit_with :: "int \<Rightarrow> string \<Rightarrow> string \<Rightarrow> ToolExit" where
  "quit_with code out err = \<lparr>te_code = code, te_out = out, te_err = err\<rparr>"

section \<open>Numbers\<close>

text \<open>The digit loop of the tools' \<^verbatim>\<open>parse_u64\<close>: no test for overflow, the arithmetic wraps.\<close>

fun digits_u64 :: "u64 \<Rightarrow> string \<Rightarrow> u64 option" where
  "digits_u64 v [] = Some v"
| "digits_u64 v (ch # rest) =
     (if \<not> is_digit ch then None else digits_u64 (v * 10 + of_nat (char_digit ch)) rest)"

definition parse_u64 :: "string \<Rightarrow> u64 option" where
  "parse_u64 str = (if str = [] \<or> length str > 19 then None else digits_u64 0 str)"

text \<open>The coordinator's version admits a twentieth digit.\<close>

definition coordinator_parse_u64 :: "string \<Rightarrow> u64 option" where
  "coordinator_parse_u64 str = (if str = [] \<or> length str > 20 then None else digits_u64 0 str)"

text \<open>\<^verbatim>\<open>static_cast<void>(parse_u64(value, target))\<close>: a failure leaves the target.\<close>

definition assign_u64 :: "string \<Rightarrow> u64 \<Rightarrow> u64" where
  "assign_u64 str target = value_or (parse_u64 str) target"

section \<open>Arguments\<close>

text \<open>
  The loop over \<^verbatim>\<open>argv\<close>. A step sees an argument and those after it, and ends the tool or tells how many
  of them it has taken. \<open>next_value\<close> is the lambda \<^verbatim>\<open>next\<close>: at the end it leaves its target.
\<close>

fun parse_args :: "(string \<Rightarrow> string list \<Rightarrow> 'o \<Rightarrow> ToolExit + nat \<times> 'o) \<Rightarrow> string list \<Rightarrow> 'o \<Rightarrow> ToolExit + 'o" where
  "parse_args step [] options = Inr options"
| "parse_args step (arg # rest) options =
     (case step arg rest options of
        Inl e \<Rightarrow> Inl e
      | Inr (taken, options) \<Rightarrow> parse_args step (drop taken rest) options)"

definition next_value :: "string list \<Rightarrow> string \<Rightarrow> string" where
  "next_value rest target = (case rest of [] \<Rightarrow> target | v # _ \<Rightarrow> v)"

text \<open>An option whose value must be a number that satisfies a test.\<close>

definition number_arg ::
    "(string \<Rightarrow> u64 option) \<Rightarrow> (u64 \<Rightarrow> bool) \<Rightarrow> string \<Rightarrow> string list \<Rightarrow> (u64 \<Rightarrow> 'o) \<Rightarrow> ToolExit + nat \<times> 'o" where
  "number_arg parse test name rest update =
     (case parse (next_value rest []) of
        None \<Rightarrow> Inl (quit_with 2 [] (''invalid '' @ name @ newline))
      | Some v \<Rightarrow> if \<not> test v then Inl (quit_with 2 [] (''invalid '' @ name @ newline)) else Inr (1, update v))"

section \<open>Text\<close>

fun split_at :: "char \<Rightarrow> string \<Rightarrow> string \<Rightarrow> string list" where
  "split_at separator current [] = [current]"
| "split_at separator current (ch # rest) =
     (if ch = separator then current # split_at separator [] rest
      else split_at separator (current @ [ch]) rest)"

definition split_text :: "string \<Rightarrow> char \<Rightarrow> string list" where
  "split_text str separator = split_at separator [] str"

text \<open>\<^verbatim>\<open>text.find(separator)\<close> with the parts before and after.\<close>

definition split_first :: "char \<Rightarrow> string \<Rightarrow> (string \<times> string) option" where
  "split_first separator str =
     (if separator \<in> set str then
        Some (takeWhile (\<lambda>ch. ch \<noteq> separator) str, tl (dropWhile (\<lambda>ch. ch \<noteq> separator) str))
      else None)"

section \<open>Extraction from a line\<close>

text \<open>
  An \<^verbatim>\<open>std::istringstream\<close> on a line: what is left of it and whether the stream is good. White space is
  that of the C locale; a failed stream extracts nothing.
\<close>

record LineStream =
  ls_rest :: string
  ls_good :: bool

definition open_line :: "string \<Rightarrow> LineStream" where
  "open_line str = \<lparr>ls_rest = str, ls_good = True\<rparr>"

definition is_space :: "char \<Rightarrow> bool" where
  "is_space ch \<longleftrightarrow> (of_char ch :: nat) \<in> {9, 10, 11, 12, 13, 32}"

definition skip_space :: "string \<Rightarrow> string" where
  "skip_space str = dropWhile is_space str"

text \<open>\<^verbatim>\<open>stream >> word\<close>: without a word the stream fails and the target stays as it is.\<close>

definition get_word :: "string \<Rightarrow> LineStream \<Rightarrow> string \<times> LineStream" where
  "get_word target stream =
     (let str = skip_space (ls_rest stream)
      in if \<not> ls_good stream then (target, stream)
         else if str = [] then (target, \<lparr>ls_rest = [], ls_good = False\<rparr>)
         else (takeWhile (\<lambda>ch. \<not> is_space ch) str,
               \<lparr>ls_rest = dropWhile (\<lambda>ch. \<not> is_space ch) str, ls_good = True\<rparr>))"

text \<open>
  \<^verbatim>\<open>stream >> number\<close> for an unsigned 64-bit target: an optional sign and decimal digits. Without digits
  the target is zero, above the range it is the largest value, and the stream fails; a minus sign negates
  modulo \<open>2 ^ 64\<close>. At the end of the line the target stays as it is.
\<close>

definition get_u64 :: "u64 \<Rightarrow> LineStream \<Rightarrow> u64 \<times> LineStream" where
  "get_u64 target stream =
     (let str = skip_space (ls_rest stream);
          signed = str \<noteq> [] \<and> (hd str = CHR ''-'' \<or> hd str = CHR ''+'');
          body = (if signed then tl str else str);
          digits = takeWhile is_digit body;
          rest = dropWhile is_digit body;
          n = dec_value digits
      in if \<not> ls_good stream then (target, stream)
         else if str = [] then (target, \<lparr>ls_rest = [], ls_good = False\<rparr>)
         else if digits = [] then (0, \<lparr>ls_rest = rest, ls_good = False\<rparr>)
         else if n \<ge> 2 ^ 64 then (kMax, \<lparr>ls_rest = rest, ls_good = False\<rparr>)
         else (if signed \<and> hd str = CHR ''-'' then - of_nat n else of_nat n,
               \<lparr>ls_rest = rest, ls_good = True\<rparr>))"

text \<open>The words of the rest of a line, \<^verbatim>\<open>while (stream >> token)\<close>.\<close>

function words :: "string \<Rightarrow> string list" where
  "words str =
     (let str = skip_space str
      in if str = [] then []
         else takeWhile (\<lambda>ch. \<not> is_space ch) str # words (dropWhile (\<lambda>ch. \<not> is_space ch) str))"
  by pat_completeness auto
termination
proof (relation "measure length")
  fix str s :: string
  assume s: "s = skip_space str" "s \<noteq> []"
  have "length s \<le> length str" by (simp add: s(1) skip_space_def length_dropWhile_le)
  moreover have "\<not> is_space (hd s)" using s hd_dropWhile [of is_space str] by (simp add: skip_space_def)
  then have "length (dropWhile (\<lambda>ch. \<not> is_space ch) s) < length s"
    using s(2) by (cases s) (auto intro: le_imp_less_Suc length_dropWhile_le)
  ultimately show "(dropWhile (\<lambda>ch. \<not> is_space ch) s, str) \<in> measure length" by simp
qed simp

declare words.simps [simp del]

text \<open>The lines of a file, as \<^verbatim>\<open>std::getline\<close> reads them.\<close>

definition text_lines :: "string \<Rightarrow> string list" where
  "text_lines str =
     (let parts = split_text str (char_of (10 :: nat)) in if last parts = [] then butlast parts else parts)"

section \<open>Version report\<close>

definition kVersionString :: string where "kVersionString = ''1.0.0''"
definition kProductName :: string where "kProductName = ''Route Provenance''"
definition kCopyrightNotice :: string where "kCopyrightNotice = ''Copyright 2026 Summon Software Labs.''"
definition kReasonCodeSemanticsVersion :: u32 where "kReasonCodeSemanticsVersion = 1"

text \<open>The text of \<^verbatim>\<open>build_info\<close> is made of the compiler's macros and a parameter here.\<close>

definition version_report :: "string \<Rightarrow> string" where
  "version_report build =
     ''product: '' @ kProductName
     @ newline @ ''version: '' @ kVersionString
     @ newline @ ''wire_protocol_version: '' @ dec_string (unat kWireProtocolVersion)
     @ newline @ ''persistence_format_version: '' @ dec_string (unat kPersistenceFormatVersion)
     @ newline @ ''graph_encoding_version: '' @ dec_string (unat kGraphEncodingVersion)
     @ newline @ ''digest_encoding_version: '' @ dec_string (unat kDigestEncodingVersion)
     @ newline @ ''reason_code_semantics_version: '' @ dec_string (unat kReasonCodeSemanticsVersion)
     @ newline @ ''build: '' @ build
     @ newline @ ''notice: '' @ kCopyrightNotice @ newline"

section \<open>What the number parsers accept\<close>

lemma digits_u64_value:
  "digits_u64 v str = (if list_all is_digit str
     then Some (of_nat (foldl (\<lambda>n ch. n * 10 + char_digit ch) (unat v) str)) else None)"
proof (induction str arbitrary: v)
  case (Cons ch str)
  have shift: "(of_nat (foldl (\<lambda>n ch. n * 10 + char_digit ch) a s) :: u64)
      = of_nat (foldl (\<lambda>n ch. n * 10 + char_digit ch) b s)" if "(of_nat a :: u64) = of_nat b" for a b and s
    using that
  proof (induction s arbitrary: a b)
    case (Cons c s)
    have "(of_nat (a * 10 + char_digit c) :: u64) = of_nat (b * 10 + char_digit c)" using Cons.prems by simp
    then show ?case using Cons.IH by simp
  qed simp
  show ?case
    using Cons [of "v * 10 + of_nat (char_digit ch)"]
      shift [of "unat (v * 10 + of_nat (char_digit ch))" "unat v * 10 + char_digit ch" str]
    by simp
qed simp

lemma dec_value_less: "list_all is_digit str \<Longrightarrow> dec_value str < 10 ^ length str"
proof (induction str rule: rev_induct)
  case (snoc ch str)
  then have "char_digit ch \<le> 9" "dec_value str < 10 ^ length str" by (simp_all add: char_digit_le)
  then show ?case by (simp add: dec_value_def)
qed (simp add: dec_value_def)

text \<open>Nineteen digits cannot wrap, twenty can.\<close>

lemma parse_u64_exact:
  "parse_u64 str = Some v \<longleftrightarrow> str \<noteq> [] \<and> length str \<le> 19 \<and> list_all is_digit str \<and> unat v = dec_value str"
proof -
  have "unat (of_nat (dec_value str) :: u64) = dec_value str" if "list_all is_digit str" "length str \<le> 19"
  proof -
    have "dec_value str < 10 ^ 19"
      using dec_value_less [OF that(1)] power_increasing [OF that(2), of "10::nat"] by linarith
    then show ?thesis by (simp add: unsigned_of_nat take_bit_eq_mod)
  qed
  then show ?thesis
    by (auto simp: parse_u64_def digits_u64_value dec_value_def word_unat_eq_iff)
qed

lemma coordinator_parse_wraps: "coordinator_parse_u64 ''18446744073709551617'' = Some 1"
  by (simp add: coordinator_parse_u64_def is_digit_def char_digit_def)

end
