(* ===== verification/Coordinator.thy ===== *)
theory Coordinator
  imports Tools
begin

text \<open>
  The coordinator process, \<^verbatim>\<open>tools/rp_coordinator.cpp\<close>: its arguments, the recovery of the store, the
  registration of the coordinator itself, the start of the server, the console, and the shutdown. The
  console runs beside the session loop; the loop's turns and the lines read are interleaved in the order
  given.
\<close>

section \<open>Options\<close>

record CoordinatorOptions =
  cd_store_path :: string
  cd_ready_file :: string
  cd_port :: u16
  cd_epoch :: CoordinatorEpoch
  cd_publisher :: PublisherId
  cd_boot :: WorkerBootId
  cd_load_existing :: bool
  cd_save_on_exit :: bool
  cd_limits :: Limits

definition default_coordinator :: CoordinatorOptions where
  "default_coordinator = \<lparr>cd_store_path = [], cd_ready_file = [], cd_port = 0, cd_epoch = 1, cd_publisher = 1,
     cd_boot = 1, cd_load_existing = False, cd_save_on_exit = True, cd_limits = default_limits\<rparr>"

definition coordinator_usage :: string where
  "coordinator_usage =
     ''usage: rp_coordinator --store <path> [--port N] [--epoch N] [--publisher N] [--boot N]'' @ newline
     @ ''                      [--load] [--ready-file <path>] [--no-save-on-exit]'' @ newline
     @ ''                      [--max-sessions N] [--max-frame-bytes N] [--frame-assembly-ms N]'' @ newline
     @ ''Commands on stdin: save | epoch <n> | stats | quit'' @ newline"

text \<open>\<^verbatim>\<open>static_cast<std::uint32_t>\<close> of a number that was read with 64 bits.\<close>

definition limit_u32 :: "u64 \<Rightarrow> nat" where
  "limit_u32 v = unat (ucast v :: u32)"

definition positive :: "u64 \<Rightarrow> bool" where
  "positive v \<longleftrightarrow> v \<noteq> 0"

definition coordinator_arg :: "string \<Rightarrow> string list \<Rightarrow> CoordinatorOptions \<Rightarrow> ToolExit + nat \<times> CoordinatorOptions" where
  "coordinator_arg arg rest o1 =
     (let number = (\<lambda>test. number_arg coordinator_parse_u64 test arg rest)
      in if arg = ''--store'' then Inr (1, o1\<lparr>cd_store_path := next_value rest (cd_store_path o1)\<rparr>)
         else if arg = ''--ready-file'' then Inr (1, o1\<lparr>cd_ready_file := next_value rest (cd_ready_file o1)\<rparr>)
         else if arg = ''--port'' then number (\<lambda>v. v \<le> 65535) (\<lambda>v. o1\<lparr>cd_port := ucast v\<rparr>)
         else if arg = ''--epoch'' then number positive (\<lambda>v. o1\<lparr>cd_epoch := v\<rparr>)
         else if arg = ''--publisher'' then number positive (\<lambda>v. o1\<lparr>cd_publisher := v\<rparr>)
         else if arg = ''--boot'' then number positive (\<lambda>v. o1\<lparr>cd_boot := v\<rparr>)
         else if arg = ''--max-sessions'' then
           number positive (\<lambda>v. o1\<lparr>cd_limits := (cd_limits o1)\<lparr>max_sessions := limit_u32 v\<rparr>\<rparr>)
         else if arg = ''--max-frame-bytes'' then
           number positive (\<lambda>v. o1\<lparr>cd_limits := (cd_limits o1)\<lparr>max_frame_bytes := limit_u32 v\<rparr>\<rparr>)
         else if arg = ''--frame-assembly-ms'' then
           number positive (\<lambda>v. o1\<lparr>cd_limits := (cd_limits o1)\<lparr>max_frame_assembly_ms := limit_u32 v\<rparr>\<rparr>)
         else if arg = ''--load'' then Inr (0, o1\<lparr>cd_load_existing := True\<rparr>)
         else if arg = ''--no-save-on-exit'' then Inr (0, o1\<lparr>cd_save_on_exit := False\<rparr>)
         else if arg = ''--help'' \<or> arg = ''-h'' then Inl (quit_with 0 coordinator_usage [])
         else Inl (quit_with 2 coordinator_usage (''unknown argument: '' @ arg @ newline)))"

definition coordinator_options :: "string list \<Rightarrow> ToolExit + CoordinatorOptions" where
  "coordinator_options args =
     (case parse_args coordinator_arg args default_coordinator of
        Inl e \<Rightarrow> Inl e
      | Inr o1 \<Rightarrow>
          if cd_store_path o1 = [] then Inl (quit_with 2 coordinator_usage (''missing --store'' @ newline)) else Inr o1)"

section \<open>Start\<close>

text \<open>With \<^verbatim>\<open>--load\<close>: the store as recovered, and the epoch after the one it was saved in.\<close>

definition coordinator_recover ::
    "hash_fun \<Rightarrow> ReadEvents \<Rightarrow> FileSystem \<Rightarrow> CoordinatorOptions \<Rightarrow> Store \<Rightarrow> ToolExit + CoordinatorOptions \<times> Store" where
  "coordinator_recover H io fs o1 st =
     (if \<not> cd_load_existing o1 then Inr (o1, st)
      else
        let (st, status) = load H (cd_store_path o1) io fs st
        in if outcome_is_rejection (st_outcome status) then
             Inl (quit_with 3 [] (''load failed: '' @ outcome_name (st_outcome status) @ '' '' @ st_detail status @ newline))
           else (case r_value (watermarks H st) of
             None \<Rightarrow> Inr (o1, st)
           | Some marks \<Rightarrow>
               if \<not> id_valid (wm_epoch marks) then Inr (o1, st)
               else (case try_next (wm_epoch marks) of
                 None \<Rightarrow> Inl (quit_with 3 [] (''coordinator epoch exhausted'' @ newline))
               | Some epoch \<Rightarrow> Inr (o1\<lparr>cd_epoch := epoch\<rparr>, st))))"

definition coordinator_identity :: "CoordinatorOptions \<Rightarrow> PublisherIdentity" where
  "coordinator_identity o1 = \<lparr>pi_publisher = cd_publisher o1, pi_boot = cd_boot o1, pi_epoch = cd_epoch o1\<rparr>"

definition coordinator_authority :: "CoordinatorOptions \<Rightarrow> AuthorityContext" where
  "coordinator_authority o1 = \<lparr>ac_publisher = coordinator_identity o1, ac_scope = scope_fabric, ac_attempt = 1,
     ac_expected_lineage_generation = None, ac_expected_provenance_generation = None\<rparr>"

text \<open>The coordinator registers itself and hands the store to a server.\<close>

definition coordinator_server :: "CoordinatorOptions \<Rightarrow> Store \<Rightarrow> ToolExit + Server" where
  "coordinator_server o1 st =
     (let (st, registered) = register_publisher (coordinator_identity o1) scope_fabric st
      in (case r_value registered of
            None \<Rightarrow> Inl (quit_with 3 [] (''coordinator registration failed: '' @ outcome_name (r_outcome registered)
                     @ '' '' @ r_detail registered @ newline))
          | Some _ \<Rightarrow> Inr (new_server st
              \<lparr>sv_bind_address = ''127.0.0.1'', sv_port = cd_port o1, sv_limits = cd_limits o1,
               sv_client_scope = scope_fabric, sv_coordinator_authority = coordinator_authority o1\<rparr>)))"

definition truth :: "bool \<Rightarrow> string" where
  "truth b = (if b then ''true'' else ''false'')"

definition ready_text :: "CoordinatorOptions \<Rightarrow> Server \<Rightarrow> string" where
  "ready_text o1 sv =
     ''port='' @ dec_string (unat (sr_bound_port sv)) @ newline
     @ ''epoch='' @ id_to_string (cd_epoch o1) @ newline
     @ ''store='' @ cd_store_path o1 @ newline
     @ ''loaded='' @ truth (cd_load_existing o1) @ newline"

definition ready_line :: "CoordinatorOptions \<Rightarrow> Server \<Rightarrow> string" where
  "ready_line o1 sv =
     ''COORDINATOR READY port='' @ dec_string (unat (sr_bound_port sv)) @ '' epoch='' @ id_to_string (cd_epoch o1)
     @ '' loaded='' @ truth (cd_load_existing o1) @ newline"

section \<open>The console\<close>

record CoordinatorRun =
  cr_server :: Server
  cr_files :: FileSystem
  cr_out :: string

text \<open>What the process meets while it waits for its console: turns of the loop, or a line, with what a save made
  of it would meet.\<close>

datatype ConsoleEvent = CV_Turns "Turn list" | CV_Line string WriteEvents

definition print_line :: "string \<Rightarrow> CoordinatorRun \<Rightarrow> CoordinatorRun" where
  "print_line line run = run\<lparr>cr_out := cr_out run @ line @ newline\<rparr>"

definition save_store :: "hash_fun \<Rightarrow> string \<Rightarrow> WriteEvents \<Rightarrow> CoordinatorRun \<Rightarrow> CoordinatorRun \<times> Status" where
  "save_store H path io run =
     (let (files, status) = save H path io (sr_store (cr_server run)) (cr_files run)
      in (run\<lparr>cr_files := last files\<rparr>, status))"

definition stats_line :: "Server \<Rightarrow> string" where
  "stats_line sv =
     (let result = stats (sr_store sv); ours = server_stats sv
      in (case r_value result of
            Some s \<Rightarrow> ''STATS lineages='' @ dec_string (ss_lineage_count s)
              @ '' nodes='' @ dec_string (ss_node_count s) @ '' edges='' @ dec_string (ss_edge_count s)
              @ '' active_sessions='' @ dec_string (unat (ss_active_sessions ours))
              @ '' sessions_accepted='' @ dec_string (unat (ss_sessions_accepted ours))
              @ '' sessions_closed='' @ dec_string (unat (ss_sessions_closed ours))
              @ '' publishers_fenced='' @ dec_string (unat (ss_publishers_fenced ours))
              @ '' protocol_failures='' @ dec_string (unat (ss_protocol_failures ours))
          | None \<Rightarrow> ''STATS outcome='' @ outcome_name (r_outcome result)))"

definition console_epoch :: "string \<Rightarrow> CoordinatorRun \<Rightarrow> CoordinatorRun" where
  "console_epoch argument run =
     (case coordinator_parse_u64 argument of
        None \<Rightarrow> print_line ''EPOCH outcome=MALFORMED_REQUEST'' run
      | Some v \<Rightarrow>
          if v = 0 then print_line ''EPOCH outcome=MALFORMED_REQUEST'' run
          else
            let (sv, advanced) = server_advance_epoch v (cr_server run)
            in print_line (''EPOCH outcome='' @ outcome_name (st_outcome advanced) @ '' value='' @ id_to_string v)
                 (run\<lparr>cr_server := sv\<rparr>))"

text \<open>A line; the result says whether the console goes on.\<close>

definition console_line :: "hash_fun \<Rightarrow> string \<Rightarrow> string \<Rightarrow> WriteEvents \<Rightarrow> CoordinatorRun \<Rightarrow> bool \<times> CoordinatorRun" where
  "console_line H path line io run =
     (if line = ''save'' then
        (let (run, status) = save_store H path io run
         in (True, print_line (''SAVE outcome='' @ outcome_name (st_outcome status) @ '' detail='' @ st_detail status) run))
      else if line = ''stats'' then (True, print_line (stats_line (cr_server run)) run)
      else if take 6 line = ''epoch '' then (True, console_epoch (drop 6 line) run)
      else if line = ''quit'' \<or> line = [] then (False, run)
      else (True, run))"

fun run_console :: "hash_fun \<Rightarrow> string \<Rightarrow> ConsoleEvent list \<Rightarrow> CoordinatorRun \<Rightarrow> CoordinatorRun" where
  "run_console H path [] run = run"
| "run_console H path (CV_Turns turns # events) run =
     run_console H path events
       (if sr_running (cr_server run) then run\<lparr>cr_server := run_server H turns (cr_server run)\<rparr> else run)"
| "run_console H path (CV_Line line io # events) run =
     (let (go_on, run) = console_line H path line io run in if go_on then run_console H path events run else run)"

definition coordinator_exit :: "hash_fun \<Rightarrow> CoordinatorOptions \<Rightarrow> WriteEvents \<Rightarrow> CoordinatorRun \<Rightarrow> CoordinatorRun" where
  "coordinator_exit H o1 io run =
     (let run = run\<lparr>cr_server := fst (server_stop False (cr_server run))\<rparr>
      in if cd_save_on_exit o1 then
           (let (run, status) = save_store H (cd_store_path o1) io run
            in print_line (''SHUTDOWN SAVE outcome='' @ outcome_name (st_outcome status)) run)
         else print_line ''SHUTDOWN'' run)"

section \<open>The process\<close>

record CoordinatorEvents =
  cv_read :: ReadEvents
  cv_start :: StartEvents
  cv_ready_written :: bool
  cv_console :: "ConsoleEvent list"
  cv_write :: WriteEvents

text \<open>\<open>None\<close> is the exception of the store's constructor, which nothing catches.\<close>

definition coordinator_main ::
    "hash_fun \<Rightarrow> string list \<Rightarrow> CoordinatorEvents \<Rightarrow> FileSystem \<Rightarrow> (ToolExit \<times> FileSystem) option" where
  "coordinator_main H args ev fs =
     (case coordinator_options args of
        Inl e \<Rightarrow> Some (e, fs)
      | Inr o1 \<Rightarrow>
          (case make_store (cd_limits o1) of
             Inl _ \<Rightarrow> None
           | Inr st \<Rightarrow>
               (case coordinator_recover H (cv_read ev) fs o1 st of
                  Inl e \<Rightarrow> Some (e, fs)
                | Inr (o1, st) \<Rightarrow>
                    (case coordinator_server o1 st of
                       Inl e \<Rightarrow> Some (e, fs)
                     | Inr sv \<Rightarrow>
                         (case server_start (cv_start ev) sv of
                            None \<Rightarrow> None
                          | Some (sv, started) \<Rightarrow>
                              if \<not> st_is_ok started then
                                Some (quit_with 3 [] (''start failed: '' @ st_detail started @ newline), fs)
                              else
                                let fs = (if cd_ready_file o1 \<noteq> [] \<and> cv_ready_written ev then
                                            fs(cd_ready_file o1 \<mapsto> string_bytes (ready_text o1 sv)) else fs);
                                    run = coordinator_exit H o1 (cv_write ev)
                                            (run_console H (cd_store_path o1) (cv_console ev)
                                               \<lparr>cr_server = sv, cr_files = fs, cr_out = ready_line o1 sv\<rparr>)
                                in Some (quit_with 0 (cr_out run) [], cr_files run))))))"

end
