(* ===== verification/Store_Protocol.thy ===== *)
theory Store_Protocol
  imports Store_Props
begin

text \<open>
  What the store promises over a whole run: a mutation attempt takes effect at most once, and a fenced boot
  never comes back.
\<close>

section \<open>Attempts\<close>

lemma kind_attempts: "l_attempts (fst (apply_kind H limits rq node es affected lin)) = l_attempts lin"
  by (simp add: apply_kind_def kind_route_state_def kind_correction_def kind_closing_def kind_revalidation_def
      on_graph_def Let_def case_prod_beta split: PublishKind.split option.split)

lemma promote_attempts: "l_attempts (fst (promote rq es affected lin)) = l_attempts lin"
proof -
  have "l_attempts (fst (promote_targets es affected lin)) = l_attempts lin"
    by (induction es affected lin rule: promote_targets.induct)
      (simp_all add: promote_record_def on_graph_def split: option.split)
  then show ?thesis
    by (auto simp: promote_def promote_record_def on_graph_def split: option.split)
qed

lemma reevaluate_attempts: "l_attempts (fst (reevaluate_nodes st ids lin)) = l_attempts lin"
  using step_reevaluate [of undefined undefined undefined lin st ids] by (simp add: lineage_step_def)

text \<open>A commit that returns a publication from its last stage has recorded it.\<close>

definition recorded :: "hash_fun \<Rightarrow> NormalizedPublication \<Rightarrow> Publication \<Rightarrow> Lineage \<Rightarrow> bool" where
  "recorded H rq p lin \<longleftrightarrow> (\<exists>r. om_find (l_attempts lin) (attempt_key rq) = Some r
     \<and> ar_request r = request_digest H rq \<and> ar_node r = p_node p \<and> ar_edges r = p_edges p)"

lemma finish_recorded:
  assumes "r_value (snd (commit_finish H rq i node out es affected st lin)) = Some p"
    and "om_find (l_attempts lin) (attempt_key rq) = None"
  shows "\<exists>lin'. find_lineage (fst (commit_finish H rq i node out es affected st lin)) i = Some lin' \<and> recorded H rq p lin'"
proof -
  obtain lin1 status where r: "reevaluate_nodes st affected lin = (lin1, status)" by (cases "reevaluate_nodes st affected lin")
  have a1: "l_attempts lin1 = l_attempts lin" using reevaluate_attempts [of st affected lin] by (simp add: r)
  have ok: "st_is_ok status" using assms(1) by (auto simp: commit_finish_def r result_defs split: if_splits)
  note a2 = reevaluate_attempts [of st "[ls_current_node (l_state lin1)]" lin1]
  show ?thesis
    using assms(1) ok a1 a2 assms(2)
    by (auto simp: commit_finish_def r Let_def recorded_def om_find_emplace make_publication_def find_lineage_def
        attempt_record_def)
qed

lemma graph_refusal: "snd (apply_graph H rq limits i node es g) = Inl r \<Longrightarrow> r_value r = None"
proof -
  have edges: "snd (add_edges H limits es out g) = Inl r \<Longrightarrow> r_value r = None" for es out g
    by (induction es arbitrary: out g) (auto simp: case_prod_beta result_defs split: if_splits)
  have link: "link_edge H rq i g = Inl r \<Longrightarrow> r_value r = None"
    by (auto simp: link_edge_def Let_def result_defs split: option.splits if_splits)
  show "snd (apply_graph H rq limits i node es g) = Inl r \<Longrightarrow> r_value r = None"
    using edges [of es] link
    by (fastforce simp: apply_graph_def apply_link_def apply_node_def case_prod_beta Let_def result_defs
        split: if_splits sum.splits prod.splits)
qed

lemma apply_recorded:
  assumes "r_value (snd (commit_apply H rq i node es st lin)) = Some p"
    and "om_find (l_attempts lin) (attempt_key rq) = None"
  shows "\<exists>lin'. find_lineage (fst (commit_apply H rq i node es st lin)) i = Some lin' \<and> recorded H rq p lin'"
proof (cases rule: commit_apply_cases [of H rq i node es st lin])
  case (refused lin' st' r)
  then show ?thesis using assms(1) graph_refusal [of H rq "s_limits st" i node es "l_graph lin" r] by auto
next
  case (booked ap generation affected es')
  let ?lin = "booked H rq (s_limits st) node ap generation
             (lin\<lparr>l_graph := fst (apply_graph H rq (s_limits st) i node es (l_graph lin))\<rparr>)"
  have "l_attempts ?lin = l_attempts lin"
    by (simp add: booked_def Let_def refresh_counters_def promote_attempts kind_attempts case_prod_beta)
  then show ?thesis
    using finish_recorded [of H rq i node "ap_outcome ap" es' affected "snd (next_store_generation st)" ?lin p]
      assms booked(4) by simp
qed

text \<open>What a commit answers to an attempt the ledger knows.\<close>

definition replayed :: "hash_fun \<Rightarrow> NormalizedPublication \<Rightarrow> AttemptRecord \<Rightarrow> Publication Result \<Rightarrow> bool" where
  "replayed H rq r result \<longleftrightarrow> r_value result = None
     \<or> ar_request r = request_digest H rq \<and> r_outcome result = O_Idempotent
       \<and> map_option p_node (r_value result) = Some (ar_node r)
       \<and> map_option p_edges (r_value result) = Some (ar_edges r)"

lemma commit_known_attempt:
  assumes "find_lineage st (derive_lineage_id H (np_key rq)) = Some lin"
    and "om_find (l_attempts lin) (attempt_key rq) = Some r"
  shows "fst (commit H rq st) = st \<and> replayed H rq r (snd (commit H rq st))"
proof -
  let ?i = "derive_lineage_id H (np_key rq)"
  have acq: "acquire_lineage ?i (np_key rq) True st = Some (st, lin)" using assms(1) by (simp add: acquire_lineage_def)
  obtain res where a: "stage_attempt H rq (s_watermarks st) ?i lin = Some res" "replayed H rq r res"
    using assms(2) by (cases "ar_request r = request_digest H rq")
      (auto simp: stage_attempt_def replayed_def make_publication_def result_defs)
  have life: "stage_lifecycle (l_state lin) = Some s \<Longrightarrow> r_value s = None" for s
    by (auto simp: stage_lifecycle_def result_defs split: if_splits)
  show ?thesis
  proof (cases rule: commit_cases [of H rq st])
    case (unauthorised r')
    then show ?thesis using stage_authority_Inl [of H rq st r'] by (simp add: replayed_def)
  next
    case full
    then show ?thesis by (simp add: replayed_def result_defs)
  next
    case (rejected st1 lin1 r')
    then have same: "st1 = st" "lin1 = lin" using acq by simp_all
    have "replayed H rq r r'"
      using rejected(3) a life unfolding same
      by (auto simp: commit_checks_def replayed_def split: option.splits)
    then show ?thesis using rejected(4) same by simp
  next
    case (applied st1 lin1 node es)
    then show ?thesis using acq a(1) by (auto simp: commit_checks_def split: option.splits)
  qed
qed

text \<open>A request refused on a lineage it has just created gets no publication.\<close>

lemma checks_of_new:
  assumes "commit_checks H rq st i (new_lineage i key) = Inl r"
  shows "r_value r = None"
proof -
  have empty: "find_node (l_graph (new_lineage i key)) j = None" for j
    by (simp add: new_lineage_def empty_graph_def find_node_def)
  have attempt: "stage_attempt H rq m i (new_lineage i key) = Some s \<Longrightarrow> r_value s = None" for m s
    by (auto simp: stage_attempt_def new_lineage_def result_defs split: option.splits if_splits)
  have target: "stage_target H rq st i (new_lineage i key) = Inl s \<Longrightarrow> r_value s = None" for s
    by (auto simp: stage_target_def target_route_state_def target_existing_def existing_generation_def empty Let_def
        result_defs split: PublishKind.splits option.splits if_splits)
  have fresh: "stage_freshness m node = Some s \<Longrightarrow> r_value s = None" for m node s
    by (auto simp: stage_freshness_def Let_def result_defs split: option.splits if_splits)
  have checked: "checked_edge limits g e = Inl s \<Longrightarrow> r_value s = None" for limits g e s
    by (auto simp: checked_edge_def result_defs split: if_splits)
  have specs: "spec_edges build ss = Inl s \<Longrightarrow> (\<And>sp s. build sp = Inl s \<Longrightarrow> r_value s = None) \<Longrightarrow> r_value s = None" for build ss s
    by (induction ss) (auto split: sum.splits)
  have spec: "spec_edge H rq st i (l_graph (new_lineage i key)) node sp = Inl s \<Longrightarrow> r_value s = None" for node sp s
    by (auto simp: spec_edge_def empty result_defs split: if_splits)
  have edges: "stage_edges H rq st i (new_lineage i key) node = Inl s \<Longrightarrow> r_value s = None" for node s
    using specs spec checked
    by (fastforce simp: stage_edges_def link_edge_def empty Let_def result_defs split: if_splits sum.splits)
  have limits: "stage_limits rq l lin es = Some s \<Longrightarrow> r_value s = None" for l lin es s
    by (auto simp: stage_limits_def result_defs split: if_splits)
  have life: "stage_lifecycle state = Some s \<Longrightarrow> r_value s = None" for state s
    by (auto simp: stage_lifecycle_def result_defs split: if_splits)
  show ?thesis
    using assms attempt target fresh edges limits life
    by (auto simp: commit_checks_def split: option.splits sum.splits prod.splits)
qed

text \<open>
  C5: A mutation attempt takes effect at most once. Once a commit has changed the store and returned a
  publication, then for ever after, whatever calls follow, compactions included: no request on that lineage
  with the same publisher and attempt changes the store; the same request is answered, if not refused, as an
  idempotent replay with the record and the derivations of the first publication; and a different request
  under that attempt never gets a publication.
\<close>

theorem attempt_at_most_once:
  assumes "store_inv H st" and "commit H rq st = (st1, result)" and "st1 \<noteq> st" and "r_value result = Some p"
    and "derive_lineage_id H (np_key rq') = derive_lineage_id H (np_key rq)" and "attempt_key rq' = attempt_key rq"
  shows "fst (commit H rq' (store_ops H ops st1)) = store_ops H ops st1
    \<and> (case r_value (snd (commit H rq' (store_ops H ops st1))) of None \<Rightarrow> True
       | Some p' \<Rightarrow> request_digest H rq' = request_digest H rq
           \<and> r_outcome (snd (commit H rq' (store_ops H ops st1))) = O_Idempotent
           \<and> p_node p' = p_node p \<and> p_edges p' = p_edges p)"
proof -
  let ?i = "derive_lineage_id H (np_key rq)"
  have "\<exists>lin'. find_lineage st1 ?i = Some lin' \<and> recorded H rq p lin'"
  proof (cases rule: commit_cases [of H rq st])
    case (unauthorised r)
    then show ?thesis using assms(2,3) by simp
  next
    case full
    then show ?thesis using assms(2,3) by simp
  next
    case (rejected st2 lin r)
    then have "st2 = st1" "r = result" using assms(2) by simp_all
    then have fresh: "lin = new_lineage ?i (np_key rq)"
      using rejected(2) assms(3) by (auto simp: acquire_lineage_def split: option.splits if_splits)
    have "r_value r = None"
      using rejected(3) checks_of_new [of H rq st2 ?i "np_key rq" r] unfolding fresh by blast
    then show ?thesis using \<open>r = result\<close> assms(4) by simp
  next
    case (applied st2 lin node es)
    have "om_find (l_attempts lin) (attempt_key rq) = None"
      using applied(3) by (auto simp: commit_checks_def stage_attempt_def split: option.splits if_splits)
    moreover have "commit_apply H rq ?i node es st2 lin = (st1, result)" using applied(4) assms(2) by simp
    ultimately show ?thesis using apply_recorded [of H rq ?i node es st2 lin p] assms(4) by simp
  qed
  then obtain lin r where lin: "find_lineage st1 ?i = Some lin" and r: "om_find (l_attempts lin) (attempt_key rq) = Some r"
    "ar_request r = request_digest H rq" "ar_node r = p_node p" "ar_edges r = p_edges p"
    by (auto simp: recorded_def)
  have "store_inv H st1" using commit_inv [OF assms(1), of rq] by (simp add: assms(2))
  from store_laterD [OF store_ops_later [OF this, of ops] lin]
  obtain lin' where lin': "find_lineage (store_ops H ops st1) ?i = Some lin'"
    "om_find (l_attempts lin') (attempt_key rq) = Some r"
    using r(1) unfolding lineage_later_def by blast
  note k = commit_known_attempt [of "store_ops H ops st1" H rq' lin' r, unfolded assms(5,6), OF lin']
  then show ?thesis using r(2-4) by (auto simp: replayed_def split: option.splits)
qed

theorem attempt_at_most_once_witness:
  "fst (commit sample_hash (sample_normal sample_root) sample_published) = sample_published"
proof -
  let ?rq = "sample_normal sample_root"
  obtain p where p: "r_value (snd (publish_route sample_hash sample_root sample_store)) = Some p"
    using sample_created(2) by blast
  have "commit sample_hash ?rq sample_store
      = (sample_published, snd (publish_route sample_hash sample_root sample_store))"
    by (simp add: sample_published_def sample_publish_commit)
  then show ?thesis
    using attempt_at_most_once [OF sample_store_inv(1) _ sample_published_new p, of ?rq ?rq "[]"] by simp
qed

section \<open>Fences\<close>

lemma reevaluate_group_table:
  "s_publishers (reevaluate_group p st) = s_publishers st" "s_watermarks (reevaluate_group p st) = s_watermarks st"
  "s_recovered (reevaluate_group p st) = s_recovered st"
  "s_epoch_bootstrapped (reevaluate_group p st) = s_epoch_bootstrapped st"
  by (simp_all add: reevaluate_group_def case_prod_beta put_lineage_def split: option.splits)

lemma reevaluate_index_table [simp]:
  "s_publishers (reevaluate_index ids st) = s_publishers st" "s_watermarks (reevaluate_index ids st) = s_watermarks st"
  "s_recovered (reevaluate_index ids st) = s_recovered st"
  "s_epoch_bootstrapped (reevaluate_index ids st) = s_epoch_bootstrapped st"
proof -
  have "s_publishers (fold reevaluate_group ps st) = s_publishers st
      \<and> s_watermarks (fold reevaluate_group ps st) = s_watermarks st
      \<and> s_recovered (fold reevaluate_group ps st) = s_recovered st
      \<and> s_epoch_bootstrapped (fold reevaluate_group ps st) = s_epoch_bootstrapped st" for ps
    by (induction ps arbitrary: st) (simp_all add: reevaluate_group_table)
  then show "s_publishers (reevaluate_index ids st) = s_publishers st"
    "s_watermarks (reevaluate_index ids st) = s_watermarks st"
    "s_recovered (reevaluate_index ids st) = s_recovered st"
    "s_epoch_bootstrapped (reevaluate_index ids st) = s_epoch_bootstrapped st"
    by (simp_all add: reevaluate_index_fold)
qed

lemma reevaluate_boots [simp]:
  "s_publishers (fold (\<lambda>b s. reevaluate_index (f s b) s) bs st) = s_publishers st"
  "s_watermarks (fold (\<lambda>b s. reevaluate_index (f s b) s) bs st) = s_watermarks st"
  "s_recovered (fold (\<lambda>b s. reevaluate_index (f s b) s) bs st) = s_recovered st"
  "s_epoch_bootstrapped (fold (\<lambda>b s. reevaluate_index (f s b) s) bs st) = s_epoch_bootstrapped st"
  by (induction bs arbitrary: st) simp_all

definition registers :: "PublisherIdentity \<Rightarrow> AuthorityScope \<Rightarrow> Store \<Rightarrow> Store \<Rightarrow> Store \<Rightarrow> bool" where
  "registers identity scope st st1 st' \<longleftrightarrow> identity_valid identity
     \<and> register_epoch (pi_epoch identity) st = Some st1
     \<and> s_watermarks st' = s_watermarks st1 \<and> s_epoch_bootstrapped st' = s_epoch_bootstrapped st1
     \<and> (\<forall>q b. find_publisher st' q b =
         (if q = pi_publisher identity \<and> b = pi_boot identity
          then Some \<lparr>pr_identity = identity, pr_scope = scope, pr_live = True, pr_fenced = False\<rparr>
          else if q = pi_publisher identity \<and> b \<in> set (superseded_boots identity st)
          then map_option fence_record (find_publisher st q b) else find_publisher st q b))
     \<and> (superseded_boots identity st = [] \<longrightarrow> s_lineages st' = s_lineages st)"

lemma register_table:
  assumes "register_publisher identity scope st = (st', r)" and "r_value r \<noteq> None"
  shows "\<exists>st1. registers identity scope st st1 st'"
proof -
  obtain st1 where e: "identity_valid identity" "register_epoch (pi_epoch identity) st = Some st1"
    using assms by (auto simp: register_publisher_def result_defs split: if_splits option.splits)
  note k = register_epoch_Some [OF e(2)]
  have boots: "superseded_boots identity st1 = superseded_boots identity st" by (simp add: superseded_boots_def k)
  let ?st2 = "st1\<lparr>s_publishers := om_put (pi_publisher identity, pi_boot identity)
      \<lparr>pr_identity = identity, pr_scope = scope, pr_live = True, pr_fenced = False\<rparr>
      (fence_boots (pi_publisher identity) (superseded_boots identity st) (s_publishers st))\<rparr>"
  have st': "st' = fold (\<lambda>boot s. reevaluate_index (boot_records s boot) s) (superseded_boots identity st) ?st2"
    using assms e boots k(4) by (auto simp: register_publisher_def Let_def result_defs split: if_splits)
  with e show ?thesis
    by (auto simp: registers_def st' k find_publisher_def find_fence_boots)
qed

definition boot_fenced :: "Store \<Rightarrow> PublisherId \<Rightarrow> WorkerBootId \<Rightarrow> bool" where
  "boot_fenced st p b \<longleftrightarrow> (\<exists>r. find_publisher st p b = Some r \<and> pr_fenced r)"

lemma fenced_register:
  assumes "boot_fenced st p b"
  shows "boot_fenced (fst (register_publisher identity scope st)) p b"
    and "pi_publisher identity = p \<Longrightarrow> pi_boot identity = b \<Longrightarrow> r_value (snd (register_publisher identity scope st)) = None"
proof -
  obtain st' r where reg: "register_publisher identity scope st = (st', r)" by (cases "register_publisher identity scope st")
  have same: "find_publisher st1 p b = find_publisher st p b" if "register_epoch e st = Some st1" for e st1
    using register_epoch_Some(4) [OF that] by (simp add: find_publisher_def)
  show none: "pi_publisher identity = p \<Longrightarrow> pi_boot identity = b \<Longrightarrow> r_value (snd (register_publisher identity scope st)) = None"
    using assms same by (auto simp: register_publisher_def boot_fenced_def result_defs split: option.split)
  show "boot_fenced (fst (register_publisher identity scope st)) p b"
  proof (cases "r_value r")
    case None
    then show ?thesis
      using assms reg same
      by (auto simp: register_publisher_def boot_fenced_def Let_def result_defs split: option.splits if_splits)
  next
    case (Some rec)
    then obtain st1 where "registers identity scope st st1 st'" using register_table [OF reg] by blast
    then show ?thesis
      using assms none Some by (auto simp: reg boot_fenced_def registers_def fence_record_def)
  qed
qed

lemma fenced_put: "boot_fenced st p b \<Longrightarrow> pr_fenced r' \<or> (q, c) \<noteq> (p, b) \<Longrightarrow>
    boot_fenced (st\<lparr>s_publishers := om_put (q, c) r' (s_publishers st)\<rparr>) p b"
  by (auto simp: boot_fenced_def find_publisher_def)

lemma fenced_op:
  assumes inv: "store_inv H st" and f: "boot_fenced st p b"
  shows "boot_fenced (fst (store_op H op st)) p b"
proof -
  have commit: "boot_fenced (fst (commit H rq st)) p b" for rq
    using commit_grows [OF inv, of rq] f by (simp add: same_registry_def boot_fenced_def find_publisher_def)
  have normalized: "boot_fenced (fst (commit_normalized H n st)) p b" for n
    using commit f by (simp add: commit_normalized_def split: option.split)
  have session: "boot_fenced (fst (commit_session H s np st)) p b" for s np
    using commit f by (simp add: commit_session_def)
  have index: "boot_fenced (reevaluate_index ids s) p b = boot_fenced s p b" for ids s
    by (simp add: boot_fenced_def find_publisher_def)
  have counter: "boot_fenced (snd (next_store_generation s)) p b = boot_fenced s p b" for s
    using next_store_generation_facts(1) [of s] by (simp add: same_registry_def boot_fenced_def find_publisher_def)
  have fence: "boot_fenced (fst (fence_publisher q c auth st)) p b" for q c auth
    using f by (auto simp: fence_publisher_def Let_def index fence_record_def fenced_put split: option.split)
  have notify: "boot_fenced (fst (notify_dependency n st)) p b" for n
  proof (cases "notify_marks n st")
    case (Inr q)
    let ?st1 = "snd (next_store_generation (st\<lparr>s_watermarks := fst q\<rparr>))"
    have st1: "boot_fenced ?st1 p b" using f by (simp add: counter) (simp add: boot_fenced_def find_publisher_def)
    have dead: "boot_fenced (st2\<lparr>s_publishers := om_put (q, c) (r\<lparr>pr_live := False\<rparr>) (s_publishers st2)\<rparr>) p b"
      if "boot_fenced st2 p b" "find_publisher st2 q c = Some r" for st2 q c r
      using that by (auto simp: boot_fenced_def find_publisher_def)
    have "boot_fenced (fst (notify_finish n a ?st1)) p b" for a
      using st1 dead by (auto simp: notify_finish_def Let_def index split: DependencyKind.split option.split)
    then show ?thesis
      using f Inr st1 by (auto simp: notify_dependency_def case_prod_beta Let_def)
  qed (use f in \<open>simp add: notify_dependency_def\<close>)
  have compact: "boot_fenced (fst (compact H i auth options st)) p b" for i auth options
    using compact_effect [of H i auth options st] next_store_generation_facts(1) [of st] f
    by (auto simp: same_registry_def boot_fenced_def find_publisher_def)
  show ?thesis
    by (cases op) (simp_all add: with_outcome_def entry_points normalized session session_commit_def
        reincarnate_publisher_def advance_epoch_def fenced_register(1) [OF f] fence notify compact f)
qed

lemma fenced_ops: "store_inv H st \<Longrightarrow> boot_fenced st p b \<Longrightarrow> boot_fenced (store_ops H ops st) p b"
proof (induction ops arbitrary: st)
  case (Cons op ops)
  then show ?case using fenced_op store_op_inv by (metis store_ops_Cons)
qed simp

lemma fenced_not_live: "store_inv H st \<Longrightarrow> boot_fenced st p b \<Longrightarrow> \<not> publisher_is_live st p b"
  using store_invD(3) [of H st] by (auto simp: boot_fenced_def publisher_is_live_def find_publisher_def publishers_inv_def)

text \<open>
  C6: A fence is final. Once a boot of a publisher is fenced in a reachable store, it stays fenced whatever
  calls follow; it is never live again, no registration or reincarnation of it succeeds, and no commit in its
  name changes the store or gets a publication, not even a replay.
\<close>

theorem fencing_is_final:
  assumes "make_store limits = Inr st0" and "find_publisher (store_ops H ops st0) p b = Some r" and "pr_fenced r"
  shows "\<not> publisher_is_live (store_ops H (ops @ ops') st0) p b
    \<and> (\<forall>e scope. r_value (snd (register_publisher \<lparr>pi_publisher = p, pi_boot = b, pi_epoch = e\<rparr> scope
         (store_ops H (ops @ ops') st0))) = None
       \<and> r_value (snd (reincarnate_publisher p b e scope (store_ops H (ops @ ops') st0))) = None)
    \<and> (\<forall>rq. pi_publisher (ac_publisher (np_authority rq)) = p \<longrightarrow> pi_boot (ac_publisher (np_authority rq)) = b \<longrightarrow>
         fst (commit H rq (store_ops H (ops @ ops') st0)) = store_ops H (ops @ ops') st0
         \<and> r_value (snd (commit H rq (store_ops H (ops @ ops') st0))) = None)"
proof -
  let ?st = "store_ops H (ops @ ops') st0"
  have inv: "store_inv H ?st" using reachable_inv [OF assms(1)] .
  have f: "boot_fenced ?st p b"
    using fenced_ops [OF reachable_inv [OF assms(1)], of H ops p b ops'] assms(2,3)
    by (auto simp: store_ops_append boot_fenced_def)
  note dead = fenced_not_live [OF inv f]
  have "fst (commit H rq ?st) = ?st \<and> r_value (snd (commit H rq ?st)) = None"
    if "pi_publisher (ac_publisher (np_authority rq)) = p" "pi_boot (ac_publisher (np_authority rq)) = b" for rq
  proof -
    have "stage_authority H rq ?st \<noteq> Inr i" for i
      using stage_authority_Inr(5) [of H rq ?st i] dead that by auto
    then show ?thesis using stage_authority_Inl by (cases rule: commit_cases [of H rq ?st]) auto
  qed
  then show ?thesis
    using dead fenced_register(2) [OF f] by (auto simp: reincarnate_publisher_def result_defs)
qed

theorem fencing_is_final_witness:
  "r_value (snd (register_publisher sample_identity scope_fabric
     (fst (fence_publisher 1 2 sample_authority sample_published)))) = None"
proof -
  let ?ops = "[SO_register sample_identity scope_fabric, SO_publish_route sample_root, SO_fence 1 2 sample_authority]"
  have st: "store_ops sample_hash ?ops (new_store sample_limits) = fst (fence_publisher 1 2 sample_authority sample_published)"
    using store_ops_append [of sample_hash "take 2 ?ops" "drop 2 ?ops" "new_store sample_limits"]
    by (simp add: sample_published_ops)
  let ?st2 = "fst (fence_publisher 1 2 sample_authority sample_published)"
  have "map_option pr_fenced (find_publisher ?st2 1 2) = Some True"
    by code_simp
  then obtain r where "find_publisher (store_ops sample_hash ?ops (new_store sample_limits)) 1 2 = Some r" "pr_fenced r"
    unfolding st by auto
  from fencing_is_final [OF sample_make_store this, of "[]", unfolded append_Nil2 st] show ?thesis
    by (simp only: sample_identity_def simp_thms)
qed

end
