(* ===== verification/Coordinator_Props.thy ===== *)
theory Coordinator_Props
  imports Coordinator Store_Protocol
begin

text \<open>
  What the coordinator process guarantees across a restart: the sessions and the epoch of the old process
  are over, the new one can fence, and the history saved at the exit is the history recovered.
\<close>

section \<open>The coordinator's own registration\<close>

lemma coordinator_server_Inr:
  assumes "coordinator_server o1 st = Inr sv"
  obtains r where "register_publisher (coordinator_identity o1) scope_fabric st = (sr_store sv, r)" "r_value r \<noteq> None"
    "sv_coordinator_authority (sr_options sv) = coordinator_authority o1" "sr_running sv = False"
    "sr_loop sv = False" "sv_limits (sr_options sv) = cd_limits o1"
  using assms by (auto simp: coordinator_server_def new_server_def case_prod_beta split: option.splits
      intro: that [of "snd (register_publisher (coordinator_identity o1) scope_fabric st)"])

lemma coordinator_recover_loaded:
  assumes "coordinator_recover H io fs o1 st = Inr (o2, st2)" and "cd_load_existing o1"
  shows "st2 = fst (load H (cd_store_path o1) io fs st)"
    and "st_outcome (snd (load H (cd_store_path o1) io fs st)) = O_Updated"
    and "\<exists>e. o2 = o1\<lparr>cd_epoch := e\<rparr>"
    and "id_valid (wm_epoch (s_watermarks st2)) \<Longrightarrow> unat (cd_epoch o2) = unat (wm_epoch (s_watermarks st2)) + 1"
proof -
  obtain st' status where l: "load H (cd_store_path o1) io fs st = (st', status)" by (cases "load H (cd_store_path o1) io fs st")
  have ok: "\<not> outcome_is_rejection (st_outcome status)" and st2: "st2 = st'"
    and o2: "o2 = (case try_next (wm_epoch (s_watermarks st')) of
        Some e \<Rightarrow> if id_valid (wm_epoch (s_watermarks st')) then o1\<lparr>cd_epoch := e\<rparr> else o1 | None \<Rightarrow> o1)"
    using assms by (auto simp: coordinator_recover_def l watermarks_def result_defs split: if_splits option.splits)
  show "st2 = fst (load H (cd_store_path o1) io fs st)" by (simp add: l st2)
  show "st_outcome (snd (load H (cd_store_path o1) io fs st)) = O_Updated"
    using ok by (cases rule: load_cases [of H "cd_store_path o1" io fs st])
      (auto simp: l decode_failures_def outcome_is_rejection_def outcome_is_commit_def outcome_is_stale_def)
  show "\<exists>e. o2 = o1\<lparr>cd_epoch := e\<rparr>"
    by (auto simp: o2 intro: exI [of _ "cd_epoch o1"] split: option.split)
  assume v: "id_valid (wm_epoch (s_watermarks st2))"
  obtain e where e: "try_next (wm_epoch (s_watermarks st')) = Some e"
    using assms v by (auto simp: coordinator_recover_def l st2 watermarks_def result_defs split: if_splits option.splits)
  then show "unat (cd_epoch o2) = unat (wm_epoch (s_watermarks st2)) + 1"
    using v try_next_Some [of "wm_epoch (s_watermarks st')" e] by (simp add: o2 st2)
qed

text \<open>
  A store without sessions after the registration of the coordinator, when the epoch it brings is a new one.
\<close>

lemma only_coordinator:
  assumes "register_publisher identity scope st = (st', r)" "r_value r \<noteq> None" and "s_publishers st = om_empty"
  shows "s_lineages st' = s_lineages st" "wm_epoch (s_watermarks st') = pi_epoch identity"
    and "find_publisher st' p b = (if p = pi_publisher identity \<and> b = pi_boot identity
       then Some \<lparr>pr_identity = identity, pr_scope = scope, pr_live = True, pr_fenced = False\<rparr> else None)"
    and "id_valid (wm_epoch (s_watermarks st)) \<Longrightarrow> wm_epoch (s_watermarks st) \<noteq> pi_epoch identity \<Longrightarrow>
       s_epoch_bootstrapped st'"
proof -
  obtain st1 where "registers identity scope st st1 st'" using register_table [OF assms(1,2)] by blast
  note e = this [unfolded registers_def]
  have b: "superseded_boots identity st = []" by (simp add: superseded_boots_def assms(3) List.map_filter_def)
  show "s_lineages st' = s_lineages st" using e b by simp
  show "wm_epoch (s_watermarks st') = pi_epoch identity" using e register_epoch_Some(5) [of "pi_epoch identity" st st1] by simp
  show "find_publisher st' p b = (if p = pi_publisher identity \<and> b = pi_boot identity
       then Some \<lparr>pr_identity = identity, pr_scope = scope, pr_live = True, pr_fenced = False\<rparr> else None)"
    using e assms(3) b by (simp add: find_publisher_def)
  assume "id_valid (wm_epoch (s_watermarks st))" "wm_epoch (s_watermarks st) \<noteq> pi_epoch identity"
  then show "s_epoch_bootstrapped st'" using e by (auto simp: register_epoch_def Let_def split: if_splits)
qed

lemma bootstrapped_epoch_fixed:
  assumes "s_epoch_bootstrapped st" "id_valid (wm_epoch (s_watermarks st))" "pi_epoch identity \<noteq> wm_epoch (s_watermarks st)"
  shows "fst (register_publisher identity scope st) = st \<and> r_value (snd (register_publisher identity scope st)) = None"
  using assms by (simp add: register_publisher_def register_epoch_def Let_def result_defs)

lemma registered_can_be_fenced:
  assumes r: "register_publisher identity scope st = (st', r)" "r_value r \<noteq> None"
    and live: "publisher_is_live st (pi_publisher (ac_publisher auth)) (pi_boot (ac_publisher auth))"
    and other: "pi_publisher identity \<noteq> pi_publisher (ac_publisher auth)"
    and auth: "has_identity auth" "scope_kind (ac_scope auth) = SK_Fabric" "pi_epoch (ac_publisher auth) = pi_epoch identity"
  shows "st_outcome (snd (fence_publisher (pi_publisher identity) (pi_boot identity) auth st')) = O_Updated"
proof -
  obtain st1 where "registers identity scope st st1 st'" using register_table [OF r] by blast
  note e = this [unfolded registers_def]
  have "wm_epoch (s_watermarks st') = pi_epoch identity" using e register_epoch_Some(5) [of "pi_epoch identity" st st1] by simp
  moreover have "publisher_is_live st' (pi_publisher (ac_publisher auth)) (pi_boot (ac_publisher auth))"
    using live other e by (simp add: publisher_is_live_def)
  ultimately show ?thesis
    using auth e by (simp add: fence_publisher_def check_authority_fields_def Let_def result_defs
      has_identity_def identity_valid_def)
qed

section \<open>A restart\<close>

text \<open>
  C12: A restarted coordinator starts clean. When it recovers a store file whose epoch is set and its own
  registration succeeds, its epoch is the one after that of the file; every lineage is as recovered, and no
  record is current unless revalidated; the only live boot is the coordinator's; nobody registers with
  another epoch than the new one, and no commit succeeds but in the coordinator's own name; and whoever
  registers as another publisher can be fenced with the coordinator's authority.
\<close>

theorem coordinator_restart_clean:
  assumes "coordinator_recover H io fs o1 st = Inr (o2, st2)" and "cd_load_existing o1"
    and "id_valid (wm_epoch (s_watermarks st2))" and "coordinator_server o2 st2 = Inr sv"
  shows "unat (wm_epoch (s_watermarks (sr_store sv))) = unat (wm_epoch (s_watermarks st2)) + 1
    \<and> (\<forall>i. find_lineage (sr_store sv) i = find_lineage st2 i)
    \<and> (\<forall>i lin j n. find_lineage (sr_store sv) i = Some lin \<longrightarrow> om_find (g_nodes (l_graph lin)) j = Some n \<longrightarrow>
         n_currentness n = CU_Current \<longrightarrow> n_revalidated n)
    \<and> (\<forall>p b. publisher_is_live (sr_store sv) p b \<longleftrightarrow> p = cd_publisher o2 \<and> b = cd_boot o2)
    \<and> (\<forall>identity scope. pi_epoch identity \<noteq> cd_epoch o2 \<longrightarrow>
         fst (register_publisher identity scope (sr_store sv)) = sr_store sv
         \<and> r_value (snd (register_publisher identity scope (sr_store sv))) = None)
    \<and> (\<forall>rq. ac_publisher (np_authority rq) \<noteq> coordinator_identity o2 \<longrightarrow>
         fst (commit H rq (sr_store sv)) = sr_store sv \<and> r_value (snd (commit H rq (sr_store sv))) = None)
    \<and> (\<forall>identity scope st3 r. register_publisher identity scope (sr_store sv) = (st3, r) \<longrightarrow> r_value r \<noteq> None \<longrightarrow>
         pi_publisher identity \<noteq> cd_publisher o2 \<longrightarrow>
         st_outcome (snd (fence_publisher (pi_publisher identity) (pi_boot identity)
           (sv_coordinator_authority (sr_options sv)) st3)) = O_Updated)"
proof -
  note l = coordinator_recover_loaded [OF assms(1,2)]
  note left = load_leaves [OF l(2), folded l(1)]
  obtain r where reg: "register_publisher (coordinator_identity o2) scope_fabric st2 = (sr_store sv, r)" "r_value r \<noteq> None"
    and auth: "sv_coordinator_authority (sr_options sv) = coordinator_authority o2"
    using coordinator_server_Inr [OF assms(4)] by metis
  have id: "identity_valid (coordinator_identity o2)" using register_table [OF reg] by (auto simp: registers_def)
  note c = only_coordinator [OF reg left(1)]
  have fields: "pi_epoch (coordinator_identity o2) = cd_epoch o2" "pi_publisher (coordinator_identity o2) = cd_publisher o2"
    "pi_boot (coordinator_identity o2) = cd_boot o2"
    by (simp_all add: coordinator_identity_def)
  have epoch: "unat (cd_epoch o2) = unat (wm_epoch (s_watermarks st2)) + 1" using l(4) assms(3) .
  then have "wm_epoch (s_watermarks st2) \<noteq> pi_epoch (coordinator_identity o2)" by (auto simp: fields)
  note boot = c(4) [OF assms(3) this]
  have marks: "wm_epoch (s_watermarks (sr_store sv)) = cd_epoch o2" using c(2) fields by simp
  have valid: "id_valid (cd_epoch o2)" using id by (simp add: identity_valid_def fields)
  have live: "publisher_is_live (sr_store sv) p b \<longleftrightarrow> p = cd_publisher o2 \<and> b = cd_boot o2" for p b
    using c(3) by (simp add: publisher_is_live_def fields)
  have epochs: "fst (register_publisher identity scope (sr_store sv)) = sr_store sv
      \<and> r_value (snd (register_publisher identity scope (sr_store sv))) = None" if "pi_epoch identity \<noteq> cd_epoch o2" for identity scope
    using bootstrapped_epoch_fixed [OF boot] valid that by (simp add: marks)
  have "fst (commit H rq (sr_store sv)) = sr_store sv \<and> r_value (snd (commit H rq (sr_store sv))) = None"
    if "ac_publisher (np_authority rq) \<noteq> coordinator_identity o2" for rq
  proof -
    have "stage_authority H rq (sr_store sv) \<noteq> Inr i" for i
    proof
      assume "stage_authority H rq (sr_store sv) = Inr i"
      from stage_authority_Inr [OF this] have "ac_publisher (np_authority rq) = coordinator_identity o2"
        unfolding live marks by (simp add: coordinator_identity_def)
      then show False using that by blast
    qed
    then show ?thesis using stage_authority_Inl by (cases rule: commit_cases [of H rq "sr_store sv"]) auto
  qed
  moreover have "st_outcome (snd (fence_publisher (pi_publisher identity) (pi_boot identity)
      (sv_coordinator_authority (sr_options sv)) st3)) = O_Updated"
    if g: "register_publisher identity scope (sr_store sv) = (st3, r)" "r_value r \<noteq> None" "pi_publisher identity \<noteq> cd_publisher o2"
    for identity scope st3 r
  proof -
    have "pi_epoch identity = cd_epoch o2" using epochs [of identity scope] g(1,2) by fastforce
    then show ?thesis
      using id g(3) live unfolding auth
      by (intro registered_can_be_fenced [OF g(1,2)])
        (simp_all add: coordinator_authority_def has_identity_def fields scope_fabric_def id_valid_def)
  qed
  ultimately show ?thesis
    using epoch marks live epochs left(3) c(1) by (simp add: find_lineage_def)
qed

section \<open>That a restart succeeds\<close>

lemma load_keeps:
  "s_limits (fst (load H path io fs st)) = s_limits st"
  "s_epoch_bootstrapped (fst (load H path io fs st)) = s_epoch_bootstrapped st"
proof -
  have node: "s_epoch_bootstrapped (index_node n i st) = s_epoch_bootstrapped st" for n i st
    by (simp add: index_node_def Let_def)
  have nodes: "s_epoch_bootstrapped (fold (\<lambda>n. index_node n i) ns st) = s_epoch_bootstrapped st" for ns i st
    by (induction ns arbitrary: st) (simp_all add: node)
  have "s_epoch_bootstrapped (fold (\<lambda>(i, lin) st. fold (\<lambda>n. index_node n i) (nodes_in_order (l_graph lin)) st) es st)
      = s_epoch_bootstrapped st" for es :: "(RouteLineageId \<times> Lineage) list" and st
    by (induction es arbitrary: st) (simp_all add: case_prod_beta nodes)
  moreover have "s_epoch_bootstrapped (fold (\<lambda>(i, lin) st. put_lineage i (reevaluate_all st lin) st) es st)
      = s_epoch_bootstrapped st" for es st
    by (induction es arbitrary: st) (simp_all add: case_prod_beta put_lineage_def)
  ultimately have "s_epoch_bootstrapped (install_image marks reg st) = s_epoch_bootstrapped st" for marks reg
    by (simp add: install_image_def reevaluate_lineages_def index_lineages_def)
  then show "s_limits (fst (load H path io fs st)) = s_limits st"
    "s_epoch_bootstrapped (fst (load H path io fs st)) = s_epoch_bootstrapped st"
    using install_image_facts(1) by (cases rule: load_cases [of H path io fs st]; simp)+
qed

lemma restart_succeeds:
  assumes ok: "st_outcome (snd (load H (cd_store_path o1) io fs st)) = O_Updated" and "cd_load_existing o1"
    and epoch: "id_valid (wm_epoch (s_watermarks (fst (load H (cd_store_path o1) io fs st))))"
      "wm_epoch (s_watermarks (fst (load H (cd_store_path o1) io fs st))) \<noteq> kMax"
    and id: "id_valid (cd_publisher o1)" "id_valid (cd_boot o1)"
    and st: "\<not> s_epoch_bootstrapped st" "0 < max_publishers (s_limits st)"
  shows "\<exists>o2 sv. coordinator_recover H io fs o1 st = Inr (o2, fst (load H (cd_store_path o1) io fs st))
    \<and> coordinator_server o2 (fst (load H (cd_store_path o1) io fs st)) = Inr sv"
proof -
  obtain st2 status where l: "load H (cd_store_path o1) io fs st = (st2, status)" by (cases "load H (cd_store_path o1) io fs st")
  let ?e = "wm_epoch (s_watermarks st2) + 1"
  have nxt: "try_next (wm_epoch (s_watermarks st2)) = Some ?e" using epoch(2) by (simp add: try_next_def l)
  then have less: "wm_epoch (s_watermarks st2) < ?e"
    using try_next_Some [of "wm_epoch (s_watermarks st2)" ?e] by (simp add: word_less_nat_alt)
  then have valid: "id_valid ?e" by (auto simp: id_valid_def)
  let ?o = "o1\<lparr>cd_epoch := ?e\<rparr>"
  have rec: "coordinator_recover H io fs o1 st = Inr (?o, st2)"
    using ok assms(2) epoch(1) nxt
    by (simp add: coordinator_recover_def l watermarks_def result_defs outcome_is_rejection_def outcome_is_commit_def)
  have "s_publishers st2 = om_empty" "s_recovered st2" "\<not> s_epoch_bootstrapped st2" "s_limits st2 = s_limits st"
    using load_leaves(1,2) [OF ok] load_keeps [of H "cd_store_path o1" io fs st] st(1) by (simp_all add: l)
  then obtain r where "r_value (snd (register_publisher (coordinator_identity ?o) scope_fabric st2)) = Some r"
    using less valid id st(2) epoch(1)
    by (auto simp: register_publisher_def register_epoch_def Let_def coordinator_identity_def identity_valid_def l
        find_publisher_def scope_fabric_def scope_is_empty_def result_defs)
  then have "\<exists>sv. coordinator_server ?o st2 = Inr sv" by (simp add: coordinator_server_def case_prod_beta)
  then show ?thesis using rec by (auto simp: l)
qed

section \<open>A whole life\<close>

text \<open>What the process does to its store between the start and the exit are calls of the store's interface.\<close>

definition store_moves :: "hash_fun \<Rightarrow> Store \<Rightarrow> Store \<Rightarrow> bool" where
  "store_moves H st st' \<longleftrightarrow> (\<exists>ops. st' = store_ops H ops st)"

lemma store_moves_refl [simp]: "store_moves H st st"
  unfolding store_moves_def by (metis store_ops_Nil)

lemma store_moves_trans: "store_moves H a b \<Longrightarrow> store_moves H b c \<Longrightarrow> store_moves H a c"
  unfolding store_moves_def by (metis store_ops_append)

lemma store_moves_op: "store_moves H st (fst (store_op H op st))"
  unfolding store_moves_def by (metis store_ops_Nil store_ops_Cons)

lemma store_moves_server: "server_moves H sv sv' \<Longrightarrow> store_moves H (sr_store sv) (sr_store sv')"
  by (auto simp: server_moves_def store_moves_def)

lemma store_moves_advance: "store_moves H (sr_store sv) (sr_store (fst (server_advance_epoch e sv)))"
  using store_moves_op [of H "sr_store sv" "SO_advance_epoch e (sv_coordinator_authority (sr_options sv))"]
  by (simp add: server_advance_epoch_def on_store_def case_prod_beta Let_def)

lemma store_moves_stop: "store_moves H (sr_store sv) (sr_store (fst (server_stop False sv)))"
  using store_moves_server [of H sv "shut_down sv"] good_shut_down(1) by (auto simp: server_stop_def good_move_def)

lemma store_moves_start: "server_start ev sv = Some (sv', status) \<Longrightarrow> sr_store sv' = sr_store sv"
  by (auto simp: server_start_def Let_def split: if_splits option.splits)

lemma store_moves_line:
  "store_moves H (sr_store (cr_server run)) (sr_store (cr_server (snd (console_line H path line io run))))"
  using store_moves_advance
  by (auto simp: console_line_def console_epoch_def print_line_def save_store_def case_prod_beta split: option.split)

lemma store_moves_console:
  "store_moves H (sr_store (cr_server run)) (sr_store (cr_server (run_console H path events run)))"
proof (induction events arbitrary: run)
  case (Cons event events)
  show ?case
  proof (cases event)
    case (CV_Turns turns)
    have "store_moves H (sr_store (cr_server run)) (sr_store (run_server H turns (cr_server run)))"
      using store_moves_server [OF run_server_moves] .
    then show ?thesis
      using Cons.IH [of "run\<lparr>cr_server := run_server H turns (cr_server run)\<rparr>"] Cons.IH [of run]
        store_moves_trans by (auto simp: CV_Turns)
  next
    case (CV_Line line io)
    have line: "store_moves H (sr_store (cr_server run)) (sr_store (cr_server (snd (console_line H path line io run))))"
      by (rule store_moves_line)
    then show ?thesis
      using Cons.IH [of "snd (console_line H path line io run)"] store_moves_trans by (auto simp: CV_Line case_prod_beta)
  qed
qed simp

lemma recovered_marks:
  assumes "image_ok H (s_limits st) (persisted_image (export_image st))" "limits_typed (s_limits st)"
    and "encode_store_image H (export_image st) (s_limits st) = Inr bytes" and "fs path = Some bytes"
    and "s_limits st2 = s_limits st" and "st_outcome (snd (load H path io fs st2)) = O_Updated"
  shows "wm_epoch (s_watermarks (fst (load H path io fs st2))) = wm_epoch (s_watermarks st)"
proof -
  have "encode_store_image H (persisted_image (export_image st)) (s_limits st) = Inr bytes"
    using assms(3) by (simp add: encode_persisted)
  then have d: "decode_store_image H bytes (s_limits st2) = Inr (persisted_image (export_image st))"
    unfolding assms(5) by (rule decode_encoded [OF assms(1,2)])
  show ?thesis
  proof (cases rule: load_cases [of H path io fs st2])
    case failed
    then show ?thesis using assms(6) by (auto simp: decode_failures_def)
  next
    case (loaded bytes' img reg)
    then have "img = persisted_image (export_image st)" using d assms(4) by simp
    then show ?thesis using loaded(4) install_image_facts(3) by (simp add: export_image_def)
  qed
qed

text \<open>The store of a running coordinator is one that calls of the interface lead to, in a valid epoch.\<close>

lemma coordinator_store:
  assumes "make_store (cd_limits o1) = Inr st0" and "coordinator_server o1 st0 = Inr sv0"
    and "server_start ev sv0 = Some (sv1, started)" and "cr_server run0 = sv1"
    and "st = sr_store (fst (server_stop False (cr_server (run_console H path events run0))))"
  shows "store_inv H st" "s_limits st = cd_limits o1" "id_valid (wm_epoch (s_watermarks st))" "st0 = new_store (cd_limits o1)"
    "id_valid (cd_publisher o1)" "id_valid (cd_boot o1)"
proof -
  show st0: "st0 = new_store (cd_limits o1)" using assms(1) by (simp add: make_store_def split: option.splits)
  obtain r where reg: "register_publisher (coordinator_identity o1) scope_fabric st0 = (sr_store sv0, r)" "r_value r \<noteq> None"
    using coordinator_server_Inr [OF assms(2)] by metis
  have id: "identity_valid (coordinator_identity o1)" using register_table [OF reg] by (auto simp: registers_def)
  then show "id_valid (cd_publisher o1)" "id_valid (cd_boot o1)" by (simp_all add: identity_valid_def coordinator_identity_def)
  have "store_moves H st0 (sr_store sv0)"
    using store_moves_op [of H st0 "SO_register (coordinator_identity o1) scope_fabric"] by (simp add: reg with_outcome_def)
  then have inv: "store_inv H (sr_store sv0)" "store_later st0 (sr_store sv0)"
    using store_ops_inv [OF new_store_inv] store_ops_later [OF new_store_inv] by (auto simp: store_moves_def st0)
  have "store_moves H (sr_store sv0) st"
    unfolding assms(5)
    using store_moves_console [of H "run0" path events] store_moves_stop store_moves_trans
    by (simp add: assms(4) store_moves_start [OF assms(3)])
  then have st: "store_inv H st" "store_later (sr_store sv0) st"
    using store_ops_inv [OF inv(1)] store_ops_later [OF inv(1)] by (auto simp: store_moves_def)
  show "store_inv H st" by (rule st(1))
  show "s_limits st = cd_limits o1" using inv(2) st(2) by (simp add: store_later_def st0 new_store_def)
  have "wm_epoch (s_watermarks (sr_store sv0)) = cd_epoch o1"
    using only_coordinator(2) [OF reg] by (simp add: st0 new_store_def coordinator_identity_def)
  then have "cd_epoch o1 \<le> wm_epoch (s_watermarks st)" using st(2) by (simp add: store_later_def marks_later_def)
  then show "id_valid (wm_epoch (s_watermarks st))"
    using id by (auto simp: identity_valid_def coordinator_identity_def id_valid_def)
qed


section \<open>Witnesses\<close>

definition sample_coordinator :: CoordinatorOptions where
  "sample_coordinator = \<lparr>cd_store_path = ''s'', cd_ready_file = [], cd_port = 0, cd_epoch = 1, cd_publisher = 1,
     cd_boot = 2, cd_load_existing = False, cd_save_on_exit = True, cd_limits = sample_limits\<rparr>"

lemma sample_disk_loaded:
  assumes "s_limits st = sample_limits"
  shows "st_outcome (snd (load sample_hash ''s'' sample_read sample_disk st)) = O_Updated"
    and "wm_epoch (s_watermarks (fst (load sample_hash ''s'' sample_read sample_disk st))) = 1"
proof -
  obtain bytes where b: "encode_store_image sample_hash (export_image sample_published) sample_limits = Inr bytes"
    "length bytes \<le> 900" and d: "sample_disk ''s'' = Some bytes"
    using sample_file by blast
  show l: "st_outcome (snd (load sample_hash ''s'' sample_read sample_disk st)) = O_Updated"
    by (rule load_saved(1) [where st = sample_published and bytes = bytes])
      (use sample_store_inv(2) b d assms sample_images_ok(1) sample_limits_typed sample_routes(1) in
        \<open>simp_all add: sample_export sample_store_limits sample_read_def\<close>)
  have "wm_epoch (s_watermarks sample_published) = 1" by code_simp
  then show "wm_epoch (s_watermarks (fst (load sample_hash ''s'' sample_read sample_disk st))) = 1"
    using recovered_marks [of sample_hash sample_published bytes sample_disk "''s''" st sample_read]
      b(1) d assms l sample_images_ok(1) sample_limits_typed by (simp add: sample_export sample_store_limits)
qed

theorem coordinator_restart_clean_witness:
  "\<exists>o2 st2 sv. coordinator_recover sample_hash sample_read sample_disk
       (sample_coordinator\<lparr>cd_boot := 5, cd_load_existing := True\<rparr>) (new_store sample_limits) = Inr (o2, st2)
     \<and> coordinator_server o2 st2 = Inr sv
     \<and> publisher_is_live (sr_store sv) 1 5 \<and> \<not> publisher_is_live (sr_store sv) 1 2"
proof -
  let ?o = "sample_coordinator\<lparr>cd_boot := 5, cd_load_existing := True\<rparr>" and ?st = "new_store sample_limits"
  let ?st2 = "fst (load sample_hash ''s'' sample_read sample_disk ?st)"
  have o: "cd_store_path ?o = ''s''" "cd_load_existing ?o" "id_valid (cd_publisher ?o)" "id_valid (cd_boot ?o)"
    by (simp_all add: sample_coordinator_def id_valid_def)
  have st: "s_limits ?st = sample_limits" "\<not> s_epoch_bootstrapped ?st" "0 < max_publishers (s_limits ?st)"
    by (simp_all add: new_store_def sample_limits_def)
  note l = sample_disk_loaded [OF st(1)]
  have e: "id_valid (wm_epoch (s_watermarks ?st2))" "wm_epoch (s_watermarks ?st2) \<noteq> kMax"
    by (simp_all add: l(2) id_valid_def kMax_def)
  obtain o2 sv where up: "coordinator_recover sample_hash sample_read sample_disk ?o ?st = Inr (o2, ?st2)"
    "coordinator_server o2 ?st2 = Inr sv"
    using restart_succeeds [of sample_hash ?o sample_read sample_disk ?st] l(1) e o st by auto
  have "cd_publisher o2 = 1" "cd_boot o2 = 5"
    using coordinator_recover_loaded(3) [OF up(1) o(2)] by (auto simp: sample_coordinator_def)
  then have "publisher_is_live (sr_store sv) 1 5" "\<not> publisher_is_live (sr_store sv) 1 2"
    using coordinator_restart_clean [OF up(1) o(2) e(1) up(2)] by auto
  then show ?thesis using up by blast
qed

definition sample_start :: StartEvents where
  "sample_start = \<lparr>st_socket = True, st_inet_pton = True, st_bind = True, st_listen = True,
     st_getsockname = Some 4000, st_nonblocking = True\<rparr>"

definition sample_up :: Server where
  "sample_up = (new_server sample_store
     \<lparr>sv_bind_address = ''127.0.0.1'', sv_port = 0, sv_limits = sample_limits, sv_client_scope = scope_fabric,
      sv_coordinator_authority = coordinator_authority sample_coordinator\<rparr>)"

lemma sample_started:
  "coordinator_server sample_coordinator (new_store sample_limits) = Inr sample_up"
  "server_start sample_start sample_up = Some (sample_up\<lparr>sr_listening := True, sr_bound_port := 4000,
     sr_running := True, sr_loop := True\<rparr>, st_ok)"
proof -
  have "r_value (snd (register_publisher sample_identity scope_fabric (new_store sample_limits))) \<noteq> None"
    by code_simp
  then show "coordinator_server sample_coordinator (new_store sample_limits) = Inr sample_up"
    by (auto simp: coordinator_server_def coordinator_identity_def sample_coordinator_def sample_identity_def
        sample_store_def sample_up_def case_prod_beta split: option.split)
qed (simp add: server_start_def sample_start_def sample_up_def new_server_def)

definition sample_run :: CoordinatorRun where
  "sample_run = run_console sample_hash ''s'' [CV_Turns [], CV_Line ''epoch 9'' sample_write, CV_Line ''quit'' sample_write]
     \<lparr>cr_server = sample_up\<lparr>sr_listening := True, sr_bound_port := 4000, sr_running := True, sr_loop := True\<rparr>,
      cr_files = \<lambda>_. None, cr_out = []\<rparr>"

definition sample_final :: Store where
  "sample_final = fst (advance_epoch 9 (coordinator_authority sample_coordinator) sample_store)"

lemma sample_run_final: "sr_store (fst (server_stop False (cr_server sample_run))) = sample_final"
proof -
  have n: "coordinator_parse_u64 ''9'' = Some 9"
    by (simp add: coordinator_parse_u64_def is_digit_def char_digit_def)
  have "st_outcome (snd (advance_epoch 9 (coordinator_authority sample_coordinator) sample_store)) = O_Updated"
    "\<not> st_is_ok (snd (advance_epoch 9 (coordinator_authority sample_coordinator) sample_store))" by code_simp+
  then show ?thesis
    by (simp add: sample_run_def sample_final_def console_line_def console_epoch_def n print_line_def
        server_advance_epoch_def on_store_def case_prod_beta Let_def sample_up_def new_server_def server_stop_def
        shut_down_def for_sessions_def)
qed

definition sample_late_marks :: DependencyWatermarks where
  "sample_late_marks = no_watermarks\<lparr>wm_store_generation := 1, wm_epoch := 9\<rparr>"

lemma sample_final_export:
  "persisted_image (export_image sample_final) = \<lparr>im_watermarks = sample_late_marks, im_lineages = []\<rparr>"
  "s_limits sample_final = sample_limits" "routes_distinct sample_final"
  by code_simp+

lemma sample_late_image:
  "image_ok sample_hash sample_limits \<lparr>im_watermarks = sample_late_marks, im_lineages = []\<rparr>"
  "st_is_ok (snd (save sample_hash ''s'' sample_write sample_final fs))"
proof -
  show "image_ok sample_hash sample_limits \<lparr>im_watermarks = sample_late_marks, im_lineages = []\<rparr>"
    by (simp add: image_ok_def image_node_count_def image_edge_count_def sample_late_marks_def no_watermarks_def)
  have "encode_store_image sample_hash (persisted_image (export_image sample_final)) sample_limits \<noteq> Inl s" for s
    unfolding sample_final_export
    by (auto simp: encode_store_image_def encode_lineages_result image_node_count_def image_edge_count_def
        write_header_fields Let_def)
  then obtain bytes where "encode_store_image sample_hash (export_image sample_final) sample_limits = Inr bytes"
    unfolding encode_persisted by (cases "encode_store_image sample_hash (export_image sample_final) sample_limits") auto
  then show "st_is_ok (snd (save sample_hash ''s'' sample_write sample_final fs))"
    using encode_store_image_Inr(2) sample_save sample_final_export(2) by fastforce
qed


end
