(* ===== verification/Rpctl.thy ===== *)
theory Rpctl
  imports Coordinator
begin

text \<open>
  The command-line interface, \<^verbatim>\<open>tools/rpctl.cpp\<close>: its arguments, what it prints, the offline commands on a
  store file and the online commands, each a registration and at most one call of a client. The two
  exchanges of an online run, and what a load reads, are arguments.
\<close>

section \<open>Arguments\<close>

record Arguments =
  rc_command :: string
  rc_subcommand :: string
  rc_store :: string
  rc_store_b :: string
  rc_connect :: string
  rc_key :: string
  rc_mode :: string
  rc_lineage :: u64
  rc_node :: u64
  rc_route :: u64
  rc_publisher :: u64
  rc_boot :: u64
  rc_epoch :: u64
  rc_target :: u64
  rc_depth :: u32
  rc_limit :: u32

definition default_arguments :: Arguments where
  "default_arguments = \<lparr>rc_command = [], rc_subcommand = [], rc_store = [], rc_store_b = [], rc_connect = [],
     rc_key = [], rc_mode = ''FULL_ANCESTRY'', rc_lineage = 0, rc_node = 0, rc_route = 0, rc_publisher = 0,
     rc_boot = 0, rc_epoch = 0, rc_target = 0, rc_depth = 0, rc_limit = 0\<rparr>"

definition print_lines :: "string list \<Rightarrow> string" where
  "print_lines ls = concat (map (\<lambda>l. l @ newline) ls)"

definition rpctl_usage :: string where
  "rpctl_usage = print_lines
     [''Route Provenance '' @ kVersionString,
      ''usage: rpctl <command> [options]'',
      ''commands:'',
      ''  version'',
      ''  store inspect     --store <path>'',
      ''  lineage list      (--store <path> | --connect <ip:port>)'',
      ''  lineage show      --lineage <id> (--store | --connect)'',
      ''  provenance show   --node <id> (--store | --connect)'',
      ''  ancestry          --node <id> [--depth N] (--store | --connect)'',
      ''  descendants       --node <id> [--depth N] (--store | --connect)'',
      ''  cause             --node <id> [--mode MODE] (--store | --connect)'',
      ''  snapshot          --lineage <id> (--store | --connect)'',
      ''  diff              --store <a> --store-b <b> --lineage <id>'',
      ''  supersede         --connect <ip:port> --publisher N --boot N --epoch N'',
      ''                    --route N --key <text> --target <node> --reason CODE'',
      ''  withdraw | revoke | retire | revalidate | invalidate | correct'',
      ''                    --connect ... --target <node>'',
      ''  link              --connect ... --target <from> --node <to> --edge TYPE'']"

text \<open>\<^verbatim>\<open>--reason\<close> takes two arguments: the first is the mode, the second is dropped.\<close>

definition rpctl_arg ::
    "string \<Rightarrow> string list \<Rightarrow> Arguments \<times> string list \<Rightarrow> ToolExit + nat \<times> Arguments \<times> string list" where
  "rpctl_arg arg rest state =
     (let (a, positional) = state; str = next_value rest []
      in if arg = ''--store'' then Inr (1, a\<lparr>rc_store := next_value rest (rc_store a)\<rparr>, positional)
         else if arg = ''--store-b'' then Inr (1, a\<lparr>rc_store_b := next_value rest (rc_store_b a)\<rparr>, positional)
         else if arg = ''--connect'' then Inr (1, a\<lparr>rc_connect := next_value rest (rc_connect a)\<rparr>, positional)
         else if arg = ''--key'' then Inr (1, a\<lparr>rc_key := next_value rest (rc_key a)\<rparr>, positional)
         else if arg = ''--mode'' then Inr (1, a\<lparr>rc_mode := next_value rest (rc_mode a)\<rparr>, positional)
         else if arg = ''--edge'' then Inr (1, a\<lparr>rc_mode := str\<rparr>, positional)
         else if arg = ''--lineage'' then Inr (1, a\<lparr>rc_lineage := assign_u64 str (rc_lineage a)\<rparr>, positional)
         else if arg = ''--node'' then Inr (1, a\<lparr>rc_node := assign_u64 str (rc_node a)\<rparr>, positional)
         else if arg = ''--route'' then Inr (1, a\<lparr>rc_route := assign_u64 str (rc_route a)\<rparr>, positional)
         else if arg = ''--publisher'' then Inr (1, a\<lparr>rc_publisher := assign_u64 str (rc_publisher a)\<rparr>, positional)
         else if arg = ''--boot'' then Inr (1, a\<lparr>rc_boot := assign_u64 str (rc_boot a)\<rparr>, positional)
         else if arg = ''--epoch'' then Inr (1, a\<lparr>rc_epoch := assign_u64 str (rc_epoch a)\<rparr>, positional)
         else if arg = ''--target'' then Inr (1, a\<lparr>rc_target := assign_u64 str (rc_target a)\<rparr>, positional)
         else if arg = ''--reason'' then Inr (2, a\<lparr>rc_mode := next_value rest (rc_mode a)\<rparr>, positional)
         else if arg = ''--depth'' then Inr (1, a\<lparr>rc_depth := ucast (assign_u64 str 0)\<rparr>, positional)
         else if arg = ''--limit'' then Inr (1, a\<lparr>rc_limit := ucast (assign_u64 str 0)\<rparr>, positional)
         else if arg = ''--help'' \<or> arg = ''-h'' then Inl (quit_with 0 rpctl_usage [])
         else if take 2 arg = ''--'' then Inl (quit_with 2 (''unknown_option='' @ arg @ newline) [])
         else Inr (0, a, positional @ [arg]))"

definition rpctl_arguments :: "string list \<Rightarrow> ToolExit + Arguments" where
  "rpctl_arguments args =
     (case parse_args rpctl_arg args (default_arguments, []) of
        Inl e \<Rightarrow> Inl e
      | Inr (a, positional) \<Rightarrow>
          (case positional of
             [] \<Rightarrow> Inr a
           | [command] \<Rightarrow> Inr (a\<lparr>rc_command := command\<rparr>)
           | [command, subcommand] \<Rightarrow> Inr (a\<lparr>rc_command := command, rc_subcommand := subcommand\<rparr>)
           | _ \<Rightarrow> Inl (quit_with 2 rpctl_usage [])))"

section \<open>Output\<close>

definition out_field :: "string \<Rightarrow> string \<Rightarrow> string" where
  "out_field name str = '' '' @ name @ ''='' @ str"

definition out_id :: "string \<Rightarrow> u64 \<Rightarrow> string" where
  "out_id name v = out_field name (id_to_string v)"

definition out_count :: "string \<Rightarrow> nat \<Rightarrow> string" where
  "out_count name n = out_field name (dec_string n)"

definition outcome_line :: "Outcome \<Rightarrow> string \<Rightarrow> string" where
  "outcome_line out det = ''outcome='' @ outcome_name out @ out_field ''detail'' det @ newline"

text \<open>A command that fails prints why and exits with 3.\<close>

definition fail_with :: "'a Result \<Rightarrow> ToolExit" where
  "fail_with r = quit_with 3 (outcome_line (r_outcome r) (r_detail r)) []"

definition show_result :: "('a \<Rightarrow> string) \<Rightarrow> 'a Result \<Rightarrow> ToolExit" where
  "show_result print r = (case r_value r of None \<Rightarrow> fail_with r | Some v \<Rightarrow> quit_with 0 (print v) [])"

definition publication_line :: "string \<Rightarrow> Publication Result \<Rightarrow> string" where
  "publication_line label r =
     label @ out_field ''outcome'' (outcome_name (r_outcome r))
     @ (case r_value r of None \<Rightarrow> []
        | Some p \<Rightarrow> out_id ''lineage'' (p_lineage p) @ out_id ''node'' (p_node p)
            @ out_id ''lineage_generation'' (p_lineage_generation p)
            @ out_id ''store_generation'' (p_store_generation p)
            @ out_field ''lifecycle'' (node_lifecycle_name (p_lifecycle p))
            @ out_field ''currentness'' (currentness_name (p_currentness p)))
     @ (if r_detail r \<noteq> [] then out_field ''detail'' (r_detail r) else []) @ newline"

definition show_publication :: "string \<Rightarrow> Publication Result \<Rightarrow> ToolExit" where
  "show_publication label r = quit_with (if r_has_value r then 0 else 3) (publication_line label r) []"

definition node_line :: "hash_fun \<Rightarrow> ProvenanceNode \<Rightarrow> string" where
  "node_line H n =
     ''node'' @ out_id ''id'' (n_id n) @ out_field ''kind'' (node_kind_name (n_kind n))
     @ out_id ''generation'' (n_route_generation n) @ out_field ''reason'' (reason_code_name (n_reason n))
     @ out_field ''source'' (source_class_name (n_source n)) @ out_field ''lifecycle'' (node_lifecycle_name (n_lifecycle n))
     @ out_field ''currentness'' (currentness_name (n_currentness n))
     @ out_field ''historically_valid'' (truth (node_is_historically_valid n))
     @ out_field ''digest'' (digest_hex (node_digest H n))"

text \<open>\<^verbatim>\<open>std::sort\<close> may exchange records of one identity; lists from a store have none.\<close>

definition print_nodes :: "hash_fun \<Rightarrow> ProvenanceNode list \<Rightarrow> string" where
  "print_nodes H nodes =
     print_lines (map (node_line H) (sort_key n_id nodes) @ [''count='' @ dec_string (length nodes)])"

definition lineage_line :: "LineageView \<Rightarrow> string" where
  "lineage_line v =
     ''lineage'' @ out_id ''id'' (lv_id v) @ out_id ''route'' (lk_route (lv_key v))
     @ out_field ''key'' (lk_semantic_key (lv_key v))
     @ out_field ''lifecycle'' (lineage_lifecycle_name (lv_lifecycle v))
     @ out_id ''current_generation'' (lv_current_route_generation v) @ out_id ''current_node'' (lv_current_node v)
     @ out_field ''currentness'' (currentness_name (lv_current_currentness v))
     @ out_count ''nodes'' (lv_node_count v) @ out_count ''edges'' (lv_edge_count v)
     @ out_id ''lineage_generation'' (lv_lineage_generation v) @ out_field ''digest'' (digest_hex (lv_digest v))"

definition snapshot_text :: "hash_fun \<Rightarrow> Snapshot \<Rightarrow> string" where
  "snapshot_text H s =
     print_lines [''snapshot'' @ out_id ''id'' (sn_id s) @ out_id ''lineage'' (sn_lineage s)
       @ out_id ''current_generation'' (sn_current_route_generation s)
       @ out_field ''currentness'' (currentness_name (sn_current_currentness s))
       @ out_count ''nodes'' (length (sn_nodes s)) @ out_count ''edges'' (length (sn_edges s))
       @ out_field ''digest'' (digest_hex (sn_digest s))]
     @ print_nodes H (sn_nodes s)"

definition edge_line :: "ProvenanceEdge \<Rightarrow> string" where
  "edge_line e =
     ''edge'' @ out_id ''id'' (e_id e) @ out_id ''derivation'' (e_derivation e)
     @ out_field ''type'' (edge_type_name (e_type e)) @ out_id ''from'' (e_from e) @ out_id ''to'' (e_to e)
     @ out_field ''reason'' (reason_code_name (e_reason e))"

definition diff_line :: "DiffEntry \<Rightarrow> string" where
  "diff_line d =
     ''diff'' @ out_field ''kind'' (diff_kind_name (de_kind d)) @ out_id ''node'' (de_node d) @ out_id ''edge'' (de_edge d)
     @ out_field ''currentness'' (currentness_name (de_before_currentness d) @ ''->'' @ currentness_name (de_after_currentness d))
     @ out_field ''lifecycle'' (node_lifecycle_name (de_before_lifecycle d) @ ''->'' @ node_lifecycle_name (de_after_lifecycle d))
     @ out_field ''detail'' (de_detail d)"

section \<open>Offline commands\<close>

definition inspect_store :: "hash_fun \<Rightarrow> ReadEvents \<Rightarrow> FileSystem \<Rightarrow> Arguments \<Rightarrow> ToolExit" where
  "inspect_store H io fs a =
     (if rc_store a = [] then quit_with 2 (outcome_line O_MalformedRequest ''--store is required'') []
      else (case read_store_image H (rc_store a) default_limits io fs of
        Inl s \<Rightarrow> quit_with 3 (outcome_line (st_outcome s) (st_detail s)) []
      | Inr img \<Rightarrow>
          quit_with 0 (print_lines
            ((''store'' @ out_count ''lineages'' (length (im_lineages img)) @ out_count ''nodes'' (image_node_count img)
              @ out_count ''edges'' (image_edge_count img)
              @ out_id ''store_generation'' (wm_store_generation (im_watermarks img))
              @ out_id ''epoch'' (wm_epoch (im_watermarks img))
              @ out_id ''path_authority_generation'' (wm_path_authority_generation (im_watermarks img))
              @ out_id ''policy_generation'' (wm_policy_generation (im_watermarks img))
              @ out_id ''evidence_generation'' (wm_evidence_generation (im_watermarks img))
              @ out_id ''plan_generation'' (wm_plan_generation (im_watermarks img)))
             # map (\<lambda>l. ''lineage'' @ out_id ''id'' (ls_id (sl_state l)) @ out_id ''route'' (lk_route (ls_key (sl_state l)))
                 @ out_field ''key'' (lk_semantic_key (ls_key (sl_state l)))
                 @ out_field ''lifecycle'' (lineage_lifecycle_name (ls_lifecycle (sl_state l)))
                 @ out_id ''current_generation'' (ls_current_route_generation (sl_state l))
                 @ out_id ''current_node'' (ls_current_node (sl_state l))
                 @ out_count ''nodes'' (length (sl_nodes l)) @ out_count ''edges'' (length (sl_edges l))
                 @ out_id ''lineage_generation'' (ls_lineage_generation (sl_state l))) (im_lineages img))) []))"

text \<open>A store on a file; the default limits pass the constructor's check.\<close>

definition load_file :: "hash_fun \<Rightarrow> string \<Rightarrow> ReadEvents \<Rightarrow> FileSystem \<Rightarrow> ToolExit + Store" where
  "load_file H path io fs =
     (let (st, loaded) = load H path io fs (new_store default_limits)
      in if outcome_is_rejection (st_outcome loaded) then
           Inl (quit_with 3 (outcome_line (st_outcome loaded) (st_detail loaded)) [])
         else Inr st)"

definition diff_stores :: "hash_fun \<Rightarrow> u64 \<Rightarrow> Store \<Rightarrow> Store \<Rightarrow> ToolExit" where
  "diff_stores H lineage st other =
     (let options = \<lparr>so_include_edges = True, so_include_historical = True, so_max_nodes = 0, so_max_edges = 0\<rparr>
      in (case (r_value (snapshot H lineage options st), r_value (snapshot H lineage options other)) of
            (Some before, Some after) \<Rightarrow>
              show_result (\<lambda>d. print_lines (map diff_line (df_entries d)
                  @ [''diff_count='' @ dec_string (length (df_entries d)) @ out_field ''digest'' (digest_hex (df_digest d))]))
                (compute_diff H before after)
          | _ \<Rightarrow> quit_with 3 (outcome_line O_NodeNotFound ''snapshot unavailable'') []))"

definition show_record :: "hash_fun \<Rightarrow> u64 \<Rightarrow> Store \<Rightarrow> ToolExit" where
  "show_record H node st =
     show_result (\<lambda>n. print_nodes H [n]
         @ print_lines (case r_value (parents (n_id n) st) of None \<Rightarrow> [] | Some es \<Rightarrow> map edge_line es))
       (node_query node st)"

definition rpctl_bounds :: "Arguments \<Rightarrow> TraversalBounds" where
  "rpctl_bounds a = \<lparr>tb_max_depth = unat (rc_depth a), tb_max_results = unat (rc_limit a), tb_max_visited = 0\<rparr>"

definition rpctl_explain_mode :: "Arguments \<Rightarrow> ExplainMode" where
  "rpctl_explain_mode a = value_or (parse_explain_mode (rc_mode a)) EM_FullAncestry"

definition offline_command ::
    "hash_fun \<Rightarrow> ReadEvents \<Rightarrow> FileSystem \<Rightarrow> Arguments \<Rightarrow> Store \<Rightarrow> ToolExit" where
  "offline_command H io_b fs a st =
     (let command = rc_command a; sub = rc_subcommand a
      in if command = ''diff'' then
           (case load_file H (rc_store_b a) io_b fs of
              Inl e \<Rightarrow> e
            | Inr other \<Rightarrow> diff_stores H (rc_lineage a) st other)
         else if command = ''lineage'' \<and> (sub = ''list'' \<or> sub = []) then
           show_result (\<lambda>views. print_lines (map lineage_line views @ [''lineage_count='' @ dec_string (length views)]))
             (list_lineages H st)
         else if command = ''lineage'' \<and> sub = ''show'' then
           show_result (\<lambda>v. print_lines [lineage_line v]) (lineage_view H (rc_lineage a) st)
         else if command = ''provenance'' \<and> sub = ''show'' then show_record H (rc_node a) st
         else if command = ''ancestry'' \<or> command = ''descendants'' then
           show_result (\<lambda>t. print_nodes H (map fst (tr_nodes t)))
             (if command = ''ancestry'' then ancestors (rc_node a) (rpctl_bounds a) st
              else descendants (rc_node a) (rpctl_bounds a) st)
         else if command = ''cause'' then
           show_result render_explanation
             (explain H \<lparr>xr_subject = rc_node a, xr_mode = rpctl_explain_mode a, xr_max_depth = unat (rc_depth a),
                xr_max_nodes = unat (rc_limit a)\<rparr> st)
         else if command = ''snapshot'' then
           show_result (snapshot_text H)
             (snapshot H (rc_lineage a) \<lparr>so_include_edges = True, so_include_historical = True,
                so_max_nodes = unat (rc_limit a), so_max_edges = 0\<rparr> st)
         else quit_with 2 rpctl_usage [])"

definition rpctl_offline :: "hash_fun \<Rightarrow> ReadEvents \<Rightarrow> ReadEvents \<Rightarrow> FileSystem \<Rightarrow> Arguments \<Rightarrow> ToolExit" where
  "rpctl_offline H io io_b fs a =
     (if rc_store a = [] then quit_with 2 rpctl_usage []
      else (case load_file H (rc_store a) io fs of Inl e \<Rightarrow> e | Inr st \<Rightarrow> offline_command H io_b fs a st))"

end
