(* ===== verification/Rpctl_Online.thy ===== *)
theory Rpctl_Online
  imports Rpctl
begin

text \<open>
  The online commands of \<^verbatim>\<open>tools/rpctl.cpp\<close> and its \<^verbatim>\<open>main\<close>. \<open>None\<close> is a run that still waits for the
  coordinator when the exchanges observed are used up.
\<close>

section \<open>Connection\<close>

definition rpctl_identity :: "Arguments \<Rightarrow> PublisherIdentity" where
  "rpctl_identity a = \<lparr>pi_publisher = (if rc_publisher a = 0 then 100 else rc_publisher a),
     pi_boot = (if rc_boot a = 0 then 1 else rc_boot a), pi_epoch = (if rc_epoch a = 0 then 1 else rc_epoch a)\<rparr>"

definition rpctl_registration :: "Arguments \<Rightarrow> RegistrationPayload" where
  "rpctl_registration a = \<lparr>rg_role = 0, rg_identity = rpctl_identity a, rg_scope = scope_fabric,
     rg_protocol_version = kWireProtocolVersion\<rparr>"

text \<open>The attempt of a mutation is made of its arguments.\<close>

definition rpctl_attempt :: "Arguments \<Rightarrow> MutationAttemptId" where
  "rpctl_attempt a = (if rc_node a = 0 then 1 else rc_node a) * 100 + rc_target a mod 100"

definition rpctl_context :: "Arguments \<Rightarrow> AuthorityContext" where
  "rpctl_context a = \<lparr>ac_publisher = rpctl_identity a, ac_scope = scope_fabric, ac_attempt = rpctl_attempt a,
     ac_expected_lineage_generation = None, ac_expected_provenance_generation = None\<rparr>"

definition rpctl_endpoint :: "string \<Rightarrow> ToolExit + ClientOptions" where
  "rpctl_endpoint endpoint =
     (case split_first CHR '':'' endpoint of
        None \<Rightarrow> Inl (quit_with 2 (outcome_line O_MalformedRequest ''--connect must be ip:port'') [])
      | Some (address, rest) \<Rightarrow>
          (case parse_u64 rest of
             None \<Rightarrow> Inl (quit_with 2 (outcome_line O_MalformedRequest ''invalid port'') [])
           | Some port \<Rightarrow>
               if port = 0 \<or> port > 65535 then Inl (quit_with 2 (outcome_line O_MalformedRequest ''invalid port'') [])
               else Inr \<lparr>cn_address = address, cn_port = ucast port, cn_limits = default_limits\<rparr>))"

section \<open>Payloads\<close>

definition rpctl_key :: "Arguments \<Rightarrow> LineageKey" where
  "rpctl_key a = \<lparr>lk_route = rc_route a, lk_semantic_key = rc_key a\<rparr>"

definition rpctl_publication :: "hash_fun \<Rightarrow> Arguments \<Rightarrow> PublicationPayload" where
  "rpctl_publication H a =
     (let reason = value_or (parse_reason_code (rc_mode a)) RC_RouteReplaced
      in \<lparr>pp_key = rpctl_key a, pp_route_generation = rc_lineage a,
          pp_route_state_digest = H (string_bytes (''cli:supersede:'' @ rc_key a)),
          pp_reason = reason, pp_source = SC_Administrative, pp_root_reason = None, pp_evidence = [],
          pp_authority = rpctl_context a, pp_bindings = no_bindings,
          pp_edges = (if rc_target a \<noteq> 0 then
            [\<lparr>sp_type = ET_Supersedes, sp_target = rc_target a, sp_reason = reason, sp_source = SC_Administrative,
              sp_evidence = []\<rparr>] else [])\<rparr>)"

text \<open>The message and the reason of an administrative command.\<close>

definition administrative_command :: "string \<Rightarrow> (MessageId \<times> ReasonCode) option" where
  "administrative_command command =
     (if command = ''withdraw'' then Some (MI_Withdraw, RC_AdminWithdrawal)
      else if command = ''revoke'' then Some (MI_Revoke, RC_Revocation)
      else if command = ''retire'' then Some (MI_Retire, RC_Retirement)
      else if command = ''revalidate'' then Some (MI_Revalidate, RC_RecoveryRevalidation)
      else if command = ''invalidate'' then Some (MI_Invalidate, RC_Invalidation)
      else None)"

definition rpctl_administrative :: "ReasonCode \<Rightarrow> Arguments \<Rightarrow> AdministrativePayload" where
  "rpctl_administrative reason a =
     \<lparr>ap_key = rpctl_key a, ap_target = rc_target a, ap_reason = reason, ap_source = SC_Administrative,
      ap_evidence = [], ap_authority = rpctl_context a, ap_bindings = no_bindings,
      ap_completion_evidence = zero_digest, ap_allow_non_current_target = True\<rparr>"

definition rpctl_correction :: "Arguments \<Rightarrow> CorrectionPayload" where
  "rpctl_correction a =
     \<lparr>xp_key = rpctl_key a, xp_target = rc_target a, xp_route_state_digest = zero_digest, xp_source = SC_Administrative,
      xp_evidence = [], xp_authority = rpctl_context a, xp_bindings = no_bindings\<rparr>"

definition rpctl_link :: "Arguments \<Rightarrow> LinkPayload" where
  "rpctl_link a =
     \<lparr>lp_key = rpctl_key a, lp_type = value_or (parse_edge_type (rc_mode a)) ET_AuthorizedBy, lp_from = rc_target a,
      lp_to = rc_node a, lp_reason = RC_Declaration, lp_source = SC_Administrative, lp_evidence = [],
      lp_authority = rpctl_context a\<rparr>"

section \<open>Commands\<close>

definition called :: "('a \<Rightarrow> ToolExit) \<Rightarrow> (Client \<times> 'a) option \<Rightarrow> ToolExit option" where
  "called show r = map_option (\<lambda>(_, v). show v) r"

definition online_command :: "hash_fun \<Rightarrow> Arguments \<Rightarrow> Exchange \<Rightarrow> Client \<Rightarrow> ToolExit option" where
  "online_command H a io client =
     (let command = rc_command a; sub = rc_subcommand a; query = blank_query\<lparr>qp_node := rc_node a\<rparr>
      in if command = ''lineage'' \<and> sub = ''list'' then
           Some (quit_with 0 (outcome_line O_Ok ''online lineage listing is bounded by the coordinator query limit'') [])
         else if command = ''lineage'' \<and> sub = ''show'' then
           called (show_result (\<lambda>v. print_lines [lineage_line v])) (client_query_lineage H (rc_lineage a) io client)
         else if command = ''provenance'' \<and> sub = ''show'' then
           called (show_result (print_nodes H)) (client_query_traversal H query io client)
         else if command = ''ancestry'' \<or> command = ''descendants'' then
           called (show_result (print_nodes H))
             (client_query_traversal H (query\<lparr>qp_direction := (if command = ''ancestry'' then TD_Outgoing else TD_Incoming),
                qp_bounds := rpctl_bounds a\<rparr>) io client)
         else if command = ''cause'' then
           called (show_result render_explanation)
             (client_query_cause H (query\<lparr>qp_mode := rpctl_explain_mode a\<rparr>) io client)
         else if command = ''snapshot'' then
           called (show_result (snapshot_text H)) (client_query_snapshot H (rc_lineage a) io client)
         else if command = ''supersede'' \<or> command = ''replace'' then
           called (show_publication ''supersede'') (client_publish H (rpctl_publication H a) io client)
         else (case administrative_command command of
           Some (message, reason) \<Rightarrow>
             called (show_publication command) (client_administrative H message (rpctl_administrative reason a) io client)
         | None \<Rightarrow>
             if command = ''correct'' then
               called (show_publication ''correct'') (client_correct H (rpctl_correction a) io client)
             else if command = ''link'' then called (show_publication ''link'') (client_link H (rpctl_link a) io client)
             else Some (quit_with 2 (outcome_line O_MalformedRequest ''unknown online command'') [])))"

text \<open>Connect, register, and run the command of an accepted registration.\<close>

definition rpctl_online :: "hash_fun \<Rightarrow> ConnectEvents \<Rightarrow> Exchange \<Rightarrow> Exchange \<Rightarrow> Arguments \<Rightarrow> ToolExit option" where
  "rpctl_online H conn io_hello io a =
     (case rpctl_endpoint (rc_connect a) of
        Inl e \<Rightarrow> Some e
      | Inr options \<Rightarrow>
          (let (client, status) = client_connect conn (new_client options)
           in if \<not> st_is_ok status then Some (quit_with 3 (outcome_line (st_outcome status) (st_detail status)) [])
              else (case hello H (rpctl_registration a) io_hello client of
                None \<Rightarrow> None
              | Some (client, ack) \<Rightarrow>
                  (case r_value ack of
                     None \<Rightarrow> Some (fail_with ack)
                   | Some v \<Rightarrow>
                       if \<not> ha_accepted v then Some (quit_with 3 (outcome_line (r_outcome ack) (ha_detail v)) [])
                       else online_command H a io client))))"

section \<open>The program\<close>

record RpctlEvents =
  rv_read :: ReadEvents
  rv_read_b :: ReadEvents
  rv_connect :: ConnectEvents
  rv_hello :: Exchange
  rv_exchange :: Exchange

definition rpctl_main :: "hash_fun \<Rightarrow> string \<Rightarrow> RpctlEvents \<Rightarrow> FileSystem \<Rightarrow> string list \<Rightarrow> ToolExit option" where
  "rpctl_main H build ev fs args =
     (case rpctl_arguments args of
        Inl e \<Rightarrow> Some e
      | Inr a \<Rightarrow>
          if rc_command a = ''version'' \<or> rc_command a = [] then Some (quit_with 0 (version_report build) [])
          else if rc_command a = ''store'' \<and> rc_subcommand a = ''inspect'' then
            Some (inspect_store H (rv_read ev) fs a)
          else if rc_connect a \<noteq> [] then rpctl_online H (rv_connect ev) (rv_hello ev) (rv_exchange ev) a
          else Some (rpctl_offline H (rv_read ev) (rv_read_b ev) fs a))"

end
