(* ===== verification/Publisher.thy ===== *)
theory Publisher
  imports Rpctl_Online
begin

text \<open>
  The publisher process, \<^verbatim>\<open>tools/rp_publisher.cpp\<close>: its arguments, the payloads its script commands build,
  the commands, and the loop over the script. The exchanges observed by the client's calls, in the order of
  the calls, are part of the state; \<open>None\<close> is a run that still waits, for the coordinator or for its input.
\<close>

section \<open>Arguments\<close>

record PublisherOptions =
  po_endpoint :: string
  po_publisher :: u64
  po_boot :: u64
  po_epoch :: u64
  po_attempt_base :: u64
  po_script :: string

definition default_publisher :: PublisherOptions where
  "default_publisher = \<lparr>po_endpoint = [], po_publisher = 0, po_boot = 0, po_epoch = 0, po_attempt_base = 0,
     po_script = []\<rparr>"

definition publisher_usage :: string where
  "publisher_usage =
     ''usage: rp_publisher --connect <ip:port> --publisher N --boot N --epoch N --script <file>'' @ newline"

definition publisher_arg :: "string \<Rightarrow> string list \<Rightarrow> PublisherOptions \<Rightarrow> ToolExit + nat \<times> PublisherOptions" where
  "publisher_arg arg rest o1 =
     (let number = number_arg parse_u64 (\<lambda>_. True) arg rest
      in if arg = ''--connect'' then Inr (1, o1\<lparr>po_endpoint := next_value rest (po_endpoint o1)\<rparr>)
         else if arg = ''--publisher'' then number (\<lambda>v. o1\<lparr>po_publisher := v\<rparr>)
         else if arg = ''--boot'' then number (\<lambda>v. o1\<lparr>po_boot := v\<rparr>)
         else if arg = ''--epoch'' then number (\<lambda>v. o1\<lparr>po_epoch := v\<rparr>)
         else if arg = ''--attempt-base'' then number (\<lambda>v. o1\<lparr>po_attempt_base := v\<rparr>)
         else if arg = ''--script'' then Inr (1, o1\<lparr>po_script := next_value rest (po_script o1)\<rparr>)
         else if arg = ''--help'' \<or> arg = ''-h'' then Inl (quit_with 0 publisher_usage [])
         else Inl (quit_with 2 publisher_usage (''unknown argument: '' @ arg @ newline)))"

text \<open>The options and the client's, once everything required is there and the endpoint is one.\<close>

definition publisher_options :: "string list \<Rightarrow> ToolExit + PublisherOptions \<times> ClientOptions" where
  "publisher_options args =
     (case parse_args publisher_arg args default_publisher of
        Inl e \<Rightarrow> Inl e
      | Inr o1 \<Rightarrow>
          if po_endpoint o1 = [] \<or> po_publisher o1 = 0 \<or> po_boot o1 = 0 \<or> po_epoch o1 = 0 \<or> po_script o1 = [] then
            Inl (quit_with 2 publisher_usage (''missing required arguments'' @ newline))
          else (case split_text (po_endpoint o1) CHR '':'' of
            [address, text] \<Rightarrow>
              (case parse_u64 text of
                 None \<Rightarrow> Inl (quit_with 2 [] (''invalid --connect port'' @ newline))
               | Some port \<Rightarrow>
                   if port = 0 \<or> port > 65535 then Inl (quit_with 2 [] (''invalid --connect port'' @ newline))
                   else Inr (o1, \<lparr>cn_address = address, cn_port = ucast port, cn_limits = default_limits\<rparr>))
          | _ \<Rightarrow> Inl (quit_with 2 [] (''invalid --connect endpoint'' @ newline))))"

section \<open>State\<close>

record PublisherState =
  ps_client :: Client
  ps_identity :: PublisherIdentity
  ps_attempt :: u64
  ps_route :: RouteId
  ps_key :: string
  ps_generation :: RouteGeneration
  ps_last_node :: ProvenanceNodeId
  ps_lineage :: RouteLineageId
  ps_exit_code :: int
  ps_registered :: bool
  ps_exchanges :: "Exchange list"
  ps_out :: string

definition new_publisher :: "PublisherOptions \<Rightarrow> Client \<Rightarrow> Exchange list \<Rightarrow> PublisherState" where
  "new_publisher o1 client ios =
     \<lparr>ps_client = client,
      ps_identity = \<lparr>pi_publisher = po_publisher o1, pi_boot = po_boot o1, pi_epoch = po_epoch o1\<rparr>,
      ps_attempt = (if po_attempt_base o1 = 0 then po_boot o1 * 1000000 else po_attempt_base o1),
      ps_route = 0, ps_key = [], ps_generation = 0, ps_last_node = 0, ps_lineage = 0, ps_exit_code = 0,
      ps_registered = False, ps_exchanges = ios, ps_out = []\<rparr>"

text \<open>\<^verbatim>\<open>state.authority(...)\<close>: every context takes the next attempt.\<close>

definition publisher_authority :: "PublisherState \<Rightarrow> AuthorityContext \<times> PublisherState" where
  "publisher_authority s =
     (\<lparr>ac_publisher = ps_identity s, ac_scope = scope_lineage (ps_lineage s), ac_attempt = ps_attempt s,
       ac_expected_lineage_generation = None, ac_expected_provenance_generation = None\<rparr>,
      s\<lparr>ps_attempt := ps_attempt s + 1\<rparr>)"

definition say :: "string \<Rightarrow> PublisherState \<Rightarrow> PublisherState" where
  "say line s = s\<lparr>ps_out := ps_out s @ line @ newline\<rparr>"

text \<open>A call of the client, on the next exchange.\<close>

definition client_does ::
    "(Exchange \<Rightarrow> Client \<Rightarrow> (Client \<times> 'a) option) \<Rightarrow> PublisherState \<Rightarrow> ('a \<times> PublisherState) option" where
  "client_does f s =
     (case ps_exchanges s of
        [] \<Rightarrow> None
      | io # ios \<Rightarrow>
          (case f io (ps_client s) of
             None \<Rightarrow> None
           | Some (client, v) \<Rightarrow> Some (v, s\<lparr>ps_client := client, ps_exchanges := ios\<rparr>)))"

definition script_key :: "PublisherState \<Rightarrow> LineageKey" where
  "script_key s = \<lparr>lk_route = ps_route s, lk_semantic_key = ps_key s\<rparr>"

definition text_digest :: "hash_fun \<Rightarrow> string \<Rightarrow> Digest" where
  "text_digest H str = H (string_bytes str)"

section \<open>The arguments of a publication\<close>

record PublishArguments =
  pa_generation :: RouteGeneration
  pa_reason :: ReasonCode
  pa_source :: SourceClass
  pa_root :: "RootReason option"
  pa_bindings :: Bindings
  pa_edge :: "EdgeSpec option"

definition default_publication :: PublishArguments where
  "default_publication = \<lparr>pa_generation = 0, pa_reason = RC_InitialRoute, pa_source = SC_RouteFabric, pa_root = None,
     pa_bindings = no_bindings, pa_edge = None\<rparr>"

text \<open>The numbers of a value \<^verbatim>\<open>a:b:c\<close>, zero where one is not a number.\<close>

definition numbers_of :: "string \<Rightarrow> u64 list" where
  "numbers_of str = map (\<lambda>part. assign_u64 part 0) (split_text str CHR '':'')"

text \<open>The keys that set a binding; a value with the wrong number of parts is ignored.\<close>

definition binding_argument :: "hash_fun \<Rightarrow> string \<Rightarrow> string \<Rightarrow> Bindings \<Rightarrow> Bindings" where
  "binding_argument H key str b =
     (let numbers = numbers_of str
      in if key = ''path'' then
           (case numbers of
              [p, g] \<Rightarrow> b\<lparr>b_path := Some \<lparr>pb_path = p, pb_generation = g,
                pb_decision_digest = text_digest H (''path-authority:'' @ str)\<rparr>\<rparr>
            | _ \<Rightarrow> b)
         else if key = ''policy'' then b\<lparr>b_policy := Some \<lparr>ob_generation = assign_u64 str 0\<rparr>\<rparr>
         else if key = ''adapt'' then
           (case numbers of
              [d, g, p, e] \<Rightarrow> b\<lparr>b_adaptation := Some \<lparr>ab_decision = d, ab_generation = g, ab_policy = p,
                ab_evidence = e, ab_decision_digest = text_digest H (''adaptation:'' @ str)\<rparr>\<rparr>
            | _ \<Rightarrow> b)
         else if key = ''conv'' then
           (case numbers of
              [p, g, t] \<Rightarrow> b\<lparr>b_convergence := Some \<lparr>cb_plan = p, cb_generation = g, cb_step = t,
                cb_completion_evidence = text_digest H (''convergence:'' @ str)\<rparr>\<rparr>
            | _ \<Rightarrow> b)
         else if key = ''ecmp'' then
           (case numbers of
              [g, m, t] \<Rightarrow> b\<lparr>b_ecmp := Some \<lparr>eb_group = g, eb_membership = m, eb_assignment = t\<rparr>\<rparr>
            | _ \<Rightarrow> b)
         else if key = ''weight'' then
           (case numbers of
              [g, p, t] \<Rightarrow> b\<lparr>b_weighted := Some \<lparr>wb_set = g, wb_policy = p, wb_assignment = t\<rparr>\<rparr>
            | _ \<Rightarrow> b)
         else b)"

text \<open>An edge takes the reason and the source read so far.\<close>

definition edge_argument :: "string \<Rightarrow> PublishArguments \<Rightarrow> PublishArguments" where
  "edge_argument str p =
     (case split_text str CHR '':'' of
        [name, number] \<Rightarrow>
          (case (parse_edge_type name, parse_u64 number) of
             (Some t, Some target) \<Rightarrow> p\<lparr>pa_edge := Some \<lparr>sp_type = t, sp_target = target, sp_reason = pa_reason p,
               sp_source = pa_source p, sp_evidence = []\<rparr>\<rparr>
           | _ \<Rightarrow> p)
      | _ \<Rightarrow> p)"

definition publish_argument :: "hash_fun \<Rightarrow> string \<Rightarrow> PublishArguments \<Rightarrow> PublishArguments" where
  "publish_argument H token p =
     (case split_first CHR ''='' token of
        None \<Rightarrow> p
      | Some (key, str) \<Rightarrow>
          if key = ''gen'' then p\<lparr>pa_generation := assign_u64 str 0\<rparr>
          else if key = ''reason'' then p\<lparr>pa_reason := value_or (parse_reason_code str) (pa_reason p)\<rparr>
          else if key = ''source'' then p\<lparr>pa_source := value_or (parse_source_class str) (pa_source p)\<rparr>
          else if key = ''root'' then
            (case parse_root_reason str of None \<Rightarrow> p | Some root \<Rightarrow> p\<lparr>pa_root := Some root\<rparr>)
          else if key = ''edge'' then edge_argument str p
          else p\<lparr>pa_bindings := binding_argument H key str (pa_bindings p)\<rparr>)"

section \<open>Publishing\<close>

text \<open>Without an edge and a root reason, the current node of the lineage becomes the predecessor.\<close>

definition predecessor_edge ::
    "hash_fun \<Rightarrow> PublishArguments \<Rightarrow> PublisherState \<Rightarrow> (EdgeSpec option \<times> PublisherState) option" where
  "predecessor_edge H p s =
     (if pa_edge p = None \<and> pa_root p = None \<and> id_valid (ps_lineage s) then
        (case client_does (client_query_lineage H (ps_lineage s)) s of
           None \<Rightarrow> None
         | Some (view, s) \<Rightarrow>
             Some (case r_value view of
                 None \<Rightarrow> None
               | Some v \<Rightarrow>
                   if id_valid (lv_current_node v) then
                     Some \<lparr>sp_type = ET_Supersedes, sp_target = lv_current_node v, sp_reason = pa_reason p,
                       sp_source = pa_source p, sp_evidence = []\<rparr>
                   else None, s))
      else Some (pa_edge p, s))"

definition script_publication :: "hash_fun \<Rightarrow> PublishArguments \<Rightarrow> EdgeSpec option \<Rightarrow> AuthorityContext \<Rightarrow> PublisherState \<Rightarrow> PublicationPayload" where
  "script_publication H p edge context s =
     \<lparr>pp_key = script_key s, pp_route_generation = pa_generation p,
      pp_route_state_digest = text_digest H (''route-state:'' @ ps_key s @ '':'' @ id_to_string (pa_generation p)),
      pp_reason = pa_reason p, pp_source = pa_source p, pp_root_reason = pa_root p, pp_evidence = [],
      pp_authority = context, pp_bindings = pa_bindings p,
      pp_edges = (case edge of None \<Rightarrow> [] | Some e \<Rightarrow> [e])\<rparr>"

text \<open>The identifier a result prints, zero without one.\<close>

definition node_of :: "Publication Result \<Rightarrow> string" where
  "node_of r = (case r_value r of None \<Rightarrow> ''0'' | Some v \<Rightarrow> id_to_string (p_node v))"

definition publish_line :: "RouteGeneration \<Rightarrow> Publication Result \<Rightarrow> string" where
  "publish_line g r =
     ''PUBLISH'' @ out_id ''gen'' g @ out_field ''outcome'' (outcome_name (r_outcome r)) @ out_field ''node'' (node_of r)
     @ out_field ''lineage'' (case r_value r of None \<Rightarrow> ''0'' | Some v \<Rightarrow> id_to_string (p_lineage v))
     @ out_field ''currentness'' (case r_value r of None \<Rightarrow> ''NONE'' | Some v \<Rightarrow> currentness_name (p_currentness v))
     @ (if r_value r = None \<and> r_detail r \<noteq> [] then out_field ''detail'' (r_detail r) else [])"

definition script_published :: "PublishArguments \<Rightarrow> Publication Result \<Rightarrow> PublisherState \<Rightarrow> PublisherState" where
  "script_published p r s =
     (case r_value r of
        None \<Rightarrow> s
      | Some v \<Rightarrow> s\<lparr>ps_last_node := p_node v, ps_lineage := p_lineage v, ps_generation := pa_generation p\<rparr>)"

definition script_publish :: "hash_fun \<Rightarrow> string list \<Rightarrow> PublisherState \<Rightarrow> PublisherState option" where
  "script_publish H tokens s =
     (let p = fold (publish_argument H) tokens default_publication
      in (case predecessor_edge H p s of
            None \<Rightarrow> None
          | Some (edge, s) \<Rightarrow>
              let (context, s) = publisher_authority s
              in (case client_does (client_publish H (script_publication H p edge context s)) s of
                    None \<Rightarrow> None
                  | Some (r, s) \<Rightarrow> Some (say (publish_line (pa_generation p) r) (script_published p r s)))))"

end
