(* ===== verification/Publisher_Script.thy ===== *)
theory Publisher_Script
  imports Publisher
begin

text \<open>
  The commands of a publisher's script, the loop over its lines, and the \<^verbatim>\<open>main\<close> of
  \<^verbatim>\<open>tools/rp_publisher.cpp\<close>.
\<close>

section \<open>Numbers on a line\<close>

text \<open>\<^verbatim>\<open>stream >> a >> b >> ...\<close> on targets that start at zero.\<close>

fun get_numbers :: "nat \<Rightarrow> LineStream \<Rightarrow> u64 list" where
  "get_numbers 0 stream = []"
| "get_numbers (Suc n) stream = (let (v, stream) = get_u64 0 stream in v # get_numbers n stream)"

definition get_number :: "LineStream \<Rightarrow> u64" where
  "get_number stream = fst (get_u64 0 stream)"

section \<open>Registration\<close>

definition script_registration :: "PublisherState \<Rightarrow> RegistrationPayload" where
  "script_registration s = \<lparr>rg_role = 1, rg_identity = ps_identity s, rg_scope = scope_fabric,
     rg_protocol_version = kWireProtocolVersion\<rparr>"

text \<open>What a command leaves: the loop goes on, ends, or \<^verbatim>\<open>main\<close> returns.\<close>

datatype ScriptStep = SS_Next PublisherState | SS_Quit PublisherState | SS_Return int PublisherState

definition script_register :: "hash_fun \<Rightarrow> PublisherState \<Rightarrow> ScriptStep option" where
  "script_register H s =
     (case client_does (hello H (script_registration s)) s of
        None \<Rightarrow> None
      | Some (ack, s) \<Rightarrow>
          Some (case r_value ack of
            None \<Rightarrow> SS_Return 4 (say (''REGISTER'' @ out_field ''outcome'' (outcome_name (r_outcome ack))
                      @ out_field ''detail'' (r_detail ack)) s)
          | Some v \<Rightarrow> SS_Next (say (''REGISTER'' @ out_field ''accepted'' (truth (ha_accepted v))
                      @ out_id ''epoch'' (ha_epoch v) @ out_field ''detail'' (ha_detail v))
                      (s\<lparr>ps_registered := ha_accepted v\<rparr>))))"

section \<open>Lineages and declarations\<close>

definition script_lineage :: "hash_fun \<Rightarrow> LineStream \<Rightarrow> PublisherState \<Rightarrow> PublisherState" where
  "script_lineage H stream s =
     (let (route, stream) = get_u64 0 stream;
          (key, stream) = get_word [] stream;
          i = derive_lineage_id H \<lparr>lk_route = route, lk_semantic_key = key\<rparr>
      in say (''LINEAGE'' @ out_id ''id'' i) (s\<lparr>ps_route := route, ps_key := key, ps_lineage := i\<rparr>))"

text \<open>The kind, the source and the bindings of a declaration.\<close>

definition declared :: "hash_fun \<Rightarrow> string \<Rightarrow> LineStream \<Rightarrow> (NodeKind \<times> SourceClass \<times> Bindings) option" where
  "declared H kind stream =
     (if kind = ''path'' then
        (case get_numbers 2 stream of
           [a, b] \<Rightarrow> Some (NK_PathAuthorization, SC_PathAuthority,
             no_bindings\<lparr>b_path := Some \<lparr>pb_path = a, pb_generation = b,
               pb_decision_digest = text_digest H (''path-authority:'' @ id_to_string a @ '':'' @ id_to_string b)\<rparr>\<rparr>))
      else if kind = ''planner'' then
        (case get_numbers 3 stream of
           [a, b, c] \<Rightarrow> Some (NK_PlannerCandidate, SC_PathPlanner,
             no_bindings\<lparr>b_planner := Some \<lparr>pl_request = a, pl_generation = b, pl_candidate_rank = ucast c,
               pl_plan_digest = text_digest H (''planner:'' @ id_to_string a @ '':'' @ id_to_string b),
               pl_selected_path = a\<rparr>\<rparr>))
      else if kind = ''adaptive'' then
        (case get_numbers 4 stream of
           [a, b, c, d] \<Rightarrow> Some (NK_AdaptiveDecision, SC_AdaptiveRouting,
             no_bindings\<lparr>b_adaptation := Some \<lparr>ab_decision = a, ab_generation = b, ab_policy = c, ab_evidence = d,
               ab_decision_digest = text_digest H (''adaptation:'' @ id_to_string a)\<rparr>\<rparr>))
      else if kind = ''convergence'' then
        (case get_numbers 3 stream of
           [a, b, c] \<Rightarrow> Some (NK_ConvergencePlan, SC_RouteConvergence,
             no_bindings\<lparr>b_convergence := Some \<lparr>cb_plan = a, cb_generation = b, cb_step = c,
               cb_completion_evidence = text_digest H (''convergence:'' @ id_to_string a)\<rparr>\<rparr>))
      else if kind = ''policy'' then
        Some (NK_PolicyDecision, SC_Administrative, no_bindings\<lparr>b_policy := Some \<lparr>ob_generation = get_number stream\<rparr>\<rparr>)
      else None)"

definition script_declaration :: "NodeKind \<times> SourceClass \<times> Bindings \<Rightarrow> AuthorityContext \<Rightarrow> PublisherState \<Rightarrow> DeclarationPayload" where
  "script_declaration d context s =
     \<lparr>dp_key = script_key s, dp_kind = fst d, dp_route = 0, dp_route_generation = 0, dp_reason = RC_Declaration,
      dp_source = fst (snd d), dp_evidence = [], dp_authority = context, dp_bindings = snd (snd d)\<rparr>"

definition script_declare :: "hash_fun \<Rightarrow> LineStream \<Rightarrow> PublisherState \<Rightarrow> PublisherState option" where
  "script_declare H stream s =
     (let (kind, stream) = get_word [] stream
      in (case declared H kind stream of
            None \<Rightarrow> Some (say ''DECLARE outcome=MALFORMED_REQUEST'' s)
          | Some d \<Rightarrow>
              let (context, s) = publisher_authority s
              in (case client_does (client_declare H (script_declaration d context s)) s of
                    None \<Rightarrow> None
                  | Some (r, s) \<Rightarrow>
                      Some (say (''DECLARE'' @ out_field ''kind'' kind @ out_field ''outcome'' (outcome_name (r_outcome r))
                          @ out_field ''node'' (node_of r))
                        (case r_value r of
                           None \<Rightarrow> s | Some v \<Rightarrow> s\<lparr>ps_last_node := p_node v, ps_lineage := p_lineage v\<rparr>)))))"

section \<open>Links and administration\<close>

definition script_link :: "hash_fun \<Rightarrow> LineStream \<Rightarrow> PublisherState \<Rightarrow> PublisherState option" where
  "script_link H stream s =
     (let (type, stream) = get_word [] stream;
          (source, stream) = get_u64 0 stream;
          target = get_number stream;
          (context, s) = publisher_authority s;
          payload = \<lparr>lp_key = script_key s, lp_type = value_or (parse_edge_type type) ET_AuthorizedBy, lp_from = source,
            lp_to = target, lp_reason = RC_Declaration, lp_source = SC_PathAuthority, lp_evidence = [],
            lp_authority = context\<rparr>
      in (case client_does (client_link H payload) s of
            None \<Rightarrow> None
          | Some (r, s) \<Rightarrow> Some (say (''LINK'' @ out_field ''outcome'' (outcome_name (r_outcome r))) s)))"

definition script_action :: "ReasonCode \<Rightarrow> ProvenanceNodeId \<Rightarrow> AuthorityContext \<Rightarrow> PublisherState \<Rightarrow> AdministrativePayload" where
  "script_action reason target context s =
     \<lparr>ap_key = script_key s, ap_target = target, ap_reason = reason, ap_source = SC_Administrative, ap_evidence = [],
      ap_authority = context, ap_bindings = no_bindings, ap_completion_evidence = zero_digest,
      ap_allow_non_current_target = True\<rparr>"

definition admin_line :: "MessageId \<Rightarrow> Publication Result \<Rightarrow> string" where
  "admin_line message r = ''ADMIN'' @ out_field ''op'' (message_id_name message)
     @ out_field ''outcome'' (outcome_name (r_outcome r)) @ out_field ''node'' (node_of r)"

definition script_administrative ::
    "hash_fun \<Rightarrow> MessageId \<Rightarrow> ReasonCode \<Rightarrow> LineStream \<Rightarrow> PublisherState \<Rightarrow> PublisherState option" where
  "script_administrative H message reason stream s =
     (let target = get_number stream;
          (context, s) = publisher_authority s
      in (case client_does (client_administrative H message (script_action reason target context s)) s of
            None \<Rightarrow> None
          | Some (r, s) \<Rightarrow> Some (say (admin_line message r) s)))"

definition script_correct :: "hash_fun \<Rightarrow> LineStream \<Rightarrow> PublisherState \<Rightarrow> PublisherState option" where
  "script_correct H stream s =
     (let target = get_number stream;
          (context, s) = publisher_authority s;
          payload = \<lparr>xp_key = script_key s, xp_target = target, xp_route_state_digest = zero_digest,
            xp_source = SC_Administrative, xp_evidence = [], xp_authority = context, xp_bindings = no_bindings\<rparr>
      in (case client_does (client_correct H payload) s of
            None \<Rightarrow> None
          | Some (r, s) \<Rightarrow> Some (say (''ADMIN op=CORRECT'' @ out_field ''outcome'' (outcome_name (r_outcome r))
              @ out_field ''node'' (node_of r)) s)))"

text \<open>The notifications advance one watermark each, under the fabric scope.\<close>

definition script_notification :: "string \<Rightarrow> u64 \<Rightarrow> AuthorityContext \<Rightarrow> DependencyNotification" where
  "script_notification command v context =
     (let blank = \<lparr>dn_kind = DK_PathAuthorityAdvance, dn_path_authority_generation = 0, dn_policy_generation = 0,
            dn_evidence_generation = 0, dn_plan_generation = 0, dn_epoch = 0, dn_publisher = 0, dn_boot = 0,
            dn_authority = context\<lparr>ac_scope := scope_fabric\<rparr>\<rparr>
      in if command = ''advance-path'' then blank\<lparr>dn_path_authority_generation := v\<rparr>
         else if command = ''advance-policy'' then blank\<lparr>dn_kind := DK_PolicyAdvance, dn_policy_generation := v\<rparr>
         else blank\<lparr>dn_kind := DK_EvidenceAdvance, dn_evidence_generation := v\<rparr>)"

definition script_advance :: "hash_fun \<Rightarrow> string \<Rightarrow> LineStream \<Rightarrow> PublisherState \<Rightarrow> PublisherState option" where
  "script_advance H command stream s =
     (let v = get_number stream;
          (context, s) = publisher_authority s
      in (case client_does (client_notify_dependency H \<lparr>yp_notification = script_notification command v context\<rparr>) s of
            None \<Rightarrow> None
          | Some (status, s) \<Rightarrow> Some (say (''NOTIFY'' @ out_field ''op'' command
              @ out_field ''outcome'' (outcome_name (st_outcome status))) s)))"

section \<open>Queries\<close>

text \<open>A query prints what its result holds, and leaves the rest of the state.\<close>

definition script_query ::
    "('a Result \<Rightarrow> string list) \<Rightarrow> (Exchange \<Rightarrow> Client \<Rightarrow> (Client \<times> 'a Result) option) \<Rightarrow> PublisherState \<Rightarrow> PublisherState option" where
  "script_query print ask s = map_option (\<lambda>(r, s). fold say (print r) s) (client_does ask s)"

definition refused_line :: "string \<Rightarrow> 'a Result \<Rightarrow> string" where
  "refused_line label r = label @ out_field ''outcome'' (outcome_name (r_outcome r)) @ out_field ''detail'' (r_detail r)"

definition lineage_report :: "LineageView Result \<Rightarrow> string list" where
  "lineage_report r =
     (case r_value r of
        None \<Rightarrow> [refused_line ''LINEAGE'' r]
      | Some v \<Rightarrow>
          [''LINEAGE'' @ out_id ''id'' (lv_id v) @ out_field ''lifecycle'' (lineage_lifecycle_name (lv_lifecycle v))
           @ out_id ''current_generation'' (lv_current_route_generation v) @ out_id ''current_node'' (lv_current_node v)
           @ out_count ''nodes'' (lv_node_count v)
           @ out_field ''nodes_currentness'' (currentness_name (lv_current_currentness v))
           @ out_id ''lineage_generation'' (lv_lineage_generation v)])"

definition cause_report :: "Explanation Result \<Rightarrow> string list" where
  "cause_report r =
     (case r_value r of
        None \<Rightarrow> [refused_line ''CAUSE'' r]
      | Some x \<Rightarrow>
          (''CAUSE'' @ out_id ''subject'' (ex_subject x) @ out_count ''steps'' (length (ex_steps x))
           @ out_field ''current'' (truth (ex_current x))
           @ out_field ''historically_valid'' (truth (ex_historically_valid x))
           @ out_field ''currentness'' (currentness_name (ex_subject_currentness x)))
          # map (\<lambda>t. ''CAUSE_STEP'' @ out_count ''depth'' (es_depth t) @ out_field ''type'' (edge_type_name (es_type t))
              @ out_id ''node'' (es_to t) @ out_field ''reason'' (reason_code_name (es_reason t))) (ex_steps x))"

definition ancestry_report :: "ProvenanceNode list Result \<Rightarrow> string list" where
  "ancestry_report r =
     [''ANCESTRY'' @ out_field ''outcome'' (outcome_name (r_outcome r))
      @ out_count ''count'' (case r_value r of None \<Rightarrow> 0 | Some ns \<Rightarrow> length ns)]"

definition snapshot_report :: "Snapshot Result \<Rightarrow> string list" where
  "snapshot_report r =
     [''SNAPSHOT'' @ out_field ''outcome'' (outcome_name (r_outcome r))
      @ (case r_value r of
           None \<Rightarrow> out_count ''nodes'' 0 @ out_count ''edges'' 0 @ out_field ''digest'' []
         | Some v \<Rightarrow> out_count ''nodes'' (length (sn_nodes v)) @ out_count ''edges'' (length (sn_edges v))
             @ out_field ''digest'' (digest_hex (sn_digest v)))]"

definition watermarks_report :: "DependencyWatermarks Result \<Rightarrow> string list" where
  "watermarks_report r =
     [case r_value r of
        None \<Rightarrow> ''WATERMARKS'' @ out_field ''outcome'' (outcome_name (r_outcome r))
      | Some m \<Rightarrow> ''WATERMARKS'' @ out_id ''store'' (wm_store_generation m) @ out_id ''path'' (wm_path_authority_generation m)
          @ out_id ''policy'' (wm_policy_generation m) @ out_id ''evidence'' (wm_evidence_generation m)
          @ out_id ''epoch'' (wm_epoch m)]"

section \<open>The script\<close>

definition script_command :: "hash_fun \<Rightarrow> bool \<Rightarrow> string \<Rightarrow> LineStream \<Rightarrow> PublisherState \<Rightarrow> ScriptStep option" where
  "script_command H input_ends command stream s =
     (let query = blank_query\<lparr>qp_node := get_number stream\<rparr>; id = get_number stream
      in if command = ''register'' then script_register H s
         else if command = ''quit'' then Some (SS_Quit s)
         else map_option SS_Next
           (if command = ''publish'' then script_publish H (words (ls_rest stream)) s
            else if command = ''lineage'' then Some (script_lineage H stream s)
            else if command = ''declare'' then script_declare H stream s
            else if command = ''link'' then script_link H stream s
            else if command = ''correct'' then script_correct H stream s
            else if command = ''query-lineage'' then script_query lineage_report (client_query_lineage H id) s
            else if command = ''cause'' then
              script_query cause_report (client_query_cause H (query\<lparr>qp_mode := EM_FullAncestry\<rparr>)) s
            else if command = ''ancestry'' then script_query ancestry_report (client_query_traversal H query) s
            else if command = ''snapshot'' then script_query snapshot_report (client_query_snapshot H id) s
            else if command = ''advance-path'' \<or> command = ''advance-policy'' \<or> command = ''advance-evidence'' then
              script_advance H command stream s
            else if command = ''watermarks'' then script_query watermarks_report (client_watermarks H) s
            else if command = ''echo'' then Some (say (''ECHO'' @ ls_rest stream) s)
            else if command = ''wait'' then (if input_ends then Some (say ''WAIT_ENDED'' (say ''WAITING'' s)) else None)
            else (case administrative_command command of
                Some (message, reason) \<Rightarrow> script_administrative H message reason stream s
              | None \<Rightarrow> Some (say (''UNKNOWN_COMMAND '' @ command) s))))"

fun run_script :: "hash_fun \<Rightarrow> bool \<Rightarrow> string list \<Rightarrow> PublisherState \<Rightarrow> ToolExit option" where
  "run_script H input_ends [] s = Some (quit_with (ps_exit_code s) (ps_out (say ''PUBLISHER_DONE'' s)) [])"
| "run_script H input_ends (line # rest) s =
     (if line = [] \<or> hd line = CHR ''#'' then run_script H input_ends rest s
      else
        let (command, stream) = get_word [] (open_line line)
        in (case script_command H input_ends command stream s of
              None \<Rightarrow> None
            | Some (SS_Next s) \<Rightarrow> run_script H input_ends rest s
            | Some (SS_Quit s) \<Rightarrow> Some (quit_with (ps_exit_code s) (ps_out (say ''PUBLISHER_DONE'' s)) [])
            | Some (SS_Return code s) \<Rightarrow> Some (quit_with code (ps_out s) [])))"

section \<open>The process\<close>

record PublisherEvents =
  pv_connect :: ConnectEvents
  pv_script :: "string option"
  pv_exchanges :: "Exchange list"
  pv_input_ends :: bool

definition publisher_main :: "hash_fun \<Rightarrow> PublisherEvents \<Rightarrow> string list \<Rightarrow> ToolExit option" where
  "publisher_main H ev args =
     (case publisher_options args of
        Inl e \<Rightarrow> Some e
      | Inr (o1, options) \<Rightarrow>
          (let (client, status) = client_connect (pv_connect ev) (new_client options)
           in if \<not> st_is_ok status then
                Some (quit_with 3 (''CONNECT'' @ out_field ''outcome'' (outcome_name (st_outcome status))
                  @ out_field ''detail'' (st_detail status) @ newline) [])
              else (case pv_script ev of
                None \<Rightarrow> Some (quit_with 3 (''SCRIPT outcome=IO_FAILURE detail=cannot open script'' @ newline) [])
              | Some text \<Rightarrow>
                  run_script H (pv_input_ends ev) (text_lines text) (new_publisher o1 client (pv_exchanges ev)))))"

end
