(* ===== verification/Publisher_Props.thy ===== *)
theory Publisher_Props
  imports Publisher_Script
begin

text \<open>
  What a publisher's script does to the coordinator's store: a line is the store's operation under the next
  attempt of the script.
\<close>

section \<open>A line as an operation\<close>

lemma does_as_local:
  assumes "remote_as_local H tx now (ps_client s) session sv message payload operation carried (\<lambda>io. f io (ps_client s)) result"
    and "\<And>io. command (s\<lparr>ps_exchanges := [io]\<rparr>)
        = map_option finish (client_does f (s\<lparr>ps_exchanges := [io], ps_attempt := ps_attempt s + 1\<rparr>))"
  shows "remote_as_local H tx now (ps_client s) session sv message payload operation carried
     (\<lambda>io. map_option (Pair (ps_client s)) (command (s\<lparr>ps_exchanges := [io]\<rparr>)))
     (\<lambda>r. finish (result r, s\<lparr>ps_exchanges := [], ps_attempt := ps_attempt s + 1\<rparr>))"
proof -
  have "command (s\<lparr>ps_exchanges := [io]\<rparr>) = Some (finish (v, s\<lparr>ps_exchanges := [], ps_attempt := ps_attempt s + 1\<rparr>))"
    if "f io (ps_client s) = Some (ps_client s, v)" for io v
    unfolding assms(2) using that by (cases s) (simp add: client_does_def)
  then show ?thesis using assms(1) unfolding remote_as_local_def by (fastforce split: prod.splits)
qed

text \<open>The state in which a line sends its request: an attempt is taken.\<close>

abbreviation next_attempt :: "PublisherState \<Rightarrow> Exchange list \<Rightarrow> PublisherState" where
  "next_attempt s ios \<equiv> s\<lparr>ps_exchanges := ios, ps_attempt := ps_attempt s + 1\<rparr>"

definition line_context :: "PublisherState \<Rightarrow> AuthorityContext" where
  "line_context s = \<lparr>ac_publisher = ps_identity s, ac_scope = scope_lineage (ps_lineage s), ac_attempt = ps_attempt s,
     ac_expected_lineage_generation = None, ac_expected_provenance_generation = None\<rparr>"

lemma publisher_authority_eq: "publisher_authority s = (line_context s, s\<lparr>ps_attempt := ps_attempt s + 1\<rparr>)"
  by (simp add: publisher_authority_def line_context_def)

text \<open>
  C17: A script line is the store's operation under the script's next attempt. When the publisher's client is
  registered, a publish line that names its edge or its root reason, or has no lineage yet, and every
  administrative line, change the coordinator's store as that operation does for the session's identity under
  the attempt the script has reached; the line printed is the operation's own outcome, and the script goes on
  with the attempt after it, at the lineage of the publication if there is one.
\<close>

theorem script_line_as_operation:
  assumes "paired (ps_client s) session sv" and "tx (length (sr_sent sv))"
    and "p = fold (publish_argument H) tokens default_publication"
    and "payload = script_publication H p (pa_edge p) (line_context s) s"
    and "action = script_action reason (get_number stream) (line_context s) s"
  shows "(pa_edge p \<noteq> None \<or> pa_root p \<noteq> None \<or> \<not> id_valid (ps_lineage s) \<longrightarrow>
       publication_wire_ok (ct_limits (ps_client s)) payload \<longrightarrow>
       remote_as_local H tx now (ps_client s) session sv MI_PublishProvenance
         (encode_publication payload (ct_limits (ps_client s)))
         (publish_route H (publication_request MI_PublishProvenance (se_identity session) (publication_received payload)))
         publication_carried
         (\<lambda>io. map_option (Pair (ps_client s)) (script_publish H tokens (s\<lparr>ps_exchanges := [io]\<rparr>)))
         (\<lambda>r. say (publish_line (pa_generation p) r) (script_published p r (next_attempt s []))))
   \<and> (m \<in> {MI_Withdraw, MI_Revoke, MI_Retire, MI_Revalidate, MI_Invalidate} \<longrightarrow>
       administrative_wire_ok (ct_limits (ps_client s)) action \<longrightarrow>
       remote_as_local H tx now (ps_client s) session sv m (encode_administrative action (ct_limits (ps_client s)))
         (administrative_operation H m (administrative_request (se_identity session) action)) publication_carried
         (\<lambda>io. map_option (Pair (ps_client s)) (script_administrative H m reason stream (s\<lparr>ps_exchanges := [io]\<rparr>)))
         (\<lambda>r. say (admin_line m r) (next_attempt s [])))"
proof (intro conjI impI)
  assume e: "pa_edge p \<noteq> None \<or> pa_root p \<noteq> None \<or> \<not> id_valid (ps_lineage s)"
    and ok: "publication_wire_ok (ct_limits (ps_client s)) payload"
  have "predecessor_edge H p (s\<lparr>ps_exchanges := ios\<rparr>) = Some (pa_edge p, s\<lparr>ps_exchanges := ios\<rparr>)" for ios
    using e by (auto simp: predecessor_edge_def)
  moreover have "script_publication H p (pa_edge p) c (next_attempt s ios) = script_publication H p (pa_edge p) c s"
    for c ios by (simp add: script_publication_def script_key_def)
  moreover have "line_context (s\<lparr>ps_exchanges := ios\<rparr>) = line_context s" for ios by (simp add: line_context_def)
  ultimately have run: "script_publish H tokens (s\<lparr>ps_exchanges := [io]\<rparr>)
      = map_option (\<lambda>(r, s). say (publish_line (pa_generation p) r) (script_published p r s))
          (client_does (client_publish H payload) (next_attempt s [io]))" for io
    by (simp add: script_publish_def publisher_authority_eq assms(3,4) Let_def split: option.split)
  show "remote_as_local H tx now (ps_client s) session sv MI_PublishProvenance
         (encode_publication payload (ct_limits (ps_client s)))
         (publish_route H (publication_request MI_PublishProvenance (se_identity session) (publication_received payload)))
         publication_carried
         (\<lambda>io. map_option (Pair (ps_client s)) (script_publish H tokens (s\<lparr>ps_exchanges := [io]\<rparr>)))
         (\<lambda>r. say (publish_line (pa_generation p) r) (script_published p r (next_attempt s [])))"
    using does_as_local [where f = "client_publish H payload" and command = "script_publish H tokens",
        OF _ run] remote_publish.remote [where tx = tx, OF assms(1,2), of MI_PublishProvenance payload H now] ok
    by (simp add: client_defs)
next
  assume m: "m \<in> {MI_Withdraw, MI_Revoke, MI_Retire, MI_Revalidate, MI_Invalidate}"
    and ok: "administrative_wire_ok (ct_limits (ps_client s)) action"
  have "script_action reason target c (next_attempt s ios) = script_action reason target c s" for target c ios
    by (simp add: script_action_def script_key_def)
  moreover have "line_context (s\<lparr>ps_exchanges := ios\<rparr>) = line_context s" for ios by (simp add: line_context_def)
  ultimately have run: "script_administrative H m reason stream (s\<lparr>ps_exchanges := [io]\<rparr>)
      = map_option (\<lambda>(r, s). say (admin_line m r) s)
          (client_does (client_administrative H m action) (next_attempt s [io]))" for io
    by (simp add: script_administrative_def publisher_authority_eq assms(5) Let_def split: option.split)
  show "remote_as_local H tx now (ps_client s) session sv m (encode_administrative action (ct_limits (ps_client s)))
         (administrative_operation H m (administrative_request (se_identity session) action)) publication_carried
         (\<lambda>io. map_option (Pair (ps_client s)) (script_administrative H m reason stream (s\<lparr>ps_exchanges := [io]\<rparr>)))
         (\<lambda>r. say (admin_line m r) (next_attempt s []))"
    using does_as_local [where f = "client_administrative H m action" and command = "script_administrative H m reason stream",
        OF _ run] remote_administrative.remote [where tx = tx, OF assms(1,2), of m action H now] ok m
    by (simp add: client_defs)
qed

text \<open>The first publication of boot 2 of publisher 1, on the sample coordinator.\<close>

definition sample_script :: PublisherState where
  "sample_script = (new_publisher (default_publisher\<lparr>po_publisher := 1, po_boot := 2, po_epoch := 1\<rparr>) sample_client [])
     \<lparr>ps_route := 3, ps_key := ''a'', ps_lineage := 48\<rparr>"

definition sample_tokens :: "string list" where
  "sample_tokens = [''gen=1'', ''root=INITIAL_PUBLICATION'']"

definition sample_parsed :: PublishArguments where
  "sample_parsed = \<lparr>pa_generation = 1, pa_reason = RC_InitialRoute, pa_source = SC_RouteFabric,
     pa_root = Some RR_InitialPublication, pa_bindings = no_bindings, pa_edge = None\<rparr>"

definition sample_sent :: PublicationPayload where
  "sample_sent = script_publication sample_hash sample_parsed (pa_edge sample_parsed) (line_context sample_script) sample_script"

abbreviation sample_line_operation :: "Store \<Rightarrow> Store \<times> Publication Result" where
  "sample_line_operation \<equiv> publish_route sample_hash
     (publication_request MI_PublishProvenance sample_identity (publication_received sample_sent))"

lemma sample_tokens_parsed: "sample_parsed = fold (publish_argument sample_hash) sample_tokens default_publication"
  by code_simp

lemma sample_line_outcome: "r_outcome (snd (sample_line_operation sample_store)) = O_Created"
  "r_detail (snd (sample_line_operation sample_store)) = []"
  "map_option p_edges (r_value (snd (sample_line_operation sample_store))) = Some []"
  by code_simp+

lemma sample_line_carried: "publication_carried sample_wire_limits (snd (sample_line_operation sample_store))"
proof -
  obtain p where p: "r_value (snd (sample_line_operation sample_store)) = Some p" "p_edges p = []"
    using sample_line_outcome(3) by auto
  have "length (fb_encoded (publication_body p fb_empty)) \<le> 300"
    by (simp add: publication_body_def wire_size p(2) wr_list_u64)
  then have "length (fb_encoded (response_bag (answer O_Created [] (publication_body p fb_empty)))) \<le> 500"
    by (rule response_length)
  then show ?thesis
    by (simp add: publication_carried_def publication_reply_def sample_line_outcome p fits_def sample_wire_limits_def
        publication_body_ok_def publication_answer.body_ok answer_def)
qed

lemma sample_sent_simps: "pp_edges sample_sent = []" "pp_evidence sample_sent = []" "pp_key sample_sent = sample_key"
  "pp_route_generation sample_sent = 1" "pp_bindings sample_sent = no_bindings"
  "ac_expected_lineage_generation (pp_authority sample_sent) = None"
  "ac_expected_provenance_generation (pp_authority sample_sent) = None"
  by (simp_all add: sample_sent_def script_publication_def sample_parsed_def script_key_def sample_script_def sample_key_def
      line_context_def)

lemma sample_sent_ok: "publication_wire_ok sample_wire_limits sample_sent"
proof -
  have "key_wire_ok sample_wire_limits sample_key" by code_simp
  moreover have "authority_ok (pp_authority sample_sent)" by code_simp
  moreover have "evidence_wire_ok sample_wire_limits []" by code_simp
  ultimately show ?thesis
    by (simp add: publication_wire_ok_def sample_sent_simps) (simp add: sample_key_def)
qed

theorem script_line_as_operation_witness:
  "\<exists>request raw sv'. process_input sample_hash (\<lambda>_. True) 0 (sample_session\<lparr>se_input := request\<rparr>) sample_server
       = (sample_session, sv')
     \<and> sr_store sv' = fst (sample_line_operation sample_store)
     \<and> map_option ps_attempt (script_publish sample_hash sample_tokens
         (sample_script\<lparr>ps_exchanges := [\<lparr>xg_sent = True, xg_started = 0, xg_waits = [(1, WT_Received raw)]\<rparr>]\<rparr>)) = Some 2000001"
proof -
  have client: "ps_client sample_script = sample_client" by (simp add: sample_script_def new_publisher_def)
  have "length (fb_encoded (publication_bag sample_sent)) \<le> 500"
    by code_simp
  then obtain bytes where bytes: "encode_publication sample_sent sample_wire_limits = Inr bytes" "length bytes \<le> 500"
    by (simp add: encode_publication_def encode_bag_def sample_wire_limits_def)
  obtain request where request:
    "encode_frame sample_hash (request_header sample_client MI_PublishProvenance) bytes sample_wire_limits = Inr request"
    using sample_request_encoded [OF bytes(2)] by blast
  have "pa_root sample_parsed \<noteq> None" by (simp add: sample_parsed_def)
  then have "remote_as_local sample_hash (\<lambda>_. True) 0 sample_client sample_session sample_server MI_PublishProvenance
      (encode_publication sample_sent sample_wire_limits) sample_line_operation publication_carried
      (\<lambda>io. map_option (Pair sample_client) (script_publish sample_hash sample_tokens (sample_script\<lparr>ps_exchanges := [io]\<rparr>)))
      (\<lambda>r. say (publish_line (pa_generation sample_parsed) r) (script_published sample_parsed r (next_attempt sample_script [])))"
    using script_line_as_operation [of sample_script sample_session sample_server "\<lambda>_. True", unfolded client,
        OF sample_paired _ sample_tokens_parsed sample_sent_def HOL.refl] sample_sent_ok by simp
  then obtain sv' raw where run: "process_input sample_hash (\<lambda>_. True) 0 (sample_session\<lparr>se_input := request\<rparr>) sample_server
      = (sample_session, sv')" "sr_store sv' = fst (sample_line_operation sample_store)" "raw \<noteq> []"
    and call: "\<forall>io. xg_sent io \<longrightarrow> delivered (xg_waits io) = raw \<longrightarrow>
      list_all (\<lambda>wait. \<not> final_wait (xg_started io + 20000000000) wait) (xg_waits io) \<longrightarrow>
      map_option (Pair sample_client) (script_publish sample_hash sample_tokens (sample_script\<lparr>ps_exchanges := [io]\<rparr>))
        = Some (sample_client, say (publish_line (pa_generation sample_parsed) (snd (sample_line_operation sample_store)))
            (script_published sample_parsed (snd (sample_line_operation sample_store)) (next_attempt sample_script [])))"
    using bytes request sample_line_carried by (auto simp: remote_as_local_def split: prod.splits)
  have "ps_attempt sample_script = 2000000" by (simp add: sample_script_def new_publisher_def default_publisher_def)
  then have "map_option ps_attempt (script_publish sample_hash sample_tokens
      (sample_script\<lparr>ps_exchanges := [\<lparr>xg_sent = True, xg_started = 0, xg_waits = [(1, WT_Received raw)]\<rparr>]\<rparr>)) = Some 2000001"
    using call [rule_format, of "\<lparr>xg_sent = True, xg_started = 0, xg_waits = [(1, WT_Received raw)]\<rparr>"] run(3)
    by (auto simp: delivered_def final_wait_def say_def script_published_def split: option.split)
  with run(1,2) show ?thesis by blast
qed

end
