(* ===== verification/Remote_Session.thy ===== *)
theory Remote_Session
  imports Remote
begin

text \<open>
  The first exchange of a client: a hello over the wire is a registration on the coordinator's store, and an
  accepted one leaves client and session paired, which is what every later call needs.
\<close>

section \<open>The hello frame\<close>

lemma registration_length: "encode_registration rg limits = Inr bytes \<Longrightarrow> length bytes < 65536"
proof -
  assume "encode_registration rg limits = Inr bytes"
  then have "bytes = fb_encoded (registration_bag rg)" by (auto simp: encode_registration_def encode_bag_def split: if_splits)
  moreover have "length (fb_encoded (registration_bag rg)) \<le> 500" by (simp add: registration_bag_def wire_size)
  ultimately show ?thesis by simp
qed

lemma serve_hello:
  assumes "met client session sv" and "length bytes < 65536"
    and "encode_frame H (request_header client MI_Hello) bytes (sr_limits sv) = Inr request"
    and "handle_registration H tx ((request_header client MI_Hello)\<lparr>fh_payload_bytes := of_nat (length bytes)\<rparr>) bytes
      (session\<lparr>se_assembling := False\<rparr>, add_stats (no_stats\<lparr>ss_frames_received := 1\<rparr>) sv) = (session', sv')"
  shows "process_input H tx now (session\<lparr>se_input := request\<rparr>) sv = (session', sv')"
proof -
  let ?h = "(request_header client MI_Hello)\<lparr>fh_payload_bytes := of_nat (length bytes)\<rparr>"
  let ?frame = "\<lparr>df_header = ?h, df_payload = bytes\<rparr>" and ?s = "session\<lparr>se_input := request\<rparr>"
  note p = assms(1) [unfolded met_def]
  have "sent_frame H (sr_limits sv) request ?frame" using assms(2,3) by (auto simp: sent_frame_def)
  then have ready: "frame_ready ?s sv" "r_value (next_frame H ?s sv) = Some ?frame"
    "drop (peek_frame_size (se_input ?s)) (se_input ?s) = []"
    using sent_frame_ready [of H sv request ?frame ?s "[]"] p by simp_all
  have next_s: "next_session ?s = session\<lparr>se_assembling := False\<rparr>"
    using ready(3) p by (cases session) (simp add: next_session_def)
  have handle: "handle_frame H tx ?frame (next_session ?s, sv) = (session', sv')"
    using assms(4) by (simp add: handle_frame_def next_s request_header_def Let_def)
  have "se_input (fst (session', sv')) = se_input (next_session ?s)" unfolding handle [symmetric] by simp
  then have input: "se_input session' = []" using p by (simp add: next_s)
  have "process_input H tx now session' sv' = (session', sv')"
    using input by (subst process_input.simps) simp
  then show ?thesis using process_input_frame [OF ready(1,2) handle, of now] by simp
qed

text \<open>The acknowledgement fits a frame.\<close>

definition ack_fits :: "Limits \<Rightarrow> HelloAckPayload \<Rightarrow> bool" where
  "ack_fits limits ack \<longleftrightarrow> length (fb_encoded (hello_ack_bag ack)) + 96 \<le> max_frame_bytes limits"

lemma hello_ack_bag_ok [simp]: "fb_ok (hello_ack_bag ack)"
  by (simp add: hello_ack_bag_def fb_set_defs)

lemma register_session_sent:
  assumes "register_session H rg (session, sv) = (ack, session', sv')"
  shows "sr_sent sv' = sr_sent sv" "sr_options sv' = sr_options sv" "ha_max_frame_bytes ack = max_frame_bytes (sr_limits sv)"
  using assms by (auto simp: register_session_def Let_def on_store_def add_stats_def case_prod_beta split: if_splits option.splits)

lemma handle_registration_sent:
  assumes "r_value (decode_registration payload (sr_limits sv)) = Some rg"
    and "register_session H rg (session, sv) = (ack, session1, sv1)"
    and "ack_fits (sr_limits sv) ack" and "tx (length (sr_sent sv))" and "max_frame_bytes (sr_limits sv) < 4294967296"
  shows "\<exists>raw sv2. encode_frame H (response_header header MI_HelloAck) (fb_encoded (hello_ack_bag ack)) (sr_limits sv) = Inr raw
    \<and> handle_registration H tx header payload (session, sv)
        = (if ha_accepted ack then session1 else session1\<lparr>se_closing := True\<rparr>, sv2)
    \<and> sr_store sv2 = sr_store sv1 \<and> sr_options sv2 = sr_options sv
    \<and> sr_sent sv2 = sr_sent sv @ [(se_socket session, raw, True)]"
proof -
  note s = register_session_sent [OF assms(2)]
  have sock: "se_socket session1 = se_socket session"
    using register_session_transport [OF assms(2)] by (simp add: same_transport_def)
  have enc: "encode_hello_ack ack (sr_limits sv) = Inr (fb_encoded (hello_ack_bag ack))"
    using assms(3) by (simp add: ack_fits_def encode_hello_ack_def encode_bag_def)
  have dec: "fb_decode (fb_encoded (hello_ack_bag ack)) (sr_limits sv) = r_ok (hello_ack_bag ack)"
    using assms(3,5) by (intro fb_decode_encoded) (simp_all add: ack_fits_def)
  obtain raw where raw: "encode_frame H (response_header header MI_HelloAck) (fb_encoded (hello_ack_bag ack)) (sr_limits sv) = Inr raw"
    using encode_frame_fits [of "response_header header MI_HelloAck" "fb_encoded (hello_ack_bag ack)" "sr_limits sv" H]
      assms(3) by (auto simp: ack_fits_def)
  show ?thesis
    using raw by (auto simp: handle_registration_def assms(1,2) enc dec s(2) send_frame_def s(1) assms(4) sock add_stats_def Let_def)
qed

section \<open>Registration over the wire\<close>

text \<open>What the coordinator's store answers to a registration of this identity and scope.\<close>

abbreviation registration_of :: "Server \<Rightarrow> RegistrationPayload \<Rightarrow> Store \<times> PublisherRecord Result" where
  "registration_of sv rg \<equiv> register_publisher (rg_identity rg)
     (narrow_scope (sv_client_scope (sr_options sv)) (rg_scope rg)) (sr_store sv)"

definition ack_of :: "hash_fun \<Rightarrow> Server \<Rightarrow> PublisherRecord Result \<Rightarrow> HelloAckPayload" where
  "ack_of H sv r = \<lparr>ha_epoch = wm_epoch (s_watermarks (sr_store sv)), ha_accepted = r_has_value r,
     ha_max_frame_bytes = max_frame_bytes (sr_limits sv), ha_protocol_version = kWireProtocolVersion,
     ha_detail = (if r_has_value r then ''registered'' else outcome_name (r_outcome r) @ '': '' @ r_detail r)\<rparr>"

lemma register_session_ack:
  assumes "rg_protocol_version rg = kWireProtocolVersion" and "registration_of sv rg = (st', r)"
  shows "\<exists>session' sv'. register_session H rg (session, sv) = (ack_of H sv r, session', sv') \<and> sr_store sv' = st'
     \<and> session' = (case r_value r of None \<Rightarrow> session
         | Some v \<Rightarrow> session\<lparr>se_registered := True, se_identity := rg_identity rg, se_scope := pr_scope v\<rparr>)"
  using assms by (auto simp: register_session_def Let_def on_store_def ack_of_def watermarks_def r_ok_def r_has_value_def
      add_stats_def split: option.split)

text \<open>
  C16: A hello over the wire is a registration. When a connected client that has nothing under way sends a
  hello, the coordinator's store does what \<^verbatim>\<open>register_publisher\<close> does for that identity, with the scope the
  server's options leave of the one asked for, and sends one buffer; the client that receives it within its
  budget, in whatever chunks, has the answer: accepted, or the outcome and the detail of the refusal. An
  accepted client and its session are paired from then on, under that identity; a refused client is left
  as it was, and its session is closing.
\<close>

theorem hello_registers:
  assumes "met client session sv" and "tx (length (sr_sent sv))"
    and "scope_wf (rg_scope rg)" and "rg_protocol_version rg = kWireProtocolVersion"
    and "register_publisher (rg_identity rg) (narrow_scope (sv_client_scope (sr_options sv)) (rg_scope rg)) (sr_store sv) = (st', r)"
    and "encode_registration rg (ct_limits client) = Inr bytes"
    and "encode_frame H (request_header client MI_Hello) bytes (ct_limits client) = Inr request"
    and "ack_fits (ct_limits client) (ack_of H sv r)"
  shows "\<exists>session' sv' raw. process_input H tx now (session\<lparr>se_input := request\<rparr>) sv = (session', sv')
    \<and> sr_store sv' = st' \<and> raw \<noteq> [] \<and> sr_sent sv' = sr_sent sv @ [(se_socket session, raw, True)]
    \<and> (\<forall>io. xg_sent io \<longrightarrow> delivered (xg_waits io) = raw \<longrightarrow>
         list_all (\<lambda>wait. \<not> final_wait (xg_started io + 20000000000) wait) (xg_waits io) \<longrightarrow>
         (\<exists>client'. hello H rg io client = Some (client', r_ok (ack_of H sv r))
            \<and> (if r_value r = None then client' = client \<and> se_closing session'
               else paired client' session' sv' \<and> se_identity session' = rg_identity rg)))"
proof -
  note p = assms(1) [unfolded met_def]
  have lim: "ct_limits client = sr_limits sv" "max_frame_bytes (sr_limits sv) < 4294967296" using p by simp_all
  let ?h = "(request_header client MI_Hello)\<lparr>fh_payload_bytes := of_nat (length bytes)\<rparr>"
  let ?sv = "add_stats (no_stats\<lparr>ss_frames_received := 1\<rparr>) sv" and ?s = "session\<lparr>se_assembling := False\<rparr>"
  have sv: "sr_store ?sv = sr_store sv" "sr_options ?sv = sr_options sv" "sr_sent ?sv = sr_sent sv"
    by (simp_all add: add_stats_def)
  have ack: "ack_of H ?sv r = ack_of H sv r" by (simp add: ack_of_def sv)
  have dec: "r_value (decode_registration bytes (sr_limits ?sv)) = Some rg"
    using registration.arrives [OF lim(2), of rg bytes] assms(3,6) lim(1)
    by (simp add: registration_wire_ok_def encode_registration_def sv r_ok_def)
  have "registration_of ?sv rg = (st', r)" using assms(5) by (simp add: sv)
  from register_session_ack [OF assms(4) this, of H ?s]
  obtain session1 sv1 where reg: "register_session H rg (?s, ?sv) = (ack_of H sv r, session1, sv1)" "sr_store sv1 = st'"
    "session1 = (case r_value r of None \<Rightarrow> ?s
       | Some v \<Rightarrow> ?s\<lparr>se_registered := True, se_identity := rg_identity rg, se_scope := pr_scope v\<rparr>)"
    unfolding ack by blast
  from handle_registration_sent [OF dec reg(1), of tx, unfolded sv, OF _ assms(2) lim(2), of ?h] assms(8) lim(1)
  obtain raw sv2 where sent: "encode_frame H (response_header ?h MI_HelloAck) (fb_encoded (hello_ack_bag (ack_of H sv r))) (sr_limits sv) = Inr raw"
    "handle_registration H tx ?h bytes (?s, ?sv) = (if ha_accepted (ack_of H sv r) then session1 else session1\<lparr>se_closing := True\<rparr>, sv2)"
    "sr_store sv2 = st'" "sr_options sv2 = sr_options sv" "sr_sent sv2 = sr_sent sv @ [(se_socket ?s, raw, True)]"
    using reg(2) by (simp add: sv) blast
  let ?session = "if ha_accepted (ack_of H sv r) then session1 else session1\<lparr>se_closing := True\<rparr>"
  have frame: "encode_frame H (request_header client MI_Hello) bytes (sr_limits sv) = Inr request"
    using assms(7) lim(1) by simp
  have run: "process_input H tx now (session\<lparr>se_input := request\<rparr>) sv = (?session, sv2)"
    by (rule serve_hello [OF assms(1) registration_length [OF assms(6)] frame sent(2)])
  have "encode_bag (hello_ack_bag (ack_of H sv r)) (sr_limits sv) = Inr (fb_encoded (hello_ack_bag (ack_of H sv r)))"
    using assms(8) lim(1) by (simp add: ack_fits_def encode_bag_def)
  from hello_ack.arrives [OF lim(2) _ this]
  have read: "decode_hello_ack (fb_encoded (hello_ack_bag (ack_of H sv r))) (sr_limits sv) = r_ok (ack_of H sv r)"
    using lim(2) by (simp add: hello_ack_wire_ok_def ack_of_def)
  have accepted: "ha_accepted (ack_of H sv r) \<longleftrightarrow> r_value r \<noteq> None" by (simp add: ack_of_def r_has_value_def)
  have "\<exists>client'. hello H rg io client = Some (client', r_ok (ack_of H sv r))
      \<and> (if r_value r = None then client' = client \<and> se_closing ?session
         else paired client' ?session sv2 \<and> se_identity ?session = rg_identity rg)"
    if io: "xg_sent io" "delivered (xg_waits io) = raw"
      "list_all (\<lambda>wait. \<not> final_wait (xg_started io + 20000000000) wait) (xg_waits io)" for io
  proof -
    have call: "client_call H MI_Hello (encode_registration rg (ct_limits client))
        (\<lambda>bytes. decode_hello_ack bytes (ct_limits client)) io client = Some (client, r_ok (ack_of H sv r))"
      using client_reads [where read = "\<lambda>bytes. decode_hello_ack bytes (ct_limits client)",
          OF assms(1,6) frame sent(1) io] read lim(1) by simp
    let ?client = "if r_value r = None then client
      else client\<lparr>ct_epoch := pi_epoch (rg_identity rg), ct_identity := rg_identity rg\<rparr>"
    have "hello H rg io client = Some (?client, r_ok (ack_of H sv r))"
      unfolding hello_def call using accepted by (auto simp: r_ok_def)
    moreover have "if r_value r = None then ?client = client \<and> se_closing ?session
         else paired ?client ?session sv2 \<and> se_identity ?session = rg_identity rg"
      using p accepted reg(3) by (auto simp: paired_def sent(4) split: option.splits)
    ultimately show ?thesis by blast
  qed
  then show ?thesis
    using run sent(3,5) encode_frame_shape(2) [OF sent(1)]
    by (intro exI [of _ ?session] exI [of _ sv2] exI [of _ raw]) auto
qed

text \<open>A second worker says hello to the sample coordinator; the acknowledgement comes in one chunk.\<close>

definition sample_registration :: RegistrationPayload where
  "sample_registration = \<lparr>rg_role = 1, rg_identity = \<lparr>pi_publisher = 100, pi_boot = 1, pi_epoch = 1\<rparr>,
     rg_scope = scope_fabric, rg_protocol_version = kWireProtocolVersion\<rparr>"

abbreviation sample_registered :: "Store \<times> PublisherRecord Result" where
  "sample_registered \<equiv> register_publisher (rg_identity sample_registration)
     (narrow_scope (sv_client_scope (sr_options sample_server)) (rg_scope sample_registration)) (sr_store sample_server)"

lemma sample_ack_fits:
  assumes "r_value r \<noteq> None"
  shows "ack_fits sample_wire_limits (ack_of H sample_server r)"
proof -
  have "length (fb_encoded (hello_ack_bag (ack_of H sample_server r))) \<le> 300"
    using assms by (simp add: hello_ack_bag_def ack_of_def r_has_value_def wire_size)
  then show ?thesis by (simp add: ack_fits_def sample_wire_limits_def)
qed

theorem hello_registers_witness:
  "\<exists>request raw session' sv' client'.
     process_input sample_hash (\<lambda>_. True) 0 (new_session 7\<lparr>se_input := request\<rparr>) sample_server = (session', sv')
     \<and> sr_store sv' = fst sample_registered
     \<and> map_option fst (hello sample_hash sample_registration
         \<lparr>xg_sent = True, xg_started = 0, xg_waits = [(1, WT_Received raw)]\<rparr> sample_client) = Some client'
     \<and> paired client' session' sv'"
proof -
  obtain st' r where op: "sample_registered = (st', r)" by (cases "sample_registered")
  have "r_value (snd sample_registered) \<noteq> None" by code_simp
  then have ok: "r_value r \<noteq> None" unfolding op by simp
  have "length (fb_encoded (registration_bag sample_registration)) \<le> 500"
    by (simp add: registration_bag_def wire_size)
  then obtain bytes where bytes: "encode_registration sample_registration sample_wire_limits = Inr bytes" "length bytes \<le> 500"
    by (simp add: encode_registration_def encode_bag_def sample_wire_limits_def)
  obtain request where request:
    "encode_frame sample_hash (request_header sample_client MI_Hello) bytes sample_wire_limits = Inr request"
    using sample_request_encoded [OF bytes(2)] by blast
  have met: "met sample_client (new_session 7) sample_server"
    by (simp add: met_def new_session_def sample_client_def new_client_def sample_wire_limits_def)
  have wf: "scope_wf (rg_scope sample_registration)" "rg_protocol_version sample_registration = kWireProtocolVersion"
    by code_simp+
  obtain session' sv' raw where run:
    "process_input sample_hash (\<lambda>_. True) 0 (new_session 7\<lparr>se_input := request\<rparr>) sample_server = (session', sv')"
    "sr_store sv' = st'" "raw \<noteq> []"
    and answers: "\<forall>io. xg_sent io \<longrightarrow> delivered (xg_waits io) = raw \<longrightarrow>
         list_all (\<lambda>wait. \<not> final_wait (xg_started io + 20000000000) wait) (xg_waits io) \<longrightarrow>
         (\<exists>client'. hello sample_hash sample_registration io sample_client
              = Some (client', r_ok (ack_of sample_hash sample_server r))
            \<and> (if r_value r = None then client' = sample_client \<and> se_closing session'
               else paired client' session' sv' \<and> se_identity session' = rg_identity sample_registration))"
    using hello_registers [OF met _ wf op, of "\<lambda>_. True" bytes sample_hash request 0]
      bytes(1) request sample_ack_fits [OF ok] by auto
  have "\<exists>client'. hello sample_hash sample_registration \<lparr>xg_sent = True, xg_started = 0, xg_waits = [(1, WT_Received raw)]\<rparr>
        sample_client = Some (client', r_ok (ack_of sample_hash sample_server r)) \<and> paired client' session' sv'"
    using answers [rule_format, of "\<lparr>xg_sent = True, xg_started = 0, xg_waits = [(1, WT_Received raw)]\<rparr>"] run(3) ok
    by (auto simp: delivered_def final_wait_def)
  then obtain client' where "map_option fst (hello sample_hash sample_registration
      \<lparr>xg_sent = True, xg_started = 0, xg_waits = [(1, WT_Received raw)]\<rparr> sample_client) = Some client'"
    "paired client' session' sv'" by auto
  with run(1,2) show ?thesis unfolding op fst_conv by blast
qed

end
