(* ===== verification/Rpctl_Props.thy ===== *)
theory Rpctl_Props
  imports Rpctl_Online
begin

text \<open>
  What the command-line interface prints online: the answer of the coordinator's store, in the words of the
  offline commands.
\<close>

section \<open>The store of an offline command\<close>

lemma default_store: "make_store default_limits = Inr (new_store default_limits)"
  by (simp add: make_store_def limits_error_def default_limits_def)

section \<open>A call and its print\<close>

lemma called_as_local:
  assumes "remote_as_local H tx now client session sv message payload operation carried call result"
    and "render (result (snd (operation (sr_store sv)))) = e"
  shows "remote_as_local H tx now client session sv message payload operation carried
     (\<lambda>io. map_option (Pair client) (called render (call io))) (\<lambda>_. e)"
  using assms unfolding remote_as_local_def called_def by (fastforce split: prod.splits)

lemma show_query_result: "show_result print (query_result id r) = show_result print r"
  by (cases "r_value r") (simp_all add: show_result_def query_result_def fail_with_def r_ok_def r_failure_def)

lemma show_query_map: "show_result print (query_result f r) = show_result (\<lambda>v. print (f v)) r"
  by (cases "r_value r") (simp_all add: show_result_def query_result_def fail_with_def r_ok_def r_failure_def)

section \<open>Queries\<close>

text \<open>An online run of a command is served as a query and ends as the offline run on the coordinator's store does.\<close>

definition online_is_offline ::
    "hash_fun \<Rightarrow> (nat \<Rightarrow> bool) \<Rightarrow> nat \<Rightarrow> Client \<Rightarrow> SessionState \<Rightarrow> Server \<Rightarrow> Arguments \<Rightarrow> MessageId \<Rightarrow> QueryPayload
     \<Rightarrow> (Store \<Rightarrow> 'b) \<Rightarrow> (Limits \<Rightarrow> 'b \<Rightarrow> bool) \<Rightarrow> bool" where
  "online_is_offline H tx now client session sv a message q ask carried \<longleftrightarrow>
     (\<forall>io_b fs. query_wire_ok (ct_limits client) q \<longrightarrow>
        remote_as_local H tx now client session sv message (encode_query q (ct_limits client)) (\<lambda>st. (st, ask st)) carried
          (\<lambda>io. map_option (Pair client) (online_command H a io client))
          (\<lambda>_. offline_command H io_b fs a (sr_store sv)))"

lemma online_query:
  assumes "query_wire_ok (ct_limits client) q \<Longrightarrow>
      remote_as_local H tx now client session sv message (encode_query q (ct_limits client)) (\<lambda>st. (st, ask st)) carried call result"
    and "\<And>io. online_command H a io client = called render (call io)"
    and "\<And>io_b fs. offline_command H io_b fs a (sr_store sv) = render (result (ask (sr_store sv)))"
  shows "online_is_offline H tx now client session sv a message q ask carried"
  unfolding online_is_offline_def assms(2,3) by (intro allI impI called_as_local [OF assms(1)]) simp_all

lemma remote_queries:
  assumes "paired client session sv" and "tx (length (sr_sent sv))"
  shows "query_wire_ok (ct_limits client) (blank_query\<lparr>qp_lineage := i\<rparr>) \<Longrightarrow> remote_as_local H tx now client session sv
       MI_QueryLineage (encode_query (blank_query\<lparr>qp_lineage := i\<rparr>) (ct_limits client)) (\<lambda>st. (st, lineage_view H i st))
       (query_carried lineage_body lineage_body_ok) (\<lambda>io. client_query_lineage H i io client) (query_result id)"
    and "query_wire_ok (ct_limits client) q \<Longrightarrow> remote_as_local H tx now client session sv
       MI_QueryAncestry (encode_query q (ct_limits client)) (\<lambda>st. (st, query_traversal q st))
       (query_carried traversal_body traversal_body_ok) (\<lambda>io. client_query_traversal H q io client)
       (query_result (\<lambda>t. map fst (tr_nodes t)))"
    and "query_wire_ok (ct_limits client) q \<Longrightarrow> remote_as_local H tx now client session sv
       MI_QueryCause (encode_query q (ct_limits client)) (\<lambda>st. (st, query_explanation H q st))
       (query_carried explanation_body explanation_body_ok) (\<lambda>io. client_query_cause H q io client) (query_result id)"
    and "query_wire_ok (ct_limits client) (blank_query\<lparr>qp_lineage := i\<rparr>) \<Longrightarrow> remote_as_local H tx now client session sv
       MI_SnapshotRequest (encode_query (blank_query\<lparr>qp_lineage := i\<rparr>) (ct_limits client))
       (\<lambda>st. (st, query_snapshot H (blank_query\<lparr>qp_lineage := i\<rparr>) st))
       (query_carried snapshot_body snapshot_body_ok) (\<lambda>io. client_query_snapshot H i io client) (query_result id)"
  using remote_lineage.remote [where tx = tx, OF assms, of MI_QueryLineage "blank_query\<lparr>qp_lineage := i\<rparr>" H now]
    remote_traversal.remote [where tx = tx, OF assms, of MI_QueryAncestry q H now]
    remote_cause.remote [where tx = tx, OF assms, of MI_QueryCause q H now]
    remote_snapshot.remote [where tx = tx, OF assms, of MI_SnapshotRequest "blank_query\<lparr>qp_lineage := i\<rparr>" H now]
  by (simp_all add: client_defs)


definition sample_queried :: Server where
  "sample_queried = sample_server\<lparr>sr_store := sample_published\<rparr>"

definition sample_show :: Arguments where
  "sample_show = default_arguments\<lparr>rc_command := ''lineage'', rc_subcommand := ''show'', rc_lineage := 48\<rparr>"

lemma sample_queried_carried:
  "query_carried lineage_body lineage_body_ok sample_wire_limits (lineage_view sample_hash 48 sample_published)"
proof -
  have "map_option (\<lambda>v. (lv_key v, lv_node_count v, lv_edge_count v, lv_compacted_node_count v))
      (r_value (lineage_view sample_hash 48 sample_published)) = Some (sample_key, 1, 0, 0)"
    by code_simp
  then obtain v where v: "r_value (lineage_view sample_hash 48 sample_published) = Some v" "lv_key v = sample_key"
    "lv_node_count v = 1" "lv_edge_count v = 0" "lv_compacted_node_count v = 0"
    by auto
  have "key_wire_ok sample_wire_limits sample_key"
    by (simp add: key_wire_ok_def sample_key_def sample_wire_limits_def sample_limits_def)
  then have ok: "lineage_body_ok sample_wire_limits v" by (simp add: lineage_body_ok_def v)
  have "length (fb_encoded (lineage_body v fb_empty)) \<le> 300"
    by (simp add: lineage_body_def wire_size v(2) sample_key_def)
  then have "length (fb_encoded (response_bag (answer O_Ok [] (lineage_body v fb_empty)))) \<le> 500"
    by (rule response_length)
  then show ?thesis
    using ok by (simp add: query_carried_def query_reply_def v(1) fits_def sample_wire_limits_def
        lineage_answer.body_ok [OF] answer_def)
qed


end
