(* ===== verification/Spec2Isabelle.thy ===== *)
theory Spec2Isabelle
  imports Coordinator_Props Publisher_Props Remote_Session Rpctl_Props
begin

text \<open>
  Route Provenance: a C++ library that records, per route lineage, a bounded graph of typed
  derivations between content-addressed records, and answers what caused a route state.

  Parts, in the order of the code.
  \<^item> \<open>Prelude\<close>, \<open>Results\<close>, \<open>Ordered_Map\<close>: machine integers, result values, \<^verbatim>\<open>std::map\<close> and
    \<^verbatim>\<open>std::set\<close> as sorted association lists.
  \<^item> \<open>Identity\<close>, \<open>Enums\<close>, \<open>Limits\<close>: \<^verbatim>\<open>id.hpp\<close>, \<^verbatim>\<open>enums.hpp\<close>, \<^verbatim>\<open>limits.hpp\<close>.
  \<^item> \<open>Sha256\<close>, \<open>Canonical\<close>: the hasher, digests and the canonical encoder of \<^verbatim>\<open>digest.hpp\<close> and
    \<^verbatim>\<open>core.cpp\<close>. Identities derived from a hash take the hash as a parameter; the program is the
    instance \<open>digest_hash\<close>.
  \<^item> \<open>Evidence\<close>, \<open>Authority\<close>, \<open>Bindings\<close>, \<open>Node\<close>: the data of a record, its validation, its
    canonical encoding and its identity.
  \<^item> \<open>Graph\<close>, \<open>Graph_Search\<close>, \<open>Graph_Inv\<close>, \<open>Graph_Props\<close>: \<^verbatim>\<open>graph.cpp\<close>, its searches, its
    invariant and what it promises.
  \<^item> \<open>Store\<close>: the store's state (\<^verbatim>\<open>store_internal.hpp\<close>: registry, publisher table, watermarks, the
    reverse indexes), construction, lookups, currentness and re-evaluation. \<open>Commit\<close>: the publication
    pipeline of \<^verbatim>\<open>store.cpp\<close>, one definition per stage, each either refusing (\<open>Some\<close> or \<open>Inl\<close> with the
    result) or passing on, composed in the order of the code.
  \<^item> \<open>Store_Api\<close>: \<^verbatim>\<open>store_api.cpp\<close>: registration, fencing, dependency notifications, the nine
    publication entry points and two-phase sessions. \<open>Explain\<close>: snapshots, diffs and the rendering of
    explanations. \<open>Store_Query\<close>: \<^verbatim>\<open>store_query.cpp\<close>: views, record and index queries, traversals,
    explanations, statistics, compaction.
  \<^item> \<open>Evolve\<close>: the relation "later graph of the same history". \<open>Store_Inv\<close>: the store invariant and that
    every public operation keeps it. \<open>Store_Props\<close>, \<open>Store_Protocol\<close>: what that gives for every reachable
    store: history, generations and authority; attempts that take effect at most once, fences that are final.
    \<open>Store_Samples\<close>: a concrete store for the witnesses.
  \<^item> \<open>Codec\<close>: \<^verbatim>\<open>codec.hpp\<close> and \<^verbatim>\<open>codec.cpp\<close>, the binary writer and reader and the codec of every record;
    the locale \<open>record_codec\<close> is their contract.
  \<^item> \<open>Persistence\<close>: the store image codec of \<^verbatim>\<open>persistence.cpp\<close> with all its checks. \<open>Recovery\<close>: export,
    the atomic replacement of the file, save and load. \<open>Recovery_Props\<close>, \<open>Recovery_Samples\<close>: round trip,
    atomicity, conservative recovery, and the sample store on disk.
  \<^item> \<open>Frame\<close>, \<open>Field_Bag\<close>: the frame envelope of \<^verbatim>\<open>wire.cpp\<close> with its digest trailer, and the class
    \<^verbatim>\<open>FieldBag\<close>, whose decoder loop consumes the bytes before it. \<open>Wire_Sections\<close>: the composite sections of a
    payload (\<^verbatim>\<open>put_authority\<close> and the like, with their readers). \<open>Wire\<close>: the request payloads and their codecs.
    \<open>Wire_Codec\<close>: that requests arrive as sent, by the locale \<open>payload_codec\<close>. \<open>Wire_Bodies\<close>: the response
    bodies, by the locales \<open>framed_codec\<close> and \<open>body_codec\<close>.
  \<^item> \<open>Server\<close>: the coordinator of \<^verbatim>\<open>net.cpp\<close>: \<^verbatim>\<open>SessionState\<close> and \<^verbatim>\<open>Impl\<close> as records, \<^verbatim>\<open>handle_frame\<close> with
    every message, and \<^verbatim>\<open>run\<close> as a sequence of turns (\<open>turn_loop\<close>), whose assembly loop \<open>process_input\<close>
    consumes the input before it. \<open>Server_Inv\<close>: whatever happens, the store moves only by its public
    operations; the passes over the sessions share the locale \<open>session_pass\<close>. \<open>Server_Props\<close>: what is served
    and when, stalled clients, large payloads. \<open>Server_Epoch\<close>: the epoch advance.
  \<^item> \<open>Client\<close>: the client of \<^verbatim>\<open>net.cpp\<close>, its exchange and calls. \<open>Client_Props\<close>: exchanges end, and their
    answer is the next frame of the stream. \<open>Remote\<close>: client, wire, coordinator and store together, one
    locale \<open>remote_call\<close> interpreted for each of the twelve calls. \<open>Remote_Session\<close>: the first exchange, by which a
    client and its session come to be paired, which is what those calls assume.
  \<^item> \<open>Tools\<close>: what the three command-line tools share (number parsers, argument loop, extraction from a line) and
    the version report. \<open>Coordinator\<close>: \<^verbatim>\<open>rp_coordinator.cpp\<close>, the process around a server; \<open>Coordinator_Props\<close>: what
    holds across a restart, with a whole life of the process as its moves. \<open>Publisher\<close>, \<open>Publisher_Script\<close>:
    \<^verbatim>\<open>rp_publisher.cpp\<close>, the payloads and the commands of a script; \<open>Publisher_Props\<close>: a script line is a store
    operation. \<open>Rpctl\<close>, \<open>Rpctl_Online\<close>: \<^verbatim>\<open>rpctl.cpp\<close>, its output with the offline commands, and the online commands;
    \<open>Rpctl_Props\<close>: online and offline queries print the same.

  How the parts interact. Records are content addressed: \<open>Node\<close> derives identities from the canonical
  encoding through the hash parameter. \<open>Graph\<close> keeps the records and derivations of one lineage; \<open>Commit\<close>
  validates a request against the lineage and the publisher table, extends its graph and books the attempt
  in the ledger; \<open>Store_Api\<close> builds the requests. \<open>Recovery\<close> writes what \<open>Store\<close> holds through
  \<open>Persistence\<close> and \<open>Codec\<close>, and rebuilds it. A \<open>Client\<close> call encodes its payload with \<open>Wire\<close>, frames it with
  \<open>Frame\<close>, and the \<open>Server\<close> unframes and decodes it, runs the operation of \<open>Store_Api\<close> or \<open>Store_Query\<close> under
  the identity of the session, and answers with a body of \<open>Wire_Bodies\<close>.

  Errors are values: \<^verbatim>\<open>Status\<close> and \<^verbatim>\<open>Result<T>\<close> are records carrying an outcome and a detail text, a
  fallible inner loop returns a sum. Machine integers are words; counters of containers are naturals, with
  the limit tests of the code. The searches of \<open>Graph\<close> mark the
  records they visit, which is the termination measure of their loops: no fuel is needed.

  Not modelled. Locks and threads: every operation is one atomic step, and two-phase sessions are
  sequences of steps. File input and output: each call is an event that succeeds or fails, and the
  directory is a map from paths to contents; what a crash leaves of an unflushed file beyond that is the
  operating system's. Sockets: what \<^verbatim>\<open>select\<close>, \<^verbatim>\<open>accept\<close>, \<^verbatim>\<open>recv\<close>, \<^verbatim>\<open>send\<close> and the clock answer is an argument of
  each turn and of each exchange, chosen freely by the theorems; an exchange whose waits are used up is
  \<open>None\<close>, and \<open>exchange_ends\<close> says when it is not. The loop inside \<^verbatim>\<open>send_all\<close> is one such answer.
  The tools: standard input, the script file, the ready file and the exchanges of a client are arguments of
  \<open>coordinator_main\<close>, \<open>publisher_main\<close> and \<open>rpctl_main\<close>; an exception that nothing catches is \<open>None\<close> of
  \<open>coordinator_main\<close>, and a run that waits for ever is \<open>None\<close> of the other two. The text of \<^verbatim>\<open>build_info\<close>, made of
  compiler macros, is an argument. Benchmarks, examples and tests, which are callers of the library.
\<close>

end
